(* ===== verification/Prelude.thy ===== *)
theory Prelude
  imports Complex_Main
begin

section \<open>Shared types, JavaScript helpers and table lemmas\<close>

text \<open>
  What every component of the model uses: the HTTP exceptions of NestJS as a datatype and
  results as a sum with the exception on the left; the JavaScript and decimal.js helpers the
  services call (truthiness of optional strings and numbers, \<open>Math.ceil\<close>,
  \<open>toDecimalPlaces(2)\<close>); database tables as lists of rows, in the order the database scans
  them, with look-up, update and paging; and the contract of a status table.

  Times are milliseconds since the epoch (\<open>int\<close>), JavaScript numbers that only ever hold
  integers are \<open>int\<close>, prices and other fractions are exact rationals (the rounding of IEEE
  doubles and the 20 digit precision of decimal.js are not modelled; explicit roundings of the
  source are).
\<close>

named_theorems js_simps \<open>unfolds the JavaScript helpers\<close>

type_synonym ms = int

datatype http_error =
    NotFound string
  | BadRequest string
  | Forbidden string
  | Conflict string
  | InternalError string
  | Unauthorized string

type_synonym 'a res = "http_error + 'a"

text \<open>Handlers give a result and the state after it; \<open>and_then\<close> goes on after a success.\<close>

definition and_then :: "'a res \<times> 'w \<Rightarrow> ('a \<Rightarrow> 'w \<Rightarrow> 'b res \<times> 'w) \<Rightarrow> 'b res \<times> 'w" where
  "and_then m k = (case m of (Inl e, w) \<Rightarrow> (Inl e, w) | (Inr a, w) \<Rightarrow> k a w)"

lemma and_then_simps [simp]:
  "and_then (Inl e, w) k = (Inl e, w)" "and_then (Inr a, w) k = k a w"
  by (simp_all add: and_then_def)

lemma and_then_Inr_iff:
  "and_then m k = (Inr b, w') \<longleftrightarrow> (\<exists>a w. m = (Inr a, w) \<and> k a w = (Inr b, w'))"
  by (auto simp: and_then_def split: prod.split sum.split)

lemma snd_and_then_Inr: "snd (and_then m (\<lambda>r w. (Inr (g r), k r w))) = (case fst m of Inl e \<Rightarrow> snd m | Inr r \<Rightarrow> k r (snd m))"
  by (cases m) (simp add: and_then_def split: sum.split)

text \<open>A property of the state is kept by a sequence of handlers if each keeps it.\<close>

lemma and_then_keeps:
  "Q (snd m) \<Longrightarrow> (\<And>a w. m = (Inr a, w) \<Longrightarrow> Q w \<Longrightarrow> Q (snd (k a w))) \<Longrightarrow> Q (snd (and_then m k))"
  by (cases m) (auto simp: and_then_def split: sum.split)

subsection \<open>JavaScript helpers\<close>

text \<open>An optional string is truthy when it is present and not empty.\<close>

definition truthy_str :: "string option \<Rightarrow> bool" where
  "truthy_str x = (case x of None \<Rightarrow> False | Some s \<Rightarrow> s \<noteq> [])"

text \<open>\<open>x || d\<close> for an optional number: missing and 0 give the default.\<close>

definition num_or :: "'a::zero option \<Rightarrow> 'a \<Rightarrow> 'a" where
  "num_or x d = (case x of None \<Rightarrow> d | Some n \<Rightarrow> if n = 0 then d else n)"

text \<open>\<open>s || d\<close> for an optional string.\<close>

definition str_or :: "string option \<Rightarrow> string \<Rightarrow> string" where
  "str_or x d = (case x of None \<Rightarrow> d | Some s \<Rightarrow> if s = [] then d else s)"

text \<open>A field that may be left out: a default of a destructuring, or the value before an update.\<close>

definition or_old :: "'a option \<Rightarrow> 'a \<Rightarrow> 'a" where
  "or_old x old = (case x of None \<Rightarrow> old | Some a \<Rightarrow> a)"

declare truthy_str_def [js_simps] num_or_def [js_simps] str_or_def [js_simps]

text \<open>\<open>Math.ceil (a / b)\<close> on integers, and \<open>Decimal.toDecimalPlaces(2)\<close>, which rounds half
  away from zero.\<close>

definition ceil_div :: "int \<Rightarrow> int \<Rightarrow> int" where
  "ceil_div a b = \<lceil>Fract a b\<rceil>"

definition to_decimal_places2 :: "rat \<Rightarrow> rat" where
  "to_decimal_places2 x =
     (if x \<ge> 0 then of_int \<lfloor>x * 100 + 1 / 2\<rfloor> / 100 else - (of_int \<lfloor>- x * 100 + 1 / 2\<rfloor> / 100))"

lemma to_decimal_places2_nonneg: "0 \<le> x \<Longrightarrow> 0 \<le> to_decimal_places2 x"
  by (simp add: to_decimal_places2_def)

lemma to_decimal_places2_0 [simp]: "to_decimal_places2 0 = 0"
  by (simp add: to_decimal_places2_def floor_eq_iff)

lemma to_decimal_places2_error: "\<bar>to_decimal_places2 x - x\<bar> \<le> 1 / 200"
proof -
  have *: "\<bar>of_int \<lfloor>y * 100 + 1 / 2\<rfloor> / 100 - y\<bar> \<le> 1 / 200" for y :: rat
  proof -
    have "of_int \<lfloor>y * 100 + 1 / 2\<rfloor> \<le> y * 100 + 1 / 2"
      "y * 100 + 1 / 2 < of_int \<lfloor>y * 100 + 1 / 2\<rfloor> + 1"
      by linarith+
    moreover define r :: rat where "r = of_int \<lfloor>y * 100 + 1 / 2\<rfloor>"
    ultimately have "r \<le> y * 100 + 1 / 2" "y * 100 + 1 / 2 < r + 1" by simp_all
    then show ?thesis unfolding r_def [symmetric] by (simp add: abs_if)
  qed
  show ?thesis
  proof (cases "0 \<le> x")
    case True
    with * [of x] show ?thesis by (simp add: to_decimal_places2_def)
  next
    case False
    then have "to_decimal_places2 x - x = - (of_int \<lfloor>- x * 100 + 1 / 2\<rfloor> / 100 - - x)"
      by (simp add: to_decimal_places2_def)
    with * [of "- x"] show ?thesis by (simp only: abs_minus_cancel)
  qed
qed

lemma to_decimal_places2_mono:
  assumes "x \<le> y"
  shows "to_decimal_places2 x \<le> to_decimal_places2 y"
proof -
  consider "0 \<le> x" | "x < 0" "0 \<le> y" | "y < 0" by linarith
  then show ?thesis
  proof cases
    case 1
    with assms have "\<lfloor>x * 100 + 1 / 2\<rfloor> \<le> \<lfloor>y * 100 + 1 / 2\<rfloor>" by (intro floor_mono) simp
    with 1 assms show ?thesis by (simp add: to_decimal_places2_def divide_right_mono)
  next
    case 2
    then have "0 \<le> to_decimal_places2 y" and "0 \<le> to_decimal_places2 (- x)"
      by (simp_all add: to_decimal_places2_nonneg)
    moreover from 2 have "to_decimal_places2 x = - to_decimal_places2 (- x)"
      by (simp add: to_decimal_places2_def)
    ultimately show ?thesis by simp
  next
    case 3
    with assms have "\<lfloor>- y * 100 + 1 / 2\<rfloor> \<le> \<lfloor>- x * 100 + 1 / 2\<rfloor>" by (intro floor_mono) simp
    with 3 assms show ?thesis by (simp add: to_decimal_places2_def divide_right_mono)
  qed
qed

text \<open>\<open>includes\<close> on strings: the second occurs as a contiguous part of the first.\<close>

fun str_includes :: "string \<Rightarrow> string \<Rightarrow> bool" where
  "str_includes [] p = (p = [])"
| "str_includes (c # cs) p = (take (length p) (c # cs) = p \<or> str_includes cs p)"

definition starts_with :: "string \<Rightarrow> string \<Rightarrow> bool" where
  "starts_with s p = (take (length p) s = p)"

lemma starts_with_iff: "starts_with s p \<longleftrightarrow> (\<exists>t. s = p @ t)"
  unfolding starts_with_def by (metis append_eq_conv_conj append_take_drop_id)

lemma str_includes_iff: "str_includes s p \<longleftrightarrow> (\<exists>a b. s = a @ p @ b)"
proof (induction s)
  case Nil
  show ?case by auto
next
  case (Cons c cs)
  have "take (length p) (c # cs) = p \<longleftrightarrow> (\<exists>b. c # cs = p @ b)"
    by (metis append_eq_conv_conj append_take_drop_id)
  moreover have "(\<exists>a b. c # cs = a @ p @ b) \<longleftrightarrow> (\<exists>b. c # cs = p @ b) \<or> (\<exists>a b. cs = a @ p @ b)"
    by (metis append_Cons append_Nil neq_Nil_conv list.inject)
  ultimately show ?case using Cons.IH by simp
qed

text \<open>\<open>split(sep)\<close> on a one-character separator; always at least one part.\<close>

fun split_on :: "char \<Rightarrow> string \<Rightarrow> string list" where
  "split_on sep [] = [[]]"
| "split_on sep (c # cs) =
     (if c = sep then [] # split_on sep cs
      else case split_on sep cs of [] \<Rightarrow> [[c]] | p # ps \<Rightarrow> (c # p) # ps)"

text \<open>\<open>xs.join(sep)\<close>\<close>

fun join_with :: "string \<Rightarrow> string list \<Rightarrow> string" where
  "join_with sep [] = []"
| "join_with sep [x] = x"
| "join_with sep (x # xs) = x @ sep @ join_with sep xs"

lemma split_on_not_Nil [simp]: "split_on sep s \<noteq> []"
  by (induction s) (auto split: list.splits)

text \<open>\<open>parseInt(s, 10)\<close>: white space is skipped, then an optional sign and the longest run of
  digits; \<open>None\<close> is NaN.\<close>

definition is_digit_char :: "char \<Rightarrow> bool" where
  "is_digit_char c = (48 \<le> (of_char c :: nat) \<and> (of_char c :: nat) \<le> 57)"

fun digits_value :: "int \<Rightarrow> string \<Rightarrow> int" where
  "digits_value acc [] = acc"
| "digits_value acc (c # cs) =
     (if is_digit_char c then digits_value (10 * acc + (int (of_char c) - 48)) cs else acc)"

definition parse_nat_prefix :: "string \<Rightarrow> int option" where
  "parse_nat_prefix s =
     (case s of [] \<Rightarrow> None | c # _ \<Rightarrow> if is_digit_char c then Some (digits_value 0 s) else None)"

definition parse_int :: "string \<Rightarrow> int option" where
  "parse_int s =
     (case dropWhile (\<lambda>c. c = CHR 0x20 \<or> c = CHR 0x09 \<or> c = CHR 0x0A) s of
        [] \<Rightarrow> None
      | c # cs \<Rightarrow>
          if c = CHR ''-'' then map_option uminus (parse_nat_prefix cs)
          else if c = CHR ''+'' then parse_nat_prefix cs
          else parse_nat_prefix (c # cs))"

lemma digits_value_mono: "0 \<le> acc \<Longrightarrow> 0 \<le> digits_value acc cs"
  by (induction acc cs rule: digits_value.induct) (auto simp: is_digit_char_def)

text \<open>\<open>n.toString()\<close>, and \<open>Array.from(new Set(xs))\<close>.\<close>

fun nat_text :: "nat \<Rightarrow> string" where
  "nat_text n = (if n < 10 then [char_of (48 + n)] else nat_text (n div 10) @ [char_of (48 + n mod 10)])"

declare nat_text.simps [simp del]

definition uniq :: "'a list \<Rightarrow> 'a list" where
  "uniq xs = rev (remdups (rev xs))"

lemma set_uniq [simp]: "set (uniq xs) = set xs"
  by (simp add: uniq_def)

lemma distinct_uniq [simp]: "distinct (uniq xs)"
  by (simp add: uniq_def)

lemma digit_char_value: "d < 10 \<Longrightarrow> int (of_char (char_of (48 + d) :: char)) - 48 = int d \<and> is_digit_char (char_of (48 + d))"
  by (simp add: is_digit_char_def of_char_of)

lemma digits_value_snoc:
  "(\<forall>c \<in> set cs. is_digit_char c) \<Longrightarrow> is_digit_char d \<Longrightarrow>
   digits_value acc (cs @ [d]) = 10 * digits_value acc cs + (int (of_char d) - 48)"
  by (induction acc cs rule: digits_value.induct) auto

lemma nat_text_digits: "\<forall>c \<in> set (nat_text n). is_digit_char c"
proof (induction n rule: nat_text.induct)
  case (1 n)
  then show ?case using digit_char_value [of n] digit_char_value [of "n mod 10"]
    by (subst nat_text.simps) (cases "n < 10", simp_all)
qed

lemma digits_value_nat_text: "digits_value 0 (nat_text n) = int n"
proof (induction n rule: nat_text.induct)
  case (1 n)
  show ?case
  proof (cases "n < 10")
    case True
    then show ?thesis using digit_char_value [of n] by (subst nat_text.simps) simp
  next
    case False
    have "digits_value 0 (nat_text (n div 10) @ [char_of (48 + n mod 10)]) = 10 * int (n div 10) + int (n mod 10)"
      using digits_value_snoc [OF nat_text_digits, of "char_of (48 + n mod 10)" 0 "n div 10"] digit_char_value [of "n mod 10"] 1 [OF False]
      by simp
    also have "\<dots> = int n" by presburger
    finally show ?thesis using False by (subst nat_text.simps) simp
  qed
qed

lemma nat_text_inj [simp]: "nat_text m = nat_text n \<longleftrightarrow> m = n"
  by (metis digits_value_nat_text of_nat_eq_iff)

text \<open>ASCII \<open>toUpperCase\<close> and \<open>toLowerCase\<close>.\<close>

definition to_upper_char :: "char \<Rightarrow> char" where
  "to_upper_char c =
     (if 97 \<le> (of_char c :: nat) \<and> (of_char c :: nat) \<le> 122 then char_of ((of_char c :: nat) - 32) else c)"

definition to_upper :: "string \<Rightarrow> string" where
  "to_upper s = map to_upper_char s"

definition to_lower_char :: "char \<Rightarrow> char" where
  "to_lower_char c =
     (if 65 \<le> (of_char c :: nat) \<and> (of_char c :: nat) \<le> 90 then char_of ((of_char c :: nat) + 32) else c)"

definition to_lower :: "string \<Rightarrow> string" where
  "to_lower s = map to_lower_char s"

text \<open>Prisma's \<open>contains\<close> with \<open>mode: 'insensitive'\<close>.\<close>

definition contains_insensitive :: "string \<Rightarrow> string \<Rightarrow> bool" where
  "contains_insensitive s p = str_includes (to_lower s) (to_lower p)"

definition opt_contains :: "string option \<Rightarrow> string \<Rightarrow> bool" where
  "opt_contains s p = (case s of None \<Rightarrow> False | Some t \<Rightarrow> contains_insensitive t p)"

subsection \<open>JSON\<close>

text \<open>
  Strings that hold JSON are kept symbolically: \<open>Stringified j\<close> is the text
  \<open>JSON.stringify\<close> makes of \<open>j\<close>, and \<open>JSON.parse\<close> of it is \<open>j\<close> again; parsing any
  other text throws. The decimal text that INCR stores is \<open>Stringified (JNum n)\<close>.
\<close>

datatype json =
    JNull
  | JBool bool
  | JNum rat
  | JStr jstr
  | JArr "json list"
  | JObj "(string \<times> json) list"
and jstr =
    Plain string
  | Stringified json

fun json_parse :: "jstr \<Rightarrow> json option" where
  "json_parse (Stringified j) = Some j"
| "json_parse (Plain _) = None"

fun json_truthy :: "json \<Rightarrow> bool" where
  "json_truthy JNull = False"
| "json_truthy (JBool b) = b"
| "json_truthy (JNum q) = (q \<noteq> 0)"
| "json_truthy (JStr s) = (s \<noteq> Plain [])"
| "json_truthy (JArr _) = True"
| "json_truthy (JObj _) = True"

text \<open>\<open>JSON.parse(x as string)\<close> on a value that may not be a string: numbers, booleans and
  \<open>null\<close> print and parse to themselves, an object throws. (Arrays throw here too; the program
  never passes one.)\<close>

fun json_parse_value :: "json \<Rightarrow> json option" where
  "json_parse_value (JStr s) = json_parse s"
| "json_parse_value JNull = Some JNull"
| "json_parse_value (JBool b) = Some (JBool b)"
| "json_parse_value (JNum q) = Some (JNum q)"
| "json_parse_value (JArr _) = None"
| "json_parse_value (JObj _) = None"

subsection \<open>Tables\<close>

text \<open>
  A table is the list of its rows in scan order. \<open>find_by\<close> is the look-up by a unique column,
  \<open>update_where\<close> rewrites the rows a condition selects.
\<close>

definition find_by :: "('r \<Rightarrow> 'k) \<Rightarrow> 'k \<Rightarrow> 'r list \<Rightarrow> 'r option" where
  "find_by key k rows = List.find (\<lambda>r. key r = k) rows"

definition update_where :: "('r \<Rightarrow> bool) \<Rightarrow> ('r \<Rightarrow> 'r) \<Rightarrow> 'r list \<Rightarrow> 'r list" where
  "update_where p f rows = map (\<lambda>r. if p r then f r else r) rows"

definition update_by :: "('r \<Rightarrow> 'k) \<Rightarrow> 'k \<Rightarrow> ('r \<Rightarrow> 'r) \<Rightarrow> 'r list \<Rightarrow> 'r list" where
  "update_by key k f rows = update_where (\<lambda>r. key r = k) f rows"

lemma find_by_Nil [simp]: "find_by key k [] = None"
  by (simp add: find_by_def)

lemma find_by_Cons [simp]:
  "find_by key k (r # rows) = (if key r = k then Some r else find_by key k rows)"
  by (simp add: find_by_def)

lemma find_by_append [simp]:
  "find_by key k (xs @ ys) = (case find_by key k xs of None \<Rightarrow> find_by key k ys | Some r \<Rightarrow> Some r)"
  by (induction xs) auto

lemma find_by_SomeD: "find_by key k rows = Some r \<Longrightarrow> key r = k \<and> r \<in> set rows"
  by (induction rows) (auto split: if_splits)

lemma find_by_None_iff: "find_by key k rows = None \<longleftrightarrow> k \<notin> key ` set rows"
  by (induction rows) auto

lemma find_by_distinct:
  "distinct (map key rows) \<Longrightarrow> r \<in> set rows \<Longrightarrow> find_by key (key r) rows = Some r"
  by (induction rows) (auto simp: rev_image_eqI)

lemma update_where_Nil [simp]: "update_where p f [] = []"
  by (simp add: update_where_def)

lemma update_where_Cons [simp]:
  "update_where p f (r # rows) = (if p r then f r else r) # update_where p f rows"
  by (simp add: update_where_def)

lemma length_update_where [simp]: "length (update_where p f rows) = length rows"
  by (simp add: update_where_def)

lemma set_update_where: "set (update_where p f rows) = (\<lambda>r. if p r then f r else r) ` set rows"
  by (simp add: update_where_def)

lemma keys_update_where:
  "(\<And>r. key (f r) = key r) \<Longrightarrow> map key (update_where p f rows) = map key rows"
  by (induction rows) auto

lemma find_by_update_where:
  "(\<And>r. key (f r) = key r) \<Longrightarrow>
   find_by key k (update_where p f rows) =
     map_option (\<lambda>r. if p r then f r else r) (find_by key k rows)"
  by (induction rows) auto

lemma update_by_simps [simp]:
  "update_by key k f [] = []"
  "update_by key k f (r # rows) = (if key r = k then f r else r) # update_by key k f rows"
  by (simp_all add: update_by_def)

lemma find_by_update_by:
  assumes "\<And>r. key (f r) = key r"
  shows "find_by key k (update_by key k' f rows) =
     (if k = k' then map_option f (find_by key k rows) else find_by key k rows)"
  using assms by (induction rows) (auto simp: update_by_def)

lemma keys_update_by:
  "(\<And>r. key (f r) = key r) \<Longrightarrow> map key (update_by key k f rows) = map key rows"
  by (simp add: update_by_def keys_update_where)

lemma length_update_by [simp]: "length (update_by key k f rows) = length rows"
  by (simp add: update_by_def)

lemma update_by_absent: "find_by key k rows = None \<Longrightarrow> update_by key k f rows = rows"
  by (induction rows) (auto simp: update_by_def split: if_splits)

text \<open>An update of the row with one key keeps a column unique when the new value is in no other row.\<close>

lemma distinct_update_by:
  assumes "distinct (map k ps)" "distinct (map g (filter P ps))"
    "\<And>r x. r \<in> set ps \<Longrightarrow> k r = i \<Longrightarrow> P (f r) \<Longrightarrow> x \<in> set ps \<Longrightarrow> k x \<noteq> i \<Longrightarrow> P x \<Longrightarrow> g x \<noteq> g (f r)"
  shows "distinct (map g (filter P (update_by k i f ps)))"
  using assms
proof (induction ps)
  case (Cons a ps)
  show ?case
  proof (cases "k a = i")
    case True
    then have "find_by k i ps = None" using Cons.prems(1) by (auto simp: find_by_None_iff)
    then have "update_by k i f (a # ps) = f a # ps" using True by (simp add: update_by_absent)
    moreover have "g (f a) \<notin> g ` set (filter P ps)" if "P (f a)"
      using Cons.prems(3) [of a] True that Cons.prems(1) by (auto simp: image_iff) metis
    ultimately show ?thesis using Cons.prems(2) by (auto split: if_splits)
  next
    case False
    have IH: "distinct (map g (filter P (update_by k i f ps)))" using Cons.IH Cons.prems by (auto split: if_splits)
    have "g a \<notin> g ` set (filter P (update_by k i f ps))" if a: "P a"
    proof
      assume "g a \<in> g ` set (filter P (update_by k i f ps))"
      then obtain r where r: "r \<in> set ps" "P (if k r = i then f r else r)" "g a = g (if k r = i then f r else r)"
        by (auto simp: update_by_def set_update_where)
      then show False
        using Cons.prems(2) a Cons.prems(3) [of r a] False by (cases "k r = i") auto
    qed
    then show ?thesis using IH False by auto
  qed
qed simp

text \<open>A JavaScript \<open>Map\<close> as an association list in insertion order: setting a key that is present
  keeps its place.\<close>

fun js_map_set :: "'k \<Rightarrow> 'v \<Rightarrow> ('k \<times> 'v) list \<Rightarrow> ('k \<times> 'v) list" where
  "js_map_set k v [] = [(k, v)]"
| "js_map_set k v ((k', v') # m) = (if k' = k then (k, v) # m else (k', v') # js_map_set k v m)"

lemma map_of_js_map_set [simp]: "map_of (js_map_set k v m) = (map_of m)(k \<mapsto> v)"
  by (induction m) auto

lemma js_map_set_all:
  "list_all P m \<Longrightarrow> P (k, v) \<Longrightarrow> list_all P (js_map_set k v m)"
  by (induction m) auto

lemma length_js_map_set: "length (js_map_set k v m) \<le> Suc (length m)"
  by (induction m) auto

text \<open>\<open>orderBy\<close> with a comparison of rows; rows that compare equal stay in scan order.\<close>

fun insert_by :: "('r \<Rightarrow> 'r \<Rightarrow> bool) \<Rightarrow> 'r \<Rightarrow> 'r list \<Rightarrow> 'r list" where
  "insert_by le x [] = [x]"
| "insert_by le x (y # ys) = (if le x y then x # y # ys else y # insert_by le x ys)"

definition sort_by :: "('r \<Rightarrow> 'r \<Rightarrow> bool) \<Rightarrow> 'r list \<Rightarrow> 'r list" where
  "sort_by le xs = foldr (insert_by le) xs []"

lemma set_insert_by [simp]: "set (insert_by le x ys) = insert x (set ys)"
  by (induction ys) auto

lemma length_insert_by [simp]: "length (insert_by le x ys) = Suc (length ys)"
  by (induction ys) auto

lemma set_sort_by [simp]: "set (sort_by le xs) = set xs"
  by (induction xs) (auto simp: sort_by_def)

lemma length_sort_by [simp]: "length (sort_by le xs) = length xs"
  by (induction xs) (auto simp: sort_by_def)

lemma distinct_sort_by [simp]: "distinct (sort_by le xs) = distinct xs"
  by (metis card_distinct distinct_card length_sort_by set_sort_by)

text \<open>The first row of a sorted table is before all others.\<close>

lemma sort_by_hd:
  assumes total: "\<And>x y. le x y \<or> le y x" and trans: "\<And>x y z. le x y \<Longrightarrow> le y z \<Longrightarrow> le x z"
    and "sort_by le xs = r # rs"
  shows "r \<in> set xs \<and> (\<forall>x \<in> set xs. le r x)"
proof -
  have ins: "insert_by le x ys = r # rs \<Longrightarrow> \<forall>y \<in> set ys. le (hd ys) y \<Longrightarrow> le r x \<and> (\<forall>y \<in> set ys. le r y)" for x ys r rs
  proof (cases ys)
    case (Cons y ys')
    assume a: "insert_by le x ys = r # rs" "\<forall>y \<in> set ys. le (hd ys) y"
    show ?thesis
    proof (cases "le x y")
      case True
      then have "r = x" using a(1) Cons by simp
      moreover have "le x x" using total by blast
      ultimately show ?thesis using a(2) Cons True trans by (metis list.sel(1))
    next
      case False
      then have "r = y" using a(1) Cons by simp
      then show ?thesis using a(2) Cons False total by auto
    qed
  qed (use total in auto)
  have "sort_by le xs = r # rs \<Longrightarrow> \<forall>x \<in> set xs. le r x" for r rs
  proof (induction xs arbitrary: r rs)
    case (Cons x xs)
    have "sort_by le (x # xs) = insert_by le x (sort_by le xs)" by (simp add: sort_by_def)
    moreover have "\<forall>y \<in> set (sort_by le xs). le (hd (sort_by le xs)) y"
      using Cons.IH by (cases "sort_by le xs") (auto simp flip: set_sort_by [of le xs])
    ultimately show ?case using ins [of x "sort_by le xs" r rs] Cons.prems by simp
  qed (simp add: sort_by_def)
  moreover have "r \<in> set xs" using assms(3) by (metis list.set_intros(1) set_sort_by)
  ultimately show ?thesis using assms(3) by blast
qed

subsection \<open>Paging\<close>

text \<open>\<open>skip: (page - 1) * limit, take: limit\<close>, and \<open>Math.ceil(total / limit)\<close>.\<close>

definition page_rows :: "int \<Rightarrow> int \<Rightarrow> 'r list \<Rightarrow> 'r list" where
  "page_rows page limit rows = take (nat limit) (drop (nat ((page - 1) * limit)) rows)"

definition total_pages :: "int \<Rightarrow> int \<Rightarrow> int" where
  "total_pages n limit = ceil_div n limit"

lemma ceil_div_bounds:
  assumes "0 < b"
  shows "a \<le> ceil_div a b * b" and "(ceil_div a b - 1) * b < a"
proof -
  have "Fract a b \<le> of_int (ceil_div a b)" and "of_int (ceil_div a b) < Fract a b + 1"
    unfolding ceil_div_def by linarith+
  with assms have "(of_int a :: rat) \<le> of_int (ceil_div a b * b)"
    and "(of_int ((ceil_div a b - 1) * b) :: rat) < of_int a"
    by (simp_all add: Fract_of_int_quotient field_simps)
  then show "a \<le> ceil_div a b * b" and "(ceil_div a b - 1) * b < a"
    by (simp_all only: of_int_le_iff of_int_less_iff)
qed

lemma pages_prefix:
  assumes "0 < limit"
  shows "concat (map (\<lambda>p. page_rows (int p) limit rows) [1..<Suc n]) = take (n * nat limit) rows"
proof (induction n)
  case 0
  show ?case by simp
next
  case (Suc n)
  have "nat ((int (Suc n) - 1) * limit) = n * nat limit"
    using assms by (simp add: nat_mult_distrib)
  then have "page_rows (int (Suc n)) limit rows = take (nat limit) (drop (n * nat limit) rows)"
    by (simp add: page_rows_def)
  with Suc have "concat (map (\<lambda>p. page_rows (int p) limit rows) [1..<Suc (Suc n)]) =
      take (n * nat limit) rows @ take (nat limit) (drop (n * nat limit) rows)"
    by simp
  also have "\<dots> = take (n * nat limit + nat limit) rows" by (simp only: take_add)
  finally show ?case by (simp only: mult_Suc add.commute)
qed

lemma pages_cover:
  assumes "0 < limit"
  shows "concat (map (\<lambda>p. page_rows (int p) limit rows)
      [1..<Suc (nat (total_pages (int (length rows)) limit))]) = rows"
proof -
  let ?n = "nat (total_pages (int (length rows)) limit)"
  have "int (length rows) \<le> total_pages (int (length rows)) limit * limit"
    using ceil_div_bounds(1) [OF assms] by (simp add: total_pages_def)
  moreover from this assms have "0 \<le> total_pages (int (length rows)) limit"
    by (metis mult_neg_pos not_le of_nat_0_le_iff order_trans)
  ultimately have "length rows \<le> ?n * nat limit"
    using assms by (simp add: nat_mult_distrib [symmetric] le_nat_iff)
  then show ?thesis by (simp only: pages_prefix [OF assms] take_all)
qed

subsection \<open>Status tables\<close>

text \<open>
  Several services keep a status column and a table of the moves it may make. The contract: a
  rank that every allowed move raises. A column under such a table never returns to a status it
  left, and no history is longer than the ranks allow.
\<close>

fun moves_along :: "('s \<Rightarrow> 's \<Rightarrow> bool) \<Rightarrow> 's \<Rightarrow> 's list \<Rightarrow> bool" where
  "moves_along ok s [] = True"
| "moves_along ok s (t # ts) = (ok s t \<and> moves_along ok t ts)"

locale status_table =
  fixes ok :: "'s \<Rightarrow> 's \<Rightarrow> bool"
    and rank :: "'s \<Rightarrow> nat"
    and top :: nat
  assumes ok_rank: "ok s t \<Longrightarrow> rank s < rank t"
    and rank_top: "rank s \<le> top"
begin

lemma moves_raise: "moves_along ok s ts \<Longrightarrow> t \<in> set ts \<Longrightarrow> rank s < rank t"
proof (induction ts arbitrary: s)
  case Nil
  then show ?case by simp
next
  case (Cons u us)
  then show ?case using ok_rank [of s u] by (auto intro: order_less_trans)
qed

lemma never_back: "moves_along ok s ts \<Longrightarrow> s \<notin> set ts"
  using moves_raise by blast

lemma history_bound: "moves_along ok s ts \<Longrightarrow> rank s + length ts \<le> top"
proof (induction ts arbitrary: s)
  case Nil
  then show ?case by (simp add: rank_top)
next
  case (Cons u us)
  then show ?case using ok_rank [of s u] by fastforce
qed

lemma distinct_history: "moves_along ok s ts \<Longrightarrow> distinct (s # ts)"
proof (induction ts arbitrary: s)
  case Nil
  then show ?case by simp
next
  case (Cons u us)
  then have "moves_along ok u us" by simp
  then have "distinct (u # us)" by (rule Cons.IH)
  with never_back [OF Cons.prems] show ?case by simp
qed

end

end
