(* ===== verification/Redis_Service.thy ===== *)
theory Redis_Service
  imports Prelude
begin

section \<open>The Redis service (src/src/database/redis.service.ts)\<close>

text \<open>
  \<open>RedisService\<close> wraps the ioredis client. The client and the server behind it are not code of
  the repository: the client is a parameter, a record of the commands the service calls over an
  abstract server state, each of which may fail with an error. What the documentation of the
  commands promises is the locale \<open>redis_server\<close>; \<open>mem_client\<close> is a server in memory that
  keeps those promises. The service itself is modelled method by method: the availability check,
  the call, the \<open>catch\<close> that turns an error into a neutral answer.
\<close>

subsection \<open>The client\<close>

record 's redis_client =
  cl_get :: "ms \<Rightarrow> string \<Rightarrow> 's \<Rightarrow> string + jstr option"
  cl_setex :: "ms \<Rightarrow> string \<Rightarrow> int \<Rightarrow> jstr \<Rightarrow> 's \<Rightarrow> string + 's"
  cl_del :: "ms \<Rightarrow> string list \<Rightarrow> 's \<Rightarrow> string + 's"
  cl_keys :: "ms \<Rightarrow> string \<Rightarrow> 's \<Rightarrow> string + string list"
  cl_exists :: "ms \<Rightarrow> string \<Rightarrow> 's \<Rightarrow> string + int"
  cl_ttl :: "ms \<Rightarrow> string \<Rightarrow> 's \<Rightarrow> string + int"
  cl_incrby :: "ms \<Rightarrow> string \<Rightarrow> int \<Rightarrow> 's \<Rightarrow> string + int \<times> 's"
  cl_expire :: "ms \<Rightarrow> string \<Rightarrow> int \<Rightarrow> 's \<Rightarrow> string + int \<times> 's"
  cl_flushdb :: "'s \<Rightarrow> string + 's"

record 's redis_service =
  client :: "'s redis_client option"
  isConnected :: bool
  isShuttingDown :: bool
  server :: 's

definition is_available :: "'s redis_service \<Rightarrow> bool" where
  "is_available rs = (client rs \<noteq> None \<and> isConnected rs \<and> \<not> isShuttingDown rs)"

text \<open>Each method starts with the availability check; \<open>live_client\<close> is the client past it.\<close>

definition live_client :: "'s redis_service \<Rightarrow> 's redis_client option" where
  "live_client rs = (if is_available rs then client rs else None)"

definition redis_get :: "'s redis_service \<Rightarrow> ms \<Rightarrow> string \<Rightarrow> json" where
  "redis_get rs now key =
     (case live_client rs of
        None \<Rightarrow> JNull
      | Some c \<Rightarrow>
          (case cl_get c now key (server rs) of
             Inl _ \<Rightarrow> JNull
           | Inr None \<Rightarrow> JNull
           | Inr (Some v) \<Rightarrow>
               if v = Plain [] then JNull
               else (case json_parse v of None \<Rightarrow> JNull | Some j \<Rightarrow> j)))"

definition redis_set :: "'s redis_service \<Rightarrow> ms \<Rightarrow> string \<Rightarrow> json \<Rightarrow> int \<Rightarrow> bool \<times> 's redis_service" where
  "redis_set rs now key val ttlSeconds =
     (case live_client rs of
        None \<Rightarrow> (False, rs)
      | Some c \<Rightarrow>
          (case cl_setex c now key ttlSeconds (Stringified val) (server rs) of
             Inl _ \<Rightarrow> (False, rs)
           | Inr s \<Rightarrow> (True, rs\<lparr>server := s\<rparr>)))"

definition redis_delete :: "'s redis_service \<Rightarrow> ms \<Rightarrow> string \<Rightarrow> bool \<times> 's redis_service" where
  "redis_delete rs now key =
     (case live_client rs of
        None \<Rightarrow> (False, rs)
      | Some c \<Rightarrow>
          (case cl_del c now [key] (server rs) of
             Inl _ \<Rightarrow> (False, rs)
           | Inr s \<Rightarrow> (True, rs\<lparr>server := s\<rparr>)))"

definition redis_delete_pattern :: "'s redis_service \<Rightarrow> ms \<Rightarrow> string \<Rightarrow> nat \<times> 's redis_service" where
  "redis_delete_pattern rs now pat =
     (case live_client rs of
        None \<Rightarrow> (0, rs)
      | Some c \<Rightarrow>
          (case cl_keys c now pat (server rs) of
             Inl _ \<Rightarrow> (0, rs)
           | Inr ks \<Rightarrow>
               if ks = [] then (0, rs)
               else (case cl_del c now ks (server rs) of
                       Inl _ \<Rightarrow> (0, rs)
                     | Inr s \<Rightarrow> (length ks, rs\<lparr>server := s\<rparr>))))"

definition redis_exists :: "'s redis_service \<Rightarrow> ms \<Rightarrow> string \<Rightarrow> bool" where
  "redis_exists rs now key =
     (case live_client rs of
        None \<Rightarrow> False
      | Some c \<Rightarrow> (case cl_exists c now key (server rs) of Inl _ \<Rightarrow> False | Inr n \<Rightarrow> n = 1))"

definition redis_ttl :: "'s redis_service \<Rightarrow> ms \<Rightarrow> string \<Rightarrow> int" where
  "redis_ttl rs now key =
     (case live_client rs of
        None \<Rightarrow> - 2
      | Some c \<Rightarrow> (case cl_ttl c now key (server rs) of Inl _ \<Rightarrow> - 2 | Inr n \<Rightarrow> n))"

definition redis_increment_by :: "'s redis_service \<Rightarrow> ms \<Rightarrow> string \<Rightarrow> int \<Rightarrow> int \<times> 's redis_service" where
  "redis_increment_by rs now key amount =
     (case live_client rs of
        None \<Rightarrow> (0, rs)
      | Some c \<Rightarrow>
          (case cl_incrby c now key amount (server rs) of
             Inl _ \<Rightarrow> (0, rs)
           | Inr (n, s) \<Rightarrow> (n, rs\<lparr>server := s\<rparr>)))"

text \<open>INCR is INCRBY 1 (Redis documentation).\<close>

definition redis_increment :: "'s redis_service \<Rightarrow> ms \<Rightarrow> string \<Rightarrow> int \<times> 's redis_service" where
  "redis_increment rs now key =
     (case live_client rs of
        None \<Rightarrow> (0, rs)
      | Some c \<Rightarrow>
          (case cl_incrby c now key 1 (server rs) of
             Inl _ \<Rightarrow> (0, rs)
           | Inr (n, s) \<Rightarrow> (n, rs\<lparr>server := s\<rparr>)))"

definition redis_set_expiration :: "'s redis_service \<Rightarrow> ms \<Rightarrow> string \<Rightarrow> int \<Rightarrow> bool \<times> 's redis_service" where
  "redis_set_expiration rs now key seconds =
     (case live_client rs of
        None \<Rightarrow> (False, rs)
      | Some c \<Rightarrow>
          (case cl_expire c now key seconds (server rs) of
             Inl _ \<Rightarrow> (False, rs)
           | Inr (n, s) \<Rightarrow> (n = 1, rs\<lparr>server := s\<rparr>)))"

definition redis_flush_all :: "'s redis_service \<Rightarrow> bool \<times> 's redis_service" where
  "redis_flush_all rs =
     (case live_client rs of
        None \<Rightarrow> (False, rs)
      | Some c \<Rightarrow>
          (case cl_flushdb c (server rs) of
             Inl _ \<Rightarrow> (False, rs)
           | Inr s \<Rightarrow> (True, rs\<lparr>server := s\<rparr>)))"

definition redis_on_module_destroy :: "'s redis_service \<Rightarrow> 's redis_service" where
  "redis_on_module_destroy rs =
     (if client rs \<noteq> None \<and> \<not> isShuttingDown rs then rs\<lparr>isShuttingDown := True\<rparr> else rs)"

text \<open>Without a live client every method answers neutrally and changes nothing.\<close>

lemmas redis_unavailable_simps =
  redis_get_def redis_set_def redis_delete_def redis_delete_pattern_def redis_exists_def
  redis_ttl_def redis_increment_def redis_increment_by_def redis_set_expiration_def
  redis_flush_all_def

lemma is_available_after_destroy: "\<not> is_available (redis_on_module_destroy rs)"
  by (auto simp: is_available_def redis_on_module_destroy_def)

subsection \<open>The documented behaviour of the server\<close>

text \<open>The content of the server: per key the text and, if set, the time of its expiry.\<close>

type_synonym entry = "(jstr \<times> ms option) option"

fun live :: "ms \<Rightarrow> entry \<Rightarrow> jstr option" where
  "live now None = None"
| "live now (Some (v, None)) = Some v"
| "live now (Some (v, Some e)) = (if now < e then Some v else None)"

definition expiry :: "ms \<Rightarrow> entry \<Rightarrow> ms option" where
  "expiry now e = (if live now e = None then None else (case e of None \<Rightarrow> None | Some (_, t) \<Rightarrow> t))"

text \<open>The number INCRBY starts from: 0 for a missing key, an error for a text that is no integer.\<close>

definition counter :: "ms \<Rightarrow> entry \<Rightarrow> int option" where
  "counter now e =
     (case live now e of
        None \<Rightarrow> Some 0
      | Some (Stringified (JNum q)) \<Rightarrow> if of_int \<lfloor>q\<rfloor> = q then Some \<lfloor>q\<rfloor> else None
      | Some _ \<Rightarrow> None)"

lemma counter_None [simp]: "counter now None = Some 0"
  by (simp add: counter_def)

lemma counter_numeral:
  "\<exists>m. counter now (Some (Stringified (JNum (of_int n)), e)) = Some m"
  by (cases e) (auto simp: counter_def)

locale redis_server =
  fixes c :: "'s redis_client"
    and view :: "'s \<Rightarrow> string \<Rightarrow> entry"
  assumes get_law: "cl_get c now k s = Inr (live now (view s k))"
    and setex_law: "0 < ttl \<Longrightarrow>
      \<exists>s'. cl_setex c now k ttl v s = Inr s' \<and> view s' = (view s)(k \<mapsto> (v, Some (now + 1000 * ttl)))"
    and del_law: "\<exists>s'. cl_del c now ks s = Inr s' \<and> view s' = (view s) |` (- set ks)"
    and incrby_law: "counter now (view s k) = Some n \<Longrightarrow>
      \<exists>s'. cl_incrby c now k a s = Inr (n + a, s') \<and>
        view s' = (view s)(k \<mapsto> (Stringified (JNum (of_int (n + a))), expiry now (view s k)))"
    and expire_law: "live now (view s k) = Some v \<Longrightarrow> 0 < secs \<Longrightarrow>
      \<exists>s'. cl_expire c now k secs s = Inr (1, s') \<and> view s' = (view s)(k \<mapsto> (v, Some (now + 1000 * secs)))"
    and expire_now_law: "live now (view s k) = Some v \<Longrightarrow> secs \<le> 0 \<Longrightarrow>
      \<exists>s'. cl_expire c now k secs s = Inr (1, s') \<and> view s' = (view s)(k := None)"
begin

definition up :: "'s redis_service \<Rightarrow> bool" where
  "up rs = (client rs = Some c \<and> isConnected rs \<and> \<not> isShuttingDown rs)"

definition content :: "'s redis_service \<Rightarrow> string \<Rightarrow> entry" where
  "content rs = view (server rs)"

lemma up_live_client [simp]: "up rs \<Longrightarrow> live_client rs = Some c"
  by (simp add: up_def live_client_def is_available_def)

lemma up_server [simp]: "up (rs\<lparr>server := s\<rparr>) = up rs"
  by (simp add: up_def)

lemma get_up:
  "up rs \<Longrightarrow> redis_get rs now k =
     (case live now (content rs k) of
        Some (Stringified j) \<Rightarrow> j
      | _ \<Rightarrow> JNull)"
  by (auto simp: redis_get_def get_law content_def split: option.split jstr.split)

lemma set_up:
  assumes "up rs" "0 < ttl"
  obtains rs' where "redis_set rs now k v ttl = (True, rs')" "up rs'"
    "content rs' = (content rs)(k \<mapsto> (Stringified v, Some (now + 1000 * ttl)))"
proof -
  obtain s' where "cl_setex c now k ttl (Stringified v) (server rs) = Inr s'"
    and "view s' = (view (server rs))(k \<mapsto> (Stringified v, Some (now + 1000 * ttl)))"
    using setex_law [OF assms(2)] by blast
  with assms show thesis
    by (intro that [of "rs\<lparr>server := s'\<rparr>"]) (simp_all add: redis_set_def content_def)
qed

lemma delete_up:
  assumes "up rs"
  obtains rs' where "redis_delete rs now k = (True, rs')" "up rs'"
    "content rs' = (content rs)(k := None)"
proof -
  obtain s' where "cl_del c now [k] (server rs) = Inr s'"
    and "view s' = (view (server rs)) |` (- {k})"
    using del_law [of now "[k]" "server rs"] by auto
  with assms show thesis
    by (intro that [of "rs\<lparr>server := s'\<rparr>"])
      (simp_all add: redis_delete_def content_def restrict_map_def fun_eq_iff)
qed

lemma increment_up:
  assumes "up rs" "counter now (content rs k) = Some n"
  obtains rs' where "redis_increment rs now k = (n + 1, rs')" "up rs'"
    "content rs' = (content rs)(k \<mapsto> (Stringified (JNum (of_int (n + 1))), expiry now (content rs k)))"
proof -
  obtain s' where "cl_incrby c now k 1 (server rs) = Inr (n + 1, s')"
    and "view s' = (view (server rs))(k \<mapsto> (Stringified (JNum (of_int (n + 1))), expiry now (view (server rs) k)))"
    using incrby_law assms(2) unfolding content_def by blast
  with assms show thesis
    by (intro that [of "rs\<lparr>server := s'\<rparr>"]) (simp_all add: redis_increment_def content_def)
qed

lemma set_expiration_up:
  assumes "up rs" "live now (content rs k) = Some v" "0 < secs"
  obtains rs' where "redis_set_expiration rs now k secs = (True, rs')" "up rs'"
    "content rs' = (content rs)(k \<mapsto> (v, Some (now + 1000 * secs)))"
proof -
  obtain s' where "cl_expire c now k secs (server rs) = Inr (1, s')"
    and "view s' = (view (server rs))(k \<mapsto> (v, Some (now + 1000 * secs)))"
    using expire_law assms(2,3) unfolding content_def by blast
  with assms show thesis
    by (intro that [of "rs\<lparr>server := s'\<rparr>"]) (simp_all add: redis_set_expiration_def content_def)
qed

lemma increment_by_up:
  assumes "up rs" "counter now (content rs k) = Some n"
  obtains rs' where "redis_increment_by rs now k a = (n + a, rs')" "up rs'"
    "content rs' = (content rs)(k \<mapsto> (Stringified (JNum (of_int (n + a))), expiry now (content rs k)))"
proof -
  obtain s' where "cl_incrby c now k a (server rs) = Inr (n + a, s')"
    and "view s' = (view (server rs))(k \<mapsto> (Stringified (JNum (of_int (n + a))), expiry now (view (server rs) k)))"
    using incrby_law assms(2) unfolding content_def by blast
  with assms show thesis
    by (intro that [of "rs\<lparr>server := s'\<rparr>"]) (simp_all add: redis_increment_by_def content_def)
qed

text \<open>EXPIRE with a timeout that is not positive deletes the key.\<close>

lemma expire_now_up:
  assumes "up rs" "live now (content rs k) = Some v" "secs \<le> 0"
  obtains rs' where "redis_set_expiration rs now k secs = (True, rs')" "up rs'" "content rs' = (content rs)(k := None)"
proof -
  obtain s' where "cl_expire c now k secs (server rs) = Inr (1, s')" and "view s' = (view (server rs))(k := None)"
    using expire_now_law assms(2,3) unfolding content_def by blast
  with assms show thesis
    by (intro that [of "rs\<lparr>server := s'\<rparr>"]) (simp_all add: redis_set_expiration_def content_def)
qed

end

subsection \<open>What the callers of the service rely on\<close>

text \<open>
  The contract of a cache with expiry: a value that was set is read back until its time is up,
  other keys are untouched, a deleted key reads as \<open>null\<close>. The service keeps it whenever its
  server behaves as documented.
\<close>

locale kv_cache =
  fixes ready :: "'w \<Rightarrow> bool"
    and get :: "'w \<Rightarrow> ms \<Rightarrow> string \<Rightarrow> json"
    and set_val :: "'w \<Rightarrow> ms \<Rightarrow> string \<Rightarrow> json \<Rightarrow> int \<Rightarrow> 'w"
    and del :: "'w \<Rightarrow> ms \<Rightarrow> string \<Rightarrow> 'w"
  assumes ready_set: "ready w \<Longrightarrow> 0 < ttl \<Longrightarrow> ready (set_val w now k v ttl)"
    and ready_del: "ready w \<Longrightarrow> ready (del w now k)"
    and get_set: "ready w \<Longrightarrow> 0 < ttl \<Longrightarrow>
      get (set_val w now k v ttl) t k' =
        (if k' = k then (if t < now + 1000 * ttl then v else JNull) else get w t k')"
    and get_del: "ready w \<Longrightarrow> get (del w now k) t k' = (if k' = k then JNull else get w t k')"
begin

lemma get_set_fresh: "ready w \<Longrightarrow> 0 < ttl \<Longrightarrow> t < now + 1000 * ttl \<Longrightarrow> get (set_val w now k v ttl) t k = v"
  by (simp add: get_set)

lemma get_set_stale: "ready w \<Longrightarrow> 0 < ttl \<Longrightarrow> now + 1000 * ttl \<le> t \<Longrightarrow> get (set_val w now k v ttl) t k = JNull"
  by (simp add: get_set)

lemma set_del: "ready w \<Longrightarrow> 0 < ttl \<Longrightarrow> get (del (set_val w now k v ttl) now' k) t k = JNull"
  by (simp add: get_del ready_set)

end

sublocale redis_server \<subseteq> cache: kv_cache up redis_get
  "\<lambda>rs now k v ttl. snd (redis_set rs now k v ttl)" "\<lambda>rs now k. snd (redis_delete rs now k)"
proof unfold_locales
  fix rs and now t :: ms and k k' v and ttl :: int
  assume a: "up rs" "0 < ttl"
  then obtain rs' where rs': "redis_set rs now k v ttl = (True, rs')" "up rs'"
    "content rs' = (content rs)(k \<mapsto> (Stringified v, Some (now + 1000 * ttl)))"
    by (rule set_up)
  then show "up (snd (redis_set rs now k v ttl))" by simp
  show "redis_get (snd (redis_set rs now k v ttl)) t k' =
      (if k' = k then (if t < now + 1000 * ttl then v else JNull) else redis_get rs t k')"
    using rs' a by (simp add: get_up)
next
  fix rs and now t :: ms and k k'
  assume a: "up rs"
  then obtain rs' where rs': "redis_delete rs now k = (True, rs')" "up rs'"
    "content rs' = (content rs)(k := None)"
    by (rule delete_up)
  then show "up (snd (redis_delete rs now k))" by simp
  show "redis_get (snd (redis_delete rs now k)) t k' = (if k' = k then JNull else redis_get rs t k')"
    using rs' a by (simp add: get_up)
qed

context redis_server
begin

lemma set_get_up:
  "up rs \<Longrightarrow> 0 < ttl \<Longrightarrow> redis_get (snd (redis_set rs now k v ttl)) t k' =
    (if k' = k then (if t < now + 1000 * ttl then v else JNull) else redis_get rs t k')"
  by (rule cache.get_set)

end

subsection \<open>A server in memory\<close>

type_synonym mem = "(string \<times> jstr \<times> ms option) list"

definition mem_client :: "mem redis_client" where
  "mem_client = \<lparr>
     cl_get = (\<lambda>now k s. Inr (live now (map_of s k))),
     cl_setex = (\<lambda>now k ttl v s. if 0 < ttl then Inr ((k, v, Some (now + 1000 * ttl)) # s) else Inl ''ERR invalid expire time''),
     cl_del = (\<lambda>now ks s. Inr (filter (\<lambda>e. fst e \<notin> set ks) s)),
     cl_keys = (\<lambda>now p s. Inr (remdups (filter (\<lambda>k. live now (map_of s k) \<noteq> None \<and> starts_with k (butlast p)) (map fst s)))),
     cl_exists = (\<lambda>now k s. Inr (if live now (map_of s k) = None then 0 else 1)),
     cl_ttl = (\<lambda>now k s. Inr (if live now (map_of s k) = None then - 2
        else case expiry now (map_of s k) of None \<Rightarrow> - 1 | Some e \<Rightarrow> (e - now + 500) div 1000)),
     cl_incrby = (\<lambda>now k a s. case counter now (map_of s k) of
         None \<Rightarrow> Inl ''ERR value is not an integer''
       | Some n \<Rightarrow> Inr (n + a, (k, Stringified (JNum (of_int (n + a))), expiry now (map_of s k)) # s)),
     cl_expire = (\<lambda>now k secs s. case live now (map_of s k) of
         None \<Rightarrow> Inr (0, s)
       | Some v \<Rightarrow> Inr (1, if 0 < secs then (k, v, Some (now + 1000 * secs)) # s else filter (\<lambda>e. fst e \<noteq> k) s)),
     cl_flushdb = (\<lambda>s. Inr []) \<rparr>"

definition mem_service :: "mem redis_service" where
  "mem_service = \<lparr>client = Some mem_client, isConnected = True, isShuttingDown = False, server = []\<rparr>"

lemma map_of_filter_keys: "map_of (filter (\<lambda>e. fst e \<notin> K) s) = map_of s |` (- K)"
  by (induction s) (auto simp: restrict_map_def fun_eq_iff)

lemma map_of_filter_key: "map_of (filter (\<lambda>e. fst e \<noteq> k) s) = (map_of s)(k := None)"
  by (induction s) (auto simp: fun_eq_iff)

interpretation mem: redis_server mem_client map_of
  by unfold_locales (auto simp: mem_client_def map_of_filter_keys map_of_filter_key)

lemma mem_up_iff: "mem.up rs \<longleftrightarrow> client rs = Some mem_client \<and> isConnected rs \<and> \<not> isShuttingDown rs"
  by (simp add: mem.up_def)

lemma mem_service_up [simp]: "mem.up mem_service"
  by (simp add: mem_up_iff mem_service_def)

lemma mem_service_content [simp]: "mem.content mem_service k = None"
  by (simp add: mem.content_def mem_service_def)

subsection \<open>Properties\<close>

text \<open>On a connected service whose server behaves as documented, a value written with a
  positive lifetime is read back unchanged by \<open>get\<close> until the lifetime is over, reads as
  \<open>null\<close> from then on, and no other key is disturbed.\<close>

theorem redis_set_get:
  assumes "redis_server c view" "redis_server.up c rs" "0 < ttl"
  shows "redis_get (snd (redis_set rs now k v ttl)) t k' =
    (if k' = k then (if t < now + 1000 * ttl then v else JNull) else redis_get rs t k')"
  using redis_server.set_get_up [OF assms] .

lemma redis_set_get_witness:
  "redis_get (snd (redis_set mem_service 0 ''k'' (JNum 7) 5)) 4999 ''k'' = JNum 7 \<and>
   redis_get (snd (redis_set mem_service 0 ''k'' (JNum 7) 5)) 5000 ''k'' = JNull"
  using redis_set_get [OF mem.redis_server_axioms mem_service_up, of 5 0 "''k''" "JNum 7" _ "''k''"]
  by simp

text \<open>The service never fails: without a live client (not configured, disconnected, or
  shutting down, as after \<open>onModuleDestroy\<close>) every read answers neutrally and every write
  reports failure and leaves the service as it was.\<close>

theorem redis_unavailable_neutral:
  assumes "\<not> is_available rs"
  shows "redis_get rs now k = JNull \<and> redis_set rs now k v ttl = (False, rs) \<and>
    redis_delete rs now k = (False, rs) \<and> redis_delete_pattern rs now k = (0, rs) \<and>
    \<not> redis_exists rs now k \<and> redis_ttl rs now k = - 2 \<and> redis_increment rs now k = (0, rs) \<and>
    redis_increment_by rs now k n = (0, rs) \<and> redis_set_expiration rs now k secs = (False, rs) \<and>
    redis_flush_all rs = (False, rs)"
  using assms by (simp add: redis_unavailable_simps live_client_def)

lemma redis_unavailable_neutral_witness:
  "redis_increment (redis_on_module_destroy mem_service) 0 ''k'' = (0, redis_on_module_destroy mem_service)"
  using redis_unavailable_neutral [OF is_available_after_destroy] by blast

end
