(* ===== verification/Rate_Limit.thy ===== *)
theory Rate_Limit
  imports Redis_Service
begin

section \<open>The rate limiting strategies' interface\<close>

text \<open>
  \<open>rate-limiting/interfaces/rate-limit-strategy.interface.ts\<close>: the configuration and the result
  of \<open>checkLimit\<close>, and the contract the strategies share. A handler runs at one time \<open>now\<close>;
  its result is \<open>Inl\<close> when it throws. \<open>r_current\<close> is \<open>None\<close> for NaN.
\<close>

record rl_config =
  cfg_limit :: int
  cfg_windowMs :: int
  cfg_refillRate :: "rat option"
  cfg_leakRate :: "rat option"
  cfg_targetUtilization :: "rat option"
  cfg_adjustmentFactor :: "rat option"
  cfg_minLimit :: "int option"
  cfg_maxLimit :: "int option"

record rl_metadata =
  m_strategy :: "string option"
  m_bucketLevel :: "rat option"
  m_lastUpdateMs :: "ms option"
  m_windowRequests :: "ms list option"
  m_adaptiveLimit :: "int option"
  m_baseLimit :: "int option"
  m_systemLoad :: "rat option"
  m_userScore :: "int option"
  m_windowStart :: "ms option"
  m_message :: "string option"

record rl_result =
  r_allowed :: bool
  r_current :: "int option"
  r_limit :: int
  r_remaining :: int
  r_resetMs :: int
  r_retryAfterMs :: "int option"
  r_metadata :: "rl_metadata option"

definition no_metadata :: rl_metadata where
  "no_metadata = \<lparr>m_strategy = None, m_bucketLevel = None, m_lastUpdateMs = None,
     m_windowRequests = None, m_adaptiveLimit = None, m_baseLimit = None, m_systemLoad = None,
     m_userScore = None, m_windowStart = None, m_message = None\<rparr>"

definition plain_config :: "int \<Rightarrow> int \<Rightarrow> rl_config" where
  "plain_config n w = \<lparr>cfg_limit = n, cfg_windowMs = w, cfg_refillRate = None, cfg_leakRate = None,
     cfg_targetUtilization = None, cfg_adjustmentFactor = None, cfg_minLimit = None, cfg_maxLimit = None\<rparr>"

lemma plain_config_simps [simp]:
  "cfg_limit (plain_config n w) = n" "cfg_windowMs (plain_config n w) = w"
  "cfg_refillRate (plain_config n w) = None" "cfg_leakRate (plain_config n w) = None"
  by (simp_all add: plain_config_def)

subsection \<open>Runs of a strategy on one key\<close>

type_synonym rl_outcome = "string + rl_result"

fun admits :: "rl_outcome \<Rightarrow> bool" where
  "admits (Inl _) = False"
| "admits (Inr r) = r_allowed r"

fun rl_run :: "('w \<Rightarrow> ms \<Rightarrow> rl_outcome \<times> 'w) \<Rightarrow> 'w \<Rightarrow> ms list \<Rightarrow> rl_outcome list" where
  "rl_run check w [] = []"
| "rl_run check w (t # ts) = fst (check w t) # rl_run check (snd (check w t)) ts"

text \<open>The times of the admitted requests of a run.\<close>

fun admitted :: "('w \<Rightarrow> ms \<Rightarrow> rl_outcome \<times> 'w) \<Rightarrow> 'w \<Rightarrow> ms list \<Rightarrow> ms list" where
  "admitted check w [] = []"
| "admitted check w (t # ts) =
     (if admits (fst (check w t)) then [t] else []) @ admitted check (snd (check w t)) ts"

fun rl_state :: "('w \<Rightarrow> ms \<Rightarrow> rl_outcome \<times> 'w) \<Rightarrow> 'w \<Rightarrow> ms list \<Rightarrow> 'w" where
  "rl_state check w [] = w"
| "rl_state check w (t # ts) = rl_state check (snd (check w t)) ts"

lemma admitted_append:
  "admitted check w (xs @ ys) = admitted check w xs @ admitted check (rl_state check w xs) ys"
  by (induction xs arbitrary: w) auto

fun times_from :: "ms \<Rightarrow> ms list \<Rightarrow> bool" where
  "times_from t0 [] = True"
| "times_from t0 (t # ts) = (t0 \<le> t \<and> times_from t ts)"

lemma admitted_times: "times_from t0 ts \<Longrightarrow> t \<in> set (admitted check w ts) \<Longrightarrow> t0 \<le> t"
proof (induction ts arbitrary: t0 w)
  case Nil
  then show ?case by simp
next
  case (Cons u us)
  then show ?case by (fastforce split: if_splits)
qed

subsection \<open>Logs of timestamps in Redis\<close>

text \<open>
  The sliding and the adaptive strategy keep a list of timestamps, stored as
  \<open>JSON.stringify(timestamps)\<close> and read with \<open>JSON.parse(stateJson as string)\<close>, missing
  state giving the empty list. \<open>None\<close>: the parse, or the use of a value that is no list of
  integers, throws.
\<close>

fun json_int :: "json \<Rightarrow> int option" where
  "json_int (JNum q) = (if of_int \<lfloor>q\<rfloor> = q then Some \<lfloor>q\<rfloor> else None)"
| "json_int _ = None"

definition encode_times :: "ms list \<Rightarrow> json" where
  "encode_times ts = JArr (map (\<lambda>t. JNum (of_int t)) ts)"

fun decode_times :: "json \<Rightarrow> ms list option" where
  "decode_times (JArr xs) = those (map json_int xs)"
| "decode_times _ = None"

lemma decode_encode_times [simp]: "decode_times (encode_times ts) = Some ts"
  by (simp add: encode_times_def) (induction ts; simp)

definition read_times :: "'s redis_service \<Rightarrow> ms \<Rightarrow> string \<Rightarrow> ms list option" where
  "read_times rs now k =
     (let j = redis_get rs now k
      in if json_truthy j then Option.bind (json_parse_value j) decode_times else Some [])"

definition write_times :: "'s redis_service \<Rightarrow> ms \<Rightarrow> string \<Rightarrow> ms list \<Rightarrow> int \<Rightarrow> 's redis_service" where
  "write_times rs now k ts ttl = snd (redis_set rs now k (JStr (Stringified (encode_times ts))) ttl)"

context redis_server
begin

lemma up_write_times: "up rs \<Longrightarrow> 0 < ttl \<Longrightarrow> up (write_times rs now k ts ttl)"
  by (simp add: write_times_def cache.ready_set)

lemma read_write_times:
  "up rs \<Longrightarrow> 0 < ttl \<Longrightarrow>
   read_times (write_times rs now k ts ttl) t k = Some (if t < now + 1000 * ttl then ts else [])"
  by (simp add: read_times_def write_times_def cache.get_set Let_def)

lemma read_times_empty: "up rs \<Longrightarrow> content rs k = None \<Longrightarrow> read_times rs t k = Some []"
  by (simp add: read_times_def get_up)

end

subsection \<open>The contract of a strategy\<close>

text \<open>
  A caller of \<open>checkLimit\<close> reads \<open>remaining\<close> and \<open>retryAfterMs\<close> into response headers: what
  remains is never negative, nothing remains after a denial, and a retry time is given exactly
  with a denial.
\<close>

definition result_ok :: "rl_result \<Rightarrow> bool" where
  "result_ok r \<longleftrightarrow> 0 \<le> r_remaining r \<and> (\<not> r_allowed r \<longrightarrow> r_remaining r = 0) \<and>
     (r_retryAfterMs r = None \<longleftrightarrow> r_allowed r)"

locale rate_limiter =
  fixes check :: "'w \<Rightarrow> ms \<Rightarrow> rl_outcome \<times> 'w"
    and inv :: "'w \<Rightarrow> ms \<Rightarrow> bool"
  assumes step: "inv w t0 \<Longrightarrow> t0 \<le> t \<Longrightarrow>
      \<exists>r w'. check w t = (Inr r, w') \<and> inv w' t \<and> result_ok r"
begin

lemma run_ok:
  "inv w t0 \<Longrightarrow> times_from t0 ts \<Longrightarrow> list_all (\<lambda>x. \<exists>r. x = Inr r \<and> result_ok r) (rl_run check w ts)"
proof (induction ts arbitrary: w t0)
  case Nil
  then show ?case by simp
next
  case (Cons t ts)
  then obtain r w' where "check w t = (Inr r, w')" "inv w' t" "result_ok r"
    using step [of w t0 t] by auto
  with Cons show ?case by auto
qed

lemma run_inv_step: "inv w t0 \<Longrightarrow> t0 \<le> t \<Longrightarrow> inv (snd (check w t)) t"
  using step by fastforce

end

end
