(* ===== verification/Rate_Window.thy ===== *)
theory Rate_Window
  imports Rate_Limit
begin

section \<open>Window strategies\<close>

text \<open>
  \<open>strategies/fixed-window.strategy.ts\<close> (a counter per key) and
  \<open>strategies/sliding-window.strategy.ts\<close> (the log of admitted requests of the last window).
\<close>

subsection \<open>Fixed window\<close>

definition fw_key :: "string \<Rightarrow> string" where
  "fw_key key = ''ratelimit:fixedwindow:'' @ key"

text \<open>\<open>parseInt\<close> of a string that may hold JSON text.\<close>

fun parse_int_jstr :: "jstr \<Rightarrow> int option" where
  "parse_int_jstr (Plain s) = parse_int s"
| "parse_int_jstr (Stringified (JNum q)) = Some (if 0 \<le> q then \<lfloor>q\<rfloor> else \<lceil>q\<rceil>)"
| "parse_int_jstr (Stringified _) = None"

text \<open>\<open>countStr && typeof countStr === 'string' ? parseInt(countStr, 10) : 0\<close>\<close>

fun fw_count :: "json \<Rightarrow> int option" where
  "fw_count (JStr s) = (if s = Plain [] then Some 0 else parse_int_jstr s)"
| "fw_count _ = Some 0"

definition fixed_window_check ::
  "rl_config \<Rightarrow> string \<Rightarrow> 's redis_service \<Rightarrow> ms \<Rightarrow> rl_outcome \<times> 's redis_service" where
  "fixed_window_check cfg key rs now =
     (let windowStart = now div cfg_windowMs cfg * cfg_windowMs cfg;
          windowEnd = windowStart + cfg_windowMs cfg;
          reset = windowEnd - now;
          currentCount = fw_count (redis_get rs now (fw_key key));
          ok = (case currentCount of None \<Rightarrow> False | Some n \<Rightarrow> n < cfg_limit cfg)
      in if ok then
           (let (newCount, rs1) = redis_increment rs now (fw_key key);
                rs2 = (if newCount = 1
                       then snd (redis_set_expiration rs1 now (fw_key key) (ceil_div (cfg_windowMs cfg) 1000))
                       else rs1)
            in (Inr \<lparr>r_allowed = True, r_current = Some newCount, r_limit = cfg_limit cfg,
                  r_remaining = max 0 (cfg_limit cfg - newCount), r_resetMs = reset,
                  r_retryAfterMs = None,
                  r_metadata = Some (no_metadata\<lparr>m_strategy := Some ''FIXED_WINDOW'',
                    m_windowStart := Some windowStart\<rparr>)\<rparr>, rs2))
         else
           (Inr \<lparr>r_allowed = False, r_current = currentCount, r_limit = cfg_limit cfg,
              r_remaining = 0, r_resetMs = reset, r_retryAfterMs = Some reset,
              r_metadata = Some (no_metadata\<lparr>m_strategy := Some ''FIXED_WINDOW'',
                m_windowStart := Some windowStart,
                m_message := Some ''Rate limit exceeded - wait for window reset''\<rparr>)\<rparr>, rs))"

definition fixed_window_reset :: "string \<Rightarrow> 's redis_service \<Rightarrow> ms \<Rightarrow> 's redis_service" where
  "fixed_window_reset key rs now = snd (redis_delete rs now (fw_key key))"

text \<open>\<open>getState\<close>; a NaN count leaves NaN in \<open>remaining\<close>, written 0 here.\<close>

definition fixed_window_state :: "string \<Rightarrow> 's redis_service \<Rightarrow> ms \<Rightarrow> rl_result option" where
  "fixed_window_state key rs now =
     (let countStr = redis_get rs now (fw_key key)
      in if \<not> json_truthy countStr then None
         else
           (let count = fw_count countStr;
                ttl = redis_ttl rs now (fw_key key);
                cap = 100
            in Some \<lparr>r_allowed = (case count of None \<Rightarrow> False | Some n \<Rightarrow> n < cap),
                  r_current = count, r_limit = cap,
                  r_remaining = (case count of None \<Rightarrow> 0 | Some n \<Rightarrow> max 0 (cap - n)),
                  r_resetMs = ttl * 1000, r_retryAfterMs = None,
                  r_metadata = Some (no_metadata\<lparr>m_strategy := Some ''FIXED_WINDOW'',
                    m_windowStart := Some (now - ttl * 1000)\<rparr>)\<rparr>))"

text \<open>
  The service parses the counter INCR wrote, so \<open>get\<close> answers a JSON number and the
  \<open>typeof\<close> test takes the branch for 0: the counter is never looked at.
\<close>

context redis_server
begin

lemma fixed_window_step:
  assumes up: "up rs" and cap: "0 < cfg_limit cfg" and win: "0 < cfg_windowMs cfg"
    and entry: "content rs (fw_key key) = None \<or>
      (\<exists>n e. content rs (fw_key key) = Some (Stringified (JNum (of_int n)), e))"
  shows "admits (fst (fixed_window_check cfg key rs now)) \<and>
    up (snd (fixed_window_check cfg key rs now)) \<and>
    (\<exists>n e. content (snd (fixed_window_check cfg key rs now)) (fw_key key) =
      Some (Stringified (JNum (of_int n)), e))"
proof -
  let ?k = "fw_key key"
  have count: "fw_count (redis_get rs now ?k) = Some 0"
    using entry up by (cases "(now, content rs ?k)" rule: live.cases) (auto simp: get_up split: option.splits)
  obtain m where m: "counter now (content rs ?k) = Some m"
    using entry counter_numeral by fastforce
  obtain rs1 where rs1: "redis_increment rs now ?k = (m + 1, rs1)" "up rs1"
    "content rs1 = (content rs)(?k \<mapsto> (Stringified (JNum (of_int (m + 1))), expiry now (content rs ?k)))"
    using increment_up [OF up m] .
  show ?thesis
  proof (cases "m + 1 = 1")
    case False
    with count rs1 cap show ?thesis
      by (auto simp: fixed_window_check_def Let_def simp del: of_int_add intro: exI [of _ "m + 1"])
  next
    case True
    then have m0: "m = 0" by simp
    have secs: "0 < ceil_div (cfg_windowMs cfg) 1000"
      using ceil_div_bounds(1) [of 1000 "cfg_windowMs cfg"] win by simp
    show ?thesis
    proof (cases "live now (content rs1 ?k)")
      case None
      then have "\<exists>e. expiry now (content rs ?k) = Some e \<and> \<not> now < e"
        using rs1(3) by (cases "expiry now (content rs ?k)") (auto split: if_splits)
      then show ?thesis
        by (cases "(now, content rs ?k)" rule: live.cases) (auto simp: expiry_def split: if_splits)
    next
      case (Some v)
      obtain rs2 where rs2: "redis_set_expiration rs1 now ?k (ceil_div (cfg_windowMs cfg) 1000) = (True, rs2)"
        "up rs2" "content rs2 = (content rs1)(?k \<mapsto> (v, Some (now + 1000 * ceil_div (cfg_windowMs cfg) 1000)))"
        using set_expiration_up [OF rs1(2) Some secs] .
      have "v = Stringified (JNum (of_int (m + 1)))"
        using Some rs1(3) by (cases "expiry now (content rs ?k)") (auto split: if_splits)
      with count rs1 rs2 m0 cap show ?thesis
        by (auto simp: fixed_window_check_def Let_def intro: exI [of _ 1])
    qed
  qed
qed

lemma fixed_window_run:
  assumes "up rs" "0 < cfg_limit cfg" "0 < cfg_windowMs cfg"
    and "content rs (fw_key key) = None \<or>
      (\<exists>n e. content rs (fw_key key) = Some (Stringified (JNum (of_int n)), e))"
  shows "admitted (fixed_window_check cfg key) rs ts = ts"
  using assms(1,4)
proof (induction ts arbitrary: rs)
  case Nil
  then show ?case by simp
next
  case (Cons t ts)
  have "admits (fst (fixed_window_check cfg key rs t)) \<and>
    up (snd (fixed_window_check cfg key rs t)) \<and>
    (\<exists>n e. content (snd (fixed_window_check cfg key rs t)) (fw_key key) =
      Some (Stringified (JNum (of_int n)), e))"
    by (rule fixed_window_step [OF Cons.prems(1) assms(2,3) Cons.prems(2)])
  with Cons.IH show ?case by auto
qed

end

subsection \<open>Sliding window\<close>

definition sw_key :: "string \<Rightarrow> string" where
  "sw_key key = ''ratelimit:slidingwindow:'' @ key"

definition sliding_window_check ::
  "rl_config \<Rightarrow> string \<Rightarrow> 's redis_service \<Rightarrow> ms \<Rightarrow> rl_outcome \<times> 's redis_service" where
  "sliding_window_check cfg key rs now =
     (case read_times rs now (sw_key key) of
        None \<Rightarrow> (Inl ''SyntaxError or TypeError'', rs)
      | Some stored \<Rightarrow>
          (let windowStart = now - cfg_windowMs cfg;
               recent = filter (\<lambda>ts. windowStart < ts) stored;
               ok = int (length recent) < cfg_limit cfg;
               timestamps = (if ok then recent @ [now] else recent);
               oldest = (case timestamps of [] \<Rightarrow> now | t # _ \<Rightarrow> if t = 0 then now else t);
               reset = max 0 (oldest + cfg_windowMs cfg - now);
               rs' = write_times rs now (sw_key key) timestamps (cfg_windowMs cfg + 1000)
           in (Inr \<lparr>r_allowed = ok, r_current = Some (int (length timestamps)), r_limit = cfg_limit cfg,
                 r_remaining = max 0 (cfg_limit cfg - int (length timestamps)), r_resetMs = reset,
                 r_retryAfterMs = (if ok then None else Some reset),
                 r_metadata = Some (no_metadata\<lparr>m_windowRequests := Some timestamps,
                   m_lastUpdateMs := Some now\<rparr>)\<rparr>, rs')))"

definition sliding_window_reset :: "string \<Rightarrow> 's redis_service \<Rightarrow> ms \<Rightarrow> 's redis_service" where
  "sliding_window_reset key rs now = snd (redis_delete rs now (sw_key key))"

definition sliding_window_state ::
  "string \<Rightarrow> 's redis_service \<Rightarrow> ms \<Rightarrow> string + rl_result option" where
  "sliding_window_state key rs now =
     (if \<not> json_truthy (redis_get rs now (sw_key key)) then Inr None
      else case read_times rs now (sw_key key) of
        None \<Rightarrow> Inl ''SyntaxError or TypeError''
      | Some ts \<Rightarrow>
          (let n = int (length ts); ttl = redis_ttl rs now (sw_key key)
           in Inr (Some \<lparr>r_allowed = n < 100, r_current = Some n, r_limit = 100,
                r_remaining = max 0 (100 - n), r_resetMs = ttl * 1000, r_retryAfterMs = None,
                r_metadata = Some (no_metadata\<lparr>m_windowRequests := Some ts,
                  m_lastUpdateMs := Some now\<rparr>)\<rparr>)))"

text \<open>
  A log in which every entry found fewer than \<open>cap\<close> entries in the window before it has at
  most \<open>cap\<close> entries in any window.
\<close>

definition window_ok :: "int \<Rightarrow> int \<Rightarrow> ms list \<Rightarrow> bool" where
  "window_ok cap w G \<longleftrightarrow>
     (\<forall>xs a ys. G = xs @ a # ys \<longrightarrow> int (length (filter (\<lambda>x. a - w < x) xs)) < cap)"

definition in_window :: "int \<Rightarrow> ms \<Rightarrow> ms list \<Rightarrow> ms list" where
  "in_window w u G = filter (\<lambda>x. u - w < x \<and> x \<le> u) G"

lemma window_ok_snoc:
  "window_ok cap w (G @ [a]) \<longleftrightarrow> window_ok cap w G \<and> int (length (filter (\<lambda>x. a - w < x) G)) < cap"
  (is "?l \<longleftrightarrow> ?r")
proof
  assume l: ?l
  show ?r unfolding window_ok_def
  proof (intro conjI allI impI)
    fix xs b ys
    assume "G = xs @ b # ys"
    then have "G @ [a] = xs @ b # (ys @ [a])" by simp
    with l show "int (length (filter (\<lambda>x. b - w < x) xs)) < cap" unfolding window_ok_def by blast
  next
    show "int (length (filter (\<lambda>x. a - w < x) G)) < cap" using l unfolding window_ok_def by blast
  qed
next
  assume r: ?r
  show ?l unfolding window_ok_def
  proof (intro allI impI)
    fix xs b ys
    assume e: "G @ [a] = xs @ b # ys"
    show "int (length (filter (\<lambda>x. b - w < x) xs)) < cap"
    proof (cases ys rule: rev_cases)
      case Nil
      with e r show ?thesis by simp
    next
      case (snoc zs z)
      with e have "G = xs @ b # zs" by simp
      with r show ?thesis unfolding window_ok_def by blast
    qed
  qed
qed

lemma window_bound:
  "sorted G \<Longrightarrow> window_ok cap w G \<Longrightarrow> 0 \<le> cap \<Longrightarrow> int (length (in_window w u G)) \<le> cap"
proof (induction G rule: rev_induct)
  case Nil
  then show ?case by (simp add: in_window_def)
next
  case (snoc a G)
  then have ok: "window_ok cap w G" "int (length (filter (\<lambda>x. a - w < x) G)) < cap"
    and srt: "sorted G" by (simp_all add: window_ok_snoc sorted_append)
  show ?case
  proof (cases "u - w < a \<and> a \<le> u")
    case False
    with snoc.IH [OF srt ok(1) snoc.prems(3)] show ?thesis by (auto simp: in_window_def)
  next
    case True
    have "length (in_window w u G) \<le> length (filter (\<lambda>x. a - w < x) G)"
      unfolding in_window_def using True by (induction G) auto
    with ok(2) True show ?thesis by (simp add: in_window_def)
  qed
qed

lemma filter_window_shift:
  "now \<le> t \<Longrightarrow> filter (\<lambda>x. t - w < x) (filter (\<lambda>x. now - w < x) G) = filter (\<lambda>x. t - w < (x::int)) G"
  by (induction G) auto

context redis_server
begin

definition sw_inv :: "rl_config \<Rightarrow> string \<Rightarrow> 's redis_service \<Rightarrow> ms \<Rightarrow> ms list \<Rightarrow> bool" where
  "sw_inv cfg key rs t0 G \<longleftrightarrow> up rs \<and> sorted G \<and> (\<forall>x \<in> set G. x \<le> t0) \<and>
     window_ok (cfg_limit cfg) (cfg_windowMs cfg) G \<and>
     (\<forall>t \<ge> t0. \<exists>stored. read_times rs t (sw_key key) = Some stored \<and>
        filter (\<lambda>x. t - cfg_windowMs cfg < x) stored = filter (\<lambda>x. t - cfg_windowMs cfg < x) G)"

lemma sw_inv_empty: "up rs \<Longrightarrow> content rs (sw_key key) = None \<Longrightarrow> sw_inv cfg key rs t0 []"
  by (simp add: sw_inv_def read_times_empty window_ok_def)

lemma sliding_window_step:
  assumes inv: "sw_inv cfg key rs t0 G" and le: "t0 \<le> now" and win: "0 < cfg_windowMs cfg"
    and cap: "0 \<le> cfg_limit cfg"
  obtains r rs' where "sliding_window_check cfg key rs now = (Inr r, rs')" "result_ok r"
    "sw_inv cfg key rs' now (if r_allowed r then G @ [now] else G)"
proof -
  let ?w = "cfg_windowMs cfg"
  let ?k = "sw_key key"
  let ?recent = "filter (\<lambda>x. now - ?w < x) G"
  obtain stored where st: "read_times rs now ?k = Some stored"
    "filter (\<lambda>x. now - ?w < x) stored = ?recent"
    using inv le unfolding sw_inv_def by blast
  define ok where "ok \<longleftrightarrow> int (length ?recent) < cfg_limit cfg"
  define ts where "ts = (if ok then ?recent @ [now] else ?recent)"
  define rs' where "rs' = write_times rs now ?k ts (?w + 1000)"
  define G' where "G' = (if ok then G @ [now] else G)"
  obtain r where check: "sliding_window_check cfg key rs now = (Inr r, rs')"
    and r: "r_allowed r = ok" "result_ok r"
    using st cap by (auto simp: sliding_window_check_def Let_def ts_def ok_def rs'_def result_ok_def)
  have up: "up rs" and srt: "sorted G" and le0: "\<forall>x \<in> set G. x \<le> now"
    and wok: "window_ok (cfg_limit cfg) ?w G"
    using inv le unfolding sw_inv_def by auto
  have ts: "filter (\<lambda>x. t - ?w < x) ts = filter (\<lambda>x. t - ?w < x) G'" if "now \<le> t" for t
    using that filter_window_shift [of now t ?w G] by (simp add: ts_def G'_def)
  have old: "filter (\<lambda>x. t - ?w < x) G' = []" if "now + 1000 * (?w + 1000) \<le> t" for t
    using that le0 win by (fastforce simp: G'_def filter_empty_conv)
  have "sw_inv cfg key rs' now G'"
    unfolding sw_inv_def
  proof (intro conjI allI impI)
    show "up rs'" using up win by (simp add: rs'_def up_write_times)
    show "sorted G'" using srt le0 by (simp add: G'_def sorted_append)
    show "\<forall>x \<in> set G'. x \<le> now" using le0 by (simp add: G'_def)
    show "window_ok (cfg_limit cfg) ?w G'" using wok by (simp add: G'_def window_ok_snoc ok_def)
    fix t assume "now \<le> t"
    then show "\<exists>stored. read_times rs' t ?k = Some stored \<and>
        filter (\<lambda>x. t - ?w < x) stored = filter (\<lambda>x. t - ?w < x) G'"
      using up win ts [of t] old [of t] by (simp add: rs'_def read_write_times)
  qed
  then have "sw_inv cfg key rs' now (if r_allowed r then G @ [now] else G)"
    by (simp only: G'_def r(1))
  with check r(2) show thesis by (rule that)
qed

lemma sliding_window_run:
  assumes "sw_inv cfg key rs t0 G" "times_from t0 ts" "0 < cfg_windowMs cfg" "0 \<le> cfg_limit cfg"
  shows "sorted (G @ admitted (sliding_window_check cfg key) rs ts) \<and>
    window_ok (cfg_limit cfg) (cfg_windowMs cfg) (G @ admitted (sliding_window_check cfg key) rs ts)"
  using assms(1,2)
proof (induction ts arbitrary: rs t0 G)
  case Nil
  then show ?case by (simp add: sw_inv_def)
next
  case (Cons t ts)
  then have le: "t0 \<le> t" and rest: "times_from t ts" by simp_all
  obtain r rs' where s: "sliding_window_check cfg key rs t = (Inr r, rs')"
    "sw_inv cfg key rs' t (if r_allowed r then G @ [t] else G)"
    using sliding_window_step [OF Cons.prems(1) le assms(3,4)] by metis
  from Cons.IH [OF s(2) rest] s(1) show ?case by (auto split: if_splits)
qed

lemma sliding_window_limiter:
  assumes "0 < cfg_windowMs cfg" "0 \<le> cfg_limit cfg"
  shows "rate_limiter (sliding_window_check cfg key) (\<lambda>rs t0. \<exists>G. sw_inv cfg key rs t0 G)"
proof
  fix rs and t0 t :: ms
  assume "\<exists>G. sw_inv cfg key rs t0 G" "t0 \<le> t"
  then show "\<exists>r rs'. sliding_window_check cfg key rs t = (Inr r, rs') \<and>
      (\<exists>G. sw_inv cfg key rs' t G) \<and> result_ok r"
    using sliding_window_step assms by metis
qed

end

subsection \<open>Properties\<close>

interpretation default_sliding: rate_limiter
  "sliding_window_check (plain_config 100 60000) key"
  "\<lambda>rs t0. \<exists>G. mem.sw_inv (plain_config 100 60000) key rs t0 G" for key
  by (rule mem.sliding_window_limiter) simp_all

text \<open>C16. The sliding window strategy keeps its promise: starting from an empty log, whatever the
  times of the requests, no window of \<open>windowMs\<close> milliseconds contains more than \<open>limit\<close>
  admitted requests of one key.\<close>

theorem sliding_window_bound:
  assumes "redis_server c view" "redis_server.up c rs" "redis_server.content view rs (sw_key key) = None"
    and "times_from t0 ts" "0 < cfg_windowMs cfg" "0 \<le> cfg_limit cfg"
  shows "int (length (in_window (cfg_windowMs cfg) u (admitted (sliding_window_check cfg key) rs ts)))
    \<le> cfg_limit cfg"
  using redis_server.sliding_window_run
      [OF assms(1) redis_server.sw_inv_empty [OF assms(1-3)] assms(4-6)] assms(6)
  by (auto intro: window_bound)

lemma sliding_window_bound_witness:
  "int (length (in_window (cfg_windowMs (plain_config 2 60000)) 59999
     (admitted (sliding_window_check (plain_config 2 60000) ''u'') mem_service [0, 10, 20, 59999])))
    \<le> cfg_limit (plain_config 2 60000)"
  by (rule sliding_window_bound [OF mem.redis_server_axioms mem_service_up, of _ 0]) simp_all

text \<open>Under a documented Redis the sliding window strategy never throws, and every answer
  of a run is well formed: \<open>remaining\<close> is not negative, it is 0 after a denial, and
  \<open>retryAfterMs\<close> is present exactly with a denial.\<close>

theorem sliding_window_answers:
  assumes "redis_server c view" "redis_server.up c rs" "redis_server.content view rs (sw_key key) = None"
    and "times_from t0 ts" "0 < cfg_windowMs cfg" "0 \<le> cfg_limit cfg"
  shows "list_all (\<lambda>x. \<exists>r. x = Inr r \<and> result_ok r) (rl_run (sliding_window_check cfg key) rs ts)"
  using rate_limiter.run_ok [OF redis_server.sliding_window_limiter [OF assms(1,5,6)] _ assms(4)]
    redis_server.sw_inv_empty [OF assms(1-3)] by blast

lemma sliding_window_answers_witness:
  "list_all (\<lambda>x. \<exists>r. x = Inr r \<and> result_ok r)
     (rl_run (sliding_window_check (plain_config 2 60000) ''u'') mem_service [0, 10, 20, 59999])"
  by (rule sliding_window_answers [OF mem.redis_server_axioms mem_service_up, of _ 0])
    simp_all

text \<open>The fixed window strategy never denies a request. INCR leaves a counter that
  \<open>RedisService.get\<close> parses into a JSON number; the strategy tests for a string, takes the
  count for 0 and admits every request, however many came before in the window.\<close>

theorem fixed_window_never_denies:
  assumes "redis_server c view" "redis_server.up c rs" "redis_server.content view rs (fw_key key) = None"
    and "0 < cfg_limit cfg" "0 < cfg_windowMs cfg"
  shows "admitted (fixed_window_check cfg key) rs ts = ts"
  using redis_server.fixed_window_run [OF assms(1,2,4,5)] assms(3) by blast

lemma fixed_window_never_denies_witness:
  "admitted (fixed_window_check (plain_config 1 60000) ''u'') mem_service [0, 1, 2] = [0, 1, 2]"
  by (rule fixed_window_never_denies [OF mem.redis_server_axioms mem_service_up]) simp_all

end
