(* ===== verification/Rate_Bucket.thy ===== *)
theory Rate_Bucket
  imports Rate_Limit
begin

section \<open>Bucket strategies\<close>

text \<open>
  \<open>strategies/token-bucket.strategy.ts\<close> and \<open>strategies/leaky-bucket.strategy.ts\<close>. Both keep a
  small JSON object per key. A stored value of another shape than the strategy writes is an error
  here (the code would compute with \<open>undefined\<close>); the strategies never write one.
\<close>

subsection \<open>Token bucket\<close>

record bucket =
  tokens :: rat
  lastRefillMs :: ms

definition tb_key :: "string \<Rightarrow> string" where
  "tb_key key = ''ratelimit:tokenbucket:'' @ key"

definition encode_bucket :: "bucket \<Rightarrow> json" where
  "encode_bucket b = JObj [(''tokens'', JNum (tokens b)), (''lastRefillMs'', JNum (of_int (lastRefillMs b)))]"

fun decode_bucket :: "json \<Rightarrow> bucket option" where
  "decode_bucket (JObj fs) =
     (case (map_of fs ''tokens'', Option.bind (map_of fs ''lastRefillMs'') json_int) of
        (Some (JNum q), Some m) \<Rightarrow> Some \<lparr>tokens = q, lastRefillMs = m\<rparr>
      | _ \<Rightarrow> None)"
| "decode_bucket _ = None"

lemma decode_encode_bucket [simp]: "decode_bucket (encode_bucket b) = Some b"
  by (simp add: encode_bucket_def)

text \<open>Lines 46-66: the stored state, or a full bucket.\<close>

definition fresh_bucket :: "rl_config \<Rightarrow> ms \<Rightarrow> bucket" where
  "fresh_bucket cfg now = \<lparr>tokens = of_int (cfg_limit cfg), lastRefillMs = now\<rparr>"

definition tb_load :: "rl_config \<Rightarrow> json \<Rightarrow> ms \<Rightarrow> bucket option" where
  "tb_load cfg stateJson now =
     (case stateJson of
        JStr s \<Rightarrow>
          if s = Plain [] then Some (fresh_bucket cfg now)
          else (case json_parse s of None \<Rightarrow> Some (fresh_bucket cfg now) | Some j \<Rightarrow> decode_bucket j)
      | _ \<Rightarrow> Some (fresh_bucket cfg now))"

definition tb_rate :: "rl_config \<Rightarrow> rat" where
  "tb_rate cfg = num_or (cfg_refillRate cfg) (of_int (cfg_limit cfg))"

definition tb_refill :: "rl_config \<Rightarrow> ms \<Rightarrow> bucket \<Rightarrow> rat" where
  "tb_refill cfg now b =
     min (of_int (cfg_limit cfg))
       (tokens b + of_int (now - lastRefillMs b) / of_int (cfg_windowMs cfg) * tb_rate cfg)"

definition token_bucket_check ::
  "rl_config \<Rightarrow> string \<Rightarrow> 's redis_service \<Rightarrow> ms \<Rightarrow> rl_outcome \<times> 's redis_service" where
  "token_bucket_check cfg key rs now =
     (case tb_load cfg (redis_get rs now (tb_key key)) now of
        None \<Rightarrow> (Inl ''malformed state'', rs)
      | Some b \<Rightarrow>
          (let refilled = tb_refill cfg now b;
               ok = 1 \<le> refilled;
               left = (if ok then refilled - 1 else refilled);
               msPerToken = of_int (cfg_windowMs cfg) / tb_rate cfg;
               reset = (if ok then msPerToken else msPerToken * (1 - left));
               rs' = snd (redis_set rs now (tb_key key)
                 (JStr (Stringified (encode_bucket \<lparr>tokens = left, lastRefillMs = now\<rparr>)))
                 (cfg_windowMs cfg * 2))
           in (Inr \<lparr>r_allowed = ok, r_current = Some (cfg_limit cfg - \<lfloor>left\<rfloor>), r_limit = cfg_limit cfg,
                 r_remaining = \<lfloor>left\<rfloor>, r_resetMs = \<lceil>reset\<rceil>,
                 r_retryAfterMs = (if ok then None else Some \<lceil>reset\<rceil>),
                 r_metadata = Some (no_metadata\<lparr>m_bucketLevel := Some left, m_lastUpdateMs := Some now\<rparr>)\<rparr>,
               rs')))"

definition token_bucket_reset :: "string \<Rightarrow> 's redis_service \<Rightarrow> ms \<Rightarrow> 's redis_service" where
  "token_bucket_reset key rs now = snd (redis_delete rs now (tb_key key))"

definition token_bucket_state ::
  "string \<Rightarrow> 's redis_service \<Rightarrow> ms \<Rightarrow> string + rl_result option" where
  "token_bucket_state key rs now =
     (case redis_get rs now (tb_key key) of
        JStr s \<Rightarrow>
          if s = Plain [] then Inr None
          else (case Option.bind (json_parse s) decode_bucket of
                  None \<Rightarrow> Inl ''SyntaxError or malformed state''
                | Some b \<Rightarrow>
                    Inr (Some \<lparr>r_allowed = 1 \<le> tokens b, r_current = Some (100 - \<lfloor>tokens b\<rfloor>), r_limit = 100,
                      r_remaining = \<lfloor>tokens b\<rfloor>, r_resetMs = redis_ttl rs now (tb_key key) * 1000,
                      r_retryAfterMs = None,
                      r_metadata = Some (no_metadata\<lparr>m_bucketLevel := Some (tokens b),
                        m_lastUpdateMs := Some (lastRefillMs b)\<rparr>)\<rparr>))
      | _ \<Rightarrow> Inr None)"

text \<open>
  The level of a bucket is what \<open>checkLimit\<close> would find after refilling. It grows by at most the
  refill rate, also when the key expires and the bucket starts full again.
\<close>

definition tb_level :: "rl_config \<Rightarrow> string \<Rightarrow> 's redis_service \<Rightarrow> ms \<Rightarrow> rat" where
  "tb_level cfg key rs t =
     (case tb_load cfg (redis_get rs t (tb_key key)) t of None \<Rightarrow> 0 | Some b \<Rightarrow> tb_refill cfg t b)"

definition tb_config_ok :: "rl_config \<Rightarrow> bool" where
  "tb_config_ok cfg \<longleftrightarrow> 0 < cfg_windowMs cfg \<and> 0 < cfg_limit cfg \<and> 0 < tb_rate cfg \<and>
     of_int (cfg_limit cfg) \<le> 2000 * tb_rate cfg"

lemma tb_config_ok_plain: "0 < n \<Longrightarrow> 0 < w \<Longrightarrow> tb_config_ok (plain_config n w)"
  by (simp add: tb_config_ok_def tb_rate_def num_or_def)

lemma tb_level_bound: "0 < cfg_limit cfg \<Longrightarrow> tb_level cfg key rs t \<le> of_int (cfg_limit cfg)"
  by (simp add: tb_level_def tb_refill_def split: option.split)

lemma min_growth: "0 \<le> d \<Longrightarrow> min (m::rat) (a + (x + d)) \<le> min m (a + x) + d"
  by (simp add: min_def)

context redis_server
begin

definition tb_inv :: "rl_config \<Rightarrow> string \<Rightarrow> 's redis_service \<Rightarrow> ms \<Rightarrow> bool" where
  "tb_inv cfg key rs t0 \<longleftrightarrow> up rs \<and>
     (\<forall>t \<ge> t0. tb_load cfg (redis_get rs t (tb_key key)) t \<noteq> None \<and> 0 \<le> tb_level cfg key rs t) \<and>
     (\<forall>t \<ge> t0. \<forall>t' \<ge> t. tb_level cfg key rs t' \<le>
        tb_level cfg key rs t + of_int (t' - t) / of_int (cfg_windowMs cfg) * tb_rate cfg)"

lemma tb_level_stored:
  assumes "up rs" "tb_config_ok cfg"
    and "rs' = snd (redis_set rs now (tb_key key) (JStr (Stringified (encode_bucket b))) (cfg_windowMs cfg * 2))"
  shows "up rs'"
    and "tb_load cfg (redis_get rs' t (tb_key key)) t =
      Some (if t < now + 2000 * cfg_windowMs cfg then b else fresh_bucket cfg t)"
    and "tb_level cfg key rs' t =
      (if t < now + 2000 * cfg_windowMs cfg then tb_refill cfg t b else of_int (cfg_limit cfg))"
proof -
  have ttl: "0 < cfg_windowMs cfg * 2" using assms(2) by (simp add: tb_config_ok_def)
  show "up rs'" using assms(1,3) ttl by (simp add: cache.ready_set)
  have "redis_get rs' t (tb_key key) =
      (if t < now + 2000 * cfg_windowMs cfg then JStr (Stringified (encode_bucket b)) else JNull)"
    using assms(1,3) ttl by (simp add: cache.get_set)
  then show l: "tb_load cfg (redis_get rs' t (tb_key key)) t =
      Some (if t < now + 2000 * cfg_windowMs cfg then b else fresh_bucket cfg t)"
    by (simp add: tb_load_def)
  then show "tb_level cfg key rs' t =
      (if t < now + 2000 * cfg_windowMs cfg then tb_refill cfg t b else of_int (cfg_limit cfg))"
    by (simp add: tb_level_def) (simp add: tb_refill_def fresh_bucket_def)
qed

lemma tb_inv_stored:
  assumes up: "up rs" and cfg: "tb_config_ok cfg" and nn: "0 \<le> tokens b" and now: "lastRefillMs b = now"
    and rs': "rs' = snd (redis_set rs now (tb_key key) (JStr (Stringified (encode_bucket b))) (cfg_windowMs cfg * 2))"
  shows "tb_inv cfg key rs' now"
proof -
  let ?w = "cfg_windowMs cfg"
  have w: "0 < ?w" and lim: "0 < cfg_limit cfg" and rate: "0 < tb_rate cfg"
    and fill: "of_int (cfg_limit cfg) \<le> 2000 * tb_rate cfg"
    using cfg by (simp_all add: tb_config_ok_def)
  note stored = tb_level_stored [OF up cfg rs']
  define g :: "ms \<Rightarrow> rat" where "g t = of_int (t - now) / of_int ?w * tb_rate cfg" for t
  have g_mono: "0 \<le> of_int (t' - t) / of_int ?w * tb_rate cfg" if "t \<le> t'" for t t'
    using that w rate by simp
  have g_add: "g t' = g t + of_int (t' - t) / of_int ?w * tb_rate cfg" for t t'
    by (simp add: g_def diff_divide_distrib left_diff_distrib)
  have refill: "tb_refill cfg t b = min (of_int (cfg_limit cfg)) (tokens b + g t)" for t
    by (simp add: tb_refill_def now g_def)
  have g_late: "of_int (cfg_limit cfg) \<le> tokens b + g t" if "now + 2000 * ?w \<le> t" for t
  proof -
    have "(of_int (2000 * ?w) :: rat) \<le> of_int (t - now)" using that by (simp only: of_int_le_iff)
    then have "2000 \<le> (of_int (t - now) :: rat) / of_int ?w" using w by (simp add: field_simps)
    with rate have "2000 * tb_rate cfg \<le> g t" unfolding g_def by (intro mult_right_mono) simp_all
    with fill nn show ?thesis by simp
  qed
  show ?thesis unfolding tb_inv_def
  proof (intro conjI allI impI)
    show "up rs'" by (rule stored(1))
    fix t assume t: "now \<le> t"
    show "tb_load cfg (redis_get rs' t (tb_key key)) t \<noteq> None" by (simp add: stored(2))
    show "0 \<le> tb_level cfg key rs' t"
      using nn lim g_mono [OF t] by (simp add: stored(3) refill g_def)
    fix t' assume t': "t \<le> t'"
    have min': "tb_level cfg key rs' t' \<le> min (of_int (cfg_limit cfg)) (tokens b + g t')"
      using g_late [of t'] by (simp add: stored(3) refill)
    have min: "min (of_int (cfg_limit cfg)) (tokens b + g t) \<le> tb_level cfg key rs' t"
      by (simp add: stored(3) refill)
    show "tb_level cfg key rs' t' \<le> tb_level cfg key rs' t + of_int (t' - t) / of_int ?w * tb_rate cfg"
      using min_growth [OF g_mono [OF t'], of "of_int (cfg_limit cfg)" "tokens b" "g t"] min min'
      unfolding g_add [of t' t] by linarith
  qed
qed

lemma tb_inv_empty:
  assumes "up rs" "content rs (tb_key key) = None" "tb_config_ok cfg"
  shows "tb_inv cfg key rs t0"
proof -
  have load: "tb_load cfg (redis_get rs t (tb_key key)) t = Some (fresh_bucket cfg t)" for t
    using assms(1,2) by (simp add: get_up tb_load_def)
  have lvl: "tb_level cfg key rs t = of_int (cfg_limit cfg)" for t
    by (simp add: tb_level_def load) (simp add: tb_refill_def fresh_bucket_def)
  from assms show ?thesis by (simp add: tb_inv_def load lvl tb_config_ok_def)
qed

lemma token_bucket_step:
  assumes inv: "tb_inv cfg key rs t0" and le: "t0 \<le> now" and cfg: "tb_config_ok cfg"
  obtains r rs' where "token_bucket_check cfg key rs now = (Inr r, rs')" "result_ok r"
    "tb_inv cfg key rs' now" "r_allowed r \<longleftrightarrow> 1 \<le> tb_level cfg key rs now"
    "tb_level cfg key rs' now = tb_level cfg key rs now - (if r_allowed r then 1 else 0)"
proof -
  obtain b where b: "tb_load cfg (redis_get rs now (tb_key key)) now = Some b"
    using inv le unfolding tb_inv_def by blast
  have up: "up rs" using inv by (simp add: tb_inv_def)
  have lvl: "tb_level cfg key rs now = tb_refill cfg now b" by (simp add: tb_level_def b)
  have nn: "0 \<le> tb_refill cfg now b" using inv le lvl unfolding tb_inv_def by metis
  define ok where "ok \<longleftrightarrow> 1 \<le> tb_refill cfg now b"
  define left where "left = (if ok then tb_refill cfg now b - 1 else tb_refill cfg now b)"
  define b' where "b' = \<lparr>tokens = left, lastRefillMs = now\<rparr>"
  define rs' where "rs' = snd (redis_set rs now (tb_key key) (JStr (Stringified (encode_bucket b'))) (cfg_windowMs cfg * 2))"
  have left: "0 \<le> left" "left \<le> of_int (cfg_limit cfg)"
    using nn by (auto simp: left_def ok_def tb_refill_def)
  obtain r where r: "token_bucket_check cfg key rs now = (Inr r, rs')" "r_allowed r = ok"
    "r_remaining r = \<lfloor>left\<rfloor>" "r_retryAfterMs r = None \<longleftrightarrow> ok"
    by (auto simp: token_bucket_check_def b Let_def ok_def left_def b'_def rs'_def)
  have fl: "\<lfloor>left\<rfloor> = 0" if "\<not> ok" using that nn by (simp add: left_def ok_def floor_eq_iff)
  have "result_ok r" using r left fl by (auto simp: result_ok_def)
  moreover have "tb_inv cfg key rs' now"
    by (rule tb_inv_stored [OF up cfg _ _ rs'_def]) (use left in \<open>simp_all add: b'_def\<close>)
  moreover have "tb_level cfg key rs' now = left"
    using tb_level_stored(3) [OF up cfg rs'_def, of now] cfg left
    by (simp add: b'_def tb_refill_def tb_config_ok_def)
  ultimately show thesis
    using r by (intro that) (auto simp: lvl ok_def left_def)
qed

lemma token_bucket_run:
  assumes "tb_inv cfg key rs t0" "t0 \<le> t" "times_from t ts" "\<forall>x \<in> set ts. x \<le> T" "t \<le> T" "tb_config_ok cfg"
  shows "of_nat (length (admitted (token_bucket_check cfg key) rs ts)) \<le>
    tb_level cfg key rs t + of_int (T - t) / of_int (cfg_windowMs cfg) * tb_rate cfg"
  using assms(1-5)
proof (induction ts arbitrary: rs t0 t)
  case Nil
  then have "0 \<le> tb_level cfg key rs t" by (simp add: tb_inv_def)
  moreover have "0 \<le> of_int (T - t) / of_int (cfg_windowMs cfg) * tb_rate cfg"
    using Nil assms(6) by (simp add: tb_config_ok_def)
  ultimately show ?case by simp
next
  case (Cons u us)
  let ?q = "\<lambda>d. of_int d / of_int (cfg_windowMs cfg) * tb_rate cfg"
  have tu: "t \<le> u" "times_from u us" "u \<le> T" using Cons.prems by simp_all
  have le: "t0 \<le> u" using Cons.prems(2) tu by simp
  obtain r rs' where s: "token_bucket_check cfg key rs u = (Inr r, rs')" "tb_inv cfg key rs' u"
    "tb_level cfg key rs' u = tb_level cfg key rs u - (if r_allowed r then 1 else 0)"
    using token_bucket_step [OF Cons.prems(1) le assms(6)] by metis
  have "of_nat (length (admitted (token_bucket_check cfg key) rs' us)) \<le> tb_level cfg key rs' u + ?q (T - u)"
    using Cons.IH [OF s(2) order_refl tu(2)] Cons.prems(4) tu(3) by simp
  moreover have "tb_level cfg key rs u \<le> tb_level cfg key rs t + ?q (u - t)"
    using Cons.prems(1,2) tu(1) unfolding tb_inv_def by blast
  moreover have "?q (T - t) = ?q (T - u) + ?q (u - t)"
    by (simp add: diff_divide_distrib left_diff_distrib)
  ultimately show ?case using s(1,3) by (auto split: if_splits)
qed

lemma token_bucket_limiter:
  "tb_config_ok cfg \<Longrightarrow> rate_limiter (token_bucket_check cfg key) (tb_inv cfg key)"
  by unfold_locales (metis token_bucket_step)

end

subsection \<open>Leaky bucket\<close>

record queue =
  queueSize :: int
  lastLeakMs :: ms

definition lb_key :: "string \<Rightarrow> string" where
  "lb_key key = ''ratelimit:leakybucket:'' @ key"

definition encode_queue :: "queue \<Rightarrow> json" where
  "encode_queue q = JObj [(''queueSize'', JNum (of_int (queueSize q))), (''lastLeakMs'', JNum (of_int (lastLeakMs q)))]"

fun decode_queue :: "json \<Rightarrow> queue option" where
  "decode_queue (JObj fs) =
     (case (Option.bind (map_of fs ''queueSize'') json_int, Option.bind (map_of fs ''lastLeakMs'') json_int) of
        (Some n, Some m) \<Rightarrow> Some \<lparr>queueSize = n, lastLeakMs = m\<rparr>
      | _ \<Rightarrow> None)"
| "decode_queue _ = None"

lemma decode_encode_queue [simp]: "decode_queue (encode_queue q) = Some q"
  by (simp add: encode_queue_def)

text \<open>Lines 54-69: the stored state, or an empty bucket.\<close>

definition lb_load :: "json \<Rightarrow> ms \<Rightarrow> queue option" where
  "lb_load stateJson now =
     (if json_truthy stateJson then Option.bind (json_parse_value stateJson) decode_queue
      else Some \<lparr>queueSize = 0, lastLeakMs = now\<rparr>)"

text \<open>Requests per millisecond: \<open>(options.leakRate || limit / (windowMs / 1000)) / 1000\<close>.\<close>

definition lb_rate :: "rl_config \<Rightarrow> rat" where
  "lb_rate cfg =
     num_or (cfg_leakRate cfg) (of_int (cfg_limit cfg) / (of_int (cfg_windowMs cfg) / 1000)) / 1000"

definition lb_leak :: "rl_config \<Rightarrow> ms \<Rightarrow> queue \<Rightarrow> int" where
  "lb_leak cfg now q = max 0 (queueSize q - \<lfloor>of_int (now - lastLeakMs q) * lb_rate cfg\<rfloor>)"

definition leaky_bucket_check ::
  "rl_config \<Rightarrow> string \<Rightarrow> 's redis_service \<Rightarrow> ms \<Rightarrow> rl_outcome \<times> 's redis_service" where
  "leaky_bucket_check cfg key rs now =
     (case lb_load (redis_get rs now (lb_key key)) now of
        None \<Rightarrow> (Inl ''SyntaxError or malformed state'', rs)
      | Some q \<Rightarrow>
          (let leaked = lb_leak cfg now q;
               ok = leaked < cfg_limit cfg;
               size' = (if ok then leaked + 1 else leaked);
               wait = (if ok then 0 else of_int (size' - cfg_limit cfg + 1) / lb_rate cfg);
               rs' = snd (redis_set rs now (lb_key key)
                 (JStr (Stringified (encode_queue \<lparr>queueSize = size', lastLeakMs = now\<rparr>)))
                 (cfg_windowMs cfg * 2))
           in (Inr \<lparr>r_allowed = ok, r_current = Some size', r_limit = cfg_limit cfg,
                 r_remaining = max 0 (cfg_limit cfg - size'), r_resetMs = \<lceil>wait\<rceil>,
                 r_retryAfterMs = (if ok then None else Some \<lceil>wait\<rceil>),
                 r_metadata = Some (no_metadata\<lparr>m_bucketLevel := Some (of_int size'),
                   m_lastUpdateMs := Some now\<rparr>)\<rparr>, rs')))"

definition leaky_bucket_reset :: "string \<Rightarrow> 's redis_service \<Rightarrow> ms \<Rightarrow> 's redis_service" where
  "leaky_bucket_reset key rs now = snd (redis_delete rs now (lb_key key))"

definition leaky_bucket_state ::
  "string \<Rightarrow> 's redis_service \<Rightarrow> ms \<Rightarrow> string + rl_result option" where
  "leaky_bucket_state key rs now =
     (let stateJson = redis_get rs now (lb_key key)
      in if \<not> json_truthy stateJson then Inr None
         else case Option.bind (json_parse_value stateJson) decode_queue of
           None \<Rightarrow> Inl ''SyntaxError or malformed state''
         | Some q \<Rightarrow>
             Inr (Some \<lparr>r_allowed = queueSize q < 100, r_current = Some (queueSize q), r_limit = 100,
               r_remaining = max 0 (100 - queueSize q), r_resetMs = redis_ttl rs now (lb_key key) * 1000,
               r_retryAfterMs = None,
               r_metadata = Some (no_metadata\<lparr>m_bucketLevel := Some (of_int (queueSize q)),
                 m_lastUpdateMs := Some (lastLeakMs q)\<rparr>)\<rparr>))"

text \<open>Consecutive requests, the first after \<open>t0\<close>, closer than one leak period.\<close>

fun faster_than_leak :: "rl_config \<Rightarrow> ms \<Rightarrow> ms list \<Rightarrow> bool" where
  "faster_than_leak cfg t0 [] = True"
| "faster_than_leak cfg t0 (t # ts) =
     (t0 \<le> t \<and> (t - t0) * cfg_limit cfg < cfg_windowMs cfg \<and> faster_than_leak cfg t ts)"

lemma lb_rate_default:
  "cfg_leakRate cfg = None \<Longrightarrow> 0 < cfg_limit cfg \<Longrightarrow> 0 < cfg_windowMs cfg \<Longrightarrow>
   lb_rate cfg = of_int (cfg_limit cfg) / of_int (cfg_windowMs cfg)"
  by (simp add: lb_rate_def num_or_def)

context redis_server
begin

text \<open>A request less than one leak period after \<open>t0\<close> finds \<open>n\<close> requests in the bucket.\<close>

definition lb_holds :: "rl_config \<Rightarrow> string \<Rightarrow> 's redis_service \<Rightarrow> int \<Rightarrow> ms \<Rightarrow> bool" where
  "lb_holds cfg key rs n t0 \<longleftrightarrow> up rs \<and>
     (\<forall>t. t0 \<le> t \<and> (t - t0) * cfg_limit cfg < cfg_windowMs cfg \<longrightarrow>
        (\<exists>q. lb_load (redis_get rs t (lb_key key)) t = Some q \<and> lb_leak cfg t q = n))"

lemma lb_holds_empty:
  "up rs \<Longrightarrow> content rs (lb_key key) = None \<Longrightarrow> lb_holds cfg key rs 0 t0"
  by (simp add: lb_holds_def lb_load_def get_up lb_leak_def)

lemma lb_holds_stored:
  assumes up: "up rs" and n: "0 \<le> n"
    and cfg: "0 < cfg_limit cfg" "0 < cfg_windowMs cfg" "cfg_leakRate cfg = None"
  shows "lb_holds cfg key (snd (redis_set rs now (lb_key key)
      (JStr (Stringified (encode_queue \<lparr>queueSize = n, lastLeakMs = now\<rparr>))) (cfg_windowMs cfg * 2))) n now"
proof -
  let ?w = "cfg_windowMs cfg" and ?l = "cfg_limit cfg"
  have ttl: "0 < ?w * 2" using cfg(2) by simp
  have leak: "\<lfloor>of_int (t - now) * lb_rate cfg\<rfloor> = 0" and ttl_ok: "t < now + 1000 * (?w * 2)"
    if t: "now \<le> t" and gap: "(t - now) * ?l < ?w" for t
  proof -
    have "(of_int ((t - now) * ?l) :: rat) < of_int ?w" using gap by (simp only: of_int_less_iff)
    then have "of_int (t - now) * lb_rate cfg < 1"
      using cfg by (simp add: lb_rate_default field_simps)
    moreover have "0 \<le> of_int (t - now) * lb_rate cfg"
      using cfg t by (simp add: lb_rate_default)
    ultimately show "\<lfloor>of_int (t - now) * lb_rate cfg\<rfloor> = 0" by (simp add: floor_eq_iff)
    have "(t - now) * 1 \<le> (t - now) * ?l" using t cfg(1) by (intro mult_left_mono) simp_all
    then show "t < now + 1000 * (?w * 2)" using gap cfg(2) by simp
  qed
  show ?thesis
    using up ttl n leak ttl_ok by (auto simp: lb_holds_def lb_load_def cache.get_set cache.ready_set lb_leak_def)
qed

lemma leaky_bucket_tick:
  assumes h: "lb_holds cfg key rs n t0" and n: "0 \<le> n" and t: "t0 \<le> t"
    and gap: "(t - t0) * cfg_limit cfg < cfg_windowMs cfg"
    and cfg: "0 < cfg_limit cfg" "0 < cfg_windowMs cfg" "cfg_leakRate cfg = None"
  shows "admits (fst (leaky_bucket_check cfg key rs t)) \<longleftrightarrow> n < cfg_limit cfg"
    and "lb_holds cfg key (snd (leaky_bucket_check cfg key rs t)) (if n < cfg_limit cfg then n + 1 else n) t"
proof -
  obtain q where q: "lb_load (redis_get rs t (lb_key key)) t = Some q" "lb_leak cfg t q = n"
    using h t gap unfolding lb_holds_def by blast
  have up: "up rs" using h by (simp add: lb_holds_def)
  show "admits (fst (leaky_bucket_check cfg key rs t)) \<longleftrightarrow> n < cfg_limit cfg"
    by (simp add: leaky_bucket_check_def q Let_def)
  show "lb_holds cfg key (snd (leaky_bucket_check cfg key rs t)) (if n < cfg_limit cfg then n + 1 else n) t"
    using lb_holds_stored [OF up _ cfg] n by (simp add: leaky_bucket_check_def q Let_def)
qed

lemma leaky_bucket_starves:
  assumes "lb_holds cfg key rs (cfg_limit cfg) t0" "faster_than_leak cfg t0 ts"
    and cfg: "0 < cfg_limit cfg" "0 < cfg_windowMs cfg" "cfg_leakRate cfg = None"
  shows "admitted (leaky_bucket_check cfg key) rs ts = []"
  using assms(1,2)
proof (induction ts arbitrary: rs t0)
  case Nil
  then show ?case by simp
next
  case (Cons t ts)
  then have t: "t0 \<le> t" "(t - t0) * cfg_limit cfg < cfg_windowMs cfg" "faster_than_leak cfg t ts"
    by simp_all
  have n: "0 \<le> cfg_limit cfg" using cfg(1) by simp
  note tick = leaky_bucket_tick [OF Cons.prems(1) n t(1,2) cfg]
  from tick Cons.IH [of _ t] t(3) show ?case by simp
qed

lemma leaky_bucket_burst:
  assumes "lb_holds cfg key rs (int k) t0" "int k + int n \<le> cfg_limit cfg"
    and cfg: "0 < cfg_limit cfg" "0 < cfg_windowMs cfg" "cfg_leakRate cfg = None"
  shows "admitted (leaky_bucket_check cfg key) rs (replicate n t0) = replicate n t0 \<and>
    lb_holds cfg key (rl_state (leaky_bucket_check cfg key) rs (replicate n t0)) (int (k + n)) t0"
  using assms(1,2)
proof (induction n arbitrary: rs k)
  case 0
  then show ?case by simp
next
  case (Suc n)
  have gap: "(t0 - t0) * cfg_limit cfg < cfg_windowMs cfg" using cfg(2) by simp
  note tick = leaky_bucket_tick [OF Suc.prems(1) of_nat_0_le_iff order_refl gap cfg]
  have lt: "int k < cfg_limit cfg" using Suc.prems(2) by simp
  with tick(2) have "lb_holds cfg key (snd (leaky_bucket_check cfg key rs t0)) (int (Suc k)) t0"
    by (simp add: add.commute)
  from Suc.IH [OF this] Suc.prems(2) tick(1) lt show ?case by simp
qed

end

text \<open>The queue never grows past the limit, whatever the gaps.\<close>

lemma leaky_bucket_size:
  assumes "leaky_bucket_check cfg key rs now = (Inr r, rs')" "0 < cfg_limit cfg"
    and "\<And>q. lb_load (redis_get rs now (lb_key key)) now = Some q \<Longrightarrow>
      queueSize q \<le> cfg_limit cfg \<and> 0 \<le> lb_rate cfg \<and> lastLeakMs q \<le> now"
  shows "\<exists>n. r_current r = Some n \<and> 0 \<le> n \<and> n \<le> cfg_limit cfg \<and> result_ok r"
proof -
  obtain q where q: "lb_load (redis_get rs now (lb_key key)) now = Some q"
    using assms(1) by (auto simp: leaky_bucket_check_def split: option.splits)
  define d where "d = \<lfloor>of_int (now - lastLeakMs q) * lb_rate cfg\<rfloor>"
  have "0 \<le> d" using assms(3) [OF q] by (simp add: d_def)
  then have "0 \<le> lb_leak cfg now q" "lb_leak cfg now q \<le> cfg_limit cfg"
    using assms(3) [OF q] assms(2) unfolding lb_leak_def d_def [symmetric] by simp_all
  with assms(1) q show ?thesis
    by (auto simp: leaky_bucket_check_def Let_def result_ok_def)
qed

subsection \<open>Properties\<close>

interpretation default_bucket: rate_limiter
  "token_bucket_check (plain_config 100 60000) key" "mem.tb_inv (plain_config 100 60000) key" for key
  by (rule mem.token_bucket_limiter) (simp add: tb_config_ok_plain)

text \<open>C17. The token bucket strategy admits a burst of at most \<open>limit\<close> and refills at its rate:
  of the requests on a fresh key between \<open>t0\<close> and \<open>T\<close> it admits at most
  \<open>limit + (T - t0) / windowMs * refillRate\<close>, also across the expiry of the Redis key.\<close>

theorem token_bucket_bound:
  assumes "redis_server c view" "redis_server.up c rs" "redis_server.content view rs (tb_key key) = None"
    and "tb_config_ok cfg" "times_from t0 ts" "\<forall>x \<in> set ts. x \<le> T" "t0 \<le> T"
  shows "of_nat (length (admitted (token_bucket_check cfg key) rs ts)) \<le>
    of_int (cfg_limit cfg) + of_int (T - t0) / of_int (cfg_windowMs cfg) * tb_rate cfg"
proof -
  have "0 < cfg_limit cfg" using assms(4) by (simp add: tb_config_ok_def)
  then show ?thesis
    using redis_server.token_bucket_run [OF assms(1) redis_server.tb_inv_empty [OF assms(1-4)] order_refl assms(5-7,4)]
      tb_level_bound [of cfg key rs t0] by linarith
qed

lemma token_bucket_bound_witness:
  "of_nat (length (admitted (token_bucket_check (plain_config 2 1000) ''u'') mem_service [0, 1, 2, 500])) \<le>
    of_int (cfg_limit (plain_config 2 1000)) +
      of_int (500 - 0) / of_int (cfg_windowMs (plain_config 2 1000)) * tb_rate (plain_config 2 1000)"
  by (rule token_bucket_bound [OF mem.redis_server_axioms mem_service_up _ tb_config_ok_plain]) simp_all

text \<open>Under a documented Redis the token bucket strategy never throws and every answer of a
  run on a fresh key is well formed.\<close>

theorem token_bucket_answers:
  assumes "redis_server c view" "redis_server.up c rs" "redis_server.content view rs (tb_key key) = None"
    and "tb_config_ok cfg" "times_from t0 ts"
  shows "list_all (\<lambda>x. \<exists>r. x = Inr r \<and> result_ok r) (rl_run (token_bucket_check cfg key) rs ts)"
  using rate_limiter.run_ok [OF redis_server.token_bucket_limiter [OF assms(1,4)]
      redis_server.tb_inv_empty [OF assms(1-4)] assms(5)] .

lemma token_bucket_answers_witness:
  "list_all (\<lambda>x. \<exists>r. x = Inr r \<and> result_ok r)
     (rl_run (token_bucket_check (plain_config 2 1000) ''u'') mem_service [0, 1, 2, 500])"
  by (rule token_bucket_answers [OF mem.redis_server_axioms mem_service_up _ tb_config_ok_plain, of _ _ _ 0])
    simp_all

text \<open>The leaky bucket strategy starves a steady client. After a burst that fills the bucket
  with \<open>limit\<close> requests, a client whose requests each come sooner than one leak period
  (\<open>windowMs / limit\<close>) after the one before is never admitted again, however long it goes on:
  every denied request rounds its share of the leak down to 0 and moves \<open>lastLeakMs\<close> on.\<close>

theorem leaky_bucket_starvation:
  assumes "redis_server c view" "redis_server.up c rs" "redis_server.content view rs (lb_key key) = None"
    and "cfg_limit cfg = int n" "0 < n" "0 < cfg_windowMs cfg" "cfg_leakRate cfg = None"
    and "faster_than_leak cfg t0 ts"
  shows "admitted (leaky_bucket_check cfg key) rs (replicate n t0 @ ts) = replicate n t0"
proof -
  have cfg: "0 < cfg_limit cfg" using assms(4,5) by simp
  have empty: "redis_server.lb_holds c cfg key rs (int 0) t0"
    using redis_server.lb_holds_empty [OF assms(1-3)] by simp
  have burst: "admitted (leaky_bucket_check cfg key) rs (replicate n t0) = replicate n t0 \<and>
      redis_server.lb_holds c cfg key (rl_state (leaky_bucket_check cfg key) rs (replicate n t0)) (int (0 + n)) t0"
    by (rule redis_server.leaky_bucket_burst [OF assms(1) empty _ cfg assms(6,7)]) (simp add: assms(4))
  then have "admitted (leaky_bucket_check cfg key) (rl_state (leaky_bucket_check cfg key) rs (replicate n t0)) ts = []"
    using redis_server.leaky_bucket_starves [OF assms(1) _ assms(8) cfg assms(6,7)] assms(4) by simp
  with burst show ?thesis by (simp add: admitted_append)
qed

lemma leaky_bucket_starvation_witness:
  "admitted (leaky_bucket_check (plain_config 2 1000) ''u'') mem_service
     (replicate 2 0 @ [400, 800, 1200, 1600, 2000, 2400]) = replicate 2 0"
  by (rule leaky_bucket_starvation [OF mem.redis_server_axioms mem_service_up]) simp_all

end
