(* ===== verification/Rate_Adaptive.thy ===== *)
theory Rate_Adaptive
  imports Rate_Limit
begin

section \<open>Adaptive strategy\<close>

text \<open>
  \<open>strategies/adaptive.strategy.ts\<close>: a sliding log whose limit is scaled by a load factor and a
  score per key. The scores live in a JavaScript \<open>Map\<close>, kept here as an association list in
  insertion order; setting a key that is present keeps its place.
\<close>

record adaptive =
  systemLoad :: rat
  lastMetricsUpdate :: ms
  userScores :: "(string \<times> int) list"

definition adaptive_init :: adaptive where
  "adaptive_init = \<lparr>systemLoad = 1 / 2, lastMetricsUpdate = 0, userScores = []\<rparr>"

definition METRICS_CACHE_MS :: int where
  "METRICS_CACHE_MS = 10000"

definition update_system_metrics :: "ms \<Rightarrow> adaptive \<Rightarrow> adaptive" where
  "update_system_metrics now a =
     (if now - lastMetricsUpdate a < METRICS_CACHE_MS then a
      else (let avgResponseTime = 100; targetResponseTime = 200
            in a\<lparr>systemLoad := min 1 (avgResponseTime / targetResponseTime), lastMetricsUpdate := now\<rparr>))"

definition get_user_score :: "string \<Rightarrow> adaptive \<Rightarrow> int" where
  "get_user_score key a = num_or (map_of (userScores a) key) 70"

definition calculate_user_multiplier :: "int \<Rightarrow> rat" where
  "calculate_user_multiplier score =
     (if score \<ge> 90 then 3 / 2
      else if score \<ge> 70 then 6 / 5
      else if score \<ge> 50 then 1
      else if score \<ge> 30 then 7 / 10
      else 3 / 10)"

definition adaptive_min :: "rl_config \<Rightarrow> int" where
  "adaptive_min cfg = num_or (cfg_minLimit cfg) \<lfloor>of_int (cfg_limit cfg) * (3 / 10 :: rat)\<rfloor>"

definition adaptive_max :: "rl_config \<Rightarrow> int" where
  "adaptive_max cfg = num_or (cfg_maxLimit cfg) \<lfloor>of_int (cfg_limit cfg) * (2 :: rat)\<rfloor>"

definition calculate_adaptive_limit :: "string \<Rightarrow> rl_config \<Rightarrow> adaptive \<Rightarrow> int" where
  "calculate_adaptive_limit key cfg a =
     (let targetUtilization = num_or (cfg_targetUtilization cfg) (7 / 10);
          adjustmentFactor = num_or (cfg_adjustmentFactor cfg) (3 / 10);
          loadAdjustment = (targetUtilization - systemLoad a) * adjustmentFactor;
          userMultiplier = calculate_user_multiplier (get_user_score key a);
          scaled = of_int (cfg_limit cfg) * (1 + loadAdjustment) * userMultiplier
      in max (adaptive_min cfg) (min (adaptive_max cfg) \<lfloor>scaled\<rfloor>))"

definition update_user_score :: "string \<Rightarrow> bool \<Rightarrow> adaptive \<Rightarrow> adaptive" where
  "update_user_score key positive a =
     (let currentScore = get_user_score key a;
          newScore = (if positive then min 100 (currentScore + 1) else max 0 (currentScore - 5));
          scores = js_map_set key newScore (userScores a)
      in a\<lparr>userScores := (if length scores > 1000 then tl scores else scores)\<rparr>)"

definition calculate_reset_time :: "ms list \<Rightarrow> int \<Rightarrow> ms \<Rightarrow> int" where
  "calculate_reset_time timestamps windowMs now =
     (case timestamps of [] \<Rightarrow> 0 | t # ts \<Rightarrow> max 0 (fold min ts t + windowMs - now))"

definition ad_key :: "string \<Rightarrow> string" where
  "ad_key key = ''ratelimit:adaptive:'' @ key"

definition adaptive_check ::
  "rl_config \<Rightarrow> string \<Rightarrow> adaptive \<times> 's redis_service \<Rightarrow> ms \<Rightarrow> rl_outcome \<times> (adaptive \<times> 's redis_service)" where
  "adaptive_check cfg key w now =
     (let a = update_system_metrics now (fst w);
          rs = snd w;
          adaptiveLimit = calculate_adaptive_limit key cfg a
      in case read_times rs now (ad_key key) of
           None \<Rightarrow>
             (Inr \<lparr>r_allowed = True, r_current = Some 0, r_limit = cfg_limit cfg,
                r_remaining = cfg_limit cfg, r_resetMs = cfg_windowMs cfg, r_retryAfterMs = None,
                r_metadata = None\<rparr>, (a, rs))
         | Some timestamps \<Rightarrow>
             (let windowStart = now - cfg_windowMs cfg;
                  valid = filter (\<lambda>ts. windowStart < ts) timestamps;
                  currentCount = int (length valid)
              in if currentCount < adaptiveLimit then
                   (let valid' = valid @ [now];
                        rs' = write_times rs now (ad_key key) valid' (cfg_windowMs cfg + 1000);
                        a' = update_user_score key True a
                    in (Inr \<lparr>r_allowed = True, r_current = Some (currentCount + 1), r_limit = adaptiveLimit,
                          r_remaining = max 0 (adaptiveLimit - currentCount - 1),
                          r_resetMs = calculate_reset_time valid' (cfg_windowMs cfg) now,
                          r_retryAfterMs = None,
                          r_metadata = Some (no_metadata\<lparr>m_strategy := Some ''ADAPTIVE'',
                            m_baseLimit := Some (cfg_limit cfg), m_adaptiveLimit := Some adaptiveLimit,
                            m_systemLoad := Some (systemLoad a'), m_userScore := Some (get_user_score key a'),
                            m_windowRequests := Some valid'\<rparr>)\<rparr>, (a', rs')))
                 else
                   (let a' = update_user_score key False a;
                        reset = calculate_reset_time valid (cfg_windowMs cfg) now
                    in (Inr \<lparr>r_allowed = False, r_current = Some currentCount, r_limit = adaptiveLimit,
                          r_remaining = 0, r_resetMs = reset, r_retryAfterMs = Some reset,
                          r_metadata = Some (no_metadata\<lparr>m_strategy := Some ''ADAPTIVE'',
                            m_baseLimit := Some (cfg_limit cfg), m_adaptiveLimit := Some adaptiveLimit,
                            m_systemLoad := Some (systemLoad a'), m_userScore := Some (get_user_score key a'),
                            m_message := Some ''Adaptive rate limit exceeded - limit adjusted based on system load''\<rparr>)\<rparr>,
                       (a', rs)))))"

definition adaptive_reset :: "string \<Rightarrow> adaptive \<times> 's redis_service \<Rightarrow> ms \<Rightarrow> adaptive \<times> 's redis_service" where
  "adaptive_reset key w now =
     ((fst w)\<lparr>userScores := filter (\<lambda>e. fst e \<noteq> key) (userScores (fst w))\<rparr>,
      snd (redis_delete (snd w) now (ad_key key)))"

definition adaptive_state ::
  "string \<Rightarrow> adaptive \<times> 's redis_service \<Rightarrow> ms \<Rightarrow> string + rl_result option" where
  "adaptive_state key w now =
     (if \<not> json_truthy (redis_get (snd w) now (ad_key key)) then Inr None
      else case read_times (snd w) now (ad_key key) of
        None \<Rightarrow> Inl ''SyntaxError or TypeError''
      | Some ts \<Rightarrow>
          (let n = int (length ts);
               adaptiveLimit = calculate_adaptive_limit key (plain_config 100 60000) (fst w)
           in Inr (Some \<lparr>r_allowed = n < adaptiveLimit, r_current = Some n, r_limit = adaptiveLimit,
                r_remaining = max 0 (adaptiveLimit - n),
                r_resetMs = calculate_reset_time ts 60000 now, r_retryAfterMs = None,
                r_metadata = Some (no_metadata\<lparr>m_strategy := Some ''ADAPTIVE'', m_baseLimit := Some 100,
                  m_adaptiveLimit := Some adaptiveLimit, m_windowRequests := Some ts,
                  m_systemLoad := Some (systemLoad (fst w)),
                  m_userScore := Some (get_user_score key (fst w))\<rparr>)\<rparr>)))"

subsection \<open>Bounds\<close>

lemma adaptive_limit_bounds:
  "adaptive_min cfg \<le> calculate_adaptive_limit key cfg a \<and>
   (adaptive_min cfg \<le> adaptive_max cfg \<longrightarrow> calculate_adaptive_limit key cfg a \<le> adaptive_max cfg)"
  by (simp add: calculate_adaptive_limit_def Let_def)

definition scores_ok :: "adaptive \<Rightarrow> bool" where
  "scores_ok a \<longleftrightarrow> list_all (\<lambda>e. 0 \<le> snd e \<and> snd e \<le> 100) (userScores a) \<and> length (userScores a) \<le> 1000"

lemma score_range: "scores_ok a \<Longrightarrow> 0 < get_user_score key a \<and> get_user_score key a \<le> 100"
  by (auto simp: scores_ok_def get_user_score_def num_or_def list_all_iff less_le
      split: option.split dest!: map_of_SomeD)

lemma scores_ok_update:
  assumes "scores_ok a"
  shows "scores_ok (update_user_score key pos a)"
proof -
  define s where "s = (if pos then min 100 (get_user_score key a + 1) else max 0 (get_user_score key a - 5))"
  have s: "0 \<le> s" "s \<le> 100" using score_range [OF assms, of key] by (auto simp: s_def)
  let ?m = "js_map_set key s (userScores a)"
  have all: "list_all (\<lambda>e. 0 \<le> snd e \<and> snd e \<le> 100) ?m"
    using assms s by (intro js_map_set_all) (simp_all add: scores_ok_def)
  then have all': "list_all (\<lambda>e. 0 \<le> snd e \<and> snd e \<le> 100) (tl ?m)" by (cases ?m) simp_all
  have len: "length ?m \<le> 1001"
    using length_js_map_set [of key s "userScores a"] assms by (simp add: scores_ok_def)
  show ?thesis
    using all all' len unfolding update_user_score_def Let_def s_def [symmetric]
    by (auto simp: scores_ok_def)
qed

lemma scores_ok_metrics [simp]: "scores_ok (update_system_metrics now a) = scores_ok a"
  by (simp add: scores_ok_def update_system_metrics_def Let_def)

lemma adaptive_check_scores:
  "scores_ok (fst w) \<Longrightarrow> scores_ok (fst (snd (adaptive_check cfg key w now)))"
  by (auto simp: adaptive_check_def Let_def scores_ok_update split: option.split)

lemma adaptive_check_result_ok:
  assumes "adaptive_check cfg key w now = (Inr r, w')" "0 \<le> cfg_limit cfg"
  shows "result_ok r"
  using assms by (auto simp: adaptive_check_def Let_def result_ok_def split: option.splits if_splits)

text \<open>The load never leaves 1/2: the measured response time is a constant.\<close>

lemma adaptive_check_load:
  "systemLoad (fst w) = 1 / 2 \<Longrightarrow> systemLoad (fst (snd (adaptive_check cfg key w now))) = 1 / 2"
  by (auto simp: adaptive_check_def Let_def update_user_score_def update_system_metrics_def split: option.split)

text \<open>Denials alone drive a score to 0, where it reads as the default 70 again.\<close>

fun penalise :: "nat \<Rightarrow> string \<Rightarrow> adaptive \<Rightarrow> adaptive" where
  "penalise 0 key a = a"
| "penalise (Suc n) key a = penalise n key (update_user_score key False a)"

lemma score_after_penalty:
  assumes "length (js_map_set key s' (userScores a)) \<le> 1000"
    and "s' = max 0 (get_user_score key a - 5)"
  shows "map_of (userScores (update_user_score key False a)) key = Some s'"
  using assms by (simp add: update_user_score_def Let_def)

subsection \<open>Properties\<close>

text \<open>Whatever the load and the score, the limit the adaptive strategy enforces is at least
  \<open>minLimit\<close> (default 30% of the base limit) and, when the two bounds are in order, at most
  \<open>maxLimit\<close> (default twice the base limit); and the answer it gives is well formed.\<close>

theorem adaptive_answers:
  assumes "adaptive_check cfg key w now = (Inr r, w')" "0 \<le> cfg_limit cfg"
    and "adaptive_min cfg \<le> adaptive_max cfg" "r_metadata r \<noteq> None"
  shows "adaptive_min cfg \<le> r_limit r \<and> r_limit r \<le> adaptive_max cfg \<and> result_ok r"
  using assms(1,3,4) adaptive_limit_bounds adaptive_check_result_ok [OF assms(1,2)]
  by (auto simp: adaptive_check_def Let_def split: option.splits if_splits)

lemma adaptive_answers_witness:
  "\<exists>r w'. adaptive_check (plain_config 100 60000) ''u'' (adaptive_init, mem_service) 0 = (Inr r, w') \<and>
    30 \<le> r_limit r \<and> r_limit r \<le> 200 \<and> result_ok r"
proof -
  have "\<exists>r w'. adaptive_check (plain_config 100 60000) ''u'' (adaptive_init, mem_service) 0 = (Inr r, w') \<and>
      r_metadata r \<noteq> None"
    by (cases "0 < calculate_adaptive_limit ''u'' (plain_config 100 60000) (update_system_metrics 0 adaptive_init)")
      (simp_all add: adaptive_check_def Let_def mem.read_times_empty)
  then obtain r w' where c: "adaptive_check (plain_config 100 60000) ''u'' (adaptive_init, mem_service) 0 = (Inr r, w')"
    and m: "r_metadata r \<noteq> None" by blast
  from adaptive_answers [OF c _ _ m] c show ?thesis
    by (auto simp: adaptive_min_def adaptive_max_def num_or_def plain_config_def)
qed

text \<open>The strategy never adapts to load: the response time it measures is the constant 100 ms
  against a target of 200 ms, so the system load stays 1/2, its initial value, through every check.\<close>

theorem adaptive_load_constant:
  assumes "systemLoad (fst w) = 1 / 2"
  shows "systemLoad (fst (rl_state (adaptive_check cfg key) w ts)) = 1 / 2"
  using assms by (induction ts arbitrary: w) (simp_all add: adaptive_check_load)

lemma adaptive_load_constant_witness:
  "systemLoad (fst (rl_state (adaptive_check (plain_config 100 60000) ''u'') (adaptive_init, mem_service) [0, 20000])) = 1 / 2"
  by (rule adaptive_load_constant) (simp add: adaptive_init_def)

end
