(* ===== verification/Circuit_Breaker.thy ===== *)
theory Circuit_Breaker
  imports Prelude "HOL-Library.Char_ord" "HOL-Library.List_Lexorder"
begin

section \<open>Circuit breaker\<close>

text \<open>
  \<open>modules/gateway/services/circuit-breaker.service.ts\<close>. The state of every service is a row of
  the table \<open>CircuitBreakerState\<close>, unique in \<open>serviceName\<close>; \<open>upsert\<close> changes the row or
  adds it. An abstract breaker with three constructors is the specification that the rows
  refine. (\<open>getAllStates\<close> orders by the C collation here.)
\<close>

datatype cb_status = CLOSED | OPEN | HALF_OPEN

record cb_row =
  cb_service :: string
  cb_state :: cb_status
  failureCount :: nat
  successCount :: nat
  lastFailureAt :: "ms option"
  lastSuccessAt :: "ms option"
  nextRetryAt :: "ms option"
  openedAt :: "ms option"

definition failureThreshold :: nat where "failureThreshold = 5"
definition successThreshold :: nat where "successThreshold = 3"
definition cb_timeout :: ms where "cb_timeout = 60000"

definition initial_row :: "string \<Rightarrow> cb_row" where
  "initial_row s = \<lparr>cb_service = s, cb_state = CLOSED, failureCount = 0, successCount = 0,
     lastFailureAt = None, lastSuccessAt = None, nextRetryAt = None, openedAt = None\<rparr>"

definition cb_get_state :: "string \<Rightarrow> cb_row list \<Rightarrow> cb_row \<times> cb_row list" where
  "cb_get_state s db =
     (case find_by cb_service s db of
        Some r \<Rightarrow> (r, db)
      | None \<Rightarrow> (initial_row s, db @ [initial_row s]))"

definition cb_update_state :: "string \<Rightarrow> (cb_row \<Rightarrow> cb_row) \<Rightarrow> cb_row list \<Rightarrow> cb_row list" where
  "cb_update_state s data db =
     (case find_by cb_service s db of
        Some _ \<Rightarrow> update_by cb_service s data db
      | None \<Rightarrow> db @ [data (initial_row s)])"

definition transition_to_open :: "string \<Rightarrow> ms \<Rightarrow> cb_row list \<Rightarrow> cb_row list" where
  "transition_to_open s now =
     cb_update_state s (\<lambda>r. r\<lparr>cb_state := OPEN, openedAt := Some now, nextRetryAt := Some (now + cb_timeout)\<rparr>)"

definition transition_to_half_open :: "string \<Rightarrow> cb_row list \<Rightarrow> cb_row list" where
  "transition_to_half_open s =
     cb_update_state s (\<lambda>r. r\<lparr>cb_state := HALF_OPEN, successCount := 0, failureCount := 0\<rparr>)"

definition transition_to_closed :: "string \<Rightarrow> cb_row list \<Rightarrow> cb_row list" where
  "transition_to_closed s =
     cb_update_state s (\<lambda>r. r\<lparr>cb_state := CLOSED, failureCount := 0, successCount := 0,
       nextRetryAt := None, openedAt := None\<rparr>)"

definition can_execute :: "string \<Rightarrow> ms \<Rightarrow> cb_row list \<Rightarrow> bool \<times> cb_row list" where
  "can_execute s now db =
     (let (r, db') = cb_get_state s db
      in case cb_state r of
           CLOSED \<Rightarrow> (True, db')
         | OPEN \<Rightarrow>
             (case nextRetryAt r of
                Some t \<Rightarrow> if t \<le> now then (True, transition_to_half_open s db') else (False, db')
              | None \<Rightarrow> (False, db'))
         | HALF_OPEN \<Rightarrow> (True, db'))"

definition record_success :: "string \<Rightarrow> ms \<Rightarrow> cb_row list \<Rightarrow> cb_row list" where
  "record_success s now db =
     (let (r, db') = cb_get_state s db
      in if cb_state r = HALF_OPEN then
           (let n = successCount r + 1
            in if successThreshold \<le> n then transition_to_closed s db'
               else cb_update_state s (\<lambda>x. x\<lparr>successCount := n, lastSuccessAt := Some now\<rparr>) db')
         else cb_update_state s (\<lambda>x. x\<lparr>failureCount := 0, successCount := successCount r + 1,
                lastSuccessAt := Some now\<rparr>) db')"

definition record_failure :: "string \<Rightarrow> ms \<Rightarrow> cb_row list \<Rightarrow> cb_row list" where
  "record_failure s now db =
     (let (r, db') = cb_get_state s db
      in if cb_state r = HALF_OPEN then transition_to_open s now db'
         else
           (let n = failureCount r + 1
            in if failureThreshold \<le> n then transition_to_open s now db'
               else cb_update_state s (\<lambda>x. x\<lparr>failureCount := n, lastFailureAt := Some now\<rparr>) db'))"

definition cb_reset :: "string \<Rightarrow> cb_row list \<Rightarrow> cb_row list" where
  "cb_reset s = transition_to_closed s"

definition get_all_states :: "cb_row list \<Rightarrow> cb_row list" where
  "get_all_states db = sort_key cb_service db"

record cb_statistics =
  st_total :: nat
  st_closed :: nat
  st_open :: nat
  st_half_open :: nat
  st_states :: "(string \<times> cb_status \<times> nat \<times> nat \<times> ms option \<times> ms option) list"

definition cb_get_statistics :: "cb_row list \<Rightarrow> cb_statistics" where
  "cb_get_statistics db =
     (let states = get_all_states db
      in \<lparr>st_total = length states,
          st_closed = length (filter (\<lambda>s. cb_state s = CLOSED) states),
          st_open = length (filter (\<lambda>s. cb_state s = OPEN) states),
          st_half_open = length (filter (\<lambda>s. cb_state s = HALF_OPEN) states),
          st_states = map (\<lambda>s. (cb_service s, cb_state s, failureCount s, successCount s,
            lastFailureAt s, nextRetryAt s)) states\<rparr>)"

subsection \<open>The abstract breaker\<close>

text \<open>Failures in a row, or the time of the next try and the failures counted, or the successes
  of the trial period.\<close>

datatype breaker = Closed nat | OpenUntil ms nat | HalfOpen nat

fun br_can :: "ms \<Rightarrow> breaker \<Rightarrow> bool \<times> breaker" where
  "br_can now (Closed n) = (True, Closed n)"
| "br_can now (OpenUntil t n) = (if t \<le> now then (True, HalfOpen 0) else (False, OpenUntil t n))"
| "br_can now (HalfOpen k) = (True, HalfOpen k)"

fun br_success :: "breaker \<Rightarrow> breaker" where
  "br_success (Closed n) = Closed 0"
| "br_success (OpenUntil t n) = OpenUntil t 0"
| "br_success (HalfOpen k) = (if k + 1 < 3 then HalfOpen (k + 1) else Closed 0)"

fun br_failure :: "ms \<Rightarrow> breaker \<Rightarrow> breaker" where
  "br_failure now (Closed n) = (if n + 1 < 5 then Closed (n + 1) else OpenUntil (now + 60000) n)"
| "br_failure now (OpenUntil t n) = (if n + 1 < 5 then OpenUntil t (n + 1) else OpenUntil (now + 60000) n)"
| "br_failure now (HalfOpen k) = OpenUntil (now + 60000) 0"

definition abs_row :: "cb_row \<Rightarrow> breaker" where
  "abs_row r = (case cb_state r of
      CLOSED \<Rightarrow> Closed (failureCount r)
    | OPEN \<Rightarrow> OpenUntil (case nextRetryAt r of None \<Rightarrow> 0 | Some t \<Rightarrow> t) (failureCount r)
    | HALF_OPEN \<Rightarrow> HalfOpen (successCount r))"

definition breaker_of :: "string \<Rightarrow> cb_row list \<Rightarrow> breaker" where
  "breaker_of s db = (case find_by cb_service s db of None \<Rightarrow> Closed 0 | Some r \<Rightarrow> abs_row r)"

definition row_ok :: "cb_row \<Rightarrow> bool" where
  "row_ok r \<longleftrightarrow> failureCount r < failureThreshold \<and>
     (cb_state r = OPEN \<longrightarrow> nextRetryAt r \<noteq> None) \<and>
     (cb_state r = HALF_OPEN \<longrightarrow> failureCount r = 0 \<and> successCount r < successThreshold)"

definition table_ok :: "cb_row list \<Rightarrow> bool" where
  "table_ok db \<longleftrightarrow> distinct (map cb_service db) \<and> list_all row_ok db"

lemmas cb_consts = failureThreshold_def successThreshold_def cb_timeout_def
lemmas cb_transitions = transition_to_open_def transition_to_half_open_def transition_to_closed_def cb_reset_def

lemma initial_row_simps [simp]:
  "cb_service (initial_row s) = s" "abs_row (initial_row s) = Closed 0" "row_ok (initial_row s)"
  by (simp_all add: initial_row_def abs_row_def row_ok_def cb_consts)

text \<open>\<open>upsert\<close> sees one row only.\<close>

lemma find_update_state:
  assumes "\<And>r. cb_service (f r) = cb_service r"
  shows "find_by cb_service k (cb_update_state s f db) =
    (if k = s then Some (f (case find_by cb_service s db of None \<Rightarrow> initial_row s | Some r \<Rightarrow> r))
     else find_by cb_service k db)"
  using assms by (auto simp: cb_update_state_def find_by_update_by split: option.split)

lemma find_get_state:
  "find_by cb_service k (snd (cb_get_state s db)) =
    (if k = s then Some (fst (cb_get_state s db)) else find_by cb_service k db)"
  by (auto simp: cb_get_state_def split: option.split dest: find_by_SomeD)

lemma breaker_get_state:
  "abs_row (fst (cb_get_state s db)) = breaker_of s db"
  "breaker_of k (snd (cb_get_state s db)) = breaker_of k db"
  by (cases "find_by cb_service s db"; cases "find_by cb_service k db"; auto simp: cb_get_state_def breaker_of_def)+

lemma breaker_update_state:
  assumes "\<And>r. cb_service (f r) = cb_service r"
  shows "breaker_of k (cb_update_state s f (snd (cb_get_state s db))) =
    (if k = s then abs_row (f (fst (cb_get_state s db))) else breaker_of k db)"
  using assms by (simp add: breaker_of_def find_update_state find_get_state)

lemma table_ok_find: "table_ok db \<Longrightarrow> find_by cb_service s db = Some r \<Longrightarrow> row_ok r"
  by (auto simp: table_ok_def list_all_iff dest: find_by_SomeD)

lemma table_ok_get_state:
  "table_ok db \<Longrightarrow> table_ok (snd (cb_get_state s db)) \<and> row_ok (fst (cb_get_state s db))"
  by (cases "find_by cb_service s db")
    (auto simp: cb_get_state_def table_ok_find table_ok_def find_by_None_iff [symmetric])

lemma table_ok_update_state:
  assumes "table_ok db" "\<And>r. cb_service (f r) = cb_service r"
    and "row_ok (f (case find_by cb_service s db of None \<Rightarrow> initial_row s | Some r \<Rightarrow> r))"
  shows "table_ok (cb_update_state s f db)"
proof (cases "find_by cb_service s db")
  case None
  then have "s \<notin> cb_service ` set db" by (simp add: find_by_None_iff)
  with None show ?thesis
    using assms by (simp add: table_ok_def cb_update_state_def)
next
  case (Some r)
  have "row_ok (if cb_service x = s then f x else x)" if "x \<in> set db" for x
    using that assms Some find_by_distinct [of cb_service db x] by (auto simp: table_ok_def list_all_iff)
  then have "list_all row_ok (update_by cb_service s f db)"
    unfolding update_by_def list_all_iff set_update_where by blast
  then show ?thesis
    using assms(1,2) Some by (simp add: table_ok_def cb_update_state_def keys_update_by)
qed

lemma table_ok_update_after_get:
  assumes "table_ok db" "\<And>r. cb_service (f r) = cb_service r" "row_ok (f (fst (cb_get_state s db)))"
  shows "table_ok (cb_update_state s f (snd (cb_get_state s db)))"
  using table_ok_update_state [of "snd (cb_get_state s db)" f s] table_ok_get_state [OF assms(1)] assms(2,3)
  by (simp add: find_get_state)

subsection \<open>Every operation refines the abstract breaker and keeps the table well formed\<close>

lemma can_execute_refines:
  assumes "table_ok db"
  shows "fst (can_execute s now db) = fst (br_can now (breaker_of s db)) \<and>
    breaker_of k (snd (can_execute s now db)) =
      (if k = s then snd (br_can now (breaker_of s db)) else breaker_of k db) \<and>
    table_ok (snd (can_execute s now db))"
proof -
  obtain r db' where g: "cb_get_state s db = (r, db')" by fastforce
  note t = table_ok_get_state [OF assms, of s] and b = breaker_get_state(1) [of s db, symmetric] breaker_get_state(2) [of k s db]
  note u = breaker_update_state [of _ k s db] and tu = table_ok_update_after_get [OF assms, of _ s]
  show ?thesis
    using t b u tu g unfolding can_execute_def cb_transitions
    by (auto simp: abs_row_def row_ok_def cb_consts split: cb_status.splits option.splits)
qed

lemma record_success_refines:
  assumes "table_ok db"
  shows "breaker_of k (record_success s now db) =
      (if k = s then br_success (breaker_of s db) else breaker_of k db) \<and>
    table_ok (record_success s now db)"
proof -
  obtain r db' where g: "cb_get_state s db = (r, db')" by fastforce
  note t = table_ok_get_state [OF assms, of s] and b = breaker_get_state(1) [of s db, symmetric] breaker_get_state(2) [of k s db]
  note u = breaker_update_state [of _ k s db] and tu = table_ok_update_after_get [OF assms, of _ s]
  show ?thesis
    using t b u tu g unfolding record_success_def cb_transitions
    by (cases "cb_state r") (auto simp: abs_row_def row_ok_def cb_consts Let_def)
qed

lemma record_failure_refines:
  assumes "table_ok db"
  shows "breaker_of k (record_failure s now db) =
      (if k = s then br_failure now (breaker_of s db) else breaker_of k db) \<and>
    table_ok (record_failure s now db)"
proof -
  obtain r db' where g: "cb_get_state s db = (r, db')" by fastforce
  note t = table_ok_get_state [OF assms, of s] and b = breaker_get_state(1) [of s db, symmetric] breaker_get_state(2) [of k s db]
  note u = breaker_update_state [of _ k s db] and tu = table_ok_update_after_get [OF assms, of _ s]
  show ?thesis
    using t b u tu g unfolding record_failure_def cb_transitions
    by (cases "cb_state r") (auto simp: abs_row_def row_ok_def cb_consts Let_def)
qed

lemma cb_reset_refines:
  assumes "table_ok db"
  shows "breaker_of k (cb_reset s db) = (if k = s then Closed 0 else breaker_of k db) \<and> table_ok (cb_reset s db)"
proof
  show "table_ok (cb_reset s db)"
    unfolding cb_transitions by (rule table_ok_update_state [OF assms]) (auto simp: row_ok_def cb_consts)
  show "breaker_of k (cb_reset s db) = (if k = s then Closed 0 else breaker_of k db)"
    unfolding cb_transitions by (simp add: breaker_of_def find_update_state abs_row_def)
qed

subsection \<open>Runs\<close>

text \<open>The calls the gateway makes, with the service and the time.\<close>

datatype cb_event =
    TryCall (ev_service: string) ms
  | Succeeded (ev_service: string) ms
  | Failed (ev_service: string) ms
  | ManualReset (ev_service: string)

fun cb_apply :: "cb_event \<Rightarrow> cb_row list \<Rightarrow> cb_row list" where
  "cb_apply (TryCall s now) db = snd (can_execute s now db)"
| "cb_apply (Succeeded s now) db = record_success s now db"
| "cb_apply (Failed s now) db = record_failure s now db"
| "cb_apply (ManualReset s) db = cb_reset s db"

fun br_apply :: "cb_event \<Rightarrow> breaker \<Rightarrow> breaker" where
  "br_apply (TryCall s now) b = snd (br_can now b)"
| "br_apply (Succeeded s now) b = br_success b"
| "br_apply (Failed s now) b = br_failure now b"
| "br_apply (ManualReset s) b = Closed 0"

lemma cb_apply_refines:
  "table_ok db \<Longrightarrow> breaker_of k (cb_apply e db) =
      (if k = ev_service e then br_apply e (breaker_of k db) else breaker_of k db) \<and>
    table_ok (cb_apply e db)"
  by (cases e) (simp_all add: can_execute_refines record_success_refines record_failure_refines cb_reset_refines)

inductive cb_reachable :: "cb_row list \<Rightarrow> bool" where
  start: "cb_reachable []"
| step: "cb_reachable db \<Longrightarrow> cb_reachable (cb_apply e db)"

lemma cb_reachable_ok: "cb_reachable db \<Longrightarrow> table_ok db"
proof (induction rule: cb_reachable.induct)
  case start
  show ?case by (simp add: table_ok_def)
next
  case (step db e)
  then show ?case by (simp add: cb_apply_refines)
qed

lemma cb_reachable_run: "cb_reachable db \<Longrightarrow> cb_reachable (fold cb_apply es db)"
  by (induction es arbitrary: db) (simp_all add: cb_reachable.step)

lemma cb_run_refines:
  "table_ok db \<Longrightarrow> breaker_of s (fold cb_apply es db) =
    fold br_apply (filter (\<lambda>e. ev_service e = s) es) (breaker_of s db)"
  by (induction es arbitrary: db) (auto simp: cb_apply_refines)

fun cb_calls :: "string \<Rightarrow> ms list \<Rightarrow> cb_row list \<Rightarrow> bool list" where
  "cb_calls s [] db = []"
| "cb_calls s (t # ts) db = fst (can_execute s t db) # cb_calls s ts (snd (can_execute s t db))"

lemma cb_calls_half_open:
  "table_ok db \<Longrightarrow> breaker_of s db = HalfOpen k \<Longrightarrow> cb_calls s ts db = replicate (length ts) True"
  by (induction ts arbitrary: db) (simp_all add: can_execute_refines)

lemma cb_calls_open:
  "table_ok db \<Longrightarrow> breaker_of s db = OpenUntil t n \<Longrightarrow> \<forall>x \<in> set ts. x < t \<Longrightarrow>
   cb_calls s ts db = replicate (length ts) False"
  by (induction ts arbitrary: db) (simp_all add: can_execute_refines)

subsection \<open>Properties\<close>

text \<open>C12. The rows refine the abstract breaker, and services do not interfere: after any sequence
  of calls, successes, failures and resets of any services, the breaker of a service is the one
  its own events alone give.\<close>

theorem breaker_refinement:
  assumes "cb_reachable db"
  shows "breaker_of s (fold cb_apply es db) =
      fold br_apply (filter (\<lambda>e. ev_service e = s) es) (breaker_of s db) \<and>
    fst (can_execute s now db) = fst (br_can now (breaker_of s db))"
  using cb_run_refines can_execute_refines cb_reachable_ok [OF assms] by blast

lemma breaker_refinement_witness:
  "breaker_of ''a'' (fold cb_apply [Failed ''a'' 0, Failed ''b'' 1, TryCall ''a'' 2] []) = Closed 1"
  using breaker_refinement [OF cb_reachable.start, of "''a''" "[Failed ''a'' 0, Failed ''b'' 1, TryCall ''a'' 2]" 0]
  by (simp add: breaker_of_def)

text \<open>Every reachable table is well formed: one row per service, fewer than five failures
  counted in it, a retry time on every open circuit, no failure and fewer than three successes on
  a half-open one.\<close>

theorem breaker_table_invariant:
  assumes "cb_reachable db"
  shows "distinct (map cb_service db) \<and>
    list_all (\<lambda>r. failureCount r < 5 \<and> (cb_state r = OPEN \<longrightarrow> nextRetryAt r \<noteq> None) \<and>
      (cb_state r = HALF_OPEN \<longrightarrow> failureCount r = 0 \<and> successCount r < 3)) db"
  using cb_reachable_ok [OF assms] by (simp add: table_ok_def row_ok_def cb_consts list_all_iff)

lemma breaker_table_invariant_witness:
  "distinct (map cb_service (cb_apply (Failed ''a'' 0) []))"
  using breaker_table_invariant [OF cb_reachable.step [OF cb_reachable.start]] by blast

text \<open>The fifth failure in a row opens a closed circuit for 60 seconds: whatever happens to
  other services meanwhile, all calls before the time-out are rejected and the first one after it
  is let through.\<close>

theorem breaker_opens:
  assumes "cb_reachable db" "breaker_of s db = Closed 0"
    and "filter (\<lambda>e. ev_service e = s) es = map (Failed s) [t1, t2, t3, t4, t5]"
    and "\<forall>x \<in> set ts. x < t5 + 60000"
  shows "cb_calls s ts (fold cb_apply es db) = replicate (length ts) False \<and>
    cb_calls s [t5 + 60000] (fold cb_apply es db) = [True]"
proof -
  have "breaker_of s (fold cb_apply es db) = OpenUntil (t5 + 60000) 4"
    using cb_run_refines [OF cb_reachable_ok [OF assms(1)]] assms(2,3) by simp
  moreover have "table_ok (fold cb_apply es db)"
    by (rule cb_reachable_ok [OF cb_reachable_run [OF assms(1)]])
  ultimately show ?thesis using cb_calls_open assms(4) by (simp add: can_execute_refines)
qed

lemma breaker_opens_witness:
  "cb_calls ''a'' [5, 60004] (fold cb_apply
     [Failed ''a'' 0, Failed ''a'' 1, Succeeded ''b'' 1, Failed ''a'' 2, Failed ''a'' 3, Failed ''a'' 5] [])
   = [False, False]"
  using breaker_opens [OF cb_reachable.start, of "''a''"
      "[Failed ''a'' 0, Failed ''a'' 1, Succeeded ''b'' 1, Failed ''a'' 2, Failed ''a'' 3, Failed ''a'' 5]"
      0 1 2 3 5 "[5, 60004]"]
  by (simp add: breaker_of_def numeral_2_eq_2)

text \<open>C28. An open circuit can always be closed again: a call at or after the retry time is let
  through, and three successes after it close the circuit with both counters at zero.\<close>

theorem breaker_recovers:
  assumes "cb_reachable db" "breaker_of s db = OpenUntil t n" "t \<le> now"
  shows "fst (can_execute s now db) \<and>
    breaker_of s (fold cb_apply [TryCall s now, Succeeded s t1, Succeeded s t2, Succeeded s t3] db) = Closed 0"
  using cb_run_refines [OF cb_reachable_ok [OF assms(1)], of s "[TryCall s now, Succeeded s t1, Succeeded s t2, Succeeded s t3]"]
    can_execute_refines [OF cb_reachable_ok [OF assms(1)], of s now] assms(2,3)
  by simp

lemma breaker_recovers_witness:
  "fst (can_execute ''a'' 60004 (fold cb_apply (map (Failed ''a'') [0, 1, 2, 3, 4]) []))"
proof -
  have "cb_reachable (fold cb_apply (map (Failed ''a'') [0, 1, 2, 3, 4]) [])"
    by (rule cb_reachable_run [OF cb_reachable.start])
  moreover have "breaker_of ''a'' (fold cb_apply (map (Failed ''a'') [0, 1, 2, 3, 4]) []) = OpenUntil 60004 4"
    using cb_run_refines [of "[]" "''a''" "map (Failed ''a'') [0, 1, 2, 3, 4]"]
    by (simp add: breaker_of_def table_ok_def)
  ultimately show ?thesis using breaker_recovers [of _ _ 60004 4 60004] by simp
qed

text \<open>A half-open circuit lets every call through, however many come before the first result:
  the configured \<open>halfOpenRequests: 3\<close> is never looked at.\<close>

theorem half_open_unlimited:
  assumes "cb_reachable db" "breaker_of s db = HalfOpen k"
  shows "cb_calls s ts db = replicate (length ts) True"
  by (rule cb_calls_half_open [OF cb_reachable_ok [OF assms(1)] assms(2)])

lemma half_open_unlimited_witness:
  "cb_calls ''a'' [60004, 60005, 60006, 60007, 60008]
     (fold cb_apply (map (Failed ''a'') [0, 1, 2, 3, 4] @ [TryCall ''a'' 60004]) []) = replicate 5 True"
proof -
  let ?es = "map (Failed ''a'') [0, 1, 2, 3, 4] @ [TryCall ''a'' 60004]"
  have "cb_reachable (fold cb_apply ?es [])" by (rule cb_reachable_run [OF cb_reachable.start])
  moreover have "breaker_of ''a'' (fold cb_apply ?es []) = HalfOpen 0"
    using cb_run_refines [of "[]" "''a''" ?es] by (simp add: breaker_of_def table_ok_def)
  ultimately show ?thesis
    using half_open_unlimited [of _ _ 0 "[60004, 60005, 60006, 60007, 60008]"] by (simp add: eval_nat_numeral)
qed

end
