(* ===== verification/Load_Balancer.thy ===== *)
theory Load_Balancer
  imports Prelude "HOL-Library.Multiset"
begin

section \<open>Load balancer\<close>

text \<open>
  \<open>modules/gateway/services/load-balancer.service.ts\<close>. The two \<open>Map\<close>s of the service are
  association lists in insertion order. \<open>getNextInstance\<close> gives \<open>Inl\<close> where the code reads a
  property of \<open>undefined\<close> (a TypeError).
\<close>

datatype lb_strategy = ROUND_ROBIN | LEAST_CONNECTIONS | WEIGHTED_ROUND_ROBIN | IP_HASH | HEALTH_BASED

record instance_row =
  url :: string
  healthy :: bool
  lastChecked :: ms
  responseTime :: int
  activeConnections :: int
  weight :: "int option"

record load_balancer =
  roundRobinIndexes :: "(string \<times> nat) list"
  serviceInstances :: "(string \<times> instance_row list) list"

definition lb_init :: load_balancer where
  "lb_init = \<lparr>roundRobinIndexes = [], serviceInstances = []\<rparr>"

definition get_instances :: "string \<Rightarrow> load_balancer \<Rightarrow> instance_row list" where
  "get_instances s lb = (case map_of (serviceInstances lb) s of None \<Rightarrow> [] | Some xs \<Rightarrow> xs)"

definition rr_index :: "string \<Rightarrow> load_balancer \<Rightarrow> nat" where
  "rr_index s lb = (case map_of (roundRobinIndexes lb) s of None \<Rightarrow> 0 | Some n \<Rightarrow> n)"

definition set_rr_index :: "string \<Rightarrow> nat \<Rightarrow> load_balancer \<Rightarrow> load_balancer" where
  "set_rr_index s n lb = lb\<lparr>roundRobinIndexes := js_map_set s n (roundRobinIndexes lb)\<rparr>"

definition round_robin :: "string \<Rightarrow> instance_row list \<Rightarrow> load_balancer \<Rightarrow> string \<times> load_balancer" where
  "round_robin s xs lb =
     (url (xs ! (rr_index s lb mod length xs)), set_rr_index s (rr_index s lb + 1) lb)"

definition least_connections :: "instance_row list \<Rightarrow> string" where
  "least_connections xs =
     url (fold (\<lambda>cur m. if activeConnections cur < activeConnections m then cur else m) (tl xs) (hd xs))"

definition weight_of :: "instance_row \<Rightarrow> int" where
  "weight_of i = num_or (weight i) 1"

text \<open>The loop over the instances: the first one whose running sum exceeds the position.\<close>

fun pick_weighted :: "int \<Rightarrow> int \<Rightarrow> instance_row list \<Rightarrow> string option" where
  "pick_weighted position weightSum [] = None"
| "pick_weighted position weightSum (i # is) =
     (if position < weightSum + weight_of i then Some (url i)
      else pick_weighted position (weightSum + weight_of i) is)"

text \<open>A total weight of 0 makes the position NaN, which is below nothing.\<close>

definition weighted_round_robin ::
  "string \<Rightarrow> instance_row list \<Rightarrow> load_balancer \<Rightarrow> string \<times> load_balancer" where
  "weighted_round_robin s xs lb =
     (let totalWeight = sum_list (map weight_of xs);
          currentIndex = rr_index s lb;
          picked = (if totalWeight = 0 then None
                    else pick_weighted (int currentIndex mod \<bar>totalWeight\<bar>) 0 xs)
      in ((case picked of Some u \<Rightarrow> u | None \<Rightarrow> url (hd xs)), set_rr_index s (currentIndex + 1) lb))"

text \<open>The sum of the octets; \<open>None\<close> is NaN.\<close>

fun sum_octets :: "string list \<Rightarrow> int option" where
  "sum_octets [] = Some 0"
| "sum_octets (p # ps) =
     (case parse_int p of None \<Rightarrow> None | Some n \<Rightarrow> map_option (\<lambda>m. n + m) (sum_octets ps))"

definition ip_hash :: "string option \<Rightarrow> instance_row list \<Rightarrow> string + string" where
  "ip_hash clientIp xs =
     (if \<not> truthy_str clientIp then Inr (url (hd xs))
      else case sum_octets (split_on CHR ''.'' (the clientIp)) of
        None \<Rightarrow> Inl ''TypeError: Cannot read properties of undefined (reading url)''
      | Some hash \<Rightarrow>
          if hash < 0 \<and> hash mod int (length xs) \<noteq> 0
          then Inl ''TypeError: Cannot read properties of undefined (reading url)''
          else Inr (url (xs ! nat (hash mod int (length xs)))))"

definition health_based :: "instance_row list \<Rightarrow> string" where
  "health_based xs = url (hd (sort_key responseTime xs))"

definition get_next_instance ::
  "string \<Rightarrow> lb_strategy \<Rightarrow> string option \<Rightarrow> load_balancer \<Rightarrow> (string + string option) \<times> load_balancer" where
  "get_next_instance s strategy clientIp lb =
     (let xs = filter healthy (get_instances s lb)
      in if xs = [] then (Inr None, lb)
         else case strategy of
           ROUND_ROBIN \<Rightarrow> (let (u, lb') = round_robin s xs lb in (Inr (Some u), lb'))
         | LEAST_CONNECTIONS \<Rightarrow> (Inr (Some (least_connections xs)), lb)
         | WEIGHTED_ROUND_ROBIN \<Rightarrow> (let (u, lb') = weighted_round_robin s xs lb in (Inr (Some u), lb'))
         | IP_HASH \<Rightarrow> (case ip_hash clientIp xs of Inl e \<Rightarrow> (Inl e, lb) | Inr u \<Rightarrow> (Inr (Some u), lb))
         | HEALTH_BASED \<Rightarrow> (Inr (Some (health_based xs)), lb))"

subsection \<open>Registration, health and connections\<close>

text \<open>\<open>find\<close> and \<open>findIndex\<close> stop at the first instance with the URL.\<close>

fun update_first :: "string \<Rightarrow> (instance_row \<Rightarrow> instance_row) \<Rightarrow> instance_row list \<Rightarrow> instance_row list" where
  "update_first u f [] = []"
| "update_first u f (i # is) = (if url i = u then f i # is else i # update_first u f is)"

definition update_instance ::
  "string \<Rightarrow> string \<Rightarrow> (instance_row \<Rightarrow> instance_row) \<Rightarrow> load_balancer \<Rightarrow> load_balancer" where
  "update_instance s u f lb =
     (case map_of (serviceInstances lb) s of
        None \<Rightarrow> lb
      | Some xs \<Rightarrow> lb\<lparr>serviceInstances := js_map_set s (update_first u f xs) (serviceInstances lb)\<rparr>)"

definition register_instance ::
  "string \<Rightarrow> string \<Rightarrow> int option \<Rightarrow> ms \<Rightarrow> load_balancer \<Rightarrow> load_balancer" where
  "register_instance s u w now lb =
     (let xs = get_instances s lb;
          xs' = (if list_ex (\<lambda>i. url i = u) xs then update_first u (\<lambda>i. i\<lparr>weight := w\<rparr>) xs
                 else xs @ [\<lparr>url = u, healthy = True, lastChecked = now, responseTime = 0,
                              activeConnections = 0, weight = w\<rparr>])
      in lb\<lparr>serviceInstances := js_map_set s xs' (serviceInstances lb)\<rparr>)"

definition update_instance_health ::
  "string \<Rightarrow> string \<Rightarrow> bool \<Rightarrow> int option \<Rightarrow> ms \<Rightarrow> load_balancer \<Rightarrow> load_balancer" where
  "update_instance_health s u h rt now =
     update_instance s u (\<lambda>i. i\<lparr>healthy := h, lastChecked := now,
       responseTime := (case rt of None \<Rightarrow> responseTime i | Some t \<Rightarrow> t)\<rparr>)"

definition increment_connections :: "string \<Rightarrow> string \<Rightarrow> load_balancer \<Rightarrow> load_balancer" where
  "increment_connections s u =
     update_instance s u (\<lambda>i. i\<lparr>activeConnections := activeConnections i + 1\<rparr>)"

definition decrement_connections :: "string \<Rightarrow> string \<Rightarrow> load_balancer \<Rightarrow> load_balancer" where
  "decrement_connections s u =
     update_instance s u (\<lambda>i. if activeConnections i > 0
       then i\<lparr>activeConnections := activeConnections i - 1\<rparr> else i)"

record service_stats =
  ss_service :: string
  ss_total :: nat
  ss_healthy :: nat
  ss_connections :: int

definition service_stats_of :: "string \<Rightarrow> instance_row list \<Rightarrow> service_stats" where
  "service_stats_of s xs =
     \<lparr>ss_service = s, ss_total = length xs, ss_healthy = length (filter healthy xs),
      ss_connections = sum_list (map activeConnections xs)\<rparr>"

datatype lb_statistics =
    OneService service_stats "(string \<times> bool \<times> int \<times> int) list"
  | AllServices nat "service_stats list"

definition lb_get_statistics :: "string option \<Rightarrow> load_balancer \<Rightarrow> lb_statistics" where
  "lb_get_statistics so lb =
     (if truthy_str so then
        (let s = the so; xs = get_instances s lb
         in OneService (service_stats_of s xs)
              (map (\<lambda>i. (url i, healthy i, activeConnections i, responseTime i)) xs))
      else AllServices (length (serviceInstances lb))
             (map (\<lambda>(s, xs). service_stats_of s xs) (serviceInstances lb)))"

subsection \<open>Choices come from the healthy instances\<close>

lemma fold_min_mem:
  "fold (\<lambda>cur m. if activeConnections cur < activeConnections m then cur else m) xs m \<in> insert m (set xs)"
proof (induction xs arbitrary: m)
  case Nil
  show ?case by simp
next
  case (Cons i xs)
  then show ?case
    using Cons.IH [of i] Cons.IH [of m] by (cases "activeConnections i < activeConnections m") auto
qed

lemma least_connections_mem: "xs \<noteq> [] \<Longrightarrow> least_connections xs \<in> url ` set xs"
  using fold_min_mem [of "tl xs" "hd xs"] by (cases xs) (auto simp: least_connections_def)

lemma pick_weighted_mem: "pick_weighted p w xs = Some u \<Longrightarrow> u \<in> url ` set xs"
  by (induction p w xs rule: pick_weighted.induct) (auto split: if_splits)

lemma health_based_mem: "xs \<noteq> [] \<Longrightarrow> health_based xs \<in> url ` set xs"
  unfolding health_based_def using hd_in_set [of "sort_key responseTime xs"]
  by (metis image_eqI set_empty set_sort)

lemma nat_mod_length: "xs \<noteq> [] \<Longrightarrow> nat (h mod int (length xs)) < length xs"
  by (simp add: nat_less_iff)

lemma get_next_instance_mem:
  assumes "fst (get_next_instance s strategy ip lb) = Inr (Some u)"
  shows "u \<in> url ` set (filter healthy (get_instances s lb))"
proof -
  obtain xs where xs: "filter healthy (get_instances s lb) = xs" by simp
  have ne: "xs \<noteq> []" using assms xs by (auto simp: get_next_instance_def Let_def)
  have nth: "n < length xs \<Longrightarrow> url (xs ! n) \<in> url ` set xs" for n by simp
  have h: "url (hd xs) \<in> url ` set xs" using ne by simp
  have "u \<in> url ` set xs"
  proof (cases strategy)
    case ROUND_ROBIN
    with assms ne nth [of "rr_index s lb mod length xs"] show ?thesis
      by (simp add: get_next_instance_def round_robin_def xs Let_def)
  next
    case LEAST_CONNECTIONS
    with assms ne least_connections_mem [OF ne] show ?thesis by (simp add: get_next_instance_def xs)
  next
    case WEIGHTED_ROUND_ROBIN
    with assms ne h show ?thesis
      by (auto simp: get_next_instance_def weighted_round_robin_def Let_def xs
          split: option.splits if_splits dest: pick_weighted_mem)
  next
    case IP_HASH
    with assms ne h nth [OF nat_mod_length [OF ne]] show ?thesis
      by (auto simp: get_next_instance_def ip_hash_def Let_def xs split: option.splits if_splits)
  next
    case HEALTH_BASED
    with assms ne health_based_mem [OF ne] show ?thesis by (simp add: get_next_instance_def xs)
  qed
  with xs show ?thesis by simp
qed

subsection \<open>Fairness of the circular strategies\<close>

text \<open>\<open>n\<close> calls in a row: the URLs and the final state.\<close>

fun lb_calls :: "string \<Rightarrow> lb_strategy \<Rightarrow> nat \<Rightarrow> load_balancer \<Rightarrow> (string + string option) list" where
  "lb_calls s strategy 0 lb = []"
| "lb_calls s strategy (Suc n) lb =
     fst (get_next_instance s strategy None lb) #
     lb_calls s strategy n (snd (get_next_instance s strategy None lb))"

text \<open>The cycle a strategy goes round: the URLs in order, each as often as its weight says.\<close>

definition weighted_cycle :: "instance_row list \<Rightarrow> string list" where
  "weighted_cycle xs = concat (map (\<lambda>i. replicate (nat (weight_of i)) (url i)) xs)"

lemma get_instances_set_rr [simp]: "get_instances s (set_rr_index s' n lb) = get_instances s lb"
  by (simp add: get_instances_def set_rr_index_def)

lemma rr_index_set_rr [simp]: "rr_index s (set_rr_index s n lb) = n"
  by (simp add: rr_index_def set_rr_index_def)

lemma round_robin_calls:
  assumes "filter healthy (get_instances s lb) = xs" "xs \<noteq> []"
  shows "lb_calls s ROUND_ROBIN n lb =
    map (\<lambda>j. Inr (Some (url (xs ! ((rr_index s lb + j) mod length xs))))) [0..<n]"
  using assms(1)
proof (induction n arbitrary: lb)
  case 0
  show ?case by simp
next
  case (Suc n)
  have "get_next_instance s ROUND_ROBIN None lb =
      (Inr (Some (url (xs ! (rr_index s lb mod length xs)))), set_rr_index s (rr_index s lb + 1) lb)"
    using Suc.prems assms(2) by (simp add: get_next_instance_def round_robin_def)
  with Suc.IH [of "set_rr_index s (rr_index s lb + 1) lb"] Suc.prems show ?case
    by (simp add: upt_conv_Cons map_Suc_upt [symmetric] del: upt_Suc)
qed

lemma mset_cycle:
  assumes "xs \<noteq> []"
  shows "mset (map (\<lambda>j. f (xs ! ((c + j) mod length xs))) [0..<length xs]) = mset (map f xs)"
proof -
  have "map (\<lambda>j. xs ! ((c + j) mod length xs)) [0..<length xs] = rotate c xs"
    by (rule nth_equalityI) (simp_all add: nth_rotate add.commute)
  then have "map f (map (\<lambda>j. xs ! ((c + j) mod length xs)) [0..<length xs]) = map f (rotate c xs)"
    by (rule arg_cong)
  then have "map (\<lambda>j. f (xs ! ((c + j) mod length xs))) [0..<length xs] = map f (rotate c xs)"
    by (simp only: map_map comp_def)
  moreover have "mset (rotate c xs) = mset xs"
    unfolding rotate_drop_take mset_append by (subst add.commute) (simp flip: mset_append)
  ultimately show ?thesis by simp
qed

text \<open>With positive weights the loop reads the cycle at the position.\<close>

lemma length_weighted_cycle:
  "\<forall>i \<in> set xs. 0 < weight_of i \<Longrightarrow> int (length (weighted_cycle xs)) = sum_list (map weight_of xs)"
  by (induction xs) (simp_all add: weighted_cycle_def)

lemma pick_weighted_cycle:
  assumes "\<forall>i \<in> set xs. 0 < weight_of i" "p < length (weighted_cycle xs)"
  shows "pick_weighted (w + int p) w xs = Some (weighted_cycle xs ! p)"
  using assms
proof (induction xs arbitrary: w p)
  case Nil
  then show ?case by (simp add: weighted_cycle_def)
next
  case (Cons i xs)
  show ?case
  proof (cases "p < nat (weight_of i)")
    case True
    then have "int p < weight_of i" by simp
    with True show ?thesis by (simp add: weighted_cycle_def nth_append)
  next
    case False
    then have "w + int p = (w + weight_of i) + int (p - nat (weight_of i))" using Cons.prems(1) by simp
    moreover have "p - nat (weight_of i) < length (weighted_cycle xs)"
      using Cons.prems False by (auto simp: weighted_cycle_def)
    moreover have "\<not> int p < weight_of i" using False by simp
    ultimately show ?thesis
      using Cons.IH [of "p - nat (weight_of i)" "w + weight_of i"] Cons.prems(1) False
      by (simp add: weighted_cycle_def nth_append)
  qed
qed

lemma weighted_calls:
  assumes "filter healthy (get_instances s lb) = xs" "xs \<noteq> []" "\<forall>i \<in> set xs. 0 < weight_of i"
  shows "lb_calls s WEIGHTED_ROUND_ROBIN n lb =
    map (\<lambda>j. Inr (Some (weighted_cycle xs ! ((rr_index s lb + j) mod length (weighted_cycle xs))))) [0..<n]"
  using assms(1)
proof (induction n arbitrary: lb)
  case 0
  show ?case by simp
next
  case (Suc n)
  let ?L = "length (weighted_cycle xs)"
  have len: "sum_list (map weight_of xs) = int ?L" by (rule length_weighted_cycle [OF assms(3), symmetric])
  have pos: "0 < ?L" using assms(2,3) by (cases xs) (simp_all add: weighted_cycle_def)
  have "pick_weighted (int (rr_index s lb) mod int ?L) 0 xs = Some (weighted_cycle xs ! (rr_index s lb mod ?L))"
    using pick_weighted_cycle [OF assms(3), of "rr_index s lb mod ?L" 0] pos by (simp add: zmod_int)
  then have "get_next_instance s WEIGHTED_ROUND_ROBIN None lb =
      (Inr (Some (weighted_cycle xs ! (rr_index s lb mod ?L))), set_rr_index s (rr_index s lb + 1) lb)"
    using Suc.prems assms(2) pos len by (simp add: get_next_instance_def weighted_round_robin_def Let_def)
  with Suc.IH [of "set_rr_index s (rr_index s lb + 1) lb"] Suc.prems show ?case
    by (simp add: upt_conv_Cons map_Suc_upt [symmetric] del: upt_Suc)
qed

subsection \<open>Connections\<close>

text \<open>Well formed: no instance has a negative number of connections.\<close>

definition lb_ok :: "load_balancer \<Rightarrow> bool" where
  "lb_ok lb \<longleftrightarrow> list_all (\<lambda>e. list_all (\<lambda>i. 0 \<le> activeConnections i) (snd e)) (serviceInstances lb)"

lemma update_first_all:
  "list_all P xs \<Longrightarrow> (\<And>i. P i \<Longrightarrow> P (f i)) \<Longrightarrow> list_all P (update_first u f xs)"
  by (induction xs) auto

lemma lb_ok_instances: "lb_ok lb \<Longrightarrow> list_all (\<lambda>i. 0 \<le> activeConnections i) (get_instances s lb)"
  by (cases "map_of (serviceInstances lb) s")
    (auto simp: lb_ok_def get_instances_def list_all_iff dest!: map_of_SomeD)

lemma lb_ok_update_instance:
  assumes "lb_ok lb" "\<And>i. 0 \<le> activeConnections i \<Longrightarrow> 0 \<le> activeConnections (f i)"
  shows "lb_ok (update_instance s u f lb)"
  using assms lb_ok_instances [OF assms(1), of s]
  by (auto simp: update_instance_def lb_ok_def get_instances_def
      split: option.split intro!: js_map_set_all update_first_all)

lemma lb_ok_register: "lb_ok lb \<Longrightarrow> lb_ok (register_instance s u w now lb)"
  using lb_ok_instances [of lb s]
  by (auto simp: register_instance_def lb_ok_def Let_def intro!: js_map_set_all update_first_all)

datatype lb_op =
    Register string string "int option" ms
  | Health string string bool "int option" ms
  | Inc string string
  | Dec string string
  | Next string lb_strategy "string option"

fun lb_apply :: "lb_op \<Rightarrow> load_balancer \<Rightarrow> load_balancer" where
  "lb_apply (Register s u w now) = register_instance s u w now"
| "lb_apply (Health s u h rt now) = update_instance_health s u h rt now"
| "lb_apply (Inc s u) = increment_connections s u"
| "lb_apply (Dec s u) = decrement_connections s u"
| "lb_apply (Next s strategy ip) = (\<lambda>lb. snd (get_next_instance s strategy ip lb))"

lemma next_keeps_instances:
  "serviceInstances (snd (get_next_instance s strategy ip lb)) = serviceInstances lb"
  by (cases strategy) (auto simp: get_next_instance_def round_robin_def weighted_round_robin_def
      set_rr_index_def Let_def split: sum.split)

lemma lb_ok_apply: "lb_ok lb \<Longrightarrow> lb_ok (lb_apply op lb)"
proof (cases op)
  case (Next s strategy ip)
  assume "lb_ok lb"
  with Next show ?thesis by (simp add: lb_ok_def next_keeps_instances)
qed (simp_all add: lb_ok_register update_instance_health_def increment_connections_def
      decrement_connections_def lb_ok_update_instance)

lemma lb_ok_run: "lb_ok lb \<Longrightarrow> lb_ok (fold lb_apply ops lb)"
  by (induction ops arbitrary: lb) (simp_all add: lb_ok_apply)

lemma sum_list_nonneg_all: "list_all (\<lambda>i. 0 \<le> f i) xs \<Longrightarrow> 0 \<le> sum_list (map f xs :: int list)"
  by (induction xs) simp_all

lemma sum_octets_None: "p \<in> set ps \<Longrightarrow> parse_int p = None \<Longrightarrow> sum_octets ps = None"
  by (induction ps) (auto split: option.split)

subsection \<open>Properties\<close>

text \<open>Whatever the strategy, a request is only ever sent to an instance of the service that is
  marked healthy, and \<open>null\<close> is answered exactly when there is none.\<close>

theorem lb_only_healthy:
  "(case fst (get_next_instance s strategy ip lb) of
      Inl e \<Rightarrow> strategy = IP_HASH \<and> truthy_str ip
    | Inr None \<Rightarrow> filter healthy (get_instances s lb) = []
    | Inr (Some u) \<Rightarrow> u \<in> url ` set (filter healthy (get_instances s lb)))"
proof (cases "fst (get_next_instance s strategy ip lb)")
  case (Inl e)
  then show ?thesis
    by (cases strategy) (auto simp: get_next_instance_def Let_def ip_hash_def round_robin_def
        weighted_round_robin_def split: if_splits)
next
  case (Inr r)
  show ?thesis
  proof (cases r)
    case None
    with Inr show ?thesis
      by (cases strategy) (auto simp: get_next_instance_def Let_def round_robin_def
          weighted_round_robin_def simp del: filter_empty_conv split: if_splits sum.splits)
  next
    case (Some u)
    with Inr get_next_instance_mem show ?thesis by simp
  qed
qed

text \<open>Both circular strategies are fair: while the instances do not change, as many calls in a
  row as there are healthy instances (for \<open>WEIGHTED_ROUND_ROBIN\<close>: as the total weight) choose
  every instance exactly once (exactly \<open>weight\<close> times), wherever the index stands.\<close>

theorem lb_fair:
  assumes "filter healthy (get_instances s lb) = xs" "xs \<noteq> []" "\<forall>i \<in> set xs. 0 < weight_of i"
  shows "mset (lb_calls s ROUND_ROBIN (length xs) lb) = mset (map (\<lambda>i. Inr (Some (url i))) xs) \<and>
    mset (lb_calls s WEIGHTED_ROUND_ROBIN (nat (sum_list (map weight_of xs))) lb) =
      mset (concat (map (\<lambda>i. replicate (nat (weight_of i)) (Inr (Some (url i)))) xs))"
proof
  show "mset (lb_calls s ROUND_ROBIN (length xs) lb) = mset (map (\<lambda>i. Inr (Some (url i))) xs)"
    using mset_cycle [OF assms(2), of "\<lambda>i. Inr (Some (url i))"]
    by (simp only: round_robin_calls [OF assms(1,2)])
  have ne: "weighted_cycle xs \<noteq> []" using assms(2,3) by (cases xs) (simp_all add: weighted_cycle_def)
  have n: "nat (sum_list (map weight_of xs)) = length (weighted_cycle xs)"
    using length_weighted_cycle [OF assms(3)] by linarith
  have "map (\<lambda>u. Inr (Some u) :: string + string option) (weighted_cycle xs) =
      concat (map (\<lambda>i. replicate (nat (weight_of i)) (Inr (Some (url i)))) xs)"
    by (simp add: weighted_cycle_def map_concat comp_def)
  then show "mset (lb_calls s WEIGHTED_ROUND_ROBIN (nat (sum_list (map weight_of xs))) lb) =
      mset (concat (map (\<lambda>i. replicate (nat (weight_of i)) (Inr (Some (url i)))) xs))"
    using mset_cycle [OF ne, of "\<lambda>u. Inr (Some u) :: string + string option"]
    by (simp only: weighted_calls [OF assms] n)
qed

lemma lb_fair_witness:
  "mset (lb_calls ''s'' ROUND_ROBIN (length (get_instances ''s''
      (register_instance ''s'' ''b'' (Some 2) 0 (register_instance ''s'' ''a'' None 0 lb_init))))
      (register_instance ''s'' ''b'' (Some 2) 0 (register_instance ''s'' ''a'' None 0 lb_init))) =
    {# Inr (Some ''a''), Inr (Some ''b'') #}"
proof -
  let ?lb = "register_instance ''s'' ''b'' (Some 2) 0 (register_instance ''s'' ''a'' None 0 lb_init)"
  have "filter healthy (get_instances ''s'' ?lb) = get_instances ''s'' ?lb"
    and "get_instances ''s'' ?lb \<noteq> []"
    and "\<forall>i \<in> set (get_instances ''s'' ?lb). 0 < weight_of i"
    by (simp_all add: register_instance_def lb_init_def get_instances_def Let_def weight_of_def num_or_def)
  from lb_fair [OF this] show ?thesis
    by (simp add: register_instance_def lb_init_def get_instances_def Let_def)
qed

text \<open>No sequence of registrations, health reports, connection counts and choices makes the
  connections of an instance, or the total a service reports, negative.\<close>

theorem lb_connections_nonneg:
  "list_all (\<lambda>i. 0 \<le> activeConnections i) (get_instances s (fold lb_apply ops lb_init)) \<and>
   0 \<le> ss_connections (service_stats_of s (get_instances s (fold lb_apply ops lb_init)))"
proof -
  have "lb_ok (fold lb_apply ops lb_init)" by (rule lb_ok_run) (simp add: lb_ok_def lb_init_def)
  from lb_ok_instances [OF this] show ?thesis by (simp add: service_stats_of_def sum_list_nonneg_all)
qed

text \<open>\<open>IP_HASH\<close> throws a TypeError on every client address that has a part \<open>parseInt\<close> cannot
  read, as an IPv6 address such as \<open>::1\<close>: the hash is NaN and so is the index.\<close>

theorem ip_hash_throws:
  assumes "filter healthy (get_instances s lb) \<noteq> []" "p \<in> set (split_on CHR ''.'' ip)" "parse_int p = None"
    and "ip \<noteq> []"
  shows "get_next_instance s IP_HASH (Some ip) lb =
    (Inl ''TypeError: Cannot read properties of undefined (reading url)'', lb)"
  using assms sum_octets_None [OF assms(2,3)]
  by (simp add: get_next_instance_def ip_hash_def truthy_str_def Let_def del: filter_empty_conv)

lemma ip_hash_throws_witness:
  "get_next_instance ''s'' IP_HASH (Some ''::1'') (register_instance ''s'' ''a'' None 0 lb_init) =
    (Inl ''TypeError: Cannot read properties of undefined (reading url)'',
     register_instance ''s'' ''a'' None 0 lb_init)"
  by (rule ip_hash_throws [of _ _ "''::1''"])
    (simp_all add: register_instance_def lb_init_def get_instances_def parse_int_def parse_nat_prefix_def is_digit_char_def)

end
