(* ===== verification/Shop_Data.thy ===== *)
theory Shop_Data
  imports Prelude
begin

section \<open>The shop's tables\<close>

text \<open>
  The rows of \<open>prisma/schema.prisma\<close> that orders, carts and requests share, with the columns the
  services read or write. An order carries its items and payments, a cart its items (Prisma's
  nested relations). The keys the services read from a cart's \<open>metadata\<close> are columns here.
  Columns of type \<open>Decimal(10, 2)\<close> round what is written to them to two decimals
  (\<open>db_decimal\<close>); that values of ten or more digits are refused is not modelled.
\<close>

datatype user_role = USER | ADMIN | SUPER_ADMIN | GROWER | BUYER

record user_row =
  u_id :: string
  u_email :: string
  u_firstName :: "string option"
  u_lastName :: "string option"
  u_phone :: "string option"
  u_role :: user_role

record product_row =
  p_id :: string
  p_name :: string
  p_price :: rat
  p_stock :: int
  p_maxCartQty :: "int option"
  p_weight :: "rat option"
  p_isActive :: bool

datatype order_status =
  O_PENDING | O_CONFIRMED | O_PROCESSING | O_SHIPPED | O_DELIVERED | O_CANCELLED | O_REFUNDED

datatype payment_status = PAY_PENDING | PAY_PAID | PAY_FAILED | PAY_REFUNDED

datatype payment_method = CREDIT_CARD | DEBIT_CARD | PAYPAL | GCASH | MAYA | BANK_TRANSFER | COD

record order_item =
  oi_productId :: string
  oi_quantity :: int
  oi_price :: rat
  oi_total :: rat

record payment_row =
  pay_id :: string
  pay_userId :: string
  pay_amount :: rat
  pay_method :: payment_method
  pay_status :: payment_status
  pay_processedAt :: "ms option"

record order_row =
  o_id :: string
  o_number :: string
  o_userId :: string
  o_status :: order_status
  o_subtotal :: rat
  o_tax :: rat
  o_shipping :: rat
  o_discount :: rat
  o_total :: rat
  o_notes :: "string option"
  o_shippingAddress :: json
  o_billingAddress :: json
  o_trackingNumber :: "string option"
  o_shippedAt :: "ms option"
  o_deliveredAt :: "ms option"
  o_cancelledAt :: "ms option"
  o_createdAt :: ms
  o_updatedAt :: ms
  o_items :: "order_item list"
  o_payments :: "payment_row list"

datatype cart_status = C_ACTIVE | C_COMPLETED | C_ABANDONED | C_EXPIRED | C_MERGED

record cart_item =
  ci_id :: string
  ci_productId :: string
  ci_quantity :: int
  ci_price :: rat
  ci_originalPrice :: rat
  ci_subtotal :: rat
  ci_discount :: rat
  ci_total :: rat
  ci_isAvailable :: bool
  ci_unavailableReason :: "string option"
  ci_customization :: "json option"

record cart_row =
  c_id :: string
  c_userId :: "string option"
  c_sessionId :: "string option"
  c_status :: cart_status
  c_subtotal :: rat
  c_tax :: rat
  c_shipping :: rat
  c_discount :: rat
  c_total :: rat
  c_shippingAddress :: "json option"
  c_billingAddress :: "json option"
  c_notes :: "string option"
  c_lastActivityAt :: ms
  c_expiresAt :: "ms option"
  c_abandonedAt :: "ms option"
  c_convertedAt :: "ms option"
  c_createdAt :: ms
  c_updatedAt :: ms
  c_items :: "cart_item list"

record shop =
  users :: "user_row list"
  products :: "product_row list"
  orders :: "order_row list"
  carts :: "cart_row list"

record current_user =
  cu_id :: string
  cu_role :: user_role

definition db_decimal :: "rat \<Rightarrow> rat" where
  "db_decimal x = to_decimal_places2 x"

text \<open>\<open>['ADMIN', 'SUPER_ADMIN'].includes(currentUser.role)\<close>\<close>

definition is_admin :: "current_user \<Rightarrow> bool" where
  "is_admin u = (cu_role u \<in> {ADMIN, SUPER_ADMIN})"

definition find_product :: "string \<Rightarrow> shop \<Rightarrow> product_row option" where
  "find_product pid db = find_by p_id pid (products db)"

definition find_order :: "string \<Rightarrow> shop \<Rightarrow> order_row option" where
  "find_order oid db = find_by o_id oid (orders db)"

definition add_stock :: "string \<Rightarrow> int \<Rightarrow> shop \<Rightarrow> shop" where
  "add_stock pid n db =
     db\<lparr>products := update_by p_id pid (\<lambda>p. p\<lparr>p_stock := p_stock p + n\<rparr>) (products db)\<rparr>"

definition update_order_row :: "string \<Rightarrow> (order_row \<Rightarrow> order_row) \<Rightarrow> shop \<Rightarrow> shop" where
  "update_order_row oid f db = db\<lparr>orders := update_by o_id oid f (orders db)\<rparr>"

definition stock_of :: "string \<Rightarrow> shop \<Rightarrow> int option" where
  "stock_of pid db = map_option p_stock (find_product pid db)"

lemma find_product_add_stock:
  "find_product k (add_stock pid n db) =
    map_option (\<lambda>p. if k = pid then p\<lparr>p_stock := p_stock p + n\<rparr> else p) (find_product k db)"
  by (cases "find_by p_id k (products db)")
    (auto simp: find_product_def add_stock_def find_by_update_by)

lemma stock_of_add_stock [simp]:
  "stock_of k (add_stock pid n db) = (if k = pid then map_option (\<lambda>x. x + n) (stock_of k db) else stock_of k db)"
  by (cases "find_product k db") (auto simp: stock_of_def find_product_add_stock)

lemma add_stock_simps [simp]:
  "orders (add_stock pid n db) = orders db" "carts (add_stock pid n db) = carts db"
  "users (add_stock pid n db) = users db" "find_order oid (add_stock pid n db) = find_order oid db"
  by (simp_all add: add_stock_def find_order_def)

lemma update_order_row_simps [simp]:
  "products (update_order_row oid f db) = products db" "carts (update_order_row oid f db) = carts db"
  "users (update_order_row oid f db) = users db" "find_product pid (update_order_row oid f db) = find_product pid db"
  "stock_of pid (update_order_row oid f db) = stock_of pid db"
  by (simp_all add: update_order_row_def find_product_def stock_of_def)

lemma find_order_update:
  "(\<And>o'. o_id (f o') = o_id o') \<Longrightarrow>
   find_order k (update_order_row oid f db) =
     (if k = oid then map_option f (find_order k db) else find_order k db)"
  by (simp add: find_order_def update_order_row_def find_by_update_by)

lemma stock_of_None_iff: "stock_of pid db = None \<longleftrightarrow> find_product pid db = None"
  by (simp add: stock_of_def)

subsection \<open>Stock movements of a list of lines\<close>

definition move_stock :: "int \<Rightarrow> (string \<times> int) list \<Rightarrow> shop \<Rightarrow> shop" where
  "move_stock s ls db = fold (\<lambda>(pid, n). add_stock pid (s * n)) ls db"

definition ordered :: "string \<Rightarrow> (string \<times> int) list \<Rightarrow> int" where
  "ordered pid ls = sum_list (map (\<lambda>(k, n). if k = pid then n else 0) ls)"

lemma ordered_simps [simp]:
  "ordered pid [] = 0" "ordered pid ((k, n) # ls) = (if k = pid then n else 0) + ordered pid ls"
  by (simp_all add: ordered_def)

lemma stock_of_move_stock:
  "stock_of pid (move_stock s ls db) = map_option (\<lambda>x. x + s * ordered pid ls) (stock_of pid db)"
proof (induction ls arbitrary: db)
  case Nil
  show ?case by (simp add: move_stock_def option.map_ident)
next
  case (Cons l ls)
  obtain k n where l: "l = (k, n)" by fastforce
  have "move_stock s (l # ls) db = move_stock s ls (add_stock k (s * n) db)"
    by (simp add: move_stock_def l)
  with Cons.IH [of "add_stock k (s * n) db"] show ?case
    by (cases "stock_of pid db") (auto simp: l algebra_simps)
qed

lemma move_stock_simps [simp]:
  "orders (move_stock s ls db) = orders db" "carts (move_stock s ls db) = carts db"
  "users (move_stock s ls db) = users db"
  by (induction ls arbitrary: db) (auto simp: move_stock_def)

lemma ordered_nonneg: "\<forall>l \<in> set ls. 0 \<le> snd l \<Longrightarrow> 0 \<le> ordered pid ls"
  by (induction ls) auto

lemma ordered_absent: "pid \<notin> fst ` set ls \<Longrightarrow> ordered pid ls = 0"
  by (induction ls) auto

lemma ordered_distinct:
  "distinct (map fst ls) \<Longrightarrow> (pid, n) \<in> set ls \<Longrightarrow> ordered pid ls = n"
proof (induction ls)
  case Nil
  then show ?case by simp
next
  case (Cons l ls)
  obtain k m where l: "l = (k, m)" by fastforce
  with Cons ordered_absent [of pid ls] show ?case by force
qed

subsection \<open>Whole cents\<close>

text \<open>Amounts in whole cents.\<close>

definition cents :: "rat \<Rightarrow> bool" where
  "cents x \<longleftrightarrow> (\<exists>n. x = of_int n / 100)"

lemma db_decimal_cents [simp]: "cents x \<Longrightarrow> db_decimal x = x"
proof -
  assume "cents x"
  then obtain n where n: "x = of_int n / 100" by (auto simp: cents_def)
  have fl: "\<lfloor>(of_int m :: rat) + 1 / 2\<rfloor> = m" for m by (simp add: floor_eq_iff)
  show ?thesis
  proof (cases "0 \<le> x")
    case True
    then show ?thesis by (simp add: db_decimal_def to_decimal_places2_def n fl)
  next
    case False
    have "- x * 100 + 1 / 2 = of_int (- n) + 1 / 2" by (simp add: n)
    then have "\<lfloor>- x * 100 + 1 / 2\<rfloor> = - n" using fl [of "- n"] by metis
    with False show ?thesis by (simp add: db_decimal_def to_decimal_places2_def n)
  qed
qed

lemma cents_simps [simp]: "cents 0" "cents x \<Longrightarrow> cents y \<Longrightarrow> cents (x + y)"
  "cents x \<Longrightarrow> cents y \<Longrightarrow> cents (x - y)" "cents x \<Longrightarrow> cents (x * of_int n)"
proof -
  show "cents 0" by (auto simp: cents_def intro: exI [of _ 0])
  assume "cents x"
  then obtain a where a: "x = of_int a / 100" by (auto simp: cents_def)
  show "cents (x * of_int n)"
    unfolding cents_def by (rule exI [of _ "a * n"]) (simp add: a)
  assume "cents y"
  then obtain b where b: "y = of_int b / 100" by (auto simp: cents_def)
  show "cents (x + y)" unfolding cents_def by (rule exI [of _ "a + b"]) (simp add: a b add_divide_distrib)
  show "cents (x - y)" unfolding cents_def by (rule exI [of _ "a - b"]) (simp add: a b diff_divide_distrib)
qed

lemma cents_int: "cents (of_int n)"
  unfolding cents_def by (rule exI [of _ "100 * n"]) simp

lemma cents_sum: "list_all (\<lambda>i. cents (f i)) xs \<Longrightarrow> cents (sum_list (map f xs))"
  by (induction xs) simp_all

lemma cents_round [simp]: "cents (to_decimal_places2 x)"
proof -
  have *: "cents (of_int k / 100)" for k by (auto simp: cents_def)
  show ?thesis
    using * * [of "- \<lfloor>- x * 100 + 1 / 2\<rfloor>"] by (simp add: to_decimal_places2_def)
qed

subsection \<open>A small shop for concrete instances\<close>

definition demo_user :: user_row where
  "demo_user = \<lparr>u_id = ''u1'', u_email = ''u1'', u_firstName = None, u_lastName = None, u_phone = None,
     u_role = BUYER\<rparr>"

definition demo_product :: "int \<Rightarrow> product_row" where
  "demo_product n = \<lparr>p_id = ''p1'', p_name = ''Oyster'', p_price = 10, p_stock = n, p_maxCartQty = Some 100,
     p_weight = Some 2, p_isActive = True\<rparr>"

definition demo_shop :: "int \<Rightarrow> shop" where
  "demo_shop n = \<lparr>users = [demo_user], products = [demo_product n], orders = [], carts = []\<rparr>"

text \<open>An active cart with \<open>k\<close> pieces of the product.\<close>

definition demo_item :: "int \<Rightarrow> cart_item" where
  "demo_item k = \<lparr>ci_id = ''i1'', ci_productId = ''p1'', ci_quantity = k, ci_price = 10, ci_originalPrice = 10,
     ci_subtotal = 10 * of_int k, ci_discount = 0, ci_total = 10 * of_int k, ci_isAvailable = True,
     ci_unavailableReason = None, ci_customization = None\<rparr>"

definition demo_cart :: "int \<Rightarrow> cart_row" where
  "demo_cart k = \<lparr>c_id = ''c1'', c_userId = Some ''u1'', c_sessionId = None, c_status = C_ACTIVE,
     c_subtotal = 10 * of_int k, c_tax = 0, c_shipping = 0, c_discount = 0, c_total = 10 * of_int k,
     c_shippingAddress = None, c_billingAddress = None, c_notes = None, c_lastActivityAt = 0,
     c_expiresAt = None, c_abandonedAt = None, c_convertedAt = None, c_createdAt = 0, c_updatedAt = 0,
     c_items = [demo_item k]\<rparr>"

lemmas demo_defs = demo_shop_def demo_product_def demo_user_def find_product_def find_order_def stock_of_def

end
