(* ===== verification/Cart_Cache.thy ===== *)
theory Cart_Cache
  imports Shop_Data Redis_Service "HOL-Library.Monad_Syntax"
begin

section \<open>The cart cache\<close>

text \<open>
  \<open>modules/cart/cart-cache.service.ts\<close>: the formatted cart of a user or a session is kept in Redis
  for 24 hours as \<open>JSON.stringify(cart)\<close>. Dates are written as their milliseconds here and
  decimals, which Prisma serializes as strings, as the text of the number. Reading a text of another
  shape is a cache miss here; the service only ever writes this one.
\<close>

record cart_response =
  cr_cart :: cart_row
  cr_itemCount :: nat

subsection \<open>JSON of a cart\<close>

definition j_str :: "string \<Rightarrow> json" where "j_str s = JStr (Plain s)"
definition j_dec :: "rat \<Rightarrow> json" where "j_dec q = JStr (Stringified (JNum q))"
definition j_int :: "int \<Rightarrow> json" where "j_int n = JNum (of_int n)"

definition j_opt :: "('a \<Rightarrow> json) \<Rightarrow> 'a option \<Rightarrow> json" where
  "j_opt f x = (case x of None \<Rightarrow> JNull | Some a \<Rightarrow> f a)"

fun un_str :: "json \<Rightarrow> string option" where
  "un_str (JStr (Plain s)) = Some s"
| "un_str _ = None"

fun un_dec :: "json \<Rightarrow> rat option" where
  "un_dec (JStr (Stringified (JNum q))) = Some q"
| "un_dec _ = None"

fun un_int :: "json \<Rightarrow> int option" where
  "un_int (JNum q) = (if of_int \<lfloor>q\<rfloor> = q then Some \<lfloor>q\<rfloor> else None)"
| "un_int _ = None"

fun un_bool :: "json \<Rightarrow> bool option" where
  "un_bool (JBool b) = Some b"
| "un_bool _ = None"

definition un_opt :: "(json \<Rightarrow> 'a option) \<Rightarrow> json \<Rightarrow> 'a option option" where
  "un_opt f j = (if j = JNull then Some None else map_option Some (f j))"

text \<open>A JSON value in a nullable column: SQL NULL and JSON null read the same, so it is wrapped.\<close>

definition j_json :: "json \<Rightarrow> json" where "j_json j = JArr [j]"

fun un_json :: "json \<Rightarrow> json option" where
  "un_json (JArr [j]) = Some j"
| "un_json _ = None"

lemma un_simps [simp]:
  "un_str (j_str s) = Some s" "un_dec (j_dec q) = Some q" "un_int (j_int n) = Some n"
  "un_json (j_json j) = Some j"
  "un_opt un_str (j_opt j_str so) = Some so" "un_opt un_int (j_opt j_int no) = Some no"
  "un_opt un_json (j_opt j_json jo) = Some jo"
  by (simp_all add: j_str_def j_dec_def j_int_def j_json_def j_opt_def un_opt_def split: option.split)

fun status_text :: "cart_status \<Rightarrow> string" where
  "status_text C_ACTIVE = ''ACTIVE''"
| "status_text C_COMPLETED = ''COMPLETED''"
| "status_text C_ABANDONED = ''ABANDONED''"
| "status_text C_EXPIRED = ''EXPIRED''"
| "status_text C_MERGED = ''MERGED''"

definition un_status :: "json \<Rightarrow> cart_status option" where
  "un_status j = (case un_str j of
     Some s \<Rightarrow> List.find (\<lambda>x. status_text x = s) [C_ACTIVE, C_COMPLETED, C_ABANDONED, C_EXPIRED, C_MERGED]
   | None \<Rightarrow> None)"

lemma un_status_text [simp]: "un_status (j_str (status_text st)) = Some st"
  by (cases st) (simp_all add: un_status_def)

definition encode_item :: "cart_item \<Rightarrow> json" where
  "encode_item i = JObj [
     (''id'', j_str (ci_id i)), (''productId'', j_str (ci_productId i)), (''quantity'', j_int (ci_quantity i)),
     (''price'', j_dec (ci_price i)), (''originalPrice'', j_dec (ci_originalPrice i)),
     (''subtotal'', j_dec (ci_subtotal i)), (''discount'', j_dec (ci_discount i)), (''total'', j_dec (ci_total i)),
     (''isAvailable'', JBool (ci_isAvailable i)), (''unavailableReason'', j_opt j_str (ci_unavailableReason i)),
     (''customization'', j_opt j_json (ci_customization i))]"

fun decode_item :: "json \<Rightarrow> cart_item option" where
  "decode_item (JObj fs) = do {
     iid \<leftarrow> Option.bind (map_of fs ''id'') un_str;
     pid \<leftarrow> Option.bind (map_of fs ''productId'') un_str;
     qty \<leftarrow> Option.bind (map_of fs ''quantity'') un_int;
     price \<leftarrow> Option.bind (map_of fs ''price'') un_dec;
     orig \<leftarrow> Option.bind (map_of fs ''originalPrice'') un_dec;
     sub \<leftarrow> Option.bind (map_of fs ''subtotal'') un_dec;
     disc \<leftarrow> Option.bind (map_of fs ''discount'') un_dec;
     tot \<leftarrow> Option.bind (map_of fs ''total'') un_dec;
     av \<leftarrow> Option.bind (map_of fs ''isAvailable'') un_bool;
     why \<leftarrow> Option.bind (map_of fs ''unavailableReason'') (un_opt un_str);
     cust \<leftarrow> Option.bind (map_of fs ''customization'') (un_opt un_json);
     Some \<lparr>ci_id = iid, ci_productId = pid, ci_quantity = qty, ci_price = price, ci_originalPrice = orig,
       ci_subtotal = sub, ci_discount = disc, ci_total = tot, ci_isAvailable = av,
       ci_unavailableReason = why, ci_customization = cust\<rparr> }"
| "decode_item _ = None"

lemma decode_encode_item [simp]: "decode_item (encode_item i) = Some i"
  by (simp add: encode_item_def)

definition encode_response :: "cart_response \<Rightarrow> json" where
  "encode_response r = (let c = cr_cart r in JObj [
     (''id'', j_str (c_id c)), (''userId'', j_opt j_str (c_userId c)), (''sessionId'', j_opt j_str (c_sessionId c)),
     (''status'', j_str (status_text (c_status c))), (''subtotal'', j_dec (c_subtotal c)), (''tax'', j_dec (c_tax c)),
     (''shipping'', j_dec (c_shipping c)), (''discount'', j_dec (c_discount c)), (''total'', j_dec (c_total c)),
     (''itemCount'', j_int (int (cr_itemCount r))), (''items'', JArr (map encode_item (c_items c))),
     (''expiresAt'', j_opt j_int (c_expiresAt c)), (''convertedAt'', j_opt j_int (c_convertedAt c)),
     (''abandonedAt'', j_opt j_int (c_abandonedAt c)), (''lastActivityAt'', j_int (c_lastActivityAt c)),
     (''shippingAddress'', j_opt j_json (c_shippingAddress c)), (''billingAddress'', j_opt j_json (c_billingAddress c)),
     (''notes'', j_opt j_str (c_notes c)), (''createdAt'', j_int (c_createdAt c)), (''updatedAt'', j_int (c_updatedAt c))])"

fun un_items :: "json \<Rightarrow> cart_item list option" where
  "un_items (JArr js) = those (map decode_item js)"
| "un_items _ = None"

lemma those_decode_encode [simp]: "those (map (decode_item \<circ> encode_item) is) = Some is"
  by (induction "is") simp_all

fun decode_response :: "json \<Rightarrow> cart_response option" where
  "decode_response (JObj fs) = do {
     cid \<leftarrow> Option.bind (map_of fs ''id'') un_str;
     uid \<leftarrow> Option.bind (map_of fs ''userId'') (un_opt un_str);
     sid \<leftarrow> Option.bind (map_of fs ''sessionId'') (un_opt un_str);
     st \<leftarrow> Option.bind (map_of fs ''status'') un_status;
     sub \<leftarrow> Option.bind (map_of fs ''subtotal'') un_dec;
     tax \<leftarrow> Option.bind (map_of fs ''tax'') un_dec;
     ship \<leftarrow> Option.bind (map_of fs ''shipping'') un_dec;
     disc \<leftarrow> Option.bind (map_of fs ''discount'') un_dec;
     tot \<leftarrow> Option.bind (map_of fs ''total'') un_dec;
     n \<leftarrow> Option.bind (map_of fs ''itemCount'') un_int;
     its \<leftarrow> Option.bind (map_of fs ''items'') un_items;
     ex \<leftarrow> Option.bind (map_of fs ''expiresAt'') (un_opt un_int);
     conv \<leftarrow> Option.bind (map_of fs ''convertedAt'') (un_opt un_int);
     ab \<leftarrow> Option.bind (map_of fs ''abandonedAt'') (un_opt un_int);
     la \<leftarrow> Option.bind (map_of fs ''lastActivityAt'') un_int;
     sa \<leftarrow> Option.bind (map_of fs ''shippingAddress'') (un_opt un_json);
     ba \<leftarrow> Option.bind (map_of fs ''billingAddress'') (un_opt un_json);
     nt \<leftarrow> Option.bind (map_of fs ''notes'') (un_opt un_str);
     cre \<leftarrow> Option.bind (map_of fs ''createdAt'') un_int;
     upd \<leftarrow> Option.bind (map_of fs ''updatedAt'') un_int;
     Some \<lparr>cr_cart = \<lparr>c_id = cid, c_userId = uid, c_sessionId = sid, c_status = st, c_subtotal = sub,
       c_tax = tax, c_shipping = ship, c_discount = disc, c_total = tot, c_shippingAddress = sa,
       c_billingAddress = ba, c_notes = nt, c_lastActivityAt = la, c_expiresAt = ex, c_abandonedAt = ab,
       c_convertedAt = conv, c_createdAt = cre, c_updatedAt = upd, c_items = its\<rparr>, cr_itemCount = nat n\<rparr> }"
| "decode_response _ = None"

lemma decode_encode_response [simp]: "decode_response (encode_response r) = Some r"
  by (simp add: encode_response_def Let_def)

subsection \<open>The service\<close>

definition CART_TTL :: int where "CART_TTL = 86400"

text \<open>\<open>None\<close>: neither id is given, and the key function throws.\<close>

definition cart_cache_key :: "string option \<Rightarrow> string option \<Rightarrow> string option" where
  "cart_cache_key uid sid =
     (if truthy_str uid then Some (''cart:user:'' @ the uid)
      else if truthy_str sid then Some (''cart:session:'' @ the sid)
      else None)"

definition cart_cache_get ::
  "string option \<Rightarrow> string option \<Rightarrow> ms \<Rightarrow> 's redis_service \<Rightarrow> cart_response option" where
  "cart_cache_get uid sid now rs =
     (case cart_cache_key uid sid of
        None \<Rightarrow> None
      | Some k \<Rightarrow>
          (let cached = redis_get rs now k
           in if json_truthy cached then Option.bind (json_parse_value cached) decode_response else None))"

definition cart_cache_set ::
  "cart_response \<Rightarrow> string option \<Rightarrow> string option \<Rightarrow> ms \<Rightarrow> 's redis_service \<Rightarrow> 's redis_service" where
  "cart_cache_set r uid sid now rs =
     (case cart_cache_key uid sid of
        None \<Rightarrow> rs
      | Some k \<Rightarrow> snd (redis_set rs now k (JStr (Stringified (encode_response r))) CART_TTL))"

definition cart_cache_invalidate ::
  "string option \<Rightarrow> string option \<Rightarrow> ms \<Rightarrow> 's redis_service \<Rightarrow> 's redis_service" where
  "cart_cache_invalidate uid sid now rs =
     (case cart_cache_key uid sid of None \<Rightarrow> rs | Some k \<Rightarrow> snd (redis_delete rs now k))"

definition cart_cache_warm ::
  "cart_response \<Rightarrow> string option \<Rightarrow> string option \<Rightarrow> ms \<Rightarrow> 's redis_service \<Rightarrow> 's redis_service" where
  "cart_cache_warm r uid sid now rs = cart_cache_set r uid sid now rs"

definition cart_cache_ttl :: "string option \<Rightarrow> string option \<Rightarrow> ms \<Rightarrow> 's redis_service \<Rightarrow> int option" where
  "cart_cache_ttl uid sid now rs =
     (case cart_cache_key uid sid of
        None \<Rightarrow> None
      | Some k \<Rightarrow> (let ttl = redis_ttl rs now k in if ttl > 0 then Some ttl else None))"

definition cart_cache_exists :: "string option \<Rightarrow> string option \<Rightarrow> ms \<Rightarrow> 's redis_service \<Rightarrow> bool" where
  "cart_cache_exists uid sid now rs =
     (case cart_cache_key uid sid of None \<Rightarrow> False | Some k \<Rightarrow> redis_exists rs now k)"

definition cart_cache_batch_invalidate :: "string list \<Rightarrow> ms \<Rightarrow> 's redis_service \<Rightarrow> 's redis_service" where
  "cart_cache_batch_invalidate ks now rs = fold (\<lambda>k rs. snd (redis_delete rs now k)) ks rs"

definition cart_cache_clear_all :: "ms \<Rightarrow> 's redis_service \<Rightarrow> nat \<times> 's redis_service" where
  "cart_cache_clear_all now rs = redis_delete_pattern rs now ''cart:*''"

context redis_server
begin

lemma cart_cache_get_set:
  "up rs \<Longrightarrow> cart_cache_key uid sid = Some k \<Longrightarrow>
   cart_cache_get uid' sid' t (cart_cache_set r uid sid now rs) =
     (if cart_cache_key uid' sid' = Some k then (if t < now + 86400000 then Some r else None)
      else cart_cache_get uid' sid' t rs)"
  by (auto simp: cart_cache_get_def cart_cache_set_def cache.get_set CART_TTL_def split: option.split)

lemma cart_cache_get_invalidate:
  "up rs \<Longrightarrow> cart_cache_key uid sid = Some k \<Longrightarrow>
   cart_cache_get uid' sid' t (cart_cache_invalidate uid sid now rs) =
     (if cart_cache_key uid' sid' = Some k then None else cart_cache_get uid' sid' t rs)"
  by (auto simp: cart_cache_get_def cart_cache_invalidate_def cache.get_del split: option.split)

lemma cart_cache_up:
  "up rs \<Longrightarrow> up (cart_cache_set r uid sid now rs)" "up rs \<Longrightarrow> up (cart_cache_invalidate uid sid now rs)"
  by (auto simp: cart_cache_set_def cart_cache_invalidate_def cache.ready_set cache.ready_del CART_TTL_def
      split: option.split)

end

end
