(* ===== verification/Shipping.thy ===== *)
theory Shipping
  imports Prelude
begin

section \<open>Shipping rates\<close>

text \<open>
  \<open>modules/cart/shipping.service.ts\<close>: the cost of a delivery from its weight, region and method,
  the options offered for an address, and the region an address names. The service keeps no state;
  metrics and logging are left out. Multipliers are the exact decimals the source writes.
\<close>

datatype ship_method = STANDARD | EXPRESS | SAME_DAY

datatype ship_region = NCR | LUZON_NORTH | LUZON_SOUTH | VISAYAS | MINDANAO

record ship_address =
  a_region :: string
  a_province :: string
  a_city :: string
  a_barangay :: string
  a_postalCode :: "string option"
  a_addressLine1 :: string
  a_addressLine2 :: "string option"

record ship_option =
  so_method :: ship_method
  so_cost :: rat
  so_days :: nat
  so_description :: string

record ship_calculation =
  sc_selectedMethod :: ship_method
  sc_cost :: rat
  sc_days :: nat
  sc_options :: "ship_option list"

fun base_rate :: "ship_method \<Rightarrow> rat" where
  "base_rate STANDARD = 50"
| "base_rate EXPRESS = 150"
| "base_rate SAME_DAY = 300"

fun regional_multiplier :: "ship_region \<Rightarrow> rat" where
  "regional_multiplier NCR = 1"
| "regional_multiplier LUZON_NORTH = 13 / 10"
| "regional_multiplier LUZON_SOUTH = 12 / 10"
| "regional_multiplier VISAYAS = 15 / 10"
| "regional_multiplier MINDANAO = 17 / 10"

definition includes_any :: "string \<Rightarrow> string list \<Rightarrow> bool" where
  "includes_any s ps = list_ex (str_includes s) ps"

definition determine_region :: "ship_address \<Rightarrow> ship_region" where
  "determine_region a =
     (let region = to_upper (a_region a)
      in if includes_any region [''NCR'', ''METRO MANILA'', ''NATIONAL CAPITAL''] then NCR
         else if includes_any region [''ILOCOS'', ''CORDILLERA'', ''CAGAYAN''] then LUZON_NORTH
         else if includes_any region [''CENTRAL LUZON'', ''CALABARZON'', ''MIMAROPA'', ''BICOL''] then LUZON_SOUTH
         else if includes_any region [''VISAYAS'', ''WESTERN VISAYAS'', ''CENTRAL VISAYAS'', ''EASTERN VISAYAS''] then VISAYAS
         else if includes_any region [''MINDANAO'', ''ZAMBOANGA'', ''NORTHERN MINDANAO'', ''DAVAO'',
           ''SOCCSKSARGEN'', ''CARAGA'', ''BARMM''] then MINDANAO
         else LUZON_SOUTH)"

definition calculate_shipping :: "rat \<Rightarrow> ship_address \<Rightarrow> ship_method \<Rightarrow> rat" where
  "calculate_shipping totalWeight a m =
     (let multiplier = regional_multiplier (determine_region a);
          weightSurcharge = (if totalWeight > 1 then (totalWeight - 1) * 20 else 0)
      in to_decimal_places2 (base_rate m * multiplier + weightSurcharge))"

fun estimated_days :: "ship_region \<Rightarrow> ship_method \<Rightarrow> nat" where
  "estimated_days NCR m = (case m of STANDARD \<Rightarrow> 1 | EXPRESS \<Rightarrow> 1 | SAME_DAY \<Rightarrow> 0)"
| "estimated_days LUZON_NORTH m = (case m of STANDARD \<Rightarrow> 5 | EXPRESS \<Rightarrow> 2 | SAME_DAY \<Rightarrow> 0)"
| "estimated_days LUZON_SOUTH m = (case m of STANDARD \<Rightarrow> 4 | EXPRESS \<Rightarrow> 2 | SAME_DAY \<Rightarrow> 0)"
| "estimated_days VISAYAS m = (case m of STANDARD \<Rightarrow> 6 | EXPRESS \<Rightarrow> 3 | SAME_DAY \<Rightarrow> 0)"
| "estimated_days MINDANAO m = (case m of STANDARD \<Rightarrow> 7 | EXPRESS \<Rightarrow> 3 | SAME_DAY \<Rightarrow> 0)"

definition get_shipping_options :: "rat \<Rightarrow> ship_address \<Rightarrow> ship_option list" where
  "get_shipping_options w a =
     (let region = determine_region a
      in [\<lparr>so_method = STANDARD, so_cost = calculate_shipping w a STANDARD,
            so_days = estimated_days region STANDARD, so_description = ''Standard Shipping (5-7 business days)''\<rparr>,
          \<lparr>so_method = EXPRESS, so_cost = calculate_shipping w a EXPRESS,
            so_days = estimated_days region EXPRESS, so_description = ''Express Shipping (2-3 business days)''\<rparr>] @
         (if region = NCR then
            [\<lparr>so_method = SAME_DAY, so_cost = calculate_shipping w a SAME_DAY, so_days = 0,
               so_description = ''Same-Day Delivery (order before 12PM)''\<rparr>]
          else []))"

definition estimate_shipping :: "rat \<Rightarrow> ship_address \<Rightarrow> ship_method \<Rightarrow> ship_calculation" where
  "estimate_shipping w a preferred =
     (let options = get_shipping_options w a;
          selected = (case List.find (\<lambda>x. so_method x = preferred) options of
            Some x \<Rightarrow> x | None \<Rightarrow> hd options)
      in \<lparr>sc_selectedMethod = so_method selected, sc_cost = so_cost selected,
          sc_days = so_days selected, sc_options = options\<rparr>)"

definition validate_address :: "ship_address \<Rightarrow> bool" where
  "validate_address a =
     list_all (\<lambda>s. s \<noteq> []) [a_region a, a_province a, a_city a, a_barangay a, a_addressLine1 a]"

subsection \<open>Lemmas\<close>

lemma multiplier_bounds: "1 \<le> regional_multiplier r \<and> regional_multiplier r \<le> 17 / 10"
  by (cases r) simp_all

lemma base_rate_order: "50 \<le> base_rate m" "base_rate STANDARD < base_rate EXPRESS" "base_rate EXPRESS < base_rate SAME_DAY"
  by (cases m) simp_all

lemma raw_cost_ge:
  "50 \<le> base_rate m * regional_multiplier r + (if (w::rat) > 1 then (w - 1) * 20 else 0)"
proof -
  have "50 * 1 \<le> base_rate m * regional_multiplier r"
    using base_rate_order(1) [of m] multiplier_bounds [of r] by (intro mult_mono) simp_all
  then show ?thesis by simp
qed

lemma calculate_shipping_ge: "50 \<le> calculate_shipping w a m"
proof -
  have "to_decimal_places2 50 \<le> calculate_shipping w a m"
    unfolding calculate_shipping_def Let_def by (intro to_decimal_places2_mono raw_cost_ge)
  moreover have "to_decimal_places2 50 = (50 :: rat)" by (simp add: to_decimal_places2_def floor_eq_iff)
  ultimately show ?thesis by simp
qed

lemma calculate_shipping_mono:
  assumes "w \<le> w'" "base_rate m \<le> base_rate m'"
  shows "calculate_shipping w a m \<le> calculate_shipping w' a m'"
proof -
  have "base_rate m * regional_multiplier (determine_region a) \<le> base_rate m' * regional_multiplier (determine_region a)"
    using assms(2) multiplier_bounds [of "determine_region a"] by (intro mult_right_mono) simp_all
  then show ?thesis
    unfolding calculate_shipping_def Let_def using assms(1) by (intro to_decimal_places2_mono add_mono) simp_all
qed

subsection \<open>Properties\<close>

text \<open>Shipping is never below the base rate of 50, never cheaper for a heavier parcel or a
  faster method, and the options offered have the costs the calculation gives, sorted upwards;
  same-day delivery is offered exactly within the capital region, and the method an estimate
  selects is one it offers.\<close>

theorem shipping_options_sound:
  "list_all (\<lambda>x. so_cost x = calculate_shipping w a (so_method x) \<and> 50 \<le> so_cost x) (get_shipping_options w a) \<and>
   sorted (map so_cost (get_shipping_options w a)) \<and>
   (SAME_DAY \<in> so_method ` set (get_shipping_options w a) \<longleftrightarrow> determine_region a = NCR) \<and>
   sc_selectedMethod (estimate_shipping w a m) \<in> so_method ` set (get_shipping_options w a) \<and>
   sc_cost (estimate_shipping w a m) = calculate_shipping w a (sc_selectedMethod (estimate_shipping w a m)) \<and>
   calculate_shipping (min w w') a m \<le> calculate_shipping w a m"
proof -
  have "sorted (map so_cost (get_shipping_options w a))"
    using calculate_shipping_mono [of w w STANDARD EXPRESS a] calculate_shipping_mono [of w w EXPRESS SAME_DAY a]
      calculate_shipping_mono [of w w STANDARD SAME_DAY a]
    by (simp add: get_shipping_options_def Let_def)
  moreover have "calculate_shipping (min w w') a m \<le> calculate_shipping w a m"
    by (rule calculate_shipping_mono) simp_all
  ultimately show ?thesis
    using calculate_shipping_ge [of w a]
    by (cases m) (auto simp: get_shipping_options_def estimate_shipping_def Let_def)
qed

end
