(* ===== verification/Cart.thy ===== *)
theory Cart
  imports Cart_Cache Shipping
begin

section \<open>Carts\<close>

text \<open>
  \<open>modules/cart/cart.service.ts\<close>, over the tables of \<open>Shop_Data\<close> and the cart cache. A handler's
  state is the pair of database and Redis service. New row ids and the time are arguments. A cart
  item's product always exists (a foreign key); metrics and logging are left out.
\<close>

type_synonym 's cart_world = "shop \<times> 's redis_service"

definition format_cart_response :: "cart_row \<Rightarrow> cart_response" where
  "format_cart_response c = \<lparr>cr_cart = c, cr_itemCount = length (c_items c)\<rparr>"

definition update_cart_row :: "string \<Rightarrow> (cart_row \<Rightarrow> cart_row) \<Rightarrow> shop \<Rightarrow> shop" where
  "update_cart_row cid f db = db\<lparr>carts := update_by c_id cid f (carts db)\<rparr>"

definition find_cart :: "string \<Rightarrow> shop \<Rightarrow> cart_row option" where
  "find_cart cid db = find_by c_id cid (carts db)"

text \<open>\<open>cartItem.findUnique\<close> by id, over the items of all carts, with the cart they are in.\<close>

definition find_cart_item :: "string \<Rightarrow> shop \<Rightarrow> (cart_row \<times> cart_item) option" where
  "find_cart_item iid db =
     List.find (\<lambda>(c, i). ci_id i = iid) (concat (map (\<lambda>c. map (Pair c) (c_items c)) (carts db)))"

definition update_cart_item :: "string \<Rightarrow> (cart_item \<Rightarrow> cart_item) \<Rightarrow> shop \<Rightarrow> shop" where
  "update_cart_item iid f db =
     db\<lparr>carts := map (\<lambda>c. c\<lparr>c_items := update_by ci_id iid f (c_items c)\<rparr>) (carts db)\<rparr>"

text \<open>\<open>findFirst\<close> of the active cart of a user or, without one, of a session.\<close>

definition is_active_of :: "string option \<Rightarrow> string option \<Rightarrow> cart_row \<Rightarrow> bool" where
  "is_active_of uid sid c =
     ((if truthy_str uid then c_userId c = uid else c_sessionId c = sid) \<and> c_status c = C_ACTIVE)"

definition find_first_active :: "string option \<Rightarrow> string option \<Rightarrow> shop \<Rightarrow> cart_row option" where
  "find_first_active uid sid db = List.find (is_active_of uid sid) (carts db)"

definition new_cart :: "string \<Rightarrow> string option \<Rightarrow> string option \<Rightarrow> ms \<Rightarrow> cart_row" where
  "new_cart cid uid sid now =
     \<lparr>c_id = cid, c_userId = uid, c_sessionId = sid, c_status = C_ACTIVE, c_subtotal = 0, c_tax = 0,
      c_shipping = 0, c_discount = 0, c_total = 0, c_shippingAddress = None, c_billingAddress = None,
      c_notes = None, c_lastActivityAt = now, c_expiresAt = None, c_abandonedAt = None,
      c_convertedAt = None, c_createdAt = now, c_updatedAt = now, c_items = []\<rparr>"

definition insert_cart :: "cart_row \<Rightarrow> shop \<Rightarrow> cart_row res \<times> shop" where
  "insert_cart c db =
     (if (case c_userId c of None \<Rightarrow> False | Some u \<Rightarrow> find_by u_id u (users db) = None)
      then (Inl (InternalError ''P2003 foreign key''), db)
      else (Inr c, db\<lparr>carts := carts db @ [c]\<rparr>))"

definition get_or_create_cart ::
  "string \<Rightarrow> string option \<Rightarrow> string option \<Rightarrow> ms \<Rightarrow> 's cart_world \<Rightarrow> cart_response res \<times> 's cart_world" where
  "get_or_create_cart cid uid sid now w =
     (if \<not> truthy_str uid \<and> \<not> truthy_str sid
      then (Inl (BadRequest ''Either userId or sessionId is required''), w)
      else case cart_cache_get uid sid now (snd w) of
        Some r \<Rightarrow> (Inr r, w)
      | None \<Rightarrow>
          (let found = (case find_first_active uid sid (fst w) of
             Some c \<Rightarrow> (Inr c, fst w)
           | None \<Rightarrow> insert_cart (new_cart cid uid sid now) (fst w))
           in case found of
                (Inl e, db) \<Rightarrow> (Inl e, (db, snd w))
              | (Inr c, db) \<Rightarrow>
                  (let r = format_cart_response c
                   in (Inr r, (db, cart_cache_set r uid sid now (snd w))))))"

subsection \<open>Totals\<close>

definition get_tax_rate :: "string \<Rightarrow> rat" where
  "get_tax_rate region =
     (if includes_any (to_upper region) [''NCR'', ''METRO MANILA'', ''NATIONAL CAPITAL'']
      then 12 / 100 else 10 / 100)"

text \<open>\<open>product.weight || 0.5\<close> per piece.\<close>

definition cart_weight :: "shop \<Rightarrow> cart_item list \<Rightarrow> rat" where
  "cart_weight db is =
     sum_list (map (\<lambda>i. num_or (Option.bind (find_product (ci_productId i) db) p_weight) (1 / 2)
       * of_int (ci_quantity i)) is)"

definition calculate_totals ::
  "string \<Rightarrow> ship_address option \<Rightarrow> ship_method option \<Rightarrow> ms \<Rightarrow> shop \<Rightarrow> unit res \<times> shop" where
  "calculate_totals cid addr meth now db =
     (case find_cart cid db of
        None \<Rightarrow> (Inl (NotFound ''Cart not found''), db)
      | Some c \<Rightarrow>
          (let subtotal = sum_list (map ci_total (c_items c));
               taxRate = (case addr of None \<Rightarrow> 12 / 100 | Some a \<Rightarrow> get_tax_rate (a_region a));
               tax = to_decimal_places2 (subtotal * taxRate);
               shipping = (case addr of None \<Rightarrow> 0
                 | Some a \<Rightarrow> calculate_shipping (cart_weight db (c_items c)) a
                     (case meth of None \<Rightarrow> STANDARD | Some m \<Rightarrow> m));
               total = subtotal + tax + shipping - c_discount c
           in (Inr (), update_cart_row cid (\<lambda>x. x\<lparr>c_subtotal := db_decimal subtotal, c_tax := db_decimal tax,
                c_shipping := db_decimal shipping, c_total := db_decimal total,
                c_lastActivityAt := now, c_updatedAt := now\<rparr>) db)))"

definition update_item_quantity ::
  "string \<Rightarrow> string \<Rightarrow> int \<Rightarrow> json option \<Rightarrow> ms \<Rightarrow> shop \<Rightarrow> unit res \<times> shop" where
  "update_item_quantity cid iid quantity cust now db =
     (case find_cart_item iid db of
        None \<Rightarrow> (Inl (NotFound ''Cart item not found''), db)
      | Some (_, item) \<Rightarrow>
          (let subtotal = ci_price item * of_int quantity;
               total = subtotal - ci_discount item
           in calculate_totals cid None None now
                (update_cart_item iid (\<lambda>x. x\<lparr>ci_quantity := quantity, ci_subtotal := db_decimal subtotal,
                   ci_total := db_decimal total,
                   ci_customization := (if cust = None then ci_customization x else cust)\<rparr>) db)))"

subsection \<open>Adding, changing and removing items\<close>

record add_to_cart_dto =
  ad_productId :: string
  ad_quantity :: int
  ad_customization :: "json option"

definition new_item :: "string \<Rightarrow> product_row \<Rightarrow> int \<Rightarrow> json option \<Rightarrow> cart_item" where
  "new_item iid p q cust =
     \<lparr>ci_id = iid, ci_productId = p_id p, ci_quantity = q, ci_price = p_price p, ci_originalPrice = p_price p,
      ci_subtotal = db_decimal (p_price p * of_int q), ci_discount = 0, ci_total = db_decimal (p_price p * of_int q),
      ci_isAvailable = True, ci_unavailableReason = None, ci_customization = cust\<rparr>"

text \<open>\<open>cartItem.create\<close> into a cart, which must exist; and the unique pair of cart and product.\<close>

definition insert_item :: "string \<Rightarrow> cart_item \<Rightarrow> shop \<Rightarrow> unit res \<times> shop" where
  "insert_item cid i db =
     (case find_cart cid db of
        None \<Rightarrow> (Inl (InternalError ''P2003 foreign key''), db)
      | Some c \<Rightarrow>
          if find_by ci_productId (ci_productId i) (c_items c) \<noteq> None
          then (Inl (InternalError ''P2002 unique''), db)
          else (Inr (), update_cart_row cid (\<lambda>x. x\<lparr>c_items := c_items x @ [i]\<rparr>) db))"

definition max_qty :: "product_row \<Rightarrow> int" where
  "max_qty p = num_or (p_maxCartQty p) (p_stock p)"

text \<open>Lines 132-211: the checks and the change of the item.\<close>

definition add_item_core :: "string \<Rightarrow> string \<Rightarrow> add_to_cart_dto \<Rightarrow> ms \<Rightarrow> shop \<Rightarrow> unit res \<times> shop" where
  "add_item_core cid iid dto now db =
     (case find_product (ad_productId dto) db of
        None \<Rightarrow> (Inl (NotFound (''Product with ID '' @ ad_productId dto @ '' not found'')), db)
      | Some p \<Rightarrow>
          if \<not> p_isActive p then (Inl (BadRequest ''Product is not available''), db)
          else if p_stock p < ad_quantity dto then (Inl (BadRequest ''Insufficient stock''), db)
          else if ad_quantity dto > max_qty p then (Inl (BadRequest ''Quantity exceeds maximum allowed''), db)
          else (case Option.bind (find_cart cid db) (\<lambda>c. find_by ci_productId (ad_productId dto) (c_items c)) of
            Some old \<Rightarrow>
              (let newQuantity = ci_quantity old + ad_quantity dto
               in if newQuantity > max_qty p
                  then (Inl (BadRequest ''Total quantity would exceed maximum allowed''), db)
                  else if newQuantity > p_stock p
                  then (Inl (BadRequest ''Total quantity would exceed available stock''), db)
                  else update_item_quantity cid (ci_id old) newQuantity None now db)
          | None \<Rightarrow> insert_item cid (new_item iid p (ad_quantity dto) (ad_customization dto)) db))"

definition add_item ::
  "string \<times> string \<Rightarrow> string \<Rightarrow> string option \<Rightarrow> string option \<Rightarrow> add_to_cart_dto \<Rightarrow> ms \<Rightarrow>
   's cart_world \<Rightarrow> cart_response res \<times> 's cart_world" where
  "add_item cids iid uid sid dto now w =
     and_then (get_or_create_cart (fst cids) uid sid now w) (\<lambda>cart w1.
       (let cid = c_id (cr_cart cart)
        in case add_item_core cid iid dto now (fst w1) of
             (Inl e, db) \<Rightarrow> (Inl e, (db, snd w1))
           | (Inr _, db) \<Rightarrow>
               (case calculate_totals cid None None now db of
                  (Inl e, db') \<Rightarrow> (Inl e, (db', snd w1))
                | (Inr _, db') \<Rightarrow>
                    get_or_create_cart (snd cids) uid sid now
                      (db', cart_cache_invalidate uid sid now (snd w1)))))"

definition update_item ::
  "string \<Rightarrow> string \<Rightarrow> int \<Rightarrow> json option \<Rightarrow> ms \<Rightarrow> 's cart_world \<Rightarrow> cart_response res \<times> 's cart_world" where
  "update_item cid iid quantity cust now w =
     (case find_cart_item iid (fst w) of
        None \<Rightarrow> (Inl (NotFound ''Cart item not found''), w)
      | Some (c, item) \<Rightarrow>
          if c_id c \<noteq> cid then (Inl (BadRequest ''Cart item does not belong to this cart''), w)
          else (case find_product (ci_productId item) (fst w) of
            None \<Rightarrow> (Inl (InternalError ''required relation product is missing''), w)
          | Some p \<Rightarrow>
              if quantity > p_stock p then (Inl (BadRequest ''Insufficient stock''), w)
              else if quantity > max_qty p then (Inl (BadRequest ''Quantity exceeds maximum allowed''), w)
              else (case update_item_quantity cid iid quantity cust now (fst w) of
                (Inl e, db) \<Rightarrow> (Inl e, (db, snd w))
              | (Inr _, db) \<Rightarrow>
                  (case find_cart cid db of
                     None \<Rightarrow> (Inl (InternalError ''TypeError: cart is null''), (db, snd w))
                   | Some c' \<Rightarrow> (Inr (format_cart_response c'),
                       (db, cart_cache_invalidate (c_userId c') (c_sessionId c') now (snd w)))))))"

definition remove_item :: "string \<Rightarrow> string \<Rightarrow> ms \<Rightarrow> 's cart_world \<Rightarrow> unit res \<times> 's cart_world" where
  "remove_item cid iid now w =
     (case find_cart_item iid (fst w) of
        None \<Rightarrow> (Inl (NotFound ''Cart item not found''), w)
      | Some (c, item) \<Rightarrow>
          if c_id c \<noteq> cid then (Inl (BadRequest ''Cart item does not belong to this cart''), w)
          else
            (let db = update_cart_row cid (\<lambda>x. x\<lparr>c_items := filter (\<lambda>i. ci_id i \<noteq> iid) (c_items x)\<rparr>) (fst w)
             in case calculate_totals cid None None now db of
                  (Inl e, db') \<Rightarrow> (Inl e, (db', snd w))
                | (Inr _, db') \<Rightarrow>
                    (case find_cart cid db' of
                       None \<Rightarrow> (Inr (), (db', snd w))
                     | Some c' \<Rightarrow> (Inr (), (db', cart_cache_invalidate (c_userId c') (c_sessionId c') now (snd w))))))"

definition clear_cart :: "string \<Rightarrow> ms \<Rightarrow> 's cart_world \<Rightarrow> unit res \<times> 's cart_world" where
  "clear_cart cid now w =
     (case find_cart cid (fst w) of
        None \<Rightarrow> (Inl (InternalError ''P2025 record not found''), w)
      | Some c \<Rightarrow> (Inr (), (update_cart_row cid (\<lambda>x. x\<lparr>c_items := [], c_subtotal := 0, c_tax := 0,
          c_discount := 0, c_total := 0, c_lastActivityAt := now, c_updatedAt := now\<rparr>) (fst w),
          cart_cache_invalidate (c_userId c) (c_sessionId c) now (snd w))))"

subsection \<open>Summary, validation and estimates\<close>

record cart_summary =
  sm_itemCount :: nat
  sm_total :: rat
  sm_hasUnavailableItems :: bool

definition get_cart_summary :: "string option \<Rightarrow> string option \<Rightarrow> shop \<Rightarrow> cart_summary" where
  "get_cart_summary uid sid db =
     (case find_first_active uid sid db of
        None \<Rightarrow> \<lparr>sm_itemCount = 0, sm_total = 0, sm_hasUnavailableItems = False\<rparr>
      | Some c \<Rightarrow> \<lparr>sm_itemCount = length (c_items c), sm_total = c_total c,
          sm_hasUnavailableItems = list_ex (\<lambda>i. \<not> ci_isAvailable i) (c_items c)\<rparr>)"

record validation_item =
  vi_itemId :: string
  vi_productId :: string
  vi_isAvailable :: bool
  vi_currentStock :: int
  vi_requestedQuantity :: int
  vi_priceChanged :: bool
  vi_oldPrice :: "rat option"
  vi_newPrice :: "rat option"

definition validate_item :: "cart_item \<Rightarrow> product_row \<Rightarrow> validation_item" where
  "validate_item i p =
     (let available = p_isActive p \<and> p_stock p \<ge> ci_quantity i;
          changed = p_price p \<noteq> ci_price i
      in \<lparr>vi_itemId = ci_id i, vi_productId = p_id p, vi_isAvailable = available, vi_currentStock = p_stock p,
          vi_requestedQuantity = ci_quantity i, vi_priceChanged = changed,
          vi_oldPrice = (if changed then Some (ci_price i) else None),
          vi_newPrice = (if changed then Some (p_price p) else None)\<rparr>)"

text \<open>The items that exist with their products, in order; the foreign key makes it all of them.\<close>

definition items_with_products :: "shop \<Rightarrow> cart_item list \<Rightarrow> (cart_item \<times> product_row) list" where
  "items_with_products db is =
     concat (map (\<lambda>i. case find_product (ci_productId i) db of None \<Rightarrow> [] | Some p \<Rightarrow> [(i, p)]) is)"

definition mark_unavailable :: "cart_item \<times> product_row \<Rightarrow> shop \<Rightarrow> shop" where
  "mark_unavailable ip db =
     (let (i, p) = ip
      in if \<not> vi_isAvailable (validate_item i p) \<and> ci_isAvailable i
         then update_cart_item (ci_id i) (\<lambda>x. x\<lparr>ci_isAvailable := False,
           ci_unavailableReason := Some (if \<not> p_isActive p then ''Product no longer available'' else ''Out of stock'')\<rparr>) db
         else db)"

definition validate_cart :: "string \<Rightarrow> shop \<Rightarrow> (bool \<times> validation_item list) res \<times> shop" where
  "validate_cart cid db =
     (case find_cart cid db of
        None \<Rightarrow> (Inl (NotFound ''Cart not found''), db)
      | Some c \<Rightarrow>
          (let ips = items_with_products db (c_items c);
               results = map (\<lambda>(i, p). validate_item i p) ips
           in (Inr (list_all (\<lambda>v. vi_isAvailable v \<and> \<not> vi_priceChanged v) results, results),
               fold mark_unavailable ips db)))"

definition estimate_cart_shipping :: "string \<Rightarrow> ship_address \<Rightarrow> shop \<Rightarrow> ship_calculation res" where
  "estimate_cart_shipping cid a db =
     (case find_cart cid db of
        None \<Rightarrow> Inl (NotFound ''Cart not found'')
      | Some c \<Rightarrow> Inr (estimate_shipping (cart_weight db (c_items c)) a STANDARD))"

subsection \<open>Merging a guest cart\<close>

text \<open>Lines 684-765: one guest item into the user's cart \<open>ucid\<close>. A failing insertion is caught and
  the item skipped.\<close>

definition merge_item :: "string \<Rightarrow> string \<times> cart_item \<Rightarrow> shop \<Rightarrow> shop" where
  "merge_item ucid g db =
     (let (iid, gi) = g
      in case find_product (ci_productId gi) db of
           None \<Rightarrow> db
         | Some p \<Rightarrow>
             (case Option.bind (find_cart ucid db) (\<lambda>c. find_by ci_productId (ci_productId gi) (c_items c)) of
                Some old \<Rightarrow>
                  (let newQuantity = min (ci_quantity old + ci_quantity gi) (min (max_qty p) (p_stock p))
                   in update_cart_item (ci_id old) (\<lambda>x. x\<lparr>ci_quantity := newQuantity,
                        ci_subtotal := db_decimal (p_price p * of_int newQuantity),
                        ci_total := db_decimal (p_price p * of_int newQuantity)\<rparr>) db)
              | None \<Rightarrow>
                  if \<not> p_isActive p then db
                  else if p_stock p < ci_quantity gi then db
                  else snd (insert_item ucid
                    (gi\<lparr>ci_id := iid, ci_originalPrice := ci_price gi, ci_isAvailable := True,
                        ci_unavailableReason := None\<rparr>) db)))"

definition mark_merged :: "string \<Rightarrow> ms \<Rightarrow> shop \<Rightarrow> shop" where
  "mark_merged cid now =
     update_cart_row cid (\<lambda>x. x\<lparr>c_status := C_MERGED, c_convertedAt := Some now, c_updatedAt := now\<rparr>)"

text \<open>\<open>findFirst\<close> by session alone, or by user alone.\<close>

definition find_session_cart :: "string \<Rightarrow> shop \<Rightarrow> cart_row option" where
  "find_session_cart sid db = List.find (\<lambda>c. c_sessionId c = Some sid \<and> c_status c = C_ACTIVE) (carts db)"

definition find_user_cart :: "string \<Rightarrow> shop \<Rightarrow> cart_row option" where
  "find_user_cart uid db = List.find (\<lambda>c. c_userId c = Some uid \<and> c_status c = C_ACTIVE) (carts db)"

definition merge_guest_cart ::
  "string \<times> string \<Rightarrow> string list \<Rightarrow> string \<Rightarrow> string \<Rightarrow> ms \<Rightarrow> 's cart_world \<Rightarrow> cart_response res \<times> 's cart_world" where
  "merge_guest_cart cids iids uid sid now w =
     (case find_session_cart sid (fst w) of
        None \<Rightarrow> get_or_create_cart (snd cids) (Some uid) None now w
      | Some guest \<Rightarrow>
          if c_items guest = []
          then get_or_create_cart (snd cids) (Some uid) None now (mark_merged (c_id guest) now (fst w), snd w)
          else
            (case (case find_user_cart uid (fst w) of
                Some c \<Rightarrow> (Inr c, fst w)
              | None \<Rightarrow> insert_cart (new_cart (fst cids) (Some uid) None now) (fst w)) of
               (Inl e, db) \<Rightarrow> (Inl e, (db, snd w))
             | (Inr user, db) \<Rightarrow>
                 (let merged = mark_merged (c_id guest) now (fold (merge_item (c_id user)) (zip iids (c_items guest)) db)
                  in case calculate_totals (c_id user) None None now merged of
                       (Inl e, db') \<Rightarrow> (Inl e, (db', snd w))
                     | (Inr _, db') \<Rightarrow>
                         get_or_create_cart (snd cids) (Some uid) None now
                           (db', cart_cache_invalidate None (Some sid) now
                             (cart_cache_invalidate (Some uid) None now (snd w))))))"

subsection \<open>Lemmas on the cart tables\<close>

lemma find_cart_update:
  "(\<And>x. c_id (f x) = c_id x) \<Longrightarrow>
   find_cart k (update_cart_row cid f db) = (if k = cid then map_option f (find_cart k db) else find_cart k db)"
  by (simp add: find_cart_def update_cart_row_def find_by_update_by)

lemma update_cart_row_simps [simp]:
  "products (update_cart_row cid f db) = products db" "users (update_cart_row cid f db) = users db"
  "orders (update_cart_row cid f db) = orders db" "find_product pid (update_cart_row cid f db) = find_product pid db"
  by (simp_all add: update_cart_row_def find_product_def)

lemma update_cart_item_simps [simp]:
  "products (update_cart_item iid f db) = products db" "users (update_cart_item iid f db) = users db"
  "orders (update_cart_item iid f db) = orders db" "find_product pid (update_cart_item iid f db) = find_product pid db"
  by (simp_all add: update_cart_item_def find_product_def)

lemma find_cart_update_item:
  "find_cart k (update_cart_item iid f db) =
    map_option (\<lambda>c. c\<lparr>c_items := update_by ci_id iid f (c_items c)\<rparr>) (find_cart k db)"
proof -
  have "find_by c_id k (map (\<lambda>c. c\<lparr>c_items := update_by ci_id iid f (c_items c)\<rparr>) cs) =
      map_option (\<lambda>c. c\<lparr>c_items := update_by ci_id iid f (c_items c)\<rparr>) (find_by c_id k cs)" for cs :: "cart_row list"
    by (induction cs) auto
  then show ?thesis by (simp add: find_cart_def update_cart_item_def)
qed

text \<open>Identifiers are unique: of carts, of items over all carts, of products within a cart.\<close>

definition all_items :: "shop \<Rightarrow> cart_item list" where
  "all_items db = concat (map c_items (carts db))"

definition carts_ok :: "shop \<Rightarrow> bool" where
  "carts_ok db \<longleftrightarrow> distinct (map c_id (carts db)) \<and> distinct (map ci_id (all_items db)) \<and>
     (\<forall>c \<in> set (carts db). distinct (map ci_productId (c_items c)))"

text \<open>Row updates that keep the ids of the cart and of its items keep the tables well formed.\<close>

lemma carts_ok_update_row:
  assumes "carts_ok db" "\<And>x. c_id (f x) = c_id x" "\<And>x. c_items (f x) = c_items x"
  shows "carts_ok (update_cart_row cid f db)"
proof -
  have "map c_items (update_by c_id cid f cs) = map c_items cs" for cs
    using assms(3) by (induction cs) auto
  then have "all_items (update_cart_row cid f db) = all_items db"
    by (simp add: all_items_def update_cart_row_def)
  moreover have "\<forall>c \<in> set (update_by c_id cid f (carts db)). distinct (map ci_productId (c_items c))"
    using assms by (auto simp: carts_ok_def update_by_def set_update_where)
  ultimately show ?thesis
    using assms by (simp add: carts_ok_def) (simp add: update_cart_row_def keys_update_by)
qed

lemma carts_ok_update_item:
  assumes "carts_ok db" "\<And>x. ci_id (f x) = ci_id x" "\<And>x. ci_productId (f x) = ci_productId x"
  shows "carts_ok (update_cart_item iid f db)"
proof -
  have pid: "map ci_productId (update_by ci_id iid f is) = map ci_productId is" for "is"
    using assms(3) by (induction "is") auto
  have "map ci_id (concat (map (\<lambda>c. update_by ci_id iid f (c_items c)) cs)) = map ci_id (concat (map c_items cs))" for cs
    using assms(2) by (induction cs) (simp_all add: keys_update_by)
  then have "map ci_id (all_items (update_cart_item iid f db)) = map ci_id (all_items db)"
    by (simp add: all_items_def update_cart_item_def comp_def)
  with assms(1) pid show ?thesis
    by (simp add: carts_ok_def) (auto simp: update_cart_item_def comp_def)
qed

lemma carts_ok_calculate_totals:
  "carts_ok db \<Longrightarrow> carts_ok (snd (calculate_totals cid addr meth now db))"
  by (auto simp: calculate_totals_def Let_def carts_ok_update_row split: option.split)

lemma carts_ok_update_quantity:
  "carts_ok db \<Longrightarrow> carts_ok (snd (update_item_quantity cid iid q cust now db))"
  by (auto simp: update_item_quantity_def Let_def carts_ok_update_item carts_ok_calculate_totals split: option.split)

text \<open>Items appended to or removed from one cart.\<close>

lemma all_items_update_cart:
  assumes "distinct (map c_id (carts db))" "find_cart cid db = Some c" "\<And>x. c_id (f x) = c_id x"
  shows "\<exists>as bs. all_items db = as @ c_items c @ bs \<and> all_items (update_cart_row cid f db) = as @ c_items (f c) @ bs"
proof -
  have "\<exists>as bs. concat (map c_items cs) = as @ c_items c @ bs \<and>
      concat (map c_items (update_by c_id cid f cs)) = as @ c_items (f c) @ bs"
    if "distinct (map c_id cs)" "find_by c_id cid cs = Some c" for cs
    using that
  proof (induction cs)
    case Nil
    then show ?case by simp
  next
    case (Cons x cs)
    show ?case
    proof (cases "c_id x = cid")
      case True
      then have "find_by c_id cid cs = None" using Cons.prems(1) by (simp add: find_by_None_iff)
      then have "update_by c_id cid f cs = cs" by (rule update_by_absent)
      moreover have "x = c" using True Cons.prems(2) by simp
      ultimately show ?thesis
        using True by (intro exI [of _ "[]"] exI [of _ "concat (map c_items cs)"]) simp
    next
      case False
      then obtain as bs where "concat (map c_items cs) = as @ c_items c @ bs"
        "concat (map c_items (update_by c_id cid f cs)) = as @ c_items (f c) @ bs"
        using Cons by auto
      with False show ?thesis by (intro exI [of _ "c_items x @ as"] exI [of _ bs]) simp
    qed
  qed
  with assms show ?thesis by (simp add: all_items_def update_cart_row_def find_cart_def)
qed

lemma carts_ok_insert_item:
  assumes "carts_ok db" "ci_id i \<notin> ci_id ` set (all_items db)"
  shows "carts_ok (snd (insert_item cid i db))"
proof (cases "find_cart cid db")
  case None
  then show ?thesis using assms(1) by (simp add: insert_item_def)
next
  case (Some c)
  let ?f = "\<lambda>x. x\<lparr>c_items := c_items x @ [i]\<rparr>"
  obtain as bs where items: "all_items db = as @ c_items c @ bs"
    "all_items (update_cart_row cid ?f db) = as @ c_items (?f c) @ bs"
    using all_items_update_cart [of db cid c ?f] assms(1) Some by (auto simp: carts_ok_def)
  have prod: "distinct (map ci_productId (c_items y))"
    if absent: "find_by ci_productId (ci_productId i) (c_items c) = None"
      and y: "y \<in> set (update_by c_id cid ?f (carts db))" for y
  proof (cases "c_id y = cid")
    case True
    then obtain x where x: "x \<in> set (carts db)" "c_id x = cid" "y = ?f x"
      using y by (auto simp: update_by_def set_update_where split: if_splits)
    then have "x = c"
      using Some find_by_distinct [of c_id "carts db" x] assms(1) by (simp add: carts_ok_def find_cart_def)
    then show ?thesis using x absent assms(1) by (auto simp: carts_ok_def find_by_None_iff)
  next
    case False
    then show ?thesis using y assms(1) by (auto simp: carts_ok_def update_by_def set_update_where split: if_splits)
  qed
  show ?thesis
    using assms items Some prod
    by (auto simp: insert_item_def carts_ok_def image_iff) (auto simp: update_cart_row_def keys_update_by)
qed

lemma carts_ok_shrink:
  assumes "carts_ok db" "\<And>x. c_id (f x) = c_id x" "\<And>x. c_items (f x) = filter P (c_items x)"
  shows "carts_ok (update_cart_row cid f db)"
proof (cases "find_cart cid db")
  case None
  then have "update_cart_row cid f db = db"
    by (simp add: update_cart_row_def find_cart_def update_by_absent)
  then show ?thesis using assms(1) by simp
next
  case (Some c)
  obtain as bs where "all_items db = as @ c_items c @ bs" "all_items (update_cart_row cid f db) = as @ filter P (c_items c) @ bs"
    using all_items_update_cart [of db cid c f] assms Some by (auto simp: carts_ok_def)
  then have "distinct (map ci_id (all_items (update_cart_row cid f db)))"
    using assms(1) by (auto simp: carts_ok_def distinct_map_filter)
  moreover have "\<forall>y \<in> set (update_by c_id cid f (carts db)). distinct (map ci_productId (c_items y))"
    using assms by (auto simp: carts_ok_def update_by_def set_update_where distinct_map_filter)
  ultimately show ?thesis
    using assms by (simp add: carts_ok_def) (simp add: update_cart_row_def keys_update_by)
qed

definition fresh_cart :: "string \<Rightarrow> shop \<Rightarrow> bool" where
  "fresh_cart cid db \<longleftrightarrow> cid \<notin> c_id ` set (carts db)"

definition fresh_item :: "string \<Rightarrow> shop \<Rightarrow> bool" where
  "fresh_item iid db \<longleftrightarrow> iid \<notin> ci_id ` set (all_items db)"

lemma fresh_same_ids: "map c_id (carts db') = map c_id (carts db) \<Longrightarrow> fresh_cart cid db' = fresh_cart cid db"
  by (simp add: fresh_cart_def flip: set_map)

lemma cart_ids_update [simp]:
  "(\<And>x. c_id (f x) = c_id x) \<Longrightarrow> map c_id (carts (update_cart_row cid f db)) = map c_id (carts db)"
  "map c_id (carts (update_cart_item iid g db)) = map c_id (carts db)"
  by (simp_all add: update_cart_row_def keys_update_by update_cart_item_def comp_def)

lemma cart_ids_calculate [simp]:
  "map c_id (carts (snd (calculate_totals cid addr meth now db))) = map c_id (carts db)"
  by (simp add: calculate_totals_def Let_def split: option.split)

lemma cart_ids_quantity [simp]:
  "map c_id (carts (snd (update_item_quantity cid iid q cust now db))) = map c_id (carts db)"
  by (simp add: update_item_quantity_def Let_def split: option.split)

lemma cart_ids_insert_item [simp]: "map c_id (carts (snd (insert_item cid i db))) = map c_id (carts db)"
  by (simp add: insert_item_def split: option.split)

lemma cart_ids_core [simp]: "map c_id (carts (snd (add_item_core cid iid dto now db))) = map c_id (carts db)"
  by (simp add: add_item_core_def Let_def split: option.split)

lemma carts_ok_core:
  "carts_ok db \<Longrightarrow> fresh_item iid db \<Longrightarrow> carts_ok (snd (add_item_core cid iid dto now db))"
  by (auto simp: add_item_core_def Let_def carts_ok_update_quantity new_item_def fresh_item_def
      intro!: carts_ok_insert_item split: option.split)

lemma carts_ok_insert_cart:
  "carts_ok db \<Longrightarrow> fresh_cart (c_id c) db \<Longrightarrow> c_items c = [] \<Longrightarrow> carts_ok (snd (insert_cart c db))"
  by (auto simp: insert_cart_def carts_ok_def all_items_def fresh_cart_def split: option.split)

lemma carts_ok_get_or_create:
  "carts_ok (fst w) \<Longrightarrow> fresh_cart cid (fst w) \<Longrightarrow> carts_ok (fst (snd (get_or_create_cart cid uid sid now w)))"
  using carts_ok_insert_cart [of "fst w" "new_cart cid uid sid now"]
  by (auto simp: get_or_create_cart_def Let_def new_cart_def split: option.split prod.split sum.split)

lemma cart_ids_get_or_create:
  "c \<noteq> cid \<Longrightarrow> fresh_cart c (fst w) \<Longrightarrow> fresh_cart c (fst (snd (get_or_create_cart cid uid sid now w)))"
  by (auto simp: get_or_create_cart_def Let_def new_cart_def insert_cart_def fresh_cart_def
      split: option.split prod.split sum.split)

lemma items_get_or_create:
  "all_items (fst (snd (get_or_create_cart cid uid sid now w))) = all_items (fst w)"
  by (auto simp: get_or_create_cart_def Let_def new_cart_def insert_cart_def all_items_def
      split: option.split prod.split sum.split)

lemma carts_ok_add_item:
  assumes ok: "carts_ok (fst w)" and fresh: "fresh_cart c1 (fst w)" "fresh_cart c2 (fst w)" "c1 \<noteq> c2"
    and item: "fresh_item iid (fst w)"
  shows "carts_ok (fst (snd (add_item (c1, c2) iid uid sid dto now w)))"
proof -
  let ?g = "get_or_create_cart c1 uid sid now w"
  have g: "carts_ok (fst (snd ?g))" "fresh_cart c2 (fst (snd ?g))" "fresh_item iid (fst (snd ?g))"
    using carts_ok_get_or_create [OF ok fresh(1)] cart_ids_get_or_create [OF fresh(3) [symmetric] fresh(2)]
      item by (auto simp: fresh_item_def items_get_or_create)
  obtain r w1 where Pair: "?g = (r, w1)" by (rule prod.exhaust)
  show ?thesis
  proof (cases r)
    case (Inl e)
    then show ?thesis using g Pair by (simp add: add_item_def)
  next
    case (Inr cart)
    let ?cid = "c_id (cr_cart cart)"
    let ?db1 = "snd (add_item_core ?cid iid dto now (fst w1))"
    let ?db2 = "snd (calculate_totals ?cid None None now ?db1)"
    have ok1: "carts_ok ?db1" using g Pair by (intro carts_ok_core) simp_all
    have ok2: "carts_ok ?db2" by (rule carts_ok_calculate_totals [OF ok1])
    have f2: "fresh_cart c2 ?db2"
      using g(2) Pair by (simp add: fresh_same_ids [of ?db2 "fst w1"])
    have ok3: "carts_ok (fst (snd (get_or_create_cart c2 uid sid now (?db2, rs))))" for rs
      using carts_ok_get_or_create [of "(?db2, rs)" c2 uid sid now] ok2 f2 by simp
    obtain r1 where r1: "add_item_core ?cid iid dto now (fst w1) = (r1, ?db1)" by (metis prod.collapse)
    obtain r2 where r2: "calculate_totals ?cid None None now ?db1 = (r2, ?db2)" by (metis prod.collapse)
    have "add_item (c1, c2) iid uid sid dto now w =
        (case r1 of Inl e \<Rightarrow> (Inl e, (?db1, snd w1))
         | Inr _ \<Rightarrow> (case r2 of Inl e \<Rightarrow> (Inl e, (?db2, snd w1))
             | Inr _ \<Rightarrow> get_or_create_cart c2 uid sid now (?db2, cart_cache_invalidate uid sid now (snd w1))))"
      unfolding add_item_def Pair Inr fst_conv snd_conv and_then_simps Let_def
      by (subst r1, cases r1; simp) (subst r2, cases r2; simp)
    then show ?thesis using ok1 ok2 ok3 by (cases r1; cases r2) simp_all
  qed
qed

lemma carts_ok_update_item_handler:
  "carts_ok (fst w) \<Longrightarrow> carts_ok (fst (snd (update_item cid iid q cust now w)))"
  using carts_ok_update_quantity [of "fst w" cid iid q cust now]
  by (auto simp: update_item_def split: option.split prod.splits sum.split)

lemma carts_ok_remove_item:
  assumes "carts_ok (fst w)"
  shows "carts_ok (fst (snd (remove_item cid iid now w)))"
proof -
  let ?db = "update_cart_row cid (\<lambda>x. x\<lparr>c_items := filter (\<lambda>i. ci_id i \<noteq> iid) (c_items x)\<rparr>) (fst w)"
  have "carts_ok ?db" by (rule carts_ok_shrink [OF assms]) simp_all
  from carts_ok_calculate_totals [OF this, of cid None None now] show ?thesis
    using assms by (auto simp: remove_item_def Let_def split: option.split prod.splits sum.split)
qed

lemma carts_ok_clear_cart:
  assumes "carts_ok (fst w)"
  shows "carts_ok (fst (snd (clear_cart cid now w)))"
  using assms carts_ok_shrink [OF assms, of "\<lambda>x. x\<lparr>c_items := [], c_subtotal := 0, c_tax := 0,
      c_discount := 0, c_total := 0, c_lastActivityAt := now, c_updatedAt := now\<rparr>" "\<lambda>_. False" cid]
  by (auto simp: clear_cart_def split: option.split)

lemma carts_ok_validate_cart:
  assumes "carts_ok db"
  shows "carts_ok (snd (validate_cart cid db))"
proof -
  have "carts_ok (fold mark_unavailable ips x)" if "carts_ok x" for ips x
    using that by (induction ips arbitrary: x) (auto simp: mark_unavailable_def Let_def carts_ok_update_item)
  with assms show ?thesis by (auto simp: validate_cart_def Let_def split: option.split)
qed

lemma carts_ok_merge_item:
  "carts_ok db \<Longrightarrow> fresh_item (fst g) db \<Longrightarrow> carts_ok (snd (ucid, merge_item ucid g db))"
  by (cases g) (auto simp: merge_item_def Let_def carts_ok_update_item fresh_item_def
      intro!: carts_ok_insert_item split: option.split)

lemma item_ids_merge_item:
  assumes "carts_ok db"
  shows "ci_id ` set (all_items (merge_item ucid g db)) \<subseteq> insert (fst g) (ci_id ` set (all_items db))"
proof -
  obtain iid gi where g: "g = (iid, gi)" by fastforce
  have upd: "ci_id ` set (all_items (update_cart_item k f db)) = ci_id ` set (all_items db)"
    if "\<And>x. ci_id (f x) = ci_id x" for k f
  proof -
    have "map ci_id (all_items (update_cart_item k f db)) = map ci_id (all_items db)"
      using that by (simp add: all_items_def update_cart_item_def map_concat comp_def keys_update_by)
    then show ?thesis by (metis set_map)
  qed
  have ins: "ci_id ` set (all_items (snd (insert_item ucid i db))) \<subseteq> insert (ci_id i) (ci_id ` set (all_items db))" for i
  proof (cases "find_cart ucid db")
    case (Some c)
    obtain as bs where "all_items db = as @ c_items c @ bs"
      "all_items (update_cart_row ucid (\<lambda>x. x\<lparr>c_items := c_items x @ [i]\<rparr>) db) = as @ (c_items c @ [i]) @ bs"
      using all_items_update_cart [of db ucid c "\<lambda>x. x\<lparr>c_items := c_items x @ [i]\<rparr>"] assms Some
      by (auto simp: carts_ok_def)
    with Some show ?thesis by (auto simp: insert_item_def)
  qed (auto simp: insert_item_def)
  show ?thesis
    using ins [of "gi\<lparr>ci_id := iid, ci_originalPrice := ci_price gi, ci_isAvailable := True, ci_unavailableReason := None\<rparr>"]
    by (auto simp: g merge_item_def Let_def upd split: option.split)
qed

lemma carts_ok_merge_items:
  assumes "carts_ok db" "distinct (map fst gs)" "\<forall>g \<in> set gs. fresh_item (fst g) db"
  shows "carts_ok (fold (merge_item ucid) gs db)"
  using assms
proof (induction gs arbitrary: db)
  case Nil
  then show ?case by simp
next
  case (Cons g gs)
  have "carts_ok (merge_item ucid g db)" using carts_ok_merge_item [of db g ucid] Cons.prems by simp
  moreover have "\<forall>h \<in> set gs. fresh_item (fst h) (merge_item ucid g db)"
  proof
    fix h assume h: "h \<in> set gs"
    then have "fst h \<noteq> fst g" using Cons.prems(2) by (metis distinct.simps(2) image_eqI list.map(2) set_map)
    moreover have "fst h \<notin> ci_id ` set (all_items db)" using h Cons.prems(3) by (simp add: fresh_item_def)
    ultimately show "fresh_item (fst h) (merge_item ucid g db)"
      unfolding fresh_item_def using item_ids_merge_item [OF Cons.prems(1), of ucid g] by blast
  qed
  ultimately show ?case using Cons.IH Cons.prems(2) by simp
qed

lemma cart_ids_merge_items [simp]: "map c_id (carts (fold (merge_item ucid) gs db)) = map c_id (carts db)"
proof (induction gs arbitrary: db)
  case (Cons g gs)
  have "map c_id (carts (merge_item ucid g db)) = map c_id (carts db)"
    by (cases g) (auto simp: merge_item_def Let_def split: option.split)
  with Cons show ?case by simp
qed simp

lemma carts_ok_mark_merged: "carts_ok db \<Longrightarrow> carts_ok (mark_merged cid now db)"
  unfolding mark_merged_def by (rule carts_ok_update_row) simp_all

lemma cart_ids_mark_merged [simp]: "map c_id (carts (mark_merged cid now db)) = map c_id (carts db)"
  by (simp add: mark_merged_def)

lemma carts_ok_merge_guest:
  fixes w :: "'s cart_world"
  assumes ok: "carts_ok (fst w)" and fresh: "fresh_cart c1 (fst w)" "fresh_cart c2 (fst w)" "c1 \<noteq> c2"
    and items: "distinct iids" "\<forall>i \<in> set iids. fresh_item i (fst w)"
  shows "carts_ok (fst (snd (merge_guest_cart (c1, c2) iids uid sid now w)))"
proof -
  define start where "start = (case find_user_cart uid (fst w) of
      Some c \<Rightarrow> (Inr c, fst w) | None \<Rightarrow> insert_cart (new_cart c1 (Some uid) None now) (fst w))"
  have s: "carts_ok (snd start)" "fresh_cart c2 (snd start)" "\<forall>i \<in> set iids. fresh_item i (snd start)"
    using carts_ok_insert_cart [of "fst w" "new_cart c1 (Some uid) None now"] ok fresh items(2)
    by (auto simp: start_def new_cart_def insert_cart_def fresh_cart_def fresh_item_def all_items_def split: option.split)
  have create: "carts_ok (fst (snd (get_or_create_cart c2 (Some uid) None now (db, rs))))"
    if "carts_ok db" "fresh_cart c2 db" for db and rs :: "'s redis_service"
    using carts_ok_get_or_create [of "(db, rs)" c2] that by simp
  have empty: "carts_ok (mark_merged k now (fst w)) \<and> fresh_cart c2 (mark_merged k now (fst w))" for k
    using carts_ok_mark_merged [OF ok] fresh(2) by (simp add: fresh_same_ids [of "mark_merged k now (fst w)" "fst w"])
  have full: "carts_ok (snd (calculate_totals u None None now (mark_merged k now (fold (merge_item u) (zip iids is) (snd start))))) \<and>
      fresh_cart c2 (snd (calculate_totals u None None now (mark_merged k now (fold (merge_item u) (zip iids is) (snd start)))))"
    (is "carts_ok ?db \<and> _") for u k "is"
  proof
    have "distinct (map fst (zip iids is))" using items(1) by (simp add: map_fst_zip_take)
    moreover have "\<forall>g \<in> set (zip iids is). fresh_item (fst g) (snd start)"
      using s(3) by (auto dest: set_zip_leftD)
    ultimately show "carts_ok ?db"
      using carts_ok_merge_items [OF s(1)] by (intro carts_ok_calculate_totals carts_ok_mark_merged)
    show "fresh_cart c2 ?db" using s(2) by (simp add: fresh_same_ids [of ?db "snd start"])
  qed
  show ?thesis
  proof (cases "find_session_cart sid (fst w)")
    case None
    then show ?thesis using create [OF ok fresh(2), of "snd w"] by (simp add: merge_guest_cart_def)
  next
    case (Some guest)
    show ?thesis
    proof (cases "c_items guest = []")
      case True
      with Some show ?thesis using empty create by (simp add: merge_guest_cart_def)
    next
      case False
      obtain r0 db0 where r0: "start = (r0, db0)" by (rule prod.exhaust)
      have m: "merge_guest_cart (c1, c2) iids uid sid now w =
          (case start of
             (Inl e, db) \<Rightarrow> (Inl e, (db, snd w))
           | (Inr user, db) \<Rightarrow>
               (let merged = mark_merged (c_id guest) now (fold (merge_item (c_id user)) (zip iids (c_items guest)) db)
                in case calculate_totals (c_id user) None None now merged of
                     (Inl e, db') \<Rightarrow> (Inl e, (db', snd w))
                   | (Inr _, db') \<Rightarrow>
                       get_or_create_cart c2 (Some uid) None now
                         (db', cart_cache_invalidate None (Some sid) now
                           (cart_cache_invalidate (Some uid) None now (snd w)))))"
        unfolding merge_guest_cart_def fst_conv snd_conv start_def using Some False by simp
      show ?thesis
      proof (cases r0)
        case (Inl e)
        then show ?thesis using s(1) by (simp add: m r0)
      next
        case (Inr user)
        obtain r1 db1 where r1: "calculate_totals (c_id user) None None now
            (mark_merged (c_id guest) now (fold (merge_item (c_id user)) (zip iids (c_items guest)) db0)) = (r1, db1)"
          by (rule prod.exhaust)
        have "carts_ok db1" "fresh_cart c2 db1" using full [of "c_id user" "c_id guest" "c_items guest"] by (simp_all add: r0 r1)
        then show ?thesis using create by (cases r1) (simp_all add: m r0 Inr r1 Let_def)
      qed
    qed
  qed
qed

subsection \<open>Totals, limits and the cache\<close>

text \<open>A line is consistent when its amounts follow from its price and quantity.\<close>

lemma calculate_totals_ok:
  assumes "find_cart cid db = Some c"
  shows "\<exists>c'. calculate_totals cid addr meth now db =
      (Inr (), update_cart_row cid (\<lambda>x. x\<lparr>c_subtotal := c_subtotal c', c_tax := c_tax c',
        c_shipping := c_shipping c', c_total := c_total c', c_lastActivityAt := now, c_updatedAt := now\<rparr>) db) \<and>
    find_cart cid (snd (calculate_totals cid addr meth now db)) = Some c' \<and> c_items c' = c_items c \<and>
    c_discount c' = c_discount c"
  using assms by (simp add: calculate_totals_def Let_def find_cart_update)

lemma find_agree:
  "x \<in> set xs \<Longrightarrow> P x \<Longrightarrow> (\<And>y. y \<in> set xs \<Longrightarrow> P y \<Longrightarrow> g y = g x) \<Longrightarrow> \<exists>y. List.find P xs = Some y \<and> g y = g x"
proof (induction xs)
  case Nil
  then show ?case by simp
next
  case (Cons a xs)
  show ?case
  proof (cases "P a")
    case True
    then show ?thesis using Cons.prems(3) [of a] by simp
  next
    case False
    then have "x \<in> set xs" using Cons.prems(1,2) by auto
    then have "\<exists>y. List.find P xs = Some y \<and> g y = g x"
      by (rule Cons.IH [OF _ Cons.prems(2)]) (rule Cons.prems(3); simp)
    then show ?thesis using False by simp
  qed
qed

lemma find_cart_item_unique:
  assumes "distinct (map ci_id (all_items db))" "i \<in> set (all_items db)"
  shows "\<exists>c. find_cart_item (ci_id i) db = Some (c, i)"
proof -
  let ?pairs = "concat (map (\<lambda>c. map (Pair c) (c_items c)) (carts db))"
  have snds: "snd ` set ?pairs = set (all_items db)" by (simp add: all_items_def image_UN image_image)
  then obtain x where x: "x \<in> set ?pairs" "snd x = i" using assms(2) by force
  have same: "snd y = snd x" if "y \<in> set ?pairs" "ci_id (snd y) = ci_id i" for y
  proof -
    have "snd y \<in> set (all_items db)" using that(1) snds by blast
    then show ?thesis using assms that(2) x(2) by (metis distinct_map inj_onD)
  qed
  have "\<exists>y. List.find (\<lambda>(c, j). ci_id j = ci_id i) ?pairs = Some y \<and> snd y = snd x"
    by (rule find_agree [OF x(1)]) (use x(2) same in \<open>simp_all add: case_prod_beta\<close>)
  then show ?thesis using x(2) by (auto simp: find_cart_item_def)
qed

lemma filter_update_by_other:
  assumes "\<And>x. P (f x) = P x" "\<And>x. x \<in> set xs \<Longrightarrow> key x = k \<Longrightarrow> \<not> P x"
  shows "filter P (update_by key k f xs) = filter P xs"
  using assms(2)
proof (induction xs)
  case (Cons a xs)
  have "filter P (update_by key k f xs) = filter P xs" by (rule Cons.IH) (use Cons.prems in simp)
  moreover have "key a = k \<Longrightarrow> \<not> P a" using Cons.prems by simp
  ultimately show ?case by (simp add: assms(1))
qed simp

lemma update_item_quantity_item:
  assumes "carts_ok db" "find_cart cid db = Some c" "find_by ci_productId pid (c_items c) = Some old"
  shows "\<exists>c' i. update_item_quantity cid (ci_id old) q cust now db =
      (Inr (), snd (update_item_quantity cid (ci_id old) q cust now db)) \<and>
    find_cart cid (snd (update_item_quantity cid (ci_id old) q cust now db)) = Some c' \<and>
    find_by ci_productId pid (c_items c') = Some i \<and> ci_quantity i = q \<and>
    ci_total i = db_decimal (ci_price old * of_int q - ci_discount old) \<and> ci_price i = ci_price old \<and>
    filter (\<lambda>x. ci_productId x \<noteq> pid) (c_items c') = filter (\<lambda>x. ci_productId x \<noteq> pid) (c_items c)"
proof -
  have c: "c \<in> set (carts db)" using assms(2) by (auto simp: find_cart_def dest: find_by_SomeD)
  have old: "old \<in> set (c_items c)" "ci_productId old = pid" using find_by_SomeD [OF assms(3)] by auto
  have ids: "distinct (map ci_id (all_items db))" using assms(1) by (simp add: carts_ok_def)
  have "old \<in> set (all_items db)" using c old(1) by (auto simp: all_items_def)
  then have item: "\<exists>c0. find_cart_item (ci_id old) db = Some (c0, old)"
    by (rule find_cart_item_unique [OF ids])
  let ?f = "\<lambda>x. x\<lparr>ci_quantity := q, ci_subtotal := db_decimal (ci_price old * of_int q),
      ci_total := db_decimal (ci_price old * of_int q - ci_discount old),
      ci_customization := (if cust = None then ci_customization x else cust)\<rparr>"
  have found: "find_by ci_productId pid (update_by ci_id (ci_id old) ?f (c_items c)) = Some (?f old)"
  proof -
    have "find_by ci_productId pid (update_by ci_id (ci_id old) ?f (c_items c)) =
        map_option (\<lambda>r. if ci_id r = ci_id old then ?f r else r) (find_by ci_productId pid (c_items c))"
      unfolding update_by_def by (rule find_by_update_where) simp
    with assms(3) show ?thesis by simp
  qed
  have "x = old" if "x \<in> set (c_items c)" "ci_id x = ci_id old" for x
  proof -
    have "x \<in> set (all_items db)" "old \<in> set (all_items db)" using c old(1) that(1) by (auto simp: all_items_def)
    then show ?thesis using ids that(2) by (auto simp: distinct_map inj_on_def)
  qed
  then have others: "filter (\<lambda>x. ci_productId x \<noteq> pid) (update_by ci_id (ci_id old) ?f (c_items c)) = filter (\<lambda>x. ci_productId x \<noteq> pid) (c_items c)"
    using old(2) by (intro filter_update_by_other) auto
  let ?db = "update_cart_item (ci_id old) ?f db"
  have fc: "find_cart cid ?db = Some (c\<lparr>c_items := update_by ci_id (ci_id old) ?f (c_items c)\<rparr>)"
    using assms(2) by (simp add: find_cart_update_item)
  obtain c0 where "find_cart_item (ci_id old) db = Some (c0, old)" using item by blast
  then have u: "update_item_quantity cid (ci_id old) q cust now db = calculate_totals cid None None now ?db"
    by (simp add: update_item_quantity_def Let_def)
  from calculate_totals_ok [OF fc, of None None now] show ?thesis
    unfolding u by (auto simp: found others)
qed

subsection \<open>Heads of carts\<close>

text \<open>What finds a cart: id, owner and status. Item and total updates leave it alone.\<close>

definition heads :: "shop \<Rightarrow> (string \<times> string option \<times> string option \<times> cart_status) list" where
  "heads db = map (\<lambda>c. (c_id c, c_userId c, c_sessionId c, c_status c)) (carts db)"

lemma heads_update_item [simp]: "heads (update_cart_item iid f db) = heads db"
  by (simp add: heads_def update_cart_item_def comp_def)

lemma heads_update_row:
  "(\<And>x. c_id (f x) = c_id x \<and> c_userId (f x) = c_userId x \<and> c_sessionId (f x) = c_sessionId x \<and> c_status (f x) = c_status x) \<Longrightarrow>
   heads (update_cart_row cid f db) = heads db"
  by (simp add: heads_def update_cart_row_def update_by_def update_where_def)

lemma heads_calculate [simp]: "heads (snd (calculate_totals cid addr meth now db)) = heads db"
  by (simp add: calculate_totals_def Let_def heads_update_row split: option.split)

lemma heads_merge_items [simp]: "heads (fold (merge_item ucid) gs db) = heads db"
proof (induction gs arbitrary: db)
  case (Cons g gs)
  have "heads (merge_item ucid g db) = heads db"
    by (cases g) (auto simp: merge_item_def insert_item_def Let_def heads_update_row split: option.split)
  with Cons show ?case by simp
qed simp

lemma heads_mark_merged:
  "heads (mark_merged cid now db) = map (\<lambda>(i, u, s, st). (i, u, s, if i = cid then C_MERGED else st)) (heads db)"
  by (auto simp: heads_def mark_merged_def update_cart_row_def update_by_def update_where_def)

lemma find_first_active_heads:
  "find_first_active uid sid db = None \<longleftrightarrow>
    (\<forall>(i, u, s, st) \<in> set (heads db). \<not> ((if truthy_str uid then u = uid else s = sid) \<and> st = C_ACTIVE))"
  by (auto simp: find_first_active_def is_active_of_def find_None_iff heads_def)

lemma users_merge_items [simp]: "users (fold (merge_item ucid) gs db) = users db"
proof (induction gs arbitrary: db)
  case (Cons g gs)
  have "users (merge_item ucid g db) = users db"
    by (cases g) (auto simp: merge_item_def insert_item_def Let_def split: option.split)
  with Cons show ?case by simp
qed simp

lemma users_calculate [simp]: "users (snd (calculate_totals cid addr meth now db)) = users db"
  by (simp add: calculate_totals_def Let_def split: option.split)

lemma find_append: "List.find P (xs @ ys) = (case List.find P xs of None \<Rightarrow> List.find P ys | Some x \<Rightarrow> Some x)"
  by (induction xs) auto

lemma find_first_active_inserted:
  assumes "find_first_active uid sid db = None" "insert_cart (new_cart cid uid sid now) db = (Inr c, db')"
  shows "find_first_active uid sid db' = Some c"
proof -
  have "is_active_of uid sid (new_cart cid uid sid now)" by (simp add: is_active_of_def new_cart_def)
  moreover have "c = new_cart cid uid sid now" "carts db' = carts db @ [c]"
    using assms(2) by (auto simp: insert_cart_def split: if_splits)
  ultimately show ?thesis using assms(1) by (simp add: find_first_active_def find_append)
qed

lemma get_or_create_miss:
  assumes "cart_cache_get uid sid now rs = None" "truthy_str uid \<or> truthy_str sid"
  shows "get_or_create_cart cid uid sid now (db, rs) =
    (case (case find_first_active uid sid db of Some c \<Rightarrow> (Inr c, db)
        | None \<Rightarrow> insert_cart (new_cart cid uid sid now) db) of
       (Inl e, db') \<Rightarrow> (Inl e, (db', rs))
     | (Inr c, db') \<Rightarrow> (Inr (format_cart_response c), (db', cart_cache_set (format_cart_response c) uid sid now rs)))"
  unfolding get_or_create_cart_def fst_conv snd_conv Let_def using assms by auto

lemma calculate_totals_amounts:
  assumes "find_cart cid db = Some c" "list_all (\<lambda>i. cents (ci_total i)) (c_items c)" "cents (c_discount c)"
  shows "\<exists>c' db'. calculate_totals cid addr meth now db = (Inr (), db') \<and> find_cart cid db' = Some c' \<and>
    c_total c' = c_subtotal c' + c_tax c' + c_shipping c' - c_discount c' \<and>
    c_subtotal c' = sum_list (map ci_total (c_items c')) \<and>
    c_tax c' = to_decimal_places2 (c_subtotal c' * (case addr of None \<Rightarrow> 12 / 100 | Some a \<Rightarrow> get_tax_rate (a_region a))) \<and>
    c_shipping c' = (case addr of None \<Rightarrow> 0
      | Some a \<Rightarrow> calculate_shipping (cart_weight db (c_items c)) a (case meth of None \<Rightarrow> STANDARD | Some m \<Rightarrow> m)) \<and>
    c_items c' = c_items c \<and> c_discount c' = c_discount c"
proof -
  have sub: "cents (sum_list (map ci_total (c_items c)))" by (rule cents_sum [OF assms(2)])
  have ship: "cents (case addr of None \<Rightarrow> 0
      | Some a \<Rightarrow> calculate_shipping (cart_weight db (c_items c)) a (case meth of None \<Rightarrow> STANDARD | Some m \<Rightarrow> m))"
    by (simp add: calculate_shipping_def Let_def split: option.split)
  from sub ship assms show ?thesis by (simp add: calculate_totals_def Let_def find_cart_update)
qed

subsection \<open>Properties\<close>

text \<open>Recomputing a cart makes its amounts agree: the subtotal is the sum of the line totals,
  the tax its 12 or 10 per cent rounded to a cent, shipping what the rate table says or nothing
  without an address, and the total their sum less the discount; lines and discount are kept.\<close>

theorem cart_totals_equation:
  assumes "find_cart cid db = Some c" "list_all (\<lambda>i. cents (ci_total i)) (c_items c)" "cents (c_discount c)"
  shows "\<exists>c' db'. calculate_totals cid addr meth now db = (Inr (), db') \<and> find_cart cid db' = Some c' \<and>
    c_total c' = c_subtotal c' + c_tax c' + c_shipping c' - c_discount c' \<and>
    c_subtotal c' = sum_list (map ci_total (c_items c')) \<and>
    c_tax c' = to_decimal_places2 (c_subtotal c' * (case addr of None \<Rightarrow> 12 / 100 | Some a \<Rightarrow> get_tax_rate (a_region a))) \<and>
    c_shipping c' = (case addr of None \<Rightarrow> 0
      | Some a \<Rightarrow> calculate_shipping (cart_weight db (c_items c)) a (case meth of None \<Rightarrow> STANDARD | Some m \<Rightarrow> m)) \<and>
    c_items c' = c_items c \<and> c_discount c' = c_discount c"
  using calculate_totals_amounts [OF assms] .

lemma cart_totals_equation_witness:
  "\<exists>c' db'. calculate_totals ''c1'' None None 1 ((demo_shop 5)\<lparr>carts := [demo_cart 2]\<rparr>) = (Inr (), db') \<and>
    find_cart ''c1'' db' = Some c' \<and> c_total c' = c_subtotal c' + c_tax c' + c_shipping c' - c_discount c'"
proof -
  have "cents (20 :: rat)" using cents_int [of 20] by simp
  then show ?thesis
    using cart_totals_equation [of "''c1''" "(demo_shop 5)\<lparr>carts := [demo_cart 2]\<rparr>" "demo_cart 2" None None 1]
    by (auto simp: find_cart_def demo_cart_def demo_item_def)
qed

lemma add_item_core_no_cart:
  "find_cart cid db = None \<Longrightarrow> add_item_core cid iid dto now db = (r, db') \<Longrightarrow> isl r \<and> db' = db"
  by (auto simp: add_item_core_def insert_item_def split: option.splits if_splits)

lemma add_item_core_limits:
  assumes "carts_ok db" "find_cart cid db = Some c" "add_item_core cid iid dto now db = (r, db')"
  shows "case r of
      Inl _ \<Rightarrow> db' = db
    | Inr _ \<Rightarrow> (\<exists>c' i p. find_cart cid db' = Some c' \<and> find_by ci_productId (ad_productId dto) (c_items c') = Some i \<and>
        find_product (ad_productId dto) db = Some p \<and> p_isActive p \<and>
        ci_quantity i = ad_quantity dto + (case find_by ci_productId (ad_productId dto) (c_items c) of
          None \<Rightarrow> 0 | Some old \<Rightarrow> ci_quantity old) \<and>
        ci_quantity i \<le> p_stock p \<and> ci_quantity i \<le> max_qty p \<and>
        filter (\<lambda>x. ci_productId x \<noteq> ad_productId dto) (c_items c') = filter (\<lambda>x. ci_productId x \<noteq> ad_productId dto) (c_items c))"
proof (cases "find_by ci_productId (ad_productId dto) (c_items c)")
  case None
  have "\<exists>p. find_product (ad_productId dto) db = Some p \<Longrightarrow> p_id (the (find_product (ad_productId dto) db)) = ad_productId dto"
    by (auto simp: find_product_def dest: find_by_SomeD)
  with None assms show ?thesis
    by (auto simp: add_item_core_def insert_item_def new_item_def find_cart_update split: option.splits if_splits)
next
  case (Some old)
  note upd = update_item_quantity_item [OF assms(1,2) Some, of "ci_quantity old + ad_quantity dto" None now]
  from assms Some upd show ?thesis
    by (auto simp: add_item_core_def Let_def split: option.splits if_splits)
qed

lemma add_item_core_refused:
  assumes "carts_ok db" "add_item_core cid iid dto now db = (Inl e, db')"
  shows "db' = db"
proof (cases "find_cart cid db")
  case (Some c)
  from add_item_core_limits [OF assms(1) this assms(2)] show ?thesis by simp
qed (use add_item_core_no_cart [OF _ assms(2)] in simp)

lemma one_line:
  assumes "distinct (map key xs)" "find_by key k xs = Some i"
  shows "filter (\<lambda>x. key x = k) xs = [i]"
  using assms by (induction xs) (auto simp: filter_empty_conv rev_image_eqI split: if_splits)

lemma get_or_create_db:
  "fst (snd (get_or_create_cart cid uid sid now w)) = fst w \<or>
   fst (snd (get_or_create_cart cid uid sid now w)) = (fst w)\<lparr>carts := carts (fst w) @ [new_cart cid uid sid now]\<rparr>"
  by (auto simp: get_or_create_cart_def insert_cart_def Let_def split: option.split prod.split sum.split)

lemma get_or_create_known_user:
  assumes "get_or_create_cart cid uid sid now w = (Inl e, w')" "truthy_str uid \<or> truthy_str sid"
  shows "\<exists>u. uid = Some u \<and> find_by u_id u (users (fst w)) = None"
  using assms by (auto simp: get_or_create_cart_def insert_cart_def new_cart_def Let_def split: option.splits prod.splits sum.splits if_splits)

lemma users_core [simp]: "users (snd (add_item_core cid iid dto now db)) = users db"
  by (simp add: add_item_core_def Let_def insert_item_def update_item_quantity_def split: option.split)

text \<open>What \<open>addItem\<close> does, in its four outcomes.\<close>

lemma add_item_cases:
  assumes "add_item (c1, c2) iid uid sid dto now w = (r, w')"
  obtains (no_cart) e where "r = Inl e" "get_or_create_cart c1 uid sid now w = (Inl e, w')"
  | (refused) cart w1 e where "get_or_create_cart c1 uid sid now w = (Inr cart, w1)"
      "add_item_core (c_id (cr_cart cart)) iid dto now (fst w1) = (Inl e, fst w')" "r = Inl e" "snd w' = snd w1"
  | (no_totals) cart w1 db e where "get_or_create_cart c1 uid sid now w = (Inr cart, w1)"
      "add_item_core (c_id (cr_cart cart)) iid dto now (fst w1) = (Inr (), db)"
      "calculate_totals (c_id (cr_cart cart)) None None now db = (Inl e, fst w')"
  | (added) cart w1 db db2 where "get_or_create_cart c1 uid sid now w = (Inr cart, w1)"
      "add_item_core (c_id (cr_cart cart)) iid dto now (fst w1) = (Inr (), db)"
      "calculate_totals (c_id (cr_cart cart)) None None now db = (Inr (), db2)"
      "get_or_create_cart c2 uid sid now (db2, cart_cache_invalidate uid sid now (snd w1)) = (r, w')"
  using assms that by (cases w') (auto simp: add_item_def and_then_def Let_def split: prod.splits sum.splits)

text \<open>C38. Adding to a cart (\<open>addItem\<close>, for a guest or an existing account) respects the limits. After a success the
  cart that \<open>getOrCreateCart\<close> gave has exactly one line of the product, with the quantity the line had plus the new,
  which exceeds neither the stock nor the product's cart limit, of an active product, and its other lines are as before. A
  refused addition leaves what \<open>getOrCreateCart\<close> leaves: the tables as they were, or with one new empty cart.\<close>

theorem add_to_cart_limits:
  assumes "carts_ok (fst w)" "fresh_cart c1 (fst w)" "fresh_cart c2 (fst w)" "c1 \<noteq> c2" "fresh_item iid (fst w)"
    and "\<forall>u. uid = Some u \<longrightarrow> find_by u_id u (users (fst w)) \<noteq> None"
    and "add_item (c1, c2) iid uid sid dto now w = (r, w')"
  shows "case r of
      Inl _ \<Rightarrow> w' = snd (get_or_create_cart c1 uid sid now w) \<and>
        (fst w' = fst w \<or> fst w' = (fst w)\<lparr>carts := carts (fst w) @ [new_cart c1 uid sid now]\<rparr>)
    | Inr _ \<Rightarrow> (\<exists>cart w1 c c' i p. get_or_create_cart c1 uid sid now w = (Inr cart, w1) \<and>
        find_cart (c_id (cr_cart cart)) (fst w1) = Some c \<and> find_cart (c_id (cr_cart cart)) (fst w') = Some c' \<and>
        filter (\<lambda>x. ci_productId x = ad_productId dto) (c_items c') = [i] \<and>
        filter (\<lambda>x. ci_productId x \<noteq> ad_productId dto) (c_items c') = filter (\<lambda>x. ci_productId x \<noteq> ad_productId dto) (c_items c) \<and>
        find_product (ad_productId dto) (fst w) = Some p \<and> p_isActive p \<and>
        ci_quantity i = ad_quantity dto + (case find_by ci_productId (ad_productId dto) (c_items c) of
          None \<Rightarrow> 0 | Some old \<Rightarrow> ci_quantity old) \<and>
        ci_quantity i \<le> p_stock p \<and> ci_quantity i \<le> max_qty p)"
  using assms(7)
proof (cases rule: add_item_cases)
  case (no_cart e)
  with get_or_create_db [of c1 uid sid now w] show ?thesis by simp
next
  case (refused cart w1 e)
  have "carts_ok (fst w1)" using carts_ok_get_or_create [OF assms(1,2), of uid sid now] refused(1) by simp
  from add_item_core_refused [OF this refused(2)] have "w' = w1" using refused(4) by (simp add: prod_eq_iff)
  with get_or_create_db [of c1 uid sid now w] refused(1,3) show ?thesis by simp
next
  case (no_totals cart w1 db e)
  have ok1: "carts_ok (fst w1)" using carts_ok_get_or_create [OF assms(1,2), of uid sid now] no_totals(1) by simp
  obtain c where "find_cart (c_id (cr_cart cart)) (fst w1) = Some c" using add_item_core_no_cart [OF _ no_totals(2)] by fastforce
  from add_item_core_limits [OF ok1 this no_totals(2)] obtain c' where "find_cart (c_id (cr_cart cart)) db = Some c'" by auto
  from calculate_totals_ok [OF this, of None None now] no_totals(3) show ?thesis by auto
next
  case (added cart w1 db db2)
  let ?cid = "c_id (cr_cart cart)"
  have w1: "fst w1 = fst w \<or> fst w1 = (fst w)\<lparr>carts := carts (fst w) @ [new_cart c1 uid sid now]\<rparr>"
    using get_or_create_db [of c1 uid sid now w] added(1) by simp
  have ok1: "carts_ok (fst w1)" using carts_ok_get_or_create [OF assms(1,2), of uid sid now] added(1) by simp
  have ok: "carts_ok (fst w')" using carts_ok_add_item [OF assms(1-5), of uid sid dto now] assms(7) by simp
  obtain c where c: "find_cart ?cid (fst w1) = Some c" using add_item_core_no_cart [OF _ added(2)] by fastforce
  from add_item_core_limits [OF ok1 c added(2)] obtain c1' i p where core: "find_cart ?cid db = Some c1'"
    "find_by ci_productId (ad_productId dto) (c_items c1') = Some i" "find_product (ad_productId dto) (fst w1) = Some p" "p_isActive p"
    "ci_quantity i = ad_quantity dto + (case find_by ci_productId (ad_productId dto) (c_items c) of None \<Rightarrow> 0 | Some old \<Rightarrow> ci_quantity old)"
    "ci_quantity i \<le> p_stock p" "ci_quantity i \<le> max_qty p"
    "filter (\<lambda>x. ci_productId x \<noteq> ad_productId dto) (c_items c1') = filter (\<lambda>x. ci_productId x \<noteq> ad_productId dto) (c_items c)"
    by auto
  from calculate_totals_ok [OF core(1), of None None now] added(3) obtain c' where c': "find_cart ?cid db2 = Some c'" "c_items c' = c_items c1'"
    by auto
  have final: "find_cart ?cid (fst w') = Some c'"
    using get_or_create_db [of c2 uid sid now "(db2, cart_cache_invalidate uid sid now (snd w1))"] added(4) c'(1) by (auto simp: find_cart_def)
  then have "c' \<in> set (carts (fst w'))" by (auto simp: find_cart_def dest: find_by_SomeD)
  then have one: "filter (\<lambda>x. ci_productId x = ad_productId dto) (c_items c') = [i]"
    using ok core(2) by (intro one_line) (auto simp: carts_ok_def c'(2))
  have p: "find_product (ad_productId dto) (fst w) = Some p" using w1 core(3) by (auto simp: find_product_def)
  have "users db2 = users (fst w)"
    using users_core [of ?cid iid dto now "fst w1"] users_calculate [of ?cid None None now db] added(2,3) w1 by auto
  moreover have "truthy_str uid \<or> truthy_str sid" using added(1) by (auto simp: get_or_create_cart_def split: if_splits)
  ultimately have "\<exists>x. r = Inr x"
    using get_or_create_known_user [of c2 uid sid now "(db2, cart_cache_invalidate uid sid now (snd w1))"] added(4) assms(6) by (cases r) auto
  then show ?thesis using added(1) c core final one p c'(2) by auto
qed

lemma add_to_cart_limits_witness:
  "\<exists>r w'. add_item (''c8'', ''c9'') ''i2'' (Some ''u1'') None \<lparr>ad_productId = ''p1'', ad_quantity = 9, ad_customization = None\<rparr> 1
     (demo_shop 5, mem_service) = (r, w') \<and> isl r \<and> all_items (fst w') = []"
proof -
  let ?w = "(demo_shop 5, mem_service)"
  let ?dto = "\<lparr>ad_productId = ''p1'', ad_quantity = 9, ad_customization = None\<rparr>"
  obtain r w' where a: "add_item (''c8'', ''c9'') ''i2'' (Some ''u1'') None ?dto 1 ?w = (r, w')" by (metis surj_pair)
  have "carts_ok (fst ?w)" "fresh_cart ''c8'' (fst ?w)" "fresh_cart ''c9'' (fst ?w)" "''c8'' \<noteq> ''c9''" "fresh_item ''i2'' (fst ?w)"
    "\<forall>u. Some ''u1'' = Some u \<longrightarrow> find_by u_id u (users (fst ?w)) \<noteq> None"
    by (simp_all add: carts_ok_def fresh_cart_def fresh_item_def all_items_def demo_shop_def demo_user_def)
  note t = add_to_cart_limits [OF this a]
  have "isl r"
  proof (rule ccontr)
    assume "\<not> isl r"
    then obtain x where x: "r = Inr x" by (cases r) auto
    from t [unfolded x sum.case] obtain cart w1 c c' i p where g: "get_or_create_cart ''c8'' (Some ''u1'') None 1 ?w = (Inr cart, w1)"
      and c: "find_cart (c_id (cr_cart cart)) (fst w1) = Some c" and p: "find_product (ad_productId ?dto) (fst ?w) = Some p"
        "ci_quantity i = ad_quantity ?dto + (case find_by ci_productId (ad_productId ?dto) (c_items c) of None \<Rightarrow> 0 | Some old \<Rightarrow> ci_quantity old)"
        "ci_quantity (i :: cart_item) \<le> p_stock p"
      by blast
    have "all_items (fst w1) = []" using items_get_or_create [of "''c8''" "Some ''u1''" None 1 ?w] g by (simp add: all_items_def demo_shop_def)
    then have "c_items c = []" using c by (auto simp: all_items_def find_cart_def dest: find_by_SomeD)
    moreover have "p_stock p = 5" using p(1) by (auto simp: find_product_def demo_shop_def demo_product_def split: if_splits)
    ultimately show False using p by simp
  qed
  with t a show ?thesis by (cases r) (auto simp: all_items_def demo_shop_def new_cart_def)
qed

text \<open>Every handler keeps the cart tables well formed when the ids it is given are new: carts
  and items keep unique ids and no cart has two lines of one product.\<close>

theorem carts_invariant:
  assumes "carts_ok (fst w)" "fresh_cart c1 (fst w)" "fresh_cart c2 (fst w)" "c1 \<noteq> c2"
    and "distinct (iid # iids)" "\<forall>i \<in> set (iid # iids). fresh_item i (fst w)"
  shows "carts_ok (fst (snd (get_or_create_cart c1 uid sid now w))) \<and>
    carts_ok (fst (snd (add_item (c1, c2) iid uid sid dto now w))) \<and>
    carts_ok (fst (snd (update_item cid item q cust now w))) \<and>
    carts_ok (fst (snd (remove_item cid item now w))) \<and>
    carts_ok (fst (snd (clear_cart cid now w))) \<and>
    carts_ok (snd (calculate_totals cid addr meth now (fst w))) \<and>
    carts_ok (snd (validate_cart cid (fst w))) \<and>
    carts_ok (fst (snd (merge_guest_cart (c1, c2) iids u s now w)))"
  using assms by (simp add: carts_ok_get_or_create carts_ok_add_item carts_ok_update_item_handler
      carts_ok_remove_item carts_ok_clear_cart carts_ok_calculate_totals carts_ok_validate_cart carts_ok_merge_guest)

lemma carts_invariant_witness:
  "carts_ok (fst (snd (remove_item ''c1'' ''i1'' 1 ((demo_shop 5)\<lparr>carts := [demo_cart 2]\<rparr>, mem_service))))"
proof -
  let ?w = "((demo_shop 5)\<lparr>carts := [demo_cart 2]\<rparr>, mem_service)"
  have "carts_ok (fst ?w)" "fresh_cart ''c8'' (fst ?w)" "fresh_cart ''c9'' (fst ?w)" "''c8'' \<noteq> ''c9''"
    "distinct [''i2'']" "\<forall>i \<in> set [''i2'']. fresh_item i (fst ?w)"
    by (simp_all add: carts_ok_def fresh_cart_def fresh_item_def all_items_def demo_cart_def demo_item_def)
  from carts_invariant [OF this] show ?thesis by blast
qed

text \<open>C34. What adding an item answers is what the database holds: the active cart of the caller,
  which the cache then gives back for 24 hours.\<close>

theorem add_item_coherent:
  assumes "redis_server c view" "redis_server.up c (snd w)" "truthy_str uid \<or> truthy_str sid"
    and "add_item cids iid uid sid dto now w = (Inr r, (db', rs'))" "now \<le> t"
  shows "find_first_active uid sid db' = Some (cr_cart r) \<and> cr_itemCount r = length (c_items (cr_cart r)) \<and>
    cart_cache_get uid sid t rs' = (if t < now + 86400000 then Some r else None)"
proof -
  obtain cart w1 where g: "get_or_create_cart (fst cids) uid sid now w = (Inr cart, w1)"
    and rest: "(case add_item_core (c_id (cr_cart cart)) iid dto now (fst w1) of
        (Inl e, db) \<Rightarrow> (Inl e, (db, snd w1))
      | (Inr _, db) \<Rightarrow> (case calculate_totals (c_id (cr_cart cart)) None None now db of
          (Inl e, db') \<Rightarrow> (Inl e, (db', snd w1))
        | (Inr _, db') \<Rightarrow> get_or_create_cart (snd cids) uid sid now
            (db', cart_cache_invalidate uid sid now (snd w1)))) = (Inr r, (db', rs'))"
    using assms(4) by (auto simp: add_item_def and_then_Inr_iff Let_def)
  then obtain db2 where last: "get_or_create_cart (snd cids) uid sid now
      (db2, cart_cache_invalidate uid sid now (snd w1)) = (Inr r, (db', rs'))"
    by (auto split: prod.splits sum.splits)
  obtain k where k: "cart_cache_key uid sid = Some k"
    using assms(3) by (cases "truthy_str uid") (auto simp: cart_cache_key_def)
  have up1: "redis_server.up c (snd w1)"
    using g assms(2) redis_server.cart_cache_up [OF assms(1)]
    by (auto simp: get_or_create_cart_def Let_def split: if_splits option.splits prod.splits sum.splits)
  let ?rs = "cart_cache_invalidate uid sid now (snd w1)"
  have up2: "redis_server.up c ?rs" by (rule redis_server.cart_cache_up(2) [OF assms(1) up1])
  have miss: "cart_cache_get uid sid now ?rs = None"
    by (simp add: redis_server.cart_cache_get_invalidate [OF assms(1) up1 k] k)
  obtain row where row: "r = format_cart_response row" "rs' = cart_cache_set r uid sid now ?rs"
    "find_first_active uid sid db' = Some row"
  proof (cases "find_first_active uid sid db2")
    case (Some row)
    with last show thesis by (intro that [of row]) (auto simp: get_or_create_miss [OF miss assms(3)])
  next
    case None
    then obtain row where "insert_cart (new_cart (snd cids) uid sid now) db2 = (Inr row, db')"
      "r = format_cart_response row" "rs' = cart_cache_set r uid sid now ?rs"
      using last by (auto simp: get_or_create_miss [OF miss assms(3)] split: prod.splits sum.splits)
    with find_first_active_inserted [OF None] show thesis by (intro that)
  qed
  show ?thesis
    using row redis_server.cart_cache_get_set [OF assms(1) up2 k] k by (simp add: format_cart_response_def)
qed

lemma add_item_steps:
  assumes "get_or_create_cart (fst cids) uid sid now w = (Inr (format_cart_response c), (db, rs))"
    "cart_cache_get uid sid now (cart_cache_invalidate uid sid now rs) = None" "truthy_str uid \<or> truthy_str sid"
    "add_item_core (c_id c) iid dto now db = (Inr (), db1)"
    "calculate_totals (c_id c) None None now db1 = (Inr (), db2)"
    "find_first_active uid sid db2 = Some row"
  shows "add_item cids iid uid sid dto now w = (Inr (format_cart_response row),
    (db2, cart_cache_set (format_cart_response row) uid sid now (cart_cache_invalidate uid sid now rs)))"
proof -
  have r: "cr_cart (format_cart_response c) = c" by (simp add: format_cart_response_def)
  from assms show ?thesis by (simp add: add_item_def r get_or_create_miss)
qed

lemma add_item_coherent_witness:
  "\<exists>r db' rs'. add_item (''c8'', ''c9'') ''i2'' (Some ''u1'') None
      \<lparr>ad_productId = ''p1'', ad_quantity = 2, ad_customization = None\<rparr> 1 (demo_shop 5, mem_service) = (Inr r, (db', rs')) \<and>
    cart_cache_get (Some ''u1'') None 86400000 rs' = Some r"
proof -
  let ?uid = "Some ''u1''"
  let ?dto = "\<lparr>ad_productId = ''p1'', ad_quantity = 2, ad_customization = None\<rparr>"
  let ?c = "new_cart ''c8'' ?uid None 1"
  let ?db = "(demo_shop 5)\<lparr>carts := [?c]\<rparr>"
  let ?db' = "(demo_shop 5)\<lparr>carts := [?c\<lparr>c_items := [new_item ''i2'' (demo_product 5) 2 None]\<rparr>]\<rparr>"
  have t: "truthy_str ?uid \<or> truthy_str None" by (simp add: truthy_str_def)
  obtain k where k: "cart_cache_key ?uid None = Some k" by (simp add: cart_cache_key_def truthy_str_def)
  have m: "cart_cache_get ?uid None 1 mem_service = None"
    by (simp add: cart_cache_get_def k mem.get_up)
  have g: "get_or_create_cart ''c8'' ?uid None 1 (demo_shop 5, mem_service) =
      (Inr (format_cart_response ?c), (?db, cart_cache_set (format_cart_response ?c) ?uid None 1 mem_service))"
  proof -
    have "find_first_active ?uid None (demo_shop 5) = None" by (simp add: find_first_active_def demo_shop_def)
    moreover have "insert_cart ?c (demo_shop 5) = (Inr ?c, ?db)"
      by (simp add: insert_cart_def new_cart_def demo_shop_def demo_user_def)
    ultimately show ?thesis by (simp add: get_or_create_miss [OF m t])
  qed
  have core: "add_item_core ''c8'' ''i2'' ?dto 1 ?db = (Inr (), ?db')"
    by (simp add: add_item_core_def find_product_def insert_item_def find_cart_def update_cart_row_def max_qty_def
        num_or_def demo_shop_def demo_product_def new_cart_def new_item_def)
  have fc: "find_cart ''c8'' ?db' = Some (?c\<lparr>c_items := [new_item ''i2'' (demo_product 5) 2 None]\<rparr>)"
    by (simp add: find_cart_def new_cart_def)
  define db2 where "db2 = snd (calculate_totals ''c8'' None None 1 ?db')"
  have tot: "calculate_totals ''c8'' None None 1 ?db' = (Inr (), db2)"
    unfolding db2_def using calculate_totals_ok [OF fc] by (metis prod.collapse prod.inject)
  have hd2: "heads db2 = heads ?db'" by (simp add: db2_def heads_calculate)
  let ?rs1 = "cart_cache_set (format_cart_response ?c) ?uid None 1 mem_service"
  let ?rs2 = "cart_cache_invalidate ?uid None 1 ?rs1"
  have m2: "cart_cache_get ?uid None 1 ?rs2 = None"
    by (simp add: mem.cart_cache_get_invalidate [OF mem.cart_cache_up(1) [OF mem_service_up] k] k)
  have "find_first_active ?uid None db2 \<noteq> None"
    by (simp only: find_first_active_heads hd2) (simp add: heads_def new_cart_def truthy_str_def)
  then obtain row where f2: "find_first_active ?uid None db2 = Some row" by blast
  have c8: "c_id ?c = ''c8''" by (simp add: new_cart_def)
  have a: "add_item (''c8'', ''c9'') ''i2'' ?uid None ?dto 1 (demo_shop 5, mem_service) =
      (Inr (format_cart_response row), (db2, cart_cache_set (format_cart_response row) ?uid None 1 ?rs2))"
    using add_item_steps [where cids = "(''c8'', ''c9'')" and w = "(demo_shop 5, mem_service)" and c = ?c
        and iid = "''i2''" and dto = ?dto, unfolded fst_conv snd_conv c8, OF g m2 t core tot f2] .
  show ?thesis
    using add_item_coherent [OF mem.redis_server_axioms _ t, of "(demo_shop 5, mem_service)"] a by auto
qed

end
