(* ===== verification/Orders.thy ===== *)
theory Orders
  imports Shop_Data "HOL-Library.Char_ord" "HOL-Library.List_Lexorder"
begin

section \<open>Orders\<close>

text \<open>
  \<open>modules/orders/orders.service.ts\<close>, over the tables of \<open>Shop_Data\<close>. Every handler takes the
  database and gives its result and the database after it; ids of new rows, the random order
  number and the time are arguments. The lookup and the write of an order's creation are two
  definitions, since other handlers run between them. Tracing spans and metrics are left out.
\<close>

subsection \<open>Status transitions\<close>

fun valid_transitions :: "order_status \<Rightarrow> order_status list" where
  "valid_transitions O_PENDING = [O_CONFIRMED, O_CANCELLED]"
| "valid_transitions O_CONFIRMED = [O_PROCESSING, O_CANCELLED]"
| "valid_transitions O_PROCESSING = [O_SHIPPED, O_CANCELLED]"
| "valid_transitions O_SHIPPED = [O_DELIVERED]"
| "valid_transitions O_DELIVERED = [O_REFUNDED]"
| "valid_transitions O_CANCELLED = []"
| "valid_transitions O_REFUNDED = []"

definition is_valid_status_transition :: "order_status \<Rightarrow> order_status \<Rightarrow> bool" where
  "is_valid_status_transition cur new = (new \<in> set (valid_transitions cur))"

fun order_rank :: "order_status \<Rightarrow> nat" where
  "order_rank O_PENDING = 0"
| "order_rank O_CONFIRMED = 1"
| "order_rank O_PROCESSING = 2"
| "order_rank O_SHIPPED = 3"
| "order_rank O_DELIVERED = 4"
| "order_rank O_CANCELLED = 5"
| "order_rank O_REFUNDED = 5"

fun status_name :: "order_status \<Rightarrow> string" where
  "status_name O_PENDING = ''PENDING''"
| "status_name O_CONFIRMED = ''CONFIRMED''"
| "status_name O_PROCESSING = ''PROCESSING''"
| "status_name O_SHIPPED = ''SHIPPED''"
| "status_name O_DELIVERED = ''DELIVERED''"
| "status_name O_CANCELLED = ''CANCELLED''"
| "status_name O_REFUNDED = ''REFUNDED''"

interpretation order_table: status_table is_valid_status_transition order_rank 5
proof
  fix s t
  show "order_rank s \<le> 5" by (cases s) simp_all
  assume "is_valid_status_transition s t"
  then show "order_rank s < order_rank t"
    by (cases s) (auto simp: is_valid_status_transition_def)
qed

text \<open>The moves of the table and those of \<open>cancel\<close>, which has conditions of its own.\<close>

definition order_move :: "order_status \<Rightarrow> order_status \<Rightarrow> bool" where
  "order_move s t \<longleftrightarrow> is_valid_status_transition s t \<or> t = O_CANCELLED \<and> s \<notin> {O_SHIPPED, O_DELIVERED, O_CANCELLED}"

fun move_rank :: "order_status \<Rightarrow> nat" where
  "move_rank O_CANCELLED = 6"
| "move_rank s = order_rank s"

interpretation order_moves: status_table order_move move_rank 6
proof
  fix s t
  show "move_rank s \<le> 6" by (cases s) simp_all
  assume "order_move s t"
  then show "move_rank s < move_rank t"
    by (cases s; cases t) (auto simp: order_move_def is_valid_status_transition_def)
qed

subsection \<open>Requests\<close>

record line_dto =
  l_productId :: string
  l_quantity :: int
  l_price :: rat

record create_order_dto =
  d_userId :: string
  d_items :: "line_dto list"
  d_shippingAddress :: json
  d_billingAddress :: "json option"
  d_paymentMethod :: payment_method
  d_notes :: "string option"
  d_shipping :: "rat option"
  d_tax :: "rat option"
  d_discount :: "rat option"

text \<open>The ids and random values a creation draws.\<close>

record fresh_ids =
  f_orderId :: string
  f_paymentId :: string
  f_orderNumber :: string

text \<open>A row with the relations the handlers include.\<close>

record order_view =
  v_order :: order_row
  v_user :: "user_row option"
  v_products :: "product_row option list"

definition order_view_of :: "shop \<Rightarrow> order_row \<Rightarrow> order_view" where
  "order_view_of db ord = \<lparr>v_order = ord, v_user = find_by u_id (o_userId ord) (users db),
     v_products = map (\<lambda>i. find_product (oi_productId i) db) (o_items ord)\<rparr>"

subsection \<open>Creation\<close>

text \<open>Lines 105-134: permission, the batch look-up, the check of every line.\<close>

fun check_lines :: "shop \<Rightarrow> line_dto list \<Rightarrow> unit res" where
  "check_lines db [] = Inr ()"
| "check_lines db (i # is) =
     (case find_product (l_productId i) db of
        None \<Rightarrow> Inl (BadRequest (''Product '' @ l_productId i @ '' not found''))
      | Some p \<Rightarrow>
          if p_stock p < l_quantity i
          then Inl (BadRequest (''Insufficient stock for product '' @ p_name p))
          else check_lines db is)"

definition create_order_check :: "create_order_dto \<Rightarrow> current_user \<Rightarrow> shop \<Rightarrow> unit res" where
  "create_order_check dto user db =
     (if d_userId dto \<noteq> cu_id user \<and> \<not> is_admin user
      then Inl (Forbidden ''You can only create orders for yourself'')
      else check_lines db (d_items dto))"

definition dto_subtotal :: "create_order_dto \<Rightarrow> rat" where
  "dto_subtotal dto = fold (\<lambda>i s. s + l_price i * of_int (l_quantity i)) (d_items dto) 0"

definition dto_total :: "create_order_dto \<Rightarrow> rat" where
  "dto_total dto = dto_subtotal dto + num_or (d_shipping dto) 0 + num_or (d_tax dto) 0 - num_or (d_discount dto) 0"

definition new_order :: "fresh_ids \<Rightarrow> ms \<Rightarrow> create_order_dto \<Rightarrow> order_row" where
  "new_order ids now dto =
     \<lparr>o_id = f_orderId ids, o_number = f_orderNumber ids, o_userId = d_userId dto, o_status = O_PENDING,
      o_subtotal = db_decimal (dto_subtotal dto), o_tax = db_decimal (num_or (d_tax dto) 0),
      o_shipping = db_decimal (num_or (d_shipping dto) 0), o_discount = db_decimal (num_or (d_discount dto) 0),
      o_total = db_decimal (dto_total dto), o_notes = d_notes dto,
      o_shippingAddress = d_shippingAddress dto,
      o_billingAddress = (case d_billingAddress dto of None \<Rightarrow> d_shippingAddress dto
        | Some a \<Rightarrow> if json_truthy a then a else d_shippingAddress dto),
      o_trackingNumber = None, o_shippedAt = None, o_deliveredAt = None, o_cancelledAt = None,
      o_createdAt = now, o_updatedAt = now,
      o_items = map (\<lambda>i. \<lparr>oi_productId = l_productId i, oi_quantity = l_quantity i,
        oi_price = db_decimal (l_price i), oi_total = db_decimal (l_price i * of_int (l_quantity i))\<rparr>) (d_items dto),
      o_payments = [\<lparr>pay_id = f_paymentId ids, pay_userId = d_userId dto, pay_amount = db_decimal (dto_total dto),
        pay_method = d_paymentMethod dto, pay_status = PAY_PENDING, pay_processedAt = None\<rparr>]\<rparr>"

text \<open>The insertion of an order: foreign keys and the unique columns, then the row.\<close>

definition insert_order :: "order_row \<Rightarrow> shop \<Rightarrow> order_row res \<times> shop" where
  "insert_order ord db =
     (if find_by u_id (o_userId ord) (users db) = None \<or>
         \<not> list_all (\<lambda>i. find_product (oi_productId i) db \<noteq> None) (o_items ord)
      then (Inl (InternalError ''P2003 foreign key''), db)
      else if find_order (o_id ord) db \<noteq> None \<or> list_ex (\<lambda>o'. o_number o' = o_number ord) (orders db)
      then (Inl (InternalError ''P2002 unique''), db)
      else (Inr ord, db\<lparr>orders := orders db @ [ord]\<rparr>))"

definition dto_lines :: "create_order_dto \<Rightarrow> (string \<times> int) list" where
  "dto_lines dto = map (\<lambda>i. (l_productId i, l_quantity i)) (d_items dto)"

text \<open>Lines 137-212: the order is created, then one transaction takes the stock of every line; a
  product that is gone fails the transaction as a whole.\<close>

definition create_order_commit ::
  "fresh_ids \<Rightarrow> ms \<Rightarrow> create_order_dto \<Rightarrow> shop \<Rightarrow> order_row res \<times> shop" where
  "create_order_commit ids now dto db =
     (case insert_order (new_order ids now dto) db of
        (Inl e, db') \<Rightarrow> (Inl e, db')
      | (Inr ord, db') \<Rightarrow>
          if list_all (\<lambda>(k, n). find_product k db' \<noteq> None) (dto_lines dto)
          then (Inr ord, move_stock (- 1) (dto_lines dto) db')
          else (Inl (InternalError ''P2025 record not found''), db'))"

definition create_order ::
  "fresh_ids \<Rightarrow> ms \<Rightarrow> create_order_dto \<Rightarrow> current_user \<Rightarrow> shop \<Rightarrow> order_row res \<times> shop" where
  "create_order ids now dto user db =
     (case create_order_check dto user db of
        Inl e \<Rightarrow> (Inl e, db)
      | Inr _ \<Rightarrow> create_order_commit ids now dto db)"

subsection \<open>Listing\<close>

record order_query =
  q_page :: "int option"
  q_limit :: "int option"
  q_status :: "order_status option"
  q_search :: "string option"
  q_sortBy :: "string option"
  q_ascending :: "bool option"

record 'r page =
  pg_data :: "'r list"
  pg_total :: int
  pg_page :: int
  pg_limit :: int
  pg_totalPages :: int

text \<open>\<open>orderBy: { [sortBy]: sortOrder }\<close>: the column must exist; NULL sorts after every value.\<close>

fun le_opt :: "'a::linorder option \<Rightarrow> 'a option \<Rightarrow> bool" where
  "le_opt (Some a) (Some b) = (a \<le> b)"
| "le_opt (Some a) None = True"
| "le_opt None (Some b) = False"
| "le_opt None None = True"

fun status_position :: "order_status \<Rightarrow> nat" where
  "status_position O_PENDING = 0"
| "status_position O_CONFIRMED = 1"
| "status_position O_PROCESSING = 2"
| "status_position O_SHIPPED = 3"
| "status_position O_DELIVERED = 4"
| "status_position O_CANCELLED = 5"
| "status_position O_REFUNDED = 6"

definition by_column :: "(order_row \<Rightarrow> 'a::linorder option) \<Rightarrow> order_row \<Rightarrow> order_row \<Rightarrow> bool" where
  "by_column f a b = le_opt (f a) (f b)"

definition order_columns :: "(string \<times> (order_row \<Rightarrow> order_row \<Rightarrow> bool)) list" where
  "order_columns =
     [(''id'', by_column (\<lambda>x. Some (o_id x))), (''orderNumber'', by_column (\<lambda>x. Some (o_number x))),
      (''userId'', by_column (\<lambda>x. Some (o_userId x))), (''status'', by_column (\<lambda>x. Some (status_position (o_status x)))),
      (''subtotal'', by_column (\<lambda>x. Some (o_subtotal x))), (''tax'', by_column (\<lambda>x. Some (o_tax x))),
      (''shipping'', by_column (\<lambda>x. Some (o_shipping x))), (''discount'', by_column (\<lambda>x. Some (o_discount x))),
      (''total'', by_column (\<lambda>x. Some (o_total x))), (''notes'', by_column o_notes),
      (''trackingNumber'', by_column o_trackingNumber), (''shippedAt'', by_column o_shippedAt),
      (''deliveredAt'', by_column o_deliveredAt), (''cancelledAt'', by_column o_cancelledAt),
      (''createdAt'', by_column (\<lambda>x. Some (o_createdAt x))), (''updatedAt'', by_column (\<lambda>x. Some (o_updatedAt x)))]"

definition contains_ci :: "string \<Rightarrow> string \<Rightarrow> bool" where
  "contains_ci s pat = str_includes (to_lower s) (to_lower pat)"

definition list_orders :: "order_query \<Rightarrow> (order_row \<Rightarrow> bool) \<Rightarrow> shop \<Rightarrow> order_view page res" where
  "list_orders q wh db =
     (let page = (case q_page q of None \<Rightarrow> 1 | Some n \<Rightarrow> n);
          lmt = (case q_limit q of None \<Rightarrow> 10 | Some n \<Rightarrow> n);
          col = (case q_sortBy q of None \<Rightarrow> ''createdAt'' | Some c \<Rightarrow> c);
          asc = (case q_ascending q of None \<Rightarrow> False | Some b \<Rightarrow> b)
      in case map_of order_columns col of
           None \<Rightarrow> Inl (InternalError ''PrismaClientValidationError'')
         | Some le \<Rightarrow>
             (let rows = filter wh (orders db);
                  sorted = sort_by (if asc then le else (\<lambda>x y. le y x)) rows
              in Inr \<lparr>pg_data = map (order_view_of db) (page_rows page lmt sorted),
                   pg_total = int (length rows), pg_page = page, pg_limit = lmt,
                   pg_totalPages = total_pages (int (length rows)) lmt\<rparr>))"

definition order_matches :: "order_query \<Rightarrow> shop \<Rightarrow> order_row \<Rightarrow> bool" where
  "order_matches q db x =
     ((case q_status q of None \<Rightarrow> True | Some s \<Rightarrow> o_status x = s) \<and>
      (truthy_str (q_search q) \<longrightarrow>
         contains_ci (o_number x) (the (q_search q)) \<or>
         (case find_by u_id (o_userId x) (users db) of
            None \<Rightarrow> False | Some u \<Rightarrow> contains_ci (u_email u) (the (q_search q)))))"

definition find_all_orders :: "order_query \<Rightarrow> shop \<Rightarrow> order_view page res" where
  "find_all_orders q db = list_orders q (order_matches q db) db"

definition get_user_orders :: "string \<Rightarrow> order_query \<Rightarrow> current_user \<Rightarrow> shop \<Rightarrow> order_view page res" where
  "get_user_orders userId q user db =
     (if userId \<noteq> cu_id user \<and> \<not> is_admin user then Inl (Forbidden ''You can only view your own orders'')
      else list_orders q
        (\<lambda>x. o_userId x = userId \<and> (case q_status q of None \<Rightarrow> True | Some s \<Rightarrow> o_status x = s)) db)"

subsection \<open>Single orders\<close>

text \<open>The look-up and permission check that open most handlers.\<close>

definition own_order :: "string \<Rightarrow> string \<Rightarrow> current_user \<Rightarrow> shop \<Rightarrow> order_row res" where
  "own_order msg oid user db =
     (case find_order oid db of
        None \<Rightarrow> Inl (NotFound ''Order not found'')
      | Some ord \<Rightarrow>
          if o_userId ord \<noteq> cu_id user \<and> \<not> is_admin user then Inl (Forbidden msg) else Inr ord)"

definition find_one_order :: "string \<Rightarrow> current_user \<Rightarrow> shop \<Rightarrow> order_view res" where
  "find_one_order oid user db =
     map_sum id (order_view_of db) (own_order ''You can only view your own orders'' oid user db)"

definition get_order_items :: "string \<Rightarrow> current_user \<Rightarrow> shop \<Rightarrow> (order_item \<times> product_row option) list res" where
  "get_order_items oid user db =
     map_sum id (\<lambda>ord. map (\<lambda>i. (i, find_product (oi_productId i) db)) (o_items ord))
       (own_order ''You can only view your own order items'' oid user db)"

record tracking =
  tr_orderId :: string
  tr_orderNumber :: string
  tr_status :: order_status
  tr_shippingAddress :: json
  tr_trackingNumber :: "string option"
  tr_history :: "(order_status \<times> ms) list"

fun entry_if :: "order_status \<Rightarrow> ms option \<Rightarrow> (order_status \<times> ms) list" where
  "entry_if s None = []"
| "entry_if s (Some t) = [(s, t)]"

definition get_tracking :: "string \<Rightarrow> current_user \<Rightarrow> shop \<Rightarrow> tracking res" where
  "get_tracking oid user db =
     map_sum id (\<lambda>ord. \<lparr>tr_orderId = o_id ord, tr_orderNumber = o_number ord, tr_status = o_status ord,
         tr_shippingAddress = o_shippingAddress ord, tr_trackingNumber = o_trackingNumber ord,
         tr_history = (O_PENDING, o_createdAt ord) # entry_if O_SHIPPED (o_shippedAt ord)
           @ entry_if O_DELIVERED (o_deliveredAt ord) @ entry_if O_CANCELLED (o_cancelledAt ord)\<rparr>)
       (own_order ''You can only view your own order tracking'' oid user db)"

record invoice =
  inv_number :: string
  inv_orderNumber :: string
  inv_orderDate :: ms
  inv_customerName :: string
  inv_customerEmail :: string
  inv_billingAddress :: json
  inv_shippingAddress :: json
  inv_items :: "(string \<times> int \<times> rat \<times> rat) list"
  inv_subtotal :: rat
  inv_shipping :: rat
  inv_tax :: rat
  inv_discount :: rat
  inv_total :: rat
  inv_paymentMethod :: "payment_method option"
  inv_paymentStatus :: "payment_status option"

text \<open>A template literal prints \<open>null\<close> for a missing name.\<close>

definition or_null :: "string option \<Rightarrow> string" where
  "or_null x = (case x of None \<Rightarrow> ''null'' | Some s \<Rightarrow> s)"

definition get_invoice :: "string \<Rightarrow> current_user \<Rightarrow> shop \<Rightarrow> invoice res" where
  "get_invoice oid user db =
     (case own_order ''You can only view your own invoices'' oid user db of
        Inl e \<Rightarrow> Inl e
      | Inr ord \<Rightarrow>
          (let payment = (case o_payments ord of [] \<Rightarrow> None | p # _ \<Rightarrow> Some p)
           in case find_by u_id (o_userId ord) (users db) of
                None \<Rightarrow> Inl (InternalError ''required relation user is missing'')
              | Some u \<Rightarrow>
                  Inr \<lparr>inv_number = ''INV-'' @ o_number ord, inv_orderNumber = o_number ord,
                    inv_orderDate = o_createdAt ord,
                    inv_customerName = or_null (u_firstName u) @ '' '' @ or_null (u_lastName u),
                    inv_customerEmail = u_email u,
                    inv_billingAddress = o_billingAddress ord, inv_shippingAddress = o_shippingAddress ord,
                    inv_items = map (\<lambda>i. (case find_product (oi_productId i) db of None \<Rightarrow> [] | Some p \<Rightarrow> p_name p,
                      oi_quantity i, oi_price i, oi_total i)) (o_items ord),
                    inv_subtotal = o_subtotal ord, inv_shipping = o_shipping ord, inv_tax = o_tax ord,
                    inv_discount = o_discount ord, inv_total = o_total ord,
                    inv_paymentMethod = map_option pay_method payment,
                    inv_paymentStatus = map_option pay_status payment\<rparr>))"

subsection \<open>Changes\<close>

text \<open>Every \<open>order.update\<close> also sets \<open>updatedAt\<close>.\<close>

definition save_order :: "ms \<Rightarrow> string \<Rightarrow> (order_row \<Rightarrow> order_row) \<Rightarrow> shop \<Rightarrow> shop" where
  "save_order now oid f = update_order_row oid (\<lambda>x. (f x)\<lparr>o_updatedAt := now\<rparr>)"

definition saved :: "string \<Rightarrow> shop \<Rightarrow> order_row res \<times> shop" where
  "saved oid db = (case find_order oid db of
      None \<Rightarrow> (Inl (InternalError ''P2025 record not found''), db) | Some x \<Rightarrow> (Inr x, db))"

record update_order_dto =
  ud_items :: "line_dto list option"
  ud_shippingAddress :: "json option"
  ud_billingAddress :: "json option"
  ud_paymentMethod :: "payment_method option"
  ud_notes :: "string option"
  ud_shipping :: "rat option"
  ud_tax :: "rat option"
  ud_discount :: "rat option"

fun keep_or :: "'a option \<Rightarrow> 'a \<Rightarrow> 'a" where
  "keep_or None d = d"
| "keep_or (Some a) d = a"

text \<open>The order table has no columns \<open>items\<close> and \<open>paymentMethod\<close>: Prisma refuses them.\<close>

definition update_order :: "string \<Rightarrow> update_order_dto \<Rightarrow> ms \<Rightarrow> shop \<Rightarrow> order_row res \<times> shop" where
  "update_order oid dto now db =
     (case find_order oid db of
        None \<Rightarrow> (Inl (NotFound ''Order not found''), db)
      | Some _ \<Rightarrow>
          if ud_items dto \<noteq> None \<or> ud_paymentMethod dto \<noteq> None
          then (Inl (InternalError ''PrismaClientValidationError''), db)
          else saved oid (save_order now oid (\<lambda>x. x\<lparr>
            o_shippingAddress := keep_or (ud_shippingAddress dto) (o_shippingAddress x),
            o_billingAddress := keep_or (ud_billingAddress dto) (o_billingAddress x),
            o_notes := (case ud_notes dto of None \<Rightarrow> o_notes x | Some n \<Rightarrow> Some n),
            o_shipping := (case ud_shipping dto of None \<Rightarrow> o_shipping x | Some v \<Rightarrow> db_decimal v),
            o_tax := (case ud_tax dto of None \<Rightarrow> o_tax x | Some v \<Rightarrow> db_decimal v),
            o_discount := (case ud_discount dto of None \<Rightarrow> o_discount x | Some v \<Rightarrow> db_decimal v)\<rparr>) db))"

definition remove_order :: "string \<Rightarrow> ms \<Rightarrow> shop \<Rightarrow> order_row res \<times> shop" where
  "remove_order oid now db =
     (case find_order oid db of
        None \<Rightarrow> (Inl (NotFound ''Order not found''), db)
      | Some _ \<Rightarrow> saved oid (save_order now oid (\<lambda>x. x\<lparr>o_status := O_CANCELLED, o_cancelledAt := Some now\<rparr>) db))"

definition update_order_status ::
  "string \<Rightarrow> order_status \<Rightarrow> string option \<Rightarrow> ms \<Rightarrow> shop \<Rightarrow> order_row res \<times> shop" where
  "update_order_status oid new nts now db =
     (case find_order oid db of
        None \<Rightarrow> (Inl (NotFound ''Order not found''), db)
      | Some ord \<Rightarrow>
          if \<not> is_valid_status_transition (o_status ord) new
          then (Inl (BadRequest (''Cannot transition from '' @ status_name (o_status ord) @ '' to '' @ status_name new)), db)
          else saved oid (save_order now oid (\<lambda>x. x\<lparr>o_status := new,
            o_notes := (if truthy_str nts then nts else o_notes ord),
            o_shippedAt := (if new = O_SHIPPED then Some now else o_shippedAt x),
            o_deliveredAt := (if new = O_DELIVERED then Some now else o_deliveredAt x),
            o_cancelledAt := (if new = O_CANCELLED then Some now else o_cancelledAt x)\<rparr>) db))"

text \<open>Lines 418-427: one update per line, no transaction; a missing product throws half way.\<close>

fun restock :: "order_item list \<Rightarrow> shop \<Rightarrow> unit res \<times> shop" where
  "restock [] db = (Inr (), db)"
| "restock (i # is) db =
     (if find_product (oi_productId i) db = None then (Inl (InternalError ''P2025 record not found''), db)
      else restock is (add_stock (oi_productId i) (oi_quantity i) db))"

definition cancel_order ::
  "string \<Rightarrow> string \<Rightarrow> string option \<Rightarrow> current_user \<Rightarrow> ms \<Rightarrow> shop \<Rightarrow> order_row res \<times> shop" where
  "cancel_order oid reason nts user now db =
     (case own_order ''You can only cancel your own orders'' oid user db of
        Inl e \<Rightarrow> (Inl e, db)
      | Inr ord \<Rightarrow>
          if o_status ord \<in> {O_SHIPPED, O_DELIVERED, O_CANCELLED}
          then (Inl (BadRequest ''Order cannot be cancelled at this stage''), db)
          else (case restock (o_items ord) db of
            (Inl e, db') \<Rightarrow> (Inl e, db')
          | (Inr _, db') \<Rightarrow>
              saved oid (save_order now oid (\<lambda>x. x\<lparr>o_status := O_CANCELLED, o_cancelledAt := Some now,
                o_notes := Some (''Cancelled: '' @ reason @ ''. '' @ str_or nts [])\<rparr>) db')))"

record order_statistics =
  os_totalOrders :: int
  os_totalRevenue :: rat
  os_pendingOrders :: int
  os_processingOrders :: int
  os_completedOrders :: int
  os_averageOrderValue :: rat

definition get_order_statistics :: "order_status option \<Rightarrow> shop \<Rightarrow> order_statistics" where
  "get_order_statistics status db =
     (let wh = (\<lambda>x. case status of None \<Rightarrow> True | Some s \<Rightarrow> o_status x = s);
          countOf = (\<lambda>p. int (length (filter p (orders db))));
          revenue = sum_list (map o_total (filter
            (\<lambda>x. wh x \<and> list_ex (\<lambda>p. pay_status p = PAY_PAID) (o_payments x)) (orders db)));
          n = countOf wh
      in \<lparr>os_totalOrders = n, os_totalRevenue = revenue,
          os_pendingOrders = countOf (\<lambda>x. o_status x = O_PENDING),
          os_processingOrders = countOf (\<lambda>x. o_status x = O_PROCESSING),
          os_completedOrders = countOf (\<lambda>x. o_status x = O_DELIVERED),
          os_averageOrderValue = (if n > 0 then revenue / of_int n else 0)\<rparr>)"

definition process_payment :: "string \<Rightarrow> current_user \<Rightarrow> ms \<Rightarrow> shop \<Rightarrow> order_row res \<times> shop" where
  "process_payment oid user now db =
     (case own_order ''You can only process payment for your own orders'' oid user db of
        Inl e \<Rightarrow> (Inl e, db)
      | Inr ord \<Rightarrow>
          (case o_payments ord of
             [] \<Rightarrow> (Inl (BadRequest ''No payment found for this order''), db)
           | p # _ \<Rightarrow>
               if pay_status p = PAY_PAID then (Inl (BadRequest ''Order is already paid''), db)
               else saved oid (save_order now oid (\<lambda>x. x\<lparr>o_status := O_PROCESSING,
                 o_payments := update_by pay_id (pay_id p)
                   (\<lambda>y. y\<lparr>pay_status := PAY_PAID, pay_processedAt := Some now\<rparr>) (o_payments x)\<rparr>) db)))"

definition update_shipping ::
  "string \<Rightarrow> string option \<Rightarrow> json option \<Rightarrow> ms \<Rightarrow> shop \<Rightarrow> order_row res \<times> shop" where
  "update_shipping oid trackingNumber addr now db =
     (case find_order oid db of
        None \<Rightarrow> (Inl (NotFound ''Order not found''), db)
      | Some _ \<Rightarrow> saved oid (save_order now oid (\<lambda>x. x\<lparr>o_status := O_SHIPPED, o_shippedAt := Some now,
          o_trackingNumber := (if truthy_str trackingNumber then trackingNumber else o_trackingNumber x),
          o_shippingAddress := (case addr of None \<Rightarrow> o_shippingAddress x
            | Some a \<Rightarrow> if json_truthy a then a else o_shippingAddress x)\<rparr>) db))"

subsection \<open>An order from a cart\<close>

fun check_cart_items :: "shop \<Rightarrow> cart_item list \<Rightarrow> unit res" where
  "check_cart_items db [] = Inr ()"
| "check_cart_items db (i # is) =
     (case find_product (ci_productId i) db of
        None \<Rightarrow> Inl (InternalError ''required relation product is missing'')
      | Some p \<Rightarrow>
          if \<not> p_isActive p then Inl (BadRequest (''Product '' @ p_name p @ '' is no longer available''))
          else if p_stock p < ci_quantity i then Inl (BadRequest (''Insufficient stock for product '' @ p_name p))
          else check_cart_items db is)"

definition find_active_cart :: "string \<Rightarrow> string \<Rightarrow> shop \<Rightarrow> cart_row option" where
  "find_active_cart userId cartId db =
     (case find_by c_id cartId (carts db) of
        None \<Rightarrow> None
      | Some c \<Rightarrow> if c_userId c = Some userId \<and> c_status c = C_ACTIVE then Some c else None)"

text \<open>Lines 684-732.\<close>

definition cart_order_check :: "string \<Rightarrow> string \<Rightarrow> shop \<Rightarrow> cart_row res" where
  "cart_order_check userId cartId db =
     (case find_active_cart userId cartId db of
        None \<Rightarrow> Inl (NotFound ''Active cart not found for this user'')
      | Some c \<Rightarrow>
          if c_items c = [] then Inl (BadRequest ''Cart is empty'')
          else map_sum id (\<lambda>_. c) (check_cart_items db (c_items c)))"

definition cart_to_order :: "fresh_ids \<Rightarrow> string \<Rightarrow> payment_method \<Rightarrow> ms \<Rightarrow> cart_row \<Rightarrow> order_row" where
  "cart_to_order ids userId pm now c =
     \<lparr>o_id = f_orderId ids, o_number = f_orderNumber ids, o_userId = userId, o_status = O_PENDING,
      o_subtotal = c_subtotal c, o_tax = c_tax c, o_shipping = c_shipping c, o_discount = c_discount c,
      o_total = c_total c, o_notes = c_notes c,
      o_shippingAddress = keep_or (c_shippingAddress c) (JObj []),
      o_billingAddress = keep_or (c_billingAddress c) (JObj []),
      o_trackingNumber = None, o_shippedAt = None, o_deliveredAt = None, o_cancelledAt = None,
      o_createdAt = now, o_updatedAt = now,
      o_items = map (\<lambda>i. \<lparr>oi_productId = ci_productId i, oi_quantity = ci_quantity i,
        oi_price = ci_price i, oi_total = ci_total i\<rparr>) (c_items c),
      o_payments = [\<lparr>pay_id = f_paymentId ids, pay_userId = userId, pay_amount = c_total c,
        pay_method = pm, pay_status = PAY_PENDING, pay_processedAt = None\<rparr>]\<rparr>"

definition cart_lines :: "cart_row \<Rightarrow> (string \<times> int) list" where
  "cart_lines c = map (\<lambda>i. (ci_productId i, ci_quantity i)) (c_items c)"

text \<open>Lines 734-810: one transaction; any failure rolls it back as a whole.\<close>

definition cart_order_commit ::
  "fresh_ids \<Rightarrow> string \<Rightarrow> payment_method \<Rightarrow> ms \<Rightarrow> cart_row \<Rightarrow> shop \<Rightarrow> order_row res \<times> shop" where
  "cart_order_commit ids userId pm now c db =
     (case insert_order (cart_to_order ids userId pm now c) db of
        (Inl e, _) \<Rightarrow> (Inl e, db)
      | (Inr ord, db') \<Rightarrow>
          if find_by c_id (c_id c) (carts db') = None then (Inl (InternalError ''P2025 record not found''), db)
          else (Inr ord, (move_stock (- 1) (cart_lines c) db')\<lparr>carts := update_by c_id (c_id c)
            (\<lambda>x. x\<lparr>c_status := C_COMPLETED, c_convertedAt := Some now, c_updatedAt := now\<rparr>) (carts db')\<rparr>))"

definition create_order_from_cart ::
  "fresh_ids \<Rightarrow> string \<Rightarrow> string \<Rightarrow> payment_method \<Rightarrow> ms \<Rightarrow> shop \<Rightarrow> order_row res \<times> shop" where
  "create_order_from_cart ids userId cartId pm now db =
     (case cart_order_check userId cartId db of
        Inl e \<Rightarrow> (Inl e, db)
      | Inr c \<Rightarrow> cart_order_commit ids userId pm now c db)"

subsection \<open>Lemmas\<close>

lemma find_order_save:
  assumes "\<And>x. o_id (f x) = o_id x"
  shows "find_order k (save_order now oid f db) =
    (if k = oid then map_option (\<lambda>x. (f x)\<lparr>o_updatedAt := now\<rparr>) (find_order k db) else find_order k db)"
  unfolding save_order_def by (rule find_order_update) (simp add: assms)

lemma save_order_simps [simp]:
  "products (save_order now oid f db) = products db" "carts (save_order now oid f db) = carts db"
  "users (save_order now oid f db) = users db" "stock_of pid (save_order now oid f db) = stock_of pid db"
  "find_product pid (save_order now oid f db) = find_product pid db"
  by (simp_all add: save_order_def)

lemma saved_simps [simp]: "snd (saved oid db) = db"
  "find_order oid db = Some x \<Longrightarrow> saved oid db = (Inr x, db)"
  by (simp_all add: saved_def split: option.split)

subsection \<open>Runs of the service\<close>

datatype order_op =
    Place fresh_ids create_order_dto current_user
  | Place_Cart fresh_ids string string payment_method
  | Edit string update_order_dto
  | Set_Status string order_status "string option"
  | Cancel_Order string string "string option" current_user
  | Remove_Order string
  | Pay_Order string current_user
  | Ship_Order string "string option" "json option"

fun order_op_step :: "ms \<times> order_op \<Rightarrow> shop \<Rightarrow> shop" where
  "order_op_step (now, Place ids dto user) db = snd (create_order ids now dto user db)"
| "order_op_step (now, Place_Cart ids uid cid pm) db = snd (create_order_from_cart ids uid cid pm now db)"
| "order_op_step (now, Edit oid dto) db = snd (update_order oid dto now db)"
| "order_op_step (now, Set_Status oid new nts) db = snd (update_order_status oid new nts now db)"
| "order_op_step (now, Cancel_Order oid reason nts user) db = snd (cancel_order oid reason nts user now db)"
| "order_op_step (now, Remove_Order oid) db = snd (remove_order oid now db)"
| "order_op_step (now, Pay_Order oid user) db = snd (process_payment oid user now db)"
| "order_op_step (now, Ship_Order oid trackingNumber addr) db = snd (update_shipping oid trackingNumber addr now db)"

text \<open>The requests that set the status of an order without a look at its present one.\<close>

fun bypasses :: "string \<Rightarrow> order_op \<Rightarrow> bool" where
  "bypasses oid (Remove_Order i) = (i = oid)"
| "bypasses oid (Pay_Order i user) = (i = oid)"
| "bypasses oid (Ship_Order i trackingNumber addr) = (i = oid)"
| "bypasses oid op' = False"

fun cancels :: "string \<Rightarrow> order_op \<Rightarrow> bool" where
  "cancels oid (Cancel_Order i reason nts user) = (i = oid)"
| "cancels oid op' = False"

text \<open>The statuses an order takes, one for each change.\<close>

definition status_of :: "string \<Rightarrow> shop \<Rightarrow> order_status option" where
  "status_of oid db = map_option o_status (find_order oid db)"

fun status_history :: "string \<Rightarrow> (ms \<times> order_op) list \<Rightarrow> shop \<Rightarrow> order_status list" where
  "status_history oid [] db = []"
| "status_history oid (x # ops) db =
     (let db' = order_op_step x db; rest = status_history oid ops db'
      in if status_of oid db' = status_of oid db then rest
         else (case status_of oid db' of None \<Rightarrow> rest | Some s \<Rightarrow> s # rest))"

lemma find_order_move_stock [simp]: "find_order oid (move_stock s ls db) = find_order oid db"
  by (simp add: find_order_def)

lemma find_order_restock [simp]: "find_order oid (snd (restock is db)) = find_order oid db"
  by (induction "is" arbitrary: db) auto

lemma find_order_restocked: "restock is db = (r, db') \<Longrightarrow> find_order oid db' = find_order oid db"
  using find_order_restock [of oid "is" db] by simp

lemma insert_order_found:
  "find_order oid db = Some ord \<Longrightarrow> insert_order new db = (r, db') \<Longrightarrow> find_order oid db' = Some ord"
  by (auto simp: insert_order_def find_order_def split: if_splits)

lemma status_of_save:
  assumes "\<And>x. o_id (f x) = o_id x" "\<And>x. o_status (f x) = o_status x"
  shows "status_of oid (save_order now i f db) = status_of oid db"
  using assms by (simp add: status_of_def find_order_save option.map_comp comp_def)

lemma step_status:
  assumes "status_of oid db = Some s" "status_of oid (order_op_step (now, op') db) \<noteq> Some s"
  obtains t where "status_of oid (order_op_step (now, op') db) = Some t"
    "is_valid_status_transition s t \<or> cancels oid op' \<and> order_move s t \<or> bypasses oid op'"
proof -
  obtain ord where o': "find_order oid db = Some ord" "o_status ord = s" using assms(1) by (auto simp: status_of_def)
  have "\<exists>t. status_of oid (order_op_step (now, op') db) = Some t \<and>
      (t = s \<or> is_valid_status_transition s t \<or> cancels oid op' \<and> order_move s t \<or> bypasses oid op')"
  proof (cases op')
    case (Place ids dto user)
    have "find_order oid (snd (create_order ids now dto user db)) = Some ord"
      using insert_order_found [OF o'(1)]
      by (auto simp: create_order_def create_order_commit_def o'(1) split: sum.split prod.split)
    then show ?thesis by (simp add: Place status_of_def o'(2))
  next
    case (Place_Cart ids uid cid pm)
    have "find_order oid (x\<lparr>carts := cs\<rparr>) = find_order oid x" for x cs by (simp add: find_order_def)
    then have "find_order oid (snd (create_order_from_cart ids uid cid pm now db)) = Some ord"
      using insert_order_found [OF o'(1)]
      by (auto simp: create_order_from_cart_def cart_order_commit_def o'(1) split: sum.split prod.split)
    then show ?thesis by (simp add: Place_Cart status_of_def o'(2))
  next
    case (Edit i dto)
    have "status_of oid (snd (update_order i dto now db)) = status_of oid db"
      unfolding update_order_def by (cases "find_order i db") (simp_all add: status_of_save)
    then show ?thesis using assms(1) by (simp add: Edit)
  next
    case (Cancel_Order i reason nts user)
    then show ?thesis using o'
      by (auto simp: cancel_order_def own_order_def status_of_def order_move_def find_order_save find_order_restocked
          split: prod.split sum.split option.split)
  qed (use o' in \<open>auto simp: status_of_def update_order_status_def remove_order_def process_payment_def own_order_def
      update_shipping_def find_order_save split: sum.split option.split list.split\<close>)
  with assms(2) that show thesis by auto
qed

lemma history_moves:
  assumes "status_of oid db = Some s" "\<forall>x \<in> set ops. \<not> bypasses oid (snd x)"
  shows "moves_along order_move s (status_history oid ops db)"
    "\<forall>x \<in> set ops. \<not> cancels oid (snd x) \<Longrightarrow> moves_along is_valid_status_transition s (status_history oid ops db)"
  using assms
proof (induction ops arbitrary: db s)
  case (Cons x ops)
  obtain now op' where x: "x = (now, op')" by (cases x)
  {
    case 1
    show ?case
    proof (cases "status_of oid (order_op_step x db) = Some s")
      case False
      with 1 obtain t where "status_of oid (order_op_step x db) = Some t" "order_move s t"
        by (elim step_status [of oid db s now op', folded x]) (auto simp: x order_move_def)
      then show ?thesis using Cons.IH(1) 1 False by (simp add: Let_def)
    qed (use Cons.IH(1) 1 in \<open>simp add: Let_def\<close>)
  next
    case 2
    show ?case
    proof (cases "status_of oid (order_op_step x db) = Some s")
      case False
      with 2 obtain t where "status_of oid (order_op_step x db) = Some t" "is_valid_status_transition s t"
        by (elim step_status [of oid db s now op', folded x]) (auto simp: x)
      then show ?thesis using Cons.IH(2) 2 False by (simp add: Let_def)
    qed (use Cons.IH(2) 2 in \<open>simp add: Let_def\<close>)
  }
qed simp_all

lemma history_length:
  "status_of oid db = Some s \<Longrightarrow>
   move_rank s + length (status_history oid ops db) \<le> 6 + 7 * length (filter (bypasses oid \<circ> snd) ops)"
proof (induction ops arbitrary: db s)
  case (Cons x ops)
  obtain now op' where x: "x = (now, op')" by (cases x)
  show ?case
  proof (cases "status_of oid (order_op_step x db) = Some s")
    case False
    with Cons.prems obtain t where t: "status_of oid (order_op_step x db) = Some t" "order_move s t \<or> bypasses oid op'"
      by (elim step_status [of oid db s now op', folded x]) (auto simp: x order_move_def)
    have "move_rank s < move_rank t \<or> bypasses oid op'" using t(2) order_moves.ok_rank by blast
    moreover have "move_rank s \<le> 6" by (rule order_moves.rank_top)
    ultimately show ?thesis using Cons.IH [OF t(1)] t(1) False Cons.prems by (auto simp: x Let_def)
  next
    case True
    then show ?thesis using Cons.IH [OF True] Cons.prems by (simp add: Let_def)
  qed
qed (simp add: order_moves.rank_top)

lemma fold_sum: "fold (\<lambda>i s. s + f i) xs (a::rat) = a + sum_list (map f xs)"
  by (induction xs arbitrary: a) simp_all

lemma dto_subtotal_sum: "dto_subtotal dto = sum_list (map (\<lambda>i. l_price i * of_int (l_quantity i)) (d_items dto))"
  by (simp add: dto_subtotal_def fold_sum)

definition dto_cents :: "create_order_dto \<Rightarrow> bool" where
  "dto_cents dto \<longleftrightarrow> list_all (\<lambda>i. cents (l_price i)) (d_items dto) \<and> cents (num_or (d_shipping dto) 0) \<and>
     cents (num_or (d_tax dto) 0) \<and> cents (num_or (d_discount dto) 0)"

lemma cents_subtotal: "dto_cents dto \<Longrightarrow> cents (dto_subtotal dto)"
  unfolding dto_subtotal_sum by (rule cents_sum) (simp add: dto_cents_def list_all_iff)

lemma new_order_total:
  assumes "dto_cents dto"
  shows "o_total (new_order ids now dto) = o_subtotal (new_order ids now dto) + o_shipping (new_order ids now dto)
      + o_tax (new_order ids now dto) - o_discount (new_order ids now dto) \<and>
    o_subtotal (new_order ids now dto) = sum_list (map oi_total (o_items (new_order ids now dto))) \<and>
    map pay_amount (o_payments (new_order ids now dto)) = [o_total (new_order ids now dto)]"
proof -
  have t: "cents (dto_total dto)" using assms cents_subtotal [OF assms] by (simp add: dto_total_def dto_cents_def)
  have i: "sum_list (map (\<lambda>i. db_decimal (l_price i * of_int (l_quantity i))) (d_items dto)) =
      sum_list (map (\<lambda>i. l_price i * of_int (l_quantity i)) (d_items dto))"
    using assms by (intro arg_cong [of _ _ sum_list] map_cong) (auto simp: dto_cents_def list_all_iff)
  show ?thesis
    using assms t i cents_subtotal [OF assms]
    by (simp add: new_order_def dto_cents_def dto_total_def comp_def dto_subtotal_sum)
qed

lemma stock_of_orders [simp]: "stock_of pid (db\<lparr>orders := xs\<rparr>) = stock_of pid db"
  and find_product_orders [simp]: "find_product pid (db\<lparr>orders := xs\<rparr>) = find_product pid db"
  by (simp_all add: stock_of_def find_product_def)

lemma create_order_success:
  assumes "create_order ids now dto user db = (Inr ord, db')"
  shows "create_order_check dto user db = Inr () \<and> ord = new_order ids now dto \<and>
    db' = move_stock (- 1) (dto_lines dto) (db\<lparr>orders := orders db @ [ord]\<rparr>)"
  using assms
  by (auto simp: create_order_def create_order_commit_def insert_order_def split: sum.splits if_splits)

lemma create_order_success_commit:
  assumes "create_order_commit ids now dto db = (Inr ord, db')"
  shows "ord = new_order ids now dto" "orders db' = orders db @ [ord]" "users db' = users db"
    "stock_of pid db' = map_option (\<lambda>x. x - ordered pid (dto_lines dto)) (stock_of pid db)"
  using assms
  by (auto simp: create_order_commit_def insert_order_def stock_of_move_stock split: sum.splits if_splits)

lemma create_order_stock:
  assumes "create_order ids now dto user db = (Inr ord, db')"
  shows "stock_of pid db' = map_option (\<lambda>x. x - ordered pid (dto_lines dto)) (stock_of pid db)"
  using create_order_success [OF assms] by (simp add: stock_of_move_stock)

text \<open>A creation that passed the check commits, while user and products exist and the ids are new.\<close>

lemma create_order_commit_ok:
  assumes "find_by u_id (d_userId dto) (users db) \<noteq> None"
    and "\<forall>i \<in> set (d_items dto). stock_of (l_productId i) db \<noteq> None"
    and "find_order (f_orderId ids) db = None" "\<not> list_ex (\<lambda>x. o_number x = f_orderNumber ids) (orders db)"
  shows "create_order_commit ids now dto db = (Inr (new_order ids now dto),
    move_stock (- 1) (dto_lines dto) (db\<lparr>orders := orders db @ [new_order ids now dto]\<rparr>))"
  using assms by (auto simp: create_order_commit_def insert_order_def new_order_def dto_lines_def
      stock_of_None_iff list_all_iff)

lemma check_lines_ok:
  "check_lines db is = Inr () \<Longrightarrow> i \<in> set is \<Longrightarrow>
   \<exists>n. stock_of (l_productId i) db = Some n \<and> l_quantity i \<le> n"
  by (induction "is") (auto simp: stock_of_def split: option.splits if_splits)

lemma create_order_failure_stock:
  assumes "create_order ids now dto user db = (Inl e, db')"
  shows "stock_of pid db' = stock_of pid db"
  using assms
  by (auto simp: create_order_def create_order_commit_def insert_order_def split: sum.splits if_splits)

lemma restock_ok:
  "\<forall>i \<in> set is. stock_of (oi_productId i) db \<noteq> None \<Longrightarrow>
   restock is db = (Inr (), move_stock 1 (map (\<lambda>i. (oi_productId i, oi_quantity i)) is) db)"
proof (induction "is" arbitrary: db)
  case Nil
  show ?case by (simp add: move_stock_def)
next
  case (Cons i "is")
  let ?db = "add_stock (oi_productId i) (oi_quantity i) db"
  have "\<forall>j \<in> set is. stock_of (oi_productId j) ?db \<noteq> None" using Cons.prems by auto
  from Cons.IH [OF this] Cons.prems show ?case by (simp add: move_stock_def stock_of_None_iff)
qed

lemma own_order_allowed:
  "find_order oid db = Some ord \<Longrightarrow> o_userId ord = cu_id user \<or> is_admin user \<Longrightarrow>
   own_order msg oid user db = Inr ord"
  by (auto simp: own_order_def)

text \<open>Cancelling an order whose products exist gives all its quantities back.\<close>

lemma cancel_order_ok:
  assumes "find_order oid db = Some ord" "o_userId ord = cu_id user \<or> is_admin user"
    and "o_status ord \<notin> {O_SHIPPED, O_DELIVERED, O_CANCELLED}"
    and "\<forall>i \<in> set (o_items ord). stock_of (oi_productId i) db \<noteq> None"
  shows "\<exists>ord' db'. cancel_order oid reason nts user now db = (Inr ord', db') \<and>
    find_order oid db' = Some ord' \<and> o_status ord' = O_CANCELLED \<and> o_userId ord' = o_userId ord \<and>
    o_payments ord' = o_payments ord \<and>
    (\<forall>pid. stock_of pid db' = map_option
      (\<lambda>x. x + ordered pid (map (\<lambda>i. (oi_productId i, oi_quantity i)) (o_items ord))) (stock_of pid db))"
  using assms by (simp add: cancel_order_def own_order_allowed restock_ok find_order_save stock_of_move_stock)

lemma cancel_order_again:
  assumes "find_order oid db = Some ord" "o_status ord = O_CANCELLED"
  shows "\<exists>e. cancel_order oid reason nts user now db = (Inl e, db)"
  using assms by (auto simp: cancel_order_def own_order_def)

lemma process_payment_ok:
  assumes "find_order oid db = Some ord" "o_userId ord = cu_id user \<or> is_admin user"
    and "o_payments ord = p # ps" "pay_status p \<noteq> PAY_PAID"
  shows "\<exists>ord' db'. process_payment oid user now db = (Inr ord', db') \<and> o_status ord' = O_PROCESSING \<and>
    find_order oid db' = Some ord' \<and> (\<forall>pid. stock_of pid db' = stock_of pid db)"
  using assms by (simp add: process_payment_def own_order_allowed find_order_save)

lemma create_order_found:
  assumes "create_order ids now dto user db = (Inr ord, db1)"
  shows "find_order (o_id ord) db1 = Some ord" "o_userId ord = cu_id user \<or> is_admin user"
    "\<forall>i \<in> set (o_items ord). stock_of (oi_productId i) db1 \<noteq> None"
    "map (\<lambda>i. (oi_productId i, oi_quantity i)) (o_items ord) = dto_lines dto"
    "o_status ord = O_PENDING" "\<exists>p. o_payments ord = [p] \<and> pay_status p = PAY_PENDING"
proof -
  note c = create_order_success [OF assms]
  have chk: "check_lines db (d_items dto) = Inr ()" and "d_userId dto = cu_id user \<or> is_admin user"
    using c by (auto simp: create_order_check_def split: if_splits)
  then show "o_userId ord = cu_id user \<or> is_admin user" using c by (simp add: new_order_def)
  have "find_order (f_orderId ids) db = None"
    using assms by (auto simp: create_order_def create_order_commit_def insert_order_def new_order_def
        split: sum.splits if_splits)
  then show "find_order (o_id ord) db1 = Some ord"
    using c by (simp add: find_order_def) (simp add: new_order_def)
  show "\<forall>i \<in> set (o_items ord). stock_of (oi_productId i) db1 \<noteq> None"
    using c check_lines_ok [OF chk] by (fastforce simp: new_order_def stock_of_move_stock)
  show "map (\<lambda>i. (oi_productId i, oi_quantity i)) (o_items ord) = dto_lines dto"
    "o_status ord = O_PENDING" "\<exists>p. o_payments ord = [p] \<and> pay_status p = PAY_PENDING"
    using c by (simp_all add: new_order_def dto_lines_def comp_def)
qed

text \<open>Create, then cancel.\<close>

lemma create_cancel:
  assumes "create_order ids now dto user db = (Inr ord, db1)"
  shows "\<exists>ord' db2. cancel_order (o_id ord) reason nts user now' db1 = (Inr ord', db2) \<and>
    find_order (o_id ord) db2 = Some ord' \<and> o_status ord' = O_CANCELLED \<and> o_userId ord' = o_userId ord \<and>
    o_payments ord' = o_payments ord \<and> (\<forall>pid. stock_of pid db2 = stock_of pid db)"
proof -
  note f = create_order_found [OF assms]
  have st: "o_status ord \<notin> {O_SHIPPED, O_DELIVERED, O_CANCELLED}" by (simp add: f(5))
  have undo: "map_option (\<lambda>x. x + ordered pid (dto_lines dto)) (stock_of pid db1) = stock_of pid db" for pid
    by (cases "stock_of pid db") (simp_all add: create_order_stock [OF assms])
  show ?thesis using cancel_order_ok [OF f(1,2) st f(3)] by (simp add: f(4) undo)
qed

text \<open>Conversion of a cart.\<close>

lemma check_cart_items_ok:
  "check_cart_items db is = Inr () \<Longrightarrow> i \<in> set is \<Longrightarrow>
   \<exists>n. stock_of (ci_productId i) db = Some n \<and> ci_quantity i \<le> n"
  by (induction "is") (auto simp: stock_of_def split: option.splits if_splits)

lemma stock_of_carts [simp]: "stock_of pid (db\<lparr>carts := xs\<rparr>) = stock_of pid db"
  and find_product_carts [simp]: "find_product pid (db\<lparr>carts := xs\<rparr>) = find_product pid db"
  by (simp_all add: stock_of_def find_product_def)

lemma map_sum_Inr_iff: "map_sum id (\<lambda>_. x) (r :: unit res) = Inr c \<longleftrightarrow> x = c \<and> r = Inr ()"
  by (cases r) auto

lemma cart_order_success:
  assumes "create_order_from_cart ids userId cartId pm now db = (Inr ord, db')"
  obtains c where "find_active_cart userId cartId db = Some c" "check_cart_items db (c_items c) = Inr ()"
    "ord = cart_to_order ids userId pm now c" "orders db' = orders db @ [ord]"
    "carts db' = update_by c_id (c_id c)
      (\<lambda>x. x\<lparr>c_status := C_COMPLETED, c_convertedAt := Some now, c_updatedAt := now\<rparr>) (carts db)"
    "\<forall>pid. stock_of pid db' = map_option (\<lambda>x. x - ordered pid (cart_lines c)) (stock_of pid db)"
proof -
  obtain c where c: "cart_order_check userId cartId db = Inr c" "cart_order_commit ids userId pm now c db = (Inr ord, db')"
    using assms by (auto simp: create_order_from_cart_def split: sum.splits)
  have "find_active_cart userId cartId db = Some c \<and> check_cart_items db (c_items c) = Inr ()"
    using c(1) by (auto simp: cart_order_check_def map_sum_Inr_iff split: option.splits if_splits)
  moreover have "ord = cart_to_order ids userId pm now c \<and> orders db' = orders db @ [ord] \<and>
      carts db' = update_by c_id (c_id c)
        (\<lambda>x. x\<lparr>c_status := C_COMPLETED, c_convertedAt := Some now, c_updatedAt := now\<rparr>) (carts db) \<and>
      (\<forall>pid. stock_of pid db' = map_option (\<lambda>x. x - ordered pid (cart_lines c)) (stock_of pid db))"
    using c(2) by (auto simp: cart_order_commit_def insert_order_def stock_of_move_stock split: sum.splits if_splits)
  ultimately show thesis by (intro that) auto
qed

lemma cart_order_failure:
  "create_order_from_cart ids userId cartId pm now db = (Inl e, db') \<Longrightarrow> db' = db"
  by (auto simp: create_order_from_cart_def cart_order_commit_def split: sum.splits prod.splits if_splits)

text \<open>A request of one user for \<open>k\<close> lines of \<open>n\<close> pieces each of one product.\<close>

definition demo_dto :: "nat \<Rightarrow> int \<Rightarrow> create_order_dto" where
  "demo_dto k n = \<lparr>d_userId = ''u1'',
     d_items = replicate k \<lparr>l_productId = ''p1'', l_quantity = n, l_price = 10\<rparr>,
     d_shippingAddress = JObj [], d_billingAddress = None, d_paymentMethod = GCASH, d_notes = None,
     d_shipping = Some 50, d_tax = None, d_discount = None\<rparr>"

definition demo_ids :: "string \<Rightarrow> fresh_ids" where
  "demo_ids s = \<lparr>f_orderId = s, f_paymentId = s, f_orderNumber = s\<rparr>"

definition demo_buyer :: current_user where
  "demo_buyer = \<lparr>cu_id = ''u1'', cu_role = BUYER\<rparr>"

lemmas demo_order_defs = demo_defs demo_dto_def demo_ids_def demo_buyer_def new_order_def create_order_def
  create_order_check_def create_order_commit_def insert_order_def dto_lines_def move_stock_def add_stock_def

lemma new_order_status: "o_status (new_order ids now dto) = O_PENDING"
  by (simp add: new_order_def)

lemma demo_dto_cents: "dto_cents (demo_dto k n)"
  using cents_int [of 10] cents_int [of 50] by (auto simp: dto_cents_def demo_dto_def num_or_def list_all_iff)

lemma demo_create:
  "create_order (demo_ids ''o1'') 0 (demo_dto 1 2) demo_buyer (demo_shop 5) =
    (Inr (new_order (demo_ids ''o1'') 0 (demo_dto 1 2)),
     move_stock (- 1) (dto_lines (demo_dto 1 2))
       ((demo_shop 5)\<lparr>orders := [new_order (demo_ids ''o1'') 0 (demo_dto 1 2)]\<rparr>))"
  by (simp add: demo_order_defs)

subsection \<open>Properties\<close>

text \<open>C18. The life of an order over every sequence of requests of the service, whoever sends them and with
  other orders in between: as long as it is not paid, removed or shipped through \<open>updateShipping\<close>, it never
  comes back to a status it left and changes it at most six times, five if it is not cancelled through \<open>cancel\<close>
  either, each time by a move of the table. Payment, removal and \<open>updateShipping\<close> set the status whatever
  it is; \<open>k\<close> of them allow at most \<open>7 k + 6\<close> changes in all.\<close>

theorem order_status_history:
  assumes "find_order oid db = Some ord"
  shows "((\<forall>x \<in> set ops. \<not> bypasses oid (snd x)) \<longrightarrow>
      distinct (o_status ord # status_history oid ops db) \<and> length (status_history oid ops db) \<le> 6 \<and>
      moves_along order_move (o_status ord) (status_history oid ops db) \<and>
      ((\<forall>x \<in> set ops. \<not> cancels oid (snd x)) \<longrightarrow> length (status_history oid ops db) \<le> 5 \<and>
        moves_along is_valid_status_transition (o_status ord) (status_history oid ops db))) \<and>
    length (status_history oid ops db) \<le> 7 * length (filter (bypasses oid \<circ> snd) ops) + 6"
proof -
  have s: "status_of oid db = Some (o_status ord)" using assms by (simp add: status_of_def)
  show ?thesis
  proof (intro conjI impI)
    assume "\<forall>x \<in> set ops. \<not> bypasses oid (snd x)"
    note m = history_moves [OF s this]
    show "distinct (o_status ord # status_history oid ops db)" by (rule order_moves.distinct_history [OF m(1)])
    show "length (status_history oid ops db) \<le> 6" using order_moves.history_bound [OF m(1)] by simp
    show "moves_along order_move (o_status ord) (status_history oid ops db)" by (rule m(1))
    assume "\<forall>x \<in> set ops. \<not> cancels oid (snd x)"
    note t = m(2) [OF this]
    show "length (status_history oid ops db) \<le> 5" using order_table.history_bound [OF t] by simp
    show "moves_along is_valid_status_transition (o_status ord) (status_history oid ops db)" by (rule t)
  next
    show "length (status_history oid ops db) \<le> 7 * length (filter (bypasses oid \<circ> snd) ops) + 6"
      using history_length [OF s, of ops] by linarith
  qed
qed

lemma order_status_history_witness:
  "distinct (O_PENDING # status_history ''o1'' [(1, Set_Status ''o1'' O_CONFIRMED None), (2, Edit ''o2'' \<lparr>ud_items = None,
        ud_shippingAddress = None, ud_billingAddress = None, ud_paymentMethod = None, ud_notes = None, ud_shipping = None,
        ud_tax = None, ud_discount = None\<rparr>), (3, Set_Status ''o1'' O_PENDING None), (4, Cancel_Order ''o1'' ''r'' None demo_buyer)]
     (snd (create_order (demo_ids ''o1'') 0 (demo_dto 1 2) demo_buyer (demo_shop 5))))"
proof -
  have "find_order ''o1'' (snd (create_order (demo_ids ''o1'') 0 (demo_dto 1 2) demo_buyer (demo_shop 5))) =
      Some (new_order (demo_ids ''o1'') 0 (demo_dto 1 2))"
    unfolding demo_create by (simp add: find_order_def) (simp add: demo_ids_def new_order_def)
  from order_status_history [OF this] show ?thesis
    by (simp only: new_order_status) (simp del: status_history.simps)
qed

text \<open>When prices, shipping, tax and discount are in whole cents, a created order is consistent:
  its total is subtotal plus shipping plus tax minus discount, its subtotal the sum of the line
  totals, and its one payment is for the total; it starts PENDING and is stored.\<close>

theorem create_order_totals:
  assumes "create_order ids now dto user db = (Inr ord, db')" "dto_cents dto"
  shows "o_total ord = o_subtotal ord + o_shipping ord + o_tax ord - o_discount ord \<and>
    o_subtotal ord = sum_list (map oi_total (o_items ord)) \<and>
    map pay_amount (o_payments ord) = [o_total ord] \<and> o_status ord = O_PENDING \<and> ord \<in> set (orders db')"
  using new_order_total [OF assms(2), of ids now] create_order_success [OF assms(1)]
  by (auto simp: new_order_def)

lemma create_order_totals_witness:
  "\<exists>ord db'. create_order (demo_ids ''o1'') 0 (demo_dto 1 2) demo_buyer (demo_shop 5) = (Inr ord, db') \<and>
    o_total ord = o_subtotal ord + o_shipping ord + o_tax ord - o_discount ord"
  using demo_create create_order_totals [OF demo_create demo_dto_cents] by blast

text \<open>A created order takes exactly its quantities from the stock, a refused one takes nothing;
  and when no product occurs in two lines, no stock becomes negative.\<close>

theorem create_order_takes_stock:
  assumes "create_order ids now dto user db = (r, db')" "stock_of pid db = Some n" "0 \<le> n"
    and "list_all (\<lambda>i. 0 \<le> l_quantity i) (d_items dto)" "distinct (map l_productId (d_items dto))"
  shows "\<exists>m. stock_of pid db' = Some m \<and> 0 \<le> m \<and> m \<le> n \<and>
    m = (case r of Inl _ \<Rightarrow> n | Inr _ \<Rightarrow> n - ordered pid (dto_lines dto))"
proof (cases r)
  case (Inl e)
  with assms create_order_failure_stock [of ids now dto user db e db' pid] show ?thesis by simp
next
  case (Inr ord)
  let ?q = "ordered pid (dto_lines dto)"
  have created: "create_order ids now dto user db = (Inr ord, db')" using assms(1) Inr by simp
  have "0 \<le> ?q" by (rule ordered_nonneg) (use assms(4) in \<open>auto simp: dto_lines_def list_all_iff\<close>)
  moreover have "?q \<le> n"
  proof (cases "\<exists>i \<in> set (d_items dto). l_productId i = pid")
    case True
    then obtain i where i: "i \<in> set (d_items dto)" "l_productId i = pid" by blast
    have "ordered pid (dto_lines dto) = l_quantity i"
      by (rule ordered_distinct) (use i assms(5) in \<open>auto simp: dto_lines_def comp_def\<close>)
    moreover have "check_lines db (d_items dto) = Inr ()"
      using create_order_success [OF created] by (simp add: create_order_check_def split: if_splits)
    ultimately show ?thesis using check_lines_ok [OF _ i(1)] i(2) assms(2) by force
  next
    case False
    then have "ordered pid (dto_lines dto) = 0" by (intro ordered_absent) (auto simp: dto_lines_def)
    then show ?thesis using assms(3) by simp
  qed
  ultimately show ?thesis using create_order_stock [OF created, of pid] assms(2) Inr by simp
qed

lemma create_order_takes_stock_witness:
  "\<exists>m. stock_of ''p1'' (snd (create_order (demo_ids ''o1'') 0 (demo_dto 1 2) demo_buyer (demo_shop 5))) = Some m \<and> 0 \<le> m"
proof -
  have "stock_of ''p1'' (demo_shop 5) = Some 5" by (simp add: demo_defs)
  moreover have "list_all (\<lambda>i. 0 \<le> l_quantity i) (d_items (demo_dto 1 2))"
    "distinct (map l_productId (d_items (demo_dto 1 2)))"
    by (simp_all add: demo_dto_def)
  ultimately show ?thesis using create_order_takes_stock [OF surjective_pairing _ _ _ _, of "''p1''" "demo_shop 5" 5] by auto
qed

text \<open>The stock check looks at each line alone: an order with two lines for the whole stock of
  the same product passes it and leaves the stock at minus what there was.\<close>

theorem create_order_oversells:
  assumes "stock_of pid db = Some n" "0 < n" "find_by u_id (cu_id user) (users db) \<noteq> None"
    and "d_userId dto = cu_id user" "d_items dto = [a, b]"
    and "l_productId a = pid" "l_productId b = pid" "l_quantity a = n" "l_quantity b = n"
    and "find_order (f_orderId ids) db = None" "\<not> list_ex (\<lambda>x. o_number x = f_orderNumber ids) (orders db)"
  shows "\<exists>ord db'. create_order ids now dto user db = (Inr ord, db') \<and> stock_of pid db' = Some (- n)"
proof -
  obtain p where p: "find_product pid db = Some p" "p_stock p = n" using assms(1) by (auto simp: stock_of_def)
  have "create_order_commit ids now dto db = (Inr (new_order ids now dto),
      move_stock (- 1) (dto_lines dto) (db\<lparr>orders := orders db @ [new_order ids now dto]\<rparr>))"
    using assms by (intro create_order_commit_ok) simp_all
  then have "create_order ids now dto user db = (Inr (new_order ids now dto),
      move_stock (- 1) (dto_lines dto) (db\<lparr>orders := orders db @ [new_order ids now dto]\<rparr>))"
    using assms(4-9) p by (simp add: create_order_def create_order_check_def)
  then show ?thesis using assms(1,5-9) by (simp add: stock_of_move_stock dto_lines_def)
qed

lemma create_order_oversells_witness:
  "\<exists>ord db'. create_order (demo_ids ''o1'') 0 (demo_dto 2 5) demo_buyer (demo_shop 5) = (Inr ord, db') \<and>
    stock_of ''p1'' db' = Some (- 5)"
  by (rule create_order_oversells [where a = "\<lparr>l_productId = ''p1'', l_quantity = 5, l_price = 10\<rparr>"
        and b = "\<lparr>l_productId = ''p1'', l_quantity = 5, l_price = 10\<rparr>"])
    (simp_all add: demo_defs demo_dto_def demo_buyer_def numeral_2_eq_2)

text \<open>Two requests can both pass the check before either has taken its stock; both then
  succeed, and the stock ends below zero when their quantities together exceed it.\<close>

theorem concurrent_orders_oversell:
  assumes "create_order_check dto1 user1 db = Inr ()" "create_order_check dto2 user2 db = Inr ()"
    and "create_order_commit ids1 now1 dto1 db = (Inr o1, db1)"
    and "create_order_commit ids2 now2 dto2 db1 = (Inr o2, db2)"
    and "stock_of pid db = Some n" "n < ordered pid (dto_lines dto1) + ordered pid (dto_lines dto2)"
  shows "\<exists>m. stock_of pid db2 = Some m \<and> m < 0"
proof -
  show ?thesis
    using create_order_success_commit(4) [OF assms(3), of pid] create_order_success_commit(4) [OF assms(4), of pid]
      assms(5,6) by simp
qed

lemma concurrent_orders_oversell_witness:
  "\<exists>m. stock_of ''p1'' (snd (create_order_commit (demo_ids ''o2'') 0 (demo_dto 1 3)
     (snd (create_order_commit (demo_ids ''o1'') 0 (demo_dto 1 3) (demo_shop 5))))) = Some m \<and> m < 0"
proof -
  let ?db1 = "snd (create_order_commit (demo_ids ''o1'') 0 (demo_dto 1 3) (demo_shop 5))"
  have stock: "stock_of ''p1'' (demo_shop 5) = Some 5" by (simp add: demo_defs)
  have check: "create_order_check (demo_dto 1 3) demo_buyer (demo_shop 5) = Inr ()"
    by (simp add: demo_order_defs)
  have c1: "create_order_commit (demo_ids ''o1'') 0 (demo_dto 1 3) (demo_shop 5) =
      (Inr (new_order (demo_ids ''o1'') 0 (demo_dto 1 3)), ?db1)"
    by (subst (1 2) create_order_commit_ok) (simp_all add: demo_defs demo_dto_def demo_ids_def)
  have c2: "create_order_commit (demo_ids ''o2'') 0 (demo_dto 1 3) ?db1 =
      (Inr (new_order (demo_ids ''o2'') 0 (demo_dto 1 3)), snd (create_order_commit (demo_ids ''o2'') 0 (demo_dto 1 3) ?db1))"
    using create_order_success_commit [OF c1] stock
    by (subst (1 2) create_order_commit_ok)
      (simp_all add: demo_dto_def demo_ids_def new_order_def find_order_def demo_shop_def demo_user_def)
  show ?thesis
    by (rule concurrent_orders_oversell [OF check check c1 c2 stock]) (simp add: dto_lines_def demo_dto_def)
qed

text \<open>C19. Creating an order and cancelling it leaves every stock as it was, and a second
  cancellation is refused and changes nothing.\<close>

theorem create_cancel_restores:
  assumes "create_order ids now dto user db = (Inr ord, db1)"
  shows "\<exists>ord' db2. cancel_order (o_id ord) reason nts user now' db1 = (Inr ord', db2) \<and>
    o_status ord' = O_CANCELLED \<and> (\<forall>pid. stock_of pid db2 = stock_of pid db) \<and>
    (\<exists>e. cancel_order (o_id ord) reason nts user now'' db2 = (Inl e, db2))"
  using create_cancel [OF assms, where reason = reason and nts = nts and now' = now'] cancel_order_again by metis

lemma create_cancel_restores_witness:
  "\<exists>ord' db2. cancel_order (o_id (new_order (demo_ids ''o1'') 0 (demo_dto 1 2))) ''late'' None demo_buyer 1
      (snd (create_order (demo_ids ''o1'') 0 (demo_dto 1 2) demo_buyer (demo_shop 5))) = (Inr ord', db2) \<and>
    stock_of ''p1'' db2 = stock_of ''p1'' (demo_shop 5)"
  using create_cancel_restores [OF demo_create, of "''late''" None 1 1] unfolding demo_create by fastforce

text \<open>Payment goes round the transition table: a cancelled order, whose stock was given back,
  can still be paid and is then PROCESSING, a move the table forbids, with no stock taken for it.\<close>

theorem cancelled_order_can_be_paid:
  assumes "create_order ids now dto user db = (Inr ord, db1)"
    and "cancel_order (o_id ord) reason nts user now' db1 = (Inr ord', db2)"
  shows "\<exists>ord'' db3. process_payment (o_id ord) user now'' db2 = (Inr ord'', db3) \<and>
    o_status ord'' = O_PROCESSING \<and> (\<forall>pid. stock_of pid db3 = stock_of pid db) \<and>
    \<not> is_valid_status_transition O_CANCELLED O_PROCESSING"
proof -
  have f: "find_order (o_id ord) db2 = Some ord'" "o_userId ord' = o_userId ord" "o_payments ord' = o_payments ord"
    and st: "\<forall>pid. stock_of pid db2 = stock_of pid db"
    using create_cancel [OF assms(1), where reason = reason and nts = nts and now' = now'] assms(2) by auto
  have u: "o_userId ord' = cu_id user \<or> is_admin user" using create_order_found(2) [OF assms(1)] f(2) by simp
  obtain p where p: "o_payments ord' = p # []" "pay_status p \<noteq> PAY_PAID"
    using create_order_found(6) [OF assms(1)] f(3) by auto
  show ?thesis using process_payment_ok [OF f(1) u p, of now''] st by (auto simp: is_valid_status_transition_def)
qed

lemma cancelled_order_can_be_paid_witness:
  "\<exists>ord' db2 ord'' db3. cancel_order ''o1'' ''late'' None demo_buyer 1
      (snd (create_order (demo_ids ''o1'') 0 (demo_dto 1 2) demo_buyer (demo_shop 5))) = (Inr ord', db2) \<and>
    process_payment ''o1'' demo_buyer 2 db2 = (Inr ord'', db3) \<and> o_status ord'' = O_PROCESSING"
proof -
  have oid: "o_id (new_order (demo_ids ''o1'') 0 (demo_dto 1 2)) = ''o1''" by (simp add: new_order_def demo_ids_def)
  have "\<exists>ord' db2. cancel_order (o_id (new_order (demo_ids ''o1'') 0 (demo_dto 1 2))) ''late'' None demo_buyer 1
      (snd (create_order (demo_ids ''o1'') 0 (demo_dto 1 2) demo_buyer (demo_shop 5))) = (Inr ord', db2)"
    using create_cancel [OF demo_create, of "''late''" None 1] unfolding demo_create by auto
  then obtain ord' db2 where c: "cancel_order (o_id (new_order (demo_ids ''o1'') 0 (demo_dto 1 2))) ''late'' None demo_buyer 1
      (snd (create_order (demo_ids ''o1'') 0 (demo_dto 1 2) demo_buyer (demo_shop 5))) = (Inr ord', db2)"
    by blast
  show ?thesis
    using cancelled_order_can_be_paid [OF demo_create c [unfolded demo_create snd_conv], of 2] c
    unfolding oid by blast
qed



text \<open>Nobody but its owner and the administrators can read an order, its lines, tracking or
  invoice, cancel it or pay it: every such call is refused and changes nothing.\<close>

theorem order_access:
  assumes "find_order oid db = Some ord" "o_userId ord \<noteq> cu_id user" "\<not> is_admin user"
  shows "(\<exists>m. find_one_order oid user db = Inl (Forbidden m)) \<and>
    (\<exists>m. get_order_items oid user db = Inl (Forbidden m)) \<and>
    (\<exists>m. get_tracking oid user db = Inl (Forbidden m)) \<and>
    (\<exists>m. get_invoice oid user db = Inl (Forbidden m)) \<and>
    (\<exists>m. get_user_orders (o_userId ord) q user db = Inl (Forbidden m)) \<and>
    (\<exists>m. cancel_order oid reason nts user now db = (Inl (Forbidden m), db)) \<and>
    (\<exists>m. process_payment oid user now db = (Inl (Forbidden m), db))"
  using assms by (simp add: find_one_order_def get_order_items_def get_tracking_def get_invoice_def
      get_user_orders_def cancel_order_def process_payment_def own_order_def)

lemma order_access_witness:
  "\<exists>m. process_payment ''o1'' \<lparr>cu_id = ''u2'', cu_role = BUYER\<rparr> 1
     (snd (create_order (demo_ids ''o1'') 0 (demo_dto 1 2) demo_buyer (demo_shop 5))) =
   (Inl (Forbidden m), snd (create_order (demo_ids ''o1'') 0 (demo_dto 1 2) demo_buyer (demo_shop 5)))"
proof -
  have f: "find_order (o_id (new_order (demo_ids ''o1'') 0 (demo_dto 1 2)))
      (snd (create_order (demo_ids ''o1'') 0 (demo_dto 1 2) demo_buyer (demo_shop 5))) =
      Some (new_order (demo_ids ''o1'') 0 (demo_dto 1 2))"
    using create_order_found(1) [OF demo_create] unfolding demo_create by simp
  have id: "o_id (new_order (demo_ids ''o1'') 0 (demo_dto 1 2)) = ''o1''" by (simp add: new_order_def demo_ids_def)
  show ?thesis
    using order_access [OF f, of "\<lparr>cu_id = ''u2'', cu_role = BUYER\<rparr>"] unfolding id
    by (simp add: is_admin_def new_order_def demo_dto_def)
qed

text \<open>The pages of the order list are a partition of the matching orders: read from page 1 to
  \<open>totalPages\<close> they hold every matching order exactly once, and \<open>total\<close> counts them.\<close>

theorem order_pages_cover:
  assumes "find_all_orders q db = Inr pg" "0 < pg_limit pg" "distinct (orders db)"
  shows "\<exists>rows. distinct rows \<and> set rows = {x \<in> set (orders db). order_matches q db x} \<and>
    pg_total pg = int (length rows) \<and>
    concat (map (\<lambda>p. case find_all_orders (q\<lparr>q_page := Some (int p)\<rparr>) db of
        Inl _ \<Rightarrow> [] | Inr pg' \<Rightarrow> map v_order (pg_data pg'))
      [1..<Suc (nat (pg_totalPages pg))]) = rows"
proof -
  define lmt where "lmt = (case q_limit q of None \<Rightarrow> 10 | Some n \<Rightarrow> n)"
  define col where "col = (case q_sortBy q of None \<Rightarrow> ''createdAt'' | Some c \<Rightarrow> c)"
  obtain le where le: "map_of order_columns col = Some le"
    using assms(1) by (auto simp: find_all_orders_def list_orders_def Let_def col_def split: option.splits)
  define rows where "rows = sort_by (if q_ascending q = Some True then le else (\<lambda>x y. le y x)) (filter (order_matches q db) (orders db))"
  have asc: "(case q_ascending q of None \<Rightarrow> False | Some b \<Rightarrow> b) \<longleftrightarrow> q_ascending q = Some True"
    by (auto split: option.split)
  have match: "order_matches (q\<lparr>q_page := Some p\<rparr>) db = order_matches q db" for p
    by (simp add: order_matches_def fun_eq_iff split: option.split)
  have view: "v_order (order_view_of db x) = x" for x by (simp add: order_view_of_def)
  have page: "\<exists>pg'. find_all_orders (q\<lparr>q_page := Some p\<rparr>) db = Inr pg' \<and> map v_order (pg_data pg') = page_rows p lmt rows"
    for p using le by (simp add: find_all_orders_def list_orders_def Let_def match asc
        col_def [symmetric] lmt_def [symmetric] rows_def [symmetric] comp_def view)
  have page': "(case find_all_orders (q\<lparr>q_page := Some p\<rparr>) db of
      Inl _ \<Rightarrow> [] | Inr pg' \<Rightarrow> map v_order (pg_data pg')) = page_rows p lmt rows" for p
    using page [of p] by auto
  have pg: "pg_total pg = int (length rows)" "pg_totalPages pg = total_pages (int (length rows)) lmt" "pg_limit pg = lmt"
    using assms(1) le by (auto simp: find_all_orders_def list_orders_def Let_def lmt_def col_def rows_def)
  have "concat (map (\<lambda>p. case find_all_orders (q\<lparr>q_page := Some (int p)\<rparr>) db of
      Inl _ \<Rightarrow> [] | Inr pg' \<Rightarrow> map v_order (pg_data pg')) [1..<Suc (nat (pg_totalPages pg))]) =
      concat (map (\<lambda>p. page_rows (int p) lmt rows) [1..<Suc (nat (pg_totalPages pg))])"
    by (simp only: page')
  also have "\<dots> = rows" unfolding pg(2) by (rule pages_cover) (use assms(2) pg(3) in simp)
  finally show ?thesis using assms(3) pg(1) by (intro exI [of _ rows]) (simp add: rows_def)
qed

lemma order_pages_cover_witness:
  "\<exists>rows. set rows = set (orders (snd (create_order (demo_ids ''o1'') 0 (demo_dto 1 2) demo_buyer (demo_shop 5))))
    \<and> length rows = 1"
proof -
  let ?db = "snd (create_order (demo_ids ''o1'') 0 (demo_dto 1 2) demo_buyer (demo_shop 5))"
  let ?q = "\<lparr>q_page = None, q_limit = None, q_status = None, q_search = None, q_sortBy = None, q_ascending = None\<rparr>"
  have o: "orders ?db = [new_order (demo_ids ''o1'') 0 (demo_dto 1 2)]" unfolding demo_create by simp
  have m: "order_matches ?q ?db x" for x by (simp add: order_matches_def truthy_str_def)
  obtain pg where pg: "find_all_orders ?q ?db = Inr pg" "0 < pg_limit pg"
    by (simp add: find_all_orders_def list_orders_def order_columns_def Let_def)
  have "distinct (orders ?db)" unfolding o by simp
  from order_pages_cover [OF pg this] obtain rows
    where "distinct rows" "set rows = {x \<in> set (orders ?db). order_matches ?q ?db x}" by blast
  then have "distinct rows" "set rows = set (orders ?db)" using m by simp_all
  moreover have "card (set (orders ?db)) = 1" unfolding o by simp
  ultimately have "set rows = set (orders ?db) \<and> length rows = 1" using distinct_card [of rows] by metis
  then show ?thesis by blast
qed

end
