(* ===== verification/Checkout.thy ===== *)
theory Checkout
  imports Cart Orders
begin

section \<open>Checkout\<close>

text \<open>
  The \<open>checkout\<close> handler of \<open>modules/cart/cart.controller.ts\<close>, which joins the cart service and
  the orders service: the user's cart is priced for the delivery address, the addresses are kept in
  the cart's metadata, and the cart becomes an order. Nothing is undone when a later step fails.
  The request has passed the JWT guard, so \<open>userId\<close> is the caller's.
\<close>

record checkout_dto =
  k_paymentMethod :: payment_method
  k_shippingAddress :: ship_address
  k_billingAddress :: "ship_address option"
  k_shippingMethod :: "ship_method option"
  k_notes :: "string option"

text \<open>An address DTO as the JSON value the metadata keeps; absent fields are absent.\<close>

definition j_field :: "string \<Rightarrow> string option \<Rightarrow> (string \<times> json) list" where
  "j_field k v = (case v of None \<Rightarrow> [] | Some s \<Rightarrow> [(k, j_str s)])"

definition address_json :: "ship_address \<Rightarrow> json" where
  "address_json a = JObj ([(''region'', j_str (a_region a)), (''province'', j_str (a_province a)),
     (''city'', j_str (a_city a)), (''barangay'', j_str (a_barangay a)),
     (''addressLine1'', j_str (a_addressLine1 a))] @
     j_field ''addressLine2'' (a_addressLine2 a) @ j_field ''postalCode'' (a_postalCode a))"

definition checkout_method :: "checkout_dto \<Rightarrow> ship_method" where
  "checkout_method dto = (case k_shippingMethod dto of None \<Rightarrow> STANDARD | Some m \<Rightarrow> m)"

definition store_metadata :: "string \<Rightarrow> checkout_dto \<Rightarrow> ms \<Rightarrow> shop \<Rightarrow> shop" where
  "store_metadata cid dto now =
     update_cart_row cid (\<lambda>x. x\<lparr>c_shippingAddress := Some (address_json (k_shippingAddress dto)),
       c_billingAddress := Some (address_json
         (case k_billingAddress dto of None \<Rightarrow> k_shippingAddress dto | Some b \<Rightarrow> b)),
       c_notes := k_notes dto, c_updatedAt := now\<rparr>)"

definition checkout ::
  "string \<Rightarrow> fresh_ids \<Rightarrow> string \<Rightarrow> checkout_dto \<Rightarrow> ms \<Rightarrow> 's cart_world \<Rightarrow> order_row res \<times> 's cart_world" where
  "checkout cid ids userId dto now w =
     (if userId = [] then (Inl (InternalError ''User ID not found in request''), w)
      else and_then (get_or_create_cart cid (Some userId) None now w) (\<lambda>cart w1.
        (let k = c_id (cr_cart cart)
         in case calculate_totals k (Some (k_shippingAddress dto)) (Some (checkout_method dto)) now (fst w1) of
              (Inl e, db) \<Rightarrow> (Inl e, (db, snd w1))
            | (Inr _, db) \<Rightarrow>
                (let (r, db') = create_order_from_cart ids userId k (k_paymentMethod dto) now (store_metadata k dto now db)
                 in (r, (db', snd w1))))))"

subsection \<open>Lemmas\<close>

lemma store_metadata_find:
  "find_cart k (store_metadata cid dto now db) =
    (if k = cid then map_option (\<lambda>x. x\<lparr>c_shippingAddress := Some (address_json (k_shippingAddress dto)),
       c_billingAddress := Some (address_json (case k_billingAddress dto of None \<Rightarrow> k_shippingAddress dto | Some b \<Rightarrow> b)),
       c_notes := k_notes dto, c_updatedAt := now\<rparr>) (find_cart k db) else find_cart k db)"
  unfolding store_metadata_def by (rule find_cart_update) simp

lemma stock_of_update_cart_row [simp]: "stock_of pid (update_cart_row cid f db) = stock_of pid db"
  by (simp add: stock_of_def)

lemma stock_of_store_metadata [simp]: "stock_of pid (store_metadata cid dto now db) = stock_of pid db"
  by (simp add: store_metadata_def)

lemma stock_of_calculate_totals [simp]:
  "stock_of pid (snd (calculate_totals cid addr meth now db)) = stock_of pid db"
  by (simp add: calculate_totals_def Let_def split: option.split)

text \<open>A successful checkout took these steps.\<close>

lemma checkout_success:
  assumes "checkout cid ids userId dto now w = (Inr ord, (db', rs'))"
  obtains r db1 db2 c where "userId \<noteq> []"
    "get_or_create_cart cid (Some userId) None now w = (Inr r, (db1, rs'))"
    "calculate_totals (c_id (cr_cart r)) (Some (k_shippingAddress dto)) (Some (checkout_method dto)) now db1 = (Inr (), db2)"
    "find_cart (c_id (cr_cart r)) (store_metadata (c_id (cr_cart r)) dto now db2) = Some c"
    "create_order_from_cart ids userId (c_id (cr_cart r)) (k_paymentMethod dto) now
       (store_metadata (c_id (cr_cart r)) dto now db2) = (Inr ord, db')"
    "ord = cart_to_order ids userId (k_paymentMethod dto) now c"
    "find_cart (c_id (cr_cart r)) db' = Some (c\<lparr>c_status := C_COMPLETED, c_convertedAt := Some now, c_updatedAt := now\<rparr>)"
    "\<forall>pid. stock_of pid db' = map_option (\<lambda>x. x - ordered pid (cart_lines c)) (stock_of pid db1)"
proof -
  have u: "userId \<noteq> []" using assms by (auto simp: checkout_def)
  obtain r db1 rs1 where g: "get_or_create_cart cid (Some userId) None now w = (Inr r, (db1, rs1))"
    using assms u by (auto simp: checkout_def and_then_Inr_iff)
  let ?k = "c_id (cr_cart r)"
  obtain db2 where t: "calculate_totals ?k (Some (k_shippingAddress dto)) (Some (checkout_method dto)) now db1 = (Inr (), db2)"
    and o: "create_order_from_cart ids userId ?k (k_paymentMethod dto) now (store_metadata ?k dto now db2) = (Inr ord, db')"
    and rs: "rs' = rs1"
    using assms u g by (auto simp: checkout_def Let_def split: prod.splits sum.splits)
  obtain c where c: "find_active_cart userId ?k (store_metadata ?k dto now db2) = Some c"
    "ord = cart_to_order ids userId (k_paymentMethod dto) now c"
    "carts db' = update_by c_id (c_id c)
      (\<lambda>x. x\<lparr>c_status := C_COMPLETED, c_convertedAt := Some now, c_updatedAt := now\<rparr>) (carts (store_metadata ?k dto now db2))"
    "\<forall>pid. stock_of pid db' = map_option (\<lambda>x. x - ordered pid (cart_lines c)) (stock_of pid (store_metadata ?k dto now db2))"
    by (rule cart_order_success [OF o])
  have f: "find_cart ?k (store_metadata ?k dto now db2) = Some c"
    using c(1) by (auto simp: find_active_cart_def find_cart_def split: option.splits if_splits)
  then have k: "c_id c = ?k" by (auto simp: find_cart_def dest: find_by_SomeD)
  have "find_cart ?k db' = Some (c\<lparr>c_status := C_COMPLETED, c_convertedAt := Some now, c_updatedAt := now\<rparr>)"
    using f by (simp add: find_cart_def c(3) k find_by_update_by)
  moreover have "stock_of pid db2 = stock_of pid db1" for pid
    using stock_of_calculate_totals [of pid ?k "Some (k_shippingAddress dto)" "Some (checkout_method dto)" now db1] t by simp
  ultimately show thesis using u g t f o c(2,4) rs by (intro that) auto
qed

text \<open>Checking out a cart that is not active fails.\<close>

lemma checkout_completed:
  assumes "find_cart k db = Some c" "c_status c \<noteq> C_ACTIVE"
  shows "\<exists>db2. calculate_totals k addr meth t db = (Inr (), db2) \<and>
    create_order_from_cart ids userId k pm t (store_metadata k dto t db2) =
      (Inl (NotFound ''Active cart not found for this user''), store_metadata k dto t db2)"
proof -
  obtain c' :: cart_row where c': "calculate_totals k addr meth t db =
      (Inr (), update_cart_row k (\<lambda>x. x\<lparr>c_subtotal := c_subtotal c', c_tax := c_tax c',
        c_shipping := c_shipping c', c_total := c_total c', c_lastActivityAt := t, c_updatedAt := t\<rparr>) db)"
    using calculate_totals_ok [OF assms(1), of addr meth t] by blast
  show ?thesis
    using assms by (auto simp: c' create_order_from_cart_def cart_order_check_def find_active_cart_def
        find_cart_def store_metadata_def update_cart_row_def find_by_update_by)
qed

definition demo_address :: ship_address where
  "demo_address = \<lparr>a_region = ''NCR'', a_province = ''Metro Manila'', a_city = ''Quezon City'',
     a_barangay = ''Commonwealth'', a_postalCode = None, a_addressLine1 = ''123'', a_addressLine2 = None\<rparr>"

definition demo_checkout :: checkout_dto where
  "demo_checkout = \<lparr>k_paymentMethod = GCASH, k_shippingAddress = demo_address, k_billingAddress = None,
     k_shippingMethod = None, k_notes = None\<rparr>"

lemma demo_get_cart:
  "get_or_create_cart ''c9'' (Some ''u1'') None 1 ((demo_shop 5)\<lparr>carts := [demo_cart 2]\<rparr>, mem_service) =
    (Inr (format_cart_response (demo_cart 2)), ((demo_shop 5)\<lparr>carts := [demo_cart 2]\<rparr>,
      cart_cache_set (format_cart_response (demo_cart 2)) (Some ''u1'') None 1 mem_service))"
proof -
  have t: "truthy_str (Some ''u1'') \<or> truthy_str None" by (simp add: truthy_str_def)
  have m: "cart_cache_get (Some ''u1'') None 1 mem_service = None"
    by (simp add: cart_cache_get_def cart_cache_key_def truthy_str_def mem.get_up)
  show ?thesis
    by (simp add: get_or_create_miss [OF m t] find_first_active_def is_active_of_def truthy_str_def demo_cart_def)
qed

lemma demo_checkout_ok:
  "\<exists>ord db'. checkout ''c9'' (demo_ids ''o1'') ''u1'' demo_checkout 1
      ((demo_shop 5)\<lparr>carts := [demo_cart 2]\<rparr>, mem_service) =
    (Inr ord, (db', cart_cache_set (format_cart_response (demo_cart 2)) (Some ''u1'') None 1 mem_service))"
proof -
  let ?db = "(demo_shop 5)\<lparr>carts := [demo_cart 2]\<rparr>"
  have id: "c_id (cr_cart (format_cart_response (demo_cart 2))) = ''c1''"
    by (simp add: format_cart_response_def demo_cart_def)
  have "find_cart ''c1'' ?db = Some (demo_cart 2)" by (simp add: find_cart_def demo_cart_def)
  then obtain c' :: cart_row where t: "calculate_totals ''c1'' (Some demo_address) (Some STANDARD) 1 ?db =
      (Inr (), update_cart_row ''c1'' (\<lambda>x. x\<lparr>c_subtotal := c_subtotal c', c_tax := c_tax c',
        c_shipping := c_shipping c', c_total := c_total c', c_lastActivityAt := 1, c_updatedAt := 1\<rparr>) ?db)"
    using calculate_totals_ok by blast
  have "\<exists>ord db'. create_order_from_cart (demo_ids ''o1'') ''u1'' ''c1'' GCASH 1 (store_metadata ''c1'' demo_checkout 1
      (snd (calculate_totals ''c1'' (Some demo_address) (Some STANDARD) 1 ?db))) = (Inr ord, db')"
    unfolding t snd_conv
    by (simp add: store_metadata_def update_cart_row_def demo_cart_def demo_item_def create_order_from_cart_def
        cart_order_check_def find_active_cart_def cart_order_commit_def insert_order_def cart_to_order_def demo_ids_def demo_defs)
  then show ?thesis
    unfolding checkout_def demo_get_cart
    by (auto simp: id t demo_checkout_def checkout_method_def Let_def split: prod.splits)
qed

subsection \<open>Properties\<close>

text \<open>C37. A checkout charges what the cart holds: the order of a successful checkout has the cart's
  lines, the rounded tax of the delivery region, the shipping of the chosen method for the cart's
  weight, a total that is their sum less the discount and a pending payment of that total; it keeps
  the delivery address, which is also the billing address unless another is given; the stock falls
  by exactly the quantities of the cart and the cart is completed.\<close>

theorem checkout_charges_cart:
  assumes "checkout cid ids userId dto now w = (Inr ord, (db', rs'))"
    and "get_or_create_cart cid (Some userId) None now w = (Inr r, (db1, rs1))"
    and "find_cart (c_id (cr_cart r)) db1 = Some c"
    and "list_all (\<lambda>i. cents (ci_total i)) (c_items c)" "cents (c_discount c)"
  shows "o_subtotal ord = sum_list (map ci_total (c_items c)) \<and>
    o_tax ord = to_decimal_places2 (o_subtotal ord * get_tax_rate (a_region (k_shippingAddress dto))) \<and>
    o_shipping ord = calculate_shipping (cart_weight db1 (c_items c)) (k_shippingAddress dto) (checkout_method dto) \<and>
    o_total ord = o_subtotal ord + o_tax ord + o_shipping ord - c_discount c \<and>
    map pay_amount (o_payments ord) = [o_total ord] \<and> map pay_status (o_payments ord) = [PAY_PENDING] \<and>
    map (\<lambda>i. (oi_productId i, oi_quantity i)) (o_items ord) = cart_lines c \<and>
    o_shippingAddress ord = address_json (k_shippingAddress dto) \<and>
    (k_billingAddress dto = None \<longrightarrow> o_billingAddress ord = o_shippingAddress ord) \<and>
    (\<forall>pid. stock_of pid db' = map_option (\<lambda>x. x - ordered pid (cart_lines c)) (stock_of pid db1)) \<and>
    map_option c_status (find_cart (c_id c) db') = Some C_COMPLETED"
proof -
  obtain db2 c2 where s:
    "calculate_totals (c_id (cr_cart r)) (Some (k_shippingAddress dto)) (Some (checkout_method dto)) now db1 = (Inr (), db2)"
    "find_cart (c_id (cr_cart r)) (store_metadata (c_id (cr_cart r)) dto now db2) = Some c2"
    "ord = cart_to_order ids userId (k_paymentMethod dto) now c2"
    "find_cart (c_id (cr_cart r)) db' = Some (c2\<lparr>c_status := C_COMPLETED, c_convertedAt := Some now, c_updatedAt := now\<rparr>)"
    "\<forall>pid. stock_of pid db' = map_option (\<lambda>x. x - ordered pid (cart_lines c2)) (stock_of pid db1)"
    by (rule checkout_success [OF assms(1)]) (use assms(2) in auto)
  obtain c1 where t: "find_cart (c_id (cr_cart r)) db2 = Some c1"
    "c_total c1 = c_subtotal c1 + c_tax c1 + c_shipping c1 - c_discount c1"
    "c_subtotal c1 = sum_list (map ci_total (c_items c1))"
    "c_tax c1 = to_decimal_places2 (c_subtotal c1 * get_tax_rate (a_region (k_shippingAddress dto)))"
    "c_shipping c1 = calculate_shipping (cart_weight db1 (c_items c)) (k_shippingAddress dto) (checkout_method dto)"
    "c_items c1 = c_items c" "c_discount c1 = c_discount c"
    using calculate_totals_amounts [OF assms(3-5), of "Some (k_shippingAddress dto)" "Some (checkout_method dto)" now] s(1)
    by auto
  have id: "c_id c = c_id (cr_cart r)" using assms(3) by (auto simp: find_cart_def dest: find_by_SomeD)
  have c2: "c_items c2 = c_items c" "c_subtotal c2 = c_subtotal c1" "c_tax c2 = c_tax c1" "c_shipping c2 = c_shipping c1"
    "c_total c2 = c_total c1" "c_shippingAddress c2 = Some (address_json (k_shippingAddress dto))"
    "k_billingAddress dto = None \<longrightarrow> c_billingAddress c2 = Some (address_json (k_shippingAddress dto))"
    using s(2) t(1,6) by (auto simp: store_metadata_find)
  have lines: "cart_lines c2 = cart_lines c" by (simp add: cart_lines_def c2(1))
  show ?thesis
    using s(5) t(2-5,7) c2(7) by (simp add: s(3,4) id lines cart_to_order_def c2(1-6) t(6) cart_lines_def comp_def)
qed

lemma checkout_charges_cart_witness:
  "\<exists>ord db' rs'. checkout ''c9'' (demo_ids ''o1'') ''u1'' demo_checkout 1
      ((demo_shop 5)\<lparr>carts := [demo_cart 2]\<rparr>, mem_service) = (Inr ord, (db', rs')) \<and>
    o_subtotal ord = 20 \<and> stock_of ''p1'' db' = Some 3"
proof -
  let ?db = "(demo_shop 5)\<lparr>carts := [demo_cart 2]\<rparr>"
  obtain ord db' rs' where ok: "checkout ''c9'' (demo_ids ''o1'') ''u1'' demo_checkout 1 (?db, mem_service) = (Inr ord, (db', rs'))"
    using demo_checkout_ok by blast
  have "find_cart (c_id (cr_cart (format_cart_response (demo_cart 2)))) ?db = Some (demo_cart 2)"
    by (simp add: find_cart_def format_cart_response_def demo_cart_def)
  moreover have "list_all (\<lambda>i. cents (ci_total i)) (c_items (demo_cart 2))" "cents (c_discount (demo_cart 2))"
    using cents_int [of 20] by (simp_all add: demo_cart_def demo_item_def)
  ultimately have "o_subtotal ord = 20 \<and> stock_of ''p1'' db' = Some 3"
    using checkout_charges_cart [OF ok demo_get_cart]
    by (simp add: demo_cart_def demo_item_def cart_lines_def demo_defs)
  with ok show ?thesis by blast
qed

text \<open>Checkout leaves the ordered cart in the cache: for the 24 hours of the cache entry the
  user's \<open>getOrCreateCart\<close> goes on answering the ordered cart as an active one, although the
  database has it completed, and checking out again answers that there is no active cart.\<close>

theorem checkout_leaves_stale_cart:
  fixes rs :: "'s redis_service"
  assumes "redis_server c view" "redis_server.up c rs" "cart_cache_get (Some userId) None now rs = None"
    and "checkout cid ids userId dto now (db, rs) = (Inr ord, (db', rs'))" "t < now + 86400000"
  shows "\<exists>r. get_or_create_cart cid' (Some userId) None t (db', rs') = (Inr r, (db', rs')) \<and>
    c_status (cr_cart r) = C_ACTIVE \<and>
    map_option c_status (find_cart (c_id (cr_cart r)) db') = Some C_COMPLETED \<and>
    fst (checkout cid' ids' userId dto' t (db', rs')) = Inl (NotFound ''Active cart not found for this user'')"
proof -
  obtain r db1 c2 where s: "userId \<noteq> []"
    "get_or_create_cart cid (Some userId) None now (db, rs) = (Inr r, (db1, rs'))"
    "find_cart (c_id (cr_cart r)) db' = Some (c2\<lparr>c_status := C_COMPLETED, c_convertedAt := Some now, c_updatedAt := now\<rparr>)"
    by (rule checkout_success [OF assms(4)]) auto
  have tr: "truthy_str (Some userId) \<or> truthy_str None" using s(1) by (simp add: truthy_str_def)
  obtain k where k: "cart_cache_key (Some userId) None = Some k"
    using s(1) by (simp add: cart_cache_key_def truthy_str_def)
  have r: "rs' = cart_cache_set r (Some userId) None now rs \<and> c_status (cr_cart r) = C_ACTIVE"
    using s(2) unfolding get_or_create_miss [OF assms(3) tr]
    by (auto simp: find_first_active_def is_active_of_def find_Some_iff format_cart_response_def insert_cart_def new_cart_def
        split: option.splits if_splits)
  then have hit: "cart_cache_get (Some userId) None t rs' = Some r"
    using redis_server.cart_cache_get_set [OF assms(1,2) k] k assms(5) by simp
  have g: "get_or_create_cart cid'' (Some userId) None t (db', rs') = (Inr r, (db', rs'))" for cid''
    using tr by (simp add: get_or_create_cart_def hit)
  obtain db2 where again:
    "calculate_totals (c_id (cr_cart r)) (Some (k_shippingAddress dto')) (Some (checkout_method dto')) t db' = (Inr (), db2)"
    "create_order_from_cart ids' userId (c_id (cr_cart r)) (k_paymentMethod dto') t (store_metadata (c_id (cr_cart r)) dto' t db2) =
      (Inl (NotFound ''Active cart not found for this user''), store_metadata (c_id (cr_cart r)) dto' t db2)"
    using checkout_completed [OF s(3), of "Some (k_shippingAddress dto')" "Some (checkout_method dto')" t
        ids' userId "k_paymentMethod dto'" dto'] by auto
  have "fst (checkout cid' ids' userId dto' t (db', rs')) = Inl (NotFound ''Active cart not found for this user'')"
    unfolding checkout_def g by (simp add: s(1) again)
  then show ?thesis using r s(3) g by simp
qed

lemma checkout_leaves_stale_cart_witness:
  "\<exists>ord db' rs' r. checkout ''c9'' (demo_ids ''o1'') ''u1'' demo_checkout 1
      ((demo_shop 5)\<lparr>carts := [demo_cart 2]\<rparr>, mem_service) = (Inr ord, (db', rs')) \<and>
    fst (get_or_create_cart ''c8'' (Some ''u1'') None 86400000 (db', rs')) = Inr r \<and> c_status (cr_cart r) = C_ACTIVE"
proof -
  obtain ord db' rs' where ok: "checkout ''c9'' (demo_ids ''o1'') ''u1'' demo_checkout 1
      ((demo_shop 5)\<lparr>carts := [demo_cart 2]\<rparr>, mem_service) = (Inr ord, (db', rs'))"
    using demo_checkout_ok by blast
  have m: "cart_cache_get (Some ''u1'') None 1 mem_service = None"
    by (simp add: cart_cache_get_def cart_cache_key_def truthy_str_def mem.get_up)
  have "\<exists>r. fst (get_or_create_cart ''c8'' (Some ''u1'') None 86400000 (db', rs')) = Inr r \<and> c_status (cr_cart r) = C_ACTIVE"
    using checkout_leaves_stale_cart [OF mem.redis_server_axioms mem_service_up m ok, of 86400000 "''c8''" "demo_ids ''o2''" demo_checkout] by auto
  with ok show ?thesis by blast
qed

end
