(* ===== verification/Cart_Merge.thy ===== *)
theory Cart_Merge
  imports Cart
begin

section \<open>What merging a guest cart does\<close>

text \<open>
  The effect of \<open>mergeGuestCart\<close> (\<open>modules/cart/cart.service.ts\<close>) on the user's cart, product by
  product: a specification of the quantities that the loop over the guest's items implements.
\<close>

definition line_qty :: "string \<Rightarrow> cart_row \<Rightarrow> int option" where
  "line_qty pid c = map_option ci_quantity (find_by ci_productId pid (c_items c))"

text \<open>The quantity of a product of which the user has \<open>old\<close> and the guest \<open>q\<close>.\<close>

fun merged_qty :: "product_row \<Rightarrow> int option \<Rightarrow> int \<Rightarrow> int option" where
  "merged_qty p (Some old) q = Some (min (old + q) (min (max_qty p) (p_stock p)))"
| "merged_qty p None q = (if p_isActive p \<and> q \<le> p_stock p then Some q else None)"

definition merged_line :: "shop \<Rightarrow> (string \<times> cart_item) list \<Rightarrow> cart_row \<Rightarrow> string \<Rightarrow> int option" where
  "merged_line db gs c pid =
     (case find_by (ci_productId \<circ> snd) pid gs of
        None \<Rightarrow> line_qty pid c
      | Some (_, gi) \<Rightarrow>
          (case find_product pid db of None \<Rightarrow> line_qty pid c | Some p \<Rightarrow> merged_qty p (line_qty pid c) (ci_quantity gi)))"

lemma find_product_merge_item [simp]: "find_product pid (merge_item ucid g db) = find_product pid db"
  by (cases g) (auto simp: merge_item_def insert_item_def Let_def split: option.split)

lemma find_by_update_line:
  assumes "distinct (map ci_id is)" "old \<in> set is" "\<And>x. ci_productId (f x) = ci_productId x" "ci_productId old \<noteq> pid"
  shows "find_by ci_productId pid (update_by ci_id (ci_id old) f is) = find_by ci_productId pid is"
proof -
  have "find_by ci_productId pid (update_by ci_id (ci_id old) f is) =
      map_option (\<lambda>r. if ci_id r = ci_id old then f r else r) (find_by ci_productId pid is)"
    unfolding update_by_def by (rule find_by_update_where) (simp add: assms(3))
  moreover have "ci_id r \<noteq> ci_id old" if "find_by ci_productId pid is = Some r" for r
  proof
    have r: "r \<in> set is" "ci_productId r = pid" using find_by_SomeD [OF that] by auto
    assume "ci_id r = ci_id old"
    then have "r = old" using assms(1,2) r(1) by (metis distinct_map inj_onD)
    then show False using r(2) assms(4) by simp
  qed
  ultimately show ?thesis by (cases "find_by ci_productId pid is") auto
qed

lemma line_ids_distinct:
  assumes "carts_ok db" "find_cart cid db = Some c"
  shows "distinct (map ci_id (c_items c))"
proof -
  have "c \<in> set (carts db)" using assms(2) by (auto simp: find_cart_def dest: find_by_SomeD)
  then obtain as bs where "carts db = as @ c # bs" by (meson split_list)
  with assms(1) show ?thesis by (simp add: carts_ok_def all_items_def)
qed

text \<open>The merge inserts only the ids it is given.\<close>

lemma fresh_after_merge:
  "carts_ok db \<Longrightarrow> fresh_item i db \<Longrightarrow> i \<noteq> fst g \<Longrightarrow> fresh_item i (merge_item ucid g db)"
  using item_ids_merge_item [of db ucid g] by (auto simp: fresh_item_def)

lemma find_cart_ids: "find_cart k db = None \<longleftrightarrow> k \<notin> set (map c_id (carts db))"
  by (simp add: find_cart_def find_by_None_iff)

lemma find_cart_get_or_create:
  assumes "get_or_create_cart cid uid sid now (db, rs) = (r, (db', rs'))" "find_cart k db \<noteq> None"
  shows "find_cart k db' = find_cart k db"
  using assms by (auto simp: get_or_create_cart_def Let_def insert_cart_def find_cart_def
      split: if_splits option.splits prod.splits sum.splits)

lemma calculate_totals_keeps:
  assumes "calculate_totals cid addr meth now db = (r, db')" "find_cart k db = Some c"
  shows "\<exists>c'. find_cart k db' = Some c' \<and> c_items c' = c_items c \<and> c_status c' = c_status c"
  using assms by (auto simp: calculate_totals_def Let_def find_cart_update split: option.splits if_splits)

text \<open>One turn of the loop.\<close>

lemma merge_item_line:
  assumes ok: "carts_ok db" and fc: "find_cart ucid db = Some c"
  shows "\<exists>c'. find_cart ucid (merge_item ucid (iid, gi) db) = Some c' \<and>
    (\<forall>pid. line_qty pid c' = merged_line db [(iid, gi)] c pid)"
proof (cases "find_product (ci_productId gi) db")
  case None
  then show ?thesis using fc by (auto simp: merge_item_def merged_line_def)
next
  case (Some p)
  show ?thesis
  proof (cases "find_by ci_productId (ci_productId gi) (c_items c)")
    case none: None
    then show ?thesis
      using Some fc by (auto simp: merge_item_def merged_line_def insert_item_def find_cart_update line_qty_def
          split: option.splits)
  next
    case old: (Some old)
    let ?f = "\<lambda>x. x\<lparr>ci_quantity := min (ci_quantity old + ci_quantity gi) (min (max_qty p) (p_stock p)),
      ci_subtotal := db_decimal (p_price p * of_int (min (ci_quantity old + ci_quantity gi) (min (max_qty p) (p_stock p)))),
      ci_total := db_decimal (p_price p * of_int (min (ci_quantity old + ci_quantity gi) (min (max_qty p) (p_stock p))))\<rparr>"
    let ?c = "c\<lparr>c_items := update_by ci_id (ci_id old) ?f (c_items c)\<rparr>"
    have m: "find_cart ucid (merge_item ucid (iid, gi) db) = Some ?c"
      using fc by (simp add: merge_item_def Some old find_cart_update_item Let_def)
    have o: "old \<in> set (c_items c)" "ci_productId old = ci_productId gi" using find_by_SomeD [OF old] by auto
    have other: "find_by ci_productId pid (c_items ?c) = find_by ci_productId pid (c_items c)" if "pid \<noteq> ci_productId gi" for pid
      using find_by_update_line [OF line_ids_distinct [OF ok fc] o(1), of ?f pid] that o(2) by simp
    have "find_by ci_productId (ci_productId gi) (update_by ci_id (ci_id old) ?f (c_items c)) =
        map_option (\<lambda>r. if ci_id r = ci_id old then ?f r else r) (find_by ci_productId (ci_productId gi) (c_items c))"
      unfolding update_by_def by (rule find_by_update_where) simp
    then have "line_qty (ci_productId gi) ?c = merged_qty p (line_qty (ci_productId gi) c) (ci_quantity gi)"
      by (simp add: line_qty_def old)
    with m other Some show ?thesis by (auto simp: merged_line_def line_qty_def)
  qed
qed

text \<open>The loop, over guest items of distinct products.\<close>

lemma merge_items_line:
  assumes "carts_ok db" "find_cart ucid db = Some c" "distinct (map fst gs)"
    and "distinct (map (ci_productId \<circ> snd) gs)" "\<forall>g \<in> set gs. fresh_item (fst g) db"
  shows "\<exists>c'. find_cart ucid (fold (merge_item ucid) gs db) = Some c' \<and> (\<forall>pid. line_qty pid c' = merged_line db gs c pid)"
  using assms
proof (induction gs arbitrary: db c)
  case Nil
  then show ?case by (auto simp: merged_line_def)
next
  case (Cons g gs)
  obtain iid gi where g: "g = (iid, gi)" by fastforce
  obtain c1 where c1: "find_cart ucid (merge_item ucid g db) = Some c1"
    "\<forall>pid. line_qty pid c1 = merged_line db [g] c pid"
    using merge_item_line [OF Cons.prems(1,2), of iid gi] g by blast
  have "carts_ok (merge_item ucid g db)" using carts_ok_merge_item [of db g ucid] Cons.prems by simp
  moreover have "\<forall>h \<in> set gs. fresh_item (fst h) (merge_item ucid g db)"
    using fresh_after_merge [OF Cons.prems(1)] Cons.prems(3,5) by (metis distinct.simps(2) image_eqI list.set_intros(2) list.simps(9) list.set_map)
  ultimately obtain c' where c': "find_cart ucid (fold (merge_item ucid) gs (merge_item ucid g db)) = Some c'"
    "\<forall>pid. line_qty pid c' = merged_line (merge_item ucid g db) gs c1 pid"
    using Cons.IH [OF _ c1(1)] Cons.prems(3,4) by auto
  have absent: "find_by (ci_productId \<circ> snd) (ci_productId gi) gs = None"
    using Cons.prems(4) by (auto simp: g find_by_None_iff)
  have "merged_line (merge_item ucid g db) gs c1 pid = merged_line db (g # gs) c pid" for pid
    using c1(2) absent by (auto simp: merged_line_def g split: option.split)
  with c' show ?case by simp
qed

subsection \<open>Properties\<close>

text \<open>Merging a guest cart adds it up line by line: after a successful merge the user's cart has,
  of every product, what it had plus the guest's pieces, cut to the cart limit and the stock; a
  product it did not have comes with the guest's quantity when it is active and in stock, and is
  skipped otherwise; other lines stay. The guest cart is merged and found no more.\<close>

theorem merge_adds_quantities:
  assumes "carts_ok (fst w)" "find_session_cart sid (fst w) = Some guest" "c_items guest \<noteq> []"
    and "find_user_cart uid (fst w) = Some user" "length iids = length (c_items guest)"
    and "distinct iids" "\<forall>i \<in> set iids. fresh_item i (fst w)"
    and "merge_guest_cart cids iids uid sid now w = (Inr r, (db', rs'))"
  shows "(\<exists>c'. find_cart (c_id user) db' = Some c' \<and>
      (\<forall>pid. line_qty pid c' = merged_line (fst w) (zip iids (c_items guest)) user pid)) \<and>
    map_option c_status (find_cart (c_id guest) db') = Some C_MERGED"
proof -
  let ?gs = "zip iids (c_items guest)"
  let ?m = "mark_merged (c_id guest) now (fold (merge_item (c_id user)) ?gs (fst w))"
  obtain db1 where t: "calculate_totals (c_id user) None None now ?m = (Inr (), db1)"
    and g: "get_or_create_cart (snd cids) (Some uid) None now
      (db1, cart_cache_invalidate None (Some sid) now (cart_cache_invalidate (Some uid) None now (snd w))) = (Inr r, (db', rs'))"
    using assms(2-4,8) by (auto simp: merge_guest_cart_def Let_def split: prod.splits sum.splits)
  have mem: "guest \<in> set (carts (fst w))" "user \<in> set (carts (fst w))"
    using assms(2,4) by (auto simp: find_session_cart_def find_user_cart_def find_Some_iff)
  have ids: "find_cart (c_id guest) (fst w) = Some guest" "find_cart (c_id user) (fst w) = Some user"
    using assms(1) mem find_by_distinct by (auto simp: carts_ok_def find_cart_def)
  have gs: "distinct (map fst ?gs)" "distinct (map (ci_productId \<circ> snd) ?gs)" "\<forall>g \<in> set ?gs. fresh_item (fst g) (fst w)"
  proof -
    show "distinct (map fst ?gs)" using assms(5,6) by simp
    have "map (ci_productId \<circ> snd) ?gs = map ci_productId (c_items guest)" using assms(5) by (simp flip: map_map)
    then show "distinct (map (ci_productId \<circ> snd) ?gs)" using assms(1) mem(1) by (simp add: carts_ok_def)
    show "\<forall>g \<in> set ?gs. fresh_item (fst g) (fst w)" using assms(7) by (auto dest: set_zip_leftD)
  qed
  obtain c1 where c1: "find_cart (c_id user) (fold (merge_item (c_id user)) ?gs (fst w)) = Some c1"
    "\<forall>pid. line_qty pid c1 = merged_line (fst w) ?gs user pid"
    using merge_items_line [OF assms(1) ids(2) gs] by blast
  obtain c2 where c2: "find_cart (c_id user) ?m = Some c2" "c_items c2 = c_items c1"
    using c1(1) by (cases "c_id user = c_id guest") (simp_all add: mark_merged_def find_cart_update)
  have keep: "find_cart k db' = find_cart k db1" if "find_cart k db1 \<noteq> None" for k
    using find_cart_get_or_create [OF g] that by auto
  have "c_status x = C_MERGED" if "find_cart (c_id guest) ?m = Some x" for x
    using that by (auto simp: mark_merged_def find_cart_update)
  moreover have "find_cart (c_id guest) ?m \<noteq> None"
    using mem(1) cart_ids_merge_items [of "c_id user" ?gs "fst w"]
    by (auto simp: mark_merged_def find_cart_update find_cart_ids)
  ultimately obtain x where x: "find_cart (c_id guest) ?m = Some x" "c_status x = C_MERGED" by blast
  show ?thesis
    using calculate_totals_keeps [OF t, of "c_id user"] calculate_totals_keeps [OF t, of "c_id guest"]
      c2 c1(2) x keep by (fastforce simp: line_qty_def)
qed

definition demo_guest :: "int \<Rightarrow> cart_row" where
  "demo_guest k = (demo_cart k)\<lparr>c_id := ''c2'', c_userId := None, c_sessionId := Some ''s1'',
     c_items := [(demo_item k)\<lparr>ci_id := ''i2''\<rparr>]\<rparr>"

definition demo_two_carts :: shop where
  "demo_two_carts = (demo_shop 4)\<lparr>carts := [demo_cart 2, demo_guest 3]\<rparr>"

lemma demo_two_carts_simps:
  "find_session_cart ''s1'' demo_two_carts = Some (demo_guest 3)"
  "find_user_cart ''u1'' demo_two_carts = Some (demo_cart 2)"
  "c_id (demo_cart 2) = ''c1''" "c_id (demo_guest 3) = ''c2''" "c_items (demo_guest 3) = [(demo_item 3)\<lparr>ci_id := ''i2''\<rparr>]"
  "carts_ok demo_two_carts"
  by (simp_all add: find_session_cart_def find_user_cart_def demo_two_carts_def demo_guest_def demo_cart_def
      demo_item_def carts_ok_def all_items_def)

lemma demo_merge_ok:
  "\<exists>r w'. merge_guest_cart (''c8'', ''c9'') [''i3''] ''u1'' ''s1'' 1 (demo_two_carts, mem_service) = (Inr r, w')"
proof -
  let ?m = "mark_merged ''c2'' 1 (fold (merge_item ''c1'') (zip [''i3''] [(demo_item 3)\<lparr>ci_id := ''i2''\<rparr>]) demo_two_carts)"
  let ?rs = "cart_cache_invalidate None (Some ''s1'') 1 (cart_cache_invalidate (Some ''u1'') None 1 mem_service)"
  have t: "truthy_str (Some ''u1'') \<or> truthy_str None" by (simp add: truthy_str_def)
  have k: "cart_cache_key (Some ''u1'') None = Some ''cart:user:u1''" "cart_cache_key None (Some ''s1'') = Some ''cart:session:s1''"
    by (simp_all add: cart_cache_key_def truthy_str_def)
  have m: "cart_cache_get (Some ''u1'') None 1 ?rs = None"
    by (simp add: mem.cart_cache_get_invalidate [OF mem.cart_cache_up(2) [OF mem_service_up] k(2)]
        mem.cart_cache_get_invalidate [OF mem_service_up k(1)] k)
  obtain c where "find_cart ''c1'' ?m = Some c"
  proof -
    have "find_cart ''c1'' ?m \<noteq> None"
      unfolding find_cart_ids cart_ids_mark_merged cart_ids_merge_items
      by (simp add: demo_two_carts_def demo_two_carts_simps)
    then show thesis using that by blast
  qed
  then obtain db1 where tot: "calculate_totals ''c1'' None None 1 ?m = (Inr (), db1)"
    by (auto simp: calculate_totals_def Let_def)
  have "heads db1 = heads ?m" using heads_calculate [of "''c1''" None None 1 ?m] unfolding tot by simp
  then have "find_first_active (Some ''u1'') None db1 \<noteq> None"
    unfolding find_first_active_heads
    by (simp only: heads_mark_merged heads_merge_items)
      (simp add: heads_def demo_two_carts_def demo_cart_def demo_guest_def truthy_str_def)
  then show ?thesis
    by (auto simp: merge_guest_cart_def demo_two_carts_simps tot [simplified] Let_def get_or_create_miss [OF m t])
qed

lemma merge_adds_quantities_witness:
  "\<exists>r db' rs'. merge_guest_cart (''c8'', ''c9'') [''i3''] ''u1'' ''s1'' 1 (demo_two_carts, mem_service) = (Inr r, (db', rs')) \<and>
    (\<exists>c. find_cart ''c1'' db' = Some c \<and> line_qty ''p1'' c = Some 4)"
proof -
  obtain r db' rs' where ok: "merge_guest_cart (''c8'', ''c9'') [''i3''] ''u1'' ''s1'' 1 (demo_two_carts, mem_service) =
      (Inr r, (db', rs'))"
    using demo_merge_ok by auto
  have "fresh_item ''i3'' demo_two_carts"
    by (simp add: fresh_item_def all_items_def demo_two_carts_def demo_guest_def demo_cart_def demo_item_def)
  then obtain c where "find_cart ''c1'' db' = Some c"
    "\<forall>pid. line_qty pid c = merged_line demo_two_carts (zip [''i3''] (c_items (demo_guest 3))) (demo_cart 2) pid"
    using merge_adds_quantities [OF _ _ _ _ _ _ _ ok, of "demo_guest 3" "demo_cart 2"] by (auto simp: demo_two_carts_simps)
  moreover have "merged_line demo_two_carts (zip [''i3''] (c_items (demo_guest 3))) (demo_cart 2) ''p1'' = Some 4"
    by (simp add: merged_line_def demo_two_carts_simps)
      (simp add: demo_two_carts_def demo_item_def demo_cart_def line_qty_def max_qty_def num_or_def demo_defs)
  ultimately show ?thesis using ok by auto
qed

end
