(* ===== verification/Cart_Scheduler.thy ===== *)
theory Cart_Scheduler
  imports Cart
begin

section \<open>The cart scheduler\<close>

text \<open>
  \<open>modules/cart/cart-scheduler.service.ts\<close>: the daily job that expires inactive carts, the job that
  stamps abandoned ones, and the statistics. Days are 24 hours, as in a time zone without daylight
  saving time such as the shop's. A job is one step on the tables; its updates are single statements.
\<close>

definition DAY :: ms where "DAY = 86400000"
definition HOUR :: ms where "HOUR = 3600000"

definition guest_due :: "ms \<Rightarrow> cart_row \<Rightarrow> bool" where
  "guest_due now c \<longleftrightarrow> c_status c = C_ACTIVE \<and> c_lastActivityAt c < now - 7 * DAY \<and> c_userId c = None \<and> c_sessionId c \<noteq> None"

definition user_due :: "ms \<Rightarrow> cart_row \<Rightarrow> bool" where
  "user_due now c \<longleftrightarrow> c_status c = C_ACTIVE \<and> c_lastActivityAt c < now - 30 * DAY \<and> c_userId c \<noteq> None"

definition update_carts :: "(cart_row \<Rightarrow> bool) \<Rightarrow> (cart_row \<Rightarrow> cart_row) \<Rightarrow> shop \<Rightarrow> nat \<times> shop" where
  "update_carts p f db = (length (filter p (carts db)), db\<lparr>carts := update_where p f (carts db)\<rparr>)"

definition expire_row :: "ms \<Rightarrow> cart_row \<Rightarrow> cart_row" where
  "expire_row now c = c\<lparr>c_status := C_EXPIRED, c_expiresAt := Some now, c_updatedAt := now\<rparr>"

record expire_result =
  ex_guest :: nat
  ex_user :: nat
  ex_total :: nat

definition expire_inactive_carts :: "ms \<Rightarrow> shop \<Rightarrow> expire_result \<times> shop" where
  "expire_inactive_carts now db =
     (let (guests, db1) = update_carts (guest_due now) (expire_row now) db;
          (us, db2) = update_carts (user_due now) (expire_row now) db1
      in (\<lparr>ex_guest = guests, ex_user = us, ex_total = guests + us\<rparr>, db2))"

definition abandon_due :: "ms \<Rightarrow> cart_row \<Rightarrow> bool" where
  "abandon_due now c \<longleftrightarrow> c_status c = C_ACTIVE \<and> c_lastActivityAt c < now - 3 * HOUR \<and> c_abandonedAt c = None \<and> c_items c \<noteq> []"

datatype user_type = Authenticated | Guest

record abandon_result =
  ab_count :: nat
  ab_timestamp :: ms
  ab_metrics :: "user_type list"

text \<open>The abandonment metric is recorded once for each cart found before the update.\<close>

definition detect_abandoned_carts :: "ms \<Rightarrow> shop \<Rightarrow> abandon_result \<times> shop" where
  "detect_abandoned_carts now db =
     (let found = filter (abandon_due now) (carts db);
          (n, db') = update_carts (abandon_due now) (\<lambda>c. c\<lparr>c_abandonedAt := Some now, c_updatedAt := now\<rparr>) db
      in (\<lparr>ab_count = n, ab_timestamp = now,
           ab_metrics = map (\<lambda>c. if truthy_str (c_userId c) then Authenticated else Guest) found\<rparr>, db'))"

definition manual_expire_inactive_carts :: "ms \<Rightarrow> shop \<Rightarrow> expire_result \<times> shop" where
  "manual_expire_inactive_carts now db = expire_inactive_carts now db"

definition manual_detect_abandoned_carts :: "ms \<Rightarrow> shop \<Rightarrow> abandon_result \<times> shop" where
  "manual_detect_abandoned_carts now db = detect_abandoned_carts now db"

record scheduler_stats =
  ss_byStatus :: "(cart_status \<times> nat) list"
  ss_dueForExpiration :: nat
  ss_dueForAbandonment :: nat

text \<open>The counts of \<open>groupBy\<close>: statuses without carts do not appear.\<close>

definition count_by_status :: "cart_row list \<Rightarrow> (cart_status \<times> nat) list" where
  "count_by_status cs =
     filter (\<lambda>(_, n). 0 < n) (map (\<lambda>st. (st, length (filter (\<lambda>c. c_status c = st) cs)))
       [C_ACTIVE, C_COMPLETED, C_ABANDONED, C_EXPIRED, C_MERGED])"

definition stats_expire_due :: "ms \<Rightarrow> cart_row \<Rightarrow> bool" where
  "stats_expire_due now c \<longleftrightarrow> c_status c = C_ACTIVE \<and>
     (c_lastActivityAt c < now - 7 * DAY \<and> c_userId c = None \<or>
      c_lastActivityAt c < now - 30 * DAY \<and> c_userId c \<noteq> None)"

definition get_scheduler_stats :: "ms \<Rightarrow> shop \<Rightarrow> scheduler_stats" where
  "get_scheduler_stats now db =
     \<lparr>ss_byStatus = count_by_status (carts db),
      ss_dueForExpiration = length (filter (stats_expire_due now) (carts db)),
      ss_dueForAbandonment = length (filter (abandon_due now) (carts db))\<rparr>"

subsection \<open>Lemmas\<close>

lemma expired_not_due [simp]:
  "\<not> guest_due t (expire_row now c)" "\<not> user_due t (expire_row now c)" "\<not> stats_expire_due t (expire_row now c)"
  by (simp_all add: guest_due_def user_due_def expire_row_def stats_expire_due_def)

lemma guest_or_user: "\<not> (guest_due now c \<and> user_due now c)"
  by (cases "c_userId c") (simp_all add: guest_due_def user_due_def)

text \<open>The two statements of the job are one update of the carts due.\<close>

lemma expire_one_update:
  "expire_inactive_carts now db =
    (\<lparr>ex_guest = length (filter (guest_due now) (carts db)), ex_user = length (filter (user_due now) (carts db)),
      ex_total = length (filter (\<lambda>c. guest_due now c \<or> user_due now c) (carts db))\<rparr>,
     db\<lparr>carts := update_where (\<lambda>c. guest_due now c \<or> user_due now c) (expire_row now) (carts db)\<rparr>)"
proof -
  have a: "filter (user_due now) (update_where (guest_due now) (expire_row now) cs) = filter (user_due now) cs" for cs
    using guest_or_user by (induction cs) auto
  have b: "update_where (user_due now) (expire_row now) (update_where (guest_due now) (expire_row now) cs) =
      update_where (\<lambda>c. guest_due now c \<or> user_due now c) (expire_row now) cs" for cs
    by (induction cs) auto
  have c: "length (filter (guest_due now) cs) + length (filter (user_due now) cs) =
      length (filter (\<lambda>c. guest_due now c \<or> user_due now c) cs)" for cs
    using guest_or_user by (induction cs) auto
  show ?thesis by (simp add: expire_inactive_carts_def update_carts_def a b c)
qed

lemma stats_due_iff:
  "stats_expire_due now c \<longleftrightarrow> guest_due now c \<or> user_due now c \<or>
    c_status c = C_ACTIVE \<and> c_lastActivityAt c < now - 7 * DAY \<and> c_userId c = None \<and> c_sessionId c = None"
  by (auto simp: stats_expire_due_def guest_due_def user_due_def)

subsection \<open>Properties\<close>

text \<open>The expiry job expires exactly the carts that are due: an active guest cart idle for more
  than seven days or a user's cart idle for more than thirty becomes EXPIRED with the job's time,
  every other row is untouched, the answer counts them, and a second run at once expires none. When
  every cart has a user or a session nothing is left due in the statistics.\<close>

theorem expiry_job_exact:
  shows "(let (r, db') = expire_inactive_carts now db in
      length (carts db') = length (carts db) \<and>
      (\<forall>n < length (carts db). carts db' ! n =
        (if guest_due now (carts db ! n) \<or> user_due now (carts db ! n) then expire_row now (carts db ! n) else carts db ! n)) \<and>
      ex_total r = length (filter (\<lambda>c. guest_due now c \<or> user_due now c) (carts db)) \<and>
      expire_inactive_carts now db' = (\<lparr>ex_guest = 0, ex_user = 0, ex_total = 0\<rparr>, db') \<and>
      (list_all (\<lambda>c. c_userId c \<noteq> None \<or> c_sessionId c \<noteq> None) (carts db) \<longrightarrow>
        ss_dueForExpiration (get_scheduler_stats now db') = 0))"
proof -
  let ?due = "\<lambda>c. guest_due now c \<or> user_due now c"
  have none: "filter P (update_where ?due (expire_row now) cs) = []"
    if "\<And>c. P c \<Longrightarrow> ?due c" "\<And>c. \<not> P (expire_row now c)" for P cs
    using that by (induction cs) auto
  have same: "update_where ?due (expire_row now) (update_where ?due (expire_row now) cs) = update_where ?due (expire_row now) cs" for cs
    by (induction cs) auto
  have due: "?due c" if "stats_expire_due now c" "c_userId c \<noteq> None \<or> c_sessionId c \<noteq> None" for c
    using that by (auto simp: stats_due_iff)
  have stats: "filter (stats_expire_due now) (update_where ?due (expire_row now) cs) = []"
    if "list_all (\<lambda>c. c_userId c \<noteq> None \<or> c_sessionId c \<noteq> None) cs" for cs
    using that by (induction cs) (use due in auto)
  show ?thesis
    by (simp add: expire_one_update none same get_scheduler_stats_def stats) (simp add: update_where_def)
qed

lemma expiry_job_exact_witness:
  "ss_dueForExpiration (get_scheduler_stats (31 * DAY) (snd (expire_inactive_carts (31 * DAY) ((demo_shop 5)\<lparr>carts := [demo_cart 2]\<rparr>)))) = 0"
  using expiry_job_exact [of "31 * DAY" "(demo_shop 5)\<lparr>carts := [demo_cart 2]\<rparr>"]
  by (auto simp: case_prod_beta Let_def demo_cart_def)

text \<open>The abandonment job does not mark carts ABANDONED: it stamps \<open>abandonedAt\<close> on the active
  carts with items that were idle for three hours, records one metric for each, and leaves every
  status and all else alone. The stamp stays when the cart is used again, so a cart is detected at
  most once in its life: whatever happens to its items and amounts, no later run finds it.\<close>

theorem abandonment_detected_once:
  assumes "(r, db') = detect_abandoned_carts now db"
  shows "map c_status (carts db') = map c_status (carts db) \<and>
    map c_items (carts db') = map c_items (carts db) \<and>
    length (ab_metrics r) = ab_count r \<and> ab_count r = length (filter (abandon_due now) (carts db)) \<and>
    (\<forall>c \<in> set (carts db'). c \<notin> set (carts db) \<longrightarrow>
      c_abandonedAt c = Some now \<and>
      (\<forall>t addr meth. \<not> abandon_due t c \<and>
        (\<forall>c' db''. calculate_totals (c_id c) addr meth t db' = (Inr (), db'') \<longrightarrow> find_cart (c_id c) db' = Some c \<longrightarrow>
          find_cart (c_id c) db'' = Some c' \<longrightarrow> (\<forall>t'. \<not> abandon_due t' c'))))"
proof -
  have r: "r = \<lparr>ab_count = length (filter (abandon_due now) (carts db)), ab_timestamp = now,
      ab_metrics = map (\<lambda>c. if truthy_str (c_userId c) then Authenticated else Guest) (filter (abandon_due now) (carts db))\<rparr>"
    and db': "carts db' = update_where (abandon_due now) (\<lambda>c. c\<lparr>c_abandonedAt := Some now, c_updatedAt := now\<rparr>) (carts db)"
    using assms by (simp_all add: detect_abandoned_carts_def update_carts_def)
  have stamp: "c_abandonedAt c = Some now" if "c \<in> set (carts db')" "c \<notin> set (carts db)" for c
    using that by (auto simp: db' set_update_where split: if_splits)
  have keep: "c_abandonedAt c' = c_abandonedAt c"
    if "calculate_totals k addr meth t db' = (Inr (), db'')" "find_cart k db' = Some c" "find_cart k db'' = Some c'"
    for k addr meth t db'' c c'
    using that by (auto simp: calculate_totals_def Let_def find_cart_update)
  have "map c_status (carts db') = map c_status (carts db)" "map c_items (carts db') = map c_items (carts db)"
    by (simp_all add: db' update_where_def)
  then show ?thesis using stamp keep by (auto simp: r abandon_due_def)
qed

lemma abandonment_detected_once_witness:
  "map c_status (carts (snd (detect_abandoned_carts (4 * HOUR) ((demo_shop 5)\<lparr>carts := [demo_cart 2]\<rparr>)))) = [C_ACTIVE]"
  using abandonment_detected_once [OF surjective_pairing [symmetric], of "4 * HOUR" "(demo_shop 5)\<lparr>carts := [demo_cart 2]\<rparr>"]
  by (simp add: demo_cart_def)

end
