(* ===== verification/Cart_Lifecycle.thy ===== *)
theory Cart_Lifecycle
  imports Checkout Cart_Merge Cart_Scheduler
begin

section \<open>The life of a cart\<close>

text \<open>
  All that changes carts, as one step relation over the database and the Redis service: the handlers
  of the cart service, the checkout and the scheduler's jobs, in any order and with any arguments.
  Ids the database generates are new. The lemmas follow the head of each row (id, owner, status).
\<close>

inductive cart_step :: "'s cart_world \<Rightarrow> 's cart_world \<Rightarrow> bool" where
  step_view: "fresh_cart c1 (fst w) \<Longrightarrow> cart_step w (snd (get_or_create_cart c1 uid sid now w))"
| step_add: "fresh_cart c1 (fst w) \<Longrightarrow> fresh_cart c2 (fst w) \<Longrightarrow> c1 \<noteq> c2 \<Longrightarrow> fresh_item iid (fst w) \<Longrightarrow>
    cart_step w (snd (add_item (c1, c2) iid uid sid dto now w))"
| step_update: "cart_step w (snd (update_item cid iid q cust now w))"
| step_remove: "cart_step w (snd (remove_item cid iid now w))"
| step_clear: "cart_step w (snd (clear_cart cid now w))"
| step_validate: "cart_step w (snd (validate_cart cid (fst w)), snd w)"
| step_merge: "fresh_cart c1 (fst w) \<Longrightarrow> fresh_cart c2 (fst w) \<Longrightarrow> c1 \<noteq> c2 \<Longrightarrow> distinct iids \<Longrightarrow>
    \<forall>i \<in> set iids. fresh_item i (fst w) \<Longrightarrow> cart_step w (snd (merge_guest_cart (c1, c2) iids u s now w))"
| step_checkout: "fresh_cart c1 (fst w) \<Longrightarrow> cart_step w (snd (checkout c1 ids u dto' now w))"
| step_expire: "cart_step w (snd (expire_inactive_carts now (fst w)), snd w)"
| step_abandon: "cart_step w (snd (detect_abandoned_carts now (fst w)), snd w)"

definition cart_moves :: "cart_status \<Rightarrow> cart_status \<Rightarrow> bool" where
  "cart_moves s t \<longleftrightarrow> s = C_ACTIVE \<and> t \<in> {C_COMPLETED, C_EXPIRED, C_MERGED}"

fun cart_rank :: "cart_status \<Rightarrow> nat" where
  "cart_rank C_ACTIVE = 0"
| "cart_rank _ = 1"

interpretation cart_table: status_table cart_moves cart_rank 1
proof
  fix s t
  show "cart_rank s \<le> 1" by (cases s) simp_all
  assume "cart_moves s t"
  then show "cart_rank s < cart_rank t" by (auto simp: cart_moves_def)
qed

fun head_move :: "string \<times> string option \<times> string option \<times> cart_status \<Rightarrow>
    string \<times> string option \<times> string option \<times> cart_status \<Rightarrow> bool" where
  "head_move (i, u, s, st) (i', u', s', st') \<longleftrightarrow> i = i' \<and> u = u' \<and> s = s' \<and> (st' = st \<or> cart_moves st st')"

definition evolves where
  "evolves hs hs' \<longleftrightarrow> (\<exists>mid new. hs' = mid @ new \<and> list_all2 head_move hs mid \<and> (\<forall>(i, u, s, st) \<in> set new. st \<noteq> C_ABANDONED))"

subsection \<open>Lemmas\<close>

lemma head_move_refl [simp]: "head_move h h"
  by (cases h) simp

lemma cart_moves_final: "cart_moves s t \<Longrightarrow> \<not> cart_moves t r"
  by (auto simp: cart_moves_def)

lemma head_move_trans: "head_move a b \<Longrightarrow> head_move b c \<Longrightarrow> head_move a c"
  by (cases a; cases b; cases c) (auto dest: cart_moves_final)

lemma evolves_refl [simp]: "evolves hs hs"
  unfolding evolves_def by (rule exI [of _ hs]) (simp add: list_all2_refl)

lemma evolves_grow: "evolves hs (hs @ [(i, u, s, C_ACTIVE)])"
  unfolding evolves_def by (rule exI [of _ hs]) (auto simp: list_all2_refl)

lemma moved_not_abandoned:
  "list_all2 head_move hs mid \<Longrightarrow> \<forall>(i, u, s, st) \<in> set hs. st \<noteq> C_ABANDONED \<Longrightarrow>
   \<forall>(i, u, s, st) \<in> set mid. st \<noteq> C_ABANDONED"
  by (induction rule: list_all2_induct) (auto simp: cart_moves_def)

lemma evolves_trans:
  assumes "evolves hs hs'" "evolves hs' hs''"
  shows "evolves hs hs''"
proof -
  obtain m1 n1 where 1: "hs' = m1 @ n1" "list_all2 head_move hs m1" "\<forall>(i, u, s, st) \<in> set n1. st \<noteq> C_ABANDONED"
    using assms(1) unfolding evolves_def by blast
  obtain m2 n2 where 2: "hs'' = m2 @ n2" "list_all2 head_move hs' m2" "\<forall>(i, u, s, st) \<in> set n2. st \<noteq> C_ABANDONED"
    using assms(2) unfolding evolves_def by blast
  obtain m3 n3 where 3: "m2 = m3 @ n3" "list_all2 head_move m1 m3" "list_all2 head_move n1 n3"
    using 2(2) unfolding 1(1) by (auto simp: list_all2_append1)
  have "list_all2 head_move hs m3" using list_all2_trans [of head_move head_move head_move hs m1 m3] head_move_trans 1(2) 3(2) by blast
  moreover have "\<forall>(i, u, s, st) \<in> set (n3 @ n2). st \<noteq> C_ABANDONED" using moved_not_abandoned [OF 3(3) 1(3)] 2(3) by auto
  ultimately show ?thesis unfolding evolves_def 2(1) 3(1) by (intro exI [of _ m3] exI [of _ "n3 @ n2"]) simp
qed

text \<open>Marking the one row of an active cart is a move.\<close>

lemma evolves_mark:
  assumes "distinct (map fst hs)" "(k, u, s, C_ACTIVE) \<in> set hs" "cart_moves C_ACTIVE st'"
  shows "evolves hs (map (\<lambda>(i, u, s, st). (i, u, s, if i = k then st' else st)) hs)"
proof -
  have "head_move h (case h of (i, u, s, st) \<Rightarrow> (i, u, s, if i = k then st' else st))" if "h \<in> set hs" for h
  proof (cases "fst h = k")
    case True
    then have "h = (k, u, s, C_ACTIVE)" using assms(1,2) that by (metis distinct_map fst_conv inj_onD)
    then show ?thesis using assms(3) by simp
  qed (cases h; simp)
  then have "list_all2 head_move hs (map (\<lambda>(i, u, s, st). (i, u, s, if i = k then st' else st)) hs)"
    by (auto simp: list_all2_conv_all_nth)
  then show ?thesis unfolding evolves_def by (intro exI [of _ "[]"] exI) auto
qed

lemma heads_fst: "map fst (heads db) = map c_id (carts db)"
  by (simp add: heads_def comp_def)

lemma heads_in: "c \<in> set (carts db) \<Longrightarrow> (c_id c, c_userId c, c_sessionId c, c_status c) \<in> set (heads db)"
  by (auto simp: heads_def)

text \<open>Every handler moves the heads forward.\<close>

lemma evolves_insert: "evolves (heads db) (heads (snd (insert_cart (new_cart cid uid sid now) db)))"
  using evolves_grow [of "heads db"] by (auto simp: insert_cart_def new_cart_def heads_def split: option.split)

lemma evolves_view: "evolves (heads (fst w)) (heads (fst (snd (get_or_create_cart cid uid sid now w))))"
  using evolves_insert [of "fst w" cid uid sid now]
  by (auto simp: get_or_create_cart_def Let_def split: option.split prod.split sum.split)

lemma heads_quantity [simp]: "heads (snd (update_item_quantity cid iid q cust now db)) = heads db"
  by (simp add: update_item_quantity_def Let_def split: option.split)

lemma heads_insert_item [simp]: "heads (snd (insert_item cid i db)) = heads db"
  by (simp add: insert_item_def heads_update_row split: option.split)

lemma heads_core [simp]: "heads (snd (add_item_core cid iid dto now db)) = heads db"
  by (simp add: add_item_core_def Let_def split: option.split)

lemma heads_same_quantity: "update_item_quantity cid iid q cust now db = (r, db') \<Longrightarrow> heads db' = heads db"
  using heads_quantity [of cid iid q cust now db] by simp

lemma heads_same_totals: "calculate_totals cid addr meth now db = (r, db') \<Longrightarrow> heads db' = heads db"
  using heads_calculate [of cid addr meth now db] by simp

lemma heads_same_core: "add_item_core cid iid dto now db = (r, db') \<Longrightarrow> heads db' = heads db"
  using heads_core [of cid iid dto now db] by simp

lemmas heads_same = heads_same_quantity heads_same_totals heads_same_core

lemma evolves_add: "evolves (heads (fst w)) (heads (fst (snd (add_item cids iid uid sid dto now w))))"
proof -
  obtain r w1 where Pair: "get_or_create_cart (fst cids) uid sid now w = (r, w1)" by (rule prod.exhaust)
  have v: "evolves (heads (fst w)) (heads (fst w1))"
    using evolves_view [of w "fst cids" uid sid now] by (simp add: Pair)
  show ?thesis
  proof (cases r)
    case (Inl e)
    then show ?thesis using v by (simp add: add_item_def Pair)
  next
    case (Inr cart)
    have rest: "evolves (heads (fst w1)) (heads (fst (snd (get_or_create_cart (snd cids) uid sid now (db2, rs)))))"
      if "heads db2 = heads (fst w1)" for db2 and rs :: "'a redis_service"
      using evolves_view [of "(db2, rs)" "snd cids" uid sid now] that by simp
    have "evolves (heads (fst w1)) (heads (fst (snd (add_item cids iid uid sid dto now w))))"
      by (auto simp: add_item_def Pair Inr Let_def split: prod.split sum.split intro!: rest dest!: heads_same)
    with v show ?thesis by (rule evolves_trans)
  qed
qed

lemma heads_update_handler [simp]: "heads (fst (snd (update_item cid iid q cust now w))) = heads (fst w)"
  by (auto simp: update_item_def split: option.split prod.split sum.split dest!: heads_same)

lemma heads_remove_handler [simp]: "heads (fst (snd (remove_item cid iid now w))) = heads (fst w)"
  by (auto simp: remove_item_def Let_def heads_update_row split: option.split prod.split sum.split dest!: heads_same)

lemma heads_clear_handler [simp]: "heads (fst (snd (clear_cart cid now w))) = heads (fst w)"
  by (auto simp: clear_cart_def heads_update_row split: option.split)

lemma heads_mark_items [simp]: "heads (fold mark_unavailable ips db) = heads db"
  by (induction ips arbitrary: db) (auto simp: mark_unavailable_def Let_def)

lemma heads_validate [simp]: "heads (snd (validate_cart cid db)) = heads db"
  by (simp add: validate_cart_def Let_def split: option.split)

text \<open>A merge marks the guest cart, a checkout the ordered cart; both were active.\<close>

lemma evolves_mark_merged:
  assumes "distinct (map c_id (carts db))" "guest \<in> set (carts db)" "c_status guest = C_ACTIVE"
  shows "evolves (heads db) (heads (mark_merged (c_id guest) now db))"
  unfolding heads_mark_merged
  by (rule evolves_mark) (use assms heads_in in \<open>force simp: heads_fst cart_moves_def\<close>)+

lemma find_session_cart_row:
  "find_session_cart sid db = Some c \<Longrightarrow> c \<in> set (carts db) \<and> c_status c = C_ACTIVE"
  by (auto simp: find_session_cart_def find_Some_iff)

lemma evolves_merge:
  fixes w :: "'s cart_world"
  assumes ok: "carts_ok (fst w)" and fresh: "fresh_cart c1 (fst w)"
  shows "evolves (heads (fst w)) (heads (fst (snd (merge_guest_cart (c1, c2) iids u s now w))))"
proof (cases "find_session_cart s (fst w)")
  case None
  then show ?thesis using evolves_view [of w c2 "Some u" None now] by (simp add: merge_guest_cart_def)
next
  case (Some guest)
  have view: "evolves (heads (fst w)) (heads (fst (snd (get_or_create_cart c2 (Some u) None now (db, rs)))))"
    if "evolves (heads (fst w)) (heads db)" for db and rs :: "'s redis_service"
    using evolves_trans [OF that] evolves_view [of "(db, rs)"] by simp
  define start where "start = (case find_user_cart u (fst w) of
      Some c \<Rightarrow> (Inr c, fst w) | None \<Rightarrow> insert_cart (new_cart c1 (Some u) None now) (fst w))"
  have s0: "evolves (heads (fst w)) (heads (snd start))" "carts_ok (snd start)" "set (carts (fst w)) \<subseteq> set (carts (snd start))"
    using evolves_insert [of "fst w" c1 "Some u" None now] carts_ok_insert_cart [of "fst w" "new_cart c1 (Some u) None now"] ok fresh
    by (auto simp: start_def new_cart_def insert_cart_def split: option.split)
  have g: "guest \<in> set (carts (fst w))" "c_status guest = C_ACTIVE" using find_session_cart_row [OF Some] by auto
  have empty: "evolves (heads (fst w)) (heads (mark_merged (c_id guest) now (fst w)))"
    using evolves_mark_merged [of "fst w"] ok g by (simp add: carts_ok_def)
  have full: "evolves (heads (fst w)) (heads db')"
    if "calculate_totals k None None now (mark_merged (c_id guest) now (fold (merge_item k) gs (snd start))) = (r, db')" for k gs r db'
  proof -
    have "heads db' = heads (mark_merged (c_id guest) now (snd start))"
      using heads_same_totals [OF that] by (simp add: heads_mark_merged)
    moreover have "evolves (heads (snd start)) (heads (mark_merged (c_id guest) now (snd start)))"
      using evolves_mark_merged [of "snd start"] s0 g by (auto simp: carts_ok_def)
    ultimately show ?thesis using evolves_trans [OF s0(1)] by simp
  qed
  show ?thesis
  proof (cases "c_items guest = []")
    case True
    then show ?thesis using view [OF empty] by (simp add: merge_guest_cart_def Some)
  next
    case False
    obtain r0 db0 where r0: "start = (r0, db0)" by (rule prod.exhaust)
    have "heads db0 = heads (snd start)" by (simp add: r0)
    then show ?thesis
      using False s0(1) full view
      unfolding merge_guest_cart_def fst_conv snd_conv Some option.case start_def [symmetric]
      by (auto simp: r0 Let_def split: prod.split sum.split)
  qed
qed

lemma heads_store_metadata [simp]: "heads (store_metadata cid dto now db) = heads db"
  by (simp add: store_metadata_def heads_update_row)

lemma heads_order_from_cart:
  assumes "create_order_from_cart ids u k pm now db = (r, db')" "distinct (map c_id (carts db))"
  shows "evolves (heads db) (heads db')"
proof (cases r)
  case (Inl e)
  show ?thesis by (simp add: cart_order_failure [OF assms(1) [unfolded Inl]])
next
  case (Inr ord)
  obtain c where c: "find_active_cart u k db = Some c"
    "carts db' = update_by c_id (c_id c) (\<lambda>x. x\<lparr>c_status := C_COMPLETED, c_convertedAt := Some now, c_updatedAt := now\<rparr>) (carts db)"
    by (rule cart_order_success [OF assms(1) [unfolded Inr]])
  have "c \<in> set (carts db)" "c_status c = C_ACTIVE"
    using c(1) by (auto simp: find_active_cart_def dest: find_by_SomeD split: option.splits if_splits)
  then have "evolves (heads db) (map (\<lambda>(i, u, s, st). (i, u, s, if i = c_id c then C_COMPLETED else st)) (heads db))"
    using assms(2) heads_in [of c db] by (intro evolves_mark) (auto simp: heads_fst cart_moves_def)
  moreover have "heads db' = map (\<lambda>(i, u, s, st). (i, u, s, if i = c_id c then C_COMPLETED else st)) (heads db)"
    by (auto simp: heads_def c(2) update_by_def update_where_def)
  ultimately show ?thesis by simp
qed

lemma carts_ok_ids: "carts_ok db \<Longrightarrow> distinct (map c_id (carts db))"
  by (simp add: carts_ok_def)

lemma carts_ok_same:
  "map c_id (carts db') = map c_id (carts db) \<Longrightarrow> map c_items (carts db') = map c_items (carts db) \<Longrightarrow>
   carts_ok db' = carts_ok db"
proof -
  assume ids: "map c_id (carts db') = map c_id (carts db)" and items: "map c_items (carts db') = map c_items (carts db)"
  have all: "(\<forall>c \<in> set (carts x). distinct (map ci_productId (c_items c))) \<longleftrightarrow>
      list_all (\<lambda>is. distinct (map ci_productId is)) (map c_items (carts x))" for x by (simp add: list_all_iff)
  show ?thesis unfolding carts_ok_def all_items_def all by (simp add: ids items)
qed

lemma evolves_checkout:
  fixes w :: "'s cart_world"
  assumes ok: "carts_ok (fst w)" and fresh: "fresh_cart c1 (fst w)"
  shows "evolves (heads (fst w)) (heads (fst (snd (checkout c1 ids u dto' now w)))) \<and>
    carts_ok (fst (snd (checkout c1 ids u dto' now w)))"
proof (cases "u = [] \<or> (\<exists>e. fst (get_or_create_cart c1 (Some u) None now w) = Inl e)")
  case True
  then show ?thesis
    using ok evolves_view [of w c1 "Some u" None now] carts_ok_get_or_create [OF ok fresh, of "Some u" None now]
    by (cases "get_or_create_cart c1 (Some u) None now w") (auto simp: checkout_def)
next
  case False
  obtain x w1 where x: "get_or_create_cart c1 (Some u) None now w = (x, w1)" by (rule prod.exhaust)
  with False obtain r where g: "get_or_create_cart c1 (Some u) None now w = (Inr r, w1)" by (cases x) auto
  have v: "evolves (heads (fst w)) (heads (fst w1))" "carts_ok (fst w1)"
    using evolves_view [of w c1 "Some u" None now] carts_ok_get_or_create [OF ok fresh, of "Some u" None now] by (simp_all add: g)
  obtain r2 db2 where t: "calculate_totals (c_id (cr_cart r)) (Some (k_shippingAddress dto')) (Some (checkout_method dto')) now (fst w1) =
      (r2, db2)" by (rule prod.exhaust)
  let ?m = "store_metadata (c_id (cr_cart r)) dto' now db2"
  obtain r3 db3 where o: "create_order_from_cart ids u (c_id (cr_cart r)) (k_paymentMethod dto') now ?m = (r3, db3)"
    by (rule prod.exhaust)
  have db2: "carts_ok db2" "heads db2 = heads (fst w1)"
    using carts_ok_calculate_totals [OF v(2)] heads_same_totals [OF t] t by (metis snd_conv, simp)
  then have m: "carts_ok ?m" unfolding store_metadata_def by (intro carts_ok_update_row) simp_all
  have moved: "evolves (heads db2) (heads db3)" using heads_order_from_cart [OF o carts_ok_ids [OF m]] by simp
  have "carts_ok db3"
  proof (cases r3)
    case (Inl e)
    then show ?thesis using m cart_order_failure [of ids u "c_id (cr_cart r)" "k_paymentMethod dto'" now ?m e db3] o by simp
  next
    case (Inr ord)
    obtain c :: cart_row where c: "carts db3 = update_by c_id (c_id c)
        (\<lambda>x. x\<lparr>c_status := C_COMPLETED, c_convertedAt := Some now, c_updatedAt := now\<rparr>) (carts ?m)"
      by (rule cart_order_success [OF o [unfolded Inr]])
    have "carts_ok db3 = carts_ok ?m" by (rule carts_ok_same) (simp_all add: c update_by_def update_where_def)
    with m show ?thesis by simp
  qed
  then have "evolves (heads (fst w1)) (heads (fst (snd (checkout c1 ids u dto' now w)))) \<and>
      carts_ok (fst (snd (checkout c1 ids u dto' now w)))"
    using False db2 moved by (cases r2) (auto simp: checkout_def g t o)
  with v(1) show ?thesis using evolves_trans by blast
qed

text \<open>The scheduler's jobs.\<close>

lemma evolves_expire: "evolves (heads db) (heads (snd (expire_inactive_carts now db)))"
proof -
  have "list_all2 head_move (heads db) (heads (snd (expire_inactive_carts now db)))"
    by (auto simp: expire_one_update heads_def list_all2_conv_all_nth update_where_def expire_row_def cart_moves_def
        guest_due_def user_due_def)
  then show ?thesis unfolding evolves_def by (intro exI [of _ "[]"] exI) auto
qed

lemma heads_abandon: "heads (snd (detect_abandoned_carts now db)) = heads db"
  by (auto simp: detect_abandoned_carts_def update_carts_def heads_def update_where_def)

lemma carts_ok_jobs:
  "carts_ok db \<Longrightarrow> carts_ok (snd (expire_inactive_carts now db))"
  "carts_ok db \<Longrightarrow> carts_ok (snd (detect_abandoned_carts now db))"
proof -
  assume ok: "carts_ok db"
  have "carts_ok (snd (expire_inactive_carts now db)) = carts_ok db"
    by (rule carts_ok_same) (simp_all add: expire_one_update update_where_def expire_row_def)
  with ok show "carts_ok (snd (expire_inactive_carts now db))" by simp
  have "carts_ok (snd (detect_abandoned_carts now db)) = carts_ok db"
    by (rule carts_ok_same) (simp_all add: detect_abandoned_carts_def update_carts_def update_where_def)
  with ok show "carts_ok (snd (detect_abandoned_carts now db))" by simp
qed

lemma cart_step_ok:
  "cart_step w w' \<Longrightarrow> carts_ok (fst w) \<Longrightarrow> carts_ok (fst w') \<and> evolves (heads (fst w)) (heads (fst w'))"
proof (induction rule: cart_step.induct)
  case step_view
  then show ?case using evolves_view carts_ok_get_or_create by blast
next
  case step_add
  then show ?case using evolves_add carts_ok_add_item by blast
next
  case step_update
  then show ?case using carts_ok_update_item_handler by simp
next
  case step_remove
  then show ?case using carts_ok_remove_item by simp
next
  case step_clear
  then show ?case using carts_ok_clear_cart by simp
next
  case step_validate
  then show ?case using carts_ok_validate_cart by simp
next
  case step_merge
  then show ?case using evolves_merge carts_ok_merge_guest by blast
next
  case step_checkout
  then show ?case using evolves_checkout by blast
next
  case step_expire
  then show ?case using evolves_expire carts_ok_jobs(1) by simp
next
  case step_abandon
  then show ?case using heads_abandon carts_ok_jobs(2) by simp
qed

lemma cart_steps_ok:
  "cart_step\<^sup>*\<^sup>* w w' \<Longrightarrow> carts_ok (fst w) \<Longrightarrow> carts_ok (fst w') \<and> evolves (heads (fst w)) (heads (fst w'))"
proof (induction rule: rtranclp_induct)
  case (step y z)
  then show ?case using cart_step_ok [OF step.hyps(2)] evolves_trans by blast
qed simp

subsection \<open>Properties\<close>

text \<open>C1. A cart lives once: whatever handlers, checkouts and jobs run and in whatever order, the
  tables stay well formed, every cart keeps its id and owner, an active cart can only become
  COMPLETED, EXPIRED or MERGED, a cart in one of these statuses never changes its status again, and
  no cart ever becomes ABANDONED.\<close>

theorem cart_lifecycle:
  fixes w w' :: "'s cart_world"
  assumes "cart_step\<^sup>*\<^sup>* w w'" "carts_ok (fst w)"
  shows "carts_ok (fst w') \<and> length (carts (fst w)) \<le> length (carts (fst w')) \<and>
    (\<forall>n < length (carts (fst w)). let c = carts (fst w) ! n; c' = carts (fst w') ! n in
      c_id c' = c_id c \<and> c_userId c' = c_userId c \<and> c_sessionId c' = c_sessionId c \<and>
      (c_status c' = c_status c \<or> c_status c = C_ACTIVE \<and> c_status c' \<in> {C_COMPLETED, C_EXPIRED, C_MERGED})) \<and>
    (\<forall>n < length (carts (fst w')). length (carts (fst w)) \<le> n \<longrightarrow> c_status (carts (fst w') ! n) \<noteq> C_ABANDONED)"
proof -
  have ok: "carts_ok (fst w')" and ev: "evolves (heads (fst w)) (heads (fst w'))"
    using cart_steps_ok [OF assms] by auto
  obtain mid new where h: "heads (fst w') = mid @ new" "list_all2 head_move (heads (fst w)) mid"
    "\<forall>(i, u, s, st) \<in> set new. st \<noteq> C_ABANDONED"
    using ev unfolding evolves_def by blast
  have len: "length mid = length (carts (fst w))" using list_all2_lengthD [OF h(2)] by (simp add: heads_def)
  have nth: "heads x ! n = (c_id (carts x ! n), c_userId (carts x ! n), c_sessionId (carts x ! n), c_status (carts x ! n))"
    if "n < length (carts x)" for x n using that by (simp add: heads_def)
  have total: "length (carts (fst w')) = length mid + length new"
    using arg_cong [OF h(1), of length] by (simp add: heads_def)
  have old: "head_move (heads (fst w) ! n) (heads (fst w') ! n)" if "n < length (carts (fst w))" for n
    using list_all2_nthD [OF h(2), of n] that len by (simp add: h(1) nth_append) (simp add: heads_def)
  have fresh: "c_status (carts (fst w') ! n) \<noteq> C_ABANDONED"
    if "n < length (carts (fst w'))" "length (carts (fst w)) \<le> n" for n
  proof -
    have "heads (fst w') ! n \<in> set new" using that len total by (simp add: h(1) nth_append)
    with h(3) show ?thesis by (auto simp: nth [OF that(1)])
  qed
  show ?thesis
    using ok old fresh total len by (auto simp: nth Let_def cart_moves_def)
qed

lemma cart_lifecycle_witness:
  "c_status (carts (snd (expire_inactive_carts (31 * DAY) ((demo_shop 5)\<lparr>carts := [demo_cart 2]\<rparr>))) ! 0) \<noteq> C_ABANDONED"
proof -
  let ?w = "((demo_shop 5)\<lparr>carts := [demo_cart 2]\<rparr>, mem_service)"
  have "carts_ok (fst ?w)" by (simp add: carts_ok_def all_items_def demo_cart_def demo_item_def)
  moreover have "cart_step\<^sup>*\<^sup>* ?w (snd (expire_inactive_carts (31 * DAY) (fst ?w)), snd ?w)"
    by (rule r_into_rtranclp) (rule step_expire)
  ultimately show ?thesis
    using cart_lifecycle [of ?w "(snd (expire_inactive_carts (31 * DAY) (fst ?w)), snd ?w)"]
    by (auto simp: demo_cart_def Let_def)
qed

end
