(* ===== verification/Request_Queue.thy ===== *)
theory Request_Queue
  imports Cart_Cache
begin

section \<open>The request queue\<close>

text \<open>
  \<open>modules/request-queue/request-queue.service.ts\<close>: requests that wait for an administrator, and the
  seller applications kept in it, whose approval changes a user's role. A handler is one step at
  one time \<open>now\<close>. Prisma refuses a value that is no role; \<open>undefined\<close> leaves a column alone.
  E-mails go to an outbox; the mail service is asked once per mail and its failures are swallowed by
  the code. Dates inside JSON are milliseconds. JSON \<open>null\<close> and SQL NULL in a column are one.
\<close>

datatype request_status = R_PENDING | R_PROCESSING | R_COMPLETED | R_FAILED | R_EXPIRED

record request_row =
  rq_id :: string
  rq_userId :: "string option"
  rq_endpoint :: string
  rq_method :: string
  rq_priority :: int
  rq_payload :: "json option"
  rq_headers :: "json option"
  rq_status :: request_status
  rq_queuedAt :: ms
  rq_processedAt :: "ms option"
  rq_completedAt :: "ms option"
  rq_expiresAt :: ms
  rq_errorMessage :: "string option"

datatype mail =
    SellerApproved string string "string option"
  | SellerRejected string string string string

record request_world =
  rw_users :: "user_row list"
  rw_requests :: "request_row list"
  rw_outbox :: "mail list"

definition SELLER_ENDPOINT :: string where
  "SELLER_ENDPOINT = ''/admin/seller-applications''"

fun role_text :: "user_role \<Rightarrow> string" where
  "role_text USER = ''USER''"
| "role_text ADMIN = ''ADMIN''"
| "role_text SUPER_ADMIN = ''SUPER_ADMIN''"
| "role_text GROWER = ''GROWER''"
| "role_text BUYER = ''BUYER''"

definition parse_role :: "string \<Rightarrow> user_role option" where
  "parse_role s = List.find (\<lambda>r. role_text r = s) [USER, ADMIN, SUPER_ADMIN, GROWER, BUYER]"

fun request_status_lower :: "request_status \<Rightarrow> string" where
  "request_status_lower R_PENDING = ''pending''"
| "request_status_lower R_PROCESSING = ''processing''"
| "request_status_lower R_COMPLETED = ''completed''"
| "request_status_lower R_FAILED = ''failed''"
| "request_status_lower R_EXPIRED = ''expired''"

text \<open>\<open>(x as any)?.k\<close>: a missing or null value and a value without the field give \<open>undefined\<close>.\<close>

fun json_field :: "string \<Rightarrow> json option \<Rightarrow> json option" where
  "json_field k (Some (JObj fs)) = map_of fs k"
| "json_field k _ = None"

definition find_request :: "string \<Rightarrow> request_world \<Rightarrow> request_row option" where
  "find_request rid w = find_by rq_id rid (rw_requests w)"

definition find_user :: "string \<Rightarrow> request_world \<Rightarrow> user_row option" where
  "find_user uid w = find_by u_id uid (rw_users w)"

definition request_user :: "request_row \<Rightarrow> request_world \<Rightarrow> user_row option" where
  "request_user r w = Option.bind (rq_userId r) (\<lambda>uid. find_user uid w)"

definition put_request :: "string \<Rightarrow> (request_row \<Rightarrow> request_row) \<Rightarrow> request_world \<Rightarrow> request_world" where
  "put_request rid f w = w\<lparr>rw_requests := update_by rq_id rid f (rw_requests w)\<rparr>"

text \<open>\<open>requestQueue.create\<close>; a user id must exist.\<close>

definition insert_request :: "request_row \<Rightarrow> request_world \<Rightarrow> request_row res \<times> request_world" where
  "insert_request r w =
     (if rq_userId r \<noteq> None \<and> request_user r w = None then (Inl (InternalError ''P2003 foreign key''), w)
      else (Inr r, w\<lparr>rw_requests := rw_requests w @ [r]\<rparr>))"

definition DAY_MS :: ms where "DAY_MS = 24 * 60 * 60 * 1000"

subsection \<open>General operations\<close>

record request_dto =
  qd_userId :: "string option"
  qd_endpoint :: string
  qd_method :: string
  qd_priority :: "int option"
  qd_payload :: "json option"
  qd_headers :: "json option"
  qd_expiresInDays :: "int option"

definition json_or_null :: "json option \<Rightarrow> json option" where
  "json_or_null j = (case j of None \<Rightarrow> None | Some x \<Rightarrow> if json_truthy x then Some x else None)"

definition create_request :: "string \<Rightarrow> request_dto \<Rightarrow> ms \<Rightarrow> request_world \<Rightarrow> request_row res \<times> request_world" where
  "create_request rid d now w =
     insert_request \<lparr>rq_id = rid, rq_userId = qd_userId d, rq_endpoint = qd_endpoint d, rq_method = qd_method d,
       rq_priority = num_or (qd_priority d) 50, rq_payload = json_or_null (qd_payload d),
       rq_headers = json_or_null (qd_headers d), rq_status = R_PENDING, rq_queuedAt = now,
       rq_processedAt = None, rq_completedAt = None,
       rq_expiresAt = now + num_or (qd_expiresInDays d) 30 * DAY_MS, rq_errorMessage = None\<rparr> w"

record 'r listing =
  li_data :: "'r list"
  li_total :: int
  li_page :: int
  li_limit :: int
  li_totalPages :: int

text \<open>The list queries differ in their filter and in the direction of \<open>queuedAt\<close>.\<close>

definition priority_newest :: "request_row \<Rightarrow> request_row \<Rightarrow> bool" where
  "priority_newest x y \<longleftrightarrow> rq_priority x > rq_priority y \<or> rq_priority x = rq_priority y \<and> rq_queuedAt x \<ge> rq_queuedAt y"

definition priority_oldest :: "request_row \<Rightarrow> request_row \<Rightarrow> bool" where
  "priority_oldest x y \<longleftrightarrow> rq_priority x > rq_priority y \<or> rq_priority x = rq_priority y \<and> rq_queuedAt x \<le> rq_queuedAt y"

definition list_requests ::
  "(request_row \<Rightarrow> request_row \<Rightarrow> bool) \<Rightarrow> (request_row \<Rightarrow> bool) \<Rightarrow> int \<Rightarrow> int \<Rightarrow> request_world \<Rightarrow>
   (request_row \<times> user_row option) listing" where
  "list_requests le p page lmt w =
     (let rows = filter p (rw_requests w)
      in \<lparr>li_data = map (\<lambda>r. (r, request_user r w)) (page_rows page lmt (sort_by le rows)),
          li_total = int (length rows), li_page = page, li_limit = lmt,
          li_totalPages = total_pages (int (length rows)) lmt\<rparr>)"

definition opt_or :: "'a option \<Rightarrow> 'a \<Rightarrow> 'a" where
  "opt_or x d = (case x of None \<Rightarrow> d | Some a \<Rightarrow> a)"

definition get_requests ::
  "int option \<Rightarrow> int option \<Rightarrow> request_status option \<Rightarrow> string option \<Rightarrow> string option \<Rightarrow> request_world \<Rightarrow>
   (request_row \<times> user_row option) listing" where
  "get_requests page lmt st uid ep w =
     list_requests priority_newest
       (\<lambda>r. (st = None \<or> st = Some (rq_status r)) \<and> (truthy_str uid \<longrightarrow> rq_userId r = uid) \<and>
            (truthy_str ep \<longrightarrow> ep = Some (rq_endpoint r)))
       (opt_or page 1) (opt_or lmt 20) w"

definition update_request_status ::
  "string \<Rightarrow> request_status \<Rightarrow> string option \<Rightarrow> ms \<Rightarrow> request_world \<Rightarrow> unit res \<times> request_world" where
  "update_request_status rid st err now w =
     (case find_request rid w of
        None \<Rightarrow> (Inl (InternalError ''P2025 record not found''), w)
      | Some _ \<Rightarrow> (Inr (), put_request rid (\<lambda>r.
          if st = R_PROCESSING then r\<lparr>rq_status := st, rq_processedAt := Some now\<rparr>
          else if st = R_COMPLETED \<or> st = R_FAILED then
            r\<lparr>rq_status := st, rq_completedAt := Some now,
              rq_errorMessage := (if truthy_str err then err else rq_errorMessage r)\<rparr>
          else r\<lparr>rq_status := st\<rparr>) w))"

definition delete_request :: "string \<Rightarrow> request_world \<Rightarrow> unit res \<times> request_world" where
  "delete_request rid w =
     (case find_request rid w of
        None \<Rightarrow> (Inl (InternalError ''P2025 record not found''), w)
      | Some _ \<Rightarrow> (Inr (), w\<lparr>rw_requests := filter (\<lambda>r. rq_id r \<noteq> rid) (rw_requests w)\<rparr>))"

subsection \<open>Seller applications\<close>

record seller_dto =
  sd_city :: string
  sd_region :: string
  sd_completeAddress :: string
  sd_businessName :: string
  sd_businessType :: string
  sd_mushroomTypes :: "string list"
  sd_capacity :: string
  sd_certifications :: "string list option"
  sd_governmentId :: string
  sd_birCertificate :: string
  sd_businessCertificate :: string
  sd_additionalInfo :: "string option"

definition j_strs :: "string list \<Rightarrow> json" where
  "j_strs ss = JArr (map j_str ss)"

text \<open>\<open>null\<close> in a template string prints as the word.\<close>

definition template_opt :: "string option \<Rightarrow> string" where
  "template_opt x = (case x of None \<Rightarrow> ''null'' | Some s \<Rightarrow> s)"

definition seller_payload :: "user_row \<Rightarrow> seller_dto \<Rightarrow> ms \<Rightarrow> json" where
  "seller_payload u d now = JObj
     [(''userId'', j_str (u_id u)), (''currentRole'', j_str (role_text (u_role u))),
      (''requestedRole'', j_str (role_text ADMIN)), (''userEmail'', j_str (u_email u)),
      (''userName'', j_str (template_opt (u_firstName u) @ '' '' @ template_opt (u_lastName u))),
      (''userInfo'', JObj [(''city'', j_str (sd_city d)), (''region'', j_str (sd_region d)),
         (''completeAddress'', j_str (sd_completeAddress d))]),
      (''businessInfo'', JObj [(''businessName'', j_str (sd_businessName d)),
         (''businessType'', j_str (sd_businessType d)),
         (''additionalInfo'', if truthy_str (sd_additionalInfo d) then j_str (the (sd_additionalInfo d)) else JNull)]),
      (''productInfo'', JObj [(''mushroomTypes'', j_strs (sd_mushroomTypes d)),
         (''monthlyProductionCapacity'', j_str (sd_capacity d)),
         (''certifications'', j_strs (opt_or (sd_certifications d) []))]),
      (''documents'', JObj [(''governmentId'', j_str (sd_governmentId d)),
         (''birCertificate'', j_str (sd_birCertificate d)),
         (''businessCertificate'', j_str (sd_businessCertificate d))]),
      (''submittedAt'', j_int now)]"

definition pending_of :: "string \<Rightarrow> request_row \<Rightarrow> bool" where
  "pending_of uid r \<longleftrightarrow> rq_userId r = Some uid \<and> rq_status r = R_PENDING \<and> rq_endpoint r = SELLER_ENDPOINT"

definition create_role_change_request ::
  "string \<Rightarrow> string \<Rightarrow> seller_dto \<Rightarrow> ms \<Rightarrow> request_world \<Rightarrow> request_row res \<times> request_world" where
  "create_role_change_request rid uid d now w =
     (case find_user uid w of
        None \<Rightarrow> (Inl (NotFound ''User not found''), w)
      | Some u \<Rightarrow>
          if u_role u \<noteq> USER
          then (Inl (BadRequest ''Only users with USER role can request to become a seller (ADMIN)''), w)
          else if List.find (pending_of uid) (rw_requests w) \<noteq> None
          then (Inl (BadRequest ''You already have a pending seller application. Please wait for admin review.''), w)
          else insert_request \<lparr>rq_id = rid, rq_userId = Some uid, rq_endpoint = SELLER_ENDPOINT, rq_method = ''POST'',
            rq_priority = 70, rq_payload = Some (seller_payload u d now), rq_headers = None, rq_status = R_PENDING,
            rq_queuedAt = now, rq_processedAt = None, rq_completedAt = None,
            rq_expiresAt = now + 30 * DAY_MS, rq_errorMessage = None\<rparr> w)"

record role_view =
  rv_request :: request_row
  rv_user :: "user_row option"
  rv_currentRole :: "json option"
  rv_requestedRole :: "json option"
  rv_reason :: "json option"

definition role_view_of :: "request_row \<times> user_row option \<Rightarrow> role_view" where
  "role_view_of ru = (let (r, u) = ru in
     \<lparr>rv_request = r, rv_user = u, rv_currentRole = json_field ''currentRole'' (rq_payload r),
      rv_requestedRole = json_field ''requestedRole'' (rq_payload r), rv_reason = json_field ''reason'' (rq_payload r)\<rparr>)"

definition map_listing :: "('a \<Rightarrow> 'b) \<Rightarrow> 'a listing \<Rightarrow> 'b listing" where
  "map_listing f l = \<lparr>li_data = map f (li_data l), li_total = li_total l, li_page = li_page l,
     li_limit = li_limit l, li_totalPages = li_totalPages l\<rparr>"

definition get_pending_role_requests :: "int \<Rightarrow> int \<Rightarrow> request_world \<Rightarrow> role_view listing" where
  "get_pending_role_requests page lmt w = map_listing role_view_of
     (list_requests priority_oldest (\<lambda>r. rq_endpoint r = SELLER_ENDPOINT \<and> rq_status r = R_PENDING) page lmt w)"

definition get_all_role_requests ::
  "int option \<Rightarrow> int option \<Rightarrow> request_status option \<Rightarrow> string option \<Rightarrow> request_world \<Rightarrow> role_view listing" where
  "get_all_role_requests page lmt st uid w = map_listing role_view_of
     (list_requests priority_newest
       (\<lambda>r. rq_endpoint r = SELLER_ENDPOINT \<and> (st = None \<or> st = Some (rq_status r)) \<and>
            (truthy_str uid \<longrightarrow> rq_userId r = uid))
       (opt_or page 1) (opt_or lmt 20) w)"

definition get_user_role_request_status :: "string \<Rightarrow> request_world \<Rightarrow> role_view option" where
  "get_user_role_request_status uid w =
     (case sort_by (\<lambda>x y. rq_queuedAt x \<ge> rq_queuedAt y)
         (filter (\<lambda>r. rq_userId r = Some uid \<and> rq_endpoint r = SELLER_ENDPOINT) (rw_requests w)) of
        [] \<Rightarrow> None
      | r # _ \<Rightarrow> Some (role_view_of (r, request_user r w)))"

subsection \<open>Approval and rejection\<close>

text \<open>The check both share.\<close>

definition decidable_request :: "string \<Rightarrow> request_world \<Rightarrow> request_row res" where
  "decidable_request rid w =
     (case find_request rid w of
        None \<Rightarrow> Inl (NotFound ''Request not found'')
      | Some r \<Rightarrow>
          if rq_status r \<noteq> R_PENDING
          then Inl (BadRequest (''Request has already been '' @ request_status_lower (rq_status r)))
          else Inr r)"

text \<open>\<open>user.update\<close> with the role of the payload: absent leaves the role, anything but the name of a
  role is refused by Prisma.\<close>

definition set_user_role :: "string \<Rightarrow> json option \<Rightarrow> request_world \<Rightarrow> user_row res \<times> request_world" where
  "set_user_role uid j w =
     (case find_user uid w of
        None \<Rightarrow> (Inl (InternalError ''P2025 record not found''), w)
      | Some u \<Rightarrow>
          (case (case j of
               None \<Rightarrow> Some (u_role u)
             | Some (JStr (Plain s)) \<Rightarrow> parse_role s
             | Some _ \<Rightarrow> None) of
             None \<Rightarrow> (Inl (InternalError ''PrismaClientValidationError''), w)
           | Some r \<Rightarrow> (Inr (u\<lparr>u_role := r\<rparr>), w\<lparr>rw_users := update_by u_id uid (\<lambda>x. x\<lparr>u_role := r\<rparr>) (rw_users w)\<rparr>)))"

definition j_opt_str :: "string option \<Rightarrow> json" where
  "j_opt_str x = (if truthy_str x then j_str (the x) else JNull)"

definition send_mail :: "mail \<Rightarrow> request_world \<Rightarrow> request_world" where
  "send_mail m w = w\<lparr>rw_outbox := rw_outbox w @ [m]\<rparr>"

definition send_seller_approval_email :: "user_row \<Rightarrow> string option \<Rightarrow> request_world \<Rightarrow> request_world" where
  "send_seller_approval_email u nts = send_mail (SellerApproved (u_email u) (str_or (u_firstName u) ''Seller'') nts)"

definition send_seller_rejection_email :: "user_row \<Rightarrow> string \<Rightarrow> string \<Rightarrow> request_world \<Rightarrow> request_world" where
  "send_seller_rejection_email u rid reason =
     send_mail (SellerRejected (u_email u) (str_or (u_firstName u) ''Applicant'') rid reason)"

record approval =
  ap_requestId :: string
  ap_user :: user_row
  ap_previousRole :: "json option"
  ap_newRole :: "json option"

fun http_message :: "http_error \<Rightarrow> string" where
  "http_message (NotFound m) = m"
| "http_message (BadRequest m) = m"
| "http_message (Forbidden m) = m"
| "http_message (Conflict m) = m"
| "http_message (InternalError m) = m"
| "http_message (Unauthorized m) = m"

definition approve_role_request ::
  "string \<Rightarrow> string \<Rightarrow> string option \<Rightarrow> ms \<Rightarrow> request_world \<Rightarrow> approval res \<times> request_world" where
  "approve_role_request rid adminId nts now w =
     (case decidable_request rid w of
        Inl e \<Rightarrow> (Inl e, w)
      | Inr r \<Rightarrow>
          (case request_user r w of
             None \<Rightarrow> (Inl (NotFound ''User associated with request not found''), w)
           | Some u \<Rightarrow>
               (let w1 = put_request rid (\<lambda>x. x\<lparr>rq_status := R_PROCESSING, rq_processedAt := Some now\<rparr>) w
                in case set_user_role (u_id u) (json_field ''requestedRole'' (rq_payload r)) w1 of
                     (Inl e, w2) \<Rightarrow>
                       (Inl e, put_request rid (\<lambda>x. x\<lparr>rq_status := R_FAILED, rq_completedAt := Some now,
                          rq_errorMessage := Some (http_message e)\<rparr>) w2)
                   | (Inr u', w2) \<Rightarrow>
                       (let w3 = put_request rid (\<lambda>x. x\<lparr>rq_status := R_COMPLETED, rq_completedAt := Some now,
                              rq_headers := Some (JObj [(''approvedBy'', j_str adminId), (''adminNotes'', j_opt_str nts),
                                (''approvedAt'', j_int now)])\<rparr>) w2;
                            w4 = (if rq_endpoint r = SELLER_ENDPOINT then send_seller_approval_email u' nts w3 else w3)
                        in (Inr \<lparr>ap_requestId = rid, ap_user = u',
                              ap_previousRole = json_field ''currentRole'' (rq_payload r),
                              ap_newRole = json_field ''requestedRole'' (rq_payload r)\<rparr>, w4)))))"

record rejection =
  rj_requestId :: string
  rj_userId :: "string option"
  rj_requestedRole :: "json option"
  rj_reason :: string

definition reject_role_request ::
  "string \<Rightarrow> string \<Rightarrow> string option \<Rightarrow> ms \<Rightarrow> request_world \<Rightarrow> rejection res \<times> request_world" where
  "reject_role_request rid adminId nts now w =
     (case decidable_request rid w of
        Inl e \<Rightarrow> (Inl e, w)
      | Inr r \<Rightarrow>
          (let w1 = put_request rid (\<lambda>x. x\<lparr>rq_status := R_FAILED, rq_processedAt := Some now,
                 rq_completedAt := Some now, rq_errorMessage := Some ''Request rejected by admin'',
                 rq_headers := Some (JObj [(''rejectedBy'', j_str adminId),
                   (''adminNotes'', j_str (str_or nts ''Request rejected'')), (''rejectedAt'', j_int now)])\<rparr>) w;
               w2 = (case request_user r w of
                   Some u \<Rightarrow>
                     if rq_endpoint r = SELLER_ENDPOINT
                     then send_seller_rejection_email u rid (str_or nts ''Your application did not meet our requirements.'') w1
                     else w1
                 | None \<Rightarrow> w1)
           in (Inr \<lparr>rj_requestId = rid, rj_userId = rq_userId r,
                 rj_requestedRole = json_field ''requestedRole'' (rq_payload r),
                 rj_reason = str_or nts ''Request rejected by admin''\<rparr>, w2)))"

subsection \<open>Statistics, details and bulk operations\<close>

record role_stats =
  rs_total :: nat
  rs_pending :: nat
  rs_approved :: nat
  rs_rejected :: nat
  rs_approvalRate :: rat

definition count_seller :: "(request_row \<Rightarrow> bool) \<Rightarrow> request_world \<Rightarrow> nat" where
  "count_seller p w = length (filter (\<lambda>r. rq_endpoint r = SELLER_ENDPOINT \<and> p r) (rw_requests w))"

text \<open>The rate is the number the code prints with two digits and a per cent sign.\<close>

definition get_role_request_stats :: "request_world \<Rightarrow> role_stats" where
  "get_role_request_stats w =
     (let n = count_seller (\<lambda>_. True) w; a = count_seller (\<lambda>r. rq_status r = R_COMPLETED) w
      in \<lparr>rs_total = n, rs_pending = count_seller (\<lambda>r. rq_status r = R_PENDING) w, rs_approved = a,
          rs_rejected = count_seller (\<lambda>r. rq_status r = R_FAILED) w,
          rs_approvalRate = (if n > 0 then to_decimal_places2 (of_nat a / of_nat n * 100) else 0)\<rparr>)"

definition or_json :: "json option \<Rightarrow> json \<Rightarrow> json" where
  "or_json x d = (case x of None \<Rightarrow> d | Some j \<Rightarrow> if json_truthy j then j else d)"

record role_details =
  rd_view :: role_view
  rd_documents :: json
  rd_businessInfo :: json
  rd_productInfo :: json
  rd_userInfo :: json
  rd_contactInfo :: json
  rd_adminNotes :: json

definition no_user_info :: json where
  "no_user_info = JObj [(''city'', j_str []), (''region'', j_str []), (''completeAddress'', j_str [])]"

definition get_role_request_by_id :: "string \<Rightarrow> request_world \<Rightarrow> role_details res" where
  "get_role_request_by_id rid w =
     (case find_request rid w of
        None \<Rightarrow> Inl (NotFound ''Seller application not found'')
      | Some r \<Rightarrow>
          if rq_endpoint r \<noteq> SELLER_ENDPOINT then Inl (BadRequest ''This is not a seller application request'')
          else Inr \<lparr>rd_view = role_view_of (r, request_user r w),
            rd_documents = or_json (json_field ''documents'' (rq_payload r)) (JObj []),
            rd_businessInfo = or_json (json_field ''businessInfo'' (rq_payload r)) (JObj []),
            rd_productInfo = or_json (json_field ''productInfo'' (rq_payload r))
              (JObj [(''mushroomTypes'', JArr []), (''monthlyProductionCapacity'', j_str []), (''certifications'', JArr [])]),
            rd_userInfo = or_json (json_field ''userInfo'' (rq_payload r)) no_user_info,
            rd_contactInfo = or_json (json_field ''userInfo'' (rq_payload r)) no_user_info,
            rd_adminNotes = or_json (json_field ''adminNotes'' (rq_headers r)) JNull\<rparr>)"

text \<open>A bulk operation goes on after a failure and lists what became of each id: the user it approved
  or the message of the error.\<close>

fun bulk_approve :: "string list \<Rightarrow> string \<Rightarrow> string option \<Rightarrow> ms \<Rightarrow> request_world \<Rightarrow>
    (string \<times> (string + string)) list \<times> request_world" where
  "bulk_approve [] adminId nts now w = ([], w)"
| "bulk_approve (rid # rids) adminId nts now w =
     (let (r, w1) = approve_role_request rid adminId nts now w;
          (rs, w2) = bulk_approve rids adminId nts now w1
      in ((rid, case r of Inl e \<Rightarrow> Inl (http_message e) | Inr a \<Rightarrow> Inr (u_id (ap_user a))) # rs, w2))"

fun bulk_reject :: "string list \<Rightarrow> string \<Rightarrow> string option \<Rightarrow> ms \<Rightarrow> request_world \<Rightarrow>
    (string \<times> (string + unit)) list \<times> request_world" where
  "bulk_reject [] adminId nts now w = ([], w)"
| "bulk_reject (rid # rids) adminId nts now w =
     (let (r, w1) = reject_role_request rid adminId nts now w;
          (rs, w2) = bulk_reject rids adminId nts now w1
      in ((rid, case r of Inl e \<Rightarrow> Inl (http_message e) | Inr _ \<Rightarrow> Inr ()) # rs, w2))"

record 'a bulk_result =
  bk_done :: nat
  bk_failed :: nat
  bk_total :: nat
  bk_results :: "(string \<times> (string + 'a)) list"

definition bulk_result_of :: "string list \<Rightarrow> (string \<times> (string + 'a)) list \<Rightarrow> 'a bulk_result" where
  "bulk_result_of rids rs = \<lparr>bk_done = length (filter (\<lambda>x. \<not> isl (snd x)) rs),
     bk_failed = length (filter (\<lambda>x. isl (snd x)) rs),
     bk_total = length rids, bk_results = rs\<rparr>"

definition bulk_approve_requests ::
  "string list \<Rightarrow> string \<Rightarrow> string option \<Rightarrow> ms \<Rightarrow> request_world \<Rightarrow> string bulk_result \<times> request_world" where
  "bulk_approve_requests rids adminId nts now w =
     (let (rs, w') = bulk_approve rids adminId nts now w in (bulk_result_of rids rs, w'))"

definition bulk_reject_requests ::
  "string list \<Rightarrow> string \<Rightarrow> string option \<Rightarrow> ms \<Rightarrow> request_world \<Rightarrow> unit bulk_result \<times> request_world" where
  "bulk_reject_requests rids adminId nts now w =
     (let (rs, w') = bulk_reject rids adminId nts now w in (bulk_result_of rids rs, w'))"

subsection \<open>Lemmas\<close>

lemma put_request_simps [simp]:
  "rw_users (put_request rid f w) = rw_users w" "rw_outbox (put_request rid f w) = rw_outbox w"
  "find_user uid (put_request rid f w) = find_user uid w" "request_user r (put_request rid f w) = request_user r w"
  by (simp_all add: put_request_def find_user_def request_user_def)

lemma find_put_request:
  "(\<And>x. rq_id (f x) = rq_id x) \<Longrightarrow>
   find_request k (put_request rid f w) = (if k = rid then map_option f (find_request k w) else find_request k w)"
  by (simp add: find_request_def put_request_def find_by_update_by)

lemma send_mail_simps [simp]:
  "rw_users (send_mail m w) = rw_users w" "rw_requests (send_mail m w) = rw_requests w"
  "rw_users (send_seller_approval_email u nts w) = rw_users w"
  "rw_requests (send_seller_approval_email u nts w) = rw_requests w"
  "rw_users (send_seller_rejection_email u rid reason w) = rw_users w"
  "rw_requests (send_seller_rejection_email u rid reason w) = rw_requests w"
  "find_request k (send_seller_approval_email u nts w) = find_request k w"
  "find_request k (send_seller_rejection_email u rid reason w) = find_request k w"
  "find_user k (send_seller_approval_email u nts w) = find_user k w"
  "find_user k (send_seller_rejection_email u rid reason w) = find_user k w"
  by (simp_all add: send_mail_def send_seller_approval_email_def send_seller_rejection_email_def find_request_def find_user_def)

lemma set_user_role_cases:
  "set_user_role uid j w = (x, w') \<Longrightarrow>
   rw_requests w' = rw_requests w \<and> (\<forall>k. k \<noteq> uid \<longrightarrow> find_user k w' = find_user k w) \<and>
   (case x of Inl e \<Rightarrow> w' = w | Inr u' \<Rightarrow> find_user uid w' = Some u' \<and> u_id u' = uid)"
  by (auto simp: set_user_role_def find_user_def find_by_update_by dest: find_by_SomeD split: option.splits)

lemma decidable_request_Inr_iff:
  "decidable_request rid w = Inr r \<longleftrightarrow> find_request rid w = Some r \<and> rq_status r = R_PENDING"
  by (auto simp: decidable_request_def split: option.splits)

lemma request_user_id: "request_user r w = Some u \<Longrightarrow> rq_userId r = Some (u_id u) \<and> find_user (u_id u) w = Some u"
  by (cases "rq_userId r") (auto simp: request_user_def find_user_def dest: find_by_SomeD)

lemma set_user_role_Inl: "set_user_role uid j w = (Inl e, w') \<Longrightarrow> w' = w"
  by (auto simp: set_user_role_def split: option.splits)

lemma update_by_twice:
  "(\<And>x. rq_id (g x) = rq_id x) \<Longrightarrow>
   update_by rq_id rid f (update_by rq_id rid g rows) = update_by rq_id rid (\<lambda>x. f (g x)) rows"
  by (induction rows) auto

text \<open>An approval that succeeds, and one that does not.\<close>

lemma approve_success:
  assumes "approve_role_request rid adminId nts now w = (Inr a, w')"
  obtains r u where "find_request rid w = Some r" "rq_status r = R_PENDING" "request_user r w = Some u"
    "set_user_role (u_id u) (json_field ''requestedRole'' (rq_payload r)) w = (Inr (ap_user a), w\<lparr>rw_users := rw_users w'\<rparr>)"
    "rw_requests w' = update_by rq_id rid (\<lambda>x. x\<lparr>rq_processedAt := Some now, rq_status := R_COMPLETED,
       rq_completedAt := Some now, rq_headers := Some (JObj [(''approvedBy'', j_str adminId),
         (''adminNotes'', j_opt_str nts), (''approvedAt'', j_int now)])\<rparr>) (rw_requests w)"
proof -
  obtain r where r: "decidable_request rid w = Inr r"
    using assms by (auto simp: approve_role_request_def split: sum.splits)
  obtain u where u: "request_user r w = Some u"
    using assms r by (auto simp: approve_role_request_def split: option.splits)
  let ?w1 = "put_request rid (\<lambda>x. x\<lparr>rq_status := R_PROCESSING, rq_processedAt := Some now\<rparr>) w"
  obtain u' w2 where s: "set_user_role (u_id u) (json_field ''requestedRole'' (rq_payload r)) ?w1 = (Inr u', w2)"
    and a: "ap_user a = u'" and w': "rw_users w' = rw_users w2" "rw_requests w' = update_by rq_id rid
      (\<lambda>x. x\<lparr>rq_status := R_COMPLETED, rq_completedAt := Some now, rq_headers := Some (JObj [(''approvedBy'', j_str adminId),
        (''adminNotes'', j_opt_str nts), (''approvedAt'', j_int now)])\<rparr>) (rw_requests w2)"
    using assms r u by (auto simp: approve_role_request_def Let_def put_request_def split: sum.splits prod.splits if_splits)
  have "set_user_role (u_id u) (json_field ''requestedRole'' (rq_payload r)) w = (Inr u', w\<lparr>rw_users := rw_users w'\<rparr>)"
    using s unfolding w'(1) by (auto simp: set_user_role_def put_request_def find_user_def split: option.splits)
  moreover have "rw_requests w2 = rw_requests ?w1" using set_user_role_cases [OF s] by simp
  ultimately show thesis
    using r u a w'(2) that by (simp add: decidable_request_Inr_iff put_request_def update_by_twice)
qed

lemma approve_failure:
  assumes "approve_role_request rid adminId nts now w = (Inl e, w')"
  shows "w' = w \<or> (\<exists>r. find_request rid w = Some r \<and> rq_status r = R_PENDING \<and>
    w' = w\<lparr>rw_requests := update_by rq_id rid (\<lambda>x. x\<lparr>rq_processedAt := Some now, rq_status := R_FAILED,
      rq_completedAt := Some now, rq_errorMessage := Some (http_message e)\<rparr>) (rw_requests w)\<rparr>)"
proof -
  from assms show ?thesis
    by (auto simp: approve_role_request_def Let_def put_request_def update_by_twice decidable_request_Inr_iff
        split: sum.splits prod.splits option.splits dest!: set_user_role_Inl)
qed

lemma approve_others:
  assumes "approve_role_request rid adminId nts now w = (x, w')" "k \<noteq> rid"
  shows "find_request k w' = find_request k w"
proof (cases x)
  case (Inl e)
  then show ?thesis using approve_failure assms by (fastforce simp: find_request_def find_by_update_by)
next
  case (Inr a)
  show ?thesis by (rule approve_success [OF assms(1) [unfolded Inr]]) (simp add: find_request_def find_by_update_by assms(2))
qed

lemma approve_completes:
  assumes "approve_role_request rid adminId nts now w = (Inr a, w')"
  shows "map_option rq_status (find_request rid w') = Some R_COMPLETED"
  by (rule approve_success [OF assms]) (simp add: find_request_def find_by_update_by)

lemma reject_success:
  assumes "reject_role_request rid adminId nts now w = (x, w')"
  shows "w' = w \<or> (\<exists>r f. find_request rid w = Some r \<and> rq_status r = R_PENDING \<and> rw_users w' = rw_users w \<and>
    rw_requests w' = update_by rq_id rid f (rw_requests w) \<and>
    (\<forall>y. rq_id (f y) = rq_id y \<and> rq_userId (f y) = rq_userId y \<and> rq_endpoint (f y) = rq_endpoint y \<and>
      rq_payload (f y) = rq_payload y \<and> rq_status (f y) = R_FAILED))"
  using assms
  by (cases "decidable_request rid w")
    (auto simp: reject_role_request_def Let_def put_request_def decidable_request_Inr_iff split: option.splits if_splits)

subsection \<open>All seller applications\<close>

text \<open>The operations the controllers reach, in any order; a new request has a new id.\<close>

inductive application_step :: "request_world \<Rightarrow> request_world \<Rightarrow> bool" where
  apply_step: "find_request rid w = None \<Longrightarrow> application_step w (snd (create_role_change_request rid uid d now w))"
| approve_step: "application_step w (snd (approve_role_request rid adminId nts now w))"
| reject_step: "application_step w (snd (reject_role_request rid adminId nts now w))"

definition pending_count :: "string \<Rightarrow> request_world \<Rightarrow> nat" where
  "pending_count uid w = length (filter (pending_of uid) (rw_requests w))"

text \<open>What holds of every world reached from \<open>w0\<close>: applications ask for ADMIN and come from users that
  were USER, and who is no longer what he was has a completed one.\<close>

definition applications_ok :: "request_world \<Rightarrow> request_world \<Rightarrow> bool" where
  "applications_ok w0 w \<longleftrightarrow>
     distinct (map rq_id (rw_requests w)) \<and> (\<forall>uid. pending_count uid w \<le> 1) \<and>
     (\<forall>r \<in> set (rw_requests w). rq_status r \<in> {R_PENDING, R_COMPLETED, R_FAILED} \<and>
        json_field ''requestedRole'' (rq_payload r) = Some (j_str (role_text ADMIN)) \<and>
        (\<exists>uid u0. rq_userId r = Some uid \<and> find_user uid w0 = Some u0 \<and> u_role u0 = USER)) \<and>
     (\<forall>uid u. find_user uid w = Some u \<longrightarrow> (\<exists>u0. find_user uid w0 = Some u0 \<and> (u_role u = u_role u0 \<or>
        u_role u0 = USER \<and> u_role u = ADMIN \<and>
        (\<exists>r \<in> set (rw_requests w). rq_userId r = Some uid \<and> rq_status r = R_COMPLETED))))"

lemma parse_role_text [simp]: "parse_role (role_text r) = Some r"
  by (cases r) (simp_all add: parse_role_def)

lemma seller_payload_role [simp]:
  "json_field ''requestedRole'' (Some (seller_payload u d now)) = Some (j_str (role_text ADMIN))"
  by (simp add: seller_payload_def)

text \<open>Deciding a pending request: its status changes, and nothing else of the requests.\<close>

lemma pending_after_update:
  assumes "\<And>y. rq_userId (f y) = rq_userId y \<and> rq_status (f y) \<noteq> R_PENDING"
  shows "length (filter (pending_of uid) (update_by rq_id rid f rows)) \<le> length (filter (pending_of uid) rows)"
  using assms by (induction rows) (auto simp: pending_of_def)

lemma applications_decide:
  assumes ok: "applications_ok w0 w" and r: "find_request rid w = Some r" "rq_status r = R_PENDING"
    and f: "\<And>y. rq_id (f y) = rq_id y \<and> rq_userId (f y) = rq_userId y \<and> rq_payload (f y) = rq_payload y \<and> rq_status (f y) = st"
    and st: "st \<in> {R_COMPLETED, R_FAILED}"
    and reqs: "rw_requests w' = update_by rq_id rid f (rw_requests w)"
    and us: "\<And>uid u. find_user uid w' = Some u \<Longrightarrow> find_user uid w = Some u \<or>
        st = R_COMPLETED \<and> rq_userId r = Some uid \<and> u_role u = ADMIN \<and> find_user uid w \<noteq> None"
  shows "applications_ok w0 w'"
proof -
  have rin: "r \<in> set (rw_requests w)" "rq_id r = rid" using r(1) by (auto simp: find_request_def dest: find_by_SomeD)
  have rows: "x \<in> set (rw_requests w') \<Longrightarrow> \<exists>y \<in> set (rw_requests w). x = y \<or> rq_id y = rid \<and> x = f y" for x
    by (auto simp: reqs update_by_def set_update_where split: if_splits)
  have fr: "f r \<in> set (rw_requests w')" using rin by (force simp: reqs update_by_def set_update_where)
  have done_kept: "\<exists>x \<in> set (rw_requests w'). rq_userId x = Some uid \<and> rq_status x = R_COMPLETED"
    if "y \<in> set (rw_requests w)" "rq_userId y = Some uid" "rq_status y = R_COMPLETED" for y uid
  proof -
    have "y = r" if "rq_id y = rid"
      using ok rin \<open>y \<in> set (rw_requests w)\<close> that by (metis applications_ok_def distinct_map inj_onD)
    then have "rq_id y \<noteq> rid" using that(3) r(2) by auto
    then have "y \<in> set (rw_requests w')" using that(1) by (force simp: reqs update_by_def set_update_where)
    with that show ?thesis by blast
  qed
  have "pending_count uid w' \<le> pending_count uid w" for uid
    unfolding pending_count_def reqs by (rule pending_after_update) (use f st in auto)
  then have p: "pending_count uid w' \<le> 1" for uid using ok by (meson applications_ok_def le_trans)
  have d: "distinct (map rq_id (rw_requests w'))" using ok f by (simp add: reqs keys_update_by applications_ok_def)
  have q: "rq_status x \<in> {R_PENDING, R_COMPLETED, R_FAILED} \<and>
      json_field ''requestedRole'' (rq_payload x) = Some (j_str (role_text ADMIN)) \<and>
      (\<exists>uid u0. rq_userId x = Some uid \<and> find_user uid w0 = Some u0 \<and> u_role u0 = USER)"
    if x: "x \<in> set (rw_requests w')" for x
  proof -
    obtain y where "y \<in> set (rw_requests w)" "x = y \<or> x = f y" using rows [OF x] by blast
    then show ?thesis using ok f [of y] st unfolding applications_ok_def by (elim conjE) (metis insertCI insertE)
  qed
  have u: "\<exists>u0. find_user uid w0 = Some u0 \<and> (u_role u = u_role u0 \<or> u_role u0 = USER \<and> u_role u = ADMIN \<and>
      (\<exists>r \<in> set (rw_requests w'). rq_userId r = Some uid \<and> rq_status r = R_COMPLETED))"
    if u: "find_user uid w' = Some u" for uid u
    using us [OF u]
  proof
    assume "find_user uid w = Some u"
    then show ?thesis using ok done_kept unfolding applications_ok_def by metis
  next
    assume a: "st = R_COMPLETED \<and> rq_userId r = Some uid \<and> u_role u = ADMIN \<and> find_user uid w \<noteq> None"
    then obtain u0 where "find_user uid w0 = Some u0" "u_role u0 = USER"
      using ok rin(1) unfolding applications_ok_def by fastforce
    then show ?thesis using a fr f [of r] by auto
  qed
  show ?thesis unfolding applications_ok_def using p d q u by blast
qed

lemma applications_create:
  assumes ok: "applications_ok w0 w" and new: "find_request rid w = None"
  shows "applications_ok w0 (snd (create_role_change_request rid uid d now w))"
proof (cases "\<exists>e. fst (create_role_change_request rid uid d now w) = Inl e")
  case True
  then have "snd (create_role_change_request rid uid d now w) = w"
    by (auto simp: create_role_change_request_def insert_request_def split: option.splits if_splits)
  with ok show ?thesis by simp
next
  case False
  then obtain u where u: "find_user uid w = Some u" "u_role u = USER" "List.find (pending_of uid) (rw_requests w) = None"
    by (auto simp: create_role_change_request_def split: option.splits if_splits)
  then obtain row where row: "snd (create_role_change_request rid uid d now w) = w\<lparr>rw_requests := rw_requests w @ [row]\<rparr>"
    "rq_id row = rid" "rq_userId row = Some uid" "rq_status row = R_PENDING"
    "json_field ''requestedRole'' (rq_payload row) = Some (j_str (role_text ADMIN))"
    by (auto simp: create_role_change_request_def insert_request_def request_user_def find_user_def)
  have "filter (pending_of uid) (rw_requests w) = []" using u(3) by (auto simp: find_None_iff filter_empty_conv)
  then have p: "pending_count k (w\<lparr>rw_requests := rw_requests w @ [row]\<rparr>) \<le> 1" for k
    using ok row(3) by (cases "k = uid") (auto simp: pending_count_def pending_of_def applications_ok_def)
  have u0: "\<exists>u0. find_user uid w0 = Some u0 \<and> u_role u0 = USER"
    using ok u unfolding applications_ok_def by (metis user_role.distinct(1))
  have d: "distinct (map rq_id (rw_requests w @ [row]))"
    using ok new row(2) by (auto simp: applications_ok_def find_request_def find_by_None_iff)
  have f: "find_user k (w\<lparr>rw_requests := rw_requests w @ [row]\<rparr>) = find_user k w" for k by (simp add: find_user_def)
  from ok p u0 d row(3-5) show ?thesis unfolding row(1) applications_ok_def f by auto
qed

lemma set_user_role_result:
  "set_user_role uid j w = (Inr u', w') \<Longrightarrow> find_user uid w = Some u \<Longrightarrow>
   (case j of None \<Rightarrow> u_role u' = u_role u | Some k \<Rightarrow> \<exists>s. k = j_str s \<and> parse_role s = Some (u_role u'))"
  by (auto simp: set_user_role_def j_str_def split: option.splits json.splits jstr.splits)

lemma set_user_role_admin:
  assumes "set_user_role uid (Some (j_str (role_text ADMIN))) w = (Inr u', w\<lparr>rw_users := us\<rparr>)" "find_by u_id k us = Some u"
  shows "find_user k w = Some u \<or> k = uid \<and> u_role u = ADMIN \<and> find_user k w \<noteq> None"
proof -
  have s: "parse_role ''ADMIN'' = Some ADMIN" using parse_role_text [of ADMIN] by simp
  obtain x where x: "find_user uid w = Some x" and eq: "w\<lparr>rw_users := us\<rparr> =
      w\<lparr>rw_users := update_by u_id uid (\<lambda>x. x\<lparr>u_role := ADMIN\<rparr>) (rw_users w)\<rparr>"
    using assms(1) by (auto simp: set_user_role_def j_str_def s split: option.splits)
  have "us = update_by u_id uid (\<lambda>x. x\<lparr>u_role := ADMIN\<rparr>) (rw_users w)" using arg_cong [OF eq, of rw_users] by simp
  with assms(2) show ?thesis by (auto simp: find_user_def find_by_update_by split: if_splits)
qed

lemma application_step_ok: "application_step w w' \<Longrightarrow> applications_ok w0 w \<Longrightarrow> applications_ok w0 w'"
proof (induction rule: application_step.induct)
  case apply_step
  then show ?case by (intro applications_create)
next
  case (approve_step w rid adminId nts now)
  obtain x w' where x: "approve_role_request rid adminId nts now w = (x, w')" by (rule prod.exhaust)
  have "applications_ok w0 w'"
  proof (cases x)
    case (Inl e)
    then consider "w' = w" | r where "find_request rid w = Some r" "rq_status r = R_PENDING"
      "w' = w\<lparr>rw_requests := update_by rq_id rid (\<lambda>x. x\<lparr>rq_processedAt := Some now, rq_status := R_FAILED,
        rq_completedAt := Some now, rq_errorMessage := Some (http_message e)\<rparr>) (rw_requests w)\<rparr>"
      using approve_failure x by blast
    then show ?thesis
    proof cases
      case 1
      then show ?thesis using approve_step by simp
    next
      case 2
      then show ?thesis
        by (intro applications_decide [OF approve_step 2(1,2), where st = R_FAILED and f = "\<lambda>x. x\<lparr>rq_processedAt := Some now,
            rq_status := R_FAILED, rq_completedAt := Some now, rq_errorMessage := Some (http_message e)\<rparr>"])
          (auto simp: find_user_def)
    qed
  next
    case (Inr a)
    obtain r u where r: "find_request rid w = Some r" "rq_status r = R_PENDING" "request_user r w = Some u"
      "set_user_role (u_id u) (json_field ''requestedRole'' (rq_payload r)) w = (Inr (ap_user a), w\<lparr>rw_users := rw_users w'\<rparr>)"
      "rw_requests w' = update_by rq_id rid (\<lambda>x. x\<lparr>rq_processedAt := Some now, rq_status := R_COMPLETED,
         rq_completedAt := Some now, rq_headers := Some (JObj [(''approvedBy'', j_str adminId),
           (''adminNotes'', j_opt_str nts), (''approvedAt'', j_int now)])\<rparr>) (rw_requests w)"
      by (rule approve_success [OF x [unfolded Inr]])
    have "r \<in> set (rw_requests w)" using r(1) by (auto simp: find_request_def dest: find_by_SomeD)
    then have adm: "json_field ''requestedRole'' (rq_payload r) = Some (j_str (role_text ADMIN))"
      using approve_step unfolding applications_ok_def by blast
    have uid: "rq_userId r = Some (u_id u)" using request_user_id [OF r(3)] by simp
    show ?thesis
      by (rule applications_decide [OF approve_step r(1,2) _ _ r(5), of R_COMPLETED])
        (use set_user_role_admin [OF r(4) [unfolded adm]] uid in \<open>auto simp: find_user_def\<close>)
  qed
  then show ?case by (simp add: x)
next
  case (reject_step w rid adminId nts now)
  obtain x w' where x: "reject_role_request rid adminId nts now w = (x, w')" by (rule prod.exhaust)
  have "applications_ok w0 w'"
    using reject_success [OF x]
  proof (elim disjE exE conjE)
    assume "w' = w"
    then show ?thesis using reject_step by simp
  next
    fix r f
    assume r: "find_request rid w = Some r" "rq_status r = R_PENDING" "rw_users w' = rw_users w"
      "rw_requests w' = update_by rq_id rid f (rw_requests w)"
      "\<forall>y. rq_id (f y) = rq_id y \<and> rq_userId (f y) = rq_userId y \<and> rq_endpoint (f y) = rq_endpoint y \<and>
        rq_payload (f y) = rq_payload y \<and> rq_status (f y) = R_FAILED"
    show ?thesis
      by (rule applications_decide [OF reject_step r(1,2) _ _ r(4), of R_FAILED]) (use r(3,5) in \<open>auto simp: find_user_def\<close>)
  qed
  then show ?case by (simp add: x)
qed

lemma application_steps_ok: "application_step\<^sup>*\<^sup>* w w' \<Longrightarrow> applications_ok w0 w \<Longrightarrow> applications_ok w0 w'"
  by (induction rule: rtranclp_induct) (blast intro: application_step_ok)+

subsection \<open>Properties\<close>

text \<open>C2. Nobody becomes a seller without an approved application: from an empty queue, whatever
  applications, approvals, rejections and bulk decisions follow, a user's role is the one he had, or
  he was a USER, is an ADMIN now and has a completed application; in particular the queue never
  makes a SUPER_ADMIN. No user ever has two pending applications.\<close>

theorem seller_role_safety:
  assumes "application_step\<^sup>*\<^sup>* w0 w" "rw_requests w0 = []"
  shows "(\<forall>uid u. find_user uid w = Some u \<longrightarrow> (\<exists>u0. find_user uid w0 = Some u0 \<and> (u_role u = u_role u0 \<or>
      u_role u0 = USER \<and> u_role u = ADMIN \<and>
      (\<exists>r \<in> set (rw_requests w). rq_userId r = Some uid \<and> rq_status r = R_COMPLETED)))) \<and>
    (\<forall>uid. length (filter (pending_of uid) (rw_requests w)) \<le> 1)"
proof -
  have "applications_ok w0 w0" using assms(2) by (simp add: applications_ok_def pending_count_def)
  then have "applications_ok w0 w" by (rule application_steps_ok [OF assms(1)])
  then show ?thesis unfolding applications_ok_def pending_count_def by blast
qed

text \<open>C39. An approval decides a request once, on every branch: it succeeds only for a pending request
  with a user, who then has exactly the role the payload names (an absent one leaves the role), the
  request is completed and a second approval is refused; a failure leaves users and mails alone, and
  either changes nothing or marks the pending request FAILED with the error's message. No other
  request is touched.\<close>

theorem approve_request_effect:
  assumes "approve_role_request rid adminId nts now w = (x, w')"
  shows "(\<forall>k. k \<noteq> rid \<longrightarrow> find_request k w' = find_request k w) \<and>
    (case x of
       Inl e \<Rightarrow> rw_users w' = rw_users w \<and> rw_outbox w' = rw_outbox w \<and>
         (w' = w \<or> map_option rq_status (find_request rid w) = Some R_PENDING \<and>
           map_option (\<lambda>r. (rq_status r, rq_errorMessage r)) (find_request rid w') = Some (R_FAILED, Some (http_message e)))
     | Inr a \<Rightarrow> (\<exists>r u. find_request rid w = Some r \<and> rq_status r = R_PENDING \<and> request_user r w = Some u \<and>
         map_option rq_status (find_request rid w') = Some R_COMPLETED \<and>
         find_user (u_id u) w' = Some (ap_user a) \<and> (\<forall>k. k \<noteq> u_id u \<longrightarrow> find_user k w' = find_user k w) \<and>
         (case json_field ''requestedRole'' (rq_payload r) of
            None \<Rightarrow> u_role (ap_user a) = u_role u
          | Some j \<Rightarrow> (\<exists>s. j = j_str s \<and> parse_role s = Some (u_role (ap_user a)))) \<and>
         approve_role_request rid admin' nts' now' w' = (Inl (BadRequest ''Request has already been completed''), w')))"
proof (cases x)
  case (Inl e)
  consider "w' = w" | r where "find_request rid w = Some r" "rq_status r = R_PENDING"
    "w' = w\<lparr>rw_requests := update_by rq_id rid (\<lambda>x. x\<lparr>rq_processedAt := Some now, rq_status := R_FAILED,
      rq_completedAt := Some now, rq_errorMessage := Some (http_message e)\<rparr>) (rw_requests w)\<rparr>"
    using approve_failure assms [unfolded Inl] by blast
  then show ?thesis
  proof cases
    case 1
    then show ?thesis by (simp add: Inl)
  next
    case 2
    then show ?thesis by (auto simp: Inl find_request_def find_by_update_by)
  qed
next
  case (Inr a)
  obtain r u where r: "find_request rid w = Some r" "rq_status r = R_PENDING" "request_user r w = Some u"
    "set_user_role (u_id u) (json_field ''requestedRole'' (rq_payload r)) w = (Inr (ap_user a), w\<lparr>rw_users := rw_users w'\<rparr>)"
    "rw_requests w' = update_by rq_id rid (\<lambda>x. x\<lparr>rq_processedAt := Some now, rq_status := R_COMPLETED,
       rq_completedAt := Some now, rq_headers := Some (JObj [(''approvedBy'', j_str adminId),
         (''adminNotes'', j_opt_str nts), (''approvedAt'', j_int now)])\<rparr>) (rw_requests w)"
    by (rule approve_success [OF assms [unfolded Inr]])
  have fr: "find_request k w' = (if k = rid then map_option (\<lambda>x. x\<lparr>rq_processedAt := Some now, rq_status := R_COMPLETED,
       rq_completedAt := Some now, rq_headers := Some (JObj [(''approvedBy'', j_str adminId),
         (''adminNotes'', j_opt_str nts), (''approvedAt'', j_int now)])\<rparr>) (find_request k w) else find_request k w)" for k
    by (simp add: find_request_def r(5) find_by_update_by)
  have us: "find_user k w' = find_user k (w\<lparr>rw_users := rw_users w'\<rparr>)" for k by (simp add: find_user_def)
  have role: "case json_field ''requestedRole'' (rq_payload r) of
      None \<Rightarrow> u_role (ap_user a) = u_role u
    | Some j \<Rightarrow> (\<exists>s. j = j_str s \<and> parse_role s = Some (u_role (ap_user a)))"
    by (rule set_user_role_result [OF r(4)]) (use request_user_id [OF r(3)] in blast)
  show ?thesis
    using r(1-3) set_user_role_cases [OF r(4)] role
    by (auto simp: Inr fr us approve_role_request_def decidable_request_def)
qed

definition demo_seller :: seller_dto where
  "demo_seller = \<lparr>sd_city = ''QC'', sd_region = ''NCR'', sd_completeAddress = ''1'', sd_businessName = ''M'',
     sd_businessType = ''S'', sd_mushroomTypes = [''Oyster''], sd_capacity = ''10'', sd_certifications = None,
     sd_governmentId = ''g'', sd_birCertificate = ''b'', sd_businessCertificate = ''c'', sd_additionalInfo = None\<rparr>"

definition demo_queue :: request_world where
  "demo_queue = \<lparr>rw_users = [demo_user\<lparr>u_role := USER\<rparr>], rw_requests = [], rw_outbox = []\<rparr>"

definition demo_applied :: request_world where
  "demo_applied = snd (create_role_change_request ''r1'' ''u1'' demo_seller 1 demo_queue)"

lemma demo_approve: "\<exists>a. approve_role_request ''r1'' ''a1'' None 2 demo_applied =
    (Inr a, snd (approve_role_request ''r1'' ''a1'' None 2 demo_applied)) \<and> u_role (ap_user a) = ADMIN"
proof -
  have p: "parse_role ''ADMIN'' = Some ADMIN" using parse_role_text [of ADMIN] by simp
  show ?thesis
    by (simp add: demo_applied_def demo_queue_def demo_user_def create_role_change_request_def find_user_def insert_request_def
        request_user_def approve_role_request_def decidable_request_def find_request_def put_request_def set_user_role_def
        seller_payload_def j_str_def p Let_def SELLER_ENDPOINT_def)
qed

lemma seller_role_safety_witness:
  "\<exists>u. find_user ''u1'' (snd (approve_role_request ''r1'' ''a1'' None 2 demo_applied)) = Some u \<and> u_role u \<noteq> SUPER_ADMIN"
proof -
  have new: "find_request ''r1'' demo_queue = None" by (simp add: find_request_def demo_queue_def)
  have "application_step demo_queue demo_applied"
    unfolding demo_applied_def by (rule apply_step [OF new])
  then have steps: "application_step\<^sup>*\<^sup>* demo_queue (snd (approve_role_request ''r1'' ''a1'' None 2 demo_applied))"
    using approve_step by (meson r_into_rtranclp rtranclp_trans)
  obtain a where "approve_role_request ''r1'' ''a1'' None 2 demo_applied =
      (Inr a, snd (approve_role_request ''r1'' ''a1'' None 2 demo_applied))" using demo_approve by blast
  from approve_success [OF this] obtain r u where r: "find_request ''r1'' demo_applied = Some r" "request_user r demo_applied = Some u"
    "set_user_role (u_id u) (json_field ''requestedRole'' (rq_payload r)) demo_applied =
      (Inr (ap_user a), demo_applied\<lparr>rw_users := rw_users (snd (approve_role_request ''r1'' ''a1'' None 2 demo_applied))\<rparr>)"
    by metis
  have "u_id u = ''u1''"
    using r(1,2) by (auto simp: demo_applied_def demo_queue_def demo_user_def create_role_change_request_def find_user_def
        insert_request_def request_user_def find_request_def)
  then have "\<exists>u. find_user ''u1'' (snd (approve_role_request ''r1'' ''a1'' None 2 demo_applied)) = Some u"
    using set_user_role_cases [OF r(3)] by (auto simp: find_user_def)
  moreover have "rw_requests demo_queue = []" "\<forall>u0. find_user ''u1'' demo_queue = Some u0 \<longrightarrow> u_role u0 = USER"
    by (simp_all add: demo_queue_def find_user_def demo_user_def)
  ultimately show ?thesis using seller_role_safety [OF steps] by fastforce
qed

lemma approve_request_effect_witness:
  "fst (approve_role_request ''r1'' ''a2'' None 3 (snd (approve_role_request ''r1'' ''a1'' None 2 demo_applied))) =
    Inl (BadRequest ''Request has already been completed'')"
proof -
  obtain a where "approve_role_request ''r1'' ''a1'' None 2 demo_applied =
      (Inr a, snd (approve_role_request ''r1'' ''a1'' None 2 demo_applied))" using demo_approve by blast
  from approve_request_effect [OF this, of "''a2''" None 3] show ?thesis by auto
qed

text \<open>A decided request stays decided through a bulk approval, and is not approved in it.\<close>

lemma approve_keeps_decided:
  assumes "find_request k w = Some r" "rq_status r \<noteq> R_PENDING"
  shows "find_request k (snd (approve_role_request rid adminId nts now w)) = Some r"
proof (cases "k = rid")
  case True
  then show ?thesis using assms by (simp add: approve_role_request_def decidable_request_def)
next
  case False
  then show ?thesis using approve_others [OF surjective_pairing, of k rid adminId nts now w] assms(1) by simp
qed

lemma bulk_skips_decided:
  "find_request k w = Some r \<Longrightarrow> rq_status r \<noteq> R_PENDING \<Longrightarrow>
   (k, Inr u) \<notin> set (fst (bulk_approve rids adminId nts now w))"
proof (induction rids arbitrary: w)
  case (Cons rid rids)
  have "find_request k (snd (approve_role_request rid adminId nts now w)) = Some r"
    by (rule approve_keeps_decided [OF Cons.prems])
  moreover have "fst (approve_role_request k adminId nts now w) \<noteq> Inr a" for a
    using Cons.prems by (simp add: approve_role_request_def decidable_request_def)
  ultimately show ?case using Cons.IH Cons.prems
    by (auto simp: Let_def case_prod_beta split: sum.splits)
qed simp

text \<open>A bulk approval reports every id in order, its two counts add up to the number of ids, and no
  id is approved twice however often it is listed.\<close>

theorem bulk_approve_once:
  shows "map fst (bk_results (fst (bulk_approve_requests rids adminId nts now w))) = rids \<and>
    bk_done (fst (bulk_approve_requests rids adminId nts now w)) +
      bk_failed (fst (bulk_approve_requests rids adminId nts now w)) = length rids \<and>
    distinct (map fst (filter (\<lambda>x. \<not> isl (snd x))
      (bk_results (fst (bulk_approve_requests rids adminId nts now w)))))"
proof -
  let ?ok = "\<lambda>x. \<not> isl (snd x)"
  have ids: "map fst (fst (bulk_approve rids adminId nts now w)) = rids" for w
    by (induction rids arbitrary: w) (simp_all add: Let_def case_prod_beta)
  have count: "length (filter ?ok rs) + length (filter (\<lambda>x. isl (snd x)) rs) = length rs"
    for rs :: "(string \<times> (string + string)) list" by (induction rs) auto
  have once: "distinct (map fst (filter ?ok (fst (bulk_approve rids adminId nts now w))))" for w
  proof (induction rids arbitrary: w)
    case (Cons rid rids)
    obtain x w1 where x: "approve_role_request rid adminId nts now w = (x, w1)" by (rule prod.exhaust)
    have "(rid, y) \<notin> set (fst (bulk_approve rids adminId nts now w1))" if "x = Inr a" "\<not> isl y" for a y
    proof -
      have "map_option rq_status (find_request rid w1) = Some R_COMPLETED"
        using approve_completes x that(1) by blast
      then obtain z where "find_request rid w1 = Some z" "rq_status z \<noteq> R_PENDING" by auto
      then have "(rid, Inr u) \<notin> set (fst (bulk_approve rids adminId nts now w1))" for u by (rule bulk_skips_decided)
      then show ?thesis using that(2) by (cases y) auto
    qed
    with Cons.IH [of w1] show ?case
      by (cases x) (auto simp: x Let_def case_prod_beta)
  qed simp
  have "length (fst (bulk_approve rids adminId nts now w)) = length rids" using ids [of w] by (metis length_map)
  then show ?thesis using ids once count [of "fst (bulk_approve rids adminId nts now w)"]
    by (simp add: bulk_approve_requests_def bulk_result_of_def case_prod_beta)
qed

end
