(* ===== verification/Quota.thy ===== *)
theory Quota
  imports Redis_Service
begin

section \<open>Quotas\<close>

text \<open>
  \<open>modules/auth/services/quota.service.ts\<close> and \<open>interfaces/quota.interface.ts\<close>: daily and monthly
  request counters in Redis. A time is a UTC calendar date with the millisecond of the day, and
  \<open>get_time\<close> is \<open>Date.getTime\<close>; the setters of JavaScript's \<open>Date\<close> carry a day that is past the end
  of its month over into the next one. A call reads the clock once.
\<close>

record utc =
  yr :: int
  mon :: nat
  day_of :: nat
  tod :: ms

definition leap :: "int \<Rightarrow> bool" where
  "leap y \<longleftrightarrow> y mod 4 = 0 \<and> (y mod 100 \<noteq> 0 \<or> y mod 400 = 0)"

definition month_days :: "int \<Rightarrow> nat \<Rightarrow> nat" where
  "month_days y m = (if m = 2 then (if leap y then 29 else 28) else if m \<in> {4, 6, 9, 11} then 30 else 31)"

definition valid_utc :: "utc \<Rightarrow> bool" where
  "valid_utc t \<longleftrightarrow> mon t \<in> {1..12} \<and> day_of t \<in> {1..month_days (yr t) (mon t)} \<and> tod t \<in> {0..<86400000}"

text \<open>Days since the epoch of the first day of a year and of a date.\<close>

definition year_start :: "int \<Rightarrow> int" where
  "year_start y = 365 * (y - 1970) + (y - 1969) div 4 - (y - 1901) div 100 + (y - 1601) div 400"

definition day_number :: "utc \<Rightarrow> int" where
  "day_number t = year_start (yr t) + (\<Sum>m \<leftarrow> [1..<mon t]. int (month_days (yr t) m)) + int (day_of t) - 1"

definition get_time :: "utc \<Rightarrow> ms" where
  "get_time t = day_number t * 86400000 + tod t"

definition next_month :: "utc \<Rightarrow> utc" where
  "next_month t = (if mon t = 12 then t\<lparr>yr := yr t + 1, mon := 1\<rparr> else t\<lparr>mon := mon t + 1\<rparr>)"

text \<open>A day past the end of the month is a day of the next month; no setter here goes further.\<close>

definition carry_day :: "utc \<Rightarrow> utc" where
  "carry_day t = (if day_of t > month_days (yr t) (mon t)
     then (next_month t)\<lparr>day_of := day_of t - month_days (yr t) (mon t)\<rparr> else t)"

definition set_utc_date :: "nat \<Rightarrow> utc \<Rightarrow> utc" where
  "set_utc_date d t = carry_day (t\<lparr>day_of := d\<rparr>)"

definition add_utc_month :: "utc \<Rightarrow> utc" where
  "add_utc_month t = carry_day (next_month t)"

subsection \<open>The service\<close>

record quota_config =
  dailyLimit :: int
  monthlyLimit :: int

definition ROLE_QUOTAS :: "(string \<times> quota_config) list" where
  "ROLE_QUOTAS =
     [(''SUPER_ADMIN'', \<lparr>dailyLimit = 1000000, monthlyLimit = 30000000\<rparr>),
      (''ADMIN'', \<lparr>dailyLimit = 100000, monthlyLimit = 3000000\<rparr>),
      (''GROWER'', \<lparr>dailyLimit = 20000, monthlyLimit = 600000\<rparr>),
      (''BUYER'', \<lparr>dailyLimit = 15000, monthlyLimit = 450000\<rparr>),
      (''USER'', \<lparr>dailyLimit = 10000, monthlyLimit = 300000\<rparr>),
      (''GUEST'', \<lparr>dailyLimit = 1000, monthlyLimit = 30000\<rparr>)]"

text \<open>A role named like a property of \<open>Object.prototype\<close> is not modelled.\<close>

definition get_role_quota :: "string \<Rightarrow> quota_config" where
  "get_role_quota role =
     (case map_of ROLE_QUOTAS role of Some q \<Rightarrow> q | None \<Rightarrow> \<lparr>dailyLimit = 1000, monthlyLimit = 30000\<rparr>)"

text \<open>The date part of the keys is kept as its numbers.\<close>

definition digit :: "nat \<Rightarrow> char" where "digit n = char_of (48 + n mod 10)"

definition pad2 :: "nat \<Rightarrow> string" where "pad2 n = [digit (n div 10), digit n]"

definition pad4 :: "nat \<Rightarrow> string" where "pad4 n = pad2 (n div 100) @ pad2 (n mod 100)"

definition get_daily_key :: "string \<Rightarrow> utc \<Rightarrow> string" where
  "get_daily_key uid t =
     ''quota:daily:'' @ uid @ '':'' @ pad4 (nat (yr t)) @ ''-'' @ pad2 (mon t) @ ''-'' @ pad2 (day_of t)"

definition get_monthly_key :: "string \<Rightarrow> utc \<Rightarrow> string" where
  "get_monthly_key uid t = ''quota:monthly:'' @ uid @ '':'' @ pad4 (nat (yr t)) @ ''-'' @ pad2 (mon t)"

definition get_next_midnight :: "utc \<Rightarrow> utc" where
  "get_next_midnight t = (set_utc_date (day_of t + 1) t)\<lparr>tod := 0\<rparr>"

definition get_next_month_start :: "utc \<Rightarrow> utc" where
  "get_next_month_start t = (set_utc_date 1 (add_utc_month t))\<lparr>tod := 0\<rparr>"

definition seconds_until_midnight :: "utc \<Rightarrow> int" where
  "seconds_until_midnight t = (get_time (get_next_midnight t) - get_time t) div 1000"

definition seconds_until_month_end :: "utc \<Rightarrow> int" where
  "seconds_until_month_end t = (get_time (get_next_month_start t) - get_time t) div 1000"

definition increment_quota :: "string \<Rightarrow> int \<Rightarrow> ms \<Rightarrow> 's redis_service \<Rightarrow> int \<times> 's redis_service" where
  "increment_quota key cost now rs =
     (if cost = 1 then redis_increment rs now key else redis_increment_by rs now key cost)"

definition check_daily_quota :: "string \<Rightarrow> int \<Rightarrow> int \<Rightarrow> utc \<Rightarrow> 's redis_service \<Rightarrow> bool \<times> 's redis_service" where
  "check_daily_quota uid lmt cost t rs =
     (let (current, rs1) = increment_quota (get_daily_key uid t) cost (get_time t) rs;
          (_, rs2) = redis_set_expiration rs1 (get_time t) (get_daily_key uid t) (seconds_until_midnight t)
      in (current \<le> lmt, rs2))"

definition check_monthly_quota :: "string \<Rightarrow> int \<Rightarrow> int \<Rightarrow> utc \<Rightarrow> 's redis_service \<Rightarrow> bool \<times> 's redis_service" where
  "check_monthly_quota uid lmt cost t rs =
     (let (current, rs1) = increment_quota (get_monthly_key uid t) cost (get_time t) rs;
          (_, rs2) = redis_set_expiration rs1 (get_time t) (get_monthly_key uid t) (seconds_until_month_end t)
      in (current \<le> lmt, rs2))"

definition check_quota :: "string \<Rightarrow> string \<Rightarrow> int \<Rightarrow> utc \<Rightarrow> 's redis_service \<Rightarrow> bool \<times> 's redis_service" where
  "check_quota uid role cost t rs =
     (let cfg = get_role_quota role;
          (dailyOk, rs1) = check_daily_quota uid (dailyLimit cfg) cost t rs
      in if \<not> dailyOk then (False, rs1)
         else (let (monthlyOk, rs2) = check_monthly_quota uid (monthlyLimit cfg) cost t rs1
               in if \<not> monthlyOk then (False, rs2) else (True, rs2)))"

text \<open>\<open>get\<close> answers the parsed counter, a number; \<open>parseInt\<close> of an integral number is the number.\<close>

definition usage_value :: "json \<Rightarrow> int" where
  "usage_value j = (case j of JNum q \<Rightarrow> \<lfloor>q\<rfloor> | _ \<Rightarrow> 0)"

definition get_daily_usage :: "string \<Rightarrow> utc \<Rightarrow> 's redis_service \<Rightarrow> int" where
  "get_daily_usage uid t rs = usage_value (redis_get rs (get_time t) (get_daily_key uid t))"

definition get_monthly_usage :: "string \<Rightarrow> utc \<Rightarrow> 's redis_service \<Rightarrow> int" where
  "get_monthly_usage uid t rs = usage_value (redis_get rs (get_time t) (get_monthly_key uid t))"

record quota_part =
  qp_limit :: int
  qp_used :: int
  qp_remaining :: int
  qp_resetAt :: int
  qp_exceeded :: bool

definition quota_part_of :: "int \<Rightarrow> int \<Rightarrow> utc \<Rightarrow> quota_part" where
  "quota_part_of lmt used reset =
     \<lparr>qp_limit = lmt, qp_used = used, qp_remaining = max 0 (lmt - used),
      qp_resetAt = get_time reset div 1000, qp_exceeded = (used \<ge> lmt)\<rparr>"

definition get_quota_info :: "string \<Rightarrow> string \<Rightarrow> utc \<Rightarrow> 's redis_service \<Rightarrow> quota_part \<times> quota_part" where
  "get_quota_info uid role t rs =
     (let cfg = get_role_quota role
      in (quota_part_of (dailyLimit cfg) (get_daily_usage uid t rs) (get_next_midnight t),
          quota_part_of (monthlyLimit cfg) (get_monthly_usage uid t rs) (get_next_month_start t)))"

datatype quota_period = DAILY | MONTHLY

definition reset_quota :: "string \<Rightarrow> quota_period \<Rightarrow> utc \<Rightarrow> 's redis_service \<Rightarrow> 's redis_service" where
  "reset_quota uid period t rs =
     snd (redis_delete rs (get_time t)
       (case period of DAILY \<Rightarrow> get_daily_key uid t | MONTHLY \<Rightarrow> get_monthly_key uid t))"

subsection \<open>Calendar lemmas\<close>

lemma div_succ:
  fixes x n :: int
  assumes "0 < n"
  shows "(x + 1) div n = x div n + (if n dvd x + 1 then 1 else 0)"
proof (cases "n dvd x + 1")
  case True
  then obtain k where k: "x + 1 = n * k" by blast
  have "x = n * (k - 1) + (n - 1)" using k by (simp add: algebra_simps)
  then have "x div n = k - 1" by (rule int_div_pos_eq) (use assms in simp_all)
  with True k assms show ?thesis by simp
next
  case False
  have x: "x = n * (x div n) + x mod n" by simp
  have "x mod n + 1 \<noteq> n"
  proof
    assume "x mod n + 1 = n"
    then have "x + 1 = n * (x div n) + n" using x by linarith
    then have "x + 1 = n * (x div n + 1)" by (simp add: distrib_left)
    with False show False by (metis dvd_triv_left)
  qed
  then have "x mod n + 1 < n" using pos_mod_bound [OF assms, of x] by linarith
  moreover have "x + 1 = n * (x div n) + (x mod n + 1)" using x by simp
  moreover have "0 \<le> x mod n + 1" using pos_mod_sign [OF assms, of x] by linarith
  ultimately have "(x + 1) div n = x div n" by (intro int_div_pos_eq)
  with False show ?thesis by simp
qed

lemma dvd_shift: "n dvd c \<Longrightarrow> n dvd y - c \<longleftrightarrow> (y :: int) mod n = 0"
  using dvd_add_left_iff [of n "- c" y] by (simp add: mod_eq_0_iff_dvd)

lemma year_start_next: "year_start (y + 1) = year_start y + (if leap y then 366 else 365)"
proof -
  have e: "year_start (y + 1) = 365 * (y - 1970) + 365 + (y - 1968) div 4 - (y - 1900) div 100 + (y - 1600) div 400"
    by (simp add: year_start_def)
  have 4: "(y - 1968) div 4 = (y - 1969) div 4 + (if y mod 4 = 0 then 1 else 0)"
    using div_succ [of 4 "y - 1969"] dvd_shift [of 4 1968 y] by simp
  have 100: "(y - 1900) div 100 = (y - 1901) div 100 + (if y mod 100 = 0 then 1 else 0)"
    using div_succ [of 100 "y - 1901"] dvd_shift [of 100 1900 y] by simp
  have 400: "(y - 1600) div 400 = (y - 1601) div 400 + (if y mod 400 = 0 then 1 else 0)"
    using div_succ [of 400 "y - 1601"] dvd_shift [of 400 1600 y] by simp
  have h: "y mod 400 = 0 \<Longrightarrow> y mod 100 = 0"
    unfolding mod_eq_0_iff_dvd by (rule dvd_trans [of _ 400]) simp_all
  have q: "y mod 100 = 0 \<Longrightarrow> y mod 4 = 0"
    unfolding mod_eq_0_iff_dvd by (rule dvd_trans [of _ 100]) simp_all
  have final: "e + 365 + (a + (if p4 then 1 else 0)) - (b + (if p100 then 1 else 0)) + (c + (if p400 then 1 else 0)) =
      e + a - b + c + (if p4 \<and> (\<not> p100 \<or> p400) then 366 else 365)"
    if "p400 \<Longrightarrow> p100" "p100 \<Longrightarrow> p4" for e a b c :: int and p4 p100 p400
    using that by (cases p4; cases p100; cases p400) simp_all
  show ?thesis
    unfolding e 4 100 400 leap_def year_start_def [of y] by (rule final [OF h q])
qed

lemma months_of_year:
  "(\<Sum>m \<leftarrow> [1..<12]. int (month_days y m)) + int (month_days y 12) = (if leap y then 366 else 365)"
proof -
  have "[1..<12] = [1, 2, 3, 4, 5, 6, 7, 8, 9, 10, 11 :: nat]" by code_simp
  then show ?thesis by (simp add: month_days_def)
qed

lemma day_number_next_month:
  assumes "mon t \<in> {1..12}"
  shows "day_number (next_month t\<lparr>day_of := 1\<rparr>) = day_number (t\<lparr>day_of := 1\<rparr>) + int (month_days (yr t) (mon t))"
proof (cases "mon t = 12")
  case True
  then show ?thesis using months_of_year [of "yr t"] by (simp add: day_number_def next_month_def year_start_next)
next
  case False
  then have "[1..<mon t + 1] = [1..<mon t] @ [mon t]" using assms by simp
  with False show ?thesis by (simp add: day_number_def next_month_def)
qed

lemma day_number_day: "day_number (t\<lparr>day_of := d\<rparr>) = day_number (t\<lparr>day_of := 1\<rparr>) + int d - 1"
  by (simp add: day_number_def)

lemma month_days_pos [simp]: "Suc 0 \<le> month_days y m" "month_days y m \<noteq> 0"
  by (simp_all add: month_days_def)

lemma day_number_tod [simp]: "day_number (t\<lparr>tod := x\<rparr>) = day_number t"
  by (simp add: day_number_def)

lemma next_month_simps [simp]: "day_of (next_month t) = day_of t" "tod (next_month t) = tod t"
  by (simp_all add: next_month_def)

lemma day_number_carry:
  assumes "mon t \<in> {1..12}"
  shows "day_number (carry_day t) = day_number t"
proof (cases "day_of t > month_days (yr t) (mon t)")
  case True
  have "day_number (carry_day t) = day_number (next_month t\<lparr>day_of := 1\<rparr>) + int (day_of t - month_days (yr t) (mon t)) - 1"
    using True day_number_day [where t = "next_month t" and d = "day_of t - month_days (yr t) (mon t)"] by (simp add: carry_day_def)
  also have "\<dots> = day_number (t\<lparr>day_of := 1\<rparr>) + int (day_of t) - 1"
    unfolding day_number_next_month [OF assms] using True by (simp add: of_nat_diff)
  also have "\<dots> = day_number t" using day_number_day [where t = t and d = "day_of t"] by simp
  finally show ?thesis .
qed (simp add: carry_day_def)

lemma next_midnight_time:
  assumes "valid_utc t"
  shows "get_time (get_next_midnight t) = get_time t - tod t + 86400000"
proof -
  have "day_number (set_utc_date (day_of t + 1) t) = day_number (t\<lparr>day_of := day_of t + 1\<rparr>)"
    unfolding set_utc_date_def by (rule day_number_carry) (use assms in \<open>simp add: valid_utc_def\<close>)
  also have "\<dots> = day_number t + 1" using day_number_day [where t = t and d = "day_of t + 1"] day_number_day [where t = t and d = "day_of t"] by simp
  finally show ?thesis by (simp add: get_next_midnight_def get_time_def)
qed

lemma seconds_until_midnight_eq: "valid_utc t \<Longrightarrow> seconds_until_midnight t = (86400000 - tod t) div 1000"
  by (simp add: seconds_until_midnight_def next_midnight_time)

subsection \<open>Counters\<close>

lemma keys_tod [simp]: "get_daily_key uid (t\<lparr>tod := x\<rparr>) = get_daily_key uid t"
  "get_monthly_key uid (t\<lparr>tod := x\<rparr>) = get_monthly_key uid t"
  by (simp_all add: get_daily_key_def get_monthly_key_def)

lemma keys_differ [simp]: "get_daily_key uid t \<noteq> get_monthly_key uid' t'" "get_monthly_key uid' t' \<noteq> get_daily_key uid t"
  by (simp_all add: get_daily_key_def get_monthly_key_def)

lemma counter_num [simp]: "counter now (Some (Stringified (JNum (of_int n)), e)) = (if e \<noteq> None \<and> \<not> now < the e then Some 0 else Some n)"
  by (cases e) (auto simp: counter_def)

lemma live_expiry: "live now (Some (v, expiry now e)) = Some v"
  by (cases "(now, e)" rule: live.cases) (simp_all add: expiry_def)

lemma midnight_tod: "valid_utc t \<Longrightarrow> get_time t - tod t = day_number t * 86400000"
  by (simp add: get_time_def)

context redis_server
begin

text \<open>One increment and the expiry after it, whatever the counter was.\<close>

lemma bump:
  assumes "up rs" "counter now (content rs k) = Some n"
  obtains rs1 rs2 where "redis_increment rs now k = (n + 1, rs1)" "redis_set_expiration rs1 now k secs = (True, rs2)"
    "up rs2" "content rs2 = (content rs)(k := if 0 < secs
       then Some (Stringified (JNum (of_int (n + 1))), Some (now + 1000 * secs)) else None)"
proof -
  obtain rs1 where rs1: "redis_increment rs now k = (n + 1, rs1)" "up rs1"
    "content rs1 = (content rs)(k \<mapsto> (Stringified (JNum (of_int (n + 1))), expiry now (content rs k)))"
    by (rule increment_up [OF assms])
  have l: "live now (content rs1 k) = Some (Stringified (JNum (of_int (n + 1))))"
    by (simp add: rs1(3) live_expiry)
  show thesis
  proof (cases "0 < secs")
    case True
    show thesis by (rule set_expiration_up [OF rs1(2) l True]) (use rs1 True in \<open>auto intro!: that\<close>)
  next
    case False
    then have "secs \<le> 0" by simp
    show thesis by (rule expire_now_up [OF rs1(2) l \<open>secs \<le> 0\<close>]) (use rs1 False in \<open>auto intro!: that\<close>)
  qed
qed

end

text \<open>A run of requests of one user on one day.\<close>

fun quota_run :: "string \<Rightarrow> string \<Rightarrow> utc \<Rightarrow> ms list \<Rightarrow> 's redis_service \<Rightarrow> bool list" where
  "quota_run uid role d [] rs = []"
| "quota_run uid role d (x # xs) rs =
     (let (ok, rs') = check_quota uid role 1 (d\<lparr>tod := x\<rparr>) rs in ok # quota_run uid role d xs rs')"

lemma valid_tod: "valid_utc d \<Longrightarrow> 0 \<le> x \<Longrightarrow> x < 86400000 \<Longrightarrow> valid_utc (d\<lparr>tod := x\<rparr>)"
  by (simp add: valid_utc_def)

lemma get_time_tod: "get_time (d\<lparr>tod := x\<rparr>) = day_number d * 86400000 + x"
  by (simp add: get_time_def)

text \<open>The daily counter holds \<open>k\<close>, and to the last second of the day.\<close>

definition counted :: "utc \<Rightarrow> entry \<Rightarrow> int \<Rightarrow> bool" where
  "counted d e k \<longleftrightarrow> e = None \<and> k = 0 \<or>
     (\<exists>t. e = Some (Stringified (JNum (of_int k)), Some t) \<and> day_number d * 86400000 + 86399000 < t)"

definition numeric :: "entry \<Rightarrow> bool" where
  "numeric e \<longleftrightarrow> (\<forall>now. counter now e \<noteq> None)"

lemma counted_counter:
  "counted d e k \<Longrightarrow> x \<le> 86399000 \<Longrightarrow> counter (get_time (d\<lparr>tod := x\<rparr>)) e = Some k"
  by (auto simp: counted_def get_time_tod)

lemma numeric_simps [simp]: "numeric None" "numeric (Some (Stringified (JNum (of_int n)), e))"
  by (simp_all add: numeric_def)

context redis_server
begin

lemma check_quota_step:
  assumes up: "up rs" and d: "valid_utc d" and x: "0 \<le> x" "x \<le> 86399000"
    and day: "counted d (content rs (get_daily_key uid d)) k" and month: "numeric (content rs (get_monthly_key uid d))"
  obtains ok rs' where "check_quota uid role 1 (d\<lparr>tod := x\<rparr>) rs = (ok, rs')" "up rs'"
    "counted d (content rs' (get_daily_key uid d)) (k + 1)" "numeric (content rs' (get_monthly_key uid d))"
    "ok \<longrightarrow> k + 1 \<le> dailyLimit (get_role_quota role)"
    "\<not> ok \<longrightarrow> \<not> k + 1 \<le> dailyLimit (get_role_quota role) \<or> \<not> (\<exists>m. counter (get_time (d\<lparr>tod := x\<rparr>)) (content rs (get_monthly_key uid d)) = Some m \<and>
       m + 1 \<le> monthlyLimit (get_role_quota role))"
proof -
  let ?t = "d\<lparr>tod := x\<rparr>" and ?dk = "get_daily_key uid d" and ?mk = "get_monthly_key uid d"
  let ?secs = "(86400000 - x) div 1000"
  have v: "valid_utc ?t" by (rule valid_tod [OF d]) (use x in auto)
  have secs: "seconds_until_midnight ?t = ?secs" using seconds_until_midnight_eq [OF v] by simp
  have pos: "0 < ?secs" and late: "day_number d * 86400000 + 86399000 < get_time ?t + 1000 * ?secs"
    using x by (simp_all add: get_time_tod)
  obtain rs1 rs2 where b: "redis_increment rs (get_time ?t) ?dk = (k + 1, rs1)"
    "redis_set_expiration rs1 (get_time ?t) ?dk ?secs = (True, rs2)" "up rs2"
    "content rs2 = (content rs)(?dk := if 0 < ?secs
       then Some (Stringified (JNum (of_int (k + 1))), Some (get_time ?t + 1000 * ?secs)) else None)"
    by (rule bump [OF up counted_counter [OF day x(2)]])
  have daily: "check_daily_quota uid l 1 ?t rs = (k + 1 \<le> l, rs2)" for l
    by (simp add: check_daily_quota_def increment_quota_def secs b(1,2))
  have c2: "counted d (content rs2 ?dk) (k + 1)" using pos late by (auto simp: b(4) counted_def)
  have m2: "content rs2 ?mk = content rs ?mk" by (simp add: b(4))
  obtain m where m: "counter (get_time ?t) (content rs2 ?mk) = Some m"
    using month by (auto simp: numeric_def m2)
  obtain rs3 rs4 where b': "redis_increment rs2 (get_time ?t) ?mk = (m + 1, rs3)"
    "redis_set_expiration rs3 (get_time ?t) ?mk (seconds_until_month_end ?t) = (True, rs4)" "up rs4"
    "content rs4 = (content rs2)(?mk := if 0 < seconds_until_month_end ?t
       then Some (Stringified (JNum (of_int (m + 1))), Some (get_time ?t + 1000 * seconds_until_month_end ?t)) else None)"
    by (rule bump [OF b(3) m])
  have monthly: "check_monthly_quota uid l 1 ?t rs2 = (m + 1 \<le> l, rs4)" for l
    by (simp add: check_monthly_quota_def increment_quota_def b'(1,2))
  have c4: "counted d (content rs4 ?dk) (k + 1)" using c2 by (simp add: b'(4))
  have n4: "numeric (content rs4 ?mk)" using numeric_simps(2) [of "m + 1"] by (simp add: b'(4))
  show thesis
  proof (cases "k + 1 \<le> dailyLimit (get_role_quota role)")
    case True
    show thesis
      by (rule that [of "m + 1 \<le> monthlyLimit (get_role_quota role)" rs4])
        (use True b'(3) c4 n4 m m2 in \<open>auto simp: check_quota_def daily monthly\<close>)
  next
    case False
    show thesis
      by (rule that [of False rs2]) (use False b(3) c2 month m2 in \<open>auto simp: check_quota_def daily\<close>)
  qed
qed

lemma quota_run_bound:
  assumes "up rs" "valid_utc d" "\<forall>x \<in> set xs. 0 \<le> x \<and> x \<le> 86399000"
    "counted d (content rs (get_daily_key uid d)) k" "numeric (content rs (get_monthly_key uid d))"
  shows "int (length (filter id (quota_run uid role d xs rs))) \<le> max 0 (dailyLimit (get_role_quota role) - k)"
  using assms
proof (induction xs arbitrary: rs k)
  case Nil
  then show ?case by simp
next
  case (Cons x xs)
  from Cons.prems(3) have x: "0 \<le> x" "x \<le> 86399000" by auto
  obtain ok rs' where s: "check_quota uid role 1 (d\<lparr>tod := x\<rparr>) rs = (ok, rs')" "up rs'"
    "counted d (content rs' (get_daily_key uid d)) (k + 1)" "numeric (content rs' (get_monthly_key uid d))"
    "ok \<longrightarrow> k + 1 \<le> dailyLimit (get_role_quota role)"
    by (rule check_quota_step [OF Cons.prems(1,2) x Cons.prems(4,5)]) blast
  have "int (length (filter id (quota_run uid role d xs rs'))) \<le> max 0 (dailyLimit (get_role_quota role) - (k + 1))"
    by (rule Cons.IH [OF s(2) Cons.prems(2) _ s(3,4)]) (use Cons.prems(3) in simp)
  with s(1,5) show ?case by (cases ok) (auto simp: id_def)
qed

end

context redis_server
begin

text \<open>In the last second of a day the check deletes the counter it has just raised.\<close>

lemma check_daily_last_second:
  assumes "up rs" "valid_utc t" "86399000 < tod t" "counter (get_time t) (content rs (get_daily_key uid t)) = Some k"
  obtains rs' where "check_daily_quota uid l 1 t rs = (k + 1 \<le> l, rs')" "up rs'" "content rs' (get_daily_key uid t) = None"
proof -
  have secs: "seconds_until_midnight t = 0"
    using assms(2,3) by (simp add: seconds_until_midnight_eq valid_utc_def)
  obtain rs1 rs2 where "redis_increment rs (get_time t) (get_daily_key uid t) = (k + 1, rs1)"
    "redis_set_expiration rs1 (get_time t) (get_daily_key uid t) 0 = (True, rs2)" "up rs2"
    "content rs2 = (content rs)(get_daily_key uid t := if 0 < (0 :: int)
       then Some (Stringified (JNum (of_int (k + 1))), Some (get_time t + 1000 * 0)) else None)"
    by (rule bump [OF assms(1,4)])
  then show thesis by (intro that [of rs2]) (simp_all add: check_daily_quota_def increment_quota_def secs)
qed

end

subsection \<open>Properties\<close>



text \<open>In the last second of a day the daily quota is off: the time to live is floored to 0 seconds
  and Redis deletes the counter, so whatever was used before, of two checks in that second the
  second one counts from 1 again and is admitted.\<close>

theorem daily_quota_last_second:
  fixes rs :: "'s redis_service"
  assumes "redis_server c view" "redis_server.up c rs" "valid_utc d" "86399000 < x" "x < 86400000"
    and "counter (get_time (d\<lparr>tod := x\<rparr>)) (redis_server.content view rs (get_daily_key uid d)) = Some k"
    and "1 \<le> lmt" "86399000 < y" "y < 86400000"
  shows "fst (check_daily_quota uid lmt 1 (d\<lparr>tod := x\<rparr>) rs) = (k < lmt) \<and>
    fst (check_daily_quota uid lmt 1 (d\<lparr>tod := y\<rparr>) (snd (check_daily_quota uid lmt 1 (d\<lparr>tod := x\<rparr>) rs)))"
proof -
  have v: "valid_utc (d\<lparr>tod := x\<rparr>)" "valid_utc (d\<lparr>tod := y\<rparr>)" using valid_tod [OF assms(3)] assms(4,5,8,9) by auto
  obtain rs1 where 1: "check_daily_quota uid lmt 1 (d\<lparr>tod := x\<rparr>) rs = (k + 1 \<le> lmt, rs1)" "redis_server.up c rs1"
    "redis_server.content view rs1 (get_daily_key uid (d\<lparr>tod := x\<rparr>)) = None"
    by (rule redis_server.check_daily_last_second [OF assms(1,2) v(1)]) (use assms(4,6) in simp_all)
  have n: "counter (get_time (d\<lparr>tod := y\<rparr>)) (redis_server.content view rs1 (get_daily_key uid (d\<lparr>tod := y\<rparr>))) = Some 0"
    using 1(3) unfolding keys_tod by (simp add: counter_def)
  obtain rs2 where 2: "check_daily_quota uid lmt 1 (d\<lparr>tod := y\<rparr>) rs1 = (0 + 1 \<le> lmt, rs2)"
    by (rule redis_server.check_daily_last_second [OF assms(1) 1(2) v(2) _ n]) (use assms(8) in simp)
  show ?thesis using 1(1) 2 assms(7) by auto
qed

lemma daily_quota_last_second_witness:
  "fst (check_daily_quota ''u1'' 1000 1 \<lparr>yr = 2026, mon = 1, day_of = 31, tod = 86399800\<rparr>
    (snd (check_daily_quota ''u1'' 1000 1 \<lparr>yr = 2026, mon = 1, day_of = 31, tod = 86399500\<rparr>
      (mem_service\<lparr>server := [(''quota:daily:u1:2026-01-31'', Stringified (JNum 5000), None)]\<rparr>))))"
proof -
  let ?d = "\<lparr>yr = 2026, mon = 1, day_of = 31, tod = 0\<rparr>"
  let ?rs = "mem_service\<lparr>server := [(''quota:daily:u1:2026-01-31'', Stringified (JNum 5000), None)]\<rparr>"
  have key: "get_daily_key ''u1'' ?d = ''quota:daily:u1:2026-01-31''" by code_simp
  have c: "counter (get_time (?d\<lparr>tod := 86399500\<rparr>)) (mem.content ?rs (get_daily_key ''u1'' ?d)) = Some 5000"
    using counter_num [of _ 5000 None] unfolding key by (simp add: mem.content_def)
  show ?thesis
    using daily_quota_last_second [OF mem.redis_server_axioms _ _ _ _ c, of 1000 86399800]
    by (simp add: mem_up_iff mem_service_def valid_utc_def month_days_def)
qed

text \<open>The announced monthly reset is the start of the next month unless the day of the month does
  not exist there: \<open>setUTCMonth\<close> then carries over, and the reset is one month late, as on January
  31, when it is March 1. The announced daily reset is always the next midnight.\<close>

theorem reset_times:
  assumes "valid_utc t"
  shows "get_time (get_next_midnight t) = day_number t * 86400000 + 86400000 \<and>
    get_next_month_start t =
      (if day_of t \<le> month_days (yr (next_month t)) (mon (next_month t)) then next_month t else next_month (next_month t))
        \<lparr>day_of := 1, tod := 0\<rparr>"
proof -
  have "get_next_month_start t = (carry_day (next_month t))\<lparr>day_of := 1, tod := 0\<rparr>"
    by (simp add: get_next_month_start_def add_utc_month_def set_utc_date_def carry_day_def)
  moreover have "carry_day (next_month t) = (if day_of t \<le> month_days (yr (next_month t)) (mon (next_month t)) then next_month t
      else next_month (next_month t)\<lparr>day_of := day_of t - month_days (yr (next_month t)) (mon (next_month t))\<rparr>)"
    by (simp add: carry_day_def)
  ultimately show ?thesis using next_midnight_time [OF assms] midnight_tod [OF assms] by simp
qed

lemma reset_times_witness:
  "get_next_month_start \<lparr>yr = 2026, mon = 1, day_of = 31, tod = 5\<rparr> = \<lparr>yr = 2026, mon = 3, day_of = 1, tod = 0\<rparr>"
  using reset_times [of "\<lparr>yr = 2026, mon = 1, day_of = 31, tod = 5\<rparr>"]
  by (simp add: valid_utc_def month_days_def next_month_def leap_def)

end
