(* ===== verification/Violation_Tracker.thy ===== *)
theory Violation_Tracker
  imports Cart_Cache
begin

section \<open>Violations and backoff\<close>

text \<open>
  \<open>modules/auth/services/violation-tracker.service.ts\<close>: the violations of a user are one JSON
  object in Redis that lives for an hour after the last of them. Dates are numbers. An object of
  another shape under the key reads as no violations here; the service only writes this one.
\<close>

record violation_info =
  v_count :: int
  v_timestamps :: "ms list"
  v_lastViolation :: ms

definition VIOLATION_TTL :: int where "VIOLATION_TTL = 3600"

definition MAX_VIOLATIONS :: nat where "MAX_VIOLATIONS = 10"

definition violations_json :: "violation_info \<Rightarrow> json" where
  "violations_json v = JObj [(''count'', j_int (v_count v)), (''timestamps'', JArr (map j_int (v_timestamps v))),
     (''lastViolation'', j_int (v_lastViolation v))]"

fun un_ints :: "json \<Rightarrow> int list option" where
  "un_ints (JArr js) = those (map un_int js)"
| "un_ints _ = None"

definition violations_of_json :: "json \<Rightarrow> violation_info option" where
  "violations_of_json j = (case j of JObj fs \<Rightarrow> do {
       n \<leftarrow> Option.bind (map_of fs ''count'') un_int;
       ts \<leftarrow> Option.bind (map_of fs ''timestamps'') un_ints;
       t \<leftarrow> Option.bind (map_of fs ''lastViolation'') un_int;
       Some \<lparr>v_count = n, v_timestamps = ts, v_lastViolation = t\<rparr> }
   | _ \<Rightarrow> None)"

definition violation_key :: "string \<Rightarrow> string" where
  "violation_key uid = ''violations:'' @ uid"

definition no_violations :: violation_info where
  "no_violations = \<lparr>v_count = 0, v_timestamps = [], v_lastViolation = 0\<rparr>"

definition get_violations :: "string \<Rightarrow> ms \<Rightarrow> 's redis_service \<Rightarrow> violation_info" where
  "get_violations uid now rs =
     (case violations_of_json (redis_get rs now (violation_key uid)) of Some v \<Rightarrow> v | None \<Rightarrow> no_violations)"

definition backoff_schedule :: "int \<Rightarrow> int" where
  "backoff_schedule k = (if k = 1 then 60 else if k = 2 then 120 else if k = 3 then 300 else 600)"

definition calculate_backoff :: "int \<Rightarrow> int" where
  "calculate_backoff n = (if n = 0 then 0 else backoff_schedule (min n 4))"

text \<open>\<open>slice(-n)\<close>; it keeps a list that is not longer.\<close>

definition last_n :: "nat \<Rightarrow> 'a list \<Rightarrow> 'a list" where
  "last_n n xs = drop (length xs - n) xs"

lemma last_n_if [simp]: "(if n < length xs then last_n n xs else xs) = last_n n xs"
  by (simp add: last_n_def)

definition record_violation :: "string \<Rightarrow> ms \<Rightarrow> 's redis_service \<Rightarrow> int \<times> 's redis_service" where
  "record_violation uid now rs =
     (let v = get_violations uid now rs;
          ts = v_timestamps v @ [now];
          ts' = (if length ts > MAX_VIOLATIONS then last_n MAX_VIOLATIONS ts else ts);
          v' = \<lparr>v_count = v_count v + 1, v_timestamps = ts', v_lastViolation = now\<rparr>;
          (_, rs') = redis_set rs now (violation_key uid) (violations_json v') VIOLATION_TTL
      in (v_count v', rs'))"

definition get_backoff_time :: "string \<Rightarrow> ms \<Rightarrow> 's redis_service \<Rightarrow> int" where
  "get_backoff_time uid now rs = calculate_backoff (v_count (get_violations uid now rs))"

definition is_in_backoff :: "string \<Rightarrow> ms \<Rightarrow> 's redis_service \<Rightarrow> bool" where
  "is_in_backoff uid now rs =
     (let v = get_violations uid now rs
      in v_count v \<noteq> 0 \<and> now - v_lastViolation v < calculate_backoff (v_count v) * 1000)"

definition get_remaining_backoff :: "string \<Rightarrow> ms \<Rightarrow> 's redis_service \<Rightarrow> int" where
  "get_remaining_backoff uid now rs =
     (let v = get_violations uid now rs
      in if v_count v = 0 then 0
         else (let remaining = calculate_backoff (v_count v) * 1000 - (now - v_lastViolation v)
               in if remaining > 0 then ceil_div remaining 1000 else 0))"

definition clear_violations :: "string \<Rightarrow> ms \<Rightarrow> 's redis_service \<Rightarrow> 's redis_service" where
  "clear_violations uid now rs = snd (redis_delete rs now (violation_key uid))"

subsection \<open>Lemmas\<close>

lemma those_map_Some [simp]: "those (map (\<lambda>x. Some (f x)) xs) = Some (map f xs)"
  by (induction xs) simp_all

lemma violations_round_trip [simp]: "violations_of_json (violations_json v) = Some v"
  by (simp add: violations_of_json_def violations_json_def comp_def)

lemma violations_of_null [simp]: "violations_of_json JNull = None"
  by (simp add: violations_of_json_def)

lemma last_n_push [simp]: "0 < n \<Longrightarrow> last_n n (last_n n xs @ [x]) = last_n n (xs @ [x])"
  by (cases "length xs < n") (simp_all add: last_n_def Suc_diff_le)

lemma calculate_backoff_pos: "0 < n \<Longrightarrow> 60 \<le> calculate_backoff n \<and> calculate_backoff n \<le> 600"
  by (simp add: calculate_backoff_def backoff_schedule_def)

lemma calculate_backoff_mono: "0 \<le> m \<Longrightarrow> m \<le> n \<Longrightarrow> calculate_backoff m \<le> calculate_backoff n"
  by (auto simp: calculate_backoff_def backoff_schedule_def min_def)

text \<open>The violations of one user, in order.\<close>

fun violation_run :: "string \<Rightarrow> ms list \<Rightarrow> 's redis_service \<Rightarrow> int list \<times> 's redis_service" where
  "violation_run uid [] rs = ([], rs)"
| "violation_run uid (t # ts) rs =
     (let (n, rs1) = record_violation uid t rs; (ns, rs2) = violation_run uid ts rs1 in (n # ns, rs2))"

lemma violation_run_snoc:
  "violation_run uid (ts @ [t]) rs =
     (let (ns, rs1) = violation_run uid ts rs; (n, rs2) = record_violation uid t rs1 in (ns @ [n], rs2))"
  by (induction ts arbitrary: rs) (simp_all split: prod.splits)

text \<open>Each violation comes within the hour after the one before it.\<close>

fun within_hours :: "ms list \<Rightarrow> bool" where
  "within_hours (s # t # ts) = (s \<le> t \<and> t < s + 3600000 \<and> within_hours (t # ts))"
| "within_hours _ = True"

lemma within_hours_snoc: "within_hours (ts @ [t]) \<longleftrightarrow>
    within_hours ts \<and> (ts \<noteq> [] \<longrightarrow> last ts \<le> t \<and> t < last ts + 3600000)"
  by (induction ts rule: within_hours.induct) auto

context redis_server
begin

lemma record_violation_up:
  assumes "up rs"
  shows "fst (record_violation uid now rs) = v_count (get_violations uid now rs) + 1"
    "up (snd (record_violation uid now rs))"
    "get_violations uid' t (snd (record_violation uid now rs)) =
      (if uid' = uid then
         if t < now + 3600000 then
           \<lparr>v_count = v_count (get_violations uid now rs) + 1,
            v_timestamps = last_n MAX_VIOLATIONS (v_timestamps (get_violations uid now rs) @ [now]),
            v_lastViolation = now\<rparr>
         else no_violations
       else get_violations uid' t rs)"
proof -
  have "0 < VIOLATION_TTL" by (simp add: VIOLATION_TTL_def)
  note simps = set_get_up [OF assms this] cache.ready_set [OF assms this]
  show "fst (record_violation uid now rs) = v_count (get_violations uid now rs) + 1"
    by (simp only: record_violation_def Let_def last_n_if case_prod_beta fst_conv violation_info.simps)
  show "up (snd (record_violation uid now rs))"
    unfolding record_violation_def Let_def last_n_if case_prod_beta snd_conv by (rule simps(2))
  show "get_violations uid' t (snd (record_violation uid now rs)) =
      (if uid' = uid then
         if t < now + 3600000 then
           \<lparr>v_count = v_count (get_violations uid now rs) + 1,
            v_timestamps = last_n MAX_VIOLATIONS (v_timestamps (get_violations uid now rs) @ [now]),
            v_lastViolation = now\<rparr>
         else no_violations
       else get_violations uid' t rs)"
    unfolding get_violations_def [of uid' t] record_violation_def Let_def last_n_if case_prod_beta snd_conv simps(1)
    by (simp add: VIOLATION_TTL_def violation_key_def)
qed

lemma violation_run_up:
  assumes "up rs" "\<And>t. get_violations uid t rs = no_violations" "within_hours ts"
  shows "fst (violation_run uid ts rs) = map int [1..<length ts + 1] \<and> up (snd (violation_run uid ts rs)) \<and>
    (ts \<noteq> [] \<longrightarrow> (\<forall>t. get_violations uid t (snd (violation_run uid ts rs)) =
       (if t < last ts + 3600000
        then \<lparr>v_count = int (length ts), v_timestamps = last_n MAX_VIOLATIONS ts, v_lastViolation = last ts\<rparr>
        else no_violations)))"
  using assms(3)
proof (induction ts rule: rev_induct)
  case Nil
  then show ?case using assms(1) by simp
next
  case (snoc t ts)
  obtain ns rs1 where r: "violation_run uid ts rs = (ns, rs1)" by fastforce
  have IH: "ns = map int [1..<length ts + 1]" "up rs1"
    "ts \<noteq> [] \<Longrightarrow> get_violations uid t' rs1 = (if t' < last ts + 3600000
        then \<lparr>v_count = int (length ts), v_timestamps = last_n MAX_VIOLATIONS ts, v_lastViolation = last ts\<rparr>
        else no_violations)" for t'
    using snoc.IH snoc.prems r by (simp_all add: within_hours_snoc)
  have g: "v_count (get_violations uid t rs1) = int (length ts) \<and>
      v_timestamps (get_violations uid t rs1) = last_n MAX_VIOLATIONS ts"
  proof (cases "ts = []")
    case True
    then have "rs1 = rs" using r by simp
    with True show ?thesis by (simp add: assms(2) no_violations_def last_n_def)
  next
    case False
    with snoc.prems show ?thesis by (simp add: IH(3) within_hours_snoc)
  qed
  have "0 < MAX_VIOLATIONS" by (simp add: MAX_VIOLATIONS_def)
  note push = last_n_push [OF this, of ts t]
  show ?case
    by (simp add: violation_run_snoc r case_prod_beta record_violation_up [OF IH(2)] g push IH(1))
qed

end

subsection \<open>Properties\<close>

text \<open>Backoff escalates and is forgotten: after \<open>n\<close> violations, each within the hour after the
  one before, the reported counts were \<open>1, ..., n\<close>, the last ten times are kept, and the user is in
  backoff exactly for 60, 120, 300 or 600 s (from the fourth on) after the last one, the remaining
  time being the rounded-up rest of it; an hour after the last violation nothing is left.\<close>

theorem backoff_escalates:
  fixes rs :: "'s redis_service"
  assumes "redis_server c view" "redis_server.up c rs" "\<And>t. get_violations uid t rs = no_violations"
    and "within_hours ts" "ts \<noteq> []" "last ts \<le> now" "violation_run uid ts rs = (ns, rs')"
  shows "ns = map int [1..<length ts + 1] \<and>
    is_in_backoff uid now rs' = (now < last ts + 1000 * calculate_backoff (int (length ts))) \<and>
    get_remaining_backoff uid now rs' = max 0 (ceil_div (last ts + 1000 * calculate_backoff (int (length ts)) - now) 1000) \<and>
    get_violations uid now rs' =
      (if now < last ts + 3600000
       then \<lparr>v_count = int (length ts), v_timestamps = last_n 10 ts, v_lastViolation = last ts\<rparr> else no_violations)"
proof -
  let ?n = "int (length ts)"
  have pos: "0 < ?n" using assms(5) by simp
  note b = calculate_backoff_pos [OF pos]
  have run: "ns = map int [1..<length ts + 1]" "get_violations uid now rs' =
      (if now < last ts + 3600000
       then \<lparr>v_count = ?n, v_timestamps = last_n 10 ts, v_lastViolation = last ts\<rparr> else no_violations)"
    using redis_server.violation_run_up [OF assms(1-4)] assms(5,7) by (simp_all add: MAX_VIOLATIONS_def)
  have ceil: "x \<le> 0 \<Longrightarrow> ceil_div x 1000 \<le> 0" "0 < x \<Longrightarrow> 0 \<le> ceil_div x 1000" for x
    by (simp_all add: ceil_div_def Fract_of_int_quotient divide_nonpos_pos ceiling_le_zero
        order_trans [OF _ zero_le_ceiling [THEN iffD2]] less_le_trans [of "-1" 0])
  show ?thesis
    using pos b assms(6) ceil [of "last ts + 1000 * calculate_backoff ?n - now"]
    by (auto simp: is_in_backoff_def get_remaining_backoff_def run no_violations_def Let_def algebra_simps max_def)
qed

lemma backoff_escalates_witness:
  "is_in_backoff ''u1'' 309000 (snd (violation_run ''u1'' [1000, 5000, 10000] mem_service)) \<and>
   \<not> is_in_backoff ''u1'' 310000 (snd (violation_run ''u1'' [1000, 5000, 10000] mem_service))"
proof -
  have none: "get_violations ''u1'' t mem_service = no_violations" for t
    using mem.get_up [OF mem_service_up] by (simp add: get_violations_def)
  obtain ns rs' where r: "violation_run ''u1'' [1000, 5000, 10000] mem_service = (ns, rs')" by fastforce
  show ?thesis
    using backoff_escalates [OF mem.redis_server_axioms mem_service_up none, of "[1000, 5000, 10000]" 309000 ns rs']
      backoff_escalates [OF mem.redis_server_axioms mem_service_up none, of "[1000, 5000, 10000]" 310000 ns rs'] r
    by (simp add: calculate_backoff_def backoff_schedule_def)
qed

end
