(* ===== verification/Cache_Service.thy ===== *)
theory Cache_Service
  imports Cart_Cache
begin

section \<open>The cache service\<close>

text \<open>
  \<open>common/services/cache.service.ts\<close>: namespaced keys, lifetimes with a default, tags for
  invalidation and hit statistics over the Redis service. The methods of the Redis service never
  throw, so the \<open>catch\<close> branches are only reached by a \<open>TypeError\<close> on a tag entry that is not an
  array, which is the \<open>None\<close> of \<open>associate_tags\<close>. Under a tag key the service only writes arrays of
  key strings; \<open>invalidateByTags\<close> of anything else is not modelled beyond doing nothing.
\<close>

record cache_stats =
  cs_hits :: nat
  cs_misses :: nat
  cs_hitRate :: rat
  cs_operations :: nat

record 's cache_service =
  redis :: "'s redis_service"
  stats :: cache_stats

definition defaultTTL :: int where "defaultTTL = 300"

definition build_key :: "string \<Rightarrow> string option \<Rightarrow> string" where
  "build_key key ns = (if truthy_str ns then ''mash:cache:'' @ the ns @ '':'' @ key else ''mash:cache:'' @ key)"

definition build_tag_key :: "string \<Rightarrow> string" where
  "build_tag_key tag = ''mash:tag:'' @ tag"

definition hit_rate :: "nat \<Rightarrow> nat \<Rightarrow> rat" where
  "hit_rate h n = (if n > 0 then of_nat h / of_nat n * 100 else 0)"

definition update_stats :: "bool \<Rightarrow> cache_stats \<Rightarrow> cache_stats" where
  "update_stats isHit st =
     (let n = cs_operations st + 1;
          h = (if isHit then cs_hits st + 1 else cs_hits st);
          m = (if isHit then cs_misses st else cs_misses st + 1)
      in \<lparr>cs_hits = h, cs_misses = m, cs_hitRate = hit_rate h n, cs_operations = n\<rparr>)"

definition cache_get :: "ms \<Rightarrow> string \<Rightarrow> string option \<Rightarrow> 's cache_service \<Rightarrow> json \<times> 's cache_service" where
  "cache_get now key ns cs =
     (if \<not> is_available (redis cs) then (JNull, cs)
      else (let val = redis_get (redis cs) now (build_key key ns)
            in (val, cs\<lparr>stats := update_stats (val \<noteq> JNull) (stats cs)\<rparr>)))"

text \<open>\<open>get(tagKey) || []\<close>, then \<open>includes\<close> and \<open>push\<close>, which throw unless the entry is an array.\<close>

definition tagged_keys :: "json \<Rightarrow> json list option" where
  "tagged_keys j = (if \<not> json_truthy j then Some [] else case j of JArr ks \<Rightarrow> Some ks | _ \<Rightarrow> None)"

definition push_key :: "string \<Rightarrow> json list \<Rightarrow> json list" where
  "push_key key ks = (if j_str key \<in> set ks then ks else ks @ [j_str key])"

fun associate_tags :: "ms \<Rightarrow> string \<Rightarrow> string list \<Rightarrow> int \<Rightarrow> 's redis_service \<Rightarrow> bool \<times> 's redis_service" where
  "associate_tags now key [] ttl rs = (True, rs)"
| "associate_tags now key (tag # tags) ttl rs =
     (case tagged_keys (redis_get rs now (build_tag_key tag)) of
        None \<Rightarrow> (False, rs)
      | Some ks \<Rightarrow>
          associate_tags now key tags ttl (snd (redis_set rs now (build_tag_key tag) (JArr (push_key key ks)) (ttl + 60))))"

definition cache_set ::
  "ms \<Rightarrow> string \<Rightarrow> json \<Rightarrow> int option \<Rightarrow> string list \<Rightarrow> 's cache_service \<Rightarrow> bool \<times> 's cache_service" where
  "cache_set now key val ttl tags cs =
     (if \<not> is_available (redis cs) then (False, cs)
      else (let fullKey = build_key key None;
                cacheTTL = num_or ttl defaultTTL;
                (success, rs1) = redis_set (redis cs) now fullKey val cacheTTL
            in if success \<and> tags \<noteq> []
               then (let (ok, rs2) = associate_tags now fullKey tags cacheTTL rs1 in (ok, cs\<lparr>redis := rs2\<rparr>))
               else (success, cs\<lparr>redis := rs1\<rparr>)))"

definition cache_delete :: "ms \<Rightarrow> string \<Rightarrow> string option \<Rightarrow> 's cache_service \<Rightarrow> bool \<times> 's cache_service" where
  "cache_delete now key ns cs =
     (if \<not> is_available (redis cs) then (False, cs)
      else (let (ok, rs) = redis_delete (redis cs) now (build_key key ns) in (ok, cs\<lparr>redis := rs\<rparr>)))"

fun delete_keys :: "ms \<Rightarrow> string list \<Rightarrow> 's redis_service \<Rightarrow> 's redis_service" where
  "delete_keys now [] rs = rs"
| "delete_keys now (k # ks) rs = delete_keys now ks (snd (redis_delete rs now k))"

definition key_strings :: "json \<Rightarrow> string list" where
  "key_strings j = (case j of JArr ks \<Rightarrow> List.map_filter un_str ks | _ \<Rightarrow> [])"

fun invalidate_tags :: "ms \<Rightarrow> string list \<Rightarrow> nat \<Rightarrow> 's redis_service \<Rightarrow> nat \<times> 's redis_service" where
  "invalidate_tags now [] n rs = (n, rs)"
| "invalidate_tags now (tag # tags) n rs =
     (let ks = key_strings (redis_get rs now (build_tag_key tag))
      in if ks \<noteq> []
         then invalidate_tags now tags (n + length ks) (snd (redis_delete (delete_keys now ks rs) now (build_tag_key tag)))
         else invalidate_tags now tags n rs)"

definition invalidate_by_tags :: "ms \<Rightarrow> string list \<Rightarrow> 's cache_service \<Rightarrow> nat \<times> 's cache_service" where
  "invalidate_by_tags now tags cs =
     (if \<not> is_available (redis cs) then (0, cs)
      else (let (n, rs) = invalidate_tags now tags 0 (redis cs) in (n, cs\<lparr>redis := rs\<rparr>)))"

definition invalidate_by_pattern :: "ms \<Rightarrow> string \<Rightarrow> 's cache_service \<Rightarrow> nat \<times> 's cache_service" where
  "invalidate_by_pattern now pat cs =
     (if \<not> is_available (redis cs) then (0, cs)
      else (let (n, rs) = redis_delete_pattern (redis cs) now (build_key pat None) in (n, cs\<lparr>redis := rs\<rparr>)))"

definition cache_exists :: "ms \<Rightarrow> string \<Rightarrow> string option \<Rightarrow> 's cache_service \<Rightarrow> bool" where
  "cache_exists now key ns cs = (is_available (redis cs) \<and> redis_exists (redis cs) now (build_key key ns))"

definition cache_ttl :: "ms \<Rightarrow> string \<Rightarrow> string option \<Rightarrow> 's cache_service \<Rightarrow> int" where
  "cache_ttl now key ns cs =
     (if \<not> is_available (redis cs) then - 2 else redis_ttl (redis cs) now (build_key key ns))"

definition cache_get_stats :: "'s cache_service \<Rightarrow> cache_stats" where
  "cache_get_stats cs = (stats cs)\<lparr>cs_hitRate := hit_rate (cs_hits (stats cs)) (cs_operations (stats cs))\<rparr>"

definition cache_reset_stats :: "'s cache_service \<Rightarrow> 's cache_service" where
  "cache_reset_stats cs = cs\<lparr>stats := \<lparr>cs_hits = 0, cs_misses = 0, cs_hitRate = 0, cs_operations = 0\<rparr>\<rparr>"

definition cache_clear_all :: "ms \<Rightarrow> 's cache_service \<Rightarrow> bool \<times> 's cache_service" where
  "cache_clear_all now cs =
     (if \<not> is_available (redis cs) then (False, cs)
      else (let (_, rs1) = redis_delete_pattern (redis cs) now ''mash:cache:*'';
                (_, rs2) = redis_delete_pattern rs1 now ''mash:tag:*''
            in (True, cs\<lparr>redis := rs2\<rparr>)))"

text \<open>The wrapped function is given by its result; the answer says whether it was called.\<close>

definition cache_wrap ::
  "ms \<Rightarrow> string \<Rightarrow> json \<Rightarrow> int option \<Rightarrow> string list \<Rightarrow> 's cache_service \<Rightarrow> (json \<times> bool) \<times> 's cache_service" where
  "cache_wrap now key result ttl tags cs =
     (let (cached, cs1) = cache_get now key None cs
      in if cached \<noteq> JNull then ((cached, False), cs1)
         else ((result, True), snd (cache_set now key result ttl tags cs1)))"

subsection \<open>Lemmas\<close>

lemma keys_apart [simp]: "build_tag_key t \<noteq> build_key k ns" "build_key k ns \<noteq> build_tag_key t"
  "build_tag_key s = build_tag_key t \<longleftrightarrow> s = t" "build_key k None = build_key k' None \<longleftrightarrow> k = k'"
  by (simp_all add: build_tag_key_def build_key_def truthy_str_def)

lemma push_key_set [simp]: "set (push_key k ks) = insert (j_str k) (set ks)"
  by (auto simp: push_key_def)

lemma j_str_inject [simp]: "j_str s = j_str t \<longleftrightarrow> s = t"
  by (simp add: j_str_def)

lemma un_str_iff: "un_str j = Some s \<longleftrightarrow> j = j_str s"
  by (cases j rule: un_str.cases) (auto simp: j_str_def)

lemma key_strings_JArr [simp]: "set (key_strings (JArr ks)) = {s. j_str s \<in> set ks}"
  by (force simp: key_strings_def map_filter_def un_str_iff image_iff split: option.split)

text \<open>What a tag holds at a time: the keys listed in a live array under its key.\<close>

definition holds :: "json \<Rightarrow> string set" where
  "holds j = (case j of JArr ks \<Rightarrow> {s. j_str s \<in> set ks} | _ \<Rightarrow> {})"

lemma holds_simps [simp]: "holds JNull = {}" "holds (JArr ks) = {s. j_str s \<in> set ks}"
  by (simp_all add: holds_def)

text \<open>An entry the service writes under a tag: an array that lists cache keys only.\<close>

definition tag_entry :: "json \<Rightarrow> bool" where
  "tag_entry j \<longleftrightarrow> j = JNull \<or> (\<exists>ks. j = JArr ks \<and> holds j \<subseteq> range (\<lambda>k. build_key k None))"

lemma tag_entry_null [simp]: "tag_entry JNull" by (simp add: tag_entry_def)

lemma tag_entry_holds: "tag_entry j \<Longrightarrow> holds j \<subseteq> range (\<lambda>k. build_key k None)"
  by (auto simp: tag_entry_def)

lemma tag_entry_tagged:
  "tag_entry j \<Longrightarrow> \<exists>ks. tagged_keys j = Some ks \<and> {s. j_str s \<in> set ks} = holds j"
  by (auto simp: tag_entry_def tagged_keys_def)

lemma tagged_keys_simps [simp]: "tagged_keys JNull = Some []" "tagged_keys (JArr ks) = Some ks"
  by (simp_all add: tagged_keys_def)

lemma set_key_strings [simp]: "set (key_strings j) = holds j"
  by (cases j) (simp_all add: holds_def, simp_all add: key_strings_def)

context redis_server
begin

lemma up_available [simp]: "up rs \<Longrightarrow> is_available rs"
  by (simp add: up_def is_available_def)

definition tag_ok :: "'s redis_service \<Rightarrow> bool" where
  "tag_ok rs \<longleftrightarrow> (\<forall>t u. tag_entry (redis_get rs u (build_tag_key t)))"

lemma associate_tags_up:
  assumes "up rs" "0 < ttl + 60" "tag_ok rs"
  shows "\<exists>rs'. associate_tags now (build_key key None) tags ttl rs = (True, rs') \<and> up rs' \<and> tag_ok rs' \<and>
    (\<forall>k ns u. redis_get rs' u (build_key k ns) = redis_get rs u (build_key k ns)) \<and>
    (\<forall>t u. t \<notin> set tags \<longrightarrow> redis_get rs' u (build_tag_key t) = redis_get rs u (build_tag_key t)) \<and>
    (\<forall>t u. t \<in> set tags \<longrightarrow> u < now + 1000 * (ttl + 60) \<longrightarrow>
      insert (build_key key None) (holds (redis_get rs now (build_tag_key t))) \<subseteq> holds (redis_get rs' u (build_tag_key t))) \<and>
    (\<forall>t u. t \<in> set tags \<longrightarrow> now + 1000 * (ttl + 60) \<le> u \<longrightarrow> redis_get rs' u (build_tag_key t) = JNull)"
  using assms(1,3)
proof (induction tags arbitrary: rs)
  case Nil
  then show ?case by simp
next
  case (Cons tag tags)
  obtain ks where ks: "tagged_keys (redis_get rs now (build_tag_key tag)) = Some ks"
    "{s. j_str s \<in> set ks} = holds (redis_get rs now (build_tag_key tag))"
    using Cons.prems(2) tag_entry_tagged unfolding tag_ok_def by blast
  define rs1 where "rs1 = snd (redis_set rs now (build_tag_key tag) (JArr (push_key (build_key key None) ks)) (ttl + 60))"
  have get1: "redis_get rs1 u k = (if k = build_tag_key tag
      then if u < now + 1000 * (ttl + 60) then JArr (push_key (build_key key None) ks) else JNull else redis_get rs u k)" for u k
    unfolding rs1_def by (rule set_get_up [OF Cons.prems(1) assms(2)])
  have up1: "up rs1" unfolding rs1_def by (rule cache.ready_set [OF Cons.prems(1) assms(2)])
  have new: "holds (JArr (push_key (build_key key None) ks)) =
      insert (build_key key None) (holds (redis_get rs now (build_tag_key tag)))"
    by (auto simp flip: ks(2))
  have "holds (redis_get rs now (build_tag_key tag)) \<subseteq> range (\<lambda>k. build_key k None)"
    using Cons.prems(2) unfolding tag_ok_def by (intro tag_entry_holds) blast
  then have ok1: "tag_ok rs1"
    using Cons.prems(2) new by (auto simp: tag_ok_def get1 tag_entry_def)
  obtain rs' where IH: "associate_tags now (build_key key None) tags ttl rs1 = (True, rs')" "up rs'" "tag_ok rs'"
    "\<forall>k ns u. redis_get rs' u (build_key k ns) = redis_get rs1 u (build_key k ns)"
    "\<forall>t u. t \<notin> set tags \<longrightarrow> redis_get rs' u (build_tag_key t) = redis_get rs1 u (build_tag_key t)"
    "\<forall>t u. t \<in> set tags \<longrightarrow> u < now + 1000 * (ttl + 60) \<longrightarrow>
      insert (build_key key None) (holds (redis_get rs1 now (build_tag_key t))) \<subseteq> holds (redis_get rs' u (build_tag_key t))"
    "\<forall>t u. t \<in> set tags \<longrightarrow> now + 1000 * (ttl + 60) \<le> u \<longrightarrow> redis_get rs' u (build_tag_key t) = JNull"
    using Cons.IH [OF up1 ok1] by (elim exE conjE) (rule that)
  have tags: "insert (build_key key None) (holds (redis_get rs now (build_tag_key t))) \<subseteq> holds (redis_get rs' u (build_tag_key t))"
    if "t \<in> set (tag # tags)" "u < now + 1000 * (ttl + 60)" for t u
  proof (cases "t \<in> set tags")
    case True
    have "holds (redis_get rs now (build_tag_key t)) \<subseteq> insert (build_key key None) (holds (redis_get rs1 now (build_tag_key t)))"
      using new assms(2) by (auto simp: get1 simp del: holds_simps)
    with IH(6) True that(2) show ?thesis by blast
  next
    case False
    with that have "t = tag" by simp
    with False that(2) IH(5) show ?thesis by (simp add: get1 new del: holds_simps)
  qed
  have "associate_tags now (build_key key None) (tag # tags) ttl rs = (True, rs')"
    using IH(1) by (simp add: ks(1) rs1_def)
  moreover have "redis_get rs' u (build_tag_key t) = JNull" if "t \<in> set (tag # tags)" "now + 1000 * (ttl + 60) \<le> u" for t u
    using that IH(5,7) by (cases "t \<in> set tags") (auto simp: get1)
  ultimately show ?case using IH(2-5) tags by (simp add: get1)
qed

lemma cache_set_up:
  assumes "up (redis cs)" "0 < ttl" "tag_ok (redis cs)"
  obtains cs' where "cache_set now key val (Some ttl) tags cs = (True, cs')" "up (redis cs')" "tag_ok (redis cs')"
    "stats cs' = stats cs"
    "\<And>k u. redis_get (redis cs') u (build_key k None) =
      (if k = key then if u < now + 1000 * ttl then val else JNull else redis_get (redis cs) u (build_key k None))"
    "\<And>t u. t \<notin> set tags \<Longrightarrow> redis_get (redis cs') u (build_tag_key t) = redis_get (redis cs) u (build_tag_key t)"
    "\<And>t u. t \<in> set tags \<Longrightarrow> u < now + 1000 * (ttl + 60) \<Longrightarrow>
      insert (build_key key None) (holds (redis_get (redis cs) now (build_tag_key t))) \<subseteq> holds (redis_get (redis cs') u (build_tag_key t))"
    "\<And>t u. t \<in> set tags \<Longrightarrow> now + 1000 * (ttl + 60) \<le> u \<Longrightarrow> redis_get (redis cs') u (build_tag_key t) = JNull"
proof -
  obtain rs1 where s: "redis_set (redis cs) now (build_key key None) val ttl = (True, rs1)" "up rs1"
    by (rule set_up [OF assms(1,2)])
  have get1: "redis_get rs1 u k = (if k = build_key key None then if u < now + 1000 * ttl then val else JNull
      else redis_get (redis cs) u k)" for u k
    using set_get_up [OF assms(1,2), of now "build_key key None" val] s(1) by simp
  have ok1: "tag_ok rs1" using assms(3) by (simp add: tag_ok_def get1)
  obtain rs2 where a: "associate_tags now (build_key key None) tags ttl rs1 = (True, rs2)" "up rs2" "tag_ok rs2"
    "\<forall>k ns u. redis_get rs2 u (build_key k ns) = redis_get rs1 u (build_key k ns)"
    "\<forall>t u. t \<notin> set tags \<longrightarrow> redis_get rs2 u (build_tag_key t) = redis_get rs1 u (build_tag_key t)"
    "\<forall>t u. t \<in> set tags \<longrightarrow> u < now + 1000 * (ttl + 60) \<longrightarrow>
      insert (build_key key None) (holds (redis_get rs1 now (build_tag_key t))) \<subseteq> holds (redis_get rs2 u (build_tag_key t))"
    "\<forall>t u. t \<in> set tags \<longrightarrow> now + 1000 * (ttl + 60) \<le> u \<longrightarrow> redis_get rs2 u (build_tag_key t) = JNull"
    using associate_tags_up [OF s(2) _ ok1, of ttl now key tags] assms(2) by auto
  have "associate_tags now (build_key key None) [] ttl rs1 = (True, rs1)" by simp
  then have r2: "tags = [] \<Longrightarrow> rs2 = rs1" using a(1) by auto
  have "cache_set now key val (Some ttl) tags cs = (True, cs\<lparr>redis := rs2\<rparr>)"
    using assms s a(1) r2 by (cases "tags = []") (simp_all add: cache_set_def num_or_def)
  then show thesis
    using a s(2) assms(2) by (intro that [of "cs\<lparr>redis := rs2\<rparr>"]) (simp_all add: get1)
qed

lemma delete_keys_up:
  "up rs \<Longrightarrow> up (delete_keys now ks rs) \<and>
    (\<forall>u k. redis_get (delete_keys now ks rs) u k = (if k \<in> set ks then JNull else redis_get rs u k))"
  by (induction ks arbitrary: rs) (auto simp: cache.ready_del cache.get_del)

lemma invalidate_tags_ready:
  "up rs \<Longrightarrow> tag_ok rs \<Longrightarrow> up (snd (invalidate_tags now tags n rs)) \<and> tag_ok (snd (invalidate_tags now tags n rs))"
proof (induction tags arbitrary: n rs)
  case (Cons tag tags)
  let ?ks = "key_strings (redis_get rs now (build_tag_key tag))"
  let ?rs1 = "snd (redis_delete (delete_keys now ?ks rs) now (build_tag_key tag))"
  note d = delete_keys_up [OF Cons.prems(1), of now ?ks]
  have "up ?rs1" using d by (simp add: cache.ready_del)
  moreover have "tag_ok ?rs1" using d Cons.prems(2) by (simp add: tag_ok_def cache.get_del)
  ultimately show ?case using Cons by (simp add: Let_def del: set_key_strings)
qed simp

text \<open>What is read at some time was there before, if nothing was written since.\<close>

lemma get_earlier: "up rs \<Longrightarrow> redis_get rs u k \<noteq> JNull \<Longrightarrow> t \<le> u \<Longrightarrow> redis_get rs t k = redis_get rs u k"
  by (cases "(u, content rs k)" rule: live.cases) (auto simp: get_up split: if_splits)

text \<open>An entry is gone after an invalidation if it had expired or one of the tags still lists it.\<close>

lemma invalidate_tags_up:
  assumes "up rs" "tag_ok rs"
    and "(\<forall>u \<ge> now. redis_get rs u (build_key k None) = JNull) \<or>
      (\<exists>t \<in> set tags. build_key k None \<in> holds (redis_get rs now (build_tag_key t)))"
  shows "\<forall>u \<ge> now. redis_get (snd (invalidate_tags now tags n rs)) u (build_key k None) = JNull"
  using assms
proof (induction tags arbitrary: n rs)
  case Nil
  then show ?case by simp
next
  case (Cons tag tags)
  define ks where "ks = key_strings (redis_get rs now (build_tag_key tag))"
  define rs1 where "rs1 = (if ks \<noteq> [] then snd (redis_delete (delete_keys now ks rs) now (build_tag_key tag)) else rs)"
  have ks: "set ks = holds (redis_get rs now (build_tag_key tag))" by (simp add: ks_def)
  have sub: "set ks \<subseteq> range (\<lambda>k. build_key k None)"
    using Cons.prems(2) unfolding ks tag_ok_def by (intro tag_entry_holds) blast
  note d = delete_keys_up [OF Cons.prems(1), of now ks]
  have up1: "up rs1" using Cons.prems(1) d by (simp add: rs1_def cache.ready_del)
  have get1: "redis_get rs1 u x = (if x \<in> set ks \<or> x = build_tag_key tag \<and> ks \<noteq> [] then JNull else redis_get rs u x)" for u x
    using d by (auto simp: rs1_def cache.get_del)
  have ok1: "tag_ok rs1" using Cons.prems(2) by (auto simp: tag_ok_def get1)
  have "(\<forall>u \<ge> now. redis_get rs1 u (build_key k None) = JNull) \<or>
      (\<exists>t \<in> set tags. build_key k None \<in> holds (redis_get rs1 now (build_tag_key t)))"
  proof (cases "build_key k None \<in> set ks")
    case False
    have "build_tag_key t \<notin> set ks" for t using sub by auto
    with False Cons.prems(3) show ?thesis by (auto simp: get1 ks)
  qed (simp add: get1)
  then have "\<forall>u \<ge> now. redis_get (snd (invalidate_tags now tags m rs1)) u (build_key k None) = JNull" for m
    by (rule Cons.IH [OF up1 ok1])
  moreover have "invalidate_tags now (tag # tags) n rs = invalidate_tags now tags (if ks \<noteq> [] then n + length ks else n) rs1"
    by (simp add: rs1_def ks_def [symmetric] Let_def)
  ultimately show ?case by (simp only:)
qed

end

text \<open>A run of cached values, as (time, key, value, lifetime, tags).\<close>

type_synonym cache_entry = "ms \<times> string \<times> json \<times> int \<times> string list"

fun set_run :: "cache_entry list \<Rightarrow> 's cache_service \<Rightarrow> 's cache_service" where
  "set_run [] cs = cs"
| "set_run ((now, key, val, ttl, tags) # es) cs = set_run es (snd (cache_set now key val (Some ttl) tags cs))"

fun in_time :: "ms \<Rightarrow> cache_entry list \<Rightarrow> bool" where
  "in_time now [] = True"
| "in_time now ((t, _) # es) = (now \<le> t \<and> in_time t es)"

lemma set_run_append: "set_run (es @ es') cs = set_run es' (set_run es cs)"
  by (induction es cs rule: set_run.induct) simp_all

lemma in_time_ge: "in_time now es \<Longrightarrow> (t, k, v, ttl, tags) \<in> set es \<Longrightarrow> now \<le> t"
  by (induction now es rule: in_time.induct) fastforce+

lemma in_time_append: "in_time now (es @ es') \<longleftrightarrow>
    in_time now es \<and> in_time (if es = [] then now else fst (last es)) es'"
  by (induction now es rule: in_time.induct) auto

context redis_server
begin

lemma set_run_ready:
  assumes "up (redis cs)" "tag_ok (redis cs)" "\<forall>(t, k, v, ttl, tags) \<in> set es. 0 < ttl"
  shows "up (redis (set_run es cs)) \<and> tag_ok (redis (set_run es cs))"
  using assms
proof (induction es cs rule: set_run.induct)
  case (2 now key val ttl tags es cs)
  then have "0 < ttl" by simp
  then obtain cs' where "cache_set now key val (Some ttl) tags cs = (True, cs')" "up (redis cs')" "tag_ok (redis cs')"
    by (rule cache_set_up [OF "2.prems"(1) _ "2.prems"(2)])
  with 2 show ?case by simp
qed simp

text \<open>Once a key is cached under a tag it stays listed until it expires, whatever other keys follow.\<close>

lemma set_run_keeps_tag:
  assumes "up (redis cs)" "tag_ok (redis cs)" "in_time cur es"
    "\<forall>(t, k', v, ttl, tags) \<in> set es. k' \<noteq> k \<and> 0 < ttl \<and> e \<le> t + 1000 * (ttl + 60)"
    "\<forall>u. cur \<le> u \<longrightarrow> u < e \<longrightarrow> build_key k None \<in> holds (redis_get (redis cs) u (build_tag_key tag))"
    "\<forall>u \<ge> e. redis_get (redis cs) u (build_key k None) = JNull"
    "if es = [] then cur \<le> now else fst (last es) \<le> now"
  shows "(\<forall>u \<ge> now. u < e \<longrightarrow> build_key k None \<in> holds (redis_get (redis (set_run es cs)) u (build_tag_key tag))) \<and>
    (\<forall>u \<ge> e. redis_get (redis (set_run es cs)) u (build_key k None) = JNull)"
  using assms
proof (induction es cs arbitrary: cur rule: set_run.induct)
  case (1 cs)
  then show ?case by auto
next
  case (2 t key val ttl tags es cs)
  have p: "key \<noteq> k" "0 < ttl" "e \<le> t + 1000 * (ttl + 60)" "cur \<le> t" "in_time t es" using "2.prems" by auto
  obtain cs' where c: "cache_set t key val (Some ttl) tags cs = (True, cs')" "up (redis cs')" "tag_ok (redis cs')"
    "\<And>k u. redis_get (redis cs') u (build_key k None) =
      (if k = key then if u < t + 1000 * ttl then val else JNull else redis_get (redis cs) u (build_key k None))"
    "\<And>tg u. tg \<notin> set tags \<Longrightarrow> redis_get (redis cs') u (build_tag_key tg) = redis_get (redis cs) u (build_tag_key tg)"
    "\<And>tg u. tg \<in> set tags \<Longrightarrow> u < t + 1000 * (ttl + 60) \<Longrightarrow>
      insert (build_key key None) (holds (redis_get (redis cs) t (build_tag_key tg))) \<subseteq> holds (redis_get (redis cs') u (build_tag_key tg))"
    by (rule cache_set_up [OF "2.prems"(1) p(2) "2.prems"(2)]) blast
  have tag': "build_key k None \<in> holds (redis_get (redis cs') u (build_tag_key tag))" if "t \<le> u" "u < e" for u
  proof (cases "tag \<in> set tags")
    case True
    have "build_key k None \<in> holds (redis_get (redis cs) t (build_tag_key tag))" using "2.prems"(5) p(4) that by auto
    with c(6) [OF True, of u] that p(3) show ?thesis by auto
  next
    case False
    with "2.prems"(5) p(4) that show ?thesis by (simp add: c(5))
  qed
  have "(\<forall>u \<ge> now. u < e \<longrightarrow> build_key k None \<in> holds (redis_get (redis (set_run es cs')) u (build_tag_key tag))) \<and>
    (\<forall>u \<ge> e. redis_get (redis (set_run es cs')) u (build_key k None) = JNull)"
    by (rule "2.IH" [of t, unfolded c(1) snd_conv, OF c(2,3) p(5)])
      (use "2.prems" p(1) tag' in \<open>auto simp: c(4)\<close>)
  then show ?case by (simp add: c(1))
qed

lemma invalidation_reaches_run:
  assumes "up (redis cs)" "\<forall>t u. redis_get (redis cs) u (build_tag_key t) = JNull"
    and es: "es = ys @ (t0, key, val, ttl0, tags0) # zs" "in_time start es" "key \<notin> fst ` snd ` set zs"
    and ttls: "0 < D" "\<forall>(t, k, v, ttl, tags) \<in> set es. D \<le> ttl \<and> ttl \<le> D + 60"
    and tags: "tag \<in> set tags0" "tag \<in> set tgs" and now: "fst (last es) \<le> now" "now \<le> u"
  shows "fst (cache_get u key None (snd (invalidate_by_tags now tgs (set_run es cs)))) = JNull"
proof -
  define cs1 where "cs1 = set_run ys cs"
  have ok: "tag_ok (redis cs)" using assms(2) by (simp add: tag_ok_def)
  have ttls': "\<forall>(t, k, v, ttl, tags) \<in> set es. 0 < ttl" using ttls by fastforce
  then have 1: "up (redis cs1)" "tag_ok (redis cs1)"
    using set_run_ready [OF assms(1) ok, of ys] es(1) by (auto simp: cs1_def)
  have "0 < ttl0" "ttl0 \<le> D + 60" using ttls es(1) by auto
  obtain cs2 where c: "cache_set t0 key val (Some ttl0) tags0 cs1 = (True, cs2)" "up (redis cs2)" "tag_ok (redis cs2)"
    "\<And>k u. redis_get (redis cs2) u (build_key k None) =
      (if k = key then if u < t0 + 1000 * ttl0 then val else JNull else redis_get (redis cs1) u (build_key k None))"
    "\<And>tg u. tg \<in> set tags0 \<Longrightarrow> u < t0 + 1000 * (ttl0 + 60) \<Longrightarrow>
      insert (build_key key None) (holds (redis_get (redis cs1) t0 (build_tag_key tg))) \<subseteq> holds (redis_get (redis cs2) u (build_tag_key tg))"
    by (rule cache_set_up [OF 1(1) \<open>0 < ttl0\<close> 1(2)]) blast
  have in_zs: "in_time t0 zs" "\<forall>(t, k, v, ttl, tags) \<in> set zs. t0 \<le> t"
    using es(2) in_time_ge [of t0 zs] by (auto simp: es(1) in_time_append)
  have later: "\<forall>(t, k', v, ttl, tags) \<in> set zs. k' \<noteq> key \<and> 0 < ttl \<and> t0 + 1000 * ttl0 \<le> t + 1000 * (ttl + 60)"
  proof clarify
    fix t k' v ttl tags
    assume z: "(t, k', v, ttl, tags) \<in> set zs"
    then have "k' \<noteq> key" using es(3) by force
    moreover have "D \<le> ttl" using bspec [OF ttls(2), of "(t, k', v, ttl, tags)"] z by (simp add: es(1))
    moreover have "t0 \<le> t" using in_zs(2) z by auto
    ultimately show "k' \<noteq> key \<and> 0 < ttl \<and> t0 + 1000 * ttl0 \<le> t + 1000 * (ttl + 60)"
      using ttls(1) \<open>ttl0 \<le> D + 60\<close> by simp
  qed
  define cs3 where "cs3 = set_run zs cs2"
  have run: "set_run es cs = cs3" by (simp add: es(1) set_run_append cs1_def [symmetric] c(1) cs3_def)
  have 3: "up (redis cs3)" "tag_ok (redis cs3)"
    using set_run_ready [OF c(2,3), of zs] ttls' by (auto simp: es(1) cs3_def)
  have keep: "(\<forall>u \<ge> now. u < t0 + 1000 * ttl0 \<longrightarrow> build_key key None \<in> holds (redis_get (redis cs3) u (build_tag_key tag))) \<and>
      (\<forall>u \<ge> t0 + 1000 * ttl0. redis_get (redis cs3) u (build_key key None) = JNull)"
    unfolding cs3_def
    by (rule set_run_keeps_tag [OF c(2,3) in_zs(1) later]) (use c(5) [OF tags(1)] now es(1) in \<open>auto simp: c(4)\<close>)
  have "\<forall>u \<ge> now. redis_get (snd (invalidate_tags now tgs 0 (redis cs3))) u (build_key key None) = JNull"
    by (rule invalidate_tags_up [OF 3]) (use keep tags(2) in \<open>cases "now < t0 + 1000 * ttl0"; auto\<close>)
  then show ?thesis
    using now(2) by (simp add: run cache_get_def invalidate_by_tags_def 3(1) case_prod_beta)
qed

end

subsection \<open>Properties\<close>

text \<open>Invalidating a tag removes every value last cached under it, if the lifetimes in use differ by
  at most the minute by which a tag outlives its values: after any run of values with lifetimes
  between \<open>D\<close> and \<open>D + 60\<close> seconds, no key whose last value carried one of the tags is read back.\<close>

theorem invalidation_reaches:
  fixes cs :: "'s cache_service"
  assumes "redis_server c view" "redis_server.up c (redis cs)" "\<forall>t u. redis_get (redis cs) u (build_tag_key t) = JNull"
    and "es = ys @ (t0, key, val, ttl0, tags0) # zs" "in_time start es" "key \<notin> fst ` snd ` set zs"
    and "0 < D" "\<forall>(t, k, v, ttl, tags) \<in> set es. D \<le> ttl \<and> ttl \<le> D + 60"
    and "tag \<in> set tags0" "tag \<in> set tgs" "fst (last es) \<le> now" "now \<le> u"
  shows "fst (cache_get u key None (snd (invalidate_by_tags now tgs (set_run es cs)))) = JNull"
  using redis_server.invalidation_reaches_run [OF assms] .

definition mem_cache :: "mem cache_service" where
  "mem_cache = \<lparr>redis = mem_service, stats = \<lparr>cs_hits = 0, cs_misses = 0, cs_hitRate = 0, cs_operations = 0\<rparr>\<rparr>"

lemma mem_cache_redis [simp]: "redis mem_cache = mem_service"
  by (simp add: mem_cache_def)

lemma mem_get_null [simp]: "redis_get mem_service u k = JNull"
  using mem.get_up [OF mem_service_up] by simp

lemma invalidation_reaches_witness:
  "fst (cache_get 9 ''category:1'' None (snd (invalidate_by_tags 7 [''categories''] (set_run
     [(1, ''category:1'', JNum 1, 600, [''categories'', ''category:1'']), (2, ''categories:tree'', JNum 2, 610, [''categories''])]
     mem_cache)))) = JNull"
  by (rule invalidation_reaches [OF mem.redis_server_axioms, where ys = "[]" and D = 600 and start = 0 and tag = "''categories''"
        and zs = "[(2, ''categories:tree'', JNum 2, 610, [''categories''])]" and ?tags0.0 = "[''categories'', ''category:1'']"])
    (simp_all add: mem_get_null)

text \<open>With lifetimes further apart an invalidation misses: a second key cached under the tag with a
  short lifetime shortens the life of the tag entry; once that is over, invalidating the tag
  deletes nothing and the first key is still answered.\<close>

theorem invalidation_misses:
  fixes cs :: "'s cache_service"
  assumes "redis_server c view" "redis_server.up c (redis cs)" "\<forall>t u. redis_get (redis cs) u (build_tag_key t) = JNull"
    and "k1 \<noteq> k2" "v1 \<noteq> JNull" "0 < ttl2" "0 < ttl1" "t1 \<le> t2"
    and "t2 + 1000 * (ttl2 + 60) \<le> now" "now < t1 + 1000 * ttl1"
  shows "let (n, cs') = invalidate_by_tags now [tag]
        (set_run [(t1, k1, v1, ttl1, [tag]), (t2, k2, v2, ttl2, [tag])] cs)
    in n = 0 \<and> fst (cache_get now k1 None cs') = v1"
proof -
  have ok: "redis_server.tag_ok (redis cs)" using assms(3) by (simp add: redis_server.tag_ok_def [OF assms(1)])
  obtain cs1 where 1: "cache_set t1 k1 v1 (Some ttl1) [tag] cs = (True, cs1)" "redis_server.up c (redis cs1)"
    "redis_server.tag_ok (redis cs1)" "\<And>k u. redis_get (redis cs1) u (build_key k None) =
      (if k = k1 then if u < t1 + 1000 * ttl1 then v1 else JNull else redis_get (redis cs) u (build_key k None))"
    by (rule redis_server.cache_set_up [OF assms(1,2,7) ok]) blast
  obtain cs2 where 2: "cache_set t2 k2 v2 (Some ttl2) [tag] cs1 = (True, cs2)" "redis_server.up c (redis cs2)"
    "\<And>k u. redis_get (redis cs2) u (build_key k None) =
      (if k = k2 then if u < t2 + 1000 * ttl2 then v2 else JNull else redis_get (redis cs1) u (build_key k None))"
    "\<And>t u. t \<in> set [tag] \<Longrightarrow> t2 + 1000 * (ttl2 + 60) \<le> u \<Longrightarrow> redis_get (redis cs2) u (build_tag_key t) = JNull"
    by (rule redis_server.cache_set_up [OF assms(1) 1(2) assms(6) 1(3)]) blast
  have "is_available (redis cs2)" by (rule redis_server.up_available [OF assms(1) 2(2)])
  then show ?thesis
    using assms(4,9,10) by (simp add: 1(1,4) 2(1,3,4) invalidate_by_tags_def cache_get_def key_strings_def)
qed

lemma invalidation_misses_witness:
  "fst (invalidate_by_tags 70000 [''products''] (set_run [(0, ''p1'', JNum 1, 600, [''products'']),
    (1000, ''p2'', JNum 2, 5, [''products''])] mem_cache)) = 0"
  using invalidation_misses [OF mem.redis_server_axioms, of "mem_cache"
      "''p1''" "''p2''" "JNum 1" 5 600 0 1000 70000 "''products''" "JNum 2"]
  by (simp add: mem_get_null case_prod_beta)

text \<open>\<open>wrap\<close> answers what is cached without calling the function, and the function's result
  otherwise, which every call until the lifetime is over then answers without calling it again;
  only a \<open>null\<close> result is computed every time. Each call is counted as one hit or one miss.\<close>

theorem wrap_memoizes:
  fixes cs :: "'s cache_service"
  assumes "redis_server c view" "redis_server.up c (redis cs)" "redis_server.tag_ok (redis cs)" "0 < ttl"
    and "cache_wrap now key result (Some ttl) tags cs = ((answer, called), cs')"
  shows "called = (redis_get (redis cs) now (build_key key None) = JNull) \<and>
    answer = (if called then result else redis_get (redis cs) now (build_key key None)) \<and>
    (called \<longrightarrow> (\<forall>t < now + 1000 * ttl. \<forall>r ttl' tags'. result \<noteq> JNull \<longrightarrow>
       fst (cache_wrap t key r ttl' tags' cs') = (result, False))) \<and>
    cs_operations (stats cs') = cs_operations (stats cs) + 1 \<and>
    cs_hits (stats cs') = cs_hits (stats cs) + (if called then 0 else 1) \<and>
    cs_misses (stats cs') = cs_misses (stats cs) + (if called then 1 else 0)"
proof -
  have av: "is_available (redis cs)" by (rule redis_server.up_available [OF assms(1,2)])
  define cs1 where "cs1 = snd (cache_get now key None cs)"
  have cs1: "redis cs1 = redis cs" "stats cs1 = update_stats (redis_get (redis cs) now (build_key key None) \<noteq> JNull) (stats cs)"
    by (simp_all add: cs1_def cache_get_def av Let_def)
  obtain cs2 where 2: "cache_set now key result (Some ttl) tags cs1 = (True, cs2)" "redis_server.up c (redis cs2)"
    "stats cs2 = stats cs1" "\<And>k u. redis_get (redis cs2) u (build_key k None) =
      (if k = key then if u < now + 1000 * ttl then result else JNull else redis_get (redis cs1) u (build_key k None))"
    by (rule redis_server.cache_set_up [OF assms(1), of cs1 ttl now key result tags]) (use assms cs1 in auto)
  have av2: "is_available (redis cs2)" by (rule redis_server.up_available [OF assms(1) 2(2)])
  have w: "cache_wrap now key result (Some ttl) tags cs =
      (if redis_get (redis cs) now (build_key key None) \<noteq> JNull
       then ((redis_get (redis cs) now (build_key key None), False), cs1) else ((result, True), cs2))"
    using 2(1) by (cases "redis_get (redis cs) now (build_key key None) = JNull") (simp_all add: cache_wrap_def cs1_def cache_get_def av Let_def)
  have again: "fst (cache_wrap t key r ttl' tags' cs2) = (result, False)"
    if "t < now + 1000 * ttl" "result \<noteq> JNull" for t r ttl' tags'
    using that by (simp add: cache_wrap_def cache_get_def av2 2(4) Let_def)
  show ?thesis
  proof (cases "redis_get (redis cs) now (build_key key None) = JNull")
    case True
    with assms(5) have "answer = result" "called" "cs' = cs2" by (simp_all add: w)
    then show ?thesis using True again by (simp add: 2(3) cs1 update_stats_def Let_def)
  next
    case False
    with assms(5) have "answer = redis_get (redis cs) now (build_key key None)" "\<not> called" "cs' = cs1" by (simp_all add: w)
    then show ?thesis using False by (simp add: cs1 update_stats_def Let_def)
  qed
qed

lemma wrap_memoizes_witness:
  "fst (cache_wrap 299999 ''k'' (JNum 2) None [] (snd (cache_wrap 0 ''k'' (JNum 1) (Some 300) [''t'']
     mem_cache))) = (JNum 1, False)"
proof -
  let ?cs = "mem_cache"
  obtain a b cs' where w: "cache_wrap 0 ''k'' (JNum 1) (Some 300) [''t''] ?cs = ((a, b), cs')" by (metis surj_pair)
  show ?thesis
    using wrap_memoizes [OF mem.redis_server_axioms _ _ _ w] w
    by (simp add: mem.tag_ok_def mem_get_null)
qed

end
