(* ===== verification/Cache_Coherence.thy ===== *)
theory Cache_Coherence
  imports Cache_Service
begin

section \<open>Caches that agree with a table\<close>

text \<open>
  What the services that keep rows in the cache service share. \<open>timed_cache K V T ttl now rs\<close> says that
  from \<open>now\<close> on a key that \<open>K\<close> selects holds nothing or a value \<open>V\<close> accepts at the time, for no longer
  than its \<open>ttl\<close> in seconds, and is listed under all tags \<open>T\<close> gives for it. Caching keeps it, an invalidation
  keeps it for whatever the table has become under the keys of the tags, and so does the deletion of a key.
  \<open>coherent_cache\<close> is the case of one lifetime and values that do not depend on the time.
\<close>

context redis_server
begin

definition timed_cache ::
  "(string \<Rightarrow> bool) \<Rightarrow> (string \<Rightarrow> ms \<Rightarrow> json \<Rightarrow> bool) \<Rightarrow> (string \<Rightarrow> string set) \<Rightarrow> (string \<Rightarrow> int) \<Rightarrow> ms \<Rightarrow> 's redis_service \<Rightarrow> bool" where
  "timed_cache K V T ttl now rs \<longleftrightarrow> up rs \<and> tag_ok rs \<and>
     (\<forall>key u. K key \<longrightarrow> now \<le> u \<longrightarrow> redis_get rs u (build_key key None) \<noteq> JNull \<longrightarrow>
        u < now + 1000 * ttl key \<and> (\<forall>t \<in> T key. build_key key None \<in> holds (redis_get rs u (build_tag_key t))) \<and>
        V key u (redis_get rs u (build_key key None)))"

lemma timed_cacheD:
  assumes "timed_cache K V T ttl now rs"
  shows "up rs" "tag_ok rs"
    "K key \<Longrightarrow> now \<le> u \<Longrightarrow> redis_get rs u (build_key key None) \<noteq> JNull \<Longrightarrow> u < now + 1000 * ttl key"
    "K key \<Longrightarrow> now \<le> u \<Longrightarrow> redis_get rs u (build_key key None) \<noteq> JNull \<Longrightarrow> t \<in> T key \<Longrightarrow>
       build_key key None \<in> holds (redis_get rs u (build_tag_key t))"
    "K key \<Longrightarrow> now \<le> u \<Longrightarrow> redis_get rs u (build_key key None) \<noteq> JNull \<Longrightarrow> V key u (redis_get rs u (build_key key None))"
  using assms by (auto simp: timed_cache_def)

lemma timed_cache_empty:
  "up rs \<Longrightarrow> (\<forall>u k. redis_get rs u (build_key k None) = JNull) \<Longrightarrow> (\<forall>u t. redis_get rs u (build_tag_key t) = JNull) \<Longrightarrow>
   timed_cache K V T ttl now rs"
  by (simp add: timed_cache_def tag_ok_def)

lemma timed_cache_later:
  assumes "timed_cache K V T ttl now rs" "now \<le> t"
  shows "timed_cache K V T ttl t rs"
proof -
  have "u < t + 1000 * ttl key \<and> (\<forall>t \<in> T key. build_key key None \<in> holds (redis_get rs u (build_tag_key t))) \<and>
      V key u (redis_get rs u (build_key key None))"
    if "K key" "t \<le> u" "redis_get rs u (build_key key None) \<noteq> JNull" for key u
    using timed_cacheD(3-5) [OF assms(1) that(1) _ that(3)] that(2) assms(2) by auto
  then show ?thesis using timed_cacheD(1,2) [OF assms(1)] by (simp add: timed_cache_def)
qed

lemma timed_cache_mono:
  "timed_cache K V T ttl now rs \<Longrightarrow> (\<And>key u v. K key \<Longrightarrow> V key u v \<Longrightarrow> V' key u v) \<Longrightarrow> timed_cache K V' T ttl now rs"
  by (auto simp: timed_cache_def)

lemma cache_get_up: "up (redis ch) \<Longrightarrow> redis (snd (cache_get now key ns ch)) = redis ch \<and>
    fst (cache_get now key ns ch) = redis_get (redis ch) now (build_key key ns)"
  by (simp add: cache_get_def Let_def)

lemma timed_cache_get:
  assumes "timed_cache K V T ttl now (redis ch)" "cache_get now key None ch = (v, ch')"
  shows "redis ch' = redis ch" "K key \<Longrightarrow> v = JNull \<or> V key now v"
  using cache_get_up [OF timed_cacheD(1) [OF assms(1)], of now key None] timed_cacheD(5) [OF assms(1) _ order_refl, of key]
  by (auto simp: assms(2))

text \<open>The list of a tag lives as long as the entry that was stored last, so a shorter life cuts off the others.\<close>

lemma timed_cache_set:
  assumes c: "timed_cache K V T ttl now (redis ch)" and life: "0 < life" "K key \<Longrightarrow> life \<le> ttl key"
    and v: "\<And>u. K key \<Longrightarrow> now \<le> u \<Longrightarrow> u < now + 1000 * life \<Longrightarrow> V key u val" and tags: "K key \<Longrightarrow> T key \<subseteq> set tags"
    and longer: "\<And>k. K k \<Longrightarrow> T k \<inter> set tags \<noteq> {} \<Longrightarrow> ttl k \<le> life + 60"
  shows "timed_cache K V T ttl now (redis (snd (cache_set now key val (Some life) tags ch)))"
proof -
  note 0 = timed_cacheD(1,2) [OF c]
  obtain ch' where s: "cache_set now key val (Some life) tags ch = (True, ch')" "up (redis ch')" "tag_ok (redis ch')"
    "\<And>k u. redis_get (redis ch') u (build_key k None) =
      (if k = key then if u < now + 1000 * life then val else JNull else redis_get (redis ch) u (build_key k None))"
    "\<And>t u. t \<notin> set tags \<Longrightarrow> redis_get (redis ch') u (build_tag_key t) = redis_get (redis ch) u (build_tag_key t)"
    "\<And>t u. t \<in> set tags \<Longrightarrow> u < now + 1000 * (life + 60) \<Longrightarrow>
      insert (build_key key None) (holds (redis_get (redis ch) now (build_tag_key t))) \<subseteq> holds (redis_get (redis ch') u (build_tag_key t))"
    by (rule cache_set_up [OF 0(1) life(1) 0(2)]) blast
  have "u < now + 1000 * ttl k \<and> (\<forall>t \<in> T k. build_key k None \<in> holds (redis_get (redis ch') u (build_tag_key t))) \<and>
      V k u (redis_get (redis ch') u (build_key k None))"
    if k: "K k" "now \<le> u" "redis_get (redis ch') u (build_key k None) \<noteq> JNull" for k u
  proof (cases "k = key")
    case True
    then have u: "u < now + 1000 * life" using k(3) by (simp add: s(4) split: if_splits)
    then have "V k u (redis_get (redis ch') u (build_key k None))" using v k(1,2) True by (simp add: s(4))
    moreover have "build_key k None \<in> holds (redis_get (redis ch') u (build_tag_key t))" if "t \<in> T k" for t
      using s(6) [of t u] tags k(1) True u that by auto
    moreover have "u < now + 1000 * ttl k" using u life(2) k(1) True by auto
    ultimately show ?thesis by blast
  next
    case False
    then have g: "redis_get (redis ch) u (build_key k None) \<noteq> JNull" using k(3) by (simp add: s(4))
    note u = timed_cacheD(3-5) [OF c k(1,2) g]
    have g0: "redis_get (redis ch) now (build_key k None) \<noteq> JNull"
      using get_earlier [OF 0(1) g k(2)] g by simp
    have "build_key k None \<in> holds (redis_get (redis ch') u (build_tag_key t))" if t: "t \<in> T k" for t
    proof (cases "t \<in> set tags")
      case True
      then have "ttl k \<le> life + 60" using longer [OF k(1)] t by blast
      then show ?thesis using True timed_cacheD(4) [OF c k(1) order_refl g0 t] s(6) [of t u] u(1) by auto
    next
      case False
      then show ?thesis using s(5) [of t u] u(2) [OF t] by simp
    qed
    then show ?thesis using False u by (simp add: s(4))
  qed
  then show ?thesis by (simp add: timed_cache_def s(1-3))
qed

text \<open>An invalidation leaves a key as it was or removes it, and only removes the lists of its own tags.\<close>

lemma invalidate_tags_frame:
  assumes "up rs" "tag_ok rs"
  shows "(\<forall>t u. t \<notin> set tags \<longrightarrow> redis_get (snd (invalidate_tags now tags n rs)) u (build_tag_key t) = redis_get rs u (build_tag_key t)) \<and>
    (\<forall>k. (\<forall>u. redis_get (snd (invalidate_tags now tags n rs)) u (build_key k None) = JNull) \<or>
      (\<forall>u. redis_get (snd (invalidate_tags now tags n rs)) u (build_key k None) = redis_get rs u (build_key k None)))"
  using assms
proof (induction tags arbitrary: n rs)
  case (Cons tag tags)
  define ks where "ks = key_strings (redis_get rs now (build_tag_key tag))"
  define rs1 where "rs1 = (if ks \<noteq> [] then snd (redis_delete (delete_keys now ks rs) now (build_tag_key tag)) else rs)"
  have sub: "set ks \<subseteq> range (\<lambda>k. build_key k None)"
    using Cons.prems(2) unfolding ks_def set_key_strings tag_ok_def by (intro tag_entry_holds) blast
  note d = delete_keys_up [OF Cons.prems(1), of now ks]
  have up1: "up rs1" using Cons.prems(1) d by (simp add: rs1_def cache.ready_del)
  have get1: "redis_get rs1 u x = (if x \<in> set ks \<or> x = build_tag_key tag \<and> ks \<noteq> [] then JNull else redis_get rs u x)" for u x
    using d by (auto simp: rs1_def cache.get_del)
  have ok1: "tag_ok rs1" using Cons.prems(2) by (auto simp: tag_ok_def get1)
  have no_tag: "build_tag_key t \<notin> set ks" for t using sub by auto
  have eq: "invalidate_tags now (tag # tags) n rs = invalidate_tags now tags (if ks \<noteq> [] then n + length ks else n) rs1"
    by (simp add: rs1_def ks_def [symmetric] Let_def)
  show ?case unfolding eq
    using Cons.IH [OF up1 ok1, of "if ks \<noteq> [] then n + length ks else n"] no_tag by (auto simp: get1) metis+
qed simp

lemma timed_cache_evict:
  assumes c: "timed_cache K V T ttl now (redis ch)"
    and v: "\<And>key u v. K key \<Longrightarrow> T key \<inter> set tags = {} \<Longrightarrow> V key u v \<Longrightarrow> V' key u v"
  shows "timed_cache K V' T ttl now (redis (snd (invalidate_by_tags now tags ch)))"
proof -
  note 0 = timed_cacheD(1,2) [OF c]
  let ?rs = "snd (invalidate_tags now tags 0 (redis ch))"
  note f = invalidate_tags_frame [OF 0, of tags now 0]
  have "u < now + 1000 * ttl k \<and> (\<forall>t \<in> T k. build_key k None \<in> holds (redis_get ?rs u (build_tag_key t))) \<and>
      V' k u (redis_get ?rs u (build_key k None))"
    if k: "K k" "now \<le> u" "redis_get ?rs u (build_key k None) \<noteq> JNull" for k u
  proof -
    have same: "redis_get ?rs u (build_key k None) = redis_get (redis ch) u (build_key k None)" using f k(3) by metis
    then have g: "redis_get (redis ch) u (build_key k None) \<noteq> JNull" using k(3) by simp
    then have g0: "redis_get (redis ch) now (build_key k None) \<noteq> JNull" using get_earlier [OF 0(1) g k(2)] by simp
    have "T k \<inter> set tags = {}"
    proof (rule ccontr)
      assume "T k \<inter> set tags \<noteq> {}"
      then obtain t where "t \<in> set tags" "t \<in> T k" by auto
      then have "\<exists>t \<in> set tags. build_key k None \<in> holds (redis_get (redis ch) now (build_tag_key t))"
        using timed_cacheD(4) [OF c k(1) order_refl g0] by blast
      then have "\<forall>u \<ge> now. redis_get ?rs u (build_key k None) = JNull"
        by (intro invalidate_tags_up [OF 0] disjI2)
      then show False using k(2,3) by simp
    qed
    then show ?thesis using timed_cacheD(3-5) [OF c k(1,2) g] f v [OF k(1)] by (auto simp: same)
  qed
  then show ?thesis
    using invalidate_tags_ready [OF 0] by (simp add: timed_cache_def invalidate_by_tags_def 0(1) case_prod_beta)
qed

lemma timed_cache_delete:
  assumes c: "timed_cache K V T ttl now (redis ch)"
    and v: "\<And>key u v. K key \<Longrightarrow> key \<noteq> k \<Longrightarrow> V key u v \<Longrightarrow> V' key u v"
  shows "timed_cache K V' T ttl now (redis (snd (cache_delete now k None ch)))"
proof -
  note 0 = timed_cacheD(1,2) [OF c]
  have g: "redis_get (snd (redis_delete (redis ch) now (build_key k None))) u x =
      (if x = build_key k None then JNull else redis_get (redis ch) u x)" for u x
    using cache.get_del [OF 0(1)] by auto
  have "tag_ok (snd (redis_delete (redis ch) now (build_key k None)))" using 0(2) by (simp add: tag_ok_def g)
  then show ?thesis
    using c v 0(1) by (auto simp: timed_cache_def cache_delete_def case_prod_beta g cache.ready_del)
qed

subsection \<open>Values that do not depend on the time\<close>

definition coherent_cache ::
  "(string \<Rightarrow> bool) \<Rightarrow> (string \<Rightarrow> json \<Rightarrow> bool) \<Rightarrow> (string \<Rightarrow> string set) \<Rightarrow> int \<Rightarrow> ms \<Rightarrow> 's redis_service \<Rightarrow> bool" where
  "coherent_cache K V T ttl = timed_cache K (\<lambda>key u. V key) T (\<lambda>key. ttl)"

lemma coherent_cache_empty:
  "up rs \<Longrightarrow> (\<forall>u k. redis_get rs u (build_key k None) = JNull) \<Longrightarrow> (\<forall>u t. redis_get rs u (build_tag_key t) = JNull) \<Longrightarrow>
   coherent_cache K V T ttl now rs"
  unfolding coherent_cache_def by (rule timed_cache_empty)

lemma coherent_cache_later: "coherent_cache K V T ttl now rs \<Longrightarrow> now \<le> t \<Longrightarrow> coherent_cache K V T ttl t rs"
  unfolding coherent_cache_def by (rule timed_cache_later)

lemma coherent_cache_mono:
  "coherent_cache K V T ttl now rs \<Longrightarrow> (\<And>key v. K key \<Longrightarrow> V key v \<Longrightarrow> V' key v) \<Longrightarrow> coherent_cache K V' T ttl now rs"
  unfolding coherent_cache_def by (rule timed_cache_mono)

lemma coherent_cache_get:
  assumes "coherent_cache K V T ttl now (redis ch)" "cache_get now key None ch = (v, ch')"
  shows "redis ch' = redis ch" "K key \<Longrightarrow> v = JNull \<or> V key v"
  using timed_cache_get [OF assms(1) [unfolded coherent_cache_def] assms(2)] by simp_all

lemma coherent_cache_set:
  assumes "coherent_cache K V T ttl now (redis ch)" "0 < ttl" "K key \<Longrightarrow> V key val" "K key \<Longrightarrow> T key \<subseteq> set tags"
  shows "coherent_cache K V T ttl now (redis (snd (cache_set now key val (Some ttl) tags ch)))"
  using assms unfolding coherent_cache_def by (intro timed_cache_set) simp_all

text \<open>Another entry, of any lifetime that does not cut off the tags.\<close>

lemma coherent_cache_set_other:
  assumes "coherent_cache K V T ttl now (redis ch)" "\<not> K key" "0 < life" "ttl \<le> life + 60"
  shows "coherent_cache K V T ttl now (redis (snd (cache_set now key val (Some life) tags ch)))"
  using assms unfolding coherent_cache_def by (intro timed_cache_set) simp_all

lemma coherent_cache_evict:
  assumes "coherent_cache K V T ttl now (redis ch)" "\<And>key v. K key \<Longrightarrow> T key \<inter> set tags = {} \<Longrightarrow> V key v \<Longrightarrow> V' key v"
  shows "coherent_cache K V' T ttl now (redis (snd (invalidate_by_tags now tags ch)))"
  using assms unfolding coherent_cache_def by (intro timed_cache_evict)

lemma coherent_cache_delete:
  assumes "coherent_cache K V T ttl now (redis ch)" "\<And>key v. K key \<Longrightarrow> key \<noteq> k \<Longrightarrow> V key v \<Longrightarrow> V' key v"
  shows "coherent_cache K V' T ttl now (redis (snd (cache_delete now k None ch)))"
  using assms unfolding coherent_cache_def by (intro timed_cache_delete)

end

end
