(* ===== verification/Categories.thy ===== *)
theory Categories
  imports Cache_Coherence
begin

section \<open>Categories\<close>

text \<open>
  \<open>modules/categories/categories.service.ts\<close>: the category hierarchy and its tree, cached by the
  cache service. Answers are JSON, as the cache and the client see them, with dates as
  milliseconds. \<open>coll\<close> is the place of a name in the collation of the database. A \<open>null\<close> for a
  column that is not nullable, which Prisma refuses, is not modelled. \<open>@Cacheable\<close> on \<open>findAll\<close> has
  no effect, since interceptors only run on controllers.
\<close>

record category_row =
  g_id :: string
  g_name :: string
  g_slug :: string
  g_description :: "string option"
  g_imageUrl :: "string option"
  g_parentId :: "string option"
  g_isActive :: bool
  g_sortOrder :: int
  g_createdAt :: ms
  g_updatedAt :: ms

record cat_product =
  cp_id :: string
  cp_isActive :: bool
  cp_categories :: json
  cp_createdAt :: ms

record 's cat_world =
  cats :: "category_row list"
  cat_products :: "cat_product list"
  cat_cache :: "'s cache_service"

record category_query =
  gq_page :: int
  gq_limit :: int
  gq_search :: "string option"
  gq_parentId :: "string option"
  gq_isActive :: "bool option"

record category_dto =
  cd_name :: string
  cd_slug :: string
  cd_description :: "string option"
  cd_imageUrl :: "string option"
  cd_parentId :: "string option"
  cd_order :: "int option"
  cd_isActive :: "bool option"

text \<open>In an update a missing field is \<open>None\<close> and a \<open>null\<close> is \<open>Some None\<close>.\<close>

record category_update =
  ud_name :: "string option"
  ud_slug :: "string option"
  ud_description :: "string option option"
  ud_imageUrl :: "string option option"
  ud_parentId :: "string option option"
  ud_order :: "int option"
  ud_isActive :: "bool option"

subsection \<open>Answers\<close>

definition category_fields :: "category_row \<Rightarrow> (string \<times> json) list" where
  "category_fields c =
     [(''id'', j_str (g_id c)), (''name'', j_str (g_name c)), (''description'', j_opt j_str (g_description c)),
      (''slug'', j_str (g_slug c)), (''parentId'', j_opt j_str (g_parentId c)), (''imageUrl'', j_opt j_str (g_imageUrl c)),
      (''isActive'', JBool (g_isActive c)), (''sortOrder'', j_int (g_sortOrder c)),
      (''createdAt'', j_int (g_createdAt c)), (''updatedAt'', j_int (g_updatedAt c))]"

definition category_ref :: "category_row \<Rightarrow> (string \<times> json) list" where
  "category_ref c = [(''id'', j_str (g_id c)), (''name'', j_str (g_name c)), (''slug'', j_str (g_slug c))]"

definition parent_of :: "category_row list \<Rightarrow> category_row \<Rightarrow> category_row option" where
  "parent_of cs c = (case g_parentId c of None \<Rightarrow> None | Some p \<Rightarrow> find_by g_id p cs)"

definition children_of :: "category_row list \<Rightarrow> string \<Rightarrow> category_row list" where
  "children_of cs p = filter (\<lambda>c. g_parentId c = Some p) cs"

definition parent_json :: "category_row list \<Rightarrow> category_row \<Rightarrow> json" where
  "parent_json cs c = j_opt (\<lambda>p. JObj (category_ref p)) (parent_of cs c)"

definition with_parent :: "category_row list \<Rightarrow> category_row \<Rightarrow> json" where
  "with_parent cs c = JObj (category_fields c @ [(''parent'', parent_json cs c)])"

definition with_family :: "category_row list \<Rightarrow> category_row \<Rightarrow> json" where
  "with_family cs c = JObj (category_fields c @ [(''parent'', parent_json cs c),
     (''children'', JArr (map (\<lambda>x. JObj (category_ref x)) (children_of cs (g_id c))))])"

definition category_detail :: "category_row list \<Rightarrow> category_row \<Rightarrow> json" where
  "category_detail cs c = JObj (category_fields c @ [(''parent'', parent_json cs c),
     (''children'', JArr (map (\<lambda>x. JObj (category_ref x @ [(''imageUrl'', j_opt j_str (g_imageUrl x))]))
       (children_of cs (g_id c))))])"

definition category_le :: "(string \<Rightarrow> nat) \<Rightarrow> category_row \<Rightarrow> category_row \<Rightarrow> bool" where
  "category_le coll a b \<longleftrightarrow> g_sortOrder a < g_sortOrder b \<or>
     g_sortOrder a = g_sortOrder b \<and> coll (g_name a) \<le> coll (g_name b)"

subsection \<open>Reading\<close>

definition category_matches :: "category_query \<Rightarrow> category_row \<Rightarrow> bool" where
  "category_matches q c \<longleftrightarrow>
     (truthy_str (gq_search q) \<longrightarrow> contains_insensitive (g_name c) (the (gq_search q)) \<or>
        (case g_description c of None \<Rightarrow> False | Some d \<Rightarrow> contains_insensitive d (the (gq_search q)))) \<and>
     (case gq_parentId q of None \<Rightarrow> True
      | Some p \<Rightarrow> if p = ''null'' then g_parentId c = None else g_parentId c = Some p) \<and>
     (case gq_isActive q of None \<Rightarrow> True | Some b \<Rightarrow> g_isActive c = b)"

record category_page =
  gp_data :: "json list"
  gp_total :: int
  gp_totalPages :: int

definition find_all_categories :: "(string \<Rightarrow> nat) \<Rightarrow> category_query \<Rightarrow> 's cat_world \<Rightarrow> category_page" where
  "find_all_categories coll q w =
     (let rows = filter (category_matches q) (cats w);
          n = int (length rows)
      in \<lparr>gp_data = map (with_family (cats w)) (page_rows (gq_page q) (gq_limit q) (sort_by (category_le coll) rows)),
          gp_total = n, gp_totalPages = total_pages n (gq_limit q)\<rparr>)"

datatype cat_tree = Node category_row "cat_tree list"

text \<open>The recursion of \<open>buildTree\<close> with fuel; \<open>None\<close> is that it was not enough.\<close>

fun build_tree :: "nat \<Rightarrow> category_row list \<Rightarrow> string option \<Rightarrow> cat_tree list option" where
  "build_tree 0 cs p = None"
| "build_tree (Suc n) cs p =
     those (map (\<lambda>c. map_option (Node c) (build_tree n cs (Some (g_id c)))) (filter (\<lambda>c. g_parentId c = p) cs))"

fun tree_json :: "cat_tree \<Rightarrow> json" where
  "tree_json (Node c ts) = JObj (category_fields c @ [(''children'', JArr (map tree_json ts))])"

definition active_categories :: "(string \<Rightarrow> nat) \<Rightarrow> category_row list \<Rightarrow> category_row list" where
  "active_categories coll cs = sort_by (category_le coll) (filter g_isActive cs)"

definition fresh_tree :: "(string \<Rightarrow> nat) \<Rightarrow> category_row list \<Rightarrow> json res" where
  "fresh_tree coll cs =
     (case build_tree (length cs + 1) (active_categories coll cs) None of
        None \<Rightarrow> Inl (InternalError ''Maximum call stack size exceeded'')
      | Some ts \<Rightarrow> Inr (JArr (map tree_json ts)))"

definition CATEGORY_TTL :: int where "CATEGORY_TTL = 600"

definition get_category_tree :: "(string \<Rightarrow> nat) \<Rightarrow> ms \<Rightarrow> 's cat_world \<Rightarrow> json res \<times> 's cat_world" where
  "get_category_tree coll now w =
     (let (cached, ch) = cache_get now ''categories:tree'' None (cat_cache w);
          w1 = w\<lparr>cat_cache := ch\<rparr>
      in if json_truthy cached then (Inr cached, w1)
         else (case fresh_tree coll (cats w) of
                 Inl e \<Rightarrow> (Inl e, w1)
               | Inr tree \<Rightarrow> (Inr tree, w1\<lparr>cat_cache :=
                   snd (cache_set now ''categories:tree'' tree (Some CATEGORY_TTL) [''categories'', ''categories:tree''] ch)\<rparr>)))"

definition category_not_found :: http_error where
  "category_not_found = NotFound ''Category not found''"

definition category_cache_key :: "string \<Rightarrow> string" where
  "category_cache_key cid = ''category:'' @ cid"

definition find_one_category :: "ms \<Rightarrow> string \<Rightarrow> 's cat_world \<Rightarrow> json res \<times> 's cat_world" where
  "find_one_category now cid w =
     (let key = category_cache_key cid;
          (cached, ch) = cache_get now key None (cat_cache w);
          w1 = w\<lparr>cat_cache := ch\<rparr>
      in if json_truthy cached then (Inr cached, w1)
         else (case find_by g_id cid (cats w) of
                 None \<Rightarrow> (Inl category_not_found, w1)
               | Some c \<Rightarrow> (Inr (category_detail (cats w) c), w1\<lparr>cat_cache :=
                   snd (cache_set now key (category_detail (cats w) c) (Some CATEGORY_TTL)
                     [''categories'', category_cache_key cid] ch)\<rparr>)))"

definition get_children :: "(string \<Rightarrow> nat) \<Rightarrow> string \<Rightarrow> 's cat_world \<Rightarrow> category_row list res" where
  "get_children coll cid w =
     (case find_by g_id cid (cats w) of
        None \<Rightarrow> Inl category_not_found
      | Some c \<Rightarrow> Inr (sort_by (category_le coll) (filter g_isActive (children_of (cats w) cid))))"

definition json_array_includes :: "json \<Rightarrow> string \<Rightarrow> bool" where
  "json_array_includes j s = (case j of JArr js \<Rightarrow> j_str s \<in> set js | _ \<Rightarrow> False)"

record category_products_page =
  cpp_data :: "cat_product list"
  cpp_total :: int
  cpp_totalPages :: int

definition get_category_products :: "string \<Rightarrow> int \<Rightarrow> int \<Rightarrow> 's cat_world \<Rightarrow> category_products_page res" where
  "get_category_products cid page lmt w =
     (case find_by g_id cid (cats w) of
        None \<Rightarrow> Inl category_not_found
      | Some c \<Rightarrow>
          (let products = page_rows page lmt
                 (sort_by (\<lambda>a b. cp_createdAt b \<le> cp_createdAt a) (filter cp_isActive (cat_products w)));
               filtered = filter (\<lambda>p. json_array_includes (cp_categories p) cid) products;
               n = int (length filtered)
           in Inr \<lparr>cpp_data = filtered, cpp_total = n, cpp_totalPages = total_pages n lmt\<rparr>))"

subsection \<open>Writing\<close>

text \<open>The database refuses a column that does not exist and a parent that does not.\<close>

definition db_checks :: "int option \<Rightarrow> string option \<Rightarrow> category_row list \<Rightarrow> unit res" where
  "db_checks ord parent cs =
     (if ord \<noteq> None then Inl (InternalError ''Unknown argument order'')
      else case parent of None \<Rightarrow> Inr ()
        | Some p \<Rightarrow> if find_by g_id p cs = None then Inl (InternalError ''Foreign key constraint failed'') else Inr ())"

definition slug_taken :: "http_error" where
  "slug_taken = BadRequest ''Category with slug already exists''"

definition evict :: "ms \<Rightarrow> string list \<Rightarrow> 's cat_world \<Rightarrow> 's cat_world" where
  "evict now tags w = w\<lparr>cat_cache := snd (invalidate_by_tags now tags (cat_cache w))\<rparr>"

definition create_category :: "ms \<Rightarrow> string \<Rightarrow> category_dto \<Rightarrow> 's cat_world \<Rightarrow> json res \<times> 's cat_world" where
  "create_category now newId dto w =
     (if find_by g_slug (cd_slug dto) (cats w) \<noteq> None then (Inl slug_taken, w)
      else if truthy_str (cd_parentId dto) \<and> find_by g_id (the (cd_parentId dto)) (cats w) = None
      then (Inl (NotFound ''Parent category not found''), w)
      else case db_checks (cd_order dto) (cd_parentId dto) (cats w) of
        Inl e \<Rightarrow> (Inl e, w)
      | Inr _ \<Rightarrow>
          (let c = \<lparr>g_id = newId, g_name = cd_name dto, g_slug = cd_slug dto, g_description = cd_description dto,
                 g_imageUrl = cd_imageUrl dto, g_parentId = cd_parentId dto,
                 g_isActive = (case cd_isActive dto of None \<Rightarrow> True | Some b \<Rightarrow> b),
                 g_sortOrder = 0, g_createdAt = now, g_updatedAt = now\<rparr>;
               cs = cats w @ [c]
           in (Inr (with_parent cs c), evict now [''categories'', ''categories:list''] (w\<lparr>cats := cs\<rparr>))))"

definition apply_category_update :: "ms \<Rightarrow> category_update \<Rightarrow> category_row \<Rightarrow> category_row" where
  "apply_category_update now u c =
     c\<lparr>g_name := or_old (ud_name u) (g_name c), g_slug := or_old (ud_slug u) (g_slug c),
       g_description := or_old (ud_description u) (g_description c),
       g_imageUrl := or_old (ud_imageUrl u) (g_imageUrl c),
       g_parentId := or_old (ud_parentId u) (g_parentId c),
       g_isActive := or_old (ud_isActive u) (g_isActive c), g_updatedAt := now\<rparr>"

definition update_tags :: "string \<Rightarrow> string list" where
  "update_tags cid = [''categories'', ''categories:list'', ''categories:tree'', category_cache_key cid]"

definition update_category :: "ms \<Rightarrow> string \<Rightarrow> category_update \<Rightarrow> 's cat_world \<Rightarrow> json res \<times> 's cat_world" where
  "update_category now cid u w =
     (case find_by g_id cid (cats w) of
        None \<Rightarrow> (Inl category_not_found, w)
      | Some c \<Rightarrow>
          (let parent = or_old (ud_parentId u) None
           in if truthy_str (ud_slug u) \<and> ud_slug u \<noteq> Some (g_slug c) \<and> find_by g_slug (the (ud_slug u)) (cats w) \<noteq> None
              then (Inl slug_taken, w)
              else if truthy_str parent \<and> parent = Some cid
              then (Inl (BadRequest ''Category cannot be its own parent''), w)
              else if truthy_str parent \<and> find_by g_id (the parent) (cats w) = None
              then (Inl (NotFound ''Parent category not found''), w)
              else case db_checks (ud_order u) parent (cats w) of
                Inl e \<Rightarrow> (Inl e, w)
              | Inr _ \<Rightarrow>
                  (let cs = update_by g_id cid (apply_category_update now u) (cats w)
                   in (Inr (with_family cs (apply_category_update now u c)), evict now (update_tags cid) (w\<lparr>cats := cs\<rparr>)))))"

definition remove_category :: "ms \<Rightarrow> string \<Rightarrow> 's cat_world \<Rightarrow> category_row res \<times> 's cat_world" where
  "remove_category now cid w =
     (case find_by g_id cid (cats w) of
        None \<Rightarrow> (Inl category_not_found, w)
      | Some c \<Rightarrow>
          if children_of (cats w) cid \<noteq> [] then (Inl (BadRequest ''Cannot delete category with child categories''), w)
          else (Inr (c\<lparr>g_isActive := False, g_updatedAt := now\<rparr>),
                evict now (update_tags cid) (w\<lparr>cats := update_by g_id cid (\<lambda>c. c\<lparr>g_isActive := False, g_updatedAt := now\<rparr>) (cats w)\<rparr>)))"

subsection \<open>The tree\<close>

text \<open>The categories that hang, over any number of steps, under a parent.\<close>

inductive under :: "category_row list \<Rightarrow> string option \<Rightarrow> category_row \<Rightarrow> bool" for cs where
  child: "c \<in> set cs \<Longrightarrow> g_parentId c = p \<Longrightarrow> under cs p c"
| grandchild: "under cs p d \<Longrightarrow> c \<in> set cs \<Longrightarrow> g_parentId c = Some (g_id d) \<Longrightarrow> under cs p c"

lemma under_in: "under cs p c \<Longrightarrow> c \<in> set cs"
  by (induction rule: under.induct) simp_all

lemma under_below:
  "under cs (Some (g_id d)) c \<Longrightarrow> d \<in> set cs \<Longrightarrow> g_parentId d = p \<Longrightarrow> under cs p c"
  by (induction "Some (g_id d)" c rule: under.induct) (auto intro: under.intros)

lemma under_cases:
  "under cs p c \<longleftrightarrow> (\<exists>d \<in> set cs. g_parentId d = p \<and> (c = d \<or> under cs (Some (g_id d)) c))"
proof
  show "under cs p c \<Longrightarrow> \<exists>d \<in> set cs. g_parentId d = p \<and> (c = d \<or> under cs (Some (g_id d)) c)"
    by (induction rule: under.induct) (blast intro: under.intros)+
qed (auto intro: under.intros under_below)

fun at_depth :: "category_row list \<Rightarrow> nat \<Rightarrow> string \<Rightarrow> bool" where
  "at_depth cs 0 i = (\<exists>c. find_by g_id i cs = Some c \<and> g_parentId c = None)"
| "at_depth cs (Suc n) i = (\<exists>c p. find_by g_id i cs = Some c \<and> g_parentId c = Some p \<and> at_depth cs n p)"

fun anc :: "category_row list \<Rightarrow> nat \<Rightarrow> string \<Rightarrow> string option" where
  "anc cs 0 i = Some i"
| "anc cs (Suc n) i = Option.bind (Option.bind (find_by g_id i cs) g_parentId) (anc cs n)"

lemma at_depth_unique: "at_depth cs n i \<Longrightarrow> at_depth cs m i \<Longrightarrow> m = n"
proof (induction n arbitrary: i m)
  case 0
  then show ?case by (cases m) auto
next
  case (Suc n)
  then show ?case by (cases m) auto
qed

lemma at_depth_below: "at_depth cs n i \<Longrightarrow> k \<le> n \<Longrightarrow> \<exists>j. at_depth cs k j"
proof (induction n arbitrary: i)
  case 0
  then show ?case by blast
next
  case (Suc n)
  then show ?case by (cases "k = Suc n") (blast, auto)
qed

lemma at_depth_bound:
  assumes "at_depth cs n i"
  shows "n < length cs"
proof -
  have "\<forall>k \<in> {..n}. \<exists>j. at_depth cs k j" using at_depth_below [OF assms] by simp
  then obtain f where f: "\<forall>k \<in> {..n}. at_depth cs k (f k)" by (rule bchoice [THEN exE])
  have "inj_on f {..n}" using f at_depth_unique by (intro inj_onI) metis
  moreover have "j \<in> g_id ` set cs" if "at_depth cs k j" for k j
    using that find_by_SomeD [of g_id j cs] by (cases k) force+
  then have "f ` {..n} \<subseteq> g_id ` set cs" using f by blast
  ultimately have "card {..n} \<le> card (g_id ` set cs)" by (metis card_image card_mono finite_imageI List.finite_set)
  also have "\<dots> \<le> length cs" by (metis card_image_le card_length List.finite_set order_trans)
  finally show ?thesis by simp
qed

lemma those_map_total: "\<forall>x \<in> set xs. f x \<noteq> None \<Longrightarrow> those (map f xs) \<noteq> None"
  by (induction xs) auto

lemma those_map_SomeD: "those (map f xs) = Some ys \<Longrightarrow> length ys = length xs \<and> (\<forall>i < length xs. f (xs ! i) = Some (ys ! i))"
  by (induction xs arbitrary: ys) (auto simp: nth_Cons split: option.splits nat.splits)

lemma those_map_eq: "those (map f xs) = Some ys \<Longrightarrow> ys = map (\<lambda>x. the (f x)) xs \<and> (\<forall>x \<in> set xs. f x \<noteq> None)"
  by (induction xs arbitrary: ys) (auto split: option.splits)

text \<open>The level of a parent is the depth of its children.\<close>

definition level :: "category_row list \<Rightarrow> string option \<Rightarrow> nat \<Rightarrow> bool" where
  "level cs p m \<longleftrightarrow> (case p of None \<Rightarrow> m = 0 | Some i \<Rightarrow> \<exists>k. m = Suc k \<and> at_depth cs k i)"

lemma level_child:
  "distinct (map g_id cs) \<Longrightarrow> level cs p m \<Longrightarrow> c \<in> set cs \<Longrightarrow> g_parentId c = p \<Longrightarrow> at_depth cs m (g_id c)"
  by (cases p) (auto simp: level_def find_by_distinct)

lemma level_Some: "at_depth cs m i \<Longrightarrow> level cs (Some i) (Suc m)"
  by (simp add: level_def)

lemma build_tree_total:
  "distinct (map g_id cs) \<Longrightarrow> level cs p m \<Longrightarrow> length cs < n + m \<Longrightarrow> build_tree n cs p \<noteq> None"
proof (induction n arbitrary: p m)
  case 0
  then show ?case using at_depth_bound by (fastforce simp: level_def split: option.splits)
next
  case (Suc n)
  have "build_tree n cs (Some (g_id c)) \<noteq> None" if "c \<in> set cs" "g_parentId c = p" for c
    by (rule Suc.IH [OF Suc.prems(1) level_Some])
      (use level_child [OF Suc.prems(1,2) that] Suc.prems(3) in auto)
  then have "\<forall>c \<in> set (filter (\<lambda>c. g_parentId c = p) cs). map_option (Node c) (build_tree n cs (Some (g_id c))) \<noteq> None"
    by auto
  then show ?case unfolding build_tree.simps by (rule those_map_total)
qed

fun nodes :: "cat_tree \<Rightarrow> category_row list" where
  "nodes (Node c ts) = c # concat (map nodes ts)"

definition forest_nodes :: "cat_tree list \<Rightarrow> category_row list" where
  "forest_nodes ts = concat (map nodes ts)"

lemma forest_nodes_step:
  assumes "build_tree (Suc n) cs p = Some ts"
  shows "forest_nodes ts =
    concat (map (\<lambda>c. c # forest_nodes (the (build_tree n cs (Some (g_id c))))) (filter (\<lambda>c. g_parentId c = p) cs))"
    "\<forall>c \<in> set cs. g_parentId c = p \<longrightarrow> build_tree n cs (Some (g_id c)) \<noteq> None"
proof -
  let ?f = "\<lambda>c. map_option (Node c) (build_tree n cs (Some (g_id c)))" and ?xs = "filter (\<lambda>c. g_parentId c = p) cs"
  have ts: "ts = map (\<lambda>x. the (?f x)) ?xs" and some: "\<forall>x \<in> set ?xs. ?f x \<noteq> None"
    using those_map_eq [of ?f ?xs ts] assms by simp_all
  have "nodes (the (?f x)) = x # forest_nodes (the (build_tree n cs (Some (g_id x))))" if "x \<in> set ?xs" for x
    using bspec [OF some that] by (cases "build_tree n cs (Some (g_id x))") (simp_all add: forest_nodes_def)
  then show "forest_nodes ts = concat (map (\<lambda>c. c # forest_nodes (the (build_tree n cs (Some (g_id c))))) ?xs)"
    unfolding ts forest_nodes_def map_map by (intro arg_cong [of _ _ concat] map_cong) simp_all
  show "\<forall>c \<in> set cs. g_parentId c = p \<longrightarrow> build_tree n cs (Some (g_id c)) \<noteq> None" using some by auto
qed

lemma set_forest_nodes:
  "build_tree n cs p = Some ts \<Longrightarrow> set (forest_nodes ts) = {c. under cs p c}"
proof (induction n arbitrary: p ts)
  case (Suc n)
  note st = forest_nodes_step [OF Suc.prems]
  have "set (forest_nodes (the (build_tree n cs (Some (g_id c))))) = {d. under cs (Some (g_id c)) d}"
    if "c \<in> set cs" "g_parentId c = p" for c
    using that st(2) Suc.IH by auto
  then show ?case unfolding st(1) by (subst under_cases) auto
qed simp

lemma distinct_concat_map:
  "distinct xs \<Longrightarrow> \<forall>x \<in> set xs. distinct (F x) \<Longrightarrow>
    \<forall>x \<in> set xs. \<forall>y \<in> set xs. x \<noteq> y \<longrightarrow> set (F x) \<inter> set (F y) = {} \<Longrightarrow> distinct (concat (map F xs))"
proof (induction xs)
  case (Cons x xs)
  then have "set (F x) \<inter> set (concat (map F xs)) = {}" by auto
  with Cons show ?case by (simp del: set_concat)
qed simp

lemma under_depth:
  "under cs (Some i) c \<Longrightarrow> distinct (map g_id cs) \<Longrightarrow> at_depth cs m i \<Longrightarrow>
    \<exists>j. at_depth cs (m + Suc j) (g_id c) \<and> anc cs (Suc j) (g_id c) = Some i"
proof (induction "Some i" c rule: under.induct)
  case (child c)
  then show ?case by (intro exI [of _ 0]) (simp add: find_by_distinct)
next
  case (grandchild d c)
  then obtain j where "at_depth cs (m + Suc j) (g_id d)" "anc cs (Suc j) (g_id d) = Some i" by blast
  with grandchild show ?case by (intro exI [of _ "Suc j"]) (simp add: find_by_distinct)
qed

lemma distinct_forest_nodes:
  "build_tree n cs p = Some ts \<Longrightarrow> distinct (map g_id cs) \<Longrightarrow> level cs p m \<Longrightarrow> distinct (forest_nodes ts)"
proof (induction n arbitrary: p ts m)
  case (Suc n)
  note st = forest_nodes_step [OF Suc.prems(1)]
  let ?F = "\<lambda>c. c # forest_nodes (the (build_tree n cs (Some (g_id c))))"
  have sub: "build_tree n cs (Some (g_id c)) = Some (the (build_tree n cs (Some (g_id c))))"
    and dep: "at_depth cs m (g_id c)" if "c \<in> set cs" "g_parentId c = p" for c
    using st(2) that level_child [OF Suc.prems(2,3)] by auto
  have up: "\<exists>j. at_depth cs (m + j) (g_id x) \<and> anc cs j (g_id x) = Some (g_id c)"
    if "c \<in> set cs" "g_parentId c = p" "x \<in> set (?F c)" for c x
  proof (cases "x = c")
    case True
    then show ?thesis using dep [OF that(1,2)] by (intro exI [of _ 0]) simp
  next
    case False
    then have "under cs (Some (g_id c)) x" using that set_forest_nodes [OF sub [OF that(1,2)]] by auto
    then show ?thesis using under_depth [OF _ Suc.prems(2) dep [OF that(1,2)]] by blast
  qed
  have dF: "distinct (?F c)" if "c \<in> set cs" "g_parentId c = p" for c
  proof -
    have "\<not> under cs (Some (g_id c)) c"
      using under_depth [OF _ Suc.prems(2) dep [OF that]] at_depth_unique [OF dep [OF that]] by fastforce
    then show ?thesis
      using Suc.IH [OF sub [OF that] Suc.prems(2) level_Some [OF dep [OF that]]] set_forest_nodes [OF sub [OF that]] by simp
  qed
  have eq: "c = d" if "c \<in> set cs" "g_parentId c = p" "d \<in> set cs" "g_parentId d = p" "x \<in> set (?F c)" "x \<in> set (?F d)" for c d x
  proof -
    note ups = up [OF that(1,2,5)] up [OF that(3,4,6)]
    obtain j j' where j: "at_depth cs (m + j) (g_id x)" "anc cs j (g_id x) = Some (g_id c)"
      "at_depth cs (m + j') (g_id x)" "anc cs j' (g_id x) = Some (g_id d)"
      using ups by blast
    then have "j = j'" using at_depth_unique [OF j(1) j(3)] by simp
    with j have "g_id c = g_id d" by simp
    with that(1,3) Suc.prems(2) show ?thesis by (auto simp: distinct_map dest: inj_onD)
  qed
  have disj: "set (?F c) \<inter> set (?F d) = {}"
    if "c \<noteq> d" "c \<in> set cs" "g_parentId c = p" "d \<in> set cs" "g_parentId d = p" for c d
    using eq [OF that(2-5)] that(1) by blast
  have "distinct cs" using Suc.prems(2) by (simp add: distinct_map)
  then show ?case
    unfolding st(1) by (intro distinct_concat_map ballI impI distinct_filter dF disj; simp)
qed simp

lemma build_tree_more: "build_tree n cs p = Some ts \<Longrightarrow> build_tree (n + k) cs p = Some ts"
proof (induction n arbitrary: p ts)
  case (Suc n)
  let ?xs = "filter (\<lambda>c. g_parentId c = p) cs"
  have "map_option (Node c) (build_tree (n + k) cs (Some (g_id c))) = map_option (Node c) (build_tree n cs (Some (g_id c)))"
    if "c \<in> set ?xs" for c
    using that forest_nodes_step(2) [OF Suc.prems] Suc.IH by auto
  then have "map (\<lambda>c. map_option (Node c) (build_tree (n + k) cs (Some (g_id c)))) ?xs =
      map (\<lambda>c. map_option (Node c) (build_tree n cs (Some (g_id c)))) ?xs" by (intro map_cong) simp_all
  then show ?case using Suc.prems unfolding add_Suc build_tree.simps by (simp only:)
qed simp

lemma active_categories_facts [simp]:
  "set (active_categories coll cs) = {c \<in> set cs. g_isActive c}"
  "distinct (map g_id cs) \<Longrightarrow> distinct (map g_id (active_categories coll cs))"
  "length (active_categories coll cs) \<le> length cs"
  by (auto simp: active_categories_def distinct_map inj_on_def)

subsection \<open>The cache and the table\<close>

definition fresh_category :: "category_row list \<Rightarrow> string \<Rightarrow> json res" where
  "fresh_category cs cid =
     (case find_by g_id cid cs of None \<Rightarrow> Inl category_not_found | Some c \<Rightarrow> Inr (category_detail cs c))"

definition category_key :: "string \<Rightarrow> bool" where
  "category_key key \<longleftrightarrow> key = ''categories:tree'' \<or> (\<exists>cid. key = category_cache_key cid)"

definition category_value :: "(string \<Rightarrow> nat) \<Rightarrow> category_row list \<Rightarrow> string \<Rightarrow> json \<Rightarrow> bool" where
  "category_value coll cs key v \<longleftrightarrow>
     key = ''categories:tree'' \<and> fresh_tree coll cs = Inr v \<or> (\<exists>cid. key = category_cache_key cid \<and> fresh_category cs cid = Inr v)"

lemma tree_key_apart [simp]: "category_cache_key cid \<noteq> ''categories:tree''" "''categories:tree'' \<noteq> category_cache_key cid"
  "category_cache_key i = category_cache_key j \<longleftrightarrow> i = j"
  by (simp_all add: category_cache_key_def)

lemma category_value_truthy: "category_value coll cs key v \<Longrightarrow> json_truthy v"
  by (auto simp: category_value_def fresh_tree_def fresh_category_def category_detail_def split: option.splits)

context redis_server
begin

text \<open>What is cached of the categories is what the table gives, listed under the tag, and not for
  longer than ten minutes.\<close>

definition coherent :: "(string \<Rightarrow> nat) \<Rightarrow> ms \<Rightarrow> 's cat_world \<Rightarrow> bool" where
  "coherent coll now w = coherent_cache category_key (category_value coll (cats w)) (\<lambda>_. {''categories''}) CATEGORY_TTL now
     (redis (cat_cache w))"

lemma coherent_cong:
  "redis (cat_cache w') = redis (cat_cache w) \<Longrightarrow> cats w' = cats w \<Longrightarrow> coherent coll now w' = coherent coll now w"
  by (simp add: coherent_def)

lemma coherent_store:
  assumes c: "coherent coll now w" and v: "category_value coll (cats w) key val"
    and tags: "''categories'' \<in> set tags" and ch: "redis ch = redis (cat_cache w)"
  shows "coherent coll now (w\<lparr>cat_cache := snd (cache_set now key val (Some CATEGORY_TTL) tags ch)\<rparr>)"
proof -
  have "0 < CATEGORY_TTL" by (simp add: CATEGORY_TTL_def)
  then show ?thesis
    using coherent_cache_set [OF c [unfolded coherent_def, folded ch]] v tags by (simp add: coherent_def)
qed

lemma coherent_evict:
  assumes c: "coherent coll now w" and tags: "''categories'' \<in> set tags"
  shows "coherent coll now (evict now tags (w\<lparr>cats := cs\<rparr>))"
proof -
  have "coherent_cache category_key (category_value coll cs) (\<lambda>_. {''categories''}) CATEGORY_TTL now
      (redis (snd (invalidate_by_tags now tags (cat_cache w))))"
    by (rule coherent_cache_evict [OF c [unfolded coherent_def]]) (simp_all add: tags)
  then show ?thesis by (simp add: coherent_def evict_def)
qed

end

text \<open>A run of requests, with their times.\<close>

datatype cat_op = ReadTree | ReadCategory string | CreateCategory string category_dto
  | UpdateCategory string category_update | RemoveCategory string

fun cat_step :: "(string \<Rightarrow> nat) \<Rightarrow> ms \<Rightarrow> cat_op \<Rightarrow> 's cat_world \<Rightarrow> 's cat_world" where
  "cat_step coll now ReadTree w = snd (get_category_tree coll now w)"
| "cat_step coll now (ReadCategory cid) w = snd (find_one_category now cid w)"
| "cat_step coll now (CreateCategory cid dto) w = snd (create_category now cid dto w)"
| "cat_step coll now (UpdateCategory cid u) w = snd (update_category now cid u w)"
| "cat_step coll now (RemoveCategory cid) w = snd (remove_category now cid w)"

fun cat_run :: "(string \<Rightarrow> nat) \<Rightarrow> ms \<Rightarrow> (ms \<times> cat_op) list \<Rightarrow> 's cat_world \<Rightarrow> ms \<times> 's cat_world" where
  "cat_run coll now [] w = (now, w)"
| "cat_run coll now ((t, a) # as) w = cat_run coll (max now t) as (cat_step coll (max now t) a w)"

context redis_server
begin

lemma get_category_tree_coherent:
  assumes "coherent coll now w"
  shows "fst (get_category_tree coll now w) = fresh_tree coll (cats w)" "coherent coll now (snd (get_category_tree coll now w))"
proof -
  obtain v ch where g: "cache_get now ''categories:tree'' None (cat_cache w) = (v, ch)" by fastforce
  have ch: "redis ch = redis (cat_cache w)" "v = JNull \<or> category_value coll (cats w) ''categories:tree'' v"
    using coherent_cache_get [OF assms [unfolded coherent_def] g] by (simp_all add: category_key_def)
  have c1: "coherent coll now (w\<lparr>cat_cache := ch\<rparr>)" using assms ch(1) by (simp cong: coherent_cong)
  show "fst (get_category_tree coll now w) = fresh_tree coll (cats w)"
    using ch(2) category_value_truthy [of coll "cats w" "''categories:tree''" v]
    by (auto simp: get_category_tree_def Let_def g category_value_def split: sum.split)
  show "coherent coll now (snd (get_category_tree coll now w))"
    using c1 coherent_store [OF assms _ _ ch(1)]
    by (auto simp: get_category_tree_def Let_def g category_value_def split: sum.split)
qed

lemma find_one_category_coherent:
  assumes "coherent coll now w"
  shows "fst (find_one_category now cid w) = fresh_category (cats w) cid" "coherent coll now (snd (find_one_category now cid w))"
proof -
  let ?key = "category_cache_key cid"
  obtain v ch where g: "cache_get now ?key None (cat_cache w) = (v, ch)" by fastforce
  have ch: "redis ch = redis (cat_cache w)" "v = JNull \<or> category_value coll (cats w) ?key v"
    using coherent_cache_get [OF assms [unfolded coherent_def] g] by (auto simp: category_key_def)
  have c1: "coherent coll now (w\<lparr>cat_cache := ch\<rparr>)" using assms ch(1) by (simp cong: coherent_cong)
  show "fst (find_one_category now cid w) = fresh_category (cats w) cid"
    using ch(2) category_value_truthy [of coll "cats w" ?key v]
    by (auto simp: find_one_category_def Let_def g category_value_def fresh_category_def tree_key_apart split: option.split)
  show "coherent coll now (snd (find_one_category now cid w))"
    using c1 coherent_store [OF assms _ _ ch(1), of ?key]
    by (auto simp: find_one_category_def Let_def g category_value_def fresh_category_def split: option.split)
qed

lemma cat_step_coherent: "coherent coll now w \<Longrightarrow> coherent coll now (cat_step coll now a w)"
  using get_category_tree_coherent(2) find_one_category_coherent(2)
  by (cases a) (simp_all add: create_category_def update_category_def remove_category_def Let_def coherent_evict
      update_tags_def split: sum.split option.split)

lemma coherent_later: "coherent coll now w \<Longrightarrow> now \<le> t \<Longrightarrow> coherent coll t w"
  unfolding coherent_def by (rule coherent_cache_later)

lemma cat_run_coherent: "coherent coll now w \<Longrightarrow> cat_run coll now as w = (t, w') \<Longrightarrow> coherent coll t w'"
proof (induction as arbitrary: now w)
  case (Cons ta as)
  then show ?case using cat_step_coherent [OF coherent_later [OF Cons.prems(1) max.cobounded1 [of now "fst ta"]]] by (cases ta) auto
qed simp

end

subsection \<open>Cycles\<close>

lemma under_cycle_closed:
  assumes "distinct (map g_id cs)" "under cs (Some a) b'" "g_id b' = a"
    and sub: "set acs \<subseteq> set cs"
  shows "\<not> (under acs None c \<and> under cs (Some a) c)"
proof
  assume "under acs None c \<and> under cs (Some a) c"
  then have "under acs None c" "under cs (Some a) c" by simp_all
  then show False
  proof (induction "None :: string option" c rule: under.induct)
    case (child c)
    from child(3) show ?case by (cases rule: under.cases) (use child(2) in simp_all)
  next
    case (grandchild d c)
    have same: "d = d'" if "d' \<in> set cs" "g_id d = g_id d'" for d'
      using assms(1) that under_in [OF grandchild(1)] sub by (auto simp: distinct_map dest: inj_onD)
    from grandchild(5) show ?case
    proof (cases rule: under.cases)
      case child
      then have "d = b'" using same [OF under_in [OF assms(2)]] assms(3) grandchild(4) by simp
      then show ?thesis using grandchild(2) assms(2) by simp
    next
      case (grandchild d')
      then have "d = d'" using same under_in \<open>g_parentId c = Some (g_id d)\<close> by simp
      then show ?thesis using \<open>under cs (Some a) d \<Longrightarrow> False\<close> grandchild(1) by simp
    qed
  qed
qed

subsection \<open>Properties\<close>

text \<open>C35. Building the tree always ends, whatever the parents of the categories are, cycles included: the
  recursion is never deeper than the number of categories, and the tree holds exactly the active
  categories that hang under a root over active categories, each once.\<close>

theorem category_tree_terminates:
  assumes "distinct (map g_id cs)" "length cs < fuel"
  shows "\<exists>ts. build_tree fuel (active_categories coll cs) None = Some ts \<and>
    fresh_tree coll cs = Inr (JArr (map tree_json ts)) \<and>
    set (forest_nodes ts) = {c. under (active_categories coll cs) None c} \<and> distinct (forest_nodes ts)"
proof -
  let ?acs = "active_categories coll cs"
  have d: "distinct (map g_id ?acs)" and l: "level ?acs None 0" using assms(1) by (simp_all add: level_def)
  have len: "length ?acs < length cs + 1 + 0" using active_categories_facts(3) [of coll cs] by linarith
  obtain ts where ts: "build_tree (length cs + 1) ?acs None = Some ts"
    using build_tree_total [OF d l len] by blast
  have "build_tree fuel ?acs None = Some ts"
    using build_tree_more [OF ts, of "fuel - (length cs + 1)"] assms(2) by simp
  with ts show ?thesis
    using set_forest_nodes [OF ts] distinct_forest_nodes [OF ts d l] by (auto simp: fresh_tree_def)
qed

definition sample_category :: "string \<Rightarrow> string option \<Rightarrow> category_row" where
  "sample_category i p = \<lparr>g_id = i, g_name = i, g_slug = i, g_description = None, g_imageUrl = None, g_parentId = p,
     g_isActive = True, g_sortOrder = 0, g_createdAt = 0, g_updatedAt = 0\<rparr>"

lemma category_tree_terminates_witness:
  "\<exists>ts. build_tree 4 (active_categories length [sample_category ''a'' (Some ''b''), sample_category ''b'' (Some ''a''),
       sample_category ''r'' None]) None = Some ts \<and> distinct (forest_nodes ts)"
  using category_tree_terminates [of "[sample_category ''a'' (Some ''b''), sample_category ''b'' (Some ''a''), sample_category ''r'' None]" 4 length]
  by (auto simp: sample_category_def)

text \<open>C3. The cache is invisible: after any requests at any times, starting with nothing of the
  categories cached, reading the tree or a category answers what the table gives without a cache.\<close>

theorem category_reads_fresh:
  fixes w :: "'s cat_world"
  assumes "redis_server c view" "redis_server.up c (redis (cat_cache w))"
    and "\<forall>u k. redis_get (redis (cat_cache w)) u (build_key k None) = JNull"
    and "\<forall>u t. redis_get (redis (cat_cache w)) u (build_tag_key t) = JNull"
    and "cat_run coll start as w = (now, w')"
  shows "fst (get_category_tree coll now w') = fresh_tree coll (cats w') \<and>
    fst (find_one_category now cid w') = fresh_category (cats w') cid"
proof -
  have "redis_server.coherent c coll start w"
    using assms(2-4) by (simp add: redis_server.coherent_def [OF assms(1)] redis_server.coherent_cache_empty [OF assms(1)])
  then have "redis_server.coherent c coll now w'" using assms(5) by (rule redis_server.cat_run_coherent [OF assms(1)])
  then show ?thesis
    using redis_server.get_category_tree_coherent(1) [OF assms(1)] redis_server.find_one_category_coherent(1) [OF assms(1)]
    by blast
qed

definition sample_world :: "category_row list \<Rightarrow> mem cat_world" where
  "sample_world cs = \<lparr>cats = cs, cat_products = [], cat_cache = mem_cache\<rparr>"

lemma category_reads_fresh_witness:
  "\<exists>now w'. cat_run length 0 [(1, ReadCategory ''r''), (2, RemoveCategory ''r'')] (sample_world [sample_category ''r'' None]) = (now, w') \<and>
     fst (find_one_category now ''r'' w') = fresh_category (cats w') ''r''"
proof -
  let ?w = "sample_world [sample_category ''r'' None]"
  obtain now w' where r: "cat_run length 0 [(1, ReadCategory ''r''), (2, RemoveCategory ''r'')] ?w = (now, w')" by fastforce
  show ?thesis
    using category_reads_fresh [OF mem.redis_server_axioms _ _ _ r, of "''r''"] r
    by (simp add: sample_world_def mem_get_null)
qed

text \<open>An update can close a cycle, since only a category's own id is refused as its parent: moving a
  category under one of its children is accepted, and then neither it nor anything below it is in
  the tree, whatever it was before.\<close>

theorem update_closes_cycle:
  assumes "distinct (map g_id (cats w))" "find_by g_id a (cats w) = Some ca" "find_by g_id b (cats w) = Some cb"
    and "g_parentId cb = Some a" "a \<noteq> b" "b \<noteq> []"
    and "u = \<lparr>ud_name = None, ud_slug = None, ud_description = None, ud_imageUrl = None, ud_parentId = Some (Some b),
      ud_order = None, ud_isActive = None\<rparr>"
    and "update_category now a u w = (r, w')"
  shows "(\<exists>j. r = Inr j) \<and> (\<forall>c. g_id c = a \<or> g_id c = b \<or> under (cats w') (Some a) c \<longrightarrow>
    \<not> under (active_categories coll (cats w')) None c)"
proof -
  let ?f = "apply_category_update now u"
  have w': "(\<exists>j. r = Inr j)" "cats w' = update_by g_id a ?f (cats w)"
    using assms(2,3,5-8) by (auto simp: update_category_def Let_def or_old_def truthy_str_def db_checks_def evict_def)
  have keys: "map g_id (cats w') = map g_id (cats w)"
    unfolding w'(2) by (rule keys_update_by) (simp add: apply_category_update_def)
  have d: "distinct (map g_id (cats w'))" using assms(1) keys by simp
  have fa: "find_by g_id a (cats w') = Some (?f ca)" and fb: "find_by g_id b (cats w') = Some cb"
    using assms(2,3,5) by (simp_all add: w'(2) find_by_update_by apply_category_update_def)
  have ids: "g_id ca = a" "g_id cb = b" using find_by_SomeD [OF assms(2)] find_by_SomeD [OF assms(3)] by simp_all
  have b: "under (cats w') (Some a) cb"
    using find_by_SomeD [OF fb] assms(4) by (intro under.child) simp_all
  have a: "under (cats w') (Some a) (?f ca)"
    by (rule under.grandchild [OF b]) (use find_by_SomeD [OF fa] in \<open>simp_all add: apply_category_update_def or_old_def assms(7) ids\<close>)
  have sub: "set (active_categories coll (cats w')) \<subseteq> set (cats w')" by auto
  have "g_id (?f ca) = a" by (simp add: apply_category_update_def ids)
  note closed = under_cycle_closed [OF d a this sub]
  have "c = ?f ca" if "c \<in> set (cats w')" "g_id c = a" for c
    using that d find_by_SomeD [OF fa] by (auto simp: distinct_map dest: inj_onD)
  moreover have "c = cb" if "c \<in> set (cats w')" "g_id c = b" for c
    using that d find_by_SomeD [OF fb] by (auto simp: distinct_map dest: inj_onD)
  ultimately have "under (cats w') (Some a) c" if "g_id c = a \<or> g_id c = b" "c \<in> set (cats w')" for c
    using that a b by blast
  then have hang: "under (cats w') (Some a) c"
    if "g_id c = a \<or> g_id c = b \<or> under (cats w') (Some a) c" "under (active_categories coll (cats w')) None c" for c
    using that under_in [OF that(2)] sub by auto
  then show ?thesis using w'(1) closed by blast
qed

lemma update_closes_cycle_witness:
  "\<exists>r w'. update_category 5 ''a'' \<lparr>ud_name = None, ud_slug = None, ud_description = None, ud_imageUrl = None,
      ud_parentId = Some (Some ''b''), ud_order = None, ud_isActive = None\<rparr>
      (sample_world [sample_category ''a'' None, sample_category ''b'' (Some ''a'')]) = (r, w') \<and> (\<exists>j. r = Inr j)"
proof -
  let ?u = "\<lparr>ud_name = None, ud_slug = None, ud_description = None, ud_imageUrl = None,
      ud_parentId = Some (Some ''b''), ud_order = None, ud_isActive = None\<rparr>"
  let ?w = "sample_world [sample_category ''a'' None, sample_category ''b'' (Some ''a'')]"
  obtain r w' where r: "update_category 5 ''a'' ?u ?w = (r, w')" by fastforce
  show ?thesis
    using update_closes_cycle [OF _ _ _ _ _ _ refl r] r by (simp add: sample_world_def sample_category_def)
qed

text \<open>The products of a category are filtered after paging: no answer has more than one page in its
  meta data, and when none of the newest \<open>limit\<close> active products is in the category the first page
  is empty with a total of 0, however many products it has.\<close>

theorem category_products_one_page:
  assumes "1 \<le> lmt" "get_category_products cid page lmt w = Inr pg"
  shows "cpp_totalPages pg \<le> 1 \<and> cpp_total pg \<le> lmt \<and>
    (page = 1 \<longrightarrow> (\<forall>p \<in> set (take (nat lmt) (sort_by (\<lambda>a b. cp_createdAt b \<le> cp_createdAt a) (filter cp_isActive (cat_products w)))).
       \<not> json_array_includes (cp_categories p) cid) \<longrightarrow> cpp_data pg = [] \<and> cpp_total pg = 0)"
proof -
  let ?ps = "page_rows page lmt (sort_by (\<lambda>a b. cp_createdAt b \<le> cp_createdAt a) (filter cp_isActive (cat_products w)))"
  let ?fs = "filter (\<lambda>p. json_array_includes (cp_categories p) cid) ?ps"
  have pg: "pg = \<lparr>cpp_data = ?fs, cpp_total = int (length ?fs), cpp_totalPages = total_pages (int (length ?fs)) lmt\<rparr>"
    using assms(2) by (auto simp: get_category_products_def Let_def split: option.splits)
  have "length ?fs \<le> length ?ps" by simp
  also have "\<dots> \<le> nat lmt" by (simp add: page_rows_def)
  finally have n: "int (length ?fs) \<le> lmt" using assms(1) by linarith
  have "total_pages (int (length ?fs)) lmt \<le> 1"
    using n assms(1) by (simp add: total_pages_def ceil_div_def Fract_of_int_quotient ceiling_le_one)
  then show ?thesis using n by (auto simp: pg page_rows_def filter_empty_conv)
qed

lemma category_products_one_page_witness:
  "\<exists>pg. get_category_products ''r'' 1 1 ((sample_world [sample_category ''r'' None])\<lparr>cat_products :=
     [\<lparr>cp_id = ''new'', cp_isActive = True, cp_categories = JArr [], cp_createdAt = 2\<rparr>,
      \<lparr>cp_id = ''old'', cp_isActive = True, cp_categories = JArr [j_str ''r''], cp_createdAt = 1\<rparr>]\<rparr>)
   = Inr pg \<and> cpp_data pg = [] \<and> cpp_total pg = 0" (is "\<exists>pg. ?l = Inr pg \<and> _")
proof -
  obtain pg where l: "?l = Inr pg" by (simp add: get_category_products_def sample_world_def sample_category_def Let_def)
  then show ?thesis
    using category_products_one_page [OF _ l] by (simp add: sort_by_def json_array_includes_def)
qed

end
