(* ===== verification/Js_Value.thy ===== *)
theory Js_Value
  imports Prelude "HOL-Library.Multiset" "HOL-Library.List_Lexorder" "HOL-Library.Char_ord"
begin

section \<open>Values of JavaScript\<close>

text \<open>
  The numbers \<open>Number\<close> gives, the values a JSON column or body holds, their conversions to text and
  number, and \<open>JSON.stringify\<close>. What has no definition in exact arithmetic, the decimal text of a
  number and its inverse, and regular expressions and digests, is the argument \<open>js\<close>. Texts compare by
  their bytes, as the order of \<open>List_Lexorder\<close> does.
\<close>

subsection \<open>Numbers\<close>

datatype jnum = NaN | PosInf | NegInf | Fin rat

fun is_fin :: "jnum \<Rightarrow> bool" where "is_fin (Fin q) = True" | "is_fin _ = False"

fun num_less :: "jnum \<Rightarrow> rat \<Rightarrow> bool" where
  "num_less NaN b = False" | "num_less PosInf b = False" | "num_less NegInf b = True" | "num_less (Fin a) b = (a < b)"

fun num_greater :: "jnum \<Rightarrow> rat \<Rightarrow> bool" where
  "num_greater NaN b = False" | "num_greater PosInf b = True" | "num_greater NegInf b = False" | "num_greater (Fin a) b = (a > b)"

subsection \<open>JSON values\<close>

datatype jval = VNull | VBool bool | VNum rat | VText string | VArr "jval list" | VObj "(string \<times> jval) list"

text \<open>\<open>en_regex\<close> is \<open>None\<close> where the constructor throws.\<close>

record js_engine =
  en_num :: "rat \<Rightarrow> string"
  en_number :: "string \<Rightarrow> jnum"
  en_regex :: "jval option \<Rightarrow> (string \<Rightarrow> bool) option"
  en_sha :: "string \<Rightarrow> string"

text \<open>\<open>String(v)\<close> and \<open>Number(v)\<close>; in the text of an array \<open>null\<close> is empty.\<close>

fun jval_text :: "js_engine \<Rightarrow> jval \<Rightarrow> string" where
  "jval_text js VNull = ''null''"
| "jval_text js (VBool b) = (if b then ''true'' else ''false'')"
| "jval_text js (VNum q) = en_num js q"
| "jval_text js (VText s) = s"
| "jval_text js (VArr vs) = join_with '','' (map (\<lambda>v. if v = VNull then [] else jval_text js v) vs)"
| "jval_text js (VObj _) = ''[object Object]''"

fun jval_number :: "js_engine \<Rightarrow> jval \<Rightarrow> jnum" where
  "jval_number js VNull = Fin 0"
| "jval_number js (VBool b) = Fin (if b then 1 else 0)"
| "jval_number js (VNum q) = Fin q"
| "jval_number js v = en_number js (jval_text js v)"

text \<open>\<open>===\<close> of two values that were parsed apart: objects and arrays are never identical.\<close>

fun strict_eq :: "jval \<Rightarrow> jval \<Rightarrow> bool" where
  "strict_eq (VArr _) _ = False"
| "strict_eq (VObj _) _ = False"
| "strict_eq v w = (v = w)"

text \<open>The value of a property, \<open>None\<close> for \<open>undefined\<close>; names of inherited members are not used.\<close>

definition index_key :: "string \<Rightarrow> bool" where
  "index_key s \<longleftrightarrow> s \<noteq> [] \<and> list_all is_digit_char s \<and> (s = ''0'' \<or> hd s \<noteq> CHR ''0'') \<and> digits_value 0 s < 4294967295"

fun prop_of :: "jval \<Rightarrow> string \<Rightarrow> jval option" where
  "prop_of (VObj fs) k = map_of fs k"
| "prop_of (VArr vs) k =
     (if k = ''length'' then Some (VNum (of_nat (length vs)))
      else if index_key k \<and> digits_value 0 k < int (length vs) then Some (vs ! nat (digits_value 0 k)) else None)"
| "prop_of (VText s) k =
     (if k = ''length'' then Some (VNum (of_nat (length s)))
      else if index_key k \<and> digits_value 0 k < int (length s) then Some (VText [s ! nat (digits_value 0 k)]) else None)"
| "prop_of _ k = None"

subsection \<open>\<open>JSON.stringify\<close>\<close>

text \<open>The keys of an object come as numbers in ascending order and then as they were added.\<close>

definition own_order :: "(string \<times> 'a) list \<Rightarrow> (string \<times> 'a) list" where
  "own_order fs = sort_key (\<lambda>f. digits_value 0 (fst f)) (filter (\<lambda>f. index_key (fst f)) fs) @ filter (\<lambda>f. \<not> index_key (fst f)) fs"

definition quote_char :: "char \<Rightarrow> string" where
  "quote_char c = (let n = (of_char c :: nat); b = char_of (92 :: nat) in
     if n = 34 \<or> n = 92 then [b, c]
     else if n = 8 then [b, CHR ''b''] else if n = 9 then [b, CHR ''t''] else if n = 10 then [b, CHR ''n'']
     else if n = 12 then [b, CHR ''f''] else if n = 13 then [b, CHR ''r'']
     else if n < 32 then [b] @ ''u00'' @ [char_of (48 + n div 16), if n mod 16 < 10 then char_of (48 + n mod 16) else char_of (87 + n mod 16)]
     else [c])"

definition quote_text :: "string \<Rightarrow> string" where
  "quote_text s = [char_of (34 :: nat)] @ concat (map quote_char s) @ [char_of (34 :: nat)]"

fun stringify :: "js_engine \<Rightarrow> jval \<Rightarrow> string" where
  "stringify js VNull = ''null''"
| "stringify js (VBool b) = (if b then ''true'' else ''false'')"
| "stringify js (VNum q) = en_num js q"
| "stringify js (VText s) = quote_text s"
| "stringify js (VArr vs) = ''['' @ join_with '','' (map (stringify js) vs) @ '']''"
| "stringify js (VObj fs) = [CHR 0x7B] @ join_with '',''
     (map (\<lambda>(k, t). quote_text k @ '':'' @ t) (own_order (map (\<lambda>(k, v). (k, stringify js v)) fs))) @ [CHR 0x7D]"

text \<open>A replacer that rebuilds every object with its keys sorted; a key \<open>__proto__\<close> does not survive the
  assignment to a fresh object.\<close>

fun sorted_keys :: "jval \<Rightarrow> jval" where
  "sorted_keys (VArr vs) = VArr (map sorted_keys vs)"
| "sorted_keys (VObj fs) = VObj (filter (\<lambda>f. fst f \<noteq> ''__proto__'') (sort_key fst (map (\<lambda>(k, v). (k, sorted_keys v)) fs)))"
| "sorted_keys v = v"

definition stable_stringify :: "js_engine \<Rightarrow> jval \<Rightarrow> string" where
  "stable_stringify js v = stringify js (sorted_keys v)"

text \<open>The same value written with its keys in another order, at any depth.\<close>

inductive same_value :: "jval \<Rightarrow> jval \<Rightarrow> bool" where
  same_refl: "same_value v v"
| same_arr: "list_all2 same_value vs ws \<Longrightarrow> same_value (VArr vs) (VArr ws)"
| same_obj: "list_all2 (\<lambda>f g. fst f = fst g \<and> same_value (snd f) (snd g)) fs gs \<Longrightarrow> distinct (map fst fs) \<Longrightarrow>
    mset gs = mset hs \<Longrightarrow> same_value (VObj fs) (VObj hs)"

lemma same_value_sorted: "same_value v w \<Longrightarrow> sorted_keys v = sorted_keys w"
proof (induction rule: same_value.induct)
  case (same_arr vs ws)
  then have "list_all2 (\<lambda>v w. sorted_keys v = sorted_keys w) vs ws" by (rule list_all2_mono) simp
  then have "map sorted_keys vs = map sorted_keys ws" by (induction rule: list_all2_induct) auto
  then show ?case by simp
next
  case (same_obj fs gs hs)
  let ?m = "map (\<lambda>(k, v). (k, sorted_keys v))"
  from same_obj.IH have "list_all2 (\<lambda>f g. fst f = fst g \<and> sorted_keys (snd f) = sorted_keys (snd g)) fs gs"
    by (rule list_all2_mono) auto
  then have m: "?m fs = ?m gs" and d: "map fst fs = map fst gs" by (induction rule: list_all2_induct) auto
  have h: "distinct (map fst hs)"
    using same_obj.hyps d by (metis mset_eq_imp_distinct_iff mset_map)
  have "sort_key fst (?m gs) = sort_key fst (?m hs)"
  proof (rule sort_key_inj_key_eq)
    show "mset (?m gs) = mset (sort_key fst (?m hs))" using same_obj.hyps by simp
    have "distinct (map fst (?m gs))" using same_obj.hyps d by (simp add: comp_def case_prod_beta)
    then show "inj_on fst (set (?m gs))" by (auto simp: distinct_map inj_on_def)
  qed simp
  with m show ?case by simp
qed simp

lemma stable_stringify_same: "same_value v w \<Longrightarrow> stable_stringify js v = stable_stringify js w"
  by (simp add: stable_stringify_def same_value_sorted)

end
