(* ===== verification/Import_Validation.thy ===== *)
theory Import_Validation
  imports Js_Value
begin

section \<open>Validation of imported records\<close>

text \<open>
  \<open>modules/import-export/services/validation.service.ts\<close> with the rule types of
  \<open>validators/validation.types.ts\<close>. A cell is a JavaScript value as CSV and Excel readers deliver
  them, or a \<open>Date\<close> that the \<open>transformData\<close> of an importer made of one, of a time or invalid. What the source takes from the engine and what has no definition in ASCII text, the
  conversions between numbers, dates and text, \<open>Date.parse\<close>, \<open>new URL\<close>, \<open>JSON.parse\<close>, is the argument
  \<open>js\<close>; the database is the argument \<open>lookup\<close>, an error or whether the row exists, by lower-case
  model name, field and value. A regular expression or callback of a rule is a function of the
  rule, with \<open>None\<close> where it throws.
\<close>

subsection \<open>Values\<close>

datatype cell = Undefined | Null | Boolean bool | Number rat | Text string | Array "cell list" | Object
  | Date "ms option"

record js_lib =
  num_text :: "rat \<Rightarrow> string"
  array_text :: "cell list \<Rightarrow> string"
  date_text :: "ms option \<Rightarrow> string"
  text_num :: "string \<Rightarrow> jnum"
  float_num :: "string \<Rightarrow> jnum"
  date_ok :: "string \<Rightarrow> bool"
  url_ok :: "string \<Rightarrow> bool"
  json_ok :: "string \<Rightarrow> bool"

text \<open>\<open>String(v)\<close> and \<open>Number(v)\<close>.\<close>

fun cell_text :: "js_lib \<Rightarrow> cell \<Rightarrow> string" where
  "cell_text js Undefined = ''undefined''"
| "cell_text js Null = ''null''"
| "cell_text js (Boolean b) = (if b then ''true'' else ''false'')"
| "cell_text js (Number q) = num_text js q"
| "cell_text js (Text s) = s"
| "cell_text js (Array xs) = array_text js xs"
| "cell_text js Object = ''[object Object]''"
| "cell_text js (Date t) = date_text js t"

fun cell_number :: "js_lib \<Rightarrow> cell \<Rightarrow> jnum" where
  "cell_number js Undefined = NaN"
| "cell_number js Null = Fin 0"
| "cell_number js (Boolean b) = Fin (if b then 1 else 0)"
| "cell_number js (Number q) = Fin q"
| "cell_number js (Date t) = (case t of None \<Rightarrow> NaN | Some n \<Rightarrow> Fin (of_int n))"
| "cell_number js v = text_num js (cell_text js v)"

definition nullish :: "cell \<Rightarrow> bool" where "nullish v \<longleftrightarrow> v = Null \<or> v = Undefined"

definition blank :: "cell \<Rightarrow> bool" where "blank v \<longleftrightarrow> nullish v \<or> v = Text []"

type_synonym cells = "(string \<times> cell) list"

definition field_value :: "cells \<Rightarrow> string \<Rightarrow> cell" where
  "field_value rec f = (case map_of rec f of None \<Rightarrow> Undefined | Some v \<Rightarrow> v)"

subsection \<open>Rules and reports\<close>

datatype data_type = DT_STRING | DT_NUMBER | DT_INTEGER | DT_BOOLEAN | DT_DATE | DT_DATETIME
  | DT_EMAIL | DT_PHONE | DT_URL | DT_JSON | DT_ARRAY | DT_DECIMAL

fun data_type_text :: "data_type \<Rightarrow> string" where
  "data_type_text DT_STRING = ''STRING''" | "data_type_text DT_NUMBER = ''NUMBER''"
| "data_type_text DT_INTEGER = ''INTEGER''" | "data_type_text DT_BOOLEAN = ''BOOLEAN''"
| "data_type_text DT_DATE = ''DATE''" | "data_type_text DT_DATETIME = ''DATETIME''"
| "data_type_text DT_EMAIL = ''EMAIL''" | "data_type_text DT_PHONE = ''PHONE''"
| "data_type_text DT_URL = ''URL''" | "data_type_text DT_JSON = ''JSON''"
| "data_type_text DT_ARRAY = ''ARRAY''" | "data_type_text DT_DECIMAL = ''DECIMAL''"

datatype severity = ERROR | WARNING

record rule_base =
  rb_field :: string
  rb_message :: "string option"
  rb_severity :: "severity option"

record range_bounds =
  r_min :: "rat option"
  r_max :: "rat option"
  r_minInclusive :: bool
  r_maxInclusive :: bool

datatype rule =
    Required rule_base
  | TypeRule rule_base data_type bool
  | Format rule_base data_type
  | Range rule_base range_bounds
  | Length rule_base "nat option" "nat option"
  | Unique rule_base bool
  | ForeignKey rule_base string string bool
  | Enum rule_base "cell list" bool
  | Pattern rule_base "(string \<Rightarrow> bool) option" string
  | Custom rule_base "cell \<Rightarrow> cells \<Rightarrow> string + bool"
  | Conditional rule_base "cells \<Rightarrow> string + bool" "rule list"

record verror =
  e_row :: int
  e_field :: string
  e_severity :: severity
  e_code :: string
  e_message :: string
  e_suggestion :: string
  e_originalValue :: cell
  e_expected :: "string option"

record voptions =
  stopOnFirstError :: bool
  maxErrors :: "int option"
  validateUnique :: bool
  validateForeignKeys :: bool

record vcontext =
  existingData :: "string \<rightharpoonup> cell list"
  fk_cache :: "(string \<rightharpoonup> bool) option"

definition severity_or :: "rule_base \<Rightarrow> severity" where
  "severity_or b = (case rb_severity b of None \<Rightarrow> ERROR | Some s \<Rightarrow> s)"

definition get_suggestion :: "string \<Rightarrow> string" where
  "get_suggestion code = (case map_of
     [(''REQUIRED_FIELD'', ''Provide a non-empty value''),
      (''TYPE_MISMATCH'', ''Ensure the value matches the expected data type''),
      (''INVALID_FORMAT'', ''Check the format of the value''),
      (''VALUE_TOO_SMALL'', ''Increase the value''),
      (''VALUE_TOO_LARGE'', ''Decrease the value''),
      (''STRING_TOO_SHORT'', ''Add more characters''),
      (''STRING_TOO_LONG'', ''Remove some characters''),
      (''DUPLICATE_VALUE'', ''Use a unique value''),
      (''FOREIGN_KEY_NOT_FOUND'', ''Ensure the referenced record exists''),
      (''INVALID_ENUM_VALUE'', ''Use one of the allowed values''),
      (''PATTERN_MISMATCH'', ''Check the format requirements'')] code of
      Some t \<Rightarrow> t | None \<Rightarrow> ''Review the value and try again'')"

definition create_error :: "int \<Rightarrow> string \<Rightarrow> string \<Rightarrow> string \<Rightarrow> severity \<Rightarrow> cell \<Rightarrow> string option \<Rightarrow> verror" where
  "create_error row f code msg sev orig expected =
     \<lparr>e_row = row, e_field = f, e_severity = sev, e_code = code, e_message = msg,
      e_suggestion = get_suggestion code, e_originalValue = orig, e_expected = expected\<rparr>"

subsection \<open>Rules that look at the value only\<close>

definition validate_required :: "int \<Rightarrow> rule_base \<Rightarrow> cell \<Rightarrow> verror list" where
  "validate_required row b v =
     (if blank v then [\<lparr>e_row = row, e_field = rb_field b, e_severity = severity_or b, e_code = ''REQUIRED_FIELD'',
        e_message = str_or (rb_message b) (rb_field b @ '' is required''),
        e_suggestion = ''Provide a non-empty value for this field'', e_originalValue = v, e_expected = None\<rparr>]
      else [])"

fun type_ok :: "js_lib \<Rightarrow> data_type \<Rightarrow> cell \<Rightarrow> bool" where
  "type_ok js DT_STRING v = (case v of Text _ \<Rightarrow> True | _ \<Rightarrow> False)"
| "type_ok js DT_NUMBER v = (float_num js (cell_text js v) \<noteq> NaN \<and> is_fin (cell_number js v))"
| "type_ok js DT_DECIMAL v = (float_num js (cell_text js v) \<noteq> NaN \<and> is_fin (cell_number js v))"
| "type_ok js DT_INTEGER v = (case cell_number js v of Fin q \<Rightarrow> of_int \<lfloor>q\<rfloor> = q | _ \<Rightarrow> False)"
| "type_ok js DT_BOOLEAN v = (case v of Boolean _ \<Rightarrow> True
     | Text s \<Rightarrow> s \<in> {''true'', ''false'', ''1'', ''0''} | Number q \<Rightarrow> q = 1 \<or> q = 0 | _ \<Rightarrow> False)"
| "type_ok js DT_DATE v = date_ok js (cell_text js v)"
| "type_ok js DT_DATETIME v = date_ok js (cell_text js v)"
| "type_ok js DT_ARRAY v = (case v of Array _ \<Rightarrow> True | Text s \<Rightarrow> starts_with s ''['' | _ \<Rightarrow> False)"
| "type_ok js DT_JSON v = (case v of Array _ \<Rightarrow> True | Object \<Rightarrow> True | Date _ \<Rightarrow> True | Text s \<Rightarrow> json_ok js s | _ \<Rightarrow> False)"
| "type_ok js _ v = True"

definition validate_type :: "js_lib \<Rightarrow> int \<Rightarrow> rule_base \<Rightarrow> data_type \<Rightarrow> bool \<Rightarrow> cell \<Rightarrow> verror list" where
  "validate_type js row b dt allowNull v =
     (if nullish v \<and> allowNull then []
      else if nullish v then [create_error row (rb_field b) ''TYPE_MISMATCH''
        (str_or (rb_message b) (rb_field b @ '' cannot be null'')) (severity_or b) v (Some (''Non-null '' @ data_type_text dt))]
      else if \<not> type_ok js dt v then [create_error row (rb_field b) ''TYPE_MISMATCH''
        (str_or (rb_message b) (rb_field b @ '' must be of type '' @ data_type_text dt)) (severity_or b) v (Some (data_type_text dt))]
      else [])"

text \<open>\<open>\s\<close> below 256, and \<open>^[^\s@]+@[^\s@]+\.[^\s@]+$\<close>: one at sign with something before it, and
  a dot after it that is neither the first nor the last character there.\<close>

definition is_space :: "char \<Rightarrow> bool" where
  "is_space c \<longleftrightarrow> (of_char c :: nat) \<in> {9, 10, 11, 12, 13, 32, 160}"

definition email_ok :: "string \<Rightarrow> bool" where
  "email_ok s = (list_all (\<lambda>c. \<not> is_space c) s \<and>
     (case split_on CHR ''@'' s of [a, d] \<Rightarrow> a \<noteq> [] \<and> CHR ''.'' \<in> set (butlast (tl d)) | _ \<Rightarrow> False))"

text \<open>A sequence of character classes, each from \<open>lo\<close> to \<open>hi\<close> times.\<close>

fun match_classes :: "((char \<Rightarrow> bool) \<times> nat \<times> nat) list \<Rightarrow> string \<Rightarrow> bool" where
  "match_classes [] s = (s = [])"
| "match_classes ((P, lo, hi) # ps) s =
     list_ex (\<lambda>k. k \<le> length s \<and> list_all P (take k s) \<and> match_classes ps (drop k s)) [lo..<hi + 1]"

definition phone_ok :: "string \<Rightarrow> bool" where
  "phone_ok = match_classes
     [(\<lambda>c. c = CHR ''+'', 0, 1), (\<lambda>c. c = CHR ''('', 0, 1), (is_digit_char, 1, 4), (\<lambda>c. c = CHR '')'', 0, 1),
      (\<lambda>c. c = CHR ''-'' \<or> is_space c \<or> c = CHR ''.'', 0, 1), (\<lambda>c. c = CHR ''('', 0, 1), (is_digit_char, 1, 4),
      (\<lambda>c. c = CHR '')'', 0, 1), (\<lambda>c. c = CHR ''-'' \<or> is_space c \<or> c = CHR ''.'', 0, 1), (is_digit_char, 1, 9)]"

fun format_check :: "js_lib \<Rightarrow> data_type \<Rightarrow> string \<Rightarrow> bool \<times> string" where
  "format_check js DT_EMAIL s = (email_ok s, ''user@example.com'')"
| "format_check js DT_PHONE s = (phone_ok s, ''+1234567890 or (123) 456-7890'')"
| "format_check js DT_URL s = (url_ok js s, ''https://example.com'')"
| "format_check js DT_DATE s = (date_ok js s, ''YYYY-MM-DD'')"
| "format_check js DT_DATETIME s = (date_ok js s, ''YYYY-MM-DD HH:mm:ss'')"
| "format_check js _ s = (False, [])"

definition validate_format :: "js_lib \<Rightarrow> int \<Rightarrow> rule_base \<Rightarrow> data_type \<Rightarrow> cell \<Rightarrow> verror list" where
  "validate_format js row b fmt v =
     (if blank v then []
      else (let (ok, expected) = format_check js fmt (cell_text js v)
            in if \<not> ok then [create_error row (rb_field b) ''INVALID_FORMAT''
                 (str_or (rb_message b) (rb_field b @ '' has invalid '' @ data_type_text fmt @ '' format'')) (severity_or b) v (Some expected)]
               else []))"

definition validate_range :: "js_lib \<Rightarrow> int \<Rightarrow> rule_base \<Rightarrow> range_bounds \<Rightarrow> cell \<Rightarrow> verror list" where
  "validate_range js row b r v =
     (if blank v then []
      else (let n = cell_number js v
            in if n = NaN then [create_error row (rb_field b) ''INVALID_NUMBER'' (rb_field b @ '' must be a number'')
                 (severity_or b) v (Some ''Number'')]
               else (case r_min r of None \<Rightarrow> [] | Some m \<Rightarrow>
                      if (if r_minInclusive r then \<not> num_less n m else num_greater n m) then []
                      else (let t = (if r_minInclusive r then ''>= '' else ''> '') @ num_text js m
                            in [create_error row (rb_field b) ''VALUE_TOO_SMALL''
                                 (str_or (rb_message b) (rb_field b @ '' must be '' @ t)) (severity_or b) v (Some t)])) @
                    (case r_max r of None \<Rightarrow> [] | Some m \<Rightarrow>
                      if (if r_maxInclusive r then \<not> num_greater n m else num_less n m) then []
                      else (let t = (if r_maxInclusive r then ''<= '' else ''< '') @ num_text js m
                            in [create_error row (rb_field b) ''VALUE_TOO_LARGE''
                                 (str_or (rb_message b) (rb_field b @ '' must be '' @ t)) (severity_or b) v (Some t)]))))"

definition nat_text :: "js_lib \<Rightarrow> nat \<Rightarrow> string" where "nat_text js n = num_text js (of_nat n)"

definition validate_length :: "js_lib \<Rightarrow> int \<Rightarrow> rule_base \<Rightarrow> nat option \<Rightarrow> nat option \<Rightarrow> cell \<Rightarrow> verror list" where
  "validate_length js row b minL maxL v =
     (if nullish v then []
      else (let n = length (cell_text js v)
            in (case minL of None \<Rightarrow> [] | Some m \<Rightarrow>
                  if n < m then [create_error row (rb_field b) ''STRING_TOO_SHORT''
                    (str_or (rb_message b) (rb_field b @ '' must be at least '' @ nat_text js m @ '' characters'')) (severity_or b) v
                    (Some (''>= '' @ nat_text js m @ '' characters''))] else []) @
               (case maxL of None \<Rightarrow> [] | Some m \<Rightarrow>
                  if n > m then [create_error row (rb_field b) ''STRING_TOO_LONG''
                    (str_or (rb_message b) (rb_field b @ '' must be at most '' @ nat_text js m @ '' characters'')) (severity_or b) v
                    (Some (''<= '' @ nat_text js m @ '' characters''))] else [])))"

definition compare_value :: "js_lib \<Rightarrow> bool \<Rightarrow> cell \<Rightarrow> cell" where
  "compare_value js caseSensitive v = (if caseSensitive then v else Text (to_lower (cell_text js v)))"

text \<open>\<open>includes\<close> and \<open>Set.has\<close>: objects, arrays and dates of different cells are different.\<close>

definition same_value :: "cell \<Rightarrow> cell \<Rightarrow> bool" where
  "same_value a b \<longleftrightarrow> a = b \<and> (case a of Array _ \<Rightarrow> False | Object \<Rightarrow> False | Date _ \<Rightarrow> False | _ \<Rightarrow> True)"

fun join_text :: "string list \<Rightarrow> string" where
  "join_text [] = []" | "join_text [s] = s" | "join_text (s # ss) = s @ '', '' @ join_text ss"

definition validate_enum :: "js_lib \<Rightarrow> int \<Rightarrow> rule_base \<Rightarrow> cell list \<Rightarrow> bool \<Rightarrow> cell \<Rightarrow> verror list" where
  "validate_enum js row b allowed caseSensitive v =
     (if blank v then []
      else if list_ex (same_value (compare_value js caseSensitive v)) (map (compare_value js caseSensitive) allowed) then []
      else (let t = join_text (map (cell_text js) allowed)
            in [create_error row (rb_field b) ''INVALID_ENUM_VALUE'' (str_or (rb_message b) (rb_field b @ '' must be one of: '' @ t))
                 (severity_or b) v (Some t)]))"

definition validate_pattern ::
  "js_lib \<Rightarrow> int \<Rightarrow> rule_base \<Rightarrow> (string \<Rightarrow> bool) option \<Rightarrow> string \<Rightarrow> cell \<Rightarrow> string + verror list" where
  "validate_pattern js row b test source v =
     (if blank v then Inr []
      else case test of None \<Rightarrow> Inl ''Invalid regular expression''
        | Some f \<Rightarrow> if f (cell_text js v) then Inr []
            else Inr [create_error row (rb_field b) ''PATTERN_MISMATCH'' (str_or (rb_message b) (rb_field b @ '' format is invalid''))
                   (severity_or b) v (Some (''Pattern: '' @ source))])"

definition validate_custom :: "int \<Rightarrow> rule_base \<Rightarrow> (cell \<Rightarrow> cells \<Rightarrow> string + bool) \<Rightarrow> cells \<Rightarrow> cell \<Rightarrow> verror list" where
  "validate_custom row b validator rec v =
     (case validator v rec of
        Inl e \<Rightarrow> [create_error row (rb_field b) ''CUSTOM_VALIDATION_ERROR'' (''Validation error: '' @ e) WARNING v None]
      | Inr ok \<Rightarrow> if ok then [] else [create_error row (rb_field b) ''CUSTOM_VALIDATION_FAILED''
          (str_or (rb_message b) (rb_field b @ '' validation failed'')) (severity_or b) v None])"

subsection \<open>Rules that use the context\<close>

definition validate_unique ::
  "js_lib \<Rightarrow> voptions \<Rightarrow> int \<Rightarrow> rule_base \<Rightarrow> bool \<Rightarrow> cell \<Rightarrow> vcontext \<Rightarrow> verror list \<times> vcontext" where
  "validate_unique js opt row b caseSensitive v ctx =
     (if \<not> validateUnique opt then ([], ctx)
      else if blank v then ([], ctx)
      else (let cv = compare_value js caseSensitive v;
                vals = (case existingData ctx (rb_field b) of None \<Rightarrow> [] | Some xs \<Rightarrow> xs)
            in if list_ex (same_value cv) vals
               then ([create_error row (rb_field b) ''DUPLICATE_VALUE''
                       (str_or (rb_message b) (rb_field b @ '' must be unique. Value '' @ [CHR 0x22] @ cell_text js v @ [CHR 0x22] @ '' already exists''))
                       (severity_or b) v (Some ''Unique value'')],
                     ctx\<lparr>existingData := (existingData ctx)(rb_field b \<mapsto> vals)\<rparr>)
               else ([], ctx\<lparr>existingData := (existingData ctx)(rb_field b \<mapsto> vals @ [cv])\<rparr>)))"

type_synonym lookup = "string \<Rightarrow> string \<Rightarrow> cell \<Rightarrow> string + bool"

definition fk_key :: "js_lib \<Rightarrow> string \<Rightarrow> string \<Rightarrow> cell \<Rightarrow> string" where
  "fk_key js entity f v = entity @ '':'' @ f @ '':'' @ cell_text js v"

definition validate_foreign_key ::
  "js_lib \<Rightarrow> lookup \<Rightarrow> voptions \<Rightarrow> int \<Rightarrow> rule_base \<Rightarrow> string \<Rightarrow> string \<Rightarrow> bool \<Rightarrow> cell \<Rightarrow> vcontext \<Rightarrow> verror list \<times> vcontext" where
  "validate_foreign_key js lkp opt row b entity f allowNull v ctx =
     (if \<not> validateForeignKeys opt then ([], ctx)
      else if blank v \<and> allowNull then ([], ctx)
      else if blank v then ([create_error row (rb_field b) ''FOREIGN_KEY_NULL'' (rb_field b @ '' cannot be null'') (severity_or b) v
             (Some (''Valid '' @ entity @ '' '' @ f))], ctx)
      else (let key = fk_key js entity f v
            in if Option.bind (fk_cache ctx) (\<lambda>m. m key) = Some True then ([], ctx)
               else (case lkp (to_lower entity) f v of
                       Inl e \<Rightarrow> ([create_error row (rb_field b) ''FOREIGN_KEY_ERROR''
                         (''Failed to validate '' @ rb_field b @ '': '' @ e) WARNING v None], ctx)
                     | Inr found \<Rightarrow>
                         (if found then []
                          else [create_error row (rb_field b) ''FOREIGN_KEY_NOT_FOUND''
                            (str_or (rb_message b) (rb_field b @ '' references non-existent '' @ entity @ ''.'' @ f @ '' '' @ [CHR 0x22] @ cell_text js v @ [CHR 0x22]))
                            (severity_or b) v (Some (''Valid '' @ entity @ '' '' @ f))],
                          ctx\<lparr>fk_cache := map_option (\<lambda>m. m(key \<mapsto> found)) (fk_cache ctx)\<rparr>))))"

text \<open>An exception of a rule ends the validation, or the conditional rule around it, with a warning.\<close>

definition conditional_error :: "int \<Rightarrow> rule_base \<Rightarrow> string \<Rightarrow> verror list" where
  "conditional_error row b e =
     [create_error row (rb_field b) ''CONDITIONAL_VALIDATION_ERROR'' (''Conditional validation error: '' @ e) WARNING Undefined None]"

fun validate_rule :: "js_lib \<Rightarrow> lookup \<Rightarrow> voptions \<Rightarrow> cells \<Rightarrow> int \<Rightarrow> rule \<Rightarrow> vcontext \<Rightarrow> (string + verror list) \<times> vcontext"
  and validate_subrules :: "js_lib \<Rightarrow> lookup \<Rightarrow> voptions \<Rightarrow> cells \<Rightarrow> int \<Rightarrow> rule list \<Rightarrow> vcontext \<Rightarrow> (string + verror list) \<times> vcontext" where
  "validate_rule js lkp opt rec row (Required b) ctx = (Inr (validate_required row b (field_value rec (rb_field b))), ctx)"
| "validate_rule js lkp opt rec row (TypeRule b dt an) ctx = (Inr (validate_type js row b dt an (field_value rec (rb_field b))), ctx)"
| "validate_rule js lkp opt rec row (Format b fmt) ctx = (Inr (validate_format js row b fmt (field_value rec (rb_field b))), ctx)"
| "validate_rule js lkp opt rec row (Range b r) ctx = (Inr (validate_range js row b r (field_value rec (rb_field b))), ctx)"
| "validate_rule js lkp opt rec row (Length b lo hi) ctx = (Inr (validate_length js row b lo hi (field_value rec (rb_field b))), ctx)"
| "validate_rule js lkp opt rec row (Unique b cs) ctx =
     (let (es, ctx') = validate_unique js opt row b cs (field_value rec (rb_field b)) ctx in (Inr es, ctx'))"
| "validate_rule js lkp opt rec row (ForeignKey b ent f an) ctx =
     (let (es, ctx') = validate_foreign_key js lkp opt row b ent f an (field_value rec (rb_field b)) ctx in (Inr es, ctx'))"
| "validate_rule js lkp opt rec row (Enum b vs cs) ctx = (Inr (validate_enum js row b vs cs (field_value rec (rb_field b))), ctx)"
| "validate_rule js lkp opt rec row (Pattern b t src) ctx = (validate_pattern js row b t src (field_value rec (rb_field b)), ctx)"
| "validate_rule js lkp opt rec row (Custom b f) ctx = (Inr (validate_custom row b f rec (field_value rec (rb_field b))), ctx)"
| "validate_rule js lkp opt rec row (Conditional b cond rs) ctx =
     (case cond rec of
        Inl e \<Rightarrow> (Inr (conditional_error row b e), ctx)
      | Inr False \<Rightarrow> (Inr [], ctx)
      | Inr True \<Rightarrow>
          (case validate_subrules js lkp opt rec row rs ctx of
             (Inl e, ctx') \<Rightarrow> (Inr (conditional_error row b e), ctx')
           | (Inr es, ctx') \<Rightarrow> (Inr es, ctx')))"
| "validate_subrules js lkp opt rec row [] ctx = (Inr [], ctx)"
| "validate_subrules js lkp opt rec row (r # rs) ctx =
     (case validate_rule js lkp opt rec row r ctx of
        (Inl e, ctx') \<Rightarrow> (Inl e, ctx')
      | (Inr es, ctx') \<Rightarrow>
          (case validate_subrules js lkp opt rec row rs ctx' of
             (Inl e, ctx'') \<Rightarrow> (Inl e, ctx'')
           | (Inr es', ctx'') \<Rightarrow> (Inr (es @ es'), ctx'')))"

subsection \<open>Records and batches\<close>

definition enough_errors :: "voptions \<Rightarrow> verror list \<Rightarrow> bool" where
  "enough_errors opt errs = (case maxErrors opt of None \<Rightarrow> False | Some n \<Rightarrow> n \<noteq> 0 \<and> n \<le> int (length errs))"

record rec_result =
  rr_row :: int
  rr_isValid :: bool
  rr_errors :: "verror list"
  rr_warnings :: "verror list"
  rr_record :: cells

fun record_rules :: "js_lib \<Rightarrow> lookup \<Rightarrow> voptions \<Rightarrow> cells \<Rightarrow> int \<Rightarrow> rule list \<Rightarrow> verror list \<Rightarrow> verror list \<Rightarrow> vcontext \<Rightarrow>
    (string + verror list \<times> verror list) \<times> vcontext" where
  "record_rules js lkp opt rec row [] errs warns ctx = (Inr (errs, warns), ctx)"
| "record_rules js lkp opt rec row (r # rs) errs warns ctx =
     (case validate_rule js lkp opt rec row r ctx of
        (Inl e, ctx') \<Rightarrow> (Inl e, ctx')
      | (Inr es, ctx') \<Rightarrow>
          (let errs' = errs @ filter (\<lambda>e. e_severity e = ERROR) es;
               warns' = warns @ filter (\<lambda>e. e_severity e = WARNING) es
           in if enough_errors opt errs' then (Inr (errs', warns'), ctx')
              else record_rules js lkp opt rec row rs errs' warns' ctx'))"

definition validate_record :: "js_lib \<Rightarrow> lookup \<Rightarrow> voptions \<Rightarrow> rule list \<Rightarrow> cells \<Rightarrow> int \<Rightarrow> vcontext \<Rightarrow> (string + rec_result) \<times> vcontext" where
  "validate_record js lkp opt rules rec row ctx =
     (case record_rules js lkp opt rec row rules [] [] ctx of
        (Inl e, ctx') \<Rightarrow> (Inl e, ctx')
      | (Inr (errs, warns), ctx') \<Rightarrow>
          (Inr \<lparr>rr_row = row, rr_isValid = (errs = []), rr_errors = errs, rr_warnings = warns, rr_record = rec\<rparr>, ctx'))"

fun batch_records :: "js_lib \<Rightarrow> lookup \<Rightarrow> voptions \<Rightarrow> rule list \<Rightarrow> int \<Rightarrow> cells list \<Rightarrow> rec_result list \<Rightarrow> vcontext \<Rightarrow>
    (string + rec_result list) \<times> vcontext" where
  "batch_records js lkp opt rules i [] acc ctx = (Inr acc, ctx)"
| "batch_records js lkp opt rules i (rec # recs) acc ctx =
     (case validate_record js lkp opt rules rec (i + 2) ctx of
        (Inl e, ctx') \<Rightarrow> (Inl e, ctx')
      | (Inr r, ctx') \<Rightarrow>
          (if stopOnFirstError opt \<and> rr_errors r \<noteq> [] then (Inr (acc @ [r]), ctx')
           else if enough_errors opt (concat (map rr_errors (acc @ [r]))) then (Inr (acc @ [r]), ctx')
           else batch_records js lkp opt rules (i + 1) recs (acc @ [r]) ctx'))"

fun unique_field :: "rule \<Rightarrow> string option" where
  "unique_field (Unique b _) = Some (rb_field b)"
| "unique_field _ = None"

definition preload_unique_constraints :: "cells list \<Rightarrow> rule list \<Rightarrow> vcontext \<Rightarrow> vcontext" where
  "preload_unique_constraints recs rules ctx =
     foldl (\<lambda>c f. if list_all (\<lambda>r. blank (field_value r f)) recs then c
        else c\<lparr>existingData := (existingData c)(f \<mapsto> [])\<rparr>) ctx (List.map_filter unique_field rules)"

record summary =
  s_byType :: nat
  s_byField :: "string \<rightharpoonup> nat"
  s_errors :: nat
  s_warnings :: nat

text \<open>Every issue of this service has the type \<open>VALIDATION\<close>, the count \<open>s_byType\<close>.\<close>

definition generate_summary :: "verror list \<Rightarrow> verror list \<Rightarrow> summary" where
  "generate_summary errs warns =
     (let issues = errs @ warns
      in \<lparr>s_byType = length issues,
          s_byField = foldl (\<lambda>m e. m(e_field e \<mapsto> (case m (e_field e) of None \<Rightarrow> 0 | Some n \<Rightarrow> n) + 1)) (\<lambda>_. None) issues,
          s_errors = length (filter (\<lambda>e. e_severity e = ERROR) issues),
          s_warnings = length (filter (\<lambda>e. e_severity e = WARNING) issues)\<rparr>)"

record batch_result =
  b_totalRecords :: nat
  b_validRecords :: nat
  b_invalidRecords :: nat
  b_warningRecords :: nat
  b_results :: "rec_result list"
  b_errors :: "verror list"
  b_warnings :: "verror list"
  b_summary :: summary

definition batch_report :: "nat \<Rightarrow> rec_result list \<Rightarrow> batch_result" where
  "batch_report n results =
     (let errs = concat (map rr_errors results); warns = concat (map rr_warnings results)
      in \<lparr>b_totalRecords = n, b_validRecords = length (filter rr_isValid results),
          b_invalidRecords = length (filter (\<lambda>r. \<not> rr_isValid r) results),
          b_warningRecords = length (filter (\<lambda>r. rr_warnings r \<noteq> []) results),
          b_results = results, b_errors = errs, b_warnings = warns, b_summary = generate_summary errs warns\<rparr>)"

definition validate_batch :: "js_lib \<Rightarrow> lookup \<Rightarrow> voptions \<Rightarrow> rule list \<Rightarrow> cells list \<Rightarrow> string + batch_result" where
  "validate_batch js lkp opt rules recs =
     (let ctx = \<lparr>existingData = (\<lambda>_. None), fk_cache = Some (\<lambda>_. None)\<rparr>;
          ctx' = (if validateUnique opt then preload_unique_constraints recs rules ctx else ctx)
      in case fst (batch_records js lkp opt rules 0 recs [] ctx') of
           Inl e \<Rightarrow> Inl e
         | Inr results \<Rightarrow> Inr (batch_report (length recs) results))"

subsection \<open>Uniqueness\<close>

definition seen :: "vcontext \<Rightarrow> string \<Rightarrow> cell list" where
  "seen ctx f = (case existingData ctx f of None \<Rightarrow> [] | Some xs \<Rightarrow> xs)"

lemma seen_unique:
  "validate_unique js opt row b cs v ctx = (es, ctx') \<Longrightarrow> set (seen ctx f) \<subseteq> set (seen ctx' f)"
  by (auto simp: validate_unique_def seen_def Let_def split: if_splits option.splits)

lemma seen_foreign_key:
  "validate_foreign_key js lkp opt row b ent f' an v ctx = (es, ctx') \<Longrightarrow> seen ctx' f = seen ctx f"
  by (auto simp: validate_foreign_key_def seen_def Let_def split: if_splits sum.splits)

lemma seen_rule:
  "validate_rule js lkp opt rec row r ctx = (res, ctx') \<Longrightarrow> set (seen ctx f) \<subseteq> set (seen ctx' f)"
  "validate_subrules js lkp opt rec row rs ctx = (res, ctx') \<Longrightarrow> set (seen ctx f) \<subseteq> set (seen ctx' f)"
proof (induction js lkp opt rec row r ctx and js lkp opt rec row rs ctx
    arbitrary: res ctx' and res ctx' rule: validate_rule_validate_subrules.induct)
  case (6 js lkp opt rec row b cs ctx)
  then show ?case by (auto dest: seen_unique split: prod.splits)
next
  case (7 js lkp opt rec row b ent f' an ctx)
  then show ?case by (auto dest: seen_foreign_key [where f = f] split: prod.splits)
next
  case (11 js lkp opt rec row b cond rs ctx)
  then show ?case by (auto split: sum.splits prod.splits bool.splits)
next
  case (13 js lkp opt rec row r rs ctx)
  then show ?case by (fastforce split: sum.splits prod.splits)
qed auto

definition sane :: "voptions \<Rightarrow> bool" where
  "sane opt \<longleftrightarrow> (\<forall>n. maxErrors opt = Some n \<longrightarrow> 0 \<le> n)"

lemma sane_go_on: "sane opt \<Longrightarrow> \<not> enough_errors opt []"
  by (auto simp: sane_def enough_errors_def split: option.splits)

lemma record_rules_grow:
  "record_rules js lkp opt rec row rs errs warns ctx = (Inr (errs', warns'), ctx') \<Longrightarrow>
    (\<exists>xs. errs' = errs @ xs) \<and> set (seen ctx f) \<subseteq> set (seen ctx' f)"
proof (induction js lkp opt rec row rs errs warns ctx rule: record_rules.induct)
  case (2 js lkp opt rec row r rs errs warns ctx)
  then show ?case
    using seen_rule(1) [of js lkp opt rec row r ctx]
    by (cases "validate_rule js lkp opt rec row r ctx") (fastforce simp: Let_def split: sum.splits if_splits)
qed simp

lemma record_rules_unique:
  assumes "record_rules js lkp opt rec row rs [] warns ctx = (Inr ([], warns'), ctx')" "sane opt" "validateUnique opt"
    and "Unique b cs \<in> set rs" "rb_severity b \<noteq> Some WARNING" "\<not> blank (field_value rec (rb_field b))"
  shows "\<not> list_ex (same_value (compare_value js cs (field_value rec (rb_field b)))) (seen ctx (rb_field b)) \<and>
    compare_value js cs (field_value rec (rb_field b)) \<in> set (seen ctx' (rb_field b))"
  using assms(1,4)
proof (induction rs arbitrary: warns ctx)
  case (Cons r rs)
  obtain es ctx1 where r: "validate_rule js lkp opt rec row r ctx = (Inr es, ctx1)"
    using Cons.prems(1) by (auto split: sum.splits prod.splits)
  let ?warns = "warns @ filter (\<lambda>e. e_severity e = WARNING) es"
  have none: "filter (\<lambda>e. e_severity e = ERROR) es = []"
    using Cons.prems(1) by (auto simp: r Let_def split: if_splits dest: record_rules_grow)
  then have rest: "record_rules js lkp opt rec row rs [] ?warns ctx1 = (Inr ([], warns'), ctx')"
    using Cons.prems(1) by (simp add: r Let_def none sane_go_on [OF assms(2)])
  have grow: "set (seen ctx (rb_field b)) \<subseteq> set (seen ctx1 (rb_field b))" by (rule seen_rule(1) [OF r])
  have grow': "set (seen ctx1 (rb_field b)) \<subseteq> set (seen ctx' (rb_field b))"
    using record_rules_grow [OF rest] by blast
  show ?case
  proof (cases "r = Unique b cs")
    case True
    then have u: "validate_unique js opt row b cs (field_value rec (rb_field b)) ctx = (es, ctx1)" using r by (simp split: prod.splits)
    have "severity_or b = ERROR" using assms(5) by (cases "rb_severity b") (auto simp: severity_or_def intro: severity.exhaust)
    then show ?thesis
      using u none grow' assms(3,6) by (auto simp: validate_unique_def seen_def Let_def create_error_def split: if_splits option.splits)
  next
    case False
    then have "Unique b cs \<in> set rs" using Cons.prems(2) by simp
    with Cons.IH [OF rest] grow show ?thesis by (auto simp: list_ex_iff)
  qed
qed simp

lemma batch_unique:
  assumes "batch_records js lkp opt rules i recs acc ctx = (Inr results, ctx')" "sane opt" "validateUnique opt"
    and "Unique b cs \<in> set rules" "rb_severity b \<noteq> Some WARNING"
  defines "cv r \<equiv> compare_value js cs (field_value (rr_record r) (rb_field b))"
  defines "live r \<equiv> rr_isValid r \<and> \<not> blank (field_value (rr_record r) (rb_field b))"
  assumes "\<forall>r \<in> set acc. live r \<longrightarrow> cv r \<in> set (seen ctx (rb_field b))"
    and "sorted_wrt (\<lambda>r r'. live r \<longrightarrow> live r' \<longrightarrow> \<not> same_value (cv r') (cv r)) acc"
  shows "sorted_wrt (\<lambda>r r'. live r \<longrightarrow> live r' \<longrightarrow> \<not> same_value (cv r') (cv r)) results"
  using assms(1,8,9)
proof (induction recs arbitrary: i acc ctx)
  case (Cons rec recs)
  obtain r ctx1 where r: "validate_record js lkp opt rules rec (i + 2) ctx = (Inr r, ctx1)"
    using Cons.prems(1) by (auto split: sum.splits prod.splits)
  obtain errs warns where rr: "record_rules js lkp opt rec (i + 2) rules [] [] ctx = (Inr (errs, warns), ctx1)"
    "r = \<lparr>rr_row = i + 2, rr_isValid = (errs = []), rr_errors = errs, rr_warnings = warns, rr_record = rec\<rparr>"
    using r by (auto simp: validate_record_def split: sum.splits prod.splits)
  have grow: "set (seen ctx (rb_field b)) \<subseteq> set (seen ctx1 (rb_field b))" using record_rules_grow [OF rr(1), of "rb_field b"] by simp
  have new: "live r \<Longrightarrow> \<not> list_ex (same_value (cv r)) (seen ctx (rb_field b)) \<and> cv r \<in> set (seen ctx1 (rb_field b))"
    using record_rules_unique [OF _ assms(2-5), where js = js and lkp = lkp and rec = rec and row = "i + 2" and warns = "[]" and warns' = warns and ctx = ctx and ctx' = ctx1] rr
    by (auto simp: live_def cv_def)
  have acc1: "\<forall>x \<in> set (acc @ [r]). live x \<longrightarrow> cv x \<in> set (seen ctx1 (rb_field b))"
    using Cons.prems(2) grow new by auto
  have acc2: "sorted_wrt (\<lambda>r r'. live r \<longrightarrow> live r' \<longrightarrow> \<not> same_value (cv r') (cv r)) (acc @ [r])"
    using Cons.prems(2,3) new by (auto simp: sorted_wrt_append list_ex_iff)
  show ?case
    using Cons.prems(1) Cons.IH [OF _ acc1 acc2] acc2 by (auto simp: r split: if_splits)
qed simp

subsection \<open>Reports\<close>

lemma record_rules_severity:
  "record_rules js lkp opt rec row rs errs warns ctx = (Inr (errs', warns'), ctx') \<Longrightarrow>
    \<forall>e \<in> set errs. e_severity e = ERROR \<Longrightarrow> \<forall>e \<in> set warns. e_severity e = WARNING \<Longrightarrow>
    (\<forall>e \<in> set errs'. e_severity e = ERROR) \<and> (\<forall>e \<in> set warns'. e_severity e = WARNING)"
proof (induction rs arbitrary: errs warns ctx)
  case (Cons r rs)
  obtain es ctx1 where r: "validate_rule js lkp opt rec row r ctx = (Inr es, ctx1)"
    using Cons.prems(1) by (auto split: sum.splits prod.splits)
  let ?errs = "errs @ filter (\<lambda>e. e_severity e = ERROR) es" and ?warns = "warns @ filter (\<lambda>e. e_severity e = WARNING) es"
  have "\<forall>e \<in> set ?errs. e_severity e = ERROR" "\<forall>e \<in> set ?warns. e_severity e = WARNING" using Cons.prems(2,3) by auto
  note ih = Cons.IH [OF _ this, of ctx1]
  show ?case
  proof (cases "enough_errors opt ?errs")
    case True
    with Cons.prems show ?thesis by (auto simp: r Let_def)
  next
    case False
    with Cons.prems(1) have "record_rules js lkp opt rec row rs ?errs ?warns ctx1 = (Inr (errs', warns'), ctx')"
      by (simp add: r Let_def)
    then show ?thesis by (rule ih)
  qed
qed auto

definition result_ok :: "rec_result \<Rightarrow> bool" where
  "result_ok r \<longleftrightarrow> rr_isValid r = (rr_errors r = []) \<and> (\<forall>e \<in> set (rr_errors r). e_severity e = ERROR) \<and>
     (\<forall>e \<in> set (rr_warnings r). e_severity e = WARNING)"

lemma validate_record_result:
  "validate_record js lkp opt rules rec row ctx = (Inr r, ctx') \<Longrightarrow> result_ok r \<and> rr_record r = rec \<and> rr_row r = row"
proof -
  assume a: "validate_record js lkp opt rules rec row ctx = (Inr r, ctx')"
  obtain errs warns ctx1 where rr: "record_rules js lkp opt rec row rules [] [] ctx = (Inr (errs, warns), ctx1)"
    using a by (auto simp: validate_record_def split: sum.splits prod.splits)
  have "r = \<lparr>rr_row = row, rr_isValid = (errs = []), rr_errors = errs, rr_warnings = warns, rr_record = rec\<rparr>"
    using a by (simp add: validate_record_def rr)
  then show ?thesis using record_rules_severity [OF rr] by (simp add: result_ok_def)
qed

lemma batch_results:
  assumes "batch_records js lkp opt rules i recs acc ctx = (Inr results, ctx')"
    and "\<forall>r \<in> set acc. result_ok r" "stopOnFirstError opt \<Longrightarrow> \<forall>r \<in> set acc. rr_errors r = []"
    and "acc \<noteq> [] \<Longrightarrow> \<not> enough_errors opt (concat (map rr_errors acc))"
  shows "\<exists>k \<le> length recs. \<exists>new. results = acc @ new \<and> map rr_record new = take k recs \<and>
    map rr_row new = map (\<lambda>j. i + 2 + int j) [0..<k] \<and> (\<forall>r \<in> set results. result_ok r) \<and>
    (stopOnFirstError opt \<longrightarrow> (\<forall>r \<in> set (butlast results). rr_errors r = [])) \<and>
    (butlast results \<noteq> [] \<longrightarrow> \<not> enough_errors opt (concat (map rr_errors (butlast results)))) \<and>
    (\<not> stopOnFirstError opt \<and> maxErrors opt = None \<longrightarrow> k = length recs)"
  using assms
proof (induction recs arbitrary: i acc ctx)
  case Nil
  then have "results = acc" by simp
  moreover have "\<not> enough_errors opt (concat (map rr_errors (butlast acc)))" if "butlast acc \<noteq> []"
    using that Nil.prems(4) by (cases acc rule: rev_cases) (auto simp: enough_errors_def split: option.splits)
  ultimately show ?case using Nil.prems(2,3) by (auto dest: in_set_butlastD)
next
  case (Cons rec recs)
  obtain r ctx1 where r: "validate_record js lkp opt rules rec (i + 2) ctx = (Inr r, ctx1)"
    using Cons.prems(1) by (auto split: sum.splits prod.splits)
  note res = validate_record_result [OF r]
  let ?stop = "stopOnFirstError opt \<and> rr_errors r \<noteq> [] \<or> enough_errors opt (concat (map rr_errors (acc @ [r])))"
  show ?case
  proof (cases ?stop)
    case True
    then have "results = acc @ [r]" using Cons.prems(1) by (auto simp: r split: if_splits)
    with True show ?thesis
      using Cons.prems(2-4) res
      by (intro exI [of _ 1]) (auto simp: enough_errors_def split: option.splits)
  next
    case False
    then have run: "batch_records js lkp opt rules (i + 1) recs (acc @ [r]) ctx1 = (Inr results, ctx')"
      using Cons.prems(1) by (auto simp: r split: if_splits)
    have "\<exists>k \<le> length recs. \<exists>new. results = (acc @ [r]) @ new \<and> map rr_record new = take k recs \<and>
      map rr_row new = map (\<lambda>j. i + 1 + 2 + int j) [0..<k] \<and> (\<forall>r \<in> set results. result_ok r) \<and>
      (stopOnFirstError opt \<longrightarrow> (\<forall>r \<in> set (butlast results). rr_errors r = [])) \<and>
      (butlast results \<noteq> [] \<longrightarrow> \<not> enough_errors opt (concat (map rr_errors (butlast results)))) \<and>
      (\<not> stopOnFirstError opt \<and> maxErrors opt = None \<longrightarrow> k = length recs)"
      by (rule Cons.IH [OF run]) (use Cons.prems(2,3) res False in auto)
    then obtain k new where k: "k \<le> length recs" "results = (acc @ [r]) @ new" "map rr_record new = take k recs"
      "map rr_row new = map (\<lambda>j. i + 1 + 2 + int j) [0..<k]" "\<forall>r \<in> set results. result_ok r"
      "stopOnFirstError opt \<longrightarrow> (\<forall>r \<in> set (butlast results). rr_errors r = [])"
      "butlast results \<noteq> [] \<longrightarrow> \<not> enough_errors opt (concat (map rr_errors (butlast results)))"
      "\<not> stopOnFirstError opt \<and> maxErrors opt = None \<longrightarrow> k = length recs" by blast
    have rows: "map rr_row (r # new) = map (\<lambda>j. i + 2 + int j) [0..<Suc k]"
      using k(4) res by (simp add: upt_conv_Cons map_Suc_upt [symmetric] comp_def del: upt_Suc)
    show ?thesis
      by (rule exI [of _ "Suc k"], intro conjI exI [of _ "r # new"]) (use k rows res in simp_all)
  qed
qed

subsection \<open>The cache of foreign keys\<close>

text \<open>Look-ups with the same cache key, such as of the number 1 and the text 1, answer the same.\<close>

definition key_determines :: "js_lib \<Rightarrow> lookup \<Rightarrow> bool" where
  "key_determines js lkp \<longleftrightarrow> (\<forall>ent f v ent' f' v'. fk_key js ent f v = fk_key js ent' f' v' \<longrightarrow>
     lkp (to_lower ent) f v = lkp (to_lower ent') f' v')"

definition same_but_cache :: "js_lib \<Rightarrow> lookup \<Rightarrow> vcontext \<Rightarrow> vcontext \<Rightarrow> bool" where
  "same_but_cache js lkp c d \<longleftrightarrow> existingData c = existingData d \<and> fk_cache d = None \<and>
     (\<exists>m. fk_cache c = Some m \<and> (\<forall>ent f v. m (fk_key js ent f v) = Some True \<longrightarrow> lkp (to_lower ent) f v = Inr True))"

definition agree :: "js_lib \<Rightarrow> lookup \<Rightarrow> 'a \<times> vcontext \<Rightarrow> 'a \<times> vcontext \<Rightarrow> bool" where
  "agree js lkp x y \<longleftrightarrow> fst x = fst y \<and> same_but_cache js lkp (snd x) (snd y)"

lemma agree_pair [simp]: "agree js lkp (a, c) (b, d) \<longleftrightarrow> a = b \<and> same_but_cache js lkp c d"
  by (simp add: agree_def)

lemma agree_cases:
  assumes "agree js lkp x y"
  obtains (throws) e c d where "x = (Inl e, c)" "y = (Inl e, d)" "same_but_cache js lkp c d"
    | (returns) a c d where "x = (Inr a, c)" "y = (Inr a, d)" "same_but_cache js lkp c d"
  using assms by (cases x; cases y; cases "fst x") (auto simp: agree_def)

lemma agree_unique:
  "same_but_cache js lkp c d \<Longrightarrow>
    agree js lkp (validate_unique js opt row b cs v c) (validate_unique js opt row b cs v d)"
  by (auto simp: validate_unique_def same_but_cache_def Let_def)

lemma agree_foreign_key:
  assumes "key_determines js lkp" "same_but_cache js lkp c d"
  shows "agree js lkp (validate_foreign_key js lkp opt row b ent f an v c) (validate_foreign_key js lkp opt row b ent f an v d)"
proof -
  obtain m where m: "fk_cache c = Some m" "\<And>ent f v. m (fk_key js ent f v) = Some True \<Longrightarrow> lkp (to_lower ent) f v = Inr True"
    and d: "fk_cache d = None" "existingData c = existingData d" using assms(2) by (auto simp: same_but_cache_def)
  let ?k = "fk_key js ent f v"
  have upd: "same_but_cache js lkp (c\<lparr>fk_cache := Some (m(?k \<mapsto> found))\<rparr>) (d\<lparr>fk_cache := None\<rparr>)" if "lkp (to_lower ent) f v = Inr found" for found
  proof -
    have "lkp (to_lower ent') f' v' = Inr True" if "(m(?k \<mapsto> found)) (fk_key js ent' f' v') = Some True" for ent' f' v'
    proof (cases "fk_key js ent' f' v' = ?k")
      case True
      then have "lkp (to_lower ent') f' v' = lkp (to_lower ent) f v" using assms(1) unfolding key_determines_def by blast
      with True that \<open>lkp (to_lower ent) f v = Inr found\<close> show ?thesis by simp
    qed (use that m(2) in simp)
    then show ?thesis using d(2) by (simp add: same_but_cache_def)
  qed
  have keep: "same_but_cache js lkp c (d\<lparr>fk_cache := None\<rparr>)" using assms(2) by (simp add: same_but_cache_def)
  show ?thesis
  proof (cases "m ?k = Some True")
    case True
    then show ?thesis
      using assms(2) m(1) m(2) [OF True] d(1) keep by (simp add: validate_foreign_key_def Let_def)
  next
    case False
    then show ?thesis
      using assms(2) m(1) d(1) upd by (auto simp: validate_foreign_key_def Let_def split: sum.split)
  qed
qed

lemma agree_rule:
  assumes "key_determines js lkp"
  shows "same_but_cache js lkp c d \<Longrightarrow> agree js lkp (validate_rule js lkp opt rec row r c) (validate_rule js lkp opt rec row r d)"
    and "same_but_cache js lkp c d \<Longrightarrow> agree js lkp (validate_subrules js lkp opt rec row rs c) (validate_subrules js lkp opt rec row rs d)"
  using assms
proof (induction js lkp opt rec row r c and js lkp opt rec row rs c arbitrary: d and d
    rule: validate_rule_validate_subrules.induct)
  case (6 js lkp opt rec row b cs c)
  then show ?case using agree_unique [OF 6(1), of opt row b cs] by (simp add: agree_def case_prod_beta)
next
  case (7 js lkp opt rec row b ent f an c)
  then show ?case using agree_foreign_key [OF 7(2,1), of opt row b ent f an] by (simp add: agree_def case_prod_beta)
next
  case (11 js lkp opt rec row b cond rs c)
  show ?case
  proof (cases "cond rec = Inr True")
    case True
    have "agree js lkp (validate_subrules js lkp opt rec row rs c) (validate_subrules js lkp opt rec row rs d)"
      by (rule 11(1) [OF True _ 11(2,3)]) simp
    then show ?thesis by (cases rule: agree_cases) (simp_all add: True)
  next
    case False
    then show ?thesis using 11(2) by (auto split: sum.split bool.split)
  qed
next
  case (13 js lkp opt rec row r rs c)
  from 13(1) [OF 13(3,4)] show ?case
  proof (cases rule: agree_cases)
    case (throws e c' d')
    then show ?thesis by simp
  next
    case (returns es c' d')
    have "agree js lkp (validate_subrules js lkp opt rec row rs c') (validate_subrules js lkp opt rec row rs d')"
      by (rule 13(2) [OF returns(1)[symmetric] _ returns(3) 13(4)]) simp
    then show ?thesis by (cases rule: agree_cases) (simp_all add: returns(1,2))
  qed
qed simp_all

lemma agree_record_rules:
  assumes "key_determines js lkp"
  shows "same_but_cache js lkp c d \<Longrightarrow>
    agree js lkp (record_rules js lkp opt rec row rs errs warns c) (record_rules js lkp opt rec row rs errs warns d)"
proof (induction rs arbitrary: errs warns c d)
  case (Cons r rs)
  from agree_rule(1) [OF assms Cons.prems, of opt rec row r] show ?case
    by (cases rule: agree_cases) (use Cons.IH in \<open>simp_all add: Let_def\<close>)
qed simp

lemma agree_batch:
  assumes "key_determines js lkp"
  shows "same_but_cache js lkp c d \<Longrightarrow>
    agree js lkp (batch_records js lkp opt rules i recs acc c) (batch_records js lkp opt rules i recs acc d)"
proof (induction recs arbitrary: i acc c d)
  case (Cons rec recs)
  have "agree js lkp (validate_record js lkp opt rules rec (i + 2) c) (validate_record js lkp opt rules rec (i + 2) d)"
    using agree_record_rules [OF assms Cons.prems, of opt rec "i + 2" rules "[]" "[]"]
    by (cases rule: agree_cases) (auto simp: validate_record_def split: prod.split)
  then show ?case by (cases rule: agree_cases) (use Cons.IH in simp_all)
qed simp

subsection \<open>Properties\<close>

text \<open>C14. Unique fields are unique in the batch: of the records a batch validation accepts, no two have
  values of a unique field that agree, in lower case unless the rule is case sensitive. Empty
  values do not count.\<close>

theorem accepted_records_unique:
  assumes "validate_batch js lkp opt rules recs = Inr res" "validateUnique opt" "sane opt"
    and "Unique b cs \<in> set rules" "rb_severity b \<noteq> Some WARNING"
    and "i < j" "j < length (b_results res)"
    and "rr_isValid (b_results res ! i)" "rr_isValid (b_results res ! j)"
    and "\<not> blank (field_value (rr_record (b_results res ! i)) (rb_field b))"
    and "\<not> blank (field_value (rr_record (b_results res ! j)) (rb_field b))"
  shows "\<not> same_value (compare_value js cs (field_value (rr_record (b_results res ! j)) (rb_field b)))
    (compare_value js cs (field_value (rr_record (b_results res ! i)) (rb_field b)))"
proof -
  obtain ctx results ctx' where run: "batch_records js lkp opt rules 0 recs [] ctx = (Inr results, ctx')"
    and res: "b_results res = results"
    using assms(1) by (auto simp: validate_batch_def Let_def batch_report_def split: sum.splits) (metis prod.collapse)+
  show ?thesis
    using sorted_wrt_nth_less [OF batch_unique [OF run assms(3,2,4,5)] assms(6)] assms(7-11) by (simp add: res)
qed

definition plain_js :: js_lib where
  "plain_js = \<lparr>num_text = (\<lambda>_. ''0''), array_text = (\<lambda>_. []), date_text = (\<lambda>_. []), text_num = (\<lambda>_. NaN), float_num = (\<lambda>_. NaN),
     date_ok = (\<lambda>_. False), url_ok = (\<lambda>_. False), json_ok = (\<lambda>_. False)\<rparr>"

definition all_checks :: voptions where
  "all_checks = \<lparr>stopOnFirstError = False, maxErrors = None, validateUnique = True, validateForeignKeys = True\<rparr>"

definition plain_rule :: "string \<Rightarrow> rule_base" where
  "plain_rule f = \<lparr>rb_field = f, rb_message = None, rb_severity = None\<rparr>"

lemma accepted_records_unique_witness:
  "\<exists>res. validate_batch plain_js (\<lambda>_ _ _. Inr True) all_checks [Unique (plain_rule ''sku'') False]
      [[(''sku'', Text ''A1'')], [(''sku'', Text ''b2'')], [(''sku'', Text ''a1'')]] = Inr res \<and>
    \<not> same_value (compare_value plain_js False (field_value (rr_record (b_results res ! 1)) ''sku''))
      (compare_value plain_js False (field_value (rr_record (b_results res ! 0)) ''sku''))" (is "\<exists>res. ?run = Inr res \<and> _")
proof -
  have "case ?run of Inl _ \<Rightarrow> False | Inr res \<Rightarrow> length (b_results res) = 3 \<and> rr_isValid (b_results res ! 0) \<and> rr_isValid (b_results res ! 1) \<and>
      field_value (rr_record (b_results res ! 0)) ''sku'' = Text ''A1'' \<and> field_value (rr_record (b_results res ! 1)) ''sku'' = Text ''b2''"
    by code_simp
  then obtain res where r: "?run = Inr res" and v: "length (b_results res) = 3" "rr_isValid (b_results res ! 0)" "rr_isValid (b_results res ! 1)"
      "field_value (rr_record (b_results res ! 0)) ''sku'' = Text ''A1''" "field_value (rr_record (b_results res ! 1)) ''sku'' = Text ''b2''"
    by (cases ?run) simp_all
  show ?thesis
    using accepted_records_unique [OF r, of "plain_rule ''sku''" False 0 1] r v
    by (simp add: all_checks_def sane_def plain_rule_def blank_def nullish_def)
qed

text \<open>The report of a batch is consistent: its results are a prefix of the records in order with row
  numbers from 2, a record is valid exactly if it has no errors, valid and invalid records add up,
  the summary counts every issue, without a stop option all records are there, with
  \<open>stopOnFirstError\<close> only the last can be invalid, and \<open>maxErrors\<close> is not reached before the last.\<close>

theorem batch_report_consistent:
  assumes "validate_batch js lkp opt rules recs = Inr res"
  shows "let rs = b_results res; k = length rs in
    k \<le> length recs \<and> map rr_record rs = take k recs \<and> map rr_row rs = map (\<lambda>j. 2 + int j) [0..<k] \<and>
    (\<forall>r \<in> set rs. rr_isValid r = (rr_errors r = [])) \<and>
    b_validRecords res + b_invalidRecords res = k \<and>
    s_errors (b_summary res) = length (b_errors res) \<and> s_warnings (b_summary res) = length (b_warnings res) \<and>
    (\<not> stopOnFirstError opt \<and> maxErrors opt = None \<longrightarrow> k = length recs) \<and>
    (stopOnFirstError opt \<longrightarrow> (\<forall>r \<in> set (butlast rs). rr_isValid r)) \<and>
    (\<forall>n. maxErrors opt = Some n \<and> 0 < n \<longrightarrow> int (length (concat (map rr_errors (butlast rs)))) < n)"
proof -
  obtain ctx rs ctx' where run: "batch_records js lkp opt rules 0 recs [] ctx = (Inr rs, ctx')"
    and res: "res = batch_report (length recs) rs"
    using assms by (auto simp: validate_batch_def Let_def split: sum.splits) (metis prod.collapse)+
  obtain k where k: "k \<le> length recs" "map rr_record rs = take k recs" "map rr_row rs = map (\<lambda>j. 2 + int j) [0..<k]"
    "\<forall>r \<in> set rs. result_ok r" "stopOnFirstError opt \<longrightarrow> (\<forall>r \<in> set (butlast rs). rr_errors r = [])"
    "butlast rs \<noteq> [] \<longrightarrow> \<not> enough_errors opt (concat (map rr_errors (butlast rs)))"
    "\<not> stopOnFirstError opt \<and> maxErrors opt = None \<longrightarrow> k = length recs"
    using batch_results [OF run] by auto
  have len: "length rs = k" using arg_cong [OF k(2), of length] k(1) by simp
  have sev: "\<forall>e \<in> set (concat (map rr_errors rs)). e_severity e = ERROR" "\<forall>e \<in> set (concat (map rr_warnings rs)). e_severity e = WARNING"
    using k(4) by (auto simp: result_ok_def)
  have counts: "s_errors (b_summary res) = length (b_errors res)" "s_warnings (b_summary res) = length (b_warnings res)"
    using sev by (simp_all add: res batch_report_def generate_summary_def Let_def filter_True filter_False)
  have add: "b_validRecords res + b_invalidRecords res = k"
    using sum_length_filter_compl [of rr_isValid rs] len by (simp add: res batch_report_def Let_def)
  have most: "int (length (concat (map rr_errors (butlast rs)))) < n" if "maxErrors opt = Some n" "0 < n" for n
    using k(6) that by (cases "butlast rs = []") (auto simp: enough_errors_def)
  have "b_results res = rs" by (simp add: res batch_report_def Let_def)
  then show ?thesis
    using k len counts add most in_set_butlastD [of _ rs] by (auto simp: Let_def result_ok_def)
qed

lemma batch_report_consistent_witness:
  "\<exists>res. validate_batch plain_js (\<lambda>_ _ _. Inr True) all_checks [Required (plain_rule ''name'')]
      [[(''name'', Text ''x'')], []] = Inr res \<and> b_validRecords res + b_invalidRecords res = length (b_results res)"
proof -
  obtain res where r: "validate_batch plain_js (\<lambda>_ _ _. Inr True) all_checks [Required (plain_rule ''name'')]
      [[(''name'', Text ''x'')], []] = Inr res"
    by (simp add: validate_batch_def preload_unique_constraints_def map_filter_def validate_record_def all_checks_def enough_errors_def)
  with batch_report_consistent [OF r] show ?thesis by (simp add: Let_def)
qed

text \<open>The cache of foreign keys changes nothing but the number of queries: if look-ups with the same
  cache key answer the same, a batch has the same results with it as without a cache.\<close>

theorem foreign_key_cache_transparent:
  assumes "key_determines js lkp"
  shows "fst (batch_records js lkp opt rules i recs acc \<lparr>existingData = d, fk_cache = Some (\<lambda>_. None)\<rparr>) =
    fst (batch_records js lkp opt rules i recs acc \<lparr>existingData = d, fk_cache = None\<rparr>)"
  using agree_batch [OF assms, of "\<lparr>existingData = d, fk_cache = Some (\<lambda>_. None)\<rparr>" "\<lparr>existingData = d, fk_cache = None\<rparr>"]
  by (simp add: same_but_cache_def agree_def)

lemma foreign_key_cache_transparent_witness:
  "fst (batch_records plain_js (\<lambda>_ _ _. Inr False) all_checks [ForeignKey (plain_rule ''p'') ''Product'' ''id'' False] 0
      [[(''p'', Text ''1'')]] [] \<lparr>existingData = (\<lambda>_. None), fk_cache = Some (\<lambda>_. None)\<rparr>) =
   fst (batch_records plain_js (\<lambda>_ _ _. Inr False) all_checks [ForeignKey (plain_rule ''p'') ''Product'' ''id'' False] 0
      [[(''p'', Text ''1'')]] [] \<lparr>existingData = (\<lambda>_. None), fk_cache = None\<rparr>)"
  by (rule foreign_key_cache_transparent) (simp add: key_determines_def)

end
