(* ===== verification/Dynamic_Limits.thy ===== *)
theory Dynamic_Limits
  imports Rate_Window Rate_Bucket Cart_Cache
begin

section \<open>Dynamic rate limits\<close>

text \<open>
  \<open>gateway/rate-limiting/services/dynamic-rate-limit.service.ts\<close>: the table of overrides, the
  choice of the one that applies to a request with its five minute cache in Redis, and the check
  with the strategy it names. The cache holds the word \<open>null\<close> or the text of the row; a text of
  another shape counts as one that cannot be parsed. \<open>undefined\<close> in an update leaves a column.
\<close>

datatype strategy_kind = TOKEN_BUCKET | LEAKY_BUCKET | FIXED_WINDOW | SLIDING_WINDOW | ADAPTIVE

record override_row =
  ov_id :: string
  ov_userId :: "string option"
  ov_apiKey :: "string option"
  ov_endpoint :: string
  ov_requestLimit :: int
  ov_timeWindowMs :: int
  ov_strategy :: strategy_kind
  ov_priority :: int
  ov_reason :: "string option"
  ov_expiresAt :: "ms option"
  ov_createdAt :: ms

text \<open>What \<open>checkLimit\<close> reads of an override, from the table or from the cache.\<close>

record override_view =
  vw_limit :: int
  vw_window :: int
  vw_strategy :: string

record 's dl_world =
  dl_rows :: "override_row list"
  dl_redis :: "'s redis_service"
  dl_violations :: "(string \<times> string \<times> string) list"

fun strategy_text :: "strategy_kind \<Rightarrow> string" where
  "strategy_text TOKEN_BUCKET = ''TOKEN_BUCKET''"
| "strategy_text LEAKY_BUCKET = ''LEAKY_BUCKET''"
| "strategy_text FIXED_WINDOW = ''FIXED_WINDOW''"
| "strategy_text SLIDING_WINDOW = ''SLIDING_WINDOW''"
| "strategy_text ADAPTIVE = ''ADAPTIVE''"

text \<open>The registry of the constructor: three of the five strategies.\<close>

definition strategy_check :: "string \<Rightarrow> (rl_config \<Rightarrow> string \<Rightarrow> 's redis_service \<Rightarrow> ms \<Rightarrow> rl_outcome \<times> 's redis_service) option" where
  "strategy_check s =
     (if s = ''TOKEN_BUCKET'' then Some token_bucket_check
      else if s = ''LEAKY_BUCKET'' then Some leaky_bucket_check
      else if s = ''SLIDING_WINDOW'' then Some sliding_window_check
      else None)"

definition OVERRIDE_TTL :: int where "OVERRIDE_TTL = 300"

definition override_key :: "string option \<Rightarrow> string \<Rightarrow> string" where
  "override_key uid ep = ''ratelimit:override:'' @ str_or uid ''anon'' @ '':'' @ ep"

definition build_rate_limit_key :: "string option \<Rightarrow> string \<Rightarrow> string \<Rightarrow> string \<Rightarrow> string" where
  "build_rate_limit_key uid ep httpMethod kind =
     ''ratelimit:'' @ kind @ '':'' @ str_or uid ''anonymous'' @ '':'' @ httpMethod @ '':'' @ ep"

definition override_json :: "override_row \<Rightarrow> json" where
  "override_json r = JObj
     [(''id'', j_str (ov_id r)), (''userId'', j_opt j_str (ov_userId r)), (''endpoint'', j_str (ov_endpoint r)),
      (''requestLimit'', j_int (ov_requestLimit r)), (''timeWindowMs'', j_int (ov_timeWindowMs r)),
      (''strategy'', j_str (strategy_text (ov_strategy r))), (''priority'', j_int (ov_priority r)),
      (''expiresAt'', j_opt j_int (ov_expiresAt r))]"

definition view_of :: "override_row \<Rightarrow> override_view" where
  "view_of r = \<lparr>vw_limit = ov_requestLimit r, vw_window = ov_timeWindowMs r, vw_strategy = strategy_text (ov_strategy r)\<rparr>"

definition view_of_json :: "json \<Rightarrow> override_view option" where
  "view_of_json j = (case j of JObj fs \<Rightarrow> do {
       n \<leftarrow> Option.bind (map_of fs ''requestLimit'') un_int;
       t \<leftarrow> Option.bind (map_of fs ''timeWindowMs'') un_int;
       s \<leftarrow> Option.bind (map_of fs ''strategy'') un_str;
       Some \<lparr>vw_limit = n, vw_window = t, vw_strategy = s\<rparr> }
   | _ \<Rightarrow> None)"

lemma view_of_override_json [simp]: "view_of_json (override_json r) = Some (view_of r)"
  by (simp add: view_of_json_def override_json_def view_of_def)

subsection \<open>The choice of an override\<close>

definition unexpired :: "ms \<Rightarrow> override_row \<Rightarrow> bool" where
  "unexpired now r \<longleftrightarrow> (case ov_expiresAt r of None \<Rightarrow> True | Some e \<Rightarrow> now \<le> e)"

definition applies :: "string option \<Rightarrow> string \<Rightarrow> ms \<Rightarrow> override_row \<Rightarrow> bool" where
  "applies uid ep now r \<longleftrightarrow> unexpired now r \<and>
     (truthy_str uid \<and> ov_userId r = uid \<and> ov_endpoint r = ep \<or>
      ov_userId r = None \<and> ov_endpoint r = ep \<or>
      truthy_str uid \<and> ov_userId r = uid \<and> ov_endpoint r = ''*'')"

definition by_priority :: "override_row \<Rightarrow> override_row \<Rightarrow> bool" where
  "by_priority a b \<longleftrightarrow> ov_priority b < ov_priority a \<or> ov_priority a = ov_priority b \<and> ov_createdAt b \<le> ov_createdAt a"

definition select_override :: "string option \<Rightarrow> string \<Rightarrow> ms \<Rightarrow> override_row list \<Rightarrow> override_row option" where
  "select_override uid ep now rows =
     (case sort_by by_priority (filter (applies uid ep now) rows) of [] \<Rightarrow> None | r # _ \<Rightarrow> Some r)"

definition skip_db_lookup :: "string option \<Rightarrow> string \<Rightarrow> bool" where
  "skip_db_lookup uid ep \<longleftrightarrow> ep \<in> {''/api/v1/auth/firebase'', ''/api/v1/auth/firebase-sync''} \<and> \<not> truthy_str uid"

text \<open>\<open>null\<close> and \<open>'null'\<close>, or the text of the row.\<close>

definition cached_override :: "override_row option \<Rightarrow> json" where
  "cached_override x = (case x of None \<Rightarrow> JStr (Plain ''null'') | Some r \<Rightarrow> JStr (Stringified (override_json r)))"

definition find_applicable_override ::
  "string option \<Rightarrow> string \<Rightarrow> ms \<Rightarrow> 's dl_world \<Rightarrow> (string + override_view option) \<times> 's dl_world" where
  "find_applicable_override uid ep now w =
     (let cached = redis_get (dl_redis w) now (override_key uid ep)
      in if cached \<noteq> JNull then
           (if cached = JStr (Plain ''null'') then Inr None
            else case Option.bind (json_parse_value cached) view_of_json of
                None \<Rightarrow> Inl ''SyntaxError'' | Some v \<Rightarrow> Inr (Some v), w)
         else if skip_db_lookup uid ep then (Inr None, w)
         else (let r = select_override uid ep now (dl_rows w)
               in (Inr (map_option view_of r),
                   w\<lparr>dl_redis := snd (redis_set (dl_redis w) now (override_key uid ep) (cached_override r) OVERRIDE_TTL)\<rparr>)))"

subsection \<open>The check\<close>

definition categorize_endpoint :: "string \<Rightarrow> string" where
  "categorize_endpoint ep = (case List.find (\<lambda>c. starts_with ep (''/api/v1/'' @ c))
     [''auth'', ''users'', ''products'', ''orders'', ''payments'', ''devices'', ''alerts'', ''health''] of
       Some c \<Rightarrow> c | None \<Rightarrow> ''other'')"

definition fail_open :: rl_result where
  "fail_open = \<lparr>r_allowed = True, r_current = Some 0, r_limit = 0, r_remaining = 0, r_resetMs = 0,
     r_retryAfterMs = None, r_metadata = None\<rparr>"

definition check_limit :: "string option \<Rightarrow> string \<Rightarrow> string \<Rightarrow> ms \<Rightarrow> 's dl_world \<Rightarrow> rl_result \<times> 's dl_world" where
  "check_limit uid ep httpMethod now w =
     (case find_applicable_override uid ep now w of
        (Inl e, w1) \<Rightarrow> (fail_open, w1)
      | (Inr ov, w1) \<Rightarrow>
          (let cfg = (case ov of Some v \<Rightarrow> plain_config (vw_limit v) (vw_window v) | None \<Rightarrow> plain_config 100 60000);
               strategy = strategy_check (case ov of Some v \<Rightarrow> vw_strategy v | None \<Rightarrow> ''TOKEN_BUCKET'');
               key = build_rate_limit_key uid ep httpMethod (if ov = None then ''default'' else ''custom'')
           in case strategy of
                None \<Rightarrow> (fail_open, w1)
              | Some check \<Rightarrow>
                  (case check cfg key (dl_redis w1) now of
                     (Inl e, rs) \<Rightarrow> (fail_open, w1\<lparr>dl_redis := rs\<rparr>)
                   | (Inr r, rs) \<Rightarrow> (r, w1\<lparr>dl_redis := rs, dl_violations := dl_violations w1 @
                       (if r_allowed r then []
                        else [(if truthy_str uid then ''authenticated'' else ''anonymous'', categorize_endpoint ep,
                               if ov = None then ''default'' else ''custom_override'')])\<rparr>))))"

subsection \<open>Administration\<close>

record override_dto =
  od_userId :: "string option"
  od_apiKey :: "string option"
  od_endpoint :: string
  od_requestLimit :: int
  od_timeWindowMs :: int
  od_strategy :: strategy_kind
  od_priority :: "int option"
  od_reason :: "string option"
  od_expiresAt :: "ms option"

record override_update =
  ou_requestLimit :: "int option"
  ou_timeWindowMs :: "int option"
  ou_strategy :: "strategy_kind option"
  ou_priority :: "int option"
  ou_reason :: "string option"
  ou_expiresAt :: "ms option"

text \<open>The table is unique in user and endpoint, where a NULL user is never equal. That the user exists,
  a foreign key, is left to the caller.\<close>

definition create_override :: "string \<Rightarrow> override_dto \<Rightarrow> ms \<Rightarrow> 's dl_world \<Rightarrow> override_row res \<times> 's dl_world" where
  "create_override newId d now w =
     (if od_userId d \<noteq> None \<and> (\<exists>r \<in> set (dl_rows w). ov_userId r = od_userId d \<and> ov_endpoint r = od_endpoint d)
      then (Inl (InternalError ''P2002 unique constraint''), w)
      else (let r = \<lparr>ov_id = newId, ov_userId = od_userId d, ov_apiKey = od_apiKey d, ov_endpoint = od_endpoint d,
                 ov_requestLimit = od_requestLimit d, ov_timeWindowMs = od_timeWindowMs d, ov_strategy = od_strategy d,
                 ov_priority = num_or (od_priority d) 0, ov_reason = od_reason d, ov_expiresAt = od_expiresAt d,
                 ov_createdAt = now\<rparr>
            in (Inr r, w\<lparr>dl_rows := dl_rows w @ [r]\<rparr>)))"

definition keep_or :: "'a option \<Rightarrow> 'a \<Rightarrow> 'a" where
  "keep_or x old = (case x of None \<Rightarrow> old | Some a \<Rightarrow> a)"

definition apply_override_update :: "override_update \<Rightarrow> override_row \<Rightarrow> override_row" where
  "apply_override_update u r =
     r\<lparr>ov_requestLimit := keep_or (ou_requestLimit u) (ov_requestLimit r),
       ov_timeWindowMs := keep_or (ou_timeWindowMs u) (ov_timeWindowMs r),
       ov_strategy := keep_or (ou_strategy u) (ov_strategy r), ov_priority := keep_or (ou_priority u) (ov_priority r),
       ov_reason := (if ou_reason u = None then ov_reason r else ou_reason u),
       ov_expiresAt := (if ou_expiresAt u = None then ov_expiresAt r else ou_expiresAt u)\<rparr>"

definition override_not_found :: http_error where
  "override_not_found = NotFound ''Rate limit override not found''"

definition update_override :: "string \<Rightarrow> override_update \<Rightarrow> 's dl_world \<Rightarrow> override_row res \<times> 's dl_world" where
  "update_override oid u w =
     (case find_by ov_id oid (dl_rows w) of
        None \<Rightarrow> (Inl override_not_found, w)
      | Some r \<Rightarrow> (Inr (apply_override_update u r),
          w\<lparr>dl_rows := update_by ov_id oid (apply_override_update u) (dl_rows w)\<rparr>))"

definition delete_override :: "string \<Rightarrow> 's dl_world \<Rightarrow> override_row res \<times> 's dl_world" where
  "delete_override oid w =
     (case find_by ov_id oid (dl_rows w) of
        None \<Rightarrow> (Inl override_not_found, w)
      | Some r \<Rightarrow> (Inr r, w\<lparr>dl_rows := filter (\<lambda>x. ov_id x \<noteq> oid) (dl_rows w)\<rparr>))"

definition get_overrides :: "nat \<Rightarrow> nat \<Rightarrow> 's dl_world \<Rightarrow> override_row list \<times> nat" where
  "get_overrides skp tk w = (take tk (drop skp (sort_by by_priority (dl_rows w))), length (dl_rows w))"

definition get_user_overrides :: "string \<Rightarrow> 's dl_world \<Rightarrow> override_row list" where
  "get_user_overrides uid w =
     sort_by (\<lambda>a b. ov_createdAt b \<le> ov_createdAt a) (filter (\<lambda>r. ov_userId r = Some uid) (dl_rows w))"

definition cleanup_expired_overrides :: "ms \<Rightarrow> 's dl_world \<Rightarrow> nat \<times> 's dl_world" where
  "cleanup_expired_overrides now w =
     (let keep = filter (unexpired now) (dl_rows w)
      in (length (dl_rows w) - length keep, w\<lparr>dl_rows := keep\<rparr>))"

subsection \<open>The selection\<close>

lemma select_override_None_iff: "select_override uid ep now rows = None \<longleftrightarrow> (\<forall>r \<in> set rows. \<not> applies uid ep now r)"
proof -
  have "sort_by by_priority (filter (applies uid ep now) rows) = [] \<longleftrightarrow> filter (applies uid ep now) rows = []"
    by (metis length_0_conv length_sort_by)
  then show ?thesis by (auto simp: select_override_def filter_empty_conv split: list.split)
qed

lemma select_override_SomeD:
  assumes "select_override uid ep now rows = Some r"
  shows "r \<in> set rows \<and> applies uid ep now r \<and> (\<forall>x \<in> set rows. applies uid ep now x \<longrightarrow> by_priority r x)"
proof -
  obtain rs where "sort_by by_priority (filter (applies uid ep now) rows) = r # rs"
    using assms by (auto simp: select_override_def split: list.splits)
  then have "r \<in> set (filter (applies uid ep now) rows) \<and> (\<forall>x \<in> set (filter (applies uid ep now) rows). by_priority r x)"
    by (rule sort_by_hd [rotated 2]) (auto simp: by_priority_def)
  then show ?thesis by simp
qed

text \<open>A user the key names uniquely: no colon in the id, and not the word for anonymous.\<close>

definition plain_user :: "string option \<Rightarrow> bool" where
  "plain_user uid \<longleftrightarrow> CHR '':'' \<notin> set (str_or uid ''anon'') \<and> (truthy_str uid \<longrightarrow> str_or uid ''anon'' \<noteq> ''anon'')"

lemma append_colon_inj:
  "CHR '':'' \<notin> set a \<Longrightarrow> CHR '':'' \<notin> set b \<Longrightarrow> a @ CHR '':'' # x = b @ CHR '':'' # y \<Longrightarrow> a = b \<and> x = y"
proof (induction a arbitrary: b)
  case Nil
  then show ?case by (cases b) auto
next
  case (Cons c a)
  then show ?case by (cases b) auto
qed

lemma override_key_determines:
  assumes "override_key uid ep = override_key uid' ep'" "plain_user uid" "plain_user uid'"
  shows "ep = ep' \<and> truthy_str uid = truthy_str uid' \<and> (truthy_str uid \<longrightarrow> uid = uid')"
proof -
  have "str_or uid ''anon'' = str_or uid' ''anon'' \<and> ep = ep'"
    using assms by (intro append_colon_inj) (simp_all add: override_key_def plain_user_def)
  then show ?thesis using assms(2,3) by (auto simp: plain_user_def truthy_str_def str_or_def split: option.splits if_splits)
qed

lemma applies_cong:
  "truthy_str uid = truthy_str uid' \<Longrightarrow> (truthy_str uid \<Longrightarrow> uid = uid') \<Longrightarrow> applies uid = applies uid'"
  by (auto simp: applies_def fun_eq_iff)

lemma keys_apart_override [simp]:
  "override_key uid ep \<noteq> tb_key k" "override_key uid ep \<noteq> lb_key k" "override_key uid ep \<noteq> sw_key k"
  by (simp_all add: override_key_def tb_key_def lb_key_def sw_key_def)

subsection \<open>The cache of overrides\<close>

context redis_server
begin

lemma strategy_frame:
  assumes "strategy_check s = Some check" "up rs" "0 < cfg_windowMs cfg"
  shows "up (snd (check cfg key rs now)) \<and>
    (\<forall>u uid ep. redis_get (snd (check cfg key rs now)) u (override_key uid ep) = redis_get rs u (override_key uid ep))"
proof -
  have w: "0 < cfg_windowMs cfg * 2" "0 < cfg_windowMs cfg + 1000" using assms(3) by simp_all
  note set = cache.get_set [OF assms(2) w(1)] cache.get_set [OF assms(2) w(2)]
    cache.ready_set [OF assms(2) w(1)] cache.ready_set [OF assms(2) w(2)]
  have "check \<in> {token_bucket_check, leaky_bucket_check, sliding_window_check}"
    using assms(1) by (auto simp: strategy_check_def split: if_splits)
  then show ?thesis
    using assms(2) by (auto simp: token_bucket_check_def leaky_bucket_check_def sliding_window_check_def write_times_def
        Let_def set split: option.split)
qed

end

definition rows_ok :: "override_row list \<Rightarrow> bool" where
  "rows_ok rows \<longleftrightarrow> (\<forall>r \<in> set rows. 0 < ov_timeWindowMs r)"

lemma cached_override_read:
  "j = cached_override x \<Longrightarrow> j \<noteq> JNull \<and>
    (if j = JStr (Plain ''null'') then Inr None
     else case Option.bind (json_parse_value j) view_of_json of None \<Rightarrow> Inl ''SyntaxError'' | Some v \<Rightarrow> Inr (Some v)) =
    Inr (map_option view_of x)"
  by (cases x) (simp_all add: cached_override_def)

text \<open>Requests and administration, with their times.\<close>

datatype dl_event = CheckLimit "string option" string string | CreateOverride string override_dto
  | UpdateOverride string override_update | DeleteOverride string | CleanupOverrides

fun dl_step :: "ms \<Rightarrow> dl_event \<Rightarrow> 's dl_world \<Rightarrow> 's dl_world" where
  "dl_step now (CheckLimit uid ep m) w = snd (check_limit uid ep m now w)"
| "dl_step now (CreateOverride i d) w = snd (create_override i d now w)"
| "dl_step now (UpdateOverride i u) w = snd (update_override i u w)"
| "dl_step now (DeleteOverride i) w = snd (delete_override i w)"
| "dl_step now CleanupOverrides w = snd (cleanup_expired_overrides now w)"

fun dl_run :: "(ms \<times> dl_event) list \<Rightarrow> 's dl_world \<Rightarrow> 's dl_world" where
  "dl_run [] w = w"
| "dl_run ((t, e) # es) w = dl_run es (dl_step t e w)"

lemma dl_run_append: "dl_run (es @ es') w = dl_run es' (dl_run es w)"
  by (induction es w rule: dl_run.induct) simp_all

text \<open>Validated requests: positive windows, users named uniquely.\<close>

fun valid_event :: "dl_event \<Rightarrow> bool" where
  "valid_event (CheckLimit uid ep m) = plain_user uid"
| "valid_event (CreateOverride i d) = (0 < od_timeWindowMs d)"
| "valid_event (UpdateOverride i u) = (case ou_timeWindowMs u of None \<Rightarrow> True | Some t \<Rightarrow> 0 < t)"
| "valid_event _ = True"

lemma check_limit_rows [simp]: "dl_rows (snd (check_limit uid ep m now w)) = dl_rows w"
  by (auto simp: check_limit_def find_applicable_override_def Let_def split: option.split sum.split prod.split)

lemma rows_ok_step: "valid_event e \<Longrightarrow> rows_ok (dl_rows w) \<Longrightarrow> rows_ok (dl_rows (dl_step t e w))"
proof (cases e)
  case (UpdateOverride i u)
  assume "valid_event e" "rows_ok (dl_rows w)"
  moreover from this have "\<forall>r \<in> set (update_by ov_id i (apply_override_update u) (dl_rows w)). 0 < ov_timeWindowMs r"
    by (auto simp: UpdateOverride rows_ok_def update_by_def set_update_where apply_override_update_def keep_or_def split: option.splits)
  ultimately show ?thesis by (simp add: UpdateOverride update_override_def rows_ok_def split: option.split)
qed (auto simp: rows_ok_def create_override_def delete_override_def cleanup_expired_overrides_def Let_def split: option.split)

lemma step_redis: "dl_redis (dl_step t e w) = dl_redis w" if "\<forall>uid ep m. e \<noteq> CheckLimit uid ep m"
  using that by (cases e) (auto simp: create_override_def update_override_def delete_override_def
      cleanup_expired_overrides_def Let_def split: option.split)

fun later_than :: "ms \<Rightarrow> (ms \<times> dl_event) list \<Rightarrow> bool" where
  "later_than t0 [] = True"
| "later_than t0 ((t, e) # es) = (t0 \<le> t \<and> later_than t es)"

lemma later_than_append: "later_than t0 (es @ es') \<longleftrightarrow> later_than t0 es \<and> later_than (if es = [] then t0 else fst (last es)) es'"
  by (induction t0 es rule: later_than.induct) auto

text \<open>The override \<open>x\<close> was the choice from the table as it was at time \<open>s\<close> of the run, before its
  event then.\<close>

definition chosen_at :: "(ms \<times> dl_event) list \<Rightarrow> 's dl_world \<Rightarrow> string option \<Rightarrow> string \<Rightarrow> ms \<Rightarrow> override_row option \<Rightarrow> bool" where
  "chosen_at es w uid ep s x \<longleftrightarrow>
     (\<exists>es1 e es2. es = es1 @ (s, e) # es2 \<and> x = select_override uid ep s (dl_rows (dl_run es1 w)))"

lemma chosen_at_snoc: "chosen_at es w uid ep s x \<Longrightarrow> chosen_at (es @ [te]) w uid ep s x"
  unfolding chosen_at_def by (metis append.assoc append_Cons)

lemma chosen_at_last: "chosen_at (es @ [(t, e)]) w uid ep t (select_override uid ep t (dl_rows (dl_run es w)))"
  unfolding chosen_at_def by blast

context redis_server
begin

definition cache_recent :: "(ms \<times> dl_event) list \<Rightarrow> 's dl_world \<Rightarrow> ms \<Rightarrow> 's redis_service \<Rightarrow> bool" where
  "cache_recent es w0 now rs \<longleftrightarrow> up rs \<and>
     (\<forall>uid ep u. plain_user uid \<longrightarrow> now \<le> u \<longrightarrow> redis_get rs u (override_key uid ep) \<noteq> JNull \<longrightarrow>
        (\<exists>s x. chosen_at es w0 uid ep s x \<and> s \<le> now \<and> u < s + 300000 \<and>
           redis_get rs u (override_key uid ep) = cached_override x))"

lemma cache_recent_later: "cache_recent es w0 now rs \<Longrightarrow> now \<le> t \<Longrightarrow> cache_recent (es @ es') w0 t rs"
proof -
  have "chosen_at es w0 uid ep s x \<Longrightarrow> chosen_at (es @ es') w0 uid ep s x" for uid ep s x
    unfolding chosen_at_def by (metis append.assoc append_Cons)
  then show "cache_recent es w0 now rs \<Longrightarrow> now \<le> t \<Longrightarrow> cache_recent (es @ es') w0 t rs"
    unfolding cache_recent_def by (meson order_trans)
qed

lemma cache_recent_frame:
  "cache_recent es w0 now rs \<Longrightarrow> up rs' \<Longrightarrow> (\<And>u uid ep. redis_get rs' u (override_key uid ep) = redis_get rs u (override_key uid ep)) \<Longrightarrow>
    cache_recent es w0 now rs'"
  by (simp add: cache_recent_def)

text \<open>One look-up: what it answers, and what the cache holds after it.\<close>

lemma find_override_recent:
  assumes c: "cache_recent es w0 t (dl_redis w)" and w: "dl_rows w = dl_rows (dl_run es w0)" and uid: "plain_user uid"
  obtains x w1 where "find_applicable_override uid ep t w = (Inr (map_option view_of x), w1)" "dl_rows w1 = dl_rows w"
    "cache_recent (es @ [(t, e)]) w0 t (dl_redis w1)"
    "skip_db_lookup uid ep \<and> x = None \<or> (\<exists>s. chosen_at (es @ [(t, e)]) w0 uid ep s x \<and> s \<le> t \<and> t < s + 300000)"
proof (cases "redis_get (dl_redis w) t (override_key uid ep) = JNull")
  case False
  then obtain s x where x: "chosen_at es w0 uid ep s x" "s \<le> t" "t < s + 300000"
    "redis_get (dl_redis w) t (override_key uid ep) = cached_override x"
    using c uid unfolding cache_recent_def by blast
  show thesis
  proof (rule that [of x w])
    show "find_applicable_override uid ep t w = (Inr (map_option view_of x), w)"
      using cached_override_read [OF x(4)] by (simp add: find_applicable_override_def Let_def)
    show "cache_recent (es @ [(t, e)]) w0 t (dl_redis w)" by (rule cache_recent_later [OF c order_refl])
    show "skip_db_lookup uid ep \<and> x = None \<or> (\<exists>s. chosen_at (es @ [(t, e)]) w0 uid ep s x \<and> s \<le> t \<and> t < s + 300000)"
      using chosen_at_snoc [OF x(1)] x(2,3) by blast
  qed simp
next
  case True
  have c': "cache_recent (es @ [(t, e)]) w0 t (dl_redis w)" by (rule cache_recent_later [OF c order_refl])
  show thesis
  proof (cases "skip_db_lookup uid ep")
    case skip: True
    show thesis by (rule that [of None w]) (use True skip c' in \<open>simp_all add: find_applicable_override_def Let_def\<close>)
  next
    case False
    let ?x = "select_override uid ep t (dl_rows w)" and ?k = "override_key uid ep"
    let ?rs = "snd (redis_set (dl_redis w) t ?k (cached_override ?x) OVERRIDE_TTL)"
    have up: "up (dl_redis w)" and ttl: "0 < OVERRIDE_TTL" using c by (simp_all add: cache_recent_def OVERRIDE_TTL_def)
    have get: "redis_get ?rs u k = (if k = ?k then if u < t + 300000 then cached_override ?x else JNull else redis_get (dl_redis w) u k)" for u k
      using set_get_up [OF up ttl] by (simp add: OVERRIDE_TTL_def)
    have ch: "chosen_at (es @ [(t, e)]) w0 uid ep t ?x" unfolding w by (rule chosen_at_last)
    have "\<exists>s x. chosen_at (es @ [(t, e)]) w0 uid' ep' s x \<and> s \<le> t \<and> u < s + 300000 \<and> redis_get ?rs u (override_key uid' ep') = cached_override x"
      if p: "plain_user uid'" "t \<le> u" "redis_get ?rs u (override_key uid' ep') \<noteq> JNull" for uid' ep' u
    proof (cases "override_key uid' ep' = ?k")
      case True
      then have "ep' = ep" "truthy_str uid' = truthy_str uid" "truthy_str uid' \<longrightarrow> uid' = uid"
        using override_key_determines [OF _ p(1) uid] by blast+
      then have "applies uid' = applies uid" by (intro applies_cong) simp_all
      then have "select_override uid' ep' t rows = select_override uid ep t rows" for rows
        by (simp add: select_override_def \<open>ep' = ep\<close>)
      then have "chosen_at (es @ [(t, e)]) w0 uid' ep' t ?x"
        using chosen_at_last [of es t e w0 uid' ep'] by (simp add: w \<open>ep' = ep\<close>)
      moreover have "u < t + 300000" "redis_get ?rs u (override_key uid' ep') = cached_override ?x"
        using p(3) unfolding True get by (simp_all split: if_splits)
      ultimately show ?thesis by blast
    next
      case False
      with p c' show ?thesis by (simp add: get cache_recent_def)
    qed
    then have "cache_recent (es @ [(t, e)]) w0 t ?rs" using cache.ready_set [OF up ttl] by (simp add: cache_recent_def)
    then show thesis
      by (intro that [of ?x "w\<lparr>dl_redis := ?rs\<rparr>"]) (use True False ch in \<open>auto simp: find_applicable_override_def Let_def\<close>)
  qed
qed

end

context redis_server
begin

lemma check_limit_recent:
  assumes c: "cache_recent es w0 t (dl_redis w)" and w: "dl_rows w = dl_rows (dl_run es w0)" and uid: "plain_user uid"
    and ok: "\<And>s x. chosen_at (es @ [(t, e)]) w0 uid ep s (Some x) \<Longrightarrow> 0 < ov_timeWindowMs x"
  shows "cache_recent (es @ [(t, e)]) w0 t (dl_redis (snd (check_limit uid ep m t w)))"
proof -
  obtain x w1 where f: "find_applicable_override uid ep t w = (Inr (map_option view_of x), w1)" "dl_rows w1 = dl_rows w"
    "cache_recent (es @ [(t, e)]) w0 t (dl_redis w1)"
    "skip_db_lookup uid ep \<and> x = None \<or> (\<exists>s. chosen_at (es @ [(t, e)]) w0 uid ep s x \<and> s \<le> t \<and> t < s + 300000)"
    by (rule find_override_recent [OF c w uid])
  let ?cfg = "case map_option view_of x of Some v \<Rightarrow> plain_config (vw_limit v) (vw_window v) | None \<Rightarrow> plain_config 100 60000"
  let ?key = "build_rate_limit_key uid ep m (if x = None then ''default'' else ''custom'')"
  have win: "0 < cfg_windowMs ?cfg" using f(4) ok by (cases x) (auto simp: view_of_def)
  show ?thesis
  proof (cases "strategy_check (case map_option view_of x of Some v \<Rightarrow> vw_strategy v | None \<Rightarrow> ''TOKEN_BUCKET'')
      :: (rl_config \<Rightarrow> string \<Rightarrow> 's redis_service \<Rightarrow> ms \<Rightarrow> rl_outcome \<times> 's redis_service) option")
    case None
    then show ?thesis using f(3) by (simp add: check_limit_def f(1) Let_def)
  next
    case (Some check)
    have up: "up (dl_redis w1)" using f(3) by (simp add: cache_recent_def)
    note fr = strategy_frame [OF Some up win, of ?key t]
    have "dl_redis (snd (check_limit uid ep m t w)) = snd (check ?cfg ?key (dl_redis w1) t)"
      by (cases x; use Some in \<open>simp add: check_limit_def f(1) Let_def split: prod.split sum.split\<close>)
    then show ?thesis using cache_recent_frame [OF f(3), of "snd (check ?cfg ?key (dl_redis w1) t)"] fr by simp
  qed
qed

lemma rows_ok_run: "\<forall>(t, e) \<in> set es. valid_event e \<Longrightarrow> rows_ok (dl_rows w) \<Longrightarrow> rows_ok (dl_rows (dl_run es w))"
  by (induction es w rule: dl_run.induct) (auto intro: rows_ok_step)

lemma chosen_ok:
  assumes "chosen_at es w uid ep s (Some x)" "\<forall>(t, e) \<in> set es. valid_event e" "rows_ok (dl_rows w)"
  shows "0 < ov_timeWindowMs x"
proof -
  obtain es1 e es2 where es: "es = es1 @ (s, e) # es2" "Some x = select_override uid ep s (dl_rows (dl_run es1 w))"
    using assms(1) by (auto simp: chosen_at_def)
  have "rows_ok (dl_rows (dl_run es1 w))" by (rule rows_ok_run) (use assms(2,3) es(1) in auto)
  then show ?thesis using select_override_SomeD [OF es(2)[symmetric]] by (simp add: rows_ok_def)
qed

lemma dl_run_recent:
  assumes "up (dl_redis w0)" "\<forall>uid ep u. redis_get (dl_redis w0) u (override_key uid ep) = JNull" "rows_ok (dl_rows w0)"
    and "later_than start es" "\<forall>(t, e) \<in> set es. valid_event e"
  shows "cache_recent es w0 (if es = [] then start else fst (last es)) (dl_redis (dl_run es w0))"
  using assms(4,5)
proof (induction es rule: rev_induct)
  case Nil
  then show ?case using assms(1,2) by (simp add: cache_recent_def)
next
  case (snoc te es)
  obtain t e where te: "te = (t, e)" by fastforce
  have v: "\<forall>(t, e) \<in> set es. valid_event e" "valid_event e" and l: "later_than start es" "(if es = [] then start else fst (last es)) \<le> t"
    using snoc.prems by (auto simp: te later_than_append)
  have c: "cache_recent es w0 t (dl_redis (dl_run es w0))"
    using cache_recent_later [OF snoc.IH [OF l(1) v(1)] l(2), of "[]"] by simp
  have "cache_recent (es @ [(t, e)]) w0 t (dl_redis (dl_step t e (dl_run es w0)))"
  proof (cases "\<exists>uid ep m. e = CheckLimit uid ep m")
    case True
    then obtain uid ep m where e: "e = CheckLimit uid ep m" by blast
    have uid: "plain_user uid" using v(2) by (simp add: e)
    have ok: "0 < ov_timeWindowMs x" if "chosen_at (es @ [(t, e)]) w0 uid ep s (Some x)" for s x
      by (rule chosen_ok [OF that _ assms(3)]) (use v in auto)
    show ?thesis unfolding e dl_step.simps
      by (rule check_limit_recent [OF c refl uid]) (use ok in \<open>simp add: e\<close>)
  next
    case False
    then show ?thesis using cache_recent_later [OF c order_refl] by (simp add: step_redis)
  qed
  then show ?case by (simp add: te dl_run_append)
qed

end

subsection \<open>Properties\<close>

text \<open>The override applied to a request is at most five minutes old: whatever was created, changed,
  deleted or expired before, it is the one of highest priority and then newest among those that
  applied to the user and endpoint in the table as it was at some time within the last 300 s; where
  none did, the default limit applies.\<close>

theorem override_recent:
  fixes w :: "'s dl_world"
  assumes "redis_server c view" "redis_server.up c (dl_redis w)"
    and "\<forall>uid ep u. redis_get (dl_redis w) u (override_key uid ep) = JNull" "rows_ok (dl_rows w)"
    and "later_than start (es @ [(now, CheckLimit uid ep m)])" "\<forall>(t, e) \<in> set es. valid_event e"
    and "plain_user uid" "\<not> skip_db_lookup uid ep"
  shows "\<exists>s es1 e es2 x. es @ [(now, CheckLimit uid ep m)] = es1 @ (s, e) # es2 \<and> s \<le> now \<and> now < s + 300000 \<and>
    fst (find_applicable_override uid ep now (dl_run es w)) = Inr (map_option view_of x) \<and>
    (case x of None \<Rightarrow> \<forall>r \<in> set (dl_rows (dl_run es1 w)). \<not> applies uid ep s r
     | Some r \<Rightarrow> r \<in> set (dl_rows (dl_run es1 w)) \<and> applies uid ep s r \<and>
         (\<forall>r' \<in> set (dl_rows (dl_run es1 w)). applies uid ep s r' \<longrightarrow> by_priority r r'))"
proof -
  have l: "later_than start es" "(if es = [] then start else fst (last es)) \<le> now"
    using assms(5) by (auto simp: later_than_append)
  have "redis_server.cache_recent c es w (if es = [] then start else fst (last es)) (dl_redis (dl_run es w))"
    by (rule redis_server.dl_run_recent [OF assms(1-4) l(1) assms(6)])
  then have c: "redis_server.cache_recent c es w now (dl_redis (dl_run es w))"
    using redis_server.cache_recent_later [OF assms(1) _ l(2), of es w _ "[]"] by simp
  obtain x w1 where f: "find_applicable_override uid ep now (dl_run es w) = (Inr (map_option view_of x), w1)"
    "skip_db_lookup uid ep \<and> x = None \<or> (\<exists>s. chosen_at (es @ [(now, CheckLimit uid ep m)]) w uid ep s x \<and> s \<le> now \<and> now < s + 300000)"
    by (rule redis_server.find_override_recent [OF assms(1) c refl assms(7)])
  then obtain s es1 e es2 where s: "es @ [(now, CheckLimit uid ep m)] = es1 @ (s, e) # es2" "s \<le> now" "now < s + 300000"
    "x = select_override uid ep s (dl_rows (dl_run es1 w))"
    using assms(8) by (auto simp: chosen_at_def)
  have best: "case x of None \<Rightarrow> \<forall>r \<in> set (dl_rows (dl_run es1 w)). \<not> applies uid ep s r
     | Some r \<Rightarrow> r \<in> set (dl_rows (dl_run es1 w)) \<and> applies uid ep s r \<and>
         (\<forall>r' \<in> set (dl_rows (dl_run es1 w)). applies uid ep s r' \<longrightarrow> by_priority r r')"
    using select_override_SomeD [of uid ep s "dl_rows (dl_run es1 w)"] select_override_None_iff [of uid ep s "dl_rows (dl_run es1 w)"]
    unfolding s(4) [symmetric] by (cases x) simp_all
  show ?thesis
    by (rule exI [of _ s], rule exI [of _ es1], rule exI [of _ e], rule exI [of _ es2], rule exI [of _ x], intro conjI s(1-3) best)
      (simp add: f(1))
qed

definition sample_override :: "strategy_kind \<Rightarrow> override_row" where
  "sample_override k = \<lparr>ov_id = ''o1'', ov_userId = Some ''u1'', ov_apiKey = None, ov_endpoint = ''/api/v1/orders'',
     ov_requestLimit = 5, ov_timeWindowMs = 60000, ov_strategy = k, ov_priority = 10, ov_reason = None,
     ov_expiresAt = None, ov_createdAt = 0\<rparr>"

definition sample_limits :: "strategy_kind \<Rightarrow> mem dl_world" where
  "sample_limits k = \<lparr>dl_rows = [sample_override k], dl_redis = mem_service, dl_violations = []\<rparr>"

lemma override_recent_witness:
  "\<exists>x.
    fst (find_applicable_override (Some ''u1'') ''/api/v1/orders'' 299999
      (dl_run [(0, CheckLimit (Some ''u1'') ''/api/v1/orders'' ''GET''), (1, DeleteOverride ''o1'')] (sample_limits TOKEN_BUCKET))) =
    Inr (map_option view_of x)"
proof -
  have u: "plain_user (Some ''u1'')" by (simp add: plain_user_def str_or_def)
  have n: "\<forall>uid ep u. redis_get (dl_redis (sample_limits TOKEN_BUCKET)) u (override_key uid ep) = JNull"
    using mem.get_up [OF mem_service_up] by (simp add: sample_limits_def)
  have r: "rows_ok (dl_rows (sample_limits TOKEN_BUCKET))" by (simp add: rows_ok_def sample_limits_def sample_override_def)
  have up: "mem.up (dl_redis (sample_limits TOKEN_BUCKET))" by (simp add: sample_limits_def)
  show ?thesis
    using override_recent [OF mem.redis_server_axioms up n r, of 0
        "[(0, CheckLimit (Some ''u1'') ''/api/v1/orders'' ''GET''), (1, DeleteOverride ''o1'')]" 299999 "Some ''u1''" "''/api/v1/orders''" "''GET''"] u
    by (simp add: skip_db_lookup_def) blast
qed

text \<open>An override with the strategy \<open>FIXED_WINDOW\<close> or \<open>ADAPTIVE\<close>, which the table and the
  administration accept, switches rate limiting off: the registry has no such strategy, calling it
  throws, and every request it applies to is admitted, for five minutes even after it is gone.\<close>

theorem unsupported_strategy_fails_open:
  fixes w :: "'s dl_world"
  assumes "redis_server c view" "redis_server.up c (dl_redis w)"
    and "redis_get (dl_redis w) now (override_key uid ep) = JNull" "\<not> skip_db_lookup uid ep"
    and "select_override uid ep now (dl_rows w) = Some r" "ov_strategy r \<in> {FIXED_WINDOW, ADAPTIVE}"
    and "check_limit uid ep m now w = (res, w')"
  shows "res = fail_open \<and> r_allowed res \<and>
    (\<forall>t rows m'. now \<le> t \<longrightarrow> t < now + 300000 \<longrightarrow> fst (check_limit uid ep m' t (w'\<lparr>dl_rows := rows\<rparr>)) = fail_open)"
proof -
  let ?k = "override_key uid ep"
  let ?rs = "snd (redis_set (dl_redis w) now ?k (cached_override (Some r)) OVERRIDE_TTL)"
  have none: "strategy_check (vw_strategy (view_of r)) = None"
    using assms(6) by (auto simp: strategy_check_def view_of_def)
  have f: "find_applicable_override uid ep now w = (Inr (Some (view_of r)), w\<lparr>dl_redis := ?rs\<rparr>)"
    by (simp add: find_applicable_override_def Let_def assms(3-5))
  have w': "res = fail_open" "w' = w\<lparr>dl_redis := ?rs\<rparr>"
    using assms(7) by (simp_all add: check_limit_def f none Let_def)
  have "redis_get ?rs t ?k = cached_override (Some r)" if "t < now + 300000" for t
    using redis_server.set_get_up [OF assms(1,2), of OVERRIDE_TTL] that by (simp add: OVERRIDE_TTL_def)
  then have "find_applicable_override uid ep t (w'\<lparr>dl_rows := rows\<rparr>) = (Inr (Some (view_of r)), w'\<lparr>dl_rows := rows\<rparr>)"
    if "t < now + 300000" for t rows
    using that cached_override_read [of "cached_override (Some r)" "Some r"] by (simp add: find_applicable_override_def Let_def w'(2))
  then show ?thesis by (simp add: w'(1) check_limit_def none Let_def fail_open_def)
qed

lemma unsupported_strategy_fails_open_witness:
  "fst (check_limit (Some ''u1'') ''/api/v1/orders'' ''GET'' 7 (sample_limits FIXED_WINDOW)) = fail_open"
proof -
  obtain res w' where r: "check_limit (Some ''u1'') ''/api/v1/orders'' ''GET'' 7 (sample_limits FIXED_WINDOW) = (res, w')" by fastforce
  have n: "redis_get (dl_redis (sample_limits FIXED_WINDOW)) 7 (override_key (Some ''u1'') ''/api/v1/orders'') = JNull"
    using mem.get_up [OF mem_service_up] by (simp add: sample_limits_def)
  have up: "mem.up (dl_redis (sample_limits FIXED_WINDOW))" by (simp add: sample_limits_def)
  have sel: "select_override (Some ''u1'') ''/api/v1/orders'' 7 (dl_rows (sample_limits FIXED_WINDOW)) = Some (sample_override FIXED_WINDOW)"
    by (simp add: select_override_def sort_by_def applies_def unexpired_def sample_limits_def sample_override_def truthy_str_def)
  show ?thesis
    using unsupported_strategy_fails_open [OF mem.redis_server_axioms up n _ sel _ r] r
    by (simp add: skip_db_lookup_def sample_override_def)
qed

end
