(* ===== verification/Seller_Verification.thy ===== *)
theory Seller_Verification
  imports Request_Queue
begin

section \<open>Seller verification\<close>

text \<open>
  \<open>modules/seller-verification/seller-verification.service.ts\<close>: the review of the documents of a
  seller application, which is a request of the queue, whose JSON payload keeps the documents,
  their reviews and the state of a resubmission. A payload that is no object spreads to nothing
  here, a field set to \<open>undefined\<close> is dropped as \<open>JSON.stringify\<close> does, dates are milliseconds.
  Which e-mail addresses are verified is a list of user ids. Mails and notifications are appended to
  outboxes; their failures are swallowed by the code.
\<close>

datatype document_type = GOVERNMENT_ID | BIR_CERTIFICATE | BUSINESS_CERTIFICATE

datatype application_status = APP_PENDING | EMAIL_VERIFICATION_REQUIRED | DOCUMENTS_UNDER_REVIEW
  | RESUBMISSION_REQUIRED | APP_APPROVED | APP_REJECTED

fun document_key :: "document_type \<Rightarrow> string" where
  "document_key GOVERNMENT_ID = ''governmentId''"
| "document_key BIR_CERTIFICATE = ''birCertificate''"
| "document_key BUSINESS_CERTIFICATE = ''businessCertificate''"

record resubmission_mail =
  rm_to :: string
  rm_firstName :: "string option"
  rm_requestId :: string
  rm_documents :: "(string \<times> bool \<times> json option \<times> string option) list"
  rm_deadline :: ms
  rm_reason :: string

record notification =
  n_userId :: "string option"
  n_title :: string
  n_requestId :: string
  n_documents :: "document_type list"

record sv_world =
  sv_queue :: request_world
  sv_verified :: "string list"
  sv_mails :: "resubmission_mail list"
  sv_notifications :: "notification list"

subsection \<open>JSON objects\<close>

fun fields_of :: "json option \<Rightarrow> (string \<times> json) list" where
  "fields_of (Some (JObj fs)) = fs"
| "fields_of _ = []"

definition put_opt :: "string \<Rightarrow> json option \<Rightarrow> (string \<times> json) list \<Rightarrow> (string \<times> json) list" where
  "put_opt k v fs = (case v of None \<Rightarrow> filter (\<lambda>kv. fst kv \<noteq> k) fs | Some j \<Rightarrow> js_map_set k j fs)"

definition put :: "string \<Rightarrow> json \<Rightarrow> (string \<times> json) list \<Rightarrow> (string \<times> json) list" where
  "put k j fs = js_map_set k j fs"

text \<open>\<open>x || {}\<close> for a field of the payload.\<close>

definition object_field :: "string \<Rightarrow> json option \<Rightarrow> (string \<times> json) list" where
  "object_field k j = fields_of (json_field k j)"

subsection \<open>Documents\<close>

record documents_dto =
  dd_governmentId :: "string option"
  dd_birCertificate :: "string option"
  dd_businessCertificate :: "string option"
  dd_resubmissionNotes :: "string option"

definition documents_given :: "documents_dto \<Rightarrow> (document_type \<times> string option) list" where
  "documents_given d = [(GOVERNMENT_ID, dd_governmentId d), (BIR_CERTIFICATE, dd_birCertificate d),
     (BUSINESS_CERTIFICATE, dd_businessCertificate d)]"

definition pending_review :: json where
  "pending_review = JObj [(''status'', j_str ''PENDING''), (''reviewedAt'', JNull)]"

definition merge_documents :: "documents_dto \<Rightarrow> (string \<times> json) list \<Rightarrow> (string \<times> json) list" where
  "merge_documents d fs =
     foldl (\<lambda>fs (t, url). if truthy_str url then put (document_key t) (j_str (the url)) fs else fs) fs (documents_given d)"

definition reset_reviews :: "documents_dto \<Rightarrow> (string \<times> json) list \<Rightarrow> (string \<times> json) list" where
  "reset_reviews d fs =
     foldl (\<lambda>fs (t, url). if truthy_str url then put (document_key t) pending_review fs else fs) fs (documents_given d)"

definition open_application :: "string \<Rightarrow> request_world \<Rightarrow> request_row option" where
  "open_application uid w =
     (case sort_by (\<lambda>x y. rq_queuedAt x \<ge> rq_queuedAt y)
         (filter (\<lambda>r. rq_userId r = Some uid \<and> rq_endpoint r = SELLER_ENDPOINT \<and> rq_status r \<in> {R_PENDING, R_PROCESSING})
           (rw_requests w)) of
        [] \<Rightarrow> None | r # _ \<Rightarrow> Some r)"

definition updated_payload :: "documents_dto \<Rightarrow> ms \<Rightarrow> json option \<Rightarrow> json" where
  "updated_payload d now payload = JObj
     (put_opt ''resubmissionNotes'' (map_option j_str (dd_resubmissionNotes d))
       (put ''lastResubmissionAt'' (j_int now)
         (put ''documentReviewStatus'' (JObj (reset_reviews d (object_field ''documentReviewStatus'' payload)))
           (put ''documents'' (JObj (merge_documents d (object_field ''documents'' payload))) (fields_of payload)))))"

definition update_documents :: "string \<Rightarrow> documents_dto \<Rightarrow> ms \<Rightarrow> sv_world \<Rightarrow> (string \<times> document_type list) res \<times> sv_world" where
  "update_documents uid d now w =
     (case open_application uid (sv_queue w) of
        None \<Rightarrow> (Inl (NotFound ''No pending seller application found. Please submit a new application.''), w)
      | Some r \<Rightarrow>
          (Inr (rq_id r, map fst (filter (\<lambda>x. snd x \<noteq> None) (documents_given d))),
           w\<lparr>sv_queue := put_request (rq_id r) (\<lambda>x. x\<lparr>rq_status := R_PENDING,
              rq_payload := Some (updated_payload d now (rq_payload r))\<rparr>) (sv_queue w)\<rparr>))"

record review_dto =
  rd_decision :: string
  rd_notes :: "string option"
  rd_issues :: "string list option"

definition review_entry :: "string \<Rightarrow> ms \<Rightarrow> string \<Rightarrow> string option \<Rightarrow> string list option \<Rightarrow> json" where
  "review_entry decision now adminId nts issues = JObj
     (put_opt ''issues'' (map_option j_strs issues) (put_opt ''notes'' (map_option j_str nts)
       [(''status'', j_str decision), (''reviewedAt'', j_int now), (''reviewedBy'', j_str adminId)]))"

definition review_document :: "string \<Rightarrow> document_type \<Rightarrow> review_dto \<Rightarrow> string \<Rightarrow> ms \<Rightarrow> sv_world \<Rightarrow> unit res \<times> sv_world" where
  "review_document rid dt d adminId now w =
     (case find_request rid (sv_queue w) of
        None \<Rightarrow> (Inl (NotFound ''Seller application not found''), w)
      | Some r \<Rightarrow>
          if rq_endpoint r \<noteq> SELLER_ENDPOINT then (Inl (BadRequest ''This is not a seller application request''), w)
          else (Inr (), w\<lparr>sv_queue := put_request rid (\<lambda>x. x\<lparr>rq_payload := Some (JObj
            (put ''documentReviewStatus''
              (JObj (put (document_key dt) (review_entry (rd_decision d) now adminId (rd_notes d) (rd_issues d))
                (object_field ''documentReviewStatus'' (rq_payload r))))
              (fields_of (rq_payload r))))\<rparr>) (sv_queue w)\<rparr>))"

subsection \<open>Resubmission\<close>

record resubmission_dto =
  rs_documents :: "document_type list"
  rs_reason :: string
  rs_instructions :: "(string \<times> string) list"
  rs_deadlineDays :: "int option"

definition instruction_for :: "resubmission_dto \<Rightarrow> string \<Rightarrow> string option" where
  "instruction_for d k = map_of (rs_instructions d) k"

definition mark_resubmission :: "resubmission_dto \<Rightarrow> string \<Rightarrow> ms \<Rightarrow> (string \<times> json) list \<Rightarrow> (string \<times> json) list" where
  "mark_resubmission d adminId now fs =
     foldl (\<lambda>fs t. put (document_key t)
       (review_entry ''RESUBMISSION_REQUIRED'' now adminId (Some (str_or (instruction_for d (document_key t)) (rs_reason d))) None) fs)
       fs (rs_documents d)"

definition document_name :: "string \<Rightarrow> string" where
  "document_name k = (case map_of [(''governmentId'', ''Government ID''), (''birCertificate'', ''BIR Certificate''),
     (''businessCertificate'', ''Business Certificate (DTI/SEC)'')] k of Some n \<Rightarrow> n | None \<Rightarrow> k)"

text \<open>A review that is \<open>null\<close> and a missing user make the code throw before the mail, inside its \<open>try\<close>.\<close>

definition send_resubmission_email ::
  "user_row option \<Rightarrow> string \<Rightarrow> resubmission_dto \<Rightarrow> (string \<times> json) list \<Rightarrow> ms \<Rightarrow> sv_world \<Rightarrow> sv_world" where
  "send_resubmission_email u rid d reviews deadline w =
     (case u of None \<Rightarrow> w
      | Some u \<Rightarrow> if list_ex (\<lambda>kv. snd kv = JNull) reviews then w else w\<lparr>sv_mails := sv_mails w @ [\<lparr>rm_to = u_email u, rm_firstName = u_firstName u, rm_requestId = rid,
          rm_documents = map (\<lambda>(k, v). (document_name k, json_field ''status'' (Some v) = Some (j_str ''RESUBMISSION_REQUIRED''),
            json_field ''notes'' (Some v), instruction_for d k)) reviews,
          rm_deadline = deadline, rm_reason = rs_reason d\<rparr>]\<rparr>)"

definition create_notification :: "string option \<Rightarrow> string \<Rightarrow> string \<Rightarrow> document_type list \<Rightarrow> sv_world \<Rightarrow> sv_world" where
  "create_notification uid title rid docs w =
     w\<lparr>sv_notifications := sv_notifications w @ [\<lparr>n_userId = uid, n_title = title, n_requestId = rid, n_documents = docs\<rparr>]\<rparr>"

definition request_resubmission :: "string \<Rightarrow> resubmission_dto \<Rightarrow> string \<Rightarrow> ms \<Rightarrow> sv_world \<Rightarrow> unit res \<times> sv_world" where
  "request_resubmission rid d adminId now w =
     (case find_request rid (sv_queue w) of
        None \<Rightarrow> (Inl (NotFound ''Seller application not found''), w)
      | Some r \<Rightarrow>
          (let reviews = mark_resubmission d adminId now (object_field ''documentReviewStatus'' (rq_payload r));
               deadline = now + num_or (rs_deadlineDays d) 7 * DAY_MS;
               payload = JObj (put ''resubmissionRequestedBy'' (j_str adminId) (put ''resubmissionRequestedAt'' (j_int now)
                 (put ''resubmissionDeadline'' (j_int deadline) (put ''resubmissionReason'' (j_str (rs_reason d))
                   (put ''resubmissionRequired'' (JBool True)
                     (put ''documentReviewStatus'' (JObj reviews) (fields_of (rq_payload r))))))));
               headers = JObj (put ''resubmissionRequestedAt'' (j_int now) (put ''resubmissionRequestedBy'' (j_str adminId)
                 (fields_of (rq_headers r))));
               w1 = w\<lparr>sv_queue := put_request rid (\<lambda>x. x\<lparr>rq_status := R_PENDING, rq_payload := Some payload,
                 rq_headers := Some headers\<rparr>) (sv_queue w)\<rparr>;
               w2 = send_resubmission_email (request_user r (sv_queue w)) rid d reviews deadline w1
           in (Inr (), create_notification (rq_userId r) ''Document Resubmission Required'' rid (rs_documents d) w2)))"

subsection \<open>The status of an application\<close>

definition email_verified :: "request_row \<Rightarrow> sv_world \<Rightarrow> bool" where
  "email_verified r w = (case request_user r (sv_queue w) of None \<Rightarrow> False | Some u \<Rightarrow> u_id u \<in> set (sv_verified w))"

definition truthy_field :: "string \<Rightarrow> json option \<Rightarrow> bool" where
  "truthy_field k j = (case json_field k j of None \<Rightarrow> False | Some v \<Rightarrow> json_truthy v)"

definition determine_application_status :: "request_row \<Rightarrow> sv_world \<Rightarrow> application_status" where
  "determine_application_status r w =
     (if rq_status r = R_COMPLETED then APP_APPROVED
      else if rq_status r = R_FAILED then APP_REJECTED
      else if truthy_field ''resubmissionRequired'' (rq_payload r) then RESUBMISSION_REQUIRED
      else if rq_status r = R_PROCESSING then DOCUMENTS_UNDER_REVIEW
      else if \<not> email_verified r w then EMAIL_VERIFICATION_REQUIRED
      else APP_PENDING)"

record document_status =
  ds_type :: document_type
  ds_url :: json
  ds_status :: json
  ds_notes :: "json option"
  ds_reviewedAt :: "json option"
  ds_submittedAt :: "json option"

text \<open>\<open>x ? new Date(x) : undefined\<close>.\<close>

definition truthy_opt :: "json option \<Rightarrow> json option" where
  "truthy_opt j = (case j of None \<Rightarrow> None | Some v \<Rightarrow> if json_truthy v then Some v else None)"

definition build_document_status :: "json option \<Rightarrow> document_status list" where
  "build_document_status payload =
     map (\<lambda>t. let review = json_field (document_key t) (json_field ''documentReviewStatus'' payload)
              in \<lparr>ds_type = t, ds_url = or_json (json_field (document_key t) (json_field ''documents'' payload)) (j_str []),
                  ds_status = or_json (json_field ''status'' review) (j_str ''PENDING''),
                  ds_notes = json_field ''notes'' review, ds_reviewedAt = truthy_opt (json_field ''reviewedAt'' review),
                  ds_submittedAt = truthy_opt (json_field ''submittedAt'' payload)\<rparr>)
       [GOVERNMENT_ID, BIR_CERTIFICATE, BUSINESS_CERTIFICATE]"

fun calculate_progress :: "application_status \<Rightarrow> int" where
  "calculate_progress APP_APPROVED = 100"
| "calculate_progress APP_REJECTED = 100"
| "calculate_progress DOCUMENTS_UNDER_REVIEW = 60"
| "calculate_progress RESUBMISSION_REQUIRED = 40"
| "calculate_progress EMAIL_VERIFICATION_REQUIRED = 20"
| "calculate_progress APP_PENDING = 30"

fun join_keys :: "document_type list \<Rightarrow> string" where
  "join_keys [] = []"
| "join_keys [t] = document_key t"
| "join_keys (t # ts) = document_key t @ '', '' @ join_keys ts"

fun generate_next_steps :: "application_status \<Rightarrow> document_status list \<Rightarrow> string list" where
  "generate_next_steps EMAIL_VERIFICATION_REQUIRED docs =
     [''Verify your email address to proceed with the application'', ''Check your inbox for the verification email'']"
| "generate_next_steps APP_PENDING docs =
     [''Your application is in the queue for review'', ''We will notify you once the review begins'']"
| "generate_next_steps DOCUMENTS_UNDER_REVIEW docs =
     [''Our team is reviewing your submitted documents'', ''You will be notified of the outcome within 1-3 business days'']"
| "generate_next_steps RESUBMISSION_REQUIRED docs =
     [''Resubmit the following documents: '' @
        join_keys (map ds_type (filter (\<lambda>d. ds_status d = j_str ''RESUBMISSION_REQUIRED'') docs)),
      ''Review the feedback provided for each document'']"
| "generate_next_steps APP_APPROVED docs =
     [''Set up your seller profile'', ''Add your first product to the catalog'', ''Configure your shipping and payment settings'']"
| "generate_next_steps APP_REJECTED docs =
     [''Review the rejection reason'', ''Address the issues mentioned'', ''Submit a new application when ready'']"

fun estimated_completion_time :: "application_status \<Rightarrow> string" where
  "estimated_completion_time APP_PENDING = ''1-3 business days''"
| "estimated_completion_time DOCUMENTS_UNDER_REVIEW = ''1-2 business days''"
| "estimated_completion_time RESUBMISSION_REQUIRED = ''Depends on your resubmission''"
| "estimated_completion_time APP_APPROVED = ''Complete''"
| "estimated_completion_time APP_REJECTED = ''Complete''"
| "estimated_completion_time EMAIL_VERIFICATION_REQUIRED = ''2-5 business days''"

text \<open>An event with its time; a payload date that is no number of this model sorts first.\<close>

type_synonym timeline_event = "string \<times> ms"

definition payload_time :: "string \<Rightarrow> json option \<Rightarrow> ms" where
  "payload_time k j = (case Option.bind (json_field k j) un_int of None \<Rightarrow> 0 | Some t \<Rightarrow> t)"

definition build_timeline :: "request_row \<Rightarrow> timeline_event list" where
  "build_timeline r = (let p = rq_payload r in
     sort_by (\<lambda>a b. snd a \<le> snd b)
       ([(''APPLICATION_SUBMITTED'', rq_queuedAt r)] @
        (if truthy_field ''lastResubmissionAt'' p then [(''DOCUMENTS_RESUBMITTED'', payload_time ''lastResubmissionAt'' p)] else []) @
        (case rq_processedAt r of None \<Rightarrow> [] | Some t \<Rightarrow> [(''REVIEW_STARTED'', t)]) @
        (if truthy_field ''resubmissionRequestedAt'' p
         then [(''RESUBMISSION_REQUESTED'', payload_time ''resubmissionRequestedAt'' p)] else []) @
        (case rq_completedAt r of None \<Rightarrow> []
         | Some t \<Rightarrow> [(if rq_status r = R_COMPLETED then ''APPLICATION_APPROVED'' else ''APPLICATION_REJECTED'', t)])))"

definition latest_application :: "string \<Rightarrow> request_world \<Rightarrow> request_row option" where
  "latest_application uid w =
     (case sort_by (\<lambda>x y. rq_queuedAt x \<ge> rq_queuedAt y)
         (filter (\<lambda>r. rq_userId r = Some uid \<and> rq_endpoint r = SELLER_ENDPOINT) (rw_requests w)) of
        [] \<Rightarrow> None | r # _ \<Rightarrow> Some r)"

record verification_status =
  vs_requestId :: string
  vs_status :: application_status
  vs_emailVerified :: bool
  vs_currentRole :: json
  vs_requestedRole :: json
  vs_documents :: "document_status list"
  vs_businessInfo :: "json list"
  vs_adminNotes :: "json option"
  vs_rejectionReason :: "string option"
  vs_submittedAt :: ms
  vs_processedAt :: "ms option"
  vs_estimate :: string
  vs_progress :: int
  vs_nextSteps :: "string list"
  vs_timeline :: "timeline_event list"

definition get_verification_status :: "string \<Rightarrow> sv_world \<Rightarrow> verification_status option" where
  "get_verification_status uid w =
     (case latest_application uid (sv_queue w) of
        None \<Rightarrow> None
      | Some r \<Rightarrow>
          (let p = rq_payload r; st = determine_application_status r w; docs = build_document_status p;
               biz = json_field ''businessInfo'' p; usr = json_field ''userInfo'' p
           in Some \<lparr>vs_requestId = rq_id r, vs_status = st, vs_emailVerified = email_verified r w,
                vs_currentRole = or_json (json_field ''currentRole'' p)
                  (case request_user r (sv_queue w) of None \<Rightarrow> JNull | Some u \<Rightarrow> j_str (role_text (u_role u))),
                vs_requestedRole = or_json (json_field ''requestedRole'' p) (j_str ''GROWER''),
                vs_documents = docs,
                vs_businessInfo = [or_json (json_field ''businessName'' biz) (j_str []), or_json (json_field ''businessType'' biz) (j_str []),
                  or_json (json_field ''city'' usr) (j_str []), or_json (json_field ''region'' usr) (j_str [])],
                vs_adminNotes = json_field ''adminNotes'' (rq_headers r),
                vs_rejectionReason = (if rq_status r = R_FAILED then rq_errorMessage r else None),
                vs_submittedAt = rq_queuedAt r, vs_processedAt = rq_processedAt r,
                vs_estimate = estimated_completion_time st, vs_progress = calculate_progress st,
                vs_nextSteps = generate_next_steps st docs, vs_timeline = build_timeline r\<rparr>))"

datatype my_status = S_NONE | S_PENDING | S_APPROVED | S_REJECTED

fun my_status_of :: "request_status \<Rightarrow> my_status" where
  "my_status_of R_PENDING = S_PENDING"
| "my_status_of R_COMPLETED = S_APPROVED"
| "my_status_of R_FAILED = S_REJECTED"
| "my_status_of R_PROCESSING = S_PENDING"
| "my_status_of R_EXPIRED = S_NONE"

definition check_my_seller_status :: "string \<Rightarrow> sv_world \<Rightarrow> bool \<times> my_status \<times> (string \<times> ms) option" where
  "check_my_seller_status uid w =
     (case latest_application uid (sv_queue w) of
        None \<Rightarrow> (False, S_NONE, None)
      | Some r \<Rightarrow> (rq_status r = R_PENDING, my_status_of (rq_status r), Some (rq_id r, rq_queuedAt r)))"

subsection \<open>Lemmas\<close>

lemma map_of_put [simp]: "map_of (put k j fs) = (map_of fs)(k \<mapsto> j)"
  by (simp add: put_def)

lemma map_of_put_opt: "map_of (put_opt k v fs) k' = (if k' = k then v else map_of fs k')"
proof (cases v)
  case None
  have "map_of (filter (\<lambda>kv. fst kv \<noteq> k) fs) k' = (if k' = k then None else map_of fs k')"
    by (induction fs) auto
  then show ?thesis by (simp add: put_opt_def None)
qed (simp add: put_opt_def)

lemma map_of_fields_of: "map_of (fields_of j) k = json_field k j"
proof (cases j)
  case (Some x)
  then show ?thesis by (cases x) simp_all
qed simp

lemma document_key_inj [simp]: "document_key s = document_key t \<longleftrightarrow> s = t"
  by (cases s; cases t) simp_all

lemma sv_queue_mail [simp]: "sv_queue (send_resubmission_email u rid d rs dl w) = sv_queue w"
  "sv_queue (create_notification uid t rid' docs w) = sv_queue w"
  by (simp_all add: send_resubmission_email_def create_notification_def split: option.splits)

lemma first_sorted_SomeD:
  assumes "(case sort_by le (filter p xs) of [] \<Rightarrow> None | r # _ \<Rightarrow> Some r) = Some r"
  shows "r \<in> set xs \<and> p r"
proof -
  have "r \<in> set (sort_by le (filter p xs))" using assms by (auto simp del: set_sort_by split: list.splits)
  then show ?thesis by simp
qed

lemma first_sorted_None_iff:
  "(case sort_by le (filter p xs) of [] \<Rightarrow> None | r # _ \<Rightarrow> Some r) = None \<longleftrightarrow> (\<forall>x \<in> set xs. \<not> p x)"
proof -
  have "sort_by le (filter p xs) = [] \<longleftrightarrow> filter p xs = []"
    by (metis length_0_conv length_sort_by)
  then show ?thesis by (auto simp: filter_empty_conv split: list.splits)
qed

lemma open_application_SomeD:
  "open_application uid w = Some r \<Longrightarrow>
   r \<in> set (rw_requests w) \<and> rq_userId r = Some uid \<and> rq_endpoint r = SELLER_ENDPOINT \<and> rq_status r \<in> {R_PENDING, R_PROCESSING}"
  unfolding open_application_def by (drule first_sorted_SomeD) simp

lemma open_application_None_iff:
  "open_application uid w = None \<longleftrightarrow> (\<forall>r \<in> set (rw_requests w).
     \<not> (rq_userId r = Some uid \<and> rq_endpoint r = SELLER_ENDPOINT \<and> rq_status r \<in> {R_PENDING, R_PROCESSING}))"
  unfolding open_application_def by (rule first_sorted_None_iff)

lemma open_application_newest:
  assumes "open_application uid w = Some r" "y \<in> set (rw_requests w)" "rq_userId y = Some uid"
    "rq_endpoint y = SELLER_ENDPOINT" "rq_status y \<in> {R_PENDING, R_PROCESSING}"
  shows "rq_queuedAt y \<le> rq_queuedAt r"
proof -
  let ?rows = "filter (\<lambda>r. rq_userId r = Some uid \<and> rq_endpoint r = SELLER_ENDPOINT \<and> rq_status r \<in> {R_PENDING, R_PROCESSING})
      (rw_requests w)"
  let ?le = "\<lambda>x y. rq_queuedAt x \<ge> rq_queuedAt y"
  obtain rs where "sort_by ?le ?rows = r # rs"
    using assms(1) unfolding open_application_def by (cases "sort_by ?le ?rows") auto
  then have "\<forall>x \<in> set ?rows. ?le r x" using sort_by_hd [of ?le ?rows r rs] by fastforce
  then show ?thesis using assms(2-5) by simp
qed

text \<open>What the three operations of a review do to the rows: the row they find keeps its id, its user
  and its endpoint, and becomes an object that keeps every field the operation does not set.\<close>

definition reviewed_row :: "request_row \<Rightarrow> request_row \<Rightarrow> bool" where
  "reviewed_row r r' \<longleftrightarrow> rq_id r' = rq_id r \<and> rq_userId r' = rq_userId r \<and> rq_endpoint r' = rq_endpoint r \<and>
     rq_status r' \<in> {rq_status r, R_PENDING} \<and>
     (truthy_field ''resubmissionRequired'' (rq_payload r) \<longrightarrow> truthy_field ''resubmissionRequired'' (rq_payload r'))"

lemma reviewed_row_refl [simp]: "reviewed_row r r"
  by (simp add: reviewed_row_def)

lemma truthy_field_JObj: "truthy_field k (Some (JObj fs)) = (case map_of fs k of None \<Rightarrow> False | Some v \<Rightarrow> json_truthy v)"
  by (simp add: truthy_field_def)

lemma put_request_reviewed:
  assumes "find_request k w = Some r" "\<And>x. rq_id (f x) = rq_id x" "\<And>x. find_request rid w = Some x \<Longrightarrow> reviewed_row x (f x)"
  shows "\<exists>r'. find_request k (put_request rid f w) = Some r' \<and> reviewed_row r r'"
  using assms by (auto simp: find_put_request)

lemma updated_payload_flag:
  "truthy_field ''resubmissionRequired'' (Some (updated_payload d now p)) = truthy_field ''resubmissionRequired'' p"
  by (simp add: updated_payload_def truthy_field_JObj map_of_put_opt map_of_fields_of) (simp add: truthy_field_def)

lemma update_documents_keeps:
  assumes "distinct (map rq_id (rw_requests (sv_queue w)))" "find_request k (sv_queue w) = Some r"
  shows "\<exists>r'. find_request k (sv_queue (snd (update_documents uid d now w))) = Some r' \<and> reviewed_row r r'"
proof (cases "open_application uid (sv_queue w)")
  case None
  then show ?thesis using assms(2) by (simp add: update_documents_def)
next
  case (Some x)
  have "find_request (rq_id x) (sv_queue w) = Some x"
    unfolding find_request_def by (rule find_by_distinct) (use assms(1) open_application_SomeD [OF Some] in auto)
  then show ?thesis using assms(2)
    by (simp add: update_documents_def Some, intro put_request_reviewed)
      (auto simp: reviewed_row_def updated_payload_flag)
qed

lemma review_document_keeps:
  assumes "find_request k (sv_queue w) = Some r"
  shows "\<exists>r'. find_request k (sv_queue (snd (review_document rid dt d adm now w))) = Some r' \<and> reviewed_row r r'"
proof (cases "\<exists>x. find_request rid (sv_queue w) = Some x \<and> rq_endpoint x = SELLER_ENDPOINT")
  case False
  then show ?thesis using assms by (auto simp: review_document_def split: option.splits)
next
  case True
  then obtain x where x: "find_request rid (sv_queue w) = Some x" "rq_endpoint x = SELLER_ENDPOINT" by blast
  show ?thesis using assms
    by (simp add: review_document_def x, intro put_request_reviewed)
      (auto simp: reviewed_row_def x truthy_field_JObj map_of_fields_of truthy_field_def)
qed

lemma request_resubmission_queue:
  assumes "find_request rid (sv_queue w) = Some r"
  obtains p h where "sv_queue (snd (request_resubmission rid d adm now w)) =
      put_request rid (\<lambda>x. x\<lparr>rq_status := R_PENDING, rq_payload := Some p, rq_headers := Some h\<rparr>) (sv_queue w)"
    "truthy_field ''resubmissionRequired'' (Some p)" "fst (request_resubmission rid d adm now w) = Inr ()"
  using assms by (simp add: request_resubmission_def Let_def that truthy_field_JObj)

lemma request_resubmission_keeps:
  assumes "find_request k (sv_queue w) = Some r"
  shows "\<exists>r'. find_request k (sv_queue (snd (request_resubmission rid d adm now w))) = Some r' \<and> reviewed_row r r'"
proof (cases "find_request rid (sv_queue w)")
  case None
  then show ?thesis using assms by (simp add: request_resubmission_def)
next
  case (Some x)
  obtain p h where "sv_queue (snd (request_resubmission rid d adm now w)) =
      put_request rid (\<lambda>x. x\<lparr>rq_status := R_PENDING, rq_payload := Some p, rq_headers := Some h\<rparr>) (sv_queue w)"
    "truthy_field ''resubmissionRequired'' (Some p)"
    by (rule request_resubmission_queue [OF Some])
  then show ?thesis using assms
    by (simp, intro put_request_reviewed) (auto simp: reviewed_row_def)
qed

lemma ids_put_request: "(\<And>x. rq_id (f x) = rq_id x) \<Longrightarrow> map rq_id (rw_requests (put_request rid f w)) = map rq_id (rw_requests w)"
  by (simp add: put_request_def keys_update_by)

lemma review_ids:
  "map rq_id (rw_requests (sv_queue (snd (update_documents uid d now w)))) = map rq_id (rw_requests (sv_queue w))"
  "map rq_id (rw_requests (sv_queue (snd (review_document rid dt d' adm now w)))) = map rq_id (rw_requests (sv_queue w))"
  "map rq_id (rw_requests (sv_queue (snd (request_resubmission rid d'' adm now w)))) = map rq_id (rw_requests (sv_queue w))"
  by (auto simp: update_documents_def review_document_def request_resubmission_def Let_def ids_put_request split: option.splits)

subsection \<open>Applications that are not decided\<close>

text \<open>What may happen while request \<open>rid\<close> waits: documents are updated and reviewed, resubmissions are
  requested, applications come in, and other requests are decided.\<close>

inductive waiting_step :: "string \<Rightarrow> sv_world \<Rightarrow> sv_world \<Rightarrow> bool" for rid where
  w_update: "waiting_step rid w (snd (update_documents uid d now w))"
| w_review: "waiting_step rid w (snd (review_document k dt d adm now w))"
| w_request: "waiting_step rid w (snd (request_resubmission k d adm now w))"
| w_apply: "find_request k (sv_queue w) = None \<Longrightarrow>
    waiting_step rid w (w\<lparr>sv_queue := snd (create_role_change_request k uid d now (sv_queue w))\<rparr>)"
| w_approve: "k \<noteq> rid \<Longrightarrow> waiting_step rid w (w\<lparr>sv_queue := snd (approve_role_request k adm nts now (sv_queue w))\<rparr>)"
| w_reject: "k \<noteq> rid \<Longrightarrow> waiting_step rid w (w\<lparr>sv_queue := snd (reject_role_request k adm nts now (sv_queue w))\<rparr>)"
| w_verify: "waiting_step rid w (w\<lparr>sv_verified := uid # sv_verified w\<rparr>)"

definition awaits_resubmission :: "string \<Rightarrow> sv_world \<Rightarrow> bool" where
  "awaits_resubmission rid w \<longleftrightarrow> distinct (map rq_id (rw_requests (sv_queue w))) \<and>
     (\<exists>r. find_request rid (sv_queue w) = Some r \<and> determine_application_status r w = RESUBMISSION_REQUIRED)"

lemma resubmission_status_iff:
  "determine_application_status r w = RESUBMISSION_REQUIRED \<longleftrightarrow>
   rq_status r \<notin> {R_COMPLETED, R_FAILED} \<and> truthy_field ''resubmissionRequired'' (rq_payload r)"
  by (simp add: determine_application_status_def)

lemma reviewed_row_status:
  "reviewed_row r r' \<Longrightarrow> determine_application_status r w = RESUBMISSION_REQUIRED \<Longrightarrow>
   determine_application_status r' w' = RESUBMISSION_REQUIRED"
  by (auto simp: resubmission_status_iff reviewed_row_def)

lemma awaits_by_row:
  assumes "awaits_resubmission rid w" "distinct (map rq_id (rw_requests (sv_queue w')))"
    "\<And>r. find_request rid (sv_queue w) = Some r \<Longrightarrow> \<exists>r'. find_request rid (sv_queue w') = Some r' \<and> reviewed_row r r'"
  shows "awaits_resubmission rid w'"
  using assms reviewed_row_status unfolding awaits_resubmission_def by blast

lemma create_role_change_rows:
  "snd (create_role_change_request k uid d now w) = w \<or>
   (\<exists>row. rq_id row = k \<and> snd (create_role_change_request k uid d now w) = w\<lparr>rw_requests := rw_requests w @ [row]\<rparr>)"
proof (cases "find_user uid w")
  case (Some u)
  let ?row = "\<lparr>rq_id = k, rq_userId = Some uid, rq_endpoint = SELLER_ENDPOINT, rq_method = ''POST'',
     rq_priority = 70, rq_payload = Some (seller_payload u d now), rq_headers = None, rq_status = R_PENDING,
     rq_queuedAt = now, rq_processedAt = None, rq_completedAt = None,
     rq_expiresAt = now + 30 * DAY_MS, rq_errorMessage = None\<rparr>"
  have "snd (create_role_change_request k uid d now w) \<in> {w, snd (insert_request ?row w)}"
    by (simp add: create_role_change_request_def Some)
  moreover have "snd (insert_request ?row w) = w \<or> snd (insert_request ?row w) = w\<lparr>rw_requests := rw_requests w @ [?row]\<rparr>"
    by (simp add: insert_request_def)
  moreover have "rq_id ?row = k" by simp
  ultimately show ?thesis by (metis empty_iff insert_iff)
qed (simp add: create_role_change_request_def)

lemma decision_ids:
  "map rq_id (rw_requests (snd (approve_role_request k adm nts now w))) = map rq_id (rw_requests w)"
  "map rq_id (rw_requests (snd (reject_role_request k adm nts now w))) = map rq_id (rw_requests w)"
proof -
  obtain x w' where a: "approve_role_request k adm nts now w = (x, w')" by (rule prod.exhaust)
  show "map rq_id (rw_requests (snd (approve_role_request k adm nts now w))) = map rq_id (rw_requests w)"
  proof (cases x)
    case (Inl e)
    then show ?thesis using approve_failure [OF a [unfolded Inl]] by (auto simp: a keys_update_by)
  next
    case (Inr y)
    show ?thesis by (rule approve_success [OF a [unfolded Inr]]) (simp add: a keys_update_by)
  qed
  obtain y w'' where b: "reject_role_request k adm nts now w = (y, w'')" by (rule prod.exhaust)
  show "map rq_id (rw_requests (snd (reject_role_request k adm nts now w))) = map rq_id (rw_requests w)"
    using reject_success [OF b] by (auto simp: b keys_update_by)
qed

lemma reject_others:
  assumes "k \<noteq> rid"
  shows "find_request k (snd (reject_role_request rid adm nts now w)) = find_request k w"
proof -
  obtain y w' where b: "reject_role_request rid adm nts now w = (y, w')" by (rule prod.exhaust)
  show ?thesis using reject_success [OF b] assms by (auto simp: b find_request_def find_by_update_by)
qed

lemma waiting_step_awaits:
  "waiting_step rid w w' \<Longrightarrow> awaits_resubmission rid w \<Longrightarrow> awaits_resubmission rid w'"
proof (induction rule: waiting_step.induct)
  case (w_apply k w uid d now)
  then have "distinct (map rq_id (rw_requests (snd (create_role_change_request k uid d now (sv_queue w)))))"
    using create_role_change_rows [of k uid d now "sv_queue w"]
    by (auto simp: awaits_resubmission_def find_request_def find_by_None_iff)
  then show ?case using create_role_change_rows [of k uid d now "sv_queue w"] w_apply
    by (intro awaits_by_row [OF w_apply.prems]) (auto simp: find_request_def)
next
  case (w_update w uid d now)
  then have "distinct (map rq_id (rw_requests (sv_queue w)))" by (simp add: awaits_resubmission_def)
  then show ?case by (intro awaits_by_row [OF w_update] update_documents_keeps) (simp_all add: review_ids)
next
  case (w_review w k dt d adm now)
  then show ?case by (intro awaits_by_row [OF w_review] review_document_keeps) (simp_all add: review_ids awaits_resubmission_def)
next
  case (w_request w k d adm now)
  then show ?case by (intro awaits_by_row [OF w_request] request_resubmission_keeps) (simp_all add: review_ids awaits_resubmission_def)
next
  case (w_approve k w adm nts now)
  then show ?case
    by (intro awaits_by_row [OF w_approve(2)])
      (simp_all add: decision_ids awaits_resubmission_def approve_others [OF surjective_pairing])
next
  case (w_reject k w adm nts now)
  then show ?case
    by (intro awaits_by_row [OF w_reject(2)]) (simp_all add: decision_ids awaits_resubmission_def reject_others)
next
  case (w_verify w uid)
  then show ?case by (intro awaits_by_row [OF w_verify]) (simp_all add: awaits_resubmission_def)
qed

text \<open>C40. Once a resubmission has been requested, an undecided application keeps the status
  RESUBMISSION_REQUIRED and the progress 40, whatever follows but its own decision: the applicant
  uploads every document anew, an administrator approves each of them, other applications come in and
  are decided, the address is verified. No operation of the service clears the flag.\<close>

theorem resubmission_sticky:
  assumes "(waiting_step rid)\<^sup>*\<^sup>* w w'" "distinct (map rq_id (rw_requests (sv_queue w)))"
    "find_request rid (sv_queue w) = Some r" "rq_status r \<notin> {R_COMPLETED, R_FAILED}"
    "truthy_field ''resubmissionRequired'' (rq_payload r)"
  shows "\<exists>r'. find_request rid (sv_queue w') = Some r' \<and>
    determine_application_status r' w' = RESUBMISSION_REQUIRED \<and>
    calculate_progress (determine_application_status r' w') = 40"
proof -
  from assms(2-5) have "awaits_resubmission rid w" by (simp add: awaits_resubmission_def resubmission_status_iff)
  with assms(1) have "awaits_resubmission rid w'" by (induction rule: rtranclp_induct) (auto intro: waiting_step_awaits)
  then show ?thesis by (auto simp: awaits_resubmission_def)
qed

lemma reject_failed_row:
  assumes "reject_role_request rid adm nts now w = (y, q)" "find_request rid w = Some r" "rq_status r = R_PENDING"
  shows "(\<exists>z. find_request rid q = Some z \<and> rq_status z = R_FAILED) \<and> rw_users q = rw_users w"
proof -
  have "find_request rid q = Some (r\<lparr>rq_status := R_FAILED, rq_processedAt := Some now,
      rq_completedAt := Some now, rq_errorMessage := Some ''Request rejected by admin'',
      rq_headers := Some (JObj [(''rejectedBy'', j_str adm),
        (''adminNotes'', j_str (str_or nts ''Request rejected'')), (''rejectedAt'', j_int now)])\<rparr>) \<and> rw_users q = rw_users w"
    using assms by (auto simp: reject_role_request_def decidable_request_def Let_def find_put_request split: option.splits if_splits)
  then show ?thesis by auto
qed

text \<open>A resubmission may be requested for an application that is already approved, for there is no
  check of its status: the request is PENDING again, can then be rejected, and its status reads
  rejected although the applicant keeps the role the approval gave.\<close>

theorem resubmission_reopens:
  assumes "approve_role_request rid adm nts t w0 = (Inr a, w1)"
    "request_resubmission rid d adm' t' \<lparr>sv_queue = w1, sv_verified = vs, sv_mails = ms, sv_notifications = ns\<rparr> = (x, w2)"
    "reject_role_request rid adm'' nts'' t'' (sv_queue w2) = (y, q)"
  shows "x = Inr () \<and> map_option rq_status (find_request rid (sv_queue w2)) = Some R_PENDING \<and>
    (\<exists>j. y = Inr j) \<and> find_user (u_id (ap_user a)) q = Some (ap_user a) \<and>
    (\<exists>r. find_request rid q = Some r \<and> determine_application_status r (w2\<lparr>sv_queue := q\<rparr>) = APP_REJECTED)"
proof -
  let ?w = "\<lparr>sv_queue = w1, sv_verified = vs, sv_mails = ms, sv_notifications = ns\<rparr>"
  obtain r where r: "find_request rid w1 = Some r" using approve_completes [OF assms(1)] by auto
  obtain p h where q: "sv_queue w2 = put_request rid (\<lambda>x. x\<lparr>rq_status := R_PENDING, rq_payload := Some p, rq_headers := Some h\<rparr>) w1"
    "x = Inr ()"
  proof (rule request_resubmission_queue [of rid ?w r d adm' t'])
    show "find_request rid (sv_queue ?w) = Some r" by (simp add: r)
  qed (simp add: that assms(2))
  have u: "find_user (u_id (ap_user a)) w1 = Some (ap_user a)"
  proof (rule approve_success [OF assms(1)])
    fix r u assume "set_user_role (u_id u) (json_field ''requestedRole'' (rq_payload r)) w0 =
        (Inr (ap_user a), w0\<lparr>rw_users := rw_users w1\<rparr>)"
    from set_user_role_cases [OF this] show ?thesis by (auto simp: find_user_def)
  qed
  have f: "find_request rid (sv_queue w2) = Some (r\<lparr>rq_status := R_PENDING, rq_payload := Some p, rq_headers := Some h\<rparr>)"
    by (simp add: q find_put_request r)
  from assms(3) f have y: "\<exists>j. y = Inr j"
    by (auto simp: reject_role_request_def decidable_request_def Let_def)
  have st: "\<exists>z. find_request rid q = Some z \<and> rq_status z = R_FAILED" and us: "rw_users q = rw_users (sv_queue w2)"
    using f reject_failed_row [OF assms(3)] by auto
  have "determine_application_status z (w2\<lparr>sv_queue := q\<rparr>) = APP_REJECTED" if "rq_status z = R_FAILED" for z
    using that by (simp add: determine_application_status_def)
  moreover have "find_user (u_id (ap_user a)) q = Some (ap_user a)"
    using us u by (simp add: q(1) find_user_def)
  moreover have "map_option rq_status (find_request rid (sv_queue w2)) = Some R_PENDING" by (simp add: f)
  ultimately show ?thesis using y st q(2) by blast
qed

subsection \<open>Uploading documents\<close>

definition upload_of :: "documents_dto \<Rightarrow> document_type \<Rightarrow> string option" where
  "upload_of d t = the (map_of (documents_given d) t)"

lemma merge_documents_field:
  "map_of (merge_documents d fs) (document_key t) =
     (if truthy_str (upload_of d t) then Some (j_str (the (upload_of d t))) else map_of fs (document_key t))"
  by (cases t) (simp_all add: merge_documents_def documents_given_def upload_of_def)

lemma reset_reviews_field:
  "map_of (reset_reviews d fs) (document_key t) =
     (if truthy_str (upload_of d t) then Some pending_review else map_of fs (document_key t))"
  by (cases t) (simp_all add: reset_reviews_def documents_given_def upload_of_def)

lemma updated_payload_fields:
  "json_field ''documents'' (Some (updated_payload d now p)) = Some (JObj (merge_documents d (object_field ''documents'' p)))"
  "json_field ''documentReviewStatus'' (Some (updated_payload d now p)) =
     Some (JObj (reset_reviews d (object_field ''documentReviewStatus'' p)))"
  "json_field ''submittedAt'' (Some (updated_payload d now p)) = json_field ''submittedAt'' p"
  by (simp_all add: updated_payload_def map_of_put_opt map_of_fields_of)

lemma object_field_lookup: "map_of (object_field k p) k' = json_field k' (json_field k p)"
  by (simp add: object_field_def map_of_fields_of)

definition uploaded :: "documents_dto \<Rightarrow> document_status \<Rightarrow> document_status" where
  "uploaded d s = (if truthy_str (upload_of d (ds_type s))
     then s\<lparr>ds_url := j_str (the (upload_of d (ds_type s))), ds_status := j_str ''PENDING'', ds_notes := None, ds_reviewedAt := None\<rparr>
     else s)"

lemma pending_review_fields:
  "json_field ''status'' (Some pending_review) = Some (j_str ''PENDING'')"
  "json_field ''notes'' (Some pending_review) = None"
  "json_field ''reviewedAt'' (Some pending_review) = Some JNull"
  by (simp_all add: pending_review_def)

lemma build_document_status_uploaded:
  "build_document_status (Some (updated_payload d now p)) = map (uploaded d) (build_document_status p)"
  unfolding build_document_status_def map_map
proof (rule map_cong [OF refl])
  fix t
  have tr: "truthy_str x \<Longrightarrow> or_json (Some (j_str (the x))) e = j_str (the x)" for x e
    by (auto simp: truthy_str_def or_json_def j_str_def split: option.splits)
  have "or_json (Some (j_str ''PENDING'')) e = j_str ''PENDING''" "truthy_opt (Some JNull) = None" for e
    by (simp_all add: or_json_def j_str_def truthy_opt_def)
  then show "(let review = json_field (document_key t) (json_field ''documentReviewStatus'' (Some (updated_payload d now p)))
      in \<lparr>ds_type = t, ds_url = or_json (json_field (document_key t) (json_field ''documents'' (Some (updated_payload d now p)))) (j_str []),
          ds_status = or_json (json_field ''status'' review) (j_str ''PENDING''),
          ds_notes = json_field ''notes'' review, ds_reviewedAt = truthy_opt (json_field ''reviewedAt'' review),
          ds_submittedAt = truthy_opt (json_field ''submittedAt'' (Some (updated_payload d now p)))\<rparr>) =
    (uploaded d \<circ> (\<lambda>t. let review = json_field (document_key t) (json_field ''documentReviewStatus'' p)
      in \<lparr>ds_type = t, ds_url = or_json (json_field (document_key t) (json_field ''documents'' p)) (j_str []),
          ds_status = or_json (json_field ''status'' review) (j_str ''PENDING''),
          ds_notes = json_field ''notes'' review, ds_reviewedAt = truthy_opt (json_field ''reviewedAt'' review),
          ds_submittedAt = truthy_opt (json_field ''submittedAt'' p)\<rparr>)) t"
    by (simp add: updated_payload_fields merge_documents_field reset_reviews_field object_field_lookup uploaded_def Let_def
        pending_review_fields tr)
qed

text \<open>Uploading documents answers NotFound, and changes nothing, exactly when the user has no
  seller application that is PENDING or PROCESSING. Otherwise it concerns the newest of them, which
  becomes PENDING; no other request changes; and the document list the user then reads shows each
  uploaded file with the review PENDING and no notes, and the other documents as they were.\<close>

theorem update_documents_effect:
  assumes "update_documents uid d now w = (x, w')" "distinct (map rq_id (rw_requests (sv_queue w)))"
  shows "case x of
      Inl e \<Rightarrow> w' = w \<and> e = NotFound ''No pending seller application found. Please submit a new application.'' \<and>
        (\<forall>r \<in> set (rw_requests (sv_queue w)). \<not> (rq_userId r = Some uid \<and> rq_endpoint r = SELLER_ENDPOINT \<and>
          rq_status r \<in> {R_PENDING, R_PROCESSING}))
    | Inr (rid, ts) \<Rightarrow> (\<exists>r r'. find_request rid (sv_queue w) = Some r \<and> rq_userId r = Some uid \<and>
        rq_endpoint r = SELLER_ENDPOINT \<and> rq_status r \<in> {R_PENDING, R_PROCESSING} \<and>
        (\<forall>x \<in> set (rw_requests (sv_queue w)). rq_userId x = Some uid \<and> rq_endpoint x = SELLER_ENDPOINT \<and>
          rq_status x \<in> {R_PENDING, R_PROCESSING} \<longrightarrow> rq_queuedAt x \<le> rq_queuedAt r) \<and>
        find_request rid (sv_queue w') = Some r' \<and> rq_status r' = R_PENDING \<and>
        (\<forall>k. k \<noteq> rid \<longrightarrow> find_request k (sv_queue w') = find_request k (sv_queue w)) \<and>
        build_document_status (rq_payload r') = map (uploaded d) (build_document_status (rq_payload r)))"
proof (cases "open_application uid (sv_queue w)")
  case None
  then show ?thesis using assms(1) open_application_None_iff [of uid "sv_queue w"]
    by (auto simp: update_documents_def)
next
  case (Some r)
  note r = open_application_SomeD [OF Some]
  have f: "find_request (rq_id r) (sv_queue w) = Some r"
    unfolding find_request_def by (rule find_by_distinct) (use assms(2) r in auto)
  let ?r' = "r\<lparr>rq_status := R_PENDING, rq_payload := Some (updated_payload d now (rq_payload r))\<rparr>"
  have x: "x = Inr (rq_id r, map fst (filter (\<lambda>x. snd x \<noteq> None) (documents_given d)))"
    and w': "sv_queue w' = put_request (rq_id r) (\<lambda>x. x\<lparr>rq_status := R_PENDING,
              rq_payload := Some (updated_payload d now (rq_payload r))\<rparr>) (sv_queue w)"
    using assms(1) by (auto simp: update_documents_def Some)
  have "find_request (rq_id r) (sv_queue w') = Some ?r'"
    "\<forall>k. k \<noteq> rq_id r \<longrightarrow> find_request k (sv_queue w') = find_request k (sv_queue w)"
    by (simp_all add: w' find_put_request f)
  moreover have "rq_queuedAt y \<le> rq_queuedAt r" if "y \<in> set (rw_requests (sv_queue w))" "rq_userId y = Some uid"
      "rq_endpoint y = SELLER_ENDPOINT" "rq_status y \<in> {R_PENDING, R_PROCESSING}" for y
    by (rule open_application_newest [OF Some that])
  ultimately show ?thesis using r f
    by (auto simp: x build_document_status_uploaded intro!: exI [of _ r] exI [of _ ?r'])
qed

subsection \<open>Witnesses\<close>

definition demo_sv :: "request_world \<Rightarrow> sv_world" where
  "demo_sv q = \<lparr>sv_queue = q, sv_verified = [''u1''], sv_mails = [], sv_notifications = []\<rparr>"

definition demo_resubmission :: resubmission_dto where
  "demo_resubmission = \<lparr>rs_documents = [GOVERNMENT_ID], rs_reason = ''blurred'', rs_instructions = [], rs_deadlineDays = None\<rparr>"

definition demo_documents :: documents_dto where
  "demo_documents = \<lparr>dd_governmentId = Some ''new'', dd_birCertificate = None, dd_businessCertificate = None,
     dd_resubmissionNotes = None\<rparr>"

lemma demo_request: "\<exists>p. rw_requests demo_applied = [\<lparr>rq_id = ''r1'', rq_userId = Some ''u1'', rq_endpoint = SELLER_ENDPOINT,
    rq_method = ''POST'', rq_priority = 70, rq_payload = Some (JObj p), rq_headers = None, rq_status = R_PENDING,
    rq_queuedAt = 1, rq_processedAt = None, rq_completedAt = None, rq_expiresAt = 1 + 30 * DAY_MS, rq_errorMessage = None\<rparr>]"
  by (simp add: demo_applied_def demo_queue_def demo_user_def create_role_change_request_def find_user_def insert_request_def
      request_user_def seller_payload_def)

lemma resubmission_sticky_witness:
  "\<exists>r. find_request ''r1'' (sv_queue (snd (update_documents ''u1'' demo_documents 3
       (snd (request_resubmission ''r1'' demo_resubmission ''a1'' 2 (demo_sv demo_applied)))))) = Some r \<and>
     determine_application_status r (snd (update_documents ''u1'' demo_documents 3
       (snd (request_resubmission ''r1'' demo_resubmission ''a1'' 2 (demo_sv demo_applied))))) = RESUBMISSION_REQUIRED"
proof -
  let ?w = "snd (request_resubmission ''r1'' demo_resubmission ''a1'' 2 (demo_sv demo_applied))"
  obtain r where r: "rw_requests demo_applied = [r]" "rq_id r = ''r1''" "rq_status r = R_PENDING" using demo_request by auto
  have f: "find_request ''r1'' (sv_queue (demo_sv demo_applied)) = Some r" by (simp add: demo_sv_def find_request_def r)
  obtain p h where q: "sv_queue ?w =
      put_request ''r1'' (\<lambda>x. x\<lparr>rq_status := R_PENDING, rq_payload := Some p, rq_headers := Some h\<rparr>) (sv_queue (demo_sv demo_applied))"
    "truthy_field ''resubmissionRequired'' (Some p)"
    by (rule request_resubmission_queue [OF f])
  have s: "(waiting_step ''r1'')\<^sup>*\<^sup>* ?w (snd (update_documents ''u1'' demo_documents 3 ?w))"
    by (rule r_into_rtranclp) (rule w_update)
  have d: "distinct (map rq_id (rw_requests (sv_queue ?w)))"
    unfolding review_ids by (simp add: demo_sv_def r)
  have g: "find_request ''r1'' (sv_queue ?w) = Some (r\<lparr>rq_status := R_PENDING, rq_payload := Some p, rq_headers := Some h\<rparr>)"
    by (simp add: q(1) find_put_request f)
  from resubmission_sticky [OF s d g] q(2) show ?thesis by auto
qed

lemma resubmission_reopens_witness:
  "\<exists>u. find_user ''u1'' (snd (reject_role_request ''r1'' ''a1'' None 4 (sv_queue (snd (request_resubmission ''r1'' demo_resubmission ''a1'' 3
       (demo_sv (snd (approve_role_request ''r1'' ''a1'' None 2 demo_applied)))))))) = Some u \<and> u_role u = ADMIN"
proof -
  obtain a where a: "approve_role_request ''r1'' ''a1'' None 2 demo_applied =
      (Inr a, snd (approve_role_request ''r1'' ''a1'' None 2 demo_applied))" "u_role (ap_user a) = ADMIN" using demo_approve by blast
  have "u_id (ap_user a) = ''u1''"
  proof (rule approve_success [OF a(1)])
    fix r u assume r: "find_request ''r1'' demo_applied = Some r" "request_user r demo_applied = Some u"
      "set_user_role (u_id u) (json_field ''requestedRole'' (rq_payload r)) demo_applied =
        (Inr (ap_user a), demo_applied\<lparr>rw_users := rw_users (snd (approve_role_request ''r1'' ''a1'' None 2 demo_applied))\<rparr>)"
    have "rq_userId r = Some ''u1''" using demo_request r(1) by (auto simp: find_request_def)
    then have "u_id u = ''u1''" using request_user_id [OF r(2)] by simp
    then show ?thesis using set_user_role_cases [OF r(3)] by simp
  qed
  then show ?thesis using a(2)
      resubmission_reopens [OF a(1) surjective_pairing [of "request_resubmission ''r1'' demo_resubmission ''a1'' 3
        \<lparr>sv_queue = snd (approve_role_request ''r1'' ''a1'' None 2 demo_applied), sv_verified = [''u1''], sv_mails = [],
          sv_notifications = []\<rparr>"] surjective_pairing [of "reject_role_request ''r1'' ''a1'' None 4 _"]]
    by (auto simp: demo_sv_def)
qed

lemma update_documents_effect_witness:
  "\<exists>ts. fst (update_documents ''u1'' demo_documents 3 (demo_sv demo_applied)) = Inr (''r1'', ts) \<and>
     map_option rq_status (find_request ''r1'' (sv_queue (snd (update_documents ''u1'' demo_documents 3 (demo_sv demo_applied))))) = Some R_PENDING"
proof -
  obtain p where r: "rw_requests demo_applied = [\<lparr>rq_id = ''r1'', rq_userId = Some ''u1'', rq_endpoint = SELLER_ENDPOINT,
    rq_method = ''POST'', rq_priority = 70, rq_payload = Some (JObj p), rq_headers = None, rq_status = R_PENDING,
    rq_queuedAt = 1, rq_processedAt = None, rq_completedAt = None, rq_expiresAt = 1 + 30 * DAY_MS, rq_errorMessage = None\<rparr>]"
    using demo_request by blast
  have "distinct (map rq_id (rw_requests (sv_queue (demo_sv demo_applied))))" by (simp add: demo_sv_def r)
  from update_documents_effect [OF surjective_pairing this, of "''u1''" demo_documents 3]
  show ?thesis by (auto simp: demo_sv_def r find_request_def split: sum.splits if_splits)
qed

end
