(* ===== verification/Auth_Data.thy ===== *)
theory Auth_Data
  imports Shop_Data
begin

section \<open>Accounts, tokens and the libraries behind them\<close>

text \<open>
  The user table as \<open>modules/auth/auth.service.ts\<close> sees it, with the unique columns of the schema,
  and what the service uses of three libraries, as an argument: \<open>@nestjs/jwt\<close> (\<open>sign\<close> takes the
  payload, a life in seconds and the time; \<open>verify\<close> gives the payload and its \<open>exp\<close>), \<open>bcrypt\<close>
  (\<open>hash\<close> takes the random salt) and the Clerk client; \<open>al_life\<close> is the configured life of a token
  in seconds. The laws of the first two are \<open>auth_library\<close>. Tokens are of any type, dates milliseconds, random codes and ids arguments. Mails are
  queued in an outbox; that the queue and the direct mail both fail is swallowed by the code.
\<close>

record account =
  ac_id :: string
  ac_clerkId :: "string option"
  ac_email :: string
  ac_username :: "string option"
  ac_firstName :: "string option"
  ac_lastName :: "string option"
  ac_imageUrl :: "string option"
  ac_role :: user_role
  ac_isActive :: bool
  ac_password :: "string option"
  ac_emailVerified :: bool
  ac_verifyToken :: "string option"
  ac_verifyExpiry :: "ms option"
  ac_code :: "string option"
  ac_codeExpiry :: "ms option"
  ac_codeSentAt :: "ms option"
  ac_codeUsed :: bool
  ac_codeAttempts :: int
  ac_resetCode :: "string option"
  ac_resetExpiry :: "ms option"
  ac_resetSentAt :: "ms option"
  ac_resetUsed :: bool
  ac_resetAttempts :: int
  ac_googleId :: "string option"
  ac_facebookId :: "string option"
  ac_firebaseUid :: "string option"
  ac_oauth :: "string list"
  ac_lastLoginAt :: "ms option"
  ac_createdAt :: ms

record claims =
  cl_sub :: string
  cl_email :: string
  cl_role :: user_role
  cl_impersonatedBy :: "string option"

record 't auth_lib =
  al_sign :: "claims \<Rightarrow> int \<Rightarrow> ms \<Rightarrow> 't"
  al_verify :: "'t \<Rightarrow> ms \<Rightarrow> (claims \<times> int) option"
  al_hash :: "string \<Rightarrow> string \<Rightarrow> string"
  al_compare :: "string \<Rightarrow> string \<Rightarrow> bool"
  al_life :: int

datatype auth_mail =
    VerificationCode string string
  | ResetCode string string
  | PasswordChanged string
  | Welcome string

record auth_world =
  aw_accounts :: "account list"
  aw_outbox :: "auth_mail list"
  aw_registrations :: nat

text \<open>What \<open>jsonwebtoken\<close> and \<open>bcrypt\<close> document: \<open>exp\<close> is the second of signing plus the life, a token
  is refused from that second on, and a hash matches the passwords that agree with the one it was made of in
  their first 72 bytes, all that bcrypt reads.\<close>

definition auth_library :: "'t auth_lib \<Rightarrow> bool" where
  "auth_library lib \<longleftrightarrow>
     (\<forall>c life t t'. al_verify lib (al_sign lib c life t) t' =
        (if t' div 1000 < t div 1000 + life then Some (c, t div 1000 + life) else None)) \<and>
     (\<forall>p salt q. al_compare lib p (al_hash lib salt q) \<longleftrightarrow> take 72 p = take 72 q)"

lemma auth_libraryD:
  assumes "auth_library lib"
  shows "al_verify lib (al_sign lib c life t) t' = (if t' div 1000 < t div 1000 + life then Some (c, t div 1000 + life) else None)"
    "al_compare lib p (al_hash lib salt q) \<longleftrightarrow> take 72 p = take 72 q"
  using assms by (auto simp: auth_library_def)

subsection \<open>Expiry\<close>

definition generateCodeExpiry :: "int \<Rightarrow> ms \<Rightarrow> ms" where
  "generateCodeExpiry minutes now = now + minutes * 60 * 1000"

text \<open>\<open>setHours\<close> in local time is the same instant plus whole hours where no clock change intervenes.\<close>

definition generateTokenExpiry :: "int \<Rightarrow> ms \<Rightarrow> ms" where
  "generateTokenExpiry hours now = now + hours * 60 * 60 * 1000"

definition isCodeExpired :: "ms option \<Rightarrow> ms \<Rightarrow> bool" where
  "isCodeExpired expiry now = (case expiry of None \<Rightarrow> True | Some e \<Rightarrow> e < now)"

definition isTokenExpired :: "ms option \<Rightarrow> ms \<Rightarrow> bool" where
  "isTokenExpired expiry now = (case expiry of None \<Rightarrow> True | Some e \<Rightarrow> e < now)"

fun to_digits :: "nat \<Rightarrow> nat \<Rightarrow> string" where
  "to_digits 0 n = []"
| "to_digits (Suc k) n = to_digits k (n div 10) @ [char_of (48 + n mod 10)]"

text \<open>\<open>randomInt(0, 1000000)\<close> padded to six digits.\<close>

definition generateSixDigitCode :: "nat \<Rightarrow> string" where
  "generateSixDigitCode r = to_digits 6 r"

subsection \<open>Text\<close>

definition hex_digit :: "nat \<Rightarrow> char" where
  "hex_digit n = (if n < 10 then char_of (48 + n) else char_of (55 + n))"

definition unreserved :: "char \<Rightarrow> bool" where
  "unreserved c \<longleftrightarrow> (let n = (of_char c :: nat) in 48 \<le> n \<and> n \<le> 57 \<or> 65 \<le> n \<and> n \<le> 90 \<or> 97 \<le> n \<and> n \<le> 122) \<or>
     c \<in> set ''-_.!~*'' \<or> of_char c \<in> {39 :: nat, 40, 41}"

text \<open>Strings are the bytes of their UTF-8 form.\<close>

definition encodeURIComponent :: "string \<Rightarrow> string" where
  "encodeURIComponent s = concat (map (\<lambda>c. if unreserved c then [c]
     else let n = of_char c in [CHR ''%'', hex_digit (n div 16), hex_digit (n mod 16)]) s)"

definition avatar_url :: "string \<Rightarrow> string" where
  "avatar_url seed = ''https://api.dicebear.com/9.x/bottts-neutral/svg?seed='' @ encodeURIComponent seed"

text \<open>\<open>toLowerCase().replace(/[^a-z0-9]/g, '')\<close>\<close>

definition username_chars :: "string \<Rightarrow> string" where
  "username_chars s = filter (\<lambda>c. is_digit_char c \<or> 97 \<le> (of_char c :: nat) \<and> (of_char c :: nat) \<le> 122) (to_lower s)"

definition email_local :: "string \<Rightarrow> string" where
  "email_local e = hd (split_on (CHR ''@'') e)"

subsection \<open>The table\<close>

text \<open>Two values of a unique column agree; NULLs never do.\<close>

definition same_key :: "string option \<Rightarrow> string option \<Rightarrow> bool" where
  "same_key a b \<longleftrightarrow> a \<noteq> None \<and> a = b"

definition clashes :: "account \<Rightarrow> account \<Rightarrow> bool" where
  "clashes a b \<longleftrightarrow> ac_id a = ac_id b \<or> ac_email a = ac_email b \<or> same_key (ac_clerkId a) (ac_clerkId b) \<or>
     same_key (ac_username a) (ac_username b) \<or> same_key (ac_googleId a) (ac_googleId b) \<or>
     same_key (ac_facebookId a) (ac_facebookId b) \<or> same_key (ac_firebaseUid a) (ac_firebaseUid b)"

definition account_by_id :: "string \<Rightarrow> auth_world \<Rightarrow> account option" where
  "account_by_id i w = find_by ac_id i (aw_accounts w)"

definition account_by_email :: "string \<Rightarrow> auth_world \<Rightarrow> account option" where
  "account_by_email e w = find_by ac_email e (aw_accounts w)"

definition first_account :: "(account \<Rightarrow> bool) \<Rightarrow> auth_world \<Rightarrow> account option" where
  "first_account p w = List.find p (aw_accounts w)"

definition username_taken :: "string \<Rightarrow> auth_world \<Rightarrow> bool" where
  "username_taken u w \<longleftrightarrow> (\<exists>a \<in> set (aw_accounts w). ac_username a = Some u)"

text \<open>\<open>user.create\<close> and \<open>user.update\<close> fail when a unique column would hold a value twice.\<close>

definition insert_account :: "account \<Rightarrow> auth_world \<Rightarrow> account res \<times> auth_world" where
  "insert_account a w =
     (if list_ex (clashes a) (aw_accounts w) then (Inl (InternalError ''P2002 unique constraint''), w)
      else (Inr a, w\<lparr>aw_accounts := aw_accounts w @ [a]\<rparr>))"

definition update_account :: "string \<Rightarrow> (account \<Rightarrow> account) \<Rightarrow> auth_world \<Rightarrow> account res \<times> auth_world" where
  "update_account i f w =
     (case account_by_id i w of
        None \<Rightarrow> (Inl (InternalError ''P2025 record not found''), w)
      | Some a \<Rightarrow>
          if list_ex (clashes (f a)) (filter (\<lambda>b. ac_id b \<noteq> i) (aw_accounts w))
          then (Inl (InternalError ''P2002 unique constraint''), w)
          else (Inr (f a), w\<lparr>aw_accounts := update_by ac_id i f (aw_accounts w)\<rparr>))"

definition queue_mail :: "auth_mail \<Rightarrow> auth_world \<Rightarrow> auth_world" where
  "queue_mail m w = w\<lparr>aw_outbox := aw_outbox w @ [m]\<rparr>"

definition count_registration :: "auth_world \<Rightarrow> auth_world" where
  "count_registration w = w\<lparr>aw_registrations := Suc (aw_registrations w)\<rparr>"

text \<open>A row with the defaults of the schema.\<close>

definition blank_account :: "string \<Rightarrow> string \<Rightarrow> ms \<Rightarrow> account" where
  "blank_account i email now = \<lparr>ac_id = i, ac_clerkId = None, ac_email = email, ac_username = None,
     ac_firstName = None, ac_lastName = None, ac_imageUrl = None, ac_role = USER, ac_isActive = True,
     ac_password = None, ac_emailVerified = False, ac_verifyToken = None, ac_verifyExpiry = None,
     ac_code = None, ac_codeExpiry = None, ac_codeSentAt = None, ac_codeUsed = False, ac_codeAttempts = 0,
     ac_resetCode = None, ac_resetExpiry = None, ac_resetSentAt = None, ac_resetUsed = False,
     ac_resetAttempts = 0, ac_googleId = None, ac_facebookId = None, ac_firebaseUid = None, ac_oauth = [],
     ac_lastLoginAt = None, ac_createdAt = now\<rparr>"

subsection \<open>Claims and passwords\<close>

definition claims_of :: "account \<Rightarrow> claims" where
  "claims_of a = \<lparr>cl_sub = ac_id a, cl_email = ac_email a, cl_role = ac_role a, cl_impersonatedBy = None\<rparr>"

definition DAY_S :: int where "DAY_S = 24 * 60 * 60"

text \<open>A library that keeps what bcrypt reads, for the instances.\<close>

definition demo_lib :: "(claims \<times> int \<times> ms) auth_lib" where
  "demo_lib = \<lparr>al_sign = (\<lambda>c life t. (c, life, t)),
     al_verify = (\<lambda>(c, life, t) t'. if t' div 1000 < t div 1000 + life then Some (c, t div 1000 + life) else None),
     al_hash = (\<lambda>salt p. take 72 p), al_compare = (\<lambda>p h. take 72 p = h), al_life = DAY_S\<rparr>"

lemma demo_lib_ok: "auth_library demo_lib"
  by (simp add: auth_library_def demo_lib_def)

text \<open>\<open>bcrypt.compare\<close> throws where the account has no hash.\<close>

definition comparePassword :: "'t auth_lib \<Rightarrow> string \<Rightarrow> string option \<Rightarrow> bool res" where
  "comparePassword lib pass h =
     (case h of None \<Rightarrow> Inl (InternalError ''data and hash arguments required'') | Some x \<Rightarrow> Inr (al_compare lib pass x))"

subsection \<open>Lemmas\<close>

lemma queue_mail_simps [simp]:
  "aw_accounts (queue_mail m w) = aw_accounts w" "account_by_id i (queue_mail m w) = account_by_id i w"
  "account_by_email e (queue_mail m w) = account_by_email e w" "first_account p (queue_mail m w) = first_account p w"
  by (simp_all add: queue_mail_def account_by_id_def account_by_email_def first_account_def)

lemma count_registration_simps [simp]:
  "aw_accounts (count_registration w) = aw_accounts w" "account_by_id i (count_registration w) = account_by_id i w"
  "account_by_email e (count_registration w) = account_by_email e w"
  by (simp_all add: count_registration_def account_by_id_def account_by_email_def)

text \<open>No two rows share the value of a unique column.\<close>

definition accounts_unique :: "auth_world \<Rightarrow> bool" where
  "accounts_unique w \<longleftrightarrow> sorted_wrt (\<lambda>a b. \<not> clashes a b) (aw_accounts w)"

lemma same_key_sym: "same_key a b = same_key b a"
  by (auto simp: same_key_def)

lemma clashes_sym: "clashes a b \<longleftrightarrow> clashes b a"
  unfolding clashes_def by (simp only: same_key_sym [of "_ a"] eq_commute [of "ac_id a"] eq_commute [of "ac_email a"])

lemma unique_ids: "accounts_unique w \<Longrightarrow> distinct (map ac_id (aw_accounts w))"
proof -
  have "sorted_wrt (\<lambda>a b. \<not> clashes a b) xs \<Longrightarrow> distinct (map ac_id xs)" for xs
    by (induction xs) (auto simp: clashes_def)
  then show "accounts_unique w \<Longrightarrow> ?thesis" by (simp add: accounts_unique_def)
qed

lemma unique_emails: "accounts_unique w \<Longrightarrow> distinct (map ac_email (aw_accounts w))"
proof -
  have "sorted_wrt (\<lambda>a b. \<not> clashes a b) xs \<Longrightarrow> distinct (map ac_email xs)" for xs
    by (induction xs) (auto simp: clashes_def)
  then show "accounts_unique w \<Longrightarrow> ?thesis" by (simp add: accounts_unique_def)
qed

lemma unique_no_clash:
  "accounts_unique w \<Longrightarrow> a \<in> set (aw_accounts w) \<Longrightarrow> b \<in> set (aw_accounts w) \<Longrightarrow> ac_id a \<noteq> ac_id b \<Longrightarrow> \<not> clashes a b"
proof -
  have "sorted_wrt (\<lambda>a b. \<not> clashes a b) xs \<Longrightarrow> a \<in> set xs \<Longrightarrow> b \<in> set xs \<Longrightarrow> ac_id a \<noteq> ac_id b \<Longrightarrow> \<not> clashes a b" for xs
    by (induction xs) (auto simp: clashes_sym)
  then show "accounts_unique w \<Longrightarrow> a \<in> set (aw_accounts w) \<Longrightarrow> b \<in> set (aw_accounts w) \<Longrightarrow> ac_id a \<noteq> ac_id b \<Longrightarrow> ?thesis"
    by (simp add: accounts_unique_def)
qed

lemma insert_account_unique: "accounts_unique w \<Longrightarrow> accounts_unique (snd (insert_account a w))"
  by (auto simp: insert_account_def accounts_unique_def sorted_wrt_append list_ex_iff clashes_sym)

lemma sorted_wrt_update_by:
  assumes "sorted_wrt (\<lambda>a b. \<not> clashes a b) xs"
    and "\<forall>b \<in> set xs. ac_id b \<noteq> i \<longrightarrow> (\<forall>a \<in> set xs. ac_id a = i \<longrightarrow> \<not> clashes (f a) b)"
  shows "sorted_wrt (\<lambda>a b. \<not> clashes a b) (update_by ac_id i f xs)"
  using assms
proof (induction xs)
  case (Cons x xs)
  have ne: "ac_id y \<noteq> ac_id x" if "y \<in> set xs" for y using Cons.prems(1) that by (auto simp: clashes_def)
  have "\<not> clashes (if ac_id x = i then f x else x) z" if z: "z \<in> set (update_by ac_id i f xs)" for z
  proof -
    obtain y where y: "y \<in> set xs" "z = (if ac_id y = i then f y else y)"
      using z by (auto simp: update_by_def set_update_where)
    then show ?thesis using Cons.prems ne [OF y(1)] clashes_sym [of x "f y"] by auto
  qed
  then show ?case using Cons by auto
qed simp

lemma update_account_unique: "accounts_unique w \<Longrightarrow> accounts_unique (snd (update_account i f w))"
proof (cases "account_by_id i w")
  case (Some a)
  assume u: "accounts_unique w"
  have "ac_id b = i \<Longrightarrow> b \<in> set (aw_accounts w) \<Longrightarrow> b = a" for b
    using Some unique_ids [OF u] by (metis account_by_id_def find_by_distinct option.inject)
  then show ?thesis using u Some
    by (auto simp: update_account_def accounts_unique_def list_ex_iff intro!: sorted_wrt_update_by)
qed (simp add: update_account_def)

text \<open>An update of columns that are not unique succeeds on a row that exists.\<close>

definition keeps_keys :: "(account \<Rightarrow> account) \<Rightarrow> bool" where
  "keeps_keys f \<longleftrightarrow> (\<forall>a. ac_id (f a) = ac_id a \<and> ac_email (f a) = ac_email a \<and> ac_clerkId (f a) = ac_clerkId a \<and>
     ac_username (f a) = ac_username a \<and> ac_googleId (f a) = ac_googleId a \<and> ac_facebookId (f a) = ac_facebookId a \<and>
     ac_firebaseUid (f a) = ac_firebaseUid a)"

lemma update_account_plain:
  assumes "accounts_unique w" "account_by_id i w = Some a" "keeps_keys f"
  shows "update_account i f w = (Inr (f a), w\<lparr>aw_accounts := update_by ac_id i f (aw_accounts w)\<rparr>)"
proof -
  have a: "a \<in> set (aw_accounts w)" "ac_id a = i" using assms(2) by (auto simp: account_by_id_def dest: find_by_SomeD)
  have "\<not> clashes (f a) b" if "b \<in> set (aw_accounts w)" "ac_id b \<noteq> i" for b
    using unique_no_clash [OF assms(1) a(1) that(1)] that(2) a(2) assms(3) by (simp add: clashes_def keeps_keys_def)
  then show ?thesis by (simp add: update_account_def assms(2) list_ex_iff)
qed

lemma account_by_id_update:
  "(\<And>a. ac_id (f a) = ac_id a) \<Longrightarrow>
   account_by_id k (w\<lparr>aw_accounts := update_by ac_id i f (aw_accounts w)\<rparr>) =
     (if k = i then map_option f (account_by_id k w) else account_by_id k w)"
  by (simp add: account_by_id_def find_by_update_by)

lemma account_by_email_id:
  assumes "accounts_unique w" "account_by_email e w = Some a"
  shows "account_by_id (ac_id a) w = Some a" "ac_email a = e" "a \<in> set (aw_accounts w)"
  using assms unique_ids [OF assms(1)]
  by (auto simp: account_by_email_def account_by_id_def dest: find_by_SomeD intro: find_by_distinct)

lemma account_by_email_update:
  assumes "accounts_unique w" "account_by_email e w = Some a" "keeps_keys f"
  shows "account_by_email k (w\<lparr>aw_accounts := update_by ac_id (ac_id a) f (aw_accounts w)\<rparr>) =
     (if k = e then Some (f a) else account_by_email k w)"
proof -
  have *: "find_by ac_email k (update_by ac_id (ac_id a) f xs) =
      (case find_by ac_email k xs of None \<Rightarrow> None | Some b \<Rightarrow> Some (if ac_id b = ac_id a then f b else b))" for xs
    using assms(3) by (induction xs) (auto simp: keeps_keys_def)
  have "b = a" if "b \<in> set (aw_accounts w)" "ac_id b = ac_id a" for b
    using that account_by_email_id [OF assms(1,2)] unique_ids [OF assms(1)]
    by (metis account_by_id_def find_by_distinct option.inject)
  moreover have "ac_id b \<noteq> ac_id a" if "find_by ac_email k (aw_accounts w) = Some b" "k \<noteq> e" for b
    using find_by_SomeD [OF that(1)] calculation account_by_email_id(2) [OF assms(1,2)] that(2) by blast
  ultimately show ?thesis
    using assms(2) by (auto simp: account_by_email_def * split: option.splits)
qed

end
