(* ===== verification/Auth_Codes.thy ===== *)
theory Auth_Codes
  imports Auth_Data
begin

section \<open>Registration, e-mail codes and password reset\<close>

text \<open>
  \<open>modules/auth/auth.service.ts\<close>: registration, the verification of an e-mail address by token and
  by a six digit code, and the reset of a password by such a code. A handler is one step at one
  time. The answer of Clerk and whether the insert takes longer than its ten seconds are arguments.
\<close>

record register_dto =
  rg_email :: string
  rg_password :: string
  rg_firstName :: string
  rg_lastName :: string
  rg_username :: "string option"
  rg_imageUrl :: "string option"

text \<open>What is drawn at random.\<close>

record register_random =
  rr_id :: string
  rr_salt :: string
  rr_code :: nat
  rr_token :: string
  rr_local :: string
  rr_suffix :: nat

datatype clerk_answer = ClerkUser string | ClerkUsernameTaken | ClerkFailed

definition local_clerk_id :: "string \<Rightarrow> string" where
  "local_clerk_id t = ''local_'' @ take 32 t"

definition register_username :: "register_dto \<Rightarrow> clerk_answer \<Rightarrow> nat \<Rightarrow> string option" where
  "register_username d c suffix =
     (let u = (case c of
          ClerkUsernameTaken \<Rightarrow> Some ((case rg_username d of None \<Rightarrow> ''undefined'' | Some x \<Rightarrow> x) @ ''_'' @ to_digits 4 suffix)
        | _ \<Rightarrow> rg_username d)
      in if truthy_str u then u else None)"

definition registered_account :: "'t auth_lib \<Rightarrow> register_random \<Rightarrow> register_dto \<Rightarrow> clerk_answer \<Rightarrow> ms \<Rightarrow> account" where
  "registered_account lib r d c now = (blank_account (rr_id r) (rg_email d) now)
     \<lparr>ac_clerkId := Some (case c of ClerkUser i \<Rightarrow> i | _ \<Rightarrow> local_clerk_id (rr_local r)),
      ac_username := register_username d c (rr_suffix r), ac_firstName := Some (rg_firstName d),
      ac_lastName := Some (rg_lastName d), ac_password := Some (al_hash lib (rr_salt r) (rg_password d)),
      ac_imageUrl := Some (if truthy_str (rg_imageUrl d) then the (rg_imageUrl d)
        else avatar_url (str_or (rg_username d) (email_local (rg_email d)))),
      ac_role := USER, ac_isActive := True, ac_emailVerified := False,
      ac_code := Some (generateSixDigitCode (rr_code r)), ac_codeExpiry := Some (generateCodeExpiry 10 now),
      ac_codeUsed := False, ac_codeAttempts := 0, ac_codeSentAt := Some now,
      ac_verifyToken := Some (rr_token r), ac_verifyExpiry := Some (generateTokenExpiry 24 now)\<rparr>"

definition register :: "'t auth_lib \<Rightarrow> register_random \<Rightarrow> register_dto \<Rightarrow> clerk_answer \<Rightarrow> bool \<Rightarrow> ms \<Rightarrow> auth_world \<Rightarrow>
    account res \<times> auth_world" where
  "register lib r d c slow now w =
     (if account_by_email (rg_email d) w \<noteq> None then (Inl (Conflict ''User with this email already exists''), w)
      else if truthy_str (rg_username d) \<and> username_taken (the (rg_username d)) w
      then (Inl (Conflict ''Username already taken''), w)
      else (case insert_account (registered_account lib r d c now) w of
        (Inl e, w1) \<Rightarrow> (Inl (InternalError ''Database is currently unavailable. Please try again in a few minutes.''), w1)
      | (Inr a, w1) \<Rightarrow>
          if slow then (Inl (InternalError ''Database is currently unavailable. Please try again in a few minutes.''), w1)
          else (Inr a, queue_mail (VerificationCode (rg_email d) (generateSixDigitCode (rr_code r))) (count_registration w1))))"

subsection \<open>Verification by token\<close>

definition token_verified :: "account \<Rightarrow> account" where
  "token_verified a = a\<lparr>ac_emailVerified := True, ac_verifyToken := None, ac_verifyExpiry := None\<rparr>"

text \<open>Any error but a refusal becomes one.\<close>

definition or_bad_request :: "string \<Rightarrow> 'a res \<Rightarrow> 'a res" where
  "or_bad_request m r = (case r of Inl (BadRequest x) \<Rightarrow> Inl (BadRequest x) | Inl _ \<Rightarrow> Inl (BadRequest m) | Inr a \<Rightarrow> Inr a)"

definition verify_email :: "string \<Rightarrow> ms \<Rightarrow> auth_world \<Rightarrow> string res \<times> auth_world" where
  "verify_email token now w =
     (case first_account (\<lambda>a. ac_verifyToken a = Some token \<and> \<not> ac_emailVerified a) w of
        None \<Rightarrow> (Inl (BadRequest ''Invalid or already used verification token''), w)
      | Some a \<Rightarrow>
          if isTokenExpired (ac_verifyExpiry a) now
          then (Inl (BadRequest ''Verification token has expired. Please request a new one.''), w)
          else (let (r, w1) = update_account (ac_id a) token_verified w
                in (or_bad_request ''Email verification failed. Please try again.'' (map_sum id (\<lambda>_. ac_email a) r), w1)))"

subsection \<open>Verification by code\<close>

definition count_attempts :: "string \<Rightarrow> auth_world \<Rightarrow> auth_world" where
  "count_attempts email w = w\<lparr>aw_accounts := update_where (\<lambda>a. ac_email a = email \<and> \<not> ac_emailVerified a)
     (\<lambda>a. a\<lparr>ac_codeAttempts := ac_codeAttempts a + 1\<rparr>) (aw_accounts w)\<rparr>"

definition code_verified :: "account \<Rightarrow> account" where
  "code_verified a = a\<lparr>ac_emailVerified := True, ac_code := None, ac_codeExpiry := None, ac_codeUsed := True,
     ac_codeAttempts := 0, ac_verifyToken := None, ac_verifyExpiry := None\<rparr>"

definition verify_email_with_code :: "'t auth_lib \<Rightarrow> string \<Rightarrow> string \<Rightarrow> ms \<Rightarrow> auth_world \<Rightarrow> ('t \<times> account) res \<times> auth_world" where
  "verify_email_with_code lib email code now w =
     (case first_account (\<lambda>a. ac_email a = email \<and> ac_code a = Some code \<and> \<not> ac_emailVerified a) w of
        None \<Rightarrow> (Inl (BadRequest ''Invalid verification code. Please check your email and try again.''), count_attempts email w)
      | Some a \<Rightarrow>
          if ac_codeUsed a
          then (Inl (BadRequest ''This verification code has already been used. Please request a new code.''), w)
          else if isCodeExpired (ac_codeExpiry a) now
          then (Inl (BadRequest ''Verification code has expired. Please request a new code.''), w)
          else if ac_codeAttempts a \<ge> 5
          then (Inl (BadRequest ''Too many failed verification attempts. Please request a new code.''), w)
          else (case update_account (ac_id a) code_verified w of
              (Inl e, w1) \<Rightarrow> (or_bad_request ''Email verification failed. Please try again.'' (Inl e), w1)
            | (Inr u, w1) \<Rightarrow> (Inr (al_sign lib (claims_of u) (al_life lib) now, u), count_registration w1)))"

text \<open>A code may be sent again a minute after the last one.\<close>

definition too_soon :: "ms option \<Rightarrow> ms \<Rightarrow> bool" where
  "too_soon sentAt now = (case sentAt of None \<Rightarrow> False | Some t \<Rightarrow> now - t < 60000)"

definition new_code :: "nat \<Rightarrow> ms \<Rightarrow> account \<Rightarrow> account" where
  "new_code r now a = a\<lparr>ac_code := Some (generateSixDigitCode r), ac_codeExpiry := Some (generateCodeExpiry 10 now),
     ac_codeUsed := False, ac_codeAttempts := 0, ac_codeSentAt := Some now\<rparr>"

text \<open>The answer carries the address where the account exists.\<close>

definition resend_verification_code :: "nat \<Rightarrow> string \<Rightarrow> ms \<Rightarrow> auth_world \<Rightarrow> string option res \<times> auth_world" where
  "resend_verification_code r email now w =
     (case account_by_email email w of
        None \<Rightarrow> (Inr None, w)
      | Some a \<Rightarrow>
          if ac_emailVerified a then (Inl (BadRequest ''Email is already verified. You can log in now.''), w)
          else if too_soon (ac_codeSentAt a) now then (Inl (BadRequest ''Please wait before requesting a new code.''), w)
          else (case update_account (ac_id a) (new_code r now) w of
              (Inl e, w1) \<Rightarrow> (Inl e, w1)
            | (Inr u, w1) \<Rightarrow> (Inr (Some email), queue_mail (VerificationCode email (generateSixDigitCode r)) w1)))"

text \<open>The second endpoint has the same steps.\<close>

definition resend_verification_email :: "nat \<Rightarrow> string \<Rightarrow> ms \<Rightarrow> auth_world \<Rightarrow> string option res \<times> auth_world" where
  "resend_verification_email r email now w =
     (case account_by_email email w of
        None \<Rightarrow> (Inr None, w)
      | Some a \<Rightarrow>
          if ac_emailVerified a then (Inl (BadRequest ''Email is already verified. You can log in now.''), w)
          else if too_soon (ac_codeSentAt a) now then (Inl (BadRequest ''Please wait before requesting a new code.''), w)
          else (case update_account (ac_id a) (new_code r now) w of
              (Inl e, w1) \<Rightarrow> (Inl e, w1)
            | (Inr u, w1) \<Rightarrow> (Inr (Some email), queue_mail (VerificationCode email (generateSixDigitCode r)) w1)))"

subsection \<open>Password reset\<close>

definition new_reset_code :: "nat \<Rightarrow> ms \<Rightarrow> account \<Rightarrow> account" where
  "new_reset_code r now a = a\<lparr>ac_resetCode := Some (generateSixDigitCode r), ac_resetExpiry := Some (generateCodeExpiry 10 now),
     ac_resetUsed := False, ac_resetAttempts := 0, ac_resetSentAt := Some now\<rparr>"

definition forgot_password :: "nat \<Rightarrow> string \<Rightarrow> ms \<Rightarrow> auth_world \<Rightarrow> string option res \<times> auth_world" where
  "forgot_password r email now w =
     (case account_by_email email w of
        None \<Rightarrow> (Inr None, w)
      | Some a \<Rightarrow>
          if too_soon (ac_resetSentAt a) now then (Inl (BadRequest ''Please wait before requesting a new code.''), w)
          else (case update_account (ac_id a) (new_reset_code r now) w of
              (Inl e, w1) \<Rightarrow> (Inl e, w1)
            | (Inr u, w1) \<Rightarrow> (Inr (Some email), queue_mail (ResetCode email (generateSixDigitCode r)) w1)))"

definition resend_password_reset_code :: "nat \<Rightarrow> string \<Rightarrow> ms \<Rightarrow> auth_world \<Rightarrow> string option res \<times> auth_world" where
  "resend_password_reset_code r email now w = forgot_password r email now w"

text \<open>\<open>findUnique\<close> by address and code, and the three checks both handlers make.\<close>

definition by_reset_code :: "string \<Rightarrow> string \<Rightarrow> auth_world \<Rightarrow> account option" where
  "by_reset_code email code w = (case account_by_email email w of
     Some a \<Rightarrow> if ac_resetCode a = Some code then Some a else None | None \<Rightarrow> None)"

definition reset_checks :: "account \<Rightarrow> ms \<Rightarrow> unit res" where
  "reset_checks a now =
     (if ac_resetUsed a then Inl (BadRequest ''This code has already been used. Please request a new one.'')
      else if isCodeExpired (ac_resetExpiry a) now
      then Inl (BadRequest ''Verification code has expired. Please request a new one.'')
      else if ac_resetAttempts a \<ge> 5 then Inl (BadRequest ''Too many failed attempts. Please request a new code.'')
      else Inr ())"

definition verify_reset_code :: "string \<Rightarrow> string \<Rightarrow> ms \<Rightarrow> auth_world \<Rightarrow> string res \<times> auth_world" where
  "verify_reset_code email code now w =
     (case by_reset_code email code w of
        Some a \<Rightarrow> (map_sum id (\<lambda>_. ac_email a) (reset_checks a now), w)
      | None \<Rightarrow>
          (case account_by_email email w of
             Some a \<Rightarrow>
               if truthy_str (ac_resetCode a)
               then (case update_account (ac_id a) (\<lambda>x. x\<lparr>ac_resetAttempts := ac_resetAttempts a + 1\<rparr>) w of
                   (Inl e, w1) \<Rightarrow> (Inl e, w1)
                 | (Inr _, w1) \<Rightarrow> (Inl (BadRequest (if ac_resetAttempts a + 1 \<ge> 5
                     then ''Maximum verification attempts reached. Please request a new code.''
                     else ''Invalid verification code.'')), w1))
               else (Inl (BadRequest ''Invalid verification code.''), w)
           | None \<Rightarrow> (Inl (BadRequest ''Invalid verification code.''), w)))"

definition new_password :: "'t auth_lib \<Rightarrow> string \<Rightarrow> string \<Rightarrow> account \<Rightarrow> account" where
  "new_password lib salt pass a = a\<lparr>ac_password := Some (al_hash lib salt pass), ac_resetCode := None, ac_resetExpiry := None,
     ac_resetUsed := True, ac_resetAttempts := 0, ac_resetSentAt := None\<rparr>"

definition reset_password :: "'t auth_lib \<Rightarrow> string \<Rightarrow> string \<Rightarrow> string \<Rightarrow> string \<Rightarrow> ms \<Rightarrow> auth_world \<Rightarrow> string res \<times> auth_world" where
  "reset_password lib salt email code newPassword now w =
     (case by_reset_code email code w of
        None \<Rightarrow> (Inl (BadRequest ''Invalid verification code.''), w)
      | Some a \<Rightarrow>
          (case reset_checks a now of
             Inl e \<Rightarrow> (Inl e, w)
           | Inr _ \<Rightarrow>
               (case update_account (ac_id a) (new_password lib salt newPassword) w of
                  (Inl e, w1) \<Rightarrow> (Inl e, w1)
                | (Inr _, w1) \<Rightarrow> (Inr (ac_email a), queue_mail (PasswordChanged (ac_email a)) w1))))"

subsection \<open>Lemmas\<close>

lemma keeps_keys_simps [simp]:
  "keeps_keys token_verified" "keeps_keys code_verified" "keeps_keys (new_code r now)" "keeps_keys (new_reset_code r now)"
  "keeps_keys (new_password lib salt pass)" "keeps_keys (\<lambda>x. x\<lparr>ac_resetAttempts := n\<rparr>)"
  "keeps_keys (\<lambda>x. x\<lparr>ac_codeAttempts := ac_codeAttempts x + m\<rparr>)"
  by (simp_all add: keeps_keys_def token_verified_def code_verified_def new_code_def new_reset_code_def new_password_def)

text \<open>A handler either leaves the table alone or rewrites one row, keeping its keys, or counts attempts.\<close>

lemma update_by_email:
  assumes "accounts_unique w" "account_by_email e w = Some a" "keeps_keys f"
  shows "update_account (ac_id a) f w = (Inr (f a), w\<lparr>aw_accounts := update_by ac_id (ac_id a) f (aw_accounts w)\<rparr>)"
  using assms account_by_email_id [OF assms(1,2)] by (intro update_account_plain) simp_all

lemma account_of_row:
  assumes "accounts_unique w" "a \<in> set (aw_accounts w)"
  shows "account_by_email (ac_email a) w = Some a"
  unfolding account_by_email_def by (rule find_by_distinct [OF unique_emails [OF assms(1)] assms(2)])

lemma first_account_SomeD: "first_account p w = Some a \<Longrightarrow> p a \<and> a \<in> set (aw_accounts w)"
  unfolding first_account_def by (metis find_Some_iff nth_mem)

lemma first_by_email:
  assumes "accounts_unique w"
  shows "first_account (\<lambda>a. ac_email a = e \<and> p a) w =
    (case account_by_email e w of Some a \<Rightarrow> if p a then Some a else None | None \<Rightarrow> None)"
proof -
  have "distinct (map ac_email xs) \<Longrightarrow> List.find (\<lambda>a. ac_email a = e \<and> p a) xs =
      (case find_by ac_email e xs of Some a \<Rightarrow> if p a then Some a else None | None \<Rightarrow> None)" for xs
  proof (induction xs)
    case (Cons x xs)
    have "find_by ac_email e xs = None" if "ac_email x = e" using Cons.prems that by (simp add: find_by_None_iff)
    then show ?case using Cons by auto
  qed simp
  from this [OF unique_emails [OF assms]] show ?thesis by (simp add: first_account_def account_by_email_def)
qed

lemma sorted_wrt_update_where:
  assumes "keeps_keys f"
  shows "sorted_wrt (\<lambda>a b. \<not> clashes a b) (update_where p f xs) = sorted_wrt (\<lambda>a b. \<not> clashes a b) xs"
proof -
  have "clashes (if p a then f a else a) (if p b then f b else b) = clashes a b" for a b
    using assms by (simp add: clashes_def keeps_keys_def)
  then show ?thesis by (simp add: update_where_def sorted_wrt_map)
qed

lemma count_attempts_unique [simp]: "accounts_unique (count_attempts e w) = accounts_unique w"
  by (simp add: count_attempts_def accounts_unique_def sorted_wrt_update_where)

lemma count_attempts_email:
  "account_by_email k (count_attempts e w) = map_option (\<lambda>a. if k = e \<and> \<not> ac_emailVerified a
     then a\<lparr>ac_codeAttempts := ac_codeAttempts a + 1\<rparr> else a) (account_by_email k w)"
proof -
  have "account_by_email k (count_attempts e w) = map_option (\<lambda>a. if ac_email a = e \<and> \<not> ac_emailVerified a
      then a\<lparr>ac_codeAttempts := ac_codeAttempts a + 1\<rparr> else a) (account_by_email k w)"
    unfolding account_by_email_def count_attempts_def by simp (rule find_by_update_where, simp)
  moreover have "account_by_email k w = Some a \<Longrightarrow> ac_email a = k" for a
    by (auto simp: account_by_email_def dest: find_by_SomeD)
  ultimately show ?thesis by (cases "account_by_email k w") auto
qed

lemma unique_outbox [simp]:
  "accounts_unique (queue_mail m w) = accounts_unique w" "accounts_unique (count_registration w) = accounts_unique w"
  by (simp_all add: accounts_unique_def)

subsection \<open>Runs\<close>

text \<open>What the endpoints of this theory can do to accounts that exist, in any order.\<close>

datatype code_event =
    VerifyCode string string
  | Resend string nat
  | ResendEmail string nat
  | VerifyToken string
  | Forgot string nat
  | VerifyReset string string
  | ResetPassword string string string string

fun code_step :: "'t auth_lib \<Rightarrow> ms \<Rightarrow> code_event \<Rightarrow> auth_world \<Rightarrow> auth_world" where
  "code_step lib t (VerifyCode e c) w = snd (verify_email_with_code lib e c t w)"
| "code_step lib t (Resend e r) w = snd (resend_verification_code r e t w)"
| "code_step lib t (ResendEmail e r) w = snd (resend_verification_email r e t w)"
| "code_step lib t (VerifyToken k) w = snd (verify_email k t w)"
| "code_step lib t (Forgot e r) w = snd (forgot_password r e t w)"
| "code_step lib t (VerifyReset e c) w = snd (verify_reset_code e c t w)"
| "code_step lib t (ResetPassword salt e c p) w = snd (reset_password lib salt e c p t w)"

text \<open>A guess has a chance when the right code would be accepted.\<close>

definition open_for_guess :: "string \<Rightarrow> ms \<Rightarrow> auth_world \<Rightarrow> bool" where
  "open_for_guess e t w \<longleftrightarrow> (case account_by_email e w of None \<Rightarrow> False
     | Some a \<Rightarrow> \<not> ac_emailVerified a \<and> ac_code a \<noteq> None \<and> \<not> ac_codeUsed a \<and> \<not> isCodeExpired (ac_codeExpiry a) t \<and>
         ac_codeAttempts a < 5)"

fun chances :: "'t auth_lib \<Rightarrow> string \<Rightarrow> (ms \<times> code_event) list \<Rightarrow> auth_world \<Rightarrow> nat" where
  "chances lib e [] w = 0"
| "chances lib e ((t, ev) # es) w =
     (if (\<exists>c. ev = VerifyCode e c) \<and> open_for_guess e t w then 1 else 0) + chances lib e es (code_step lib t ev w)"

lemma unchanged_keys_simps [simp]:
  "ac_id (new_code r t a) = ac_id a" "ac_emailVerified (new_code r t a) = ac_emailVerified a"
  "ac_codeAttempts (new_code r t a) = 0" "ac_codeSentAt (new_code r t a) = Some t"
  by (simp_all add: new_code_def)

lemma code_step_unique: "accounts_unique w \<Longrightarrow> accounts_unique (code_step lib t ev w)"
proof (cases ev)
  case (VerifyReset e c)
  assume "accounts_unique w"
  then show ?thesis using VerifyReset update_account_unique [of w]
    by (auto simp: verify_reset_code_def split: option.splits prod.splits sum.splits) (metis snd_conv)+
qed (use update_account_unique [of w] in
  \<open>auto simp: verify_email_def verify_email_with_code_def resend_verification_code_def resend_verification_email_def
    forgot_password_def reset_password_def Let_def split: option.splits prod.splits sum.splits; metis snd_conv\<close>)+

text \<open>What a step does to the code of one account: nothing, or it verifies it, or counts a wrong guess,
  or sends a new code no sooner than a minute after the last.\<close>

definition code_change :: "ms \<Rightarrow> bool \<Rightarrow> account \<Rightarrow> account \<Rightarrow> bool" where
  "code_change t guess a a' \<longleftrightarrow>
     ac_emailVerified a' \<or>
     \<not> ac_emailVerified a \<and> ac_codeSentAt a' = ac_codeSentAt a \<and> ac_codeAttempts a' = ac_codeAttempts a + 1 \<or>
     \<not> guess \<and> ac_emailVerified a' = ac_emailVerified a \<and> ac_codeAttempts a' = ac_codeAttempts a \<and> ac_codeSentAt a' = ac_codeSentAt a \<or>
     \<not> guess \<and> \<not> ac_emailVerified a \<and> \<not> too_soon (ac_codeSentAt a) t \<and> ac_codeAttempts a' = 0 \<and> ac_codeSentAt a' = Some t"

lemma code_change_refl [simp]: "code_change t False a a"
  by (simp add: code_change_def)

lemma update_email_change:
  assumes "accounts_unique w" "account_by_email e w = Some a" "account_by_email k w = Some b" "keeps_keys f"
    "k = e \<Longrightarrow> code_change t False a (f a)"
  shows "\<exists>a'. account_by_email e (w\<lparr>aw_accounts := update_by ac_id (ac_id b) f (aw_accounts w)\<rparr>) = Some a' \<and> code_change t False a a'"
  using assms account_by_email_update [OF assms(1,3,4), of e] by (cases "k = e") auto

lemma code_step_change:
  assumes u: "accounts_unique w" and a: "account_by_email e w = Some a"
  shows "\<exists>a'. account_by_email e (code_step lib t ev w) = Some a' \<and>
    code_change t ((\<exists>c. ev = VerifyCode e c) \<and> open_for_guess e t w) a a'"
proof -
  note upd = update_by_email [OF u] and chg = update_email_change [OF u a]
  have same: ?thesis if "code_step lib t ev w = w" "\<forall>c. ev \<noteq> VerifyCode e c" using that a by auto
  show ?thesis
  proof (cases ev)
    case (VerifyCode k c)
    show ?thesis
    proof (cases "first_account (\<lambda>a. ac_email a = k \<and> ac_code a = Some c \<and> \<not> ac_emailVerified a) w")
      case None
      have "\<not> ac_emailVerified a" if "open_for_guess e t w" using that a by (simp add: open_for_guess_def)
      with None show ?thesis
        by (auto simp: VerifyCode verify_email_with_code_def count_attempts_email a code_change_def)
    next
      case (Some b)
      then have b: "account_by_email k w = Some b" "ac_code b = Some c" "\<not> ac_emailVerified b"
        using first_by_email [OF u, of k "\<lambda>a. ac_code a = Some c \<and> \<not> ac_emailVerified a"] by (auto split: option.splits if_splits)
      show ?thesis
      proof (cases "k = e \<and> open_for_guess e t w")
        case True
        then have "b = a" "\<not> ac_codeUsed b" "\<not> isCodeExpired (ac_codeExpiry b) t" "ac_codeAttempts b < 5"
          using b a by (auto simp: open_for_guess_def)
        then show ?thesis using True Some b upd [OF b(1), of code_verified] account_by_email_update [OF u b(1), of code_verified e]
          by (auto simp: VerifyCode verify_email_with_code_def code_change_def code_verified_def)
      next
        case False
        have "\<exists>a'. account_by_email e (code_step lib t ev w) = Some a' \<and> code_change t False a a'"
          using Some b(1) upd [OF b(1), of code_verified] a chg [OF b(1), of code_verified t]
          by (auto simp: VerifyCode verify_email_with_code_def code_change_def code_verified_def)
        moreover have neg: "\<not> ((\<exists>c. ev = VerifyCode e c) \<and> open_for_guess e t w)" using False VerifyCode by auto
        ultimately show ?thesis by (simp only: neg)
      qed
    qed
  next
    case (Resend k r)
    show ?thesis
    proof (cases "account_by_email k w")
      case None
      then show ?thesis using a by (simp add: Resend resend_verification_code_def)
    next
      case (Some b)
      have "k = e \<Longrightarrow> code_change t False a (new_code r t a)" if "\<not> ac_emailVerified b \<and> \<not> too_soon (ac_codeSentAt b) t"
        using that Some a by (auto simp: code_change_def new_code_def)
      then show ?thesis using Some a upd [OF Some, of "new_code r t"] chg [OF Some, of "new_code r t" t]
        by (auto simp: Resend resend_verification_code_def)
    qed
  next
    case (ResendEmail k r)
    show ?thesis
    proof (cases "account_by_email k w")
      case None
      then show ?thesis using a by (simp add: ResendEmail resend_verification_email_def)
    next
      case (Some b)
      have "k = e \<Longrightarrow> code_change t False a (new_code r t a)" if "\<not> ac_emailVerified b \<and> \<not> too_soon (ac_codeSentAt b) t"
        using that Some a by (auto simp: code_change_def new_code_def)
      then show ?thesis using Some a upd [OF Some, of "new_code r t"] chg [OF Some, of "new_code r t" t]
        by (auto simp: ResendEmail resend_verification_email_def)
    qed
  next
    case (VerifyToken k)
    show ?thesis
    proof (cases "first_account (\<lambda>a. ac_verifyToken a = Some k \<and> \<not> ac_emailVerified a) w")
      case None
      then show ?thesis using same by (simp add: VerifyToken verify_email_def)
    next
      case (Some b)
      then have b: "account_by_email (ac_email b) w = Some b"
        using account_of_row [OF u] first_account_SomeD by blast
      show ?thesis using Some upd [OF b, of token_verified] chg [OF b, of token_verified t] a same
        by (auto simp: VerifyToken verify_email_def code_change_def token_verified_def)
    qed
  next
    case (Forgot k r)
    show ?thesis
    proof (cases "account_by_email k w")
      case None
      then show ?thesis using a by (simp add: Forgot forgot_password_def)
    next
      case (Some b)
      have "k = e \<Longrightarrow> code_change t False a (new_reset_code r t a)" if "True"
        using that Some a by (auto simp: code_change_def new_reset_code_def)
      then show ?thesis using Some a upd [OF Some, of "new_reset_code r t"] chg [OF Some, of "new_reset_code r t" t]
        by (auto simp: Forgot forgot_password_def)
    qed
  next
    case (VerifyReset k c)
    show ?thesis
    proof (cases "account_by_email k w")
      case None
      then show ?thesis using a by (simp add: VerifyReset verify_reset_code_def by_reset_code_def)
    next
      case (Some b)
      show ?thesis using Some a upd [OF Some, of "\<lambda>x. x\<lparr>ac_resetAttempts := ac_resetAttempts b + 1\<rparr>"]
          chg [OF Some, of "\<lambda>x. x\<lparr>ac_resetAttempts := ac_resetAttempts b + 1\<rparr>" t]
        by (auto simp: VerifyReset verify_reset_code_def by_reset_code_def code_change_def)
    qed
  next
    case (ResetPassword salt k c p)
    show ?thesis
    proof (cases "by_reset_code k c w")
      case None
      then show ?thesis using a by (simp add: ResetPassword reset_password_def)
    next
      case (Some b)
      then have b: "account_by_email k w = Some b" by (auto simp: by_reset_code_def split: option.splits if_splits)
      show ?thesis using Some a upd [OF b, of "new_password lib salt p"] chg [OF b, of "new_password lib salt p" t]
        by (auto simp: ResetPassword reset_password_def code_change_def new_password_def split: sum.splits)
    qed
  qed
qed

text \<open>Guesses still to come until \<open>tEnd\<close>: what is left of the five, and five for each code that may yet be sent.\<close>

definition next_send :: "ms option \<Rightarrow> ms \<Rightarrow> ms" where
  "next_send sentAt t = (case sentAt of None \<Rightarrow> t | Some s \<Rightarrow> max t (s + 60000))"

definition sends_left :: "ms \<Rightarrow> ms option \<Rightarrow> ms \<Rightarrow> int" where
  "sends_left tEnd sentAt t = (if next_send sentAt t \<le> tEnd then 1 + (tEnd - next_send sentAt t) div 60000 else 0)"

definition guess_budget :: "ms \<Rightarrow> ms \<Rightarrow> account \<Rightarrow> int" where
  "guess_budget tEnd t a = (if ac_emailVerified a then 0 else max 0 (5 - ac_codeAttempts a) + 5 * sends_left tEnd (ac_codeSentAt a) t)"

lemma sends_left_nonneg: "0 \<le> sends_left tEnd s t"
  by (simp add: sends_left_def pos_imp_zdiv_nonneg_iff)

lemma sends_left_later: "t \<le> t' \<Longrightarrow> sends_left tEnd s t' \<le> sends_left tEnd s t"
proof -
  assume "t \<le> t'"
  then have "next_send s t \<le> next_send s t'" by (auto simp: next_send_def split: option.split)
  moreover from this have "(tEnd - next_send s t') div 60000 \<le> (tEnd - next_send s t) div 60000" by (simp add: zdiv_mono1)
  ultimately show ?thesis using sends_left_nonneg [of tEnd s t] by (auto simp: sends_left_def)
qed

lemma sends_left_used:
  assumes "\<not> too_soon s t" "t \<le> tEnd"
  shows "sends_left tEnd (Some t) t = sends_left tEnd s t - 1"
proof -
  have n: "next_send s t = t" using assms(1) by (auto simp: next_send_def too_soon_def split: option.splits)
  have "(tEnd - (t + 60000)) div 60000 = (tEnd - t) div 60000 - 1"
    using div_mult_self1 [of 60000 "tEnd - t" "- 1"] by (simp add: algebra_simps)
  moreover have "(tEnd - t) div 60000 = 0" if "tEnd < t + 60000" using that assms(2) by (intro div_pos_pos_trivial) auto
  moreover have "next_send (Some t) t = t + 60000" by (simp add: next_send_def)
  ultimately show ?thesis using assms(2) n by (auto simp: sends_left_def)
qed

lemma guess_budget_step:
  assumes "code_change t guess a a'" "guess \<Longrightarrow> \<not> ac_emailVerified a \<and> ac_codeAttempts a < 5" "t0 \<le> t" "t \<le> tEnd"
  shows "guess_budget tEnd t a' + (if guess then 1 else 0) \<le> guess_budget tEnd t0 a"
proof -
  have later: "sends_left tEnd (ac_codeSentAt a) t \<le> sends_left tEnd (ac_codeSentAt a) t0" by (rule sends_left_later [OF assms(3)])
  consider (v) "ac_emailVerified a'"
    | (wrong) "\<not> ac_emailVerified a" "ac_codeSentAt a' = ac_codeSentAt a" "ac_codeAttempts a' = ac_codeAttempts a + 1"
    | (same) "\<not> guess" "ac_emailVerified a' = ac_emailVerified a" "ac_codeAttempts a' = ac_codeAttempts a" "ac_codeSentAt a' = ac_codeSentAt a"
    | (send) "\<not> guess" "\<not> ac_emailVerified a" "\<not> too_soon (ac_codeSentAt a) t" "ac_codeAttempts a' = 0" "ac_codeSentAt a' = Some t"
    using assms(1) by (auto simp: code_change_def)
  then show ?thesis
  proof cases
    case v
    then show ?thesis using assms(2) sends_left_nonneg [of tEnd "ac_codeSentAt a" t0] by (auto simp: guess_budget_def)
  next
    case wrong
    then show ?thesis using assms(2) later sends_left_nonneg [of tEnd "ac_codeSentAt a" t0] by (auto simp: guess_budget_def)
  next
    case same
    then show ?thesis using later by (simp add: guess_budget_def)
  next
    case send
    then show ?thesis using later sends_left_used [OF send(3) assms(4)] sends_left_nonneg [of tEnd "ac_codeSentAt a" t0]
      by (auto simp: guess_budget_def)
  qed
qed

lemma chances_budget:
  assumes "accounts_unique w" "account_by_email e w = Some a" "sorted (t0 # map fst es)" "\<forall>(t, ev) \<in> set es. t \<le> tEnd"
  shows "int (chances lib e es w) \<le> guess_budget tEnd t0 a"
  using assms
proof (induction es arbitrary: w a t0)
  case Nil
  then show ?case using sends_left_nonneg [of tEnd "ac_codeSentAt a" t0] by (simp add: guess_budget_def)
next
  case (Cons x es)
  obtain t ev where x: "x = (t, ev)" by fastforce
  let ?g = "(\<exists>c. ev = VerifyCode e c) \<and> open_for_guess e t w"
  obtain a' where a': "account_by_email e (code_step lib t ev w) = Some a'" "code_change t ?g a a'"
    using code_step_change [OF Cons.prems(1,2)] by blast
  have "int (chances lib e es (code_step lib t ev w)) \<le> guess_budget tEnd t a'"
    by (rule Cons.IH [OF code_step_unique [OF Cons.prems(1)] a'(1)]) (use Cons.prems(3,4) x in auto)
  moreover have "guess_budget tEnd t a' + (if ?g then 1 else 0) \<le> guess_budget tEnd t0 a"
    by (rule guess_budget_step [OF a'(2)]) (use Cons.prems(2-4) x in \<open>auto simp: open_for_guess_def\<close>)
  ultimately show ?case by (auto simp: x)
qed

subsection \<open>Properties\<close>

text \<open>C11. Against whatever mix of verifications, resends and resets, at most \<open>5 * (T div 60000 + 2)\<close>
  guesses of an e-mail code have a chance within a time \<open>T\<close>: five wrong ones close a code, and a new
  one comes at most once a minute. A guess without a chance is refused whatever it is.\<close>

theorem code_guess_bound:
  assumes "accounts_unique w" "account_by_email e w = Some a" "0 \<le> ac_codeAttempts a" "0 \<le> T"
    and "sorted (t # map fst es)" "\<forall>(t', ev) \<in> set es. t' \<le> t + T"
  shows "int (chances lib e es w) \<le> 5 * (T div 60000 + 2) \<and>
    (\<forall>w' t' c x. accounts_unique w' \<longrightarrow> fst (verify_email_with_code lib e c t' w') = Inr x \<longrightarrow> open_for_guess e t' w')"
proof
  have "t \<le> next_send (ac_codeSentAt a) t" by (auto simp: next_send_def split: option.split)
  then have "(t + T - next_send (ac_codeSentAt a) t) div 60000 \<le> T div 60000" by (intro zdiv_mono1) auto
  then have "sends_left (t + T) (ac_codeSentAt a) t \<le> 1 + T div 60000"
    using assms(4) by (auto simp: sends_left_def pos_imp_zdiv_nonneg_iff)
  then have "guess_budget (t + T) t a \<le> 5 * (T div 60000 + 2)"
    using assms(3,4) by (auto simp: guess_budget_def pos_imp_zdiv_nonneg_iff)
  then show "int (chances lib e es w) \<le> 5 * (T div 60000 + 2)"
    using chances_budget [OF assms(1,2,5,6), of lib] by linarith
  show "\<forall>w' t' c x. accounts_unique w' \<longrightarrow> fst (verify_email_with_code lib e c t' w') = Inr x \<longrightarrow> open_for_guess e t' w'"
  proof (intro allI impI)
    fix w' t' c x
    assume u: "accounts_unique w'" and r: "fst (verify_email_with_code lib e c t' w') = Inr x"
    show "open_for_guess e t' w'"
      using r first_by_email [OF u, of e "\<lambda>a. ac_code a = Some c \<and> \<not> ac_emailVerified a"]
      by (auto simp: verify_email_with_code_def open_for_guess_def split: option.splits if_splits)
  qed
qed

text \<open>A run of wrong codes at \<open>resetPassword\<close>, and one at \<open>verifyResetCode\<close>.\<close>

fun reset_guesses :: "'t auth_lib \<Rightarrow> string \<Rightarrow> string \<Rightarrow> string \<Rightarrow> (ms \<times> string) list \<Rightarrow> auth_world \<Rightarrow> (string res) list \<times> auth_world" where
  "reset_guesses lib salt e p [] w = ([], w)"
| "reset_guesses lib salt e p ((t, c) # gs) w =
     (let (r, w1) = reset_password lib salt e c p t w; (rs, w2) = reset_guesses lib salt e p gs w1 in (r # rs, w2))"

fun verify_guesses :: "string \<Rightarrow> (ms \<times> string) list \<Rightarrow> auth_world \<Rightarrow> auth_world" where
  "verify_guesses e [] w = w"
| "verify_guesses e ((t, c) # gs) w = verify_guesses e gs (snd (verify_reset_code e c t w))"

text \<open>Wrong codes at \<open>resetPassword\<close> are not counted: after any number of them nothing has changed, and
  the right code, in its ten minutes, still sets the password.\<close>

theorem reset_guess_unlimited:
  assumes "accounts_unique w" "account_by_email e w = Some a" "ac_resetCode a = Some code" "\<not> ac_resetUsed a"
    and "ac_resetAttempts a < 5" "ac_resetExpiry a = Some x" "t \<le> x" "\<forall>(t', c) \<in> set gs. c \<noteq> code"
  shows "snd (reset_guesses lib salt e p gs w) = w \<and>
    set (fst (reset_guesses lib salt e p gs w)) \<subseteq> {Inl (BadRequest ''Invalid verification code.'')} \<and>
    fst (reset_password lib salt e code p t (snd (reset_guesses lib salt e p gs w))) = Inr e"
proof -
  have wrong: "reset_password lib salt e c p t' w = (Inl (BadRequest ''Invalid verification code.''), w)" if "c \<noteq> code" for c t'
    using that assms(2,3) by (simp add: reset_password_def by_reset_code_def)
  have "snd (reset_guesses lib salt e p gs w) = w \<and>
      set (fst (reset_guesses lib salt e p gs w)) \<subseteq> {Inl (BadRequest ''Invalid verification code.'')}"
    using assms(8) by (induction gs) (auto simp: wrong Let_def case_prod_beta)
  moreover have "fst (reset_password lib salt e code p t w) = Inr e"
    using assms(2-7) account_by_email_id(2) [OF assms(1,2)] update_by_email [OF assms(1,2), of "new_password lib salt p"]
    by (simp add: reset_password_def by_reset_code_def reset_checks_def isCodeExpired_def)
  ultimately show ?thesis by simp
qed

text \<open>Five wrong codes at \<open>verifyResetCode\<close> lock the reset: from then on both handlers refuse the right
  code too, whatever else is tried, until a new code is requested.\<close>

theorem reset_code_lockout:
  assumes "accounts_unique w" "account_by_email e w = Some a" "ac_resetCode a = Some code" "code \<noteq> []"
    and "0 \<le> ac_resetAttempts a" "\<forall>(t', c) \<in> set gs. c \<noteq> code" "5 \<le> length gs"
  shows "isl (fst (verify_reset_code e code t (verify_guesses e gs w))) \<and>
    reset_password lib salt e code p t (verify_guesses e gs w) =
      (fst (reset_password lib salt e code p t (verify_guesses e gs w)), verify_guesses e gs w) \<and>
    isl (fst (reset_password lib salt e code p t (verify_guesses e gs w)))"
proof -
  have count: "accounts_unique (verify_guesses e gs w) \<and> account_by_email e (verify_guesses e gs w) =
      Some (a\<lparr>ac_resetAttempts := ac_resetAttempts a + int (length gs)\<rparr>)"
    if "accounts_unique w" "account_by_email e w = Some a" "ac_resetCode a = Some code" "\<forall>(t', c) \<in> set gs. c \<noteq> code" for w a
    using that
  proof (induction gs arbitrary: w a)
    case (Cons g gs)
    obtain t' c where g: "g = (t', c)" "c \<noteq> code" using Cons.prems(4) by (cases g) auto
    let ?f = "\<lambda>x. x\<lparr>ac_resetAttempts := ac_resetAttempts a + 1\<rparr>"
    have s: "snd (verify_reset_code e c t' w) = w\<lparr>aw_accounts := update_by ac_id (ac_id a) ?f (aw_accounts w)\<rparr>"
      using Cons.prems g assms(4) update_by_email [OF Cons.prems(1,2), of ?f]
      by (simp add: verify_reset_code_def by_reset_code_def truthy_str_def)
    have u: "accounts_unique (snd (verify_reset_code e c t' w))"
      using code_step_unique [OF Cons.prems(1), of undefined t' "VerifyReset e c"] by simp
    have "account_by_email e (snd (verify_reset_code e c t' w)) = Some (?f a)"
      unfolding s using account_by_email_update [OF Cons.prems(1,2), of ?f e] by simp
    from Cons.IH [OF u this] Cons.prems(3,4) show ?case by (simp add: g(1) algebra_simps)
  qed simp
  from count [OF assms(1-3,6)] assms(3,5,7) show ?thesis
    by (auto simp: verify_reset_code_def reset_password_def by_reset_code_def reset_checks_def)
qed

end
