(* ===== verification/Auth_Tokens.thy ===== *)
theory Auth_Tokens
  imports Auth_Codes
begin

section \<open>Log-in, tokens and impersonation\<close>

text \<open>
  \<open>modules/auth/auth.service.ts\<close>: log-in by password, the access and refresh tokens and what is done
  with them, impersonation and the permissions of a role; \<open>strategies/jwt.strategy.ts\<close> and the two
  guards that decide over a request. None of these changes the table.
\<close>

subsection \<open>Log-in\<close>

record 't login_result =
  lg_clerk :: bool
  lg_access :: 't
  lg_refresh :: 't
  lg_account :: account

text \<open>The steps both flows of \<open>login\<close> share.\<close>

definition password_login :: "'t auth_lib \<Rightarrow> string \<Rightarrow> string \<Rightarrow> auth_world \<Rightarrow> account res" where
  "password_login lib email pass w =
     (case account_by_email email w of
        None \<Rightarrow> Inl (Unauthorized ''Invalid credentials'')
      | Some a \<Rightarrow>
          if \<not> ac_emailVerified a then Inl (Unauthorized ''Please verify your email address before logging in.'')
          else (case comparePassword lib pass (ac_password a) of
              Inl e \<Rightarrow> Inl e
            | Inr ok \<Rightarrow> if \<not> ok then Inl (Unauthorized ''Invalid credentials'') else Inr a))"

definition token_pair :: "'t auth_lib \<Rightarrow> account \<Rightarrow> int \<Rightarrow> ms \<Rightarrow> 't \<times> 't" where
  "token_pair lib a days now = (al_sign lib (claims_of a) (al_life lib) now, al_sign lib (claims_of a) (days * DAY_S) now)"

definition login_tokens :: "'t auth_lib \<Rightarrow> bool \<Rightarrow> account \<Rightarrow> ms \<Rightarrow> 't login_result" where
  "login_tokens lib clerk a now = (let (acc, ref) = token_pair lib a 30 now
     in \<lparr>lg_clerk = clerk, lg_access = acc, lg_refresh = ref, lg_account = a\<rparr>)"

text \<open>A failure of the Clerk flow, whatever it is, falls back to the local one.\<close>

definition login :: "'t auth_lib \<Rightarrow> bool \<Rightarrow> string \<Rightarrow> string \<Rightarrow> ms \<Rightarrow> auth_world \<Rightarrow> 't login_result res" where
  "login lib clerkKnows email pass now w =
     (case (if clerkKnows then password_login lib email pass w else Inl (Unauthorized ''Invalid credentials'')) of
        Inr a \<Rightarrow> Inr (login_tokens lib True a now)
      | Inl _ \<Rightarrow> (case password_login lib email pass w of
            Inl e \<Rightarrow> Inl e
          | Inr a \<Rightarrow> Inr (login_tokens lib False a now)))"

subsection \<open>Tokens\<close>

record 't token_response =
  tr_access :: 't
  tr_refresh :: 't
  tr_expiresIn :: int

definition refresh_token :: "'t auth_lib \<Rightarrow> 't \<Rightarrow> ms \<Rightarrow> auth_world \<Rightarrow> 't token_response res" where
  "refresh_token lib tok now w =
     (case al_verify lib tok now of
        None \<Rightarrow> Inl (Unauthorized ''Invalid or expired refresh token'')
      | Some (c, _) \<Rightarrow>
          (case account_by_id (cl_sub c) w of
             None \<Rightarrow> Inl (Unauthorized ''Invalid or expired refresh token'')
           | Some a \<Rightarrow> (let (acc, ref) = token_pair lib a 7 now
               in Inr \<lparr>tr_access = acc, tr_refresh = ref, tr_expiresIn = 86400\<rparr>)))"

record token_check =
  tc_userId :: string
  tc_email :: string
  tc_role :: user_role
  tc_expiresAt :: ms

definition verify_token :: "'t auth_lib \<Rightarrow> 't \<Rightarrow> ms \<Rightarrow> auth_world \<Rightarrow> token_check res" where
  "verify_token lib tok now w =
     (case al_verify lib tok now of
        None \<Rightarrow> Inl (Unauthorized ''Invalid or expired token'')
      | Some (c, ex) \<Rightarrow>
          (case account_by_id (cl_sub c) w of
             None \<Rightarrow> Inl (Unauthorized ''Invalid or expired token'')
           | Some a \<Rightarrow> Inr \<lparr>tc_userId = ac_id a, tc_email = ac_email a, tc_role = ac_role a, tc_expiresAt = ex * 1000\<rparr>))"

record 't impersonation =
  im_token :: 't
  im_target :: account
  im_adminId :: string
  im_expiresIn :: int

definition impersonate_user :: "'t auth_lib \<Rightarrow> string \<Rightarrow> string \<Rightarrow> ms \<Rightarrow> auth_world \<Rightarrow> 't impersonation res" where
  "impersonate_user lib adminId targetId now w =
     (case account_by_id adminId w of
        None \<Rightarrow> Inl (Unauthorized ''Insufficient permissions'')
      | Some ad \<Rightarrow>
          if ac_role ad \<noteq> ADMIN \<and> ac_role ad \<noteq> SUPER_ADMIN then Inl (Unauthorized ''Insufficient permissions'')
          else (case account_by_id targetId w of
              None \<Rightarrow> Inl (NotFound ''Target user not found'')
            | Some a \<Rightarrow> Inr \<lparr>im_token = al_sign lib ((claims_of a)\<lparr>cl_impersonatedBy := Some adminId\<rparr>) 3600 now,
                im_target = a, im_adminId = adminId, im_expiresIn = 3600\<rparr>))"

subsection \<open>Permissions and guards\<close>

fun get_permissions_by_role :: "user_role \<Rightarrow> string list" where
  "get_permissions_by_role GROWER = [''read:profile'', ''update:profile'', ''read:devices'', ''manage:devices'',
     ''read:sensors'', ''create:products'']"
| "get_permissions_by_role ADMIN = [''read:all'', ''write:all'', ''delete:all'', ''manage:users'']"
| "get_permissions_by_role SUPER_ADMIN = [''*'']"
| "get_permissions_by_role _ = [''read:profile'', ''update:profile'', ''read:devices'', ''create:orders'']"

definition get_user_permissions :: "string \<Rightarrow> auth_world \<Rightarrow> (user_role \<times> string list) res" where
  "get_user_permissions uid w =
     (case account_by_id uid w of
        None \<Rightarrow> Inl (NotFound ''User not found'')
      | Some a \<Rightarrow> Inr (ac_role a, get_permissions_by_role (ac_role a)))"

definition get_current_user :: "string \<Rightarrow> auth_world \<Rightarrow> account res" where
  "get_current_user uid w = (case account_by_id uid w of None \<Rightarrow> Inl (InternalError ''User not found'') | Some a \<Rightarrow> Inr a)"

definition check_username_exists :: "string \<Rightarrow> auth_world \<Rightarrow> bool" where
  "check_username_exists u w = username_taken u w"

text \<open>The token of a request: the \<open>Authorization\<close> header, else the cookie.\<close>

definition extract_jwt :: "string option \<Rightarrow> string option \<Rightarrow> string option" where
  "extract_jwt header cookie =
     (if truthy_str header \<and> starts_with (the header) ''Bearer '' then Some (drop 7 (the header))
      else if truthy_str cookie then cookie else None)"

definition jwt_validate :: "claims \<Rightarrow> auth_world \<Rightarrow> account res" where
  "jwt_validate c w = (case account_by_id (cl_sub c) w of None \<Rightarrow> Inl (Unauthorized ''User no longer exists'') | Some a \<Rightarrow> Inr a)"

text \<open>Who a request is: nobody on a public route, else the account of a valid token.\<close>

definition jwt_auth_guard :: "string auth_lib \<Rightarrow> bool \<Rightarrow> string option \<Rightarrow> string option \<Rightarrow> ms \<Rightarrow> auth_world \<Rightarrow> account option res" where
  "jwt_auth_guard lib public header cookie now w =
     (if public then Inr None
      else (case Option.bind (extract_jwt header cookie) (\<lambda>t. al_verify lib t now) of
          None \<Rightarrow> Inl (Unauthorized ''Invalid token'')
        | Some (c, _) \<Rightarrow> (case jwt_validate c w of Inl e \<Rightarrow> Inl e | Inr a \<Rightarrow> Inr (Some a))))"

definition roles_guard :: "user_role list option \<Rightarrow> account option \<Rightarrow> bool" where
  "roles_guard required user =
     (case required of
        None \<Rightarrow> True
      | Some rs \<Rightarrow> if rs = [] then True else (case user of None \<Rightarrow> False | Some a \<Rightarrow> ac_role a \<in> set rs))"

subsection \<open>Lemmas\<close>

lemma password_login_Inr_iff:
  "password_login lib e p w = Inr a \<longleftrightarrow> account_by_email e w = Some a \<and> ac_emailVerified a \<and>
     (\<exists>h. ac_password a = Some h \<and> al_compare lib p h)"
  by (auto simp: password_login_def comparePassword_def split: option.splits)

lemma login_eq: "login lib ck e p now w = map_sum id (\<lambda>a. login_tokens lib ck a now) (password_login lib e p w)"
  by (auto simp: login_def split: sum.splits)

lemma lg_account_login_tokens [simp]: "lg_account (login_tokens lib ck a now) = a"
  by (simp add: login_tokens_def token_pair_def)

lemma token_pair_verifies:
  assumes "auth_library lib"
  shows "al_verify lib (fst (token_pair lib a d t)) t' = (if t' div 1000 < t div 1000 + al_life lib then Some (claims_of a, t div 1000 + al_life lib) else None)"
    "al_verify lib (snd (token_pair lib a d t)) t' = (if t' div 1000 < t div 1000 + d * DAY_S then Some (claims_of a, t div 1000 + d * DAY_S) else None)"
  by (simp_all add: token_pair_def auth_libraryD [OF assms])

lemma claims_of_simps [simp]:
  "cl_sub (claims_of a) = ac_id a" "cl_role (claims_of a) = ac_role a" "cl_impersonatedBy (claims_of a) = None"
  by (simp_all add: claims_of_def)

lemma refresh_of_claims:
  assumes "al_verify lib tok now = Some (c, x)" "account_by_id (cl_sub c) w = Some a"
  shows "refresh_token lib tok now w = Inr \<lparr>tr_access = fst (token_pair lib a 7 now), tr_refresh = snd (token_pair lib a 7 now),
    tr_expiresIn = 86400\<rparr>"
  by (simp add: refresh_token_def assms case_prod_beta)

text \<open>Refreshing again and again, each time with the refresh token of the last answer.\<close>

fun refresh_chain :: "'t auth_lib \<Rightarrow> 't \<Rightarrow> ms list \<Rightarrow> auth_world \<Rightarrow> 't res" where
  "refresh_chain lib tok [] w = Inr tok"
| "refresh_chain lib tok (t # ts) w = (case refresh_token lib tok t w of
     Inl e \<Rightarrow> Inl e | Inr r \<Rightarrow> refresh_chain lib (tr_refresh r) ts w)"

fun weekly :: "ms \<Rightarrow> ms list \<Rightarrow> bool" where
  "weekly t [] = True"
| "weekly t (t' # ts) \<longleftrightarrow> t' div 1000 < t div 1000 + 7 * DAY_S \<and> weekly t' ts"

lemma refresh_chain_lives:
  assumes "auth_library lib" "account_by_id (ac_id a) w = Some a"
  shows "weekly t ts \<Longrightarrow> \<exists>t'. refresh_chain lib (snd (token_pair lib a 7 t)) ts w = Inr (snd (token_pair lib a 7 t'))"
proof (induction ts arbitrary: t)
  case (Cons t' ts)
  have "al_verify lib (snd (token_pair lib a 7 t)) t' = Some (claims_of a, t div 1000 + 7 * DAY_S)"
    using Cons.prems by (simp add: token_pair_verifies [OF assms(1)])
  from refresh_of_claims [OF this, of w a] Cons show ?case using assms(2) by simp
qed auto

subsection \<open>Properties\<close>

text \<open>C23. A log-in succeeds exactly for an account with a verified address whose password hash matches;
  what Clerk answers and whether the account is deactivated make no difference. Its tokens carry the
  id, address and role of the account, and \<open>verifyToken\<close> accepts them.\<close>

theorem login_exact:
  assumes "auth_library lib" "accounts_unique w" "0 < al_life lib"
  shows "((\<exists>r. login lib ck e p now w = Inr r) \<longleftrightarrow> (\<exists>a h. account_by_email e w = Some a \<and> ac_emailVerified a \<and>
      ac_password a = Some h \<and> al_compare lib p h)) \<and>
    (\<forall>r. login lib ck e p now w = Inr r \<longrightarrow> account_by_email e w = Some (lg_account r) \<and>
      al_verify lib (lg_access r) now = Some (claims_of (lg_account r), now div 1000 + al_life lib) \<and>
      al_verify lib (lg_refresh r) now = Some (claims_of (lg_account r), now div 1000 + 30 * DAY_S) \<and>
      (\<exists>v. verify_token lib (lg_access r) now w = Inr v \<and> tc_userId v = ac_id (lg_account r) \<and> tc_role v = ac_role (lg_account r)))"
proof (cases "password_login lib e p w")
  case (Inl x)
  then show ?thesis using password_login_Inr_iff [of lib e p w] by (auto simp: login_eq)
next
  case (Inr a)
  then have a: "account_by_email e w = Some a" "ac_emailVerified a" "\<exists>h. ac_password a = Some h \<and> al_compare lib p h"
    by (auto simp: password_login_Inr_iff)
  have i: "account_by_id (ac_id a) w = Some a" by (rule account_by_email_id(1) [OF assms(2) a(1)])
  have l: "lg_access (login_tokens lib ck a now) = fst (token_pair lib a 30 now)"
    "lg_refresh (login_tokens lib ck a now) = snd (token_pair lib a 30 now)"
    by (simp_all add: login_tokens_def case_prod_beta)
  show ?thesis using a i assms(3)
    by (auto simp: login_eq Inr l token_pair_verifies [OF assms(1)] DAY_S_def verify_token_def)
qed

text \<open>An administrator can become a super administrator for good: he may impersonate one, the token
  of an hour that marks the impersonation is accepted as a refresh token, what he gets for it carries
  the target's role and no mark, and he can renew it for ever once a week.\<close>

theorem impersonation_escalates:
  assumes "auth_library lib" "accounts_unique w"
    and "account_by_id adm w = Some ad" "ac_role ad = ADMIN" "account_by_id target w = Some su" "ac_role su = SUPER_ADMIN"
    and "t' div 1000 < t div 1000 + 3600" "weekly t' ts"
  shows "\<exists>i r tok t''. impersonate_user lib adm target t w = Inr i \<and> refresh_token lib (im_token i) t' w = Inr r \<and>
    refresh_chain lib (tr_refresh r) ts w = Inr tok \<and>
    al_verify lib tok t'' = Some (claims_of su, t'' div 1000 + 7 * DAY_S) \<and>
    cl_role (claims_of su) = SUPER_ADMIN \<and> cl_impersonatedBy (claims_of su) = None"
proof -
  have su: "ac_id su = target" using assms(5) by (auto simp: account_by_id_def dest: find_by_SomeD)
  let ?c = "(claims_of su)\<lparr>cl_impersonatedBy := Some adm\<rparr>"
  have i: "impersonate_user lib adm target t w = Inr \<lparr>im_token = al_sign lib ?c 3600 t, im_target = su, im_adminId = adm, im_expiresIn = 3600\<rparr>"
    by (simp add: impersonate_user_def assms(3-6))
  have "al_verify lib (al_sign lib ?c 3600 t) t' = Some (?c, t div 1000 + 3600)"
    using assms(7) by (simp add: auth_libraryD [OF assms(1)])
  from refresh_of_claims [OF this, of w su] have r: "refresh_token lib (al_sign lib ?c 3600 t) t' w =
      Inr \<lparr>tr_access = fst (token_pair lib su 7 t'), tr_refresh = snd (token_pair lib su 7 t'), tr_expiresIn = 86400\<rparr>"
    using assms(5) su by (simp add: claims_of_def)
  obtain t'' where "refresh_chain lib (snd (token_pair lib su 7 t')) ts w = Inr (snd (token_pair lib su 7 t''))"
    using refresh_chain_lives [OF assms(1) _ assms(8), of su w] assms(5) su by auto
  moreover have "al_verify lib (snd (token_pair lib su 7 t'')) t'' = Some (claims_of su, t'' div 1000 + 7 * DAY_S)"
    by (simp add: token_pair_verifies [OF assms(1)] DAY_S_def)
  ultimately show ?thesis using i r assms(6) by auto
qed

text \<open>C9. Registration to log-in: after a registration the mailed code, within ten minutes, verifies the
  address; before that the log-in is refused, after it exactly the chosen password (what bcrypt reads
  of it, 72 bytes) logs in, with the role USER, and the code is spent.\<close>

theorem registration_roundtrip:
  assumes "auth_library lib" "accounts_unique w" "register lib r d c False t w = (Inr a, w1)" "t' \<le> t + 600000"
  shows "VerificationCode (rg_email d) (generateSixDigitCode (rr_code r)) \<in> set (aw_outbox w1) \<and>
    login lib ck (rg_email d) (rg_password d) t' w1 = Inl (Unauthorized ''Please verify your email address before logging in.'') \<and>
    (\<exists>tok u w2. verify_email_with_code lib (rg_email d) (generateSixDigitCode (rr_code r)) t' w1 = (Inr (tok, u), w2) \<and>
      ac_id u = rr_id r \<and> ac_role u = USER \<and>
      (\<forall>p t0. (\<exists>res. login lib ck (rg_email d) p t0 w2 = Inr res) \<longleftrightarrow> take 72 p = take 72 (rg_password d)) \<and>
      (\<forall>t0. isl (fst (verify_email_with_code lib (rg_email d) (generateSixDigitCode (rr_code r)) t0 w2))))"
proof -
  let ?e = "rg_email d" and ?c = "generateSixDigitCode (rr_code r)"
  have none: "account_by_email ?e w = None" and a: "a = registered_account lib r d c t"
    and ins: "insert_account a w = (Inr a, w\<lparr>aw_accounts := aw_accounts w @ [a]\<rparr>)"
    and w1: "w1 = queue_mail (VerificationCode ?e ?c) (count_registration (w\<lparr>aw_accounts := aw_accounts w @ [a]\<rparr>))"
    using assms(3) by (auto simp: register_def insert_account_def split: if_splits)
  have f: "ac_email a = ?e" "ac_id a = rr_id r" "ac_role a = USER" "\<not> ac_emailVerified a" "ac_code a = Some ?c" "\<not> ac_codeUsed a"
    "ac_codeAttempts a = 0" "ac_codeExpiry a = Some (t + 600000)" "ac_password a = Some (al_hash lib (rr_salt r) (rg_password d))"
    by (simp_all add: a registered_account_def generateCodeExpiry_def blank_account_def)
  have e1: "account_by_email ?e w1 = Some a"
    using none f(1) by (simp add: w1 account_by_email_def)
  have u1: "accounts_unique w1" using insert_account_unique [OF assms(2), of a] by (simp add: w1 ins)
  let ?w2 = "count_registration (w1\<lparr>aw_accounts := update_by ac_id (ac_id a) code_verified (aw_accounts w1)\<rparr>)"
  have v: "verify_email_with_code lib ?e ?c t' w1 = (Inr (al_sign lib (claims_of (code_verified a)) (al_life lib) t', code_verified a), ?w2)"
    using first_by_email [OF u1, of ?e "\<lambda>a. ac_code a = Some ?c \<and> \<not> ac_emailVerified a"] e1 f update_by_email [OF u1 e1, of code_verified] assms(4)
    by (simp add: verify_email_with_code_def isCodeExpired_def)
  have e2: "account_by_email ?e ?w2 = Some (code_verified a)"
    using account_by_email_update [OF u1 e1, of code_verified ?e] by simp
  have u2: "accounts_unique ?w2"
    using update_account_unique [OF u1, of "ac_id a" code_verified] update_by_email [OF u1 e1, of code_verified] by simp
  have again: "isl (fst (verify_email_with_code lib ?e ?c t0 ?w2))" for t0
    using first_by_email [OF u2, of ?e "\<lambda>a. ac_code a = Some ?c \<and> \<not> ac_emailVerified a"] e2
    by (simp add: verify_email_with_code_def code_verified_def)
  have "(\<exists>res. login lib ck ?e p t0 ?w2 = Inr res) \<longleftrightarrow> take 72 p = take 72 (rg_password d)" for p t0
    using e2 f(9) auth_libraryD(2) [OF assms(1)]
    by (simp add: login_eq password_login_def comparePassword_def code_verified_def)
  moreover have "login lib ck ?e (rg_password d) t' w1 = Inl (Unauthorized ''Please verify your email address before logging in.'')"
    using e1 f(4) by (simp add: login_eq password_login_def)
  ultimately show ?thesis using v f again by (auto simp: w1 queue_mail_def code_verified_def)
qed

text \<open>C20. A password reset with the mailed code, within ten minutes, leaves exactly the new password valid (in its first 72 bytes)
  and the code spent, and no other account changed; every token that was valid for the account before
  is still good for a refresh.\<close>

theorem password_reset_roundtrip:
  assumes "auth_library lib" "accounts_unique w" "account_by_email e w = Some a" "ac_emailVerified a"
    and "\<not> too_soon (ac_resetSentAt a) t" "t' \<le> t + 600000"
    and "forgot_password r e t w = (x, w1)" "reset_password lib salt e (generateSixDigitCode r) p t' w1 = (y, w2)"
  shows "x = Inr (Some e) \<and> ResetCode e (generateSixDigitCode r) \<in> set (aw_outbox w1) \<and>
    verify_reset_code e (generateSixDigitCode r) t' w1 = (Inr e, w1) \<and> y = Inr e \<and>
    (\<forall>q t0. (\<exists>res. login lib ck e q t0 w2 = Inr res) \<longleftrightarrow> take 72 q = take 72 p) \<and>
    (\<forall>s q t0. isl (fst (reset_password lib s e (generateSixDigitCode r) q t0 w2))) \<and>
    (\<forall>k. k \<noteq> e \<longrightarrow> account_by_email k w2 = account_by_email k w) \<and>
    (\<forall>tok t0 c ex. al_verify lib tok t0 = Some (c, ex) \<and> cl_sub c = ac_id a \<longrightarrow> (\<exists>res. refresh_token lib tok t0 w2 = Inr res))"
proof -
  let ?c = "generateSixDigitCode r"
  let ?v1 = "w\<lparr>aw_accounts := update_by ac_id (ac_id a) (new_reset_code r t) (aw_accounts w)\<rparr>"
  have w1: "x = Inr (Some e)" "w1 = queue_mail (ResetCode e ?c) ?v1"
    using assms(3,5,7) update_by_email [OF assms(2,3), of "new_reset_code r t"] by (auto simp: forgot_password_def)
  have k1: "account_by_email k w1 = (if k = e then Some (new_reset_code r t a) else account_by_email k w)" for k
    using account_by_email_update [OF assms(2,3), of "new_reset_code r t" k] by (simp add: w1)
  have u1: "accounts_unique w1"
    using update_account_unique [OF assms(2), of "ac_id a" "new_reset_code r t"] update_by_email [OF assms(2,3), of "new_reset_code r t"]
    by (simp add: w1)
  have e1: "account_by_email e w1 = Some (new_reset_code r t a)" by (simp add: k1)
  have i1: "ac_id (new_reset_code r t a) = ac_id a" "ac_email (new_reset_code r t a) = e"
    using account_by_email_id(2) [OF assms(2,3)] by (simp_all add: new_reset_code_def)
  let ?f = "new_password lib salt p"
  let ?v2 = "w1\<lparr>aw_accounts := update_by ac_id (ac_id a) ?f (aw_accounts w1)\<rparr>"
  have ok: "reset_checks (new_reset_code r t a) t' = Inr ()" "by_reset_code e ?c w1 = Some (new_reset_code r t a)"
    using assms(6) by (simp_all add: reset_checks_def new_reset_code_def isCodeExpired_def generateCodeExpiry_def by_reset_code_def e1)
  have w2: "y = Inr e" "w2 = queue_mail (PasswordChanged e) ?v2"
    using assms(8) update_by_email [OF u1 e1, of ?f] ok i1 by (auto simp: reset_password_def)
  have k2: "account_by_email k w2 = (if k = e then Some (?f (new_reset_code r t a)) else account_by_email k w)" for k
    using account_by_email_update [OF u1 e1, of ?f k] by (simp add: w2 k1 i1)
  have "account_by_id (ac_id a) ?v2 = map_option ?f (account_by_id (ac_id a) w1)"
    by (subst account_by_id_update) (simp_all add: new_password_def)
  then have id2: "account_by_id (ac_id a) w2 = Some (?f (new_reset_code r t a))"
    using account_by_email_id(1) [OF u1 e1] by (simp add: w2 i1)
  have "(\<exists>res. login lib ck e q t0 w2 = Inr res) \<longleftrightarrow> take 72 q = take 72 p" for q t0
    using assms(4) auth_libraryD(2) [OF assms(1)]
    by (simp add: login_eq password_login_def comparePassword_def k2 new_password_def new_reset_code_def)
  moreover have "isl (fst (reset_password lib s e ?c q t0 w2))" for s q t0
    by (simp add: reset_password_def by_reset_code_def k2 new_password_def)
  moreover have "\<exists>res. refresh_token lib tok t0 w2 = Inr res" if "al_verify lib tok t0 = Some (c, ex)" "cl_sub c = ac_id a" for tok t0 c ex
    using refresh_of_claims [OF that(1)] id2 that(2) by simp
  moreover have "verify_reset_code e ?c t' w1 = (Inr e, w1)" by (simp add: verify_reset_code_def ok i1)
  moreover have "ResetCode e ?c \<in> set (aw_outbox w1)" by (simp add: w1 queue_mail_def)
  ultimately show ?thesis using w1(1) w2(1) k2 by simp
qed

subsection \<open>Witnesses\<close>

definition demo_account :: "string \<Rightarrow> user_role \<Rightarrow> account" where
  "demo_account i r = (blank_account i i 0)\<lparr>ac_role := r, ac_password := Some ''pw'', ac_emailVerified := True\<rparr>"

definition demo_auth :: auth_world where
  "demo_auth = \<lparr>aw_accounts = [demo_account ''ad'' ADMIN, demo_account ''su'' SUPER_ADMIN,
     (blank_account ''new'' ''new'' 0)\<lparr>ac_code := Some ''000042'', ac_codeExpiry := Some 600000, ac_codeSentAt := Some 0\<rparr>,
     (demo_account ''rs'' USER)\<lparr>ac_resetCode := Some ''000007'', ac_resetExpiry := Some 600000\<rparr>],
     aw_outbox = [], aw_registrations = 0\<rparr>"

lemma demo_auth_unique: "accounts_unique demo_auth"
  by (simp add: accounts_unique_def demo_auth_def demo_account_def blank_account_def clashes_def same_key_def)

lemma demo_auth_rows:
  "account_by_email ''ad'' demo_auth = Some (demo_account ''ad'' ADMIN)"
  "account_by_id ''ad'' demo_auth = Some (demo_account ''ad'' ADMIN)"
  "account_by_id ''su'' demo_auth = Some (demo_account ''su'' SUPER_ADMIN)"
  by (simp_all add: demo_auth_def demo_account_def blank_account_def account_by_email_def account_by_id_def)

lemma code_guess_bound_witness:
  "int (chances demo_lib ''new'' [(1, VerifyCode ''new'' ''1''), (2, VerifyCode ''new'' ''2''), (60000, Resend ''new'' 5)] demo_auth) \<le> 15"
proof -
  have a: "account_by_email ''new'' demo_auth = Some ((blank_account ''new'' ''new'' 0)\<lparr>ac_code := Some ''000042'',
      ac_codeExpiry := Some 600000, ac_codeSentAt := Some 0\<rparr>)"
    by (simp add: demo_auth_def demo_account_def blank_account_def account_by_email_def)
  from code_guess_bound [OF demo_auth_unique a, of 60000 0
      "[(1, VerifyCode ''new'' ''1''), (2, VerifyCode ''new'' ''2''), (60000, Resend ''new'' 5)]" demo_lib]
  show ?thesis by (simp add: blank_account_def)
qed

lemma demo_reset_row:
  "account_by_email ''rs'' demo_auth = Some ((demo_account ''rs'' USER)\<lparr>ac_resetCode := Some ''000007'', ac_resetExpiry := Some 600000\<rparr>)"
  by (simp add: demo_auth_def demo_account_def blank_account_def account_by_email_def)

lemma reset_guess_unlimited_witness:
  "fst (reset_password demo_lib [] ''rs'' ''000007'' ''q'' 9 (snd (reset_guesses demo_lib [] ''rs'' ''q''
     [(1, ''1''), (2, ''2''), (3, ''3''), (4, ''4''), (5, ''5''), (6, ''6'')] demo_auth))) = Inr ''rs''"
  by (rule reset_guess_unlimited [OF demo_auth_unique demo_reset_row, where code = "''000007''" and x = 600000,
        THEN conjunct2, THEN conjunct2])
    (simp_all add: demo_account_def blank_account_def)

lemma reset_code_lockout_witness:
  "isl (fst (reset_password demo_lib [] ''rs'' ''000007'' ''q'' 9 (verify_guesses ''rs''
     [(1, ''1''), (2, ''2''), (3, ''3''), (4, ''4''), (5, ''5'')] demo_auth)))"
  using reset_code_lockout [OF demo_auth_unique demo_reset_row, where code = "''000007''" and t = 9 and lib = demo_lib
      and salt = "[]" and p = "''q''" and gs = "[(1, ''1''), (2, ''2''), (3, ''3''), (4, ''4''), (5, ''5'')]"]
  by (simp del: verify_guesses.simps add: demo_account_def blank_account_def)

lemma login_exact_witness:
  "\<exists>r. login demo_lib False ''ad'' ''pw'' 0 demo_auth = Inr r \<and> al_verify demo_lib (lg_access r) 0 = Some (claims_of (lg_account r), DAY_S)"
proof -
  have "0 < al_life demo_lib" by (simp add: demo_lib_def DAY_S_def)
  note l = login_exact [OF demo_lib_ok demo_auth_unique this, of False "''ad''" "''pw''" 0]
  moreover have "al_compare demo_lib ''pw'' ''pw''" by (simp add: demo_lib_def)
  ultimately obtain r where "login demo_lib False ''ad'' ''pw'' 0 demo_auth = Inr r"
    using demo_auth_rows(1) by (auto simp: demo_account_def)
  then show ?thesis using l by (auto simp: demo_lib_def)
qed

lemma impersonation_escalates_witness:
  "\<exists>i r. impersonate_user demo_lib ''ad'' ''su'' 0 demo_auth = Inr i \<and> refresh_token demo_lib (im_token i) 1000 demo_auth = Inr r"
  using impersonation_escalates [OF demo_lib_ok demo_auth_unique demo_auth_rows(2) _ demo_auth_rows(3), of 1000 0 "[2000]"]
  by (auto simp: demo_account_def DAY_S_def)

definition demo_register :: register_dto where
  "demo_register = \<lparr>rg_email = ''m@x'', rg_password = ''secret'', rg_firstName = ''F'', rg_lastName = ''L'',
     rg_username = None, rg_imageUrl = None\<rparr>"

definition demo_random :: register_random where
  "demo_random = \<lparr>rr_id = ''u9'', rr_salt = [], rr_code = 7, rr_token = ''t'', rr_local = ''l'', rr_suffix = 0\<rparr>"

lemma registration_roundtrip_witness:
  "\<exists>tok u w2. verify_email_with_code demo_lib ''m@x'' (generateSixDigitCode 7) 5
      (snd (register demo_lib demo_random demo_register ClerkFailed False 0 demo_auth)) = (Inr (tok, u), w2) \<and> ac_id u = ''u9''"
proof -
  have "\<exists>a. register demo_lib demo_random demo_register ClerkFailed False 0 demo_auth =
      (Inr a, snd (register demo_lib demo_random demo_register ClerkFailed False 0 demo_auth))"
    by (simp add: register_def demo_auth_def demo_account_def blank_account_def account_by_email_def demo_register_def truthy_str_def
        insert_account_def registered_account_def register_username_def local_clerk_id_def demo_random_def clashes_def same_key_def)
  then obtain a where "register demo_lib demo_random demo_register ClerkFailed False 0 demo_auth =
      (Inr a, snd (register demo_lib demo_random demo_register ClerkFailed False 0 demo_auth))" by blast
  from registration_roundtrip [OF demo_lib_ok demo_auth_unique this, of 5 False]
  obtain tok u w2 where "verify_email_with_code demo_lib (rg_email demo_register) (generateSixDigitCode (rr_code demo_random)) 5
      (snd (register demo_lib demo_random demo_register ClerkFailed False 0 demo_auth)) = (Inr (tok, u), w2)"
    "ac_id u = rr_id demo_random" by auto
  moreover have "rg_email demo_register = ''m@x''" "rr_code demo_random = 7" "rr_id demo_random = ''u9''"
    by (simp_all add: demo_register_def demo_random_def)
  ultimately show ?thesis by metis
qed

lemma password_reset_roundtrip_witness:
  "\<exists>w1 w2. forgot_password 3 ''ad'' 0 demo_auth = (Inr (Some ''ad''), w1) \<and>
     reset_password demo_lib [] ''ad'' (generateSixDigitCode 3) ''q'' 5 w1 = (Inr ''ad'', w2)"
proof -
  obtain x w1 where f: "forgot_password 3 ''ad'' 0 demo_auth = (x, w1)" by fastforce
  obtain y w2 where r: "reset_password demo_lib [] ''ad'' (generateSixDigitCode 3) ''q'' 5 w1 = (y, w2)" by fastforce
  from password_reset_roundtrip [OF demo_lib_ok demo_auth_unique demo_auth_rows(1) _ _ _ f r] f r show ?thesis
    by (auto simp: demo_account_def blank_account_def too_soon_def)
qed

end
