(* ===== verification/Auth_Social.thy ===== *)
theory Auth_Social
  imports Auth_Tokens
begin

section \<open>Accounts from elsewhere: Clerk, Google, Facebook and Firebase\<close>

text \<open>
  \<open>modules/auth/auth.service.ts\<close>: the Clerk webhook, the public Google synchronisation, the log-ins
  by a provider's token, and linking and unlinking providers. What the provider says of a token is an
  argument, \<open>None\<close> when it refuses it. A field of a webhook that is missing is \<open>None\<close>.
\<close>

subsection \<open>The Clerk webhook\<close>

text \<open>\<open>ck_google\<close>: whether a Google account is attached, and the id it carries.\<close>

record clerk_user =
  ck_id :: string
  ck_email :: "string option"
  ck_verified :: bool
  ck_username :: "string option"
  ck_firstName :: "string option"
  ck_lastName :: "string option"
  ck_imageUrl :: "string option"
  ck_google :: "string option option"

definition clerk_verified :: "clerk_user \<Rightarrow> bool" where
  "clerk_verified d \<longleftrightarrow> ck_verified d \<or> ck_google d \<noteq> None"

definition or_else :: "'a option \<Rightarrow> 'a option \<Rightarrow> 'a option" where
  "or_else x y = (case x of None \<Rightarrow> y | Some _ \<Rightarrow> x)"

text \<open>\<open>googleAccount?.provider_user_id || old\<close>, and the list of providers with Google in it.\<close>

definition google_id_or :: "clerk_user \<Rightarrow> string option \<Rightarrow> string option" where
  "google_id_or d old = (case ck_google d of Some g \<Rightarrow> if truthy_str g then g else old | None \<Rightarrow> old)"

definition with_google :: "clerk_user \<Rightarrow> string list \<Rightarrow> string list" where
  "with_google d ps = (if ck_google d \<noteq> None then uniq (ps @ [''google'']) else ps)"

definition merge_clerk :: "clerk_user \<Rightarrow> account \<Rightarrow> account" where
  "merge_clerk d a = a\<lparr>ac_clerkId := Some (ck_id d), ac_email := (case ck_email d of None \<Rightarrow> [] | Some e \<Rightarrow> e),
     ac_emailVerified := clerk_verified d, ac_username := or_else (ck_username d) (ac_username a),
     ac_firstName := or_else (ck_firstName d) (ac_firstName a), ac_lastName := or_else (ck_lastName d) (ac_lastName a),
     ac_imageUrl := or_else (ck_imageUrl d) (ac_imageUrl a), ac_googleId := google_id_or d (ac_googleId a),
     ac_oauth := with_google d (ac_oauth a)\<rparr>"

definition clerk_account :: "string \<Rightarrow> clerk_user \<Rightarrow> ms \<Rightarrow> account" where
  "clerk_account i d now = (blank_account i (case ck_email d of None \<Rightarrow> [] | Some e \<Rightarrow> e) now)
     \<lparr>ac_clerkId := Some (ck_id d), ac_emailVerified := clerk_verified d, ac_username := ck_username d,
      ac_firstName := ck_firstName d, ac_lastName := ck_lastName d, ac_imageUrl := ck_imageUrl d,
      ac_googleId := google_id_or d None, ac_oauth := with_google d [], ac_role := USER\<rparr>"

definition create_user :: "string \<Rightarrow> clerk_user \<Rightarrow> ms \<Rightarrow> auth_world \<Rightarrow> string res \<times> auth_world" where
  "create_user i d now w =
     (case first_account (\<lambda>a. ac_email a = (case ck_email d of None \<Rightarrow> [] | Some e \<Rightarrow> e) \<or> ac_clerkId a = Some (ck_id d)) w of
        Some a \<Rightarrow> (let (r, w1) = update_account (ac_id a) (merge_clerk d) w in (map_sum id ac_id r, w1))
      | None \<Rightarrow>
          (case insert_account (clerk_account i d now) w of
             (Inl e, w1) \<Rightarrow> (Inl e, w1)
           | (Inr a, w1) \<Rightarrow> (Inr (ac_id a), queue_mail (Welcome (ac_email a)) w1)))"

definition refresh_clerk :: "clerk_user \<Rightarrow> account \<Rightarrow> account" where
  "refresh_clerk d a = a\<lparr>ac_email := (case ck_email d of None \<Rightarrow> ac_email a | Some e \<Rightarrow> e), ac_emailVerified := clerk_verified d,
     ac_username := or_else (ck_username d) (ac_username a), ac_firstName := or_else (ck_firstName d) (ac_firstName a),
     ac_lastName := or_else (ck_lastName d) (ac_lastName a), ac_imageUrl := or_else (ck_imageUrl d) (ac_imageUrl a),
     ac_googleId := google_id_or d (ac_googleId a), ac_oauth := with_google d (ac_oauth a)\<rparr>"

definition update_by_clerk :: "string \<Rightarrow> (account \<Rightarrow> account) \<Rightarrow> auth_world \<Rightarrow> account res \<times> auth_world" where
  "update_by_clerk cid f w =
     (case first_account (\<lambda>a. ac_clerkId a = Some cid) w of
        None \<Rightarrow> (Inl (InternalError ''P2025 record not found''), w)
      | Some a \<Rightarrow> update_account (ac_id a) f w)"

definition update_user :: "clerk_user \<Rightarrow> auth_world \<Rightarrow> string res \<times> auth_world" where
  "update_user d w = (let (r, w1) = update_by_clerk (ck_id d) (refresh_clerk d) w in (map_sum id ac_id r, w1))"

definition delete_user :: "clerk_user \<Rightarrow> auth_world \<Rightarrow> string res \<times> auth_world" where
  "delete_user d w = (let (r, w1) = update_by_clerk (ck_id d) (\<lambda>a. a\<lparr>ac_isActive := False\<rparr>) w in (map_sum id ac_id r, w1))"

definition handle_clerk_webhook :: "string \<Rightarrow> string \<Rightarrow> clerk_user \<Rightarrow> ms \<Rightarrow> auth_world \<Rightarrow> string option res \<times> auth_world" where
  "handle_clerk_webhook ty i d now w =
     (let f = (\<lambda>(r, w1). (map_sum id Some r, w1))
      in if ty = ''user.created'' then f (create_user i d now w)
         else if ty = ''user.updated'' then f (update_user d w)
         else if ty = ''user.deleted'' then f (delete_user d w)
         else (Inr None, w))"

subsection \<open>Google synchronisation\<close>

text \<open>The body of the public endpoint; an id may be \<open>null\<close>, the rest missing.\<close>

record google_sync_dto =
  gs_googleId :: "string option"
  gs_email :: string
  gs_firstName :: "string option"
  gs_lastName :: "string option"
  gs_photoURL :: "string option"
  gs_username :: "string option"

definition google_base_username :: "google_sync_dto \<Rightarrow> string" where
  "google_base_username d = username_chars (if truthy_str (gs_firstName d)
     then the (gs_firstName d) @ str_or (gs_lastName d) [] else email_local (gs_email d))"

text \<open>The loop draws a number from 1000 to 9999 for each attempt and gives up after the eleventh.\<close>

function google_username :: "auth_world \<Rightarrow> string \<Rightarrow> (nat \<Rightarrow> nat) \<Rightarrow> nat \<Rightarrow> string \<Rightarrow> string res" where
  "google_username w base rnd attempts u =
     (if check_username_exists u w
      then if attempts + 1 > 10 then Inl (InternalError ''Could not generate unique username'')
           else google_username w base rnd (attempts + 1) (base @ nat_text (rnd attempts))
      else Inr u)"
  by pat_completeness auto
termination by (relation "measure (\<lambda>(w, base, rnd, attempts, u). 11 - attempts)") auto

declare google_username.simps [simp del]

definition synced_account :: "google_sync_dto \<Rightarrow> string \<Rightarrow> ms \<Rightarrow> account \<Rightarrow> account" where
  "synced_account d uname now a = a\<lparr>ac_googleId := gs_googleId d, ac_firstName := or_else (gs_firstName d) (ac_firstName a),
     ac_lastName := or_else (gs_lastName d) (ac_lastName a),
     ac_imageUrl := (if truthy_str (gs_photoURL d) then gs_photoURL d else ac_imageUrl a),
     ac_username := (if truthy_str (ac_username a) then ac_username a else Some uname),
     ac_emailVerified := True, ac_lastLoginAt := Some now\<rparr>"

definition google_account :: "google_sync_dto \<Rightarrow> string \<Rightarrow> string \<Rightarrow> ms \<Rightarrow> account" where
  "google_account d i uname now = (blank_account i (gs_email d) now)\<lparr>ac_googleId := gs_googleId d, ac_username := Some uname,
     ac_firstName := gs_firstName d, ac_lastName := gs_lastName d,
     ac_imageUrl := Some (if truthy_str (gs_photoURL d) then the (gs_photoURL d) else avatar_url uname),
     ac_emailVerified := True, ac_role := USER, ac_isActive := True, ac_lastLoginAt := Some now\<rparr>"

definition sync_google_user ::
  "'t auth_lib \<Rightarrow> string \<Rightarrow> (nat \<Rightarrow> nat) \<Rightarrow> google_sync_dto \<Rightarrow> ms \<Rightarrow> auth_world \<Rightarrow> ('t token_response \<times> account) res \<times> auth_world" where
  "sync_google_user lib i rnd d now w =
     (let existing = first_account (\<lambda>a. ac_googleId a = gs_googleId d \<or> ac_email a = gs_email d) w
      in case (if truthy_str (gs_username d) then Inr (the (gs_username d))
               else google_username w (google_base_username d) rnd 0 (google_base_username d)) of
           Inl e \<Rightarrow> (Inl e, w)
         | Inr uname \<Rightarrow>
             (case (case existing of
                  Some a \<Rightarrow> update_account (ac_id a) (synced_account d uname now) w
                | None \<Rightarrow> insert_account (google_account d i uname now) w) of
                (Inl e, w1) \<Rightarrow> (Inl (InternalError ''Failed to sync Google user''), w1)
              | (Inr a, w1) \<Rightarrow> (Inr (\<lparr>tr_access = al_sign lib (claims_of a) 3600 now,
                    tr_refresh = al_sign lib (claims_of a) (7 * DAY_S) now, tr_expiresIn = 3600\<rparr>, a), w1)))"

subsection \<open>Log-in by a provider's token\<close>

datatype provider = P_GOOGLE | P_FACEBOOK | P_FIREBASE

fun provider_name :: "provider \<Rightarrow> string" where
  "provider_name P_GOOGLE = ''google''"
| "provider_name P_FACEBOOK = ''facebook''"
| "provider_name P_FIREBASE = ''firebase''"

fun provider_id :: "provider \<Rightarrow> account \<Rightarrow> string option" where
  "provider_id P_GOOGLE a = ac_googleId a"
| "provider_id P_FACEBOOK a = ac_facebookId a"
| "provider_id P_FIREBASE a = ac_firebaseUid a"

fun set_provider_id :: "provider \<Rightarrow> string option \<Rightarrow> account \<Rightarrow> account" where
  "set_provider_id P_GOOGLE k a = a\<lparr>ac_googleId := k\<rparr>"
| "set_provider_id P_FACEBOOK k a = a\<lparr>ac_facebookId := k\<rparr>"
| "set_provider_id P_FIREBASE k a = a\<lparr>ac_firebaseUid := k\<rparr>"

record oauth_user =
  ou_provider :: provider
  ou_id :: string
  ou_email :: string
  ou_firstName :: string
  ou_lastName :: string
  ou_imageUrl :: "string option"
  ou_verified :: bool

text \<open>The search for a free user name counts up until one is free. The number of accounts whose name is
  the current one or a later candidate falls with every round.\<close>

definition candidates_left :: "account list \<Rightarrow> string \<Rightarrow> string \<Rightarrow> nat \<Rightarrow> nat" where
  "candidates_left xs base u n = length (filter (\<lambda>a. ac_username a = Some u) xs) +
     length (filter (\<lambda>a. \<exists>k \<ge> n. ac_username a = Some (base @ nat_text k)) xs)"

lemma candidates_left_less:
  assumes "\<exists>a \<in> set xs. ac_username a = Some u"
  shows "candidates_left xs base (base @ nat_text n) (Suc n) < candidates_left xs base u n"
proof -
  have split: "length (filter (\<lambda>a. \<exists>k \<ge> n. ac_username a = Some (base @ nat_text k)) xs) =
      length (filter (\<lambda>a. ac_username a = Some (base @ nat_text n)) xs) +
      length (filter (\<lambda>a. \<exists>k \<ge> Suc n. ac_username a = Some (base @ nat_text k)) xs)" for xs :: "account list"
  proof (induction xs)
    case (Cons a xs)
    have "(\<exists>k \<ge> n. ac_username a = Some (base @ nat_text k)) \<longleftrightarrow>
        ac_username a = Some (base @ nat_text n) \<or> (\<exists>k \<ge> Suc n. ac_username a = Some (base @ nat_text k))"
      by (metis Suc_leD le_eq_less_or_eq less_eq_Suc_le)
    moreover have "\<not> (\<exists>k \<ge> Suc n. ac_username a = Some (base @ nat_text k))" if "ac_username a = Some (base @ nat_text n)"
      using that by auto
    ultimately show ?case using Cons by auto
  qed simp
  have "filter (\<lambda>a. ac_username a = Some u) xs \<noteq> []" using assms by (auto simp: filter_empty_conv)
  then show ?thesis unfolding candidates_left_def by (simp add: split)
qed

function free_username :: "account list \<Rightarrow> string \<Rightarrow> string \<Rightarrow> nat \<Rightarrow> string" where
  "free_username xs base u n =
     (if \<exists>a \<in> set xs. ac_username a = Some u then free_username xs base (base @ nat_text n) (Suc n) else u)"
  by pat_completeness auto
termination
  by (relation "measure (\<lambda>(xs, base, u, n). candidates_left xs base u n)") (auto intro!: candidates_left_less)

declare free_username.simps [simp del]

definition linked_account :: "oauth_user \<Rightarrow> account \<Rightarrow> account" where
  "linked_account o' a = set_provider_id (ou_provider o') (Some (ou_id o')) (a\<lparr>ac_oauth := uniq (ac_oauth a @ [provider_name (ou_provider o')]),
     ac_imageUrl := (if truthy_str (ou_imageUrl o') then ou_imageUrl o' else ac_imageUrl a),
     ac_emailVerified := (ou_verified o' \<or> ac_emailVerified a)\<rparr>)"

definition oauth_account :: "string \<Rightarrow> string \<Rightarrow> oauth_user \<Rightarrow> ms \<Rightarrow> account" where
  "oauth_account i uname o' now = set_provider_id (ou_provider o') (Some (ou_id o')) ((blank_account i (ou_email o') now)
     \<lparr>ac_username := Some uname, ac_firstName := Some (ou_firstName o'), ac_lastName := Some (ou_lastName o'),
      ac_imageUrl := ou_imageUrl o', ac_oauth := [provider_name (ou_provider o')], ac_emailVerified := ou_verified o',
      ac_role := USER, ac_isActive := True, ac_password := None\<rparr>)"

definition find_or_create_oauth_user :: "string \<Rightarrow> oauth_user \<Rightarrow> ms \<Rightarrow> auth_world \<Rightarrow> (account \<times> bool) res \<times> auth_world" where
  "find_or_create_oauth_user i o' now w =
     (case first_account (\<lambda>a. provider_id (ou_provider o') a = Some (ou_id o')) w of
        Some a \<Rightarrow> (Inr (a, False), w)
      | None \<Rightarrow>
          (case account_by_email (ou_email o') w of
             Some a \<Rightarrow> (case update_account (ac_id a) (linked_account o') w of
                 (Inl e, w1) \<Rightarrow> (Inl e, w1) | (Inr u, w1) \<Rightarrow> (Inr (u, False), w1))
           | None \<Rightarrow>
               (let base = username_chars (email_local (ou_email o'));
                    uname = free_username (aw_accounts w) base base 1
                in case insert_account (oauth_account i uname o' now) w of
                     (Inl e, w1) \<Rightarrow> (Inl e, w1) | (Inr u, w1) \<Rightarrow> (Inr (u, True), w1))))"

record 't oauth_login =
  ol_access :: 't
  ol_refresh :: 't
  ol_account :: account
  ol_isNew :: bool

text \<open>The three log-ins differ in who is asked about the token; anything but a refusal becomes an
  internal error.\<close>

definition oauth_session :: "'t auth_lib \<Rightarrow> string \<Rightarrow> string \<Rightarrow> oauth_user option \<Rightarrow> ms \<Rightarrow> auth_world \<Rightarrow> 't oauth_login res \<times> auth_world" where
  "oauth_session lib msg i answer now w =
     (case answer of
        None \<Rightarrow> (Inl (Unauthorized ''Invalid token''), w)
      | Some o' \<Rightarrow>
          (case find_or_create_oauth_user i o' now w of
             (Inl e, w1) \<Rightarrow> (Inl (InternalError msg), w1)
           | (Inr (a, isNew), w1) \<Rightarrow>
               (let (acc, ref) = token_pair lib a 30 now
                in (Inr \<lparr>ol_access = acc, ol_refresh = ref, ol_account = a, ol_isNew = isNew\<rparr>,
                    if isNew then count_registration w1 else w1))))"

definition login_with_google :: "'t auth_lib \<Rightarrow> string \<Rightarrow> oauth_user option \<Rightarrow> ms \<Rightarrow> auth_world \<Rightarrow> 't oauth_login res \<times> auth_world" where
  "login_with_google lib i answer now w = oauth_session lib ''Google login failed. Please try again.'' i answer now w"

definition login_with_facebook :: "'t auth_lib \<Rightarrow> string \<Rightarrow> oauth_user option \<Rightarrow> ms \<Rightarrow> auth_world \<Rightarrow> 't oauth_login res \<times> auth_world" where
  "login_with_facebook lib i answer now w = oauth_session lib ''Facebook login failed. Please try again.'' i answer now w"

text \<open>A decoded Firebase token; \<open>name.split(' ')\<close> gives first and last names.\<close>

record firebase_token =
  fb_uid :: string
  fb_email :: "string option"
  fb_name :: "string option"
  fb_picture :: "string option"
  fb_verified :: bool

definition firebase_user :: "firebase_token \<Rightarrow> oauth_user" where
  "firebase_user t = \<lparr>ou_provider = P_FIREBASE, ou_id = fb_uid t, ou_email = str_or (fb_email t) [],
     ou_firstName = (case fb_name t of None \<Rightarrow> [] | Some n \<Rightarrow> hd (split_on (CHR '' '') n)),
     ou_lastName = (case fb_name t of None \<Rightarrow> [] | Some n \<Rightarrow> join_with '' '' (tl (split_on (CHR '' '') n))),
     ou_imageUrl = Some (str_or (fb_picture t) []), ou_verified = fb_verified t\<rparr>"

definition firebase_sync :: "'t auth_lib \<Rightarrow> string \<Rightarrow> firebase_token option \<Rightarrow> ms \<Rightarrow> auth_world \<Rightarrow> 't oauth_login res \<times> auth_world" where
  "firebase_sync lib i answer now w =
     oauth_session lib ''Firebase sync failed. Please try again.'' i (map_option firebase_user answer) now w"

subsection \<open>Linking and unlinking\<close>

definition link_account :: "provider \<Rightarrow> string \<Rightarrow> oauth_user option \<Rightarrow> auth_world \<Rightarrow> account res \<times> auth_world" where
  "link_account p uid answer w =
     (case answer of
        None \<Rightarrow> (Inl (Unauthorized ''Invalid token''), w)
      | Some o' \<Rightarrow>
          (case account_by_id uid w of
             None \<Rightarrow> (Inl (NotFound ''User not found''), w)
           | Some a \<Rightarrow>
               if first_account (\<lambda>b. provider_id p b = Some (ou_id o') \<and> ac_id b \<noteq> uid) w \<noteq> None
               then (Inl (Conflict ''This account is already linked to another user''), w)
               else update_account uid (\<lambda>x. set_provider_id p (Some (ou_id o')) (x\<lparr>ac_oauth := uniq (ac_oauth a @ [provider_name p])\<rparr>)) w))"

definition link_google_account :: "string \<Rightarrow> oauth_user option \<Rightarrow> auth_world \<Rightarrow> account res \<times> auth_world" where
  "link_google_account uid answer w = link_account P_GOOGLE uid answer w"

definition link_facebook_account :: "string \<Rightarrow> oauth_user option \<Rightarrow> auth_world \<Rightarrow> account res \<times> auth_world" where
  "link_facebook_account uid answer w = link_account P_FACEBOOK uid answer w"

text \<open>The provider is \<open>google\<close> or \<open>facebook\<close>.\<close>

definition unlink_social_account :: "string \<Rightarrow> provider \<Rightarrow> auth_world \<Rightarrow> account res \<times> auth_world" where
  "unlink_social_account uid p w =
     (case account_by_id uid w of
        None \<Rightarrow> (Inl (NotFound ''User not found''), w)
      | Some a \<Rightarrow>
          if provider_name p \<notin> set (ac_oauth a) then (Inl (NotFound ''Account is not linked''), w)
          else (let others = filter (\<lambda>q. q \<noteq> provider_name p) (ac_oauth a)
                in if \<not> truthy_str (ac_password a) \<and> others = []
                   then (Inl (BadRequest ''Cannot unlink last authentication method. Please set a password first.''), w)
                   else update_account uid (\<lambda>x. set_provider_id p None (x\<lparr>ac_oauth := others\<rparr>)) w))"

record oauth_status =
  os_providers :: "string list"
  os_hasPassword :: bool
  os_canUnlink :: bool
  os_google :: "string option"
  os_facebook :: "string option"

definition get_oauth_status :: "string \<Rightarrow> auth_world \<Rightarrow> oauth_status res" where
  "get_oauth_status uid w =
     (case account_by_id uid w of
        None \<Rightarrow> Inl (NotFound ''User not found'')
      | Some a \<Rightarrow> Inr \<lparr>os_providers = ac_oauth a, os_hasPassword = truthy_str (ac_password a),
          os_canUnlink = (truthy_str (ac_password a) \<or> length (ac_oauth a) > 1),
          os_google = (if truthy_str (ac_googleId a) then ac_googleId a else None),
          os_facebook = (if truthy_str (ac_facebookId a) then ac_facebookId a else None)\<rparr>)"

end
