(* ===== verification/Auth_Accounts.thy ===== *)
theory Auth_Accounts
  imports Auth_Social
begin

section \<open>The accounts over all operations of the authentication service\<close>

text \<open>
  Every handler of \<open>modules/auth/auth.service.ts\<close> that writes, as one step relation; what all of them keep
  of the table of accounts, and what linking, unlinking and the log-ins by a provider's token do.
\<close>

subsection \<open>Lemmas\<close>

text \<open>Accounts stay, with their role; a new one has the role \<open>USER\<close>.\<close>

definition roles_kept :: "auth_world \<Rightarrow> auth_world \<Rightarrow> bool" where
  "roles_kept w w' \<longleftrightarrow> (\<forall>i. case account_by_id i w of
     Some a \<Rightarrow> (\<exists>a'. account_by_id i w' = Some a' \<and> ac_role a' = ac_role a)
   | None \<Rightarrow> (\<forall>a'. account_by_id i w' = Some a' \<longrightarrow> ac_role a' = USER))"

lemma roles_kept_refl [simp]: "roles_kept w w"
  by (simp add: roles_kept_def split: option.split)

lemma roles_kept_trans: "roles_kept w w' \<Longrightarrow> roles_kept w' w'' \<Longrightarrow> roles_kept w w''"
  unfolding roles_kept_def
proof (rule allI)
  fix i
  assume a: "\<forall>i. case account_by_id i w of Some a \<Rightarrow> (\<exists>a'. account_by_id i w' = Some a' \<and> ac_role a' = ac_role a)
      | None \<Rightarrow> (\<forall>a'. account_by_id i w' = Some a' \<longrightarrow> ac_role a' = USER)"
    and b: "\<forall>i. case account_by_id i w' of Some a \<Rightarrow> (\<exists>a'. account_by_id i w'' = Some a' \<and> ac_role a' = ac_role a)
      | None \<Rightarrow> (\<forall>a'. account_by_id i w'' = Some a' \<longrightarrow> ac_role a' = USER)"
  show "case account_by_id i w of Some a \<Rightarrow> (\<exists>a'. account_by_id i w'' = Some a' \<and> ac_role a' = ac_role a)
      | None \<Rightarrow> (\<forall>a'. account_by_id i w'' = Some a' \<longrightarrow> ac_role a' = USER)"
    using a [rule_format, of i] b [rule_format, of i] by (cases "account_by_id i w"; cases "account_by_id i w'") auto
qed

lemma roles_kept_outbox [simp]:
  "roles_kept w (queue_mail m w') = roles_kept w w'" "roles_kept w (count_registration w') = roles_kept w w'"
  by (simp_all only: roles_kept_def queue_mail_simps count_registration_simps account_by_id_def)

definition keeps_role :: "(account \<Rightarrow> account) \<Rightarrow> bool" where
  "keeps_role f \<longleftrightarrow> (\<forall>a. ac_id (f a) = ac_id a \<and> ac_role (f a) = ac_role a)"

lemma update_account_roles:
  assumes "keeps_role f"
  shows "roles_kept w (snd (update_account i f w))"
proof -
  have "account_by_id k (w\<lparr>aw_accounts := update_by ac_id i f (aw_accounts w)\<rparr>) =
      (if k = i then map_option f (account_by_id k w) else account_by_id k w)" for k
    using assms by (intro account_by_id_update) (simp add: keeps_role_def)
  then show ?thesis using assms
    by (auto simp: update_account_def roles_kept_def keeps_role_def split: option.splits)
qed

lemma insert_account_roles: "ac_role a = USER \<Longrightarrow> roles_kept w (snd (insert_account a w))"
  by (auto simp: insert_account_def roles_kept_def account_by_id_def split: option.splits)

lemma count_attempts_roles: "roles_kept w (count_attempts e w)"
proof -
  have "account_by_id i (count_attempts e w) = map_option (\<lambda>a. if ac_email a = e \<and> \<not> ac_emailVerified a
      then a\<lparr>ac_codeAttempts := ac_codeAttempts a + 1\<rparr> else a) (account_by_id i w)" for i
    unfolding account_by_id_def count_attempts_def by simp (rule find_by_update_where, simp)
  then show ?thesis by (auto simp: roles_kept_def split: option.split)
qed

lemma set_provider_id_simps [simp]:
  "ac_id (set_provider_id p k a) = ac_id a" "ac_role (set_provider_id p k a) = ac_role a"
  "ac_email (set_provider_id p k a) = ac_email a" "ac_emailVerified (set_provider_id p k a) = ac_emailVerified a"
  "ac_password (set_provider_id p k a) = ac_password a" "ac_oauth (set_provider_id p k a) = ac_oauth a"
  "provider_id p (set_provider_id p k a) = k"
  by (cases p; simp)+

lemma keeps_role_simps [simp]:
  "keeps_role token_verified" "keeps_role code_verified" "keeps_role (new_code r t)" "keeps_role (new_reset_code r t)"
  "keeps_role (new_password lib s pw)" "keeps_role (\<lambda>x. x\<lparr>ac_resetAttempts := n\<rparr>)" "keeps_role (merge_clerk d)"
  "keeps_role (refresh_clerk d)" "keeps_role (\<lambda>a. a\<lparr>ac_isActive := b\<rparr>)" "keeps_role (synced_account g u t)"
  "keeps_role (linked_account o')" "keeps_role (\<lambda>x. set_provider_id p k (x\<lparr>ac_oauth := ps\<rparr>))"
  by (simp_all add: keeps_role_def token_verified_def code_verified_def new_code_def new_reset_code_def new_password_def
      merge_clerk_def refresh_clerk_def synced_account_def linked_account_def)

text \<open>A handler whose effect on the table is none, an insert of a user or an update that keeps ids and roles.\<close>

definition harmless :: "auth_world \<Rightarrow> auth_world \<Rightarrow> bool" where
  "harmless w w' \<longleftrightarrow> roles_kept w w' \<and> (accounts_unique w \<longrightarrow> accounts_unique w')"

lemma harmless_simps [simp]:
  "harmless w w" "harmless w (queue_mail m w') = harmless w w'" "harmless w (count_registration w') = harmless w w'"
  "keeps_role f \<Longrightarrow> harmless w (snd (update_account i f w))" "ac_role a = USER \<Longrightarrow> harmless w (snd (insert_account a w))"
  "harmless w (count_attempts e w)"
  by (simp_all add: harmless_def update_account_roles update_account_unique insert_account_roles insert_account_unique
      count_attempts_roles)

lemma harmless_update: "update_account i f w = (r, w1) \<Longrightarrow> keeps_role f \<Longrightarrow> harmless w w1"
  using harmless_simps(4) [of f w i] by simp

lemma harmless_insert: "insert_account a w = (r, w1) \<Longrightarrow> ac_role a = USER \<Longrightarrow> harmless w w1"
  using harmless_simps(5) [of a w] by simp

lemma code_step_harmless: "harmless w (code_step lib t ev w)"
  by (cases ev) (auto simp: verify_email_with_code_def verify_email_def resend_verification_code_def resend_verification_email_def
      forgot_password_def verify_reset_code_def reset_password_def Let_def case_prod_beta
      split: option.splits prod.splits sum.splits intro: harmless_update)

lemma new_roles [simp]:
  "ac_role (registered_account lib r d c t) = USER" "ac_role (clerk_account i cd t) = USER"
  "ac_role (google_account g i u t) = USER" "ac_role (oauth_account i u o' t) = USER"
  by (simp_all add: registered_account_def clerk_account_def google_account_def oauth_account_def)

lemma register_harmless: "harmless w (snd (register lib r d c slow t w))"
  by (auto simp: register_def split: prod.splits sum.splits intro: harmless_insert)

lemma webhook_harmless: "harmless w (snd (handle_clerk_webhook ty i d t w))"
proof -
  have "harmless w (snd (create_user i d t w))"
    by (auto simp: create_user_def Let_def case_prod_beta split: option.splits prod.splits sum.splits intro: harmless_insert)
  moreover have "harmless w (snd (update_by_clerk k f w))" if "keeps_role f" for k f
    using that by (auto simp: update_by_clerk_def split: option.splits)
  ultimately show ?thesis
    by (simp add: handle_clerk_webhook_def Let_def case_prod_beta update_user_def delete_user_def)
qed

lemma sync_harmless: "harmless w (snd (sync_google_user lib i rnd d t w))"
  by (auto simp: sync_google_user_def Let_def split: option.splits prod.splits sum.splits intro: harmless_update harmless_insert)

lemma find_or_create_harmless: "harmless w (snd (find_or_create_oauth_user i o' t w))"
  by (auto simp: find_or_create_oauth_user_def Let_def split: option.splits prod.splits sum.splits intro: harmless_update harmless_insert)

lemma oauth_session_harmless: "harmless w (snd (oauth_session lib msg i answer t w))"
proof (cases answer)
  case (Some o')
  obtain x w1 where x: "find_or_create_oauth_user i o' t w = (x, w1)" by fastforce
  have "harmless w w1" using find_or_create_harmless [of w i o' t] by (simp add: x)
  then show ?thesis by (auto simp: oauth_session_def Some x case_prod_beta split: sum.splits)
qed (simp add: oauth_session_def)

lemma link_harmless: "harmless w (snd (link_account p uid answer w))" "harmless w (snd (unlink_social_account uid p w))"
  by (auto simp: link_account_def unlink_social_account_def Let_def split: option.splits)

subsection \<open>All operations\<close>

inductive auth_step :: "'t auth_lib \<Rightarrow> auth_world \<Rightarrow> auth_world \<Rightarrow> bool" for lib where
  a_register: "auth_step lib w (snd (register lib r d c slow t w))"
| a_code: "auth_step lib w (code_step lib t ev w)"
| a_webhook: "auth_step lib w (snd (handle_clerk_webhook ty i cd t w))"
| a_sync: "auth_step lib w (snd (sync_google_user lib i rnd g t w))"
| a_google: "auth_step lib w (snd (login_with_google lib i answer t w))"
| a_facebook: "auth_step lib w (snd (login_with_facebook lib i answer t w))"
| a_firebase: "auth_step lib w (snd (firebase_sync lib i fb t w))"
| a_link: "auth_step lib w (snd (link_account p uid answer w))"
| a_unlink: "auth_step lib w (snd (unlink_social_account uid p w))"

lemma auth_step_harmless: "auth_step lib w w' \<Longrightarrow> harmless w w'"
  by (induction rule: auth_step.induct)
    (auto simp: register_harmless code_step_harmless webhook_harmless sync_harmless oauth_session_harmless link_harmless
      login_with_google_def login_with_facebook_def firebase_sync_def)

subsection \<open>Properties\<close>

text \<open>C4. Over every operation of the service that writes, in any order: no two accounts come to share an
  id, an address, a user name or the id of a provider, no account disappears or changes its role, and
  every account that is created has the role USER.\<close>

theorem accounts_invariant:
  assumes "(auth_step lib)\<^sup>*\<^sup>* w w'" "accounts_unique w"
  shows "accounts_unique w' \<and>
    (\<forall>i. case account_by_id i w of
       Some a \<Rightarrow> (\<exists>a'. account_by_id i w' = Some a' \<and> ac_role a' = ac_role a)
     | None \<Rightarrow> (\<forall>a'. account_by_id i w' = Some a' \<longrightarrow> ac_role a' = USER))"
proof -
  from assms have "accounts_unique w' \<and> roles_kept w w'"
  proof (induction rule: rtranclp_induct)
    case (step y z)
    then show ?case using auth_step_harmless [OF step(2)] roles_kept_trans by (auto simp: harmless_def)
  qed simp
  then show ?thesis by (simp add: roles_kept_def)
qed

text \<open>C32. The public Google synchronisation proves nothing: whoever posts the address of an account, any
  account, with a Google id and a user name that no account has yet, gets tokens of that account, its role
  included, and the account counts as verified and is bound to the id. The user name matters only where the
  account has none.\<close>

theorem google_sync_takeover:
  assumes "auth_library lib" "accounts_unique w" "a \<in> set (aw_accounts w)"
    and "gs_email d = ac_email a" "gs_googleId d = Some g" "\<forall>b \<in> set (aw_accounts w). ac_googleId b \<noteq> Some g"
    and "truthy_str (gs_username d)" "truthy_str (ac_username a) \<or> (\<forall>b \<in> set (aw_accounts w). ac_username b \<noteq> gs_username d)"
  shows "\<exists>r b w'. sync_google_user lib i rnd d t w = (Inr (r, b), w') \<and>
    al_verify lib (tr_access r) t = Some (claims_of a, t div 1000 + 3600) \<and>
    ac_id b = ac_id a \<and> ac_role b = ac_role a \<and> ac_emailVerified b \<and> ac_googleId b = Some g"
proof -
  have e: "account_by_email (ac_email a) w = Some a" by (rule account_of_row [OF assms(2,3)])
  have "List.find (\<lambda>x. ac_googleId x = gs_googleId d \<or> ac_email x = gs_email d) xs = find_by ac_email (ac_email a) xs"
    if "set xs \<subseteq> set (aw_accounts w)" for xs
    using that assms(4-6) by (induction xs) auto
  then have f: "first_account (\<lambda>x. ac_googleId x = gs_googleId d \<or> ac_email x = gs_email d) w = Some a"
    using e by (simp add: first_account_def account_by_email_def)
  let ?f = "synced_account d (the (gs_username d)) t"
  have k: "ac_id (?f a) = ac_id a" "ac_email (?f a) = ac_email a" "ac_role (?f a) = ac_role a" "ac_emailVerified (?f a)"
    "ac_googleId (?f a) = Some g" "ac_clerkId (?f a) = ac_clerkId a"
    "ac_username (?f a) = (if truthy_str (ac_username a) then ac_username a else gs_username d)"
    "ac_facebookId (?f a) = ac_facebookId a" "ac_firebaseUid (?f a) = ac_firebaseUid a"
    using assms(5,7) by (auto simp: synced_account_def truthy_str_def split: option.splits)
  have "\<not> clashes (?f a) b" if "b \<in> set (aw_accounts w)" "ac_id b \<noteq> ac_id a" for b
    using unique_no_clash [OF assms(2,3) that(1)] that assms(6,8) by (auto simp: clashes_def k same_key_def split: if_splits)
  then have "update_account (ac_id a) ?f w = (Inr (?f a), w\<lparr>aw_accounts := update_by ac_id (ac_id a) ?f (aw_accounts w)\<rparr>)"
    using account_by_email_id(1) [OF assms(2) e] by (simp add: update_account_def list_ex_iff)
  then have "sync_google_user lib i rnd d t w = (Inr (\<lparr>tr_access = al_sign lib (claims_of (?f a)) 3600 t,
      tr_refresh = al_sign lib (claims_of (?f a)) (7 * DAY_S) t, tr_expiresIn = 3600\<rparr>, ?f a),
      w\<lparr>aw_accounts := update_by ac_id (ac_id a) ?f (aw_accounts w)\<rparr>)"
    using f assms(7) by (simp add: sync_google_user_def Let_def)
  moreover have "claims_of (?f a) = claims_of a" by (simp add: claims_of_def k)
  ultimately show ?thesis using k by (simp add: auth_libraryD [OF assms(1)])
qed

text \<open>Everyone whose Firebase token carries no address shares one account: after one such person has
  signed in, the next, with another uid, gets tokens of the same account, which is then bound to his uid.\<close>

theorem firebase_without_email:
  assumes "accounts_unique w" "firebase_sync lib i1 (Some t1) now w = (Inr r1, w1)"
    and "fb_email t1 = None" "fb_email t2 = None"
    and "\<forall>a \<in> set (aw_accounts w). ac_firebaseUid a \<noteq> Some (fb_uid t1) \<and> ac_firebaseUid a \<noteq> Some (fb_uid t2)"
    and "fb_uid t1 \<noteq> fb_uid t2"
  shows "\<exists>r2 w2. firebase_sync lib i2 (Some t2) later w1 = (Inr r2, w2) \<and> ac_id (ol_account r2) = ac_id (ol_account r1) \<and>
    ac_role (ol_account r2) = ac_role (ol_account r1) \<and> \<not> ol_isNew r2 \<and> ac_firebaseUid (ol_account r2) = Some (fb_uid t2)"
proof -
  let ?u = "firebase_user t1" and ?v = "firebase_user t2"
  have fu: "ou_provider ?u = P_FIREBASE" "ou_id ?u = fb_uid t1" "ou_email ?u = []" "ou_provider ?v = P_FIREBASE" "ou_id ?v = fb_uid t2" "ou_email ?v = []"
    using assms(3,4) by (simp_all add: firebase_user_def str_or_def)
  obtain x w1' where x: "find_or_create_oauth_user i1 ?u now w = (x, w1')" by fastforce
  with assms(2) obtain a isNew where f1: "find_or_create_oauth_user i1 ?u now w = (Inr (a, isNew), w1')" "ol_account r1 = a"
    "aw_accounts w1 = aw_accounts w1'"
    by (cases x) (auto simp: firebase_sync_def oauth_session_def case_prod_beta split: if_splits)
  have none: "first_account (\<lambda>b. provider_id P_FIREBASE b = Some (fb_uid t)) w = None" if "t \<in> {t1, t2}" for t
    using assms(5) that by (auto simp: first_account_def find_None_iff)
  have u1: "accounts_unique w1"
    using auth_step_harmless [OF a_firebase [of lib w i1 "Some t1" now]] assms(1,2) by (simp add: harmless_def)
  have e: "account_by_email [] w1 = Some a \<and> a \<in> set (aw_accounts w1) \<and>
      (\<forall>b \<in> set (aw_accounts w1). ac_firebaseUid b \<noteq> Some (fb_uid t2))"
  proof (cases "account_by_email [] w")
    case None
    let ?n = "free_username (aw_accounts w) (username_chars (email_local [])) (username_chars (email_local [])) 1"
    have "a = oauth_account i1 ?n ?u now" "aw_accounts w1' = aw_accounts w @ [a]"
      using f1(1) None none [of t1] by (auto simp: find_or_create_oauth_user_def fu insert_account_def Let_def split: if_splits)
    moreover have "ac_email (oauth_account i1 ?n ?u now) = []" "ac_firebaseUid (oauth_account i1 ?n ?u now) = Some (fb_uid t1)"
      by (simp_all add: oauth_account_def fu blank_account_def)
    ultimately show ?thesis using None assms(5,6) f1(3) by (auto simp: account_by_email_def)
  next
    case (Some b)
    have upd: "update_account (ac_id b) (linked_account ?u) w = (Inr a, w1')"
      using f1(1) Some none [of t1] by (auto simp: find_or_create_oauth_user_def fu split: prod.splits sum.splits)
    have b: "account_by_id (ac_id b) w = Some b" "ac_email b = []" using account_by_email_id [OF assms(1) Some] by auto
    then have a: "a = linked_account ?u b" "aw_accounts w1' = update_by ac_id (ac_id b) (linked_account ?u) (aw_accounts w)"
      using upd by (auto simp: update_account_def split: if_splits)
    have l: "ac_id (linked_account ?u x) = ac_id x" "ac_email (linked_account ?u x) = ac_email x"
      "ac_firebaseUid (linked_account ?u x) = Some (fb_uid t1)" for x by (simp_all add: linked_account_def fu)
    have mem: "a \<in> set (aw_accounts w1)"
      using account_by_email_id(3) [OF assms(1) Some] by (force simp: f1(3) a update_by_def set_update_where)
    moreover have "account_by_email [] w1 = Some a" using account_of_row [OF u1 mem] by (simp add: a(1) l b)
    moreover have "\<forall>x \<in> set (aw_accounts w1). ac_firebaseUid x \<noteq> Some (fb_uid t2)"
      using assms(5,6) by (auto simp: f1(3) a(2) update_by_def set_update_where l)
    ultimately show ?thesis by blast
  qed
  have none2: "first_account (\<lambda>b. provider_id P_FIREBASE b = Some (fb_uid t2)) w1 = None"
    using e by (auto simp: first_account_def find_None_iff)
  let ?g = "linked_account ?v"
  have g: "ac_id (?g a) = ac_id a" "ac_email (?g a) = ac_email a" "ac_role (?g a) = ac_role a" "ac_firebaseUid (?g a) = Some (fb_uid t2)"
    "ac_clerkId (?g a) = ac_clerkId a" "ac_username (?g a) = ac_username a" "ac_googleId (?g a) = ac_googleId a" "ac_facebookId (?g a) = ac_facebookId a"
    by (simp_all add: linked_account_def fu)
  have "\<not> clashes (?g a) b" if "b \<in> set (aw_accounts w1)" "ac_id b \<noteq> ac_id a" for b
    using unique_no_clash [OF u1 _ that(1), of a] that e by (auto simp: clashes_def g same_key_def)
  then have "update_account (ac_id a) ?g w1 = (Inr (?g a), w1\<lparr>aw_accounts := update_by ac_id (ac_id a) ?g (aw_accounts w1)\<rparr>)"
    using account_by_email_id(1) [OF u1, of "[]" a] e by (simp add: update_account_def list_ex_iff)
  then show ?thesis using none2 e g
    by (simp add: firebase_sync_def oauth_session_def find_or_create_oauth_user_def fu case_prod_beta f1(2))
qed

text \<open>C31. The search for a user name ends: it answers the base name if that is free, else the base with the
  first number from 1 on that is free, which is at most the number of accounts.\<close>

theorem username_search:
  "\<exists>n \<le> length (aw_accounts w). free_username (aw_accounts w) base base 1 = (if n = 0 then base else base @ nat_text n) \<and>
     \<not> username_taken (if n = 0 then base else base @ nat_text n) w \<and>
     (\<forall>k < n. username_taken (if k = 0 then base else base @ nat_text k) w)"
proof -
  let ?xs = "aw_accounts w" and ?c = "\<lambda>n. if n = 0 then base else base @ nat_text n"
  have search: "\<exists>n \<ge> m. free_username ?xs base (?c m) (Suc m) = ?c n \<and> \<not> username_taken (?c n) w \<and>
      (\<forall>k. m \<le> k \<and> k < n \<longrightarrow> username_taken (?c k) w)" for m
  proof (induction "candidates_left ?xs base (?c m) (Suc m)" arbitrary: m rule: less_induct)
    case less
    show ?case
    proof (cases "username_taken (?c m) w")
      case False
      then show ?thesis by (intro exI [of _ m]) (auto simp: username_taken_def free_username.simps [of ?xs base "?c m"])
    next
      case True
      then have t: "\<exists>a \<in> set ?xs. ac_username a = Some (?c m)" by (simp only: username_taken_def)
      have "candidates_left ?xs base (?c (Suc m)) (Suc (Suc m)) < candidates_left ?xs base (?c m) (Suc m)"
        using candidates_left_less [OF t, of base "Suc m"] by simp
      from less [OF this] obtain n where n: "Suc m \<le> n" "free_username ?xs base (?c (Suc m)) (Suc (Suc m)) = ?c n"
        "\<not> username_taken (?c n) w" "\<forall>k. Suc m \<le> k \<and> k < n \<longrightarrow> username_taken (?c k) w" by blast
      have "free_username ?xs base (?c m) (Suc m) = free_username ?xs base (?c (Suc m)) (Suc (Suc m))"
        using t by (subst free_username.simps) simp
      with n True show ?thesis by (intro exI [of _ n]) (metis Suc_leD Suc_leI le_eq_less_or_eq)
    qed
  qed
  from search [of 0] obtain n where n: "free_username ?xs base (?c 0) (Suc 0) = ?c n" "\<not> username_taken (?c n) w"
    "\<forall>k. 0 \<le> k \<and> k < n \<longrightarrow> username_taken (?c k) w" by blast
  have inj: "?c k = ?c l \<longleftrightarrow> k = l" for k l
  proof -
    have "nat_text k \<noteq> []" for k by (subst nat_text.simps) simp
    then show ?thesis by (cases "k = 0"; cases "l = 0") auto
  qed
  have "n = card (?c ` {..<n})" by (subst card_image) (auto simp: inj_on_def inj)
  also have "\<dots> \<le> card ((the \<circ> ac_username) ` set ?xs)"
  proof (rule card_mono)
    show "?c ` {..<n} \<subseteq> (the \<circ> ac_username) ` set ?xs"
      using n(3) by (force simp: username_taken_def image_iff)
  qed simp
  also have "\<dots> \<le> card (set ?xs)" by (rule card_image_le) simp
  also have "\<dots> \<le> length ?xs" by (rule card_length)
  finally show ?thesis using n by (intro exI [of _ n]) auto
qed

text \<open>Unlinking a provider never takes the last way in: where it succeeds, the account keeps a password or
  another provider of its list and loses exactly this one; an account with neither is refused and unchanged.\<close>

theorem unlink_keeps_login:
  assumes "accounts_unique w" "account_by_id uid w = Some a" "provider_name p \<in> set (ac_oauth a)"
    and "unlink_social_account uid p w = (x, w')"
  shows "if truthy_str (ac_password a) \<or> (\<exists>q \<in> set (ac_oauth a). q \<noteq> provider_name p)
    then (\<exists>b. x = Inr b \<and> account_by_id uid w' = Some b \<and> provider_id p b = None \<and>
      set (ac_oauth b) = set (ac_oauth a) - {provider_name p} \<and> (truthy_str (ac_password b) \<or> ac_oauth b \<noteq> []))
    else x = Inl (BadRequest ''Cannot unlink last authentication method. Please set a password first.'') \<and> w' = w"
proof -
  define others where "others = filter (\<lambda>q. q \<noteq> provider_name p) (ac_oauth a)"
  let ?f = "\<lambda>x. set_provider_id p None (x\<lparr>ac_oauth := others\<rparr>)"
  have a: "a \<in> set (aw_accounts w)" "ac_id a = uid" using assms(2) by (auto simp: account_by_id_def dest: find_by_SomeD)
  have k: "ac_googleId (?f a) \<in> {None, ac_googleId a}" "ac_facebookId (?f a) \<in> {None, ac_facebookId a}"
    "ac_firebaseUid (?f a) \<in> {None, ac_firebaseUid a}" "ac_clerkId (?f a) = ac_clerkId a" "ac_username (?f a) = ac_username a"
    by (induction p) simp_all
  have "\<not> clashes (?f a) b" if "b \<in> set (aw_accounts w)" "ac_id b \<noteq> uid" for b
    using unique_no_clash [OF assms(1) a(1) that(1)] that(2) a(2) k by (auto simp: clashes_def same_key_def)
  then have u: "update_account uid ?f w = (Inr (?f a), w\<lparr>aw_accounts := update_by ac_id uid ?f (aw_accounts w)\<rparr>)"
    by (simp add: update_account_def assms(2) list_ex_iff)
  have e: "others = [] \<longleftrightarrow> \<not> (\<exists>q \<in> set (ac_oauth a). q \<noteq> provider_name p)" by (auto simp: others_def filter_empty_conv)
  have f: "account_by_id uid (w\<lparr>aw_accounts := update_by ac_id uid ?f (aw_accounts w)\<rparr>) = Some (?f a)"
    by (subst account_by_id_update) (simp_all add: assms(2))
  have o': "set others = set (ac_oauth a) - {provider_name p}" by (auto simp: others_def)
  have "unlink_social_account uid p w = (if \<not> truthy_str (ac_password a) \<and> others = []
      then (Inl (BadRequest ''Cannot unlink last authentication method. Please set a password first.''), w)
      else update_account uid ?f w)"
    using assms(2,3) by (simp add: unlink_social_account_def others_def)
  then have r: "(x, w') = (if \<not> truthy_str (ac_password a) \<and> others = []
      then (Inl (BadRequest ''Cannot unlink last authentication method. Please set a password first.''), w)
      else (Inr (?f a), w\<lparr>aw_accounts := update_by ac_id uid ?f (aw_accounts w)\<rparr>))"
    using assms(4) u by simp
  show ?thesis
  proof (cases "\<not> truthy_str (ac_password a) \<and> others = []")
    case True
    with r e show ?thesis by simp
  next
    case False
    then have x: "x = Inr (?f a)" "w' = w\<lparr>aw_accounts := update_by ac_id uid ?f (aw_accounts w)\<rparr>" using r by (simp_all only: if_False prod.inject)
    have "truthy_str (ac_password a) \<or> (\<exists>q \<in> set (ac_oauth a). q \<noteq> provider_name p)" using False e by simp
    moreover have "truthy_str (ac_password a) \<or> others \<noteq> []" using False by simp
    ultimately show ?thesis using f by (simp add: x o')
  qed
qed

text \<open>Witnesses.\<close>

lemma accounts_invariant_witness:
  "accounts_unique (code_step demo_lib 2 (VerifyCode ''new'' ''2'') (code_step demo_lib 1 (VerifyCode ''new'' ''1'') demo_auth))"
  by (rule accounts_invariant [where lib = demo_lib, THEN conjunct1, OF _ demo_auth_unique])
    (blast intro: rtranclp.rtrancl_into_rtrancl a_code)

definition demo_named :: auth_world where
  "demo_named = demo_auth\<lparr>aw_accounts := [(demo_account ''ad'' ADMIN)\<lparr>ac_username := Some ''root'', ac_oauth := [''google'']\<rparr>]\<rparr>"

lemma demo_named_unique: "accounts_unique demo_named"
  by (simp add: accounts_unique_def demo_named_def)

definition demo_sync :: google_sync_dto where
  "demo_sync = \<lparr>gs_googleId = Some ''evil'', gs_email = ''ad'', gs_firstName = None, gs_lastName = None, gs_photoURL = None,
     gs_username = Some ''x''\<rparr>"

lemma google_sync_takeover_witness:
  "\<exists>r b w'. sync_google_user demo_lib ''u9'' (\<lambda>_. 1000) demo_sync 0 demo_named = (Inr (r, b), w') \<and> ac_role b = ADMIN \<and>
     al_verify demo_lib (tr_access r) 0 \<noteq> None"
proof -
  let ?a = "(demo_account ''ad'' ADMIN)\<lparr>ac_username := Some ''root'', ac_oauth := [''google'']\<rparr>"
  from google_sync_takeover [OF demo_lib_ok demo_named_unique, of ?a demo_sync "''evil''" "''u9''" "\<lambda>_. 1000" 0]
  obtain r b w' where "sync_google_user demo_lib ''u9'' (\<lambda>_. 1000) demo_sync 0 demo_named = (Inr (r, b), w')"
    "ac_role b = ac_role ?a" "al_verify demo_lib (tr_access r) 0 = Some (claims_of ?a, 0 div 1000 + 3600)"
    by (auto simp: demo_named_def demo_sync_def demo_account_def blank_account_def truthy_str_def)
  moreover have "ac_role ?a = ADMIN" by (simp add: demo_account_def)
  ultimately show ?thesis by auto
qed

definition demo_token :: "string \<Rightarrow> firebase_token" where
  "demo_token u = \<lparr>fb_uid = u, fb_email = None, fb_name = None, fb_picture = None, fb_verified = False\<rparr>"

lemma free_username_free: "\<forall>a \<in> set xs. ac_username a \<noteq> Some u \<Longrightarrow> free_username xs base u n = u"
  by (subst free_username.simps) auto

lemma firebase_without_email_witness:
  "\<exists>r1 r2. firebase_sync demo_lib ''i1'' (Some (demo_token ''a'')) 0 demo_named = (Inr r1, snd (firebase_sync demo_lib ''i1'' (Some (demo_token ''a'')) 0 demo_named)) \<and>
     fst (firebase_sync demo_lib ''i2'' (Some (demo_token ''b'')) 1 (snd (firebase_sync demo_lib ''i1'' (Some (demo_token ''a'')) 0 demo_named))) = Inr r2 \<and>
     ac_id (ol_account r2) = ac_id (ol_account r1)"
proof -
  have "\<exists>r1. fst (firebase_sync demo_lib ''i1'' (Some (demo_token ''a'')) 0 demo_named) = Inr r1"
    by (simp add: firebase_sync_def oauth_session_def find_or_create_oauth_user_def firebase_user_def demo_token_def demo_named_def
        demo_auth_def demo_account_def blank_account_def first_account_def account_by_email_def insert_account_def oauth_account_def
        clashes_def same_key_def str_or_def free_username_free email_local_def username_chars_def to_lower_def case_prod_beta)
  then obtain r1 where r: "firebase_sync demo_lib ''i1'' (Some (demo_token ''a'')) 0 demo_named =
      (Inr r1, snd (firebase_sync demo_lib ''i1'' (Some (demo_token ''a'')) 0 demo_named))" by (metis prod.collapse)
  have "\<forall>a \<in> set (aw_accounts demo_named). ac_firebaseUid a \<noteq> Some (fb_uid (demo_token ''a'')) \<and> ac_firebaseUid a \<noteq> Some (fb_uid (demo_token ''b''))"
    by (simp add: demo_named_def demo_account_def blank_account_def)
  from firebase_without_email [OF demo_named_unique r _ _ this, of "''i2''" 1] r show ?thesis
    by (auto simp: demo_token_def)
qed

lemma username_search_witness:
  "\<exists>n \<le> 1. free_username (aw_accounts demo_named) ''root'' ''root'' 1 = (if n = 0 then ''root'' else ''root'' @ nat_text n)"
proof -
  have "length (aw_accounts demo_named) = 1" by (simp add: demo_named_def)
  with username_search [of demo_named "''root''"] show ?thesis by metis
qed

lemma unlink_keeps_login_witness:
  "\<exists>b. fst (unlink_social_account ''ad'' P_GOOGLE demo_named) = Inr b \<and> ac_oauth b = []"
proof -
  obtain x w' where x: "unlink_social_account ''ad'' P_GOOGLE demo_named = (x, w')" by fastforce
  have "account_by_id ''ad'' demo_named = Some ((demo_account ''ad'' ADMIN)\<lparr>ac_username := Some ''root'', ac_oauth := [''google'']\<rparr>)"
    by (simp add: demo_named_def account_by_id_def demo_account_def blank_account_def)
  from unlink_keeps_login [OF demo_named_unique this _ x] show ?thesis
    by (auto simp: x demo_account_def truthy_str_def)
qed

end
