(* ===== verification/Alerts.thy ===== *)
theory Alerts
  imports Js_Value
begin

section \<open>Alerts\<close>

text \<open>
  \<open>modules/alerts/services\<close>: the rules, the engine that evaluates an event against them and stores an
  alert for each that fires, and the history of the alerts. An event is evaluated at one instant; the
  clock of the server is off UTC by \<open>off\<close> milliseconds. Mail goes to a queue if there is one.
\<close>

subsection \<open>Rows\<close>

datatype alert_category = AC_SYSTEM | AC_SECURITY | AC_BUSINESS | AC_USER | AC_SENSOR | AC_ORDER | AC_PAYMENT

datatype alert_priority = AP_CRITICAL | AP_HIGH | AP_MEDIUM | AP_LOW

datatype alert_status = AS_PENDING | AS_SENT | AS_ACKNOWLEDGED | AS_RESOLVED | AS_ESCALATED | AS_SNOOZED | AS_CANCELLED

text \<open>The condition of a rule is any object: its fields are what the engine reads of it, \<open>None\<close> where it has no
  such field.\<close>

record condition =
  cd_field :: "jval option"
  cd_operator :: "jval option"
  cd_threshold :: "jval option"
  cd_value :: "jval option"
  cd_values :: "jval option"
  cd_min :: "jval option"
  cd_max :: "jval option"

record active_hours =
  ah_start :: "string option"
  ah_end :: "string option"
  ah_days :: "int list option"

text \<open>\<open>ar_recipients\<close>: the address of each recipient, \<open>None\<close> where it has no user.\<close>

record alert_rule =
  ar_id :: string
  ar_name :: string
  ar_description :: "string option"
  ar_category :: alert_category
  ar_priority :: alert_priority
  ar_eventType :: string
  ar_condition :: condition
  ar_activeHours :: "active_hours option"
  ar_cooldownMinutes :: int
  ar_isActive :: bool
  ar_isDeleted :: bool
  ar_createdBy :: string
  ar_updatedBy :: "string option"
  ar_createdAt :: ms
  ar_updatedAt :: ms
  ar_recipients :: "string option list"

record alert =
  at_id :: string
  at_ruleId :: string
  at_category :: alert_category
  at_priority :: alert_priority
  at_title :: string
  at_message :: string
  at_eventType :: string
  at_eventData :: "(string \<times> jval) list"
  at_fingerprint :: string
  at_status :: alert_status
  at_triggeredAt :: ms
  at_createdAt :: ms
  at_acknowledgedAt :: "ms option"
  at_resolvedAt :: "ms option"

record alert_event =
  ev_type :: string
  ev_data :: "(string \<times> jval) list"
  ev_timestamp :: "ms option"

record alert_mail =
  am_to :: "string list"
  am_title :: string
  am_body :: string
  am_alertId :: string
  am_high :: bool

record alert_world =
  al_rules :: "alert_rule list"
  al_alerts :: "alert list"
  al_mails :: "alert_mail list"

subsection \<open>The engine\<close>

definition get_nested_value :: "jval \<Rightarrow> string \<Rightarrow> jval option" where
  "get_nested_value obj path = foldl (\<lambda>cur key. Option.bind cur (\<lambda>v. prop_of v key)) (Some obj) (split_on (CHR ''.'') path)"

text \<open>\<open><\<close> and \<open><=\<close>: two texts compare as texts, where objects and arrays count as their text, and everything else as
  numbers.\<close>

definition primitive_text :: "js_engine \<Rightarrow> jval \<Rightarrow> string option" where
  "primitive_text js v = (case v of VText s \<Rightarrow> Some s | VArr _ \<Rightarrow> Some (jval_text js v) | VObj _ \<Rightarrow> Some (jval_text js v) | _ \<Rightarrow> None)"

fun num_lt :: "jnum \<Rightarrow> jnum \<Rightarrow> bool" where
  "num_lt a (Fin q) = num_less a q"
| "num_lt a PosInf = (a \<noteq> NaN \<and> a \<noteq> PosInf)"
| "num_lt a _ = False"

definition jval_lt :: "js_engine \<Rightarrow> jval \<Rightarrow> jval \<Rightarrow> bool" where
  "jval_lt js v w = (case (primitive_text js v, primitive_text js w) of
     (Some s, Some t) \<Rightarrow> s < t | _ \<Rightarrow> num_lt (jval_number js v) (jval_number js w))"

definition jval_le :: "js_engine \<Rightarrow> jval \<Rightarrow> jval \<Rightarrow> bool" where
  "jval_le js v w = (case (primitive_text js v, primitive_text js w) of
     (Some s, Some t) \<Rightarrow> s \<le> t
   | _ \<Rightarrow> jval_number js v \<noteq> NaN \<and> jval_number js w \<noteq> NaN \<and> \<not> num_lt (jval_number js w) (jval_number js v))"

definition jval_truthy :: "jval \<Rightarrow> bool" where
  "jval_truthy v = (case v of VNull \<Rightarrow> False | VBool b \<Rightarrow> b | VNum q \<Rightarrow> q \<noteq> 0 | VText s \<Rightarrow> s \<noteq> [] | _ \<Rightarrow> True)"

text \<open>\<open>values?.includes(v)\<close>, of an array or a text; anything else but \<open>null\<close> has no such method.\<close>

definition among :: "js_engine \<Rightarrow> jval \<Rightarrow> jval option \<Rightarrow> bool option" where
  "among js v values = (case values of
     None \<Rightarrow> Some False
   | Some VNull \<Rightarrow> Some False
   | Some (VArr ws) \<Rightarrow> Some (list_ex (strict_eq v) ws)
   | Some (VText t) \<Rightarrow> Some (str_includes t (jval_text js v))
   | Some _ \<Rightarrow> None)"

text \<open>\<open>None\<close> where it throws: a field that is no text has no \<open>split\<close>, and a regular expression that is none. A bound that
  is missing compares false; an operator that is none of these is false.\<close>

definition check_condition :: "js_engine \<Rightarrow> condition \<Rightarrow> (string \<times> jval) list \<Rightarrow> bool option" where
  "check_condition js c data =
     (case cd_field c of
        Some (VText path) \<Rightarrow>
          (case get_nested_value (VObj data) path of
             None \<Rightarrow> Some False
           | Some v \<Rightarrow>
               (let bound = (\<lambda>rel b. case b of None \<Rightarrow> False | Some w \<Rightarrow> rel w);
                    oper = (case cd_operator c of Some (VText s) \<Rightarrow> s | _ \<Rightarrow> [])
                in if oper = ''GT'' then Some (bound (\<lambda>w. jval_lt js w v) (cd_threshold c))
                   else if oper = ''GTE'' then Some (bound (\<lambda>w. jval_le js w v) (cd_threshold c))
                   else if oper = ''LT'' then Some (bound (jval_lt js v) (cd_threshold c))
                   else if oper = ''LTE'' then Some (bound (jval_le js v) (cd_threshold c))
                   else if oper = ''EQ'' then Some (bound (strict_eq v) (cd_value c))
                   else if oper = ''NE'' then Some (\<not> bound (strict_eq v) (cd_value c))
                   else if oper = ''BETWEEN'' then Some (bound (\<lambda>w. jval_le js w v) (cd_min c) \<and> bound (jval_le js v) (cd_max c))
                   else if oper = ''IN'' then among js v (cd_values c)
                   else if oper = ''CONTAINS'' then Some (str_includes (to_lower (jval_text js v))
                       (to_lower (case cd_value c of None \<Rightarrow> ''undefined'' | Some w \<Rightarrow> jval_text js w)))
                   else if oper = ''REGEX'' then map_option (\<lambda>r. r (jval_text js v)) (en_regex js (cd_value c))
                   else Some False))
      | _ \<Rightarrow> None)"

definition pad_two :: "nat \<Rightarrow> string" where
  "pad_two n = (if n < 10 then ''0'' @ nat_text n else nat_text n)"

definition local_day :: "ms \<Rightarrow> ms \<Rightarrow> int" where
  "local_day off t = ((t + off) div 86400000 + 4) mod 7"

definition clock_text :: "ms \<Rightarrow> ms \<Rightarrow> string" where
  "clock_text off t = pad_two (nat ((t + off) div 3600000 mod 24)) @ '':'' @ pad_two (nat ((t + off) div 60000 mod 60))"

definition is_within_active_hours :: "ms \<Rightarrow> active_hours option \<Rightarrow> ms \<Rightarrow> bool" where
  "is_within_active_hours off hours t =
     (case hours of
        None \<Rightarrow> True
      | Some h \<Rightarrow>
          if \<not> truthy_str (ah_start h) \<or> \<not> truthy_str (ah_end h) then True
          else if (case ah_days h of None \<Rightarrow> False | Some ds \<Rightarrow> local_day off t \<notin> set ds) then False
          else the (ah_start h) \<le> clock_text off t \<and> clock_text off t \<le> the (ah_end h))"

definition last_alert :: "string \<Rightarrow> alert list \<Rightarrow> alert option" where
  "last_alert rid as = (case sort_by (\<lambda>a b. at_createdAt b \<le> at_createdAt a) (filter (\<lambda>a. at_ruleId a = rid) as) of
     [] \<Rightarrow> None | a # _ \<Rightarrow> Some a)"

definition is_in_cooldown :: "alert_rule \<Rightarrow> ms \<Rightarrow> alert list \<Rightarrow> bool" where
  "is_in_cooldown r now as =
     (if ar_cooldownMinutes r = 0 then False
      else (case last_alert (ar_id r) as of
          None \<Rightarrow> False
        | Some a \<Rightarrow> now < at_createdAt a + ar_cooldownMinutes r * 60 * 1000))"

definition event_time :: "alert_event \<Rightarrow> ms \<Rightarrow> ms" where
  "event_time ev now = (case ev_timestamp ev of None \<Rightarrow> now | Some t \<Rightarrow> t)"

definition should_trigger :: "js_engine \<Rightarrow> ms \<Rightarrow> alert_rule \<Rightarrow> alert_event \<Rightarrow> ms \<Rightarrow> alert list \<Rightarrow> bool option" where
  "should_trigger js off r ev now as =
     (case check_condition js (ar_condition r) (ev_data ev) of
        None \<Rightarrow> None
      | Some ok \<Rightarrow> Some (ok \<and> is_within_active_hours off (ar_activeHours r) (event_time ev now) \<and> \<not> is_in_cooldown r now as))"

text \<open>Titles and messages read the field as one key, not as a path.\<close>

definition condition_field :: "js_engine \<Rightarrow> condition \<Rightarrow> (string \<times> jval) list \<Rightarrow> (string \<times> jval) option" where
  "condition_field js c data =
     (case cd_field c of
        None \<Rightarrow> None
      | Some f \<Rightarrow> if jval_truthy f then map_option (Pair (jval_text js f)) (map_of data (jval_text js f)) else None)"

definition generate_title :: "js_engine \<Rightarrow> alert_rule \<Rightarrow> alert_event \<Rightarrow> string" where
  "generate_title js r ev =
     (case condition_field js (ar_condition r) (ev_data ev) of None \<Rightarrow> ar_name r | Some (_, v) \<Rightarrow> ar_name r @ '': '' @ jval_text js v)"

definition generate_message :: "js_engine \<Rightarrow> alert_rule \<Rightarrow> alert_event \<Rightarrow> string" where
  "generate_message js r ev =
     (let c = ar_condition r
      in join_with '' | ''
        ((case condition_field js c (ev_data ev) of None \<Rightarrow> [] | Some (f, v) \<Rightarrow> [f @ '': '' @ jval_text js v]) @
         (case (cd_operator c, cd_threshold c) of
            (Some oper, Some w) \<Rightarrow> if jval_truthy oper then [jval_text js oper @ '' '' @ jval_text js w] else []
          | _ \<Rightarrow> []) @
         (if truthy_str (ar_description r) then [the (ar_description r)] else [])))"

definition generate_fingerprint :: "js_engine \<Rightarrow> string \<Rightarrow> alert_event \<Rightarrow> string" where
  "generate_fingerprint js rid ev = take 16 (en_sha js (stable_stringify js
     (VObj [(''ruleId'', VText rid), (''eventType'', VText (ev_type ev)), (''data'', VObj (ev_data ev))])))"

definition new_alert :: "js_engine \<Rightarrow> string \<Rightarrow> alert_rule \<Rightarrow> alert_event \<Rightarrow> ms \<Rightarrow> alert" where
  "new_alert js i r ev now = \<lparr>at_id = i, at_ruleId = ar_id r, at_category = ar_category r, at_priority = ar_priority r,
     at_title = generate_title js r ev, at_message = generate_message js r ev, at_eventType = ev_type ev,
     at_eventData = ev_data ev, at_fingerprint = generate_fingerprint js (ar_id r) ev, at_status = AS_PENDING,
     at_triggeredAt = event_time ev now, at_createdAt = now, at_acknowledgedAt = None, at_resolvedAt = None\<rparr>"

definition send_notifications :: "bool \<Rightarrow> alert \<Rightarrow> alert_rule \<Rightarrow> alert_mail list" where
  "send_notifications queue a r =
     (let emails = map the (filter truthy_str (ar_recipients r))
      in if emails = [] \<or> \<not> queue then []
         else [\<lparr>am_to = emails, am_title = at_title a, am_body = at_message a, am_alertId = at_id a,
           am_high = (at_priority a = AP_CRITICAL)\<rparr>])"

definition create_alert :: "js_engine \<Rightarrow> bool \<Rightarrow> string \<Rightarrow> alert_rule \<Rightarrow> alert_event \<Rightarrow> ms \<Rightarrow> alert_world \<Rightarrow> alert \<times> alert_world" where
  "create_alert js queue i r ev now w =
     (let a = new_alert js i r ev now
      in (a, w\<lparr>al_alerts := al_alerts w @ [a], al_mails := al_mails w @ send_notifications queue a r\<rparr>))"

text \<open>A rule that throws is logged and skipped. \<open>ids\<close> gives the id of a new alert by its rule.\<close>

fun evaluate_rules :: "js_engine \<Rightarrow> bool \<Rightarrow> ms \<Rightarrow> (string \<Rightarrow> string) \<Rightarrow> alert_rule list \<Rightarrow> alert_event \<Rightarrow> ms \<Rightarrow>
    alert_world \<Rightarrow> alert_rule list \<times> alert_world" where
  "evaluate_rules js queue off ids [] ev now w = ([], w)"
| "evaluate_rules js queue off ids (r # rs) ev now w =
     (if should_trigger js off r ev now (al_alerts w) = Some True
      then (let (_, w1) = create_alert js queue (ids (ar_id r)) r ev now w;
                (ts, w2) = evaluate_rules js queue off ids rs ev now w1
            in (r # ts, w2))
      else evaluate_rules js queue off ids rs ev now w)"

definition evaluate_event :: "js_engine \<Rightarrow> bool \<Rightarrow> ms \<Rightarrow> (string \<Rightarrow> string) \<Rightarrow> alert_event \<Rightarrow> ms \<Rightarrow> alert_world \<Rightarrow>
    alert_rule list \<times> alert_world" where
  "evaluate_event js queue off ids ev now w = evaluate_rules js queue off ids
     (filter (\<lambda>r. ar_eventType r = ev_type ev \<and> ar_isActive r \<and> \<not> ar_isDeleted r) (al_rules w)) ev now w"

text \<open>The rule is read without its recipients.\<close>

definition trigger_manual_alert :: "js_engine \<Rightarrow> bool \<Rightarrow> string \<Rightarrow> string \<Rightarrow> (string \<times> jval) list \<Rightarrow> ms \<Rightarrow> alert_world \<Rightarrow>
    alert res \<times> alert_world" where
  "trigger_manual_alert js queue i rid data now w =
     (case find_by ar_id rid (al_rules w) of
        None \<Rightarrow> (Inl (InternalError ''Rule not found''), w)
      | Some r \<Rightarrow> (let (a, w1) = create_alert js queue i (r\<lparr>ar_recipients := []\<rparr>)
            \<lparr>ev_type = ar_eventType r, ev_data = data, ev_timestamp = Some now\<rparr> now w in (Inr a, w1)))"

subsection \<open>Rules\<close>

record rule_dto =
  rd_name :: string
  rd_description :: "string option"
  rd_category :: alert_category
  rd_priority :: alert_priority
  rd_eventType :: string
  rd_condition :: condition
  rd_activeHours :: "active_hours option"
  rd_cooldownMinutes :: "int option"
  rd_isActive :: "bool option"

definition create_rule :: "string \<Rightarrow> rule_dto \<Rightarrow> string \<Rightarrow> ms \<Rightarrow> alert_world \<Rightarrow> alert_rule \<times> alert_world" where
  "create_rule i d uid now w =
     (let r = \<lparr>ar_id = i, ar_name = rd_name d, ar_description = rd_description d, ar_category = rd_category d,
          ar_priority = rd_priority d, ar_eventType = rd_eventType d, ar_condition = rd_condition d,
          ar_activeHours = rd_activeHours d, ar_cooldownMinutes = (case rd_cooldownMinutes d of None \<Rightarrow> 15 | Some m \<Rightarrow> m),
          ar_isActive = (case rd_isActive d of None \<Rightarrow> True | Some b \<Rightarrow> b), ar_isDeleted = False, ar_createdBy = uid,
          ar_updatedBy = Some uid, ar_createdAt = now, ar_updatedAt = now, ar_recipients = []\<rparr>
      in (r, w\<lparr>al_rules := al_rules w @ [r]\<rparr>))"

definition find_all_rules :: "alert_category option \<Rightarrow> alert_priority option \<Rightarrow> bool option \<Rightarrow> alert_world \<Rightarrow> alert_rule list" where
  "find_all_rules cat pri act w = sort_by (\<lambda>a b. ar_createdAt b \<le> ar_createdAt a)
     (filter (\<lambda>r. (case cat of None \<Rightarrow> True | Some c \<Rightarrow> ar_category r = c) \<and> (case pri of None \<Rightarrow> True | Some p \<Rightarrow> ar_priority r = p) \<and>
        (case act of None \<Rightarrow> True | Some b \<Rightarrow> ar_isActive r = b)) (al_rules w))"

text \<open>The rule with its ten last alerts.\<close>

definition find_one_rule :: "string \<Rightarrow> alert_world \<Rightarrow> (alert_rule \<times> alert list) res" where
  "find_one_rule i w =
     (case find_by ar_id i (al_rules w) of
        None \<Rightarrow> Inl (NotFound ''Alert rule not found'')
      | Some r \<Rightarrow> Inr (r, take 10 (sort_by (\<lambda>a b. at_createdAt b \<le> at_createdAt a) (filter (\<lambda>a. at_ruleId a = i) (al_alerts w)))))"

text \<open>A field that may be \<open>null\<close> is doubly optional.\<close>

record rule_update =
  ru_name :: "string option"
  ru_description :: "string option option"
  ru_category :: "alert_category option"
  ru_priority :: "alert_priority option"
  ru_eventType :: "string option"
  ru_condition :: "condition option"
  ru_activeHours :: "active_hours option option"
  ru_cooldownMinutes :: "int option"
  ru_isActive :: "bool option"

definition apply_rule_update :: "rule_update \<Rightarrow> string \<Rightarrow> ms \<Rightarrow> alert_rule \<Rightarrow> alert_rule" where
  "apply_rule_update d uid now r = r\<lparr>ar_name := (if truthy_str (ru_name d) then the (ru_name d) else ar_name r),
     ar_description := (case ru_description d of None \<Rightarrow> ar_description r | Some x \<Rightarrow> x),
     ar_category := (case ru_category d of None \<Rightarrow> ar_category r | Some c \<Rightarrow> c),
     ar_priority := (case ru_priority d of None \<Rightarrow> ar_priority r | Some p \<Rightarrow> p),
     ar_eventType := (if truthy_str (ru_eventType d) then the (ru_eventType d) else ar_eventType r),
     ar_condition := (case ru_condition d of None \<Rightarrow> ar_condition r | Some c \<Rightarrow> c),
     ar_activeHours := (case ru_activeHours d of None \<Rightarrow> ar_activeHours r | Some h \<Rightarrow> h),
     ar_cooldownMinutes := (case ru_cooldownMinutes d of None \<Rightarrow> ar_cooldownMinutes r | Some m \<Rightarrow> m),
     ar_isActive := (case ru_isActive d of None \<Rightarrow> ar_isActive r | Some b \<Rightarrow> b),
     ar_updatedBy := Some uid, ar_updatedAt := now\<rparr>"

definition change_rule :: "string \<Rightarrow> (alert_rule \<Rightarrow> alert_rule) \<Rightarrow> alert_world \<Rightarrow> alert_rule res \<times> alert_world" where
  "change_rule i f w =
     (case find_one_rule i w of
        Inl e \<Rightarrow> (Inl e, w)
      | Inr (r, _) \<Rightarrow> (Inr (f r), w\<lparr>al_rules := update_by ar_id i f (al_rules w)\<rparr>))"

definition update_rule :: "string \<Rightarrow> rule_update \<Rightarrow> string \<Rightarrow> ms \<Rightarrow> alert_world \<Rightarrow> alert_rule res \<times> alert_world" where
  "update_rule i d uid now w = change_rule i (apply_rule_update d uid now) w"

definition toggle_active :: "string \<Rightarrow> string \<Rightarrow> ms \<Rightarrow> alert_world \<Rightarrow> alert_rule res \<times> alert_world" where
  "toggle_active i uid now w =
     change_rule i (\<lambda>r. r\<lparr>ar_isActive := \<not> ar_isActive r, ar_updatedBy := Some uid, ar_updatedAt := now\<rparr>) w"

text \<open>The foreign key of the alerts restricts the deletion.\<close>

definition remove_rule :: "string \<Rightarrow> alert_world \<Rightarrow> unit res \<times> alert_world" where
  "remove_rule i w =
     (case find_one_rule i w of
        Inl e \<Rightarrow> (Inl e, w)
      | Inr _ \<Rightarrow>
          if list_ex (\<lambda>a. at_ruleId a = i) (al_alerts w) then (Inl (InternalError ''P2003 foreign key''), w)
          else (Inr (), w\<lparr>al_rules := filter (\<lambda>r. ar_id r \<noteq> i) (al_rules w)\<rparr>))"

definition get_active_rules_by_category :: "alert_category \<Rightarrow> alert_world \<Rightarrow> alert_rule list" where
  "get_active_rules_by_category c w = filter (\<lambda>r. ar_category r = c \<and> ar_isActive r) (al_rules w)"

subsection \<open>History\<close>

text \<open>The order of an enumeration in the database is that of its declaration.\<close>

fun priority_rank :: "alert_priority \<Rightarrow> nat" where
  "priority_rank AP_CRITICAL = 0" | "priority_rank AP_HIGH = 1" | "priority_rank AP_MEDIUM = 2" | "priority_rank AP_LOW = 3"

definition later_alert :: "alert \<Rightarrow> alert \<Rightarrow> bool" where
  "later_alert a b \<longleftrightarrow> priority_rank (at_priority b) < priority_rank (at_priority a) \<or>
     priority_rank (at_priority a) = priority_rank (at_priority b) \<and> at_triggeredAt b \<le> at_triggeredAt a"

definition get_active_alerts :: "alert_world \<Rightarrow> alert list" where
  "get_active_alerts w = sort_by later_alert
     (filter (\<lambda>a. at_status a \<in> {AS_PENDING, AS_SENT, AS_ACKNOWLEDGED, AS_ESCALATED}) (al_alerts w))"

definition change_alert :: "string \<Rightarrow> (alert \<Rightarrow> alert) \<Rightarrow> alert_world \<Rightarrow> alert res \<times> alert_world" where
  "change_alert i f w =
     (case find_by at_id i (al_alerts w) of
        None \<Rightarrow> (Inl (InternalError ''P2025 record not found''), w)
      | Some a \<Rightarrow> (Inr (f a), w\<lparr>al_alerts := update_by at_id i f (al_alerts w)\<rparr>))"

definition acknowledge_alert :: "string \<Rightarrow> ms \<Rightarrow> alert_world \<Rightarrow> alert res \<times> alert_world" where
  "acknowledge_alert i now w = change_alert i (\<lambda>a. a\<lparr>at_status := AS_ACKNOWLEDGED, at_acknowledgedAt := Some now\<rparr>) w"

definition resolve_alert :: "string \<Rightarrow> ms \<Rightarrow> alert_world \<Rightarrow> alert res \<times> alert_world" where
  "resolve_alert i now w = change_alert i (\<lambda>a. a\<lparr>at_status := AS_RESOLVED, at_resolvedAt := Some now\<rparr>) w"

text \<open>\<open>setDate\<close> goes back whole days where no clock change intervenes.\<close>

definition stale_alert :: "ms \<Rightarrow> alert \<Rightarrow> bool" where
  "stale_alert now a \<longleftrightarrow> at_status a \<in> {AS_PENDING, AS_SENT, AS_ESCALATED} \<and> at_triggeredAt a < now - 7 * 86400000"

definition auto_resolve_stale_alerts :: "ms \<Rightarrow> alert_world \<Rightarrow> alert_world" where
  "auto_resolve_stale_alerts now w = w\<lparr>al_alerts :=
     update_where (stale_alert now) (\<lambda>a. a\<lparr>at_status := AS_RESOLVED, at_resolvedAt := Some now\<rparr>) (al_alerts w)\<rparr>"

record alert_statistics =
  sx_total :: nat
  sx_active :: nat
  sx_acknowledged :: nat
  sx_resolved :: nat
  sx_byPriority :: "(alert_priority \<times> nat) list"
  sx_byCategory :: "(alert_category \<times> nat) list"
  sx_avgResolution :: int

definition tally :: "'k list \<Rightarrow> ('k \<times> nat) list" where
  "tally ks = fold (\<lambda>k m. js_map_set k ((case map_of m k of None \<Rightarrow> 0 | Some n \<Rightarrow> n) + 1) m) ks []"

definition get_alert_statistics :: "int \<Rightarrow> ms \<Rightarrow> alert_world \<Rightarrow> alert_statistics" where
  "get_alert_statistics days now w =
     (let as = filter (\<lambda>a. now - days * 86400000 \<le> at_triggeredAt a) (al_alerts w);
          spans = map (\<lambda>a. the (at_resolvedAt a) - at_triggeredAt a) (filter (\<lambda>a. at_resolvedAt a \<noteq> None) as)
      in \<lparr>sx_total = length as,
          sx_active = length (filter (\<lambda>a. at_status a \<in> {AS_PENDING, AS_SENT, AS_ESCALATED}) as),
          sx_acknowledged = length (filter (\<lambda>a. at_status a = AS_ACKNOWLEDGED) as),
          sx_resolved = length (filter (\<lambda>a. at_status a = AS_RESOLVED) as),
          sx_byPriority = tally (map at_priority as), sx_byCategory = tally (map at_category as),
          sx_avgResolution = (if spans = [] then 0
            else \<lfloor>of_int (sum_list spans) / of_nat (length spans) / 1000 / 60 + (1 / 2 :: rat)\<rfloor>)\<rparr>)"

end
