(* ===== verification/Alert_Facts.thy ===== *)
theory Alert_Facts
  imports Alerts
begin

section \<open>What the alerts guarantee\<close>

text \<open>
  Which rules an event fires and what is stored, the spacing of the alerts of a rule, the life of an alert
  and the statistics, for the definitions of \<open>Alerts\<close>.
\<close>

subsection \<open>Cooldown\<close>

lemma last_alert_None: "last_alert rid as = None \<longleftrightarrow> (\<forall>a \<in> set as. at_ruleId a \<noteq> rid)"
proof -
  have "sort_by le xs = [] \<longleftrightarrow> xs = []" for le :: "alert \<Rightarrow> alert \<Rightarrow> bool" and xs
    by (metis length_0_conv length_sort_by)
  moreover have "last_alert rid as = None \<longleftrightarrow> sort_by (\<lambda>a b. at_createdAt b \<le> at_createdAt a) (filter (\<lambda>a. at_ruleId a = rid) as) = []"
    by (simp add: last_alert_def split: list.split)
  ultimately show ?thesis by (simp add: filter_empty_conv)
qed

lemma last_alert_Some:
  assumes "last_alert rid as = Some a"
  shows "a \<in> set as \<and> at_ruleId a = rid \<and> (\<forall>b \<in> set as. at_ruleId b = rid \<longrightarrow> at_createdAt b \<le> at_createdAt a)"
proof -
  obtain bs where s: "sort_by (\<lambda>a b. at_createdAt b \<le> at_createdAt a) (filter (\<lambda>a. at_ruleId a = rid) as) = a # bs"
    using assms by (auto simp: last_alert_def split: list.splits)
  have "a \<in> set (filter (\<lambda>a. at_ruleId a = rid) as) \<and>
      (\<forall>x \<in> set (filter (\<lambda>a. at_ruleId a = rid) as). at_createdAt x \<le> at_createdAt a)"
    by (rule sort_by_hd [OF _ _ s]) auto
  then show ?thesis by auto
qed

lemma in_cooldown_iff:
  "is_in_cooldown r now as \<longleftrightarrow> ar_cooldownMinutes r \<noteq> 0 \<and>
     (\<exists>a \<in> set as. at_ruleId a = ar_id r \<and> now < at_createdAt a + ar_cooldownMinutes r * 60000)"
proof (cases "last_alert (ar_id r) as")
  case None
  then show ?thesis using last_alert_None [of "ar_id r" as] by (auto simp: is_in_cooldown_def)
next
  case (Some a)
  note last_alert_Some [OF Some]
  then show ?thesis using Some by (auto simp: is_in_cooldown_def)
qed

lemma should_trigger_iff:
  "should_trigger js off r ev now as = Some True \<longleftrightarrow> check_condition js (ar_condition r) (ev_data ev) = Some True \<and>
     is_within_active_hours off (ar_activeHours r) (event_time ev now) \<and>
     (ar_cooldownMinutes r = 0 \<or> (\<forall>a \<in> set as. at_ruleId a = ar_id r \<longrightarrow> at_createdAt a + ar_cooldownMinutes r * 60000 \<le> now))"
  by (auto simp: should_trigger_def in_cooldown_iff split: option.splits)

subsection \<open>Evaluation\<close>

definition fires :: "js_engine \<Rightarrow> ms \<Rightarrow> alert_event \<Rightarrow> ms \<Rightarrow> alert list \<Rightarrow> alert_rule \<Rightarrow> bool" where
  "fires js off ev now as r \<longleftrightarrow> should_trigger js off r ev now as = Some True"

lemma fires_other: "at_ruleId a \<noteq> ar_id r \<Longrightarrow> fires js off ev now (as @ [a]) r = fires js off ev now as r"
  by (auto simp: fires_def should_trigger_iff)

lemma new_alert_simps [simp]: "at_ruleId (new_alert js i r ev now) = ar_id r" "at_createdAt (new_alert js i r ev now) = now"
  by (simp_all add: new_alert_def)

lemma evaluate_rules_eq:
  assumes "distinct (map ar_id rs)"
  shows "evaluate_rules js queue off ids rs ev now w =
    (let fired = filter (fires js off ev now (al_alerts w)) rs; mk = (\<lambda>r. new_alert js (ids (ar_id r)) r ev now)
     in (fired, w\<lparr>al_alerts := al_alerts w @ map mk fired, al_mails := al_mails w @ concat (map (\<lambda>r. send_notifications queue (mk r) r) fired)\<rparr>))"
  using assms
proof (induction rs arbitrary: w)
  case (Cons r rs)
  let ?a = "new_alert js (ids (ar_id r)) r ev now"
  have same: "filter (fires js off ev now (al_alerts w @ [?a])) rs = filter (fires js off ev now (al_alerts w)) rs"
  proof (rule filter_cong)
    fix x
    assume "x \<in> set rs"
    then show "fires js off ev now (al_alerts w @ [?a]) x = fires js off ev now (al_alerts w) x"
      using Cons.prems by (intro fires_other) force
  qed simp
  show ?case
  proof (cases "fires js off ev now (al_alerts w) r")
    case True
    then show ?thesis using Cons.IH [of "snd (create_alert js queue (ids (ar_id r)) r ev now w)"] Cons.prems same
      by (simp add: create_alert_def Let_def fires_def [symmetric])
  next
    case False
    then show ?thesis using Cons.IH [of w] Cons.prems by (simp add: fires_def [symmetric])
  qed
qed simp

text \<open>C29. An event fires exactly the active rules of its type whose condition holds, whose hours include the
  time and whose last alert is a cooldown ago; a rule that throws fires not and disturbs no other. Each
  rule that fires gets one new pending alert and, with a queue and a recipient, one mail; nothing else
  changes.\<close>

theorem evaluate_event_exact:
  assumes "distinct (map ar_id (al_rules w))"
  shows "\<exists>fired. evaluate_event js queue off ids ev now w =
      (fired, w\<lparr>al_alerts := al_alerts w @ map (\<lambda>r. new_alert js (ids (ar_id r)) r ev now) fired,
        al_mails := al_mails w @ concat (map (\<lambda>r. send_notifications queue (new_alert js (ids (ar_id r)) r ev now) r) fired)\<rparr>) \<and>
    distinct fired \<and>
    set fired = {r \<in> set (al_rules w). ar_eventType r = ev_type ev \<and> ar_isActive r \<and> \<not> ar_isDeleted r \<and>
      check_condition js (ar_condition r) (ev_data ev) = Some True \<and>
      is_within_active_hours off (ar_activeHours r) (event_time ev now) \<and>
      (ar_cooldownMinutes r = 0 \<or>
        (\<forall>a \<in> set (al_alerts w). at_ruleId a = ar_id r \<longrightarrow> at_createdAt a + ar_cooldownMinutes r * 60000 \<le> now))}"
proof -
  let ?rs = "filter (\<lambda>r. ar_eventType r = ev_type ev \<and> ar_isActive r \<and> \<not> ar_isDeleted r) (al_rules w)"
  have "distinct (map ar_id ?rs)" "distinct (al_rules w)" using assms by (rule distinct_map_filter, simp add: distinct_map)
  then show ?thesis
    by (intro exI [of _ "filter (fires js off ev now (al_alerts w)) ?rs"])
      (auto simp: evaluate_event_def evaluate_rules_eq Let_def fires_def should_trigger_iff distinct_map)
qed

subsection \<open>Spacing\<close>

definition spaced :: "int \<Rightarrow> ms list \<Rightarrow> bool" where
  "spaced d ts \<longleftrightarrow> sorted_wrt (\<lambda>a b. a + d \<le> b) ts"

lemma spaced_span:
  assumes "spaced d ts" "0 < d" "ts \<noteq> []"
  shows "hd ts + int (length ts - 1) * d \<le> last ts"
  using assms
proof (induction ts)
  case (Cons t ts)
  show ?case
  proof (cases ts)
    case (Cons u us)
    then have "t + d \<le> u" "spaced d ts" using Cons.prems by (auto simp: spaced_def)
    then show ?thesis using Cons.IH Cons.prems Cons by (auto simp: algebra_simps)
  qed simp
qed simp

lemma spaced_window:
  assumes "spaced d ts" "0 < d" "0 \<le> width"
  shows "int (length (filter (\<lambda>t. from \<le> t \<and> t < from + width) ts)) * d < width + d"
proof -
  let ?us = "filter (\<lambda>t. from \<le> t \<and> t < from + width) ts"
  have s: "spaced d ?us" using assms(1) by (simp add: spaced_def sorted_wrt_filter)
  show ?thesis
  proof (cases "?us = []")
    case False
    have u: "\<forall>t \<in> set ?us. from \<le> t \<and> t < from + width" by simp
    then have "from \<le> hd ?us" using hd_in_set [OF False] by blast
    moreover have "last ?us < from + width" using u last_in_set [OF False] by blast
    ultimately have l: "int (length ?us - 1) * d < width" using spaced_span [OF s assms(2) False] by linarith
    have "length ?us \<noteq> 0" using False by (simp only: length_0_conv not_False_eq_True)
    then have "int (length ?us) = int (length ?us - 1) + 1" by linarith
    then have "int (length ?us) * d = int (length ?us - 1) * d + d" by (simp only: distrib_right mult_1)
    with l show ?thesis by linarith
  qed (use assms in simp)
qed

definition alert_times :: "string \<Rightarrow> alert_world \<Rightarrow> ms list" where
  "alert_times rid w = map at_createdAt (filter (\<lambda>a. at_ruleId a = rid) (al_alerts w))"

datatype alert_op =
    Evaluate alert_event "string \<Rightarrow> string"
  | Manual string string "(string \<times> jval) list"
  | Acknowledge string
  | Resolve string
  | AutoResolve
  | Toggle string string
  | Create_Rule string rule_dto string
  | Update_Rule string rule_update string
  | Remove_Rule string

fun alert_op_step :: "js_engine \<Rightarrow> bool \<Rightarrow> ms \<Rightarrow> ms \<times> alert_op \<Rightarrow> alert_world \<Rightarrow> alert_world" where
  "alert_op_step js queue off (now, Evaluate ev ids) w = snd (evaluate_event js queue off ids ev now w)"
| "alert_op_step js queue off (now, Manual i rid data) w = snd (trigger_manual_alert js queue i rid data now w)"
| "alert_op_step js queue off (now, Acknowledge i) w = snd (acknowledge_alert i now w)"
| "alert_op_step js queue off (now, Resolve i) w = snd (resolve_alert i now w)"
| "alert_op_step js queue off (now, AutoResolve) w = auto_resolve_stale_alerts now w"
| "alert_op_step js queue off (now, Toggle i uid) w = snd (toggle_active i uid now w)"
| "alert_op_step js queue off (now, Create_Rule i d uid) w = snd (create_rule i d uid now w)"
| "alert_op_step js queue off (now, Update_Rule i d uid) w = snd (update_rule i d uid now w)"
| "alert_op_step js queue off (now, Remove_Rule i) w = snd (remove_rule i w)"

text \<open>The ids of the rules that the operations create, and the updates that leave the rule a cooldown of
  \<open>m\<close> minutes at least.\<close>

fun created_rule :: "alert_op \<Rightarrow> string list" where
  "created_rule (Create_Rule i d uid) = [i]"
| "created_rule op' = []"

fun keeps_cooldown :: "string \<Rightarrow> int \<Rightarrow> alert_op \<Rightarrow> bool" where
  "keeps_cooldown rid m (Update_Rule i d uid) = (case ru_cooldownMinutes d of None \<Rightarrow> True | Some c \<Rightarrow> i = rid \<longrightarrow> m \<le> c)"
| "keeps_cooldown rid m op' = True"

text \<open>The times at which the rule \<open>rid\<close> fires, marked \<open>True\<close>, and those at which an administrator triggers it.\<close>

fun op_log :: "js_engine \<Rightarrow> bool \<Rightarrow> ms \<Rightarrow> string \<Rightarrow> ms \<times> alert_op \<Rightarrow> alert_world \<Rightarrow> (ms \<times> bool) list" where
  "op_log js queue off rid (now, Evaluate ev ids) w =
     map (\<lambda>_. (now, True)) (filter (\<lambda>r. ar_id r = rid) (fst (evaluate_event js queue off ids ev now w)))"
| "op_log js queue off rid (now, Manual i k data) w =
     (if k = rid \<and> \<not> isl (fst (trigger_manual_alert js queue i k data now w)) then [(now, False)] else [])"
| "op_log js queue off rid (now, op') w = []"

fun rule_log :: "js_engine \<Rightarrow> bool \<Rightarrow> ms \<Rightarrow> string \<Rightarrow> (ms \<times> alert_op) list \<Rightarrow> alert_world \<Rightarrow> (ms \<times> bool) list" where
  "rule_log js queue off rid [] w = []"
| "rule_log js queue off rid (x # ops) w = op_log js queue off rid x w @ rule_log js queue off rid ops (alert_op_step js queue off x w)"

lemma filter_update_where:
  assumes "\<And>r. q (f r) = q r" "\<And>r. g (f r) = g r"
  shows "map g (filter q (update_where p f rows)) = map g (filter q rows)"
  using assms by (induction rows) auto

lemma change_alert_times:
  assumes "\<And>a. at_ruleId (f a) = at_ruleId a" "\<And>a. at_createdAt (f a) = at_createdAt a"
  shows "alert_times rid (snd (change_alert i f w)) = alert_times rid w" "al_rules (snd (change_alert i f w)) = al_rules w"
  using assms by (auto simp: change_alert_def alert_times_def update_by_def filter_update_where split: option.split)

text \<open>The rule \<open>rid\<close> has a cooldown of \<open>m\<close> minutes at least, and no two rules share an id.\<close>

definition rules_wait :: "string \<Rightarrow> int \<Rightarrow> alert_world \<Rightarrow> bool" where
  "rules_wait rid m w \<longleftrightarrow> distinct (map ar_id (al_rules w)) \<and> (\<forall>r \<in> set (al_rules w). ar_id r = rid \<longrightarrow> m \<le> ar_cooldownMinutes r)"

definition waits :: "int \<Rightarrow> ms \<times> bool \<Rightarrow> ms \<times> bool \<Rightarrow> bool" where
  "waits m a b \<longleftrightarrow> (snd b \<longrightarrow> fst a + m * 60000 \<le> fst b)"

lemma evaluate_log:
  assumes "rules_wait rid m w" "0 < m"
  shows "alert_times rid (snd (evaluate_event js queue off ids ev now w)) =
      alert_times rid w @ map fst (op_log js queue off rid (now, Evaluate ev ids) w) \<and>
    sorted_wrt (waits m) (op_log js queue off rid (now, Evaluate ev ids) w) \<and>
    (\<forall>s \<in> set (alert_times rid w). \<forall>b \<in> set (op_log js queue off rid (now, Evaluate ev ids) w). s + m * 60000 \<le> fst b) \<and>
    al_rules (snd (evaluate_event js queue off ids ev now w)) = al_rules w"
proof -
  have ids: "distinct (map ar_id (al_rules w))" using assms(1) by (simp add: rules_wait_def)
  obtain fired where e: "evaluate_event js queue off ids ev now w = (fired, w\<lparr>al_alerts := al_alerts w @ map (\<lambda>r. new_alert js (ids (ar_id r)) r ev now) fired,
        al_mails := al_mails w @ concat (map (\<lambda>r. send_notifications queue (new_alert js (ids (ar_id r)) r ev now) r) fired)\<rparr>)"
    and d: "distinct fired" and f: "\<forall>r \<in> set fired. r \<in> set (al_rules w) \<and> (ar_cooldownMinutes r = 0 \<or>
      (\<forall>a \<in> set (al_alerts w). at_ruleId a = ar_id r \<longrightarrow> at_createdAt a + ar_cooldownMinutes r * 60000 \<le> now))"
    using evaluate_event_exact [OF ids, of js queue off ids ev now] by auto
  let ?mine = "filter (\<lambda>r. ar_id r = rid) fired"
  have i: "inj_on ar_id (set fired)" using ids f by (auto simp: distinct_map inj_on_def)
  have short: "?mine = [] \<or> (\<exists>r. ?mine = [r])"
  proof (cases ?mine)
    case (Cons r rs)
    have "distinct (map ar_id ?mine)" using d i by (simp add: distinct_map inj_on_subset)
    moreover have "set (map ar_id ?mine) \<subseteq> {rid}" by auto
    ultimately show ?thesis using Cons by (cases rs) auto
  qed simp
  have "t + m * 60000 \<le> now" if "r \<in> set fired" "ar_id r = rid" "t \<in> set (alert_times rid w)" for r t
  proof -
    have c: "m \<le> ar_cooldownMinutes r" using f that assms(1) by (auto simp: rules_wait_def)
    then have "t + ar_cooldownMinutes r * 60000 \<le> now" using f that assms(2) by (force simp: alert_times_def)
    with c show ?thesis by linarith
  qed
  then show ?thesis using short by (auto simp: e alert_times_def filter_map o_def)
qed

lemma step_log:
  assumes "rules_wait rid m w" "0 < m"
  shows "alert_times rid (alert_op_step js queue off x w) = alert_times rid w @ map fst (op_log js queue off rid x w) \<and>
    sorted_wrt (waits m) (op_log js queue off rid x w) \<and>
    (\<forall>s \<in> set (alert_times rid w). \<forall>b \<in> set (op_log js queue off rid x w). waits m (s, False) b)"
proof -
  obtain now op' where x: "x = (now, op')" by (cases x)
  show ?thesis
  proof (cases op')
    case (Evaluate ev ids)
    with evaluate_log [OF assms, of js queue off ids ev now] show ?thesis by (simp add: x waits_def)
  next
    case (Manual i k data)
    then show ?thesis
      by (auto simp: x trigger_manual_alert_def create_alert_def Let_def alert_times_def waits_def dest: find_by_SomeD split: option.split)
  next
    case (Acknowledge i)
    then show ?thesis by (simp add: x acknowledge_alert_def change_alert_times)
  next
    case (Resolve i)
    then show ?thesis by (simp add: x resolve_alert_def change_alert_times)
  qed (auto simp: x auto_resolve_stale_alerts_def filter_update_where
      toggle_active_def update_rule_def create_rule_def remove_rule_def change_rule_def Let_def alert_times_def split: sum.split)
qed

lemma change_rule_waits:
  assumes "rules_wait rid m w" "\<And>r. ar_id (f r) = ar_id r"
    and "\<And>r. i = rid \<Longrightarrow> m \<le> ar_cooldownMinutes r \<Longrightarrow> m \<le> ar_cooldownMinutes (f r)"
  shows "rules_wait rid m (snd (change_rule i f w))" "map ar_id (al_rules (snd (change_rule i f w))) = map ar_id (al_rules w)"
proof -
  have "ar_id x = i \<Longrightarrow> ar_id x = rid \<Longrightarrow> m \<le> ar_cooldownMinutes x \<Longrightarrow> m \<le> ar_cooldownMinutes (f x)" for x
    using assms(3) by blast
  then show "rules_wait rid m (snd (change_rule i f w))" "map ar_id (al_rules (snd (change_rule i f w))) = map ar_id (al_rules w)"
    using assms(1,2) by (auto simp: change_rule_def rules_wait_def update_by_def set_update_where keys_update_where split: sum.split)
qed

lemma step_rules:
  assumes "rules_wait rid m w" "0 < m" "keeps_cooldown rid m op'"
    and "rid \<notin> set (created_rule op')" "set (created_rule op') \<inter> set (map ar_id (al_rules w)) = {}"
  shows "rules_wait rid m (alert_op_step js queue off (now, op') w) \<and>
    set (map ar_id (al_rules (alert_op_step js queue off (now, op') w))) \<subseteq> set (map ar_id (al_rules w)) \<union> set (created_rule op')"
proof (cases op')
  case (Evaluate ev ids)
  with evaluate_log [OF assms(1,2), of js queue off ids ev now] assms(1) show ?thesis by (simp add: rules_wait_def)
next
  case (Toggle i uid)
  show ?thesis using change_rule_waits [OF assms(1), of "\<lambda>r. r\<lparr>ar_isActive := \<not> ar_isActive r, ar_updatedBy := Some uid, ar_updatedAt := now\<rparr>" i]
    by (auto simp: Toggle toggle_active_def simp flip: set_map)
next
  case (Update_Rule i d uid)
  have "rules_wait rid m (snd (update_rule i d uid now w))" "map ar_id (al_rules (snd (update_rule i d uid now w))) = map ar_id (al_rules w)"
    unfolding update_rule_def
    using change_rule_waits [OF assms(1), of "apply_rule_update d uid now" i] assms(3) Update_Rule
    by (auto simp: apply_rule_update_def split: option.splits)
  then show ?thesis by (auto simp: Update_Rule simp flip: set_map)
next
  case (Create_Rule i d uid)
  with assms show ?thesis by (auto simp: create_rule_def Let_def rules_wait_def)
next
  case (Remove_Rule i)
  have "distinct (map ar_id (filter (\<lambda>r. ar_id r \<noteq> i) (al_rules w)))" using assms(1) by (simp add: rules_wait_def distinct_map_filter)
  with assms(1) show ?thesis by (auto simp: Remove_Rule remove_rule_def rules_wait_def split: sum.split)
next
  case (Manual i k data)
  with assms(1) show ?thesis by (auto simp: trigger_manual_alert_def create_alert_def Let_def rules_wait_def split: option.split)
next
  case (Acknowledge i)
  with assms(1) show ?thesis by (simp add: acknowledge_alert_def change_alert_times rules_wait_def)
next
  case (Resolve i)
  with assms(1) show ?thesis by (simp add: resolve_alert_def change_alert_times rules_wait_def)
next
  case AutoResolve
  with assms(1) show ?thesis by (simp add: auto_resolve_stale_alerts_def rules_wait_def)
qed

lemma run_log:
  assumes "rules_wait rid m w" "0 < m" "\<forall>x \<in> set ops. keeps_cooldown rid m (snd x)"
    and "distinct (concat (map (created_rule \<circ> snd) ops))" "rid \<notin> set (concat (map (created_rule \<circ> snd) ops))"
    and "set (concat (map (created_rule \<circ> snd) ops)) \<inter> set (map ar_id (al_rules w)) = {}"
  shows "alert_times rid (fold (alert_op_step js queue off) ops w) = alert_times rid w @ map fst (rule_log js queue off rid ops w) \<and>
    sorted_wrt (waits m) (rule_log js queue off rid ops w) \<and>
    (\<forall>s \<in> set (alert_times rid w). \<forall>b \<in> set (rule_log js queue off rid ops w). waits m (s, False) b)"
  using assms
proof (induction ops arbitrary: w)
  case (Cons x ops)
  let ?w = "alert_op_step js queue off x w"
  note s = step_log [OF Cons.prems(1,2), of js queue off x]
  have r: "rules_wait rid m ?w \<and> set (map ar_id (al_rules ?w)) \<subseteq> set (map ar_id (al_rules w)) \<union> set (created_rule (snd x))"
    using step_rules [OF Cons.prems(1,2), of "snd x" js queue off "fst x"] Cons.prems by auto
  note IH = Cons.IH [of ?w, OF conjunct1 [OF r] Cons.prems(2)]
  have "set (concat (map (created_rule \<circ> snd) ops)) \<inter> set (map ar_id (al_rules ?w)) = {}"
  proof -
    let ?A = "set (concat (map (created_rule \<circ> snd) ops))"
    have "set (created_rule (snd x)) \<inter> ?A = {}" "?A \<inter> set (map ar_id (al_rules w)) = {}"
      using Cons.prems(4,6) by auto
    with conjunct2 [OF r] show ?thesis by blast
  qed
  with IH Cons.prems(3-5) have IH': "alert_times rid (fold (alert_op_step js queue off) ops ?w) = alert_times rid ?w @ map fst (rule_log js queue off rid ops ?w) \<and>
    sorted_wrt (waits m) (rule_log js queue off rid ops ?w) \<and>
    (\<forall>s \<in> set (alert_times rid ?w). \<forall>b \<in> set (rule_log js queue off rid ops ?w). waits m (s, False) b)" by simp
  have "waits m a b" if "a \<in> set (op_log js queue off rid x w)" "b \<in> set (rule_log js queue off rid ops ?w)" for a b
  proof -
    have "fst a \<in> set (alert_times rid ?w)" using s that(1) by auto
    with IH' that(2) have "waits m (fst a, False) b" by blast
    then show ?thesis by (simp add: waits_def)
  qed
  with s IH' show ?case by (auto simp: sorted_wrt_append)
qed simp

text \<open>C30. A rule with a cooldown of \<open>m\<close> minutes that no update shortens: over events one after another,
  manual alerts, acknowledgements, resolutions, the nightly job and the creation, change, switching and
  removal of rules, in any order and at any times, every firing of the rule by an event comes at least \<open>m\<close>
  minutes after each alert the rule had before it, manual ones included, so that no period of \<open>width\<close>
  milliseconds has more than \<open>width / (60000 m)\<close> firings, rounded up. The alerts of the rule are those it had,
  one for each firing and one for each manual trigger; a manual trigger ignores the cooldown.\<close>

theorem alert_rate_bound:
  assumes "distinct (concat (map (created_rule \<circ> snd) ops) @ map ar_id (al_rules w))" "find_by ar_id rid (al_rules w) = Some r"
    and "0 < m" "m \<le> ar_cooldownMinutes r" "\<forall>x \<in> set ops. keeps_cooldown rid m (snd x)" "0 \<le> width"
  shows "let log = rule_log js queue off rid ops w; w' = fold (alert_op_step js queue off) ops w in
    alert_times rid w' = alert_times rid w @ map fst log \<and>
    sorted_wrt (\<lambda>(s, _) (t, by_event). by_event \<longrightarrow> s + m * 60000 \<le> t) (map (\<lambda>t. (t, False)) (alert_times rid w) @ log) \<and>
    int (length (filter (\<lambda>(t, by_event). by_event \<and> from \<le> t \<and> t < from + width) log)) * (m * 60000) < width + m * 60000"
proof -
  define log where "log = rule_log js queue off rid ops w"
  have w: "rules_wait rid m w" using find_by_SomeD [OF assms(2)] assms(1,4) by (auto simp: rules_wait_def distinct_map inj_on_def)
  have rid: "rid \<in> set (map ar_id (al_rules w))" using find_by_SomeD [OF assms(2)] by auto
  have "rid \<notin> set (concat (map (created_rule \<circ> snd) ops))" "set (concat (map (created_rule \<circ> snd) ops)) \<inter> set (map ar_id (al_rules w)) = {}"
    "distinct (concat (map (created_rule \<circ> snd) ops))" using assms(1) rid unfolding distinct_append by blast+
  note l = run_log [OF w assms(3,5) this(3,1,2), of js queue off, folded log_def]
  have waits_eq: "waits m = (\<lambda>(s, _) (t, by_event). by_event \<longrightarrow> s + m * 60000 \<le> t)" by (auto simp: waits_def fun_eq_iff)
  have free: "sorted_wrt (waits m) (map (\<lambda>t. (t, False)) ts)" for ts by (simp add: sorted_wrt_map waits_def sorted_wrt_iff_nth_less)
  have "sorted_wrt (waits m) (map (\<lambda>t. (t, False)) (alert_times rid w) @ log)"
    using l free by (simp add: sorted_wrt_append)
  moreover have "int (length (filter (\<lambda>(t, by_event). by_event \<and> from \<le> t \<and> t < from + width) log)) * (m * 60000) < width + m * 60000"
  proof -
    let ?fired = "map fst (filter snd log)"
    have "sorted_wrt (waits m) (filter snd log)" using l by (simp add: sorted_wrt_filter)
    then have "spaced (m * 60000) ?fired" unfolding spaced_def sorted_wrt_map
      by (rule sorted_wrt_mono_rel [rotated]) (auto simp: waits_def)
    from spaced_window [OF this _ assms(6), of "from"] assms(3) show ?thesis
      by (simp add: filter_map comp_def case_prod_unfold conj_commute conj_left_commute)
  qed
  ultimately show ?thesis using l by (simp add: waits_eq log_def Let_def)
qed

subsection \<open>Hours\<close>

text \<open>Hours that run over midnight include no time at all.\<close>

theorem overnight_never_active:
  assumes "ar_activeHours r = Some h" "ah_start h = Some s" "ah_end h = Some e" "e < s" "e \<noteq> []"
  shows "should_trigger js off r ev now as \<noteq> Some True"
proof -
  have "\<not> (s \<le> c \<and> c \<le> e)" for c using assms(4) by (meson less_le_not_le order_trans)
  moreover have "s \<noteq> []" using assms(4) by auto
  ultimately have "\<not> is_within_active_hours off (ar_activeHours r) t" for t
    using assms by (simp add: is_within_active_hours_def truthy_str_def)
  then show ?thesis by (simp add: should_trigger_iff)
qed

subsection \<open>Fingerprints\<close>

text \<open>The fingerprint of an alert does not depend on how the data of its event is written: the same values
  under the same keys, in another order at any depth, give the same fingerprint.\<close>

theorem fingerprint_stable:
  assumes "same_value (VObj (ev_data ev)) (VObj (ev_data ev'))" "ev_type ev = ev_type ev'"
  shows "generate_fingerprint js rid ev = generate_fingerprint js rid ev'"
proof -
  let ?p = "\<lambda>ev. VObj [(''ruleId'', VText rid), (''eventType'', VText (ev_type ev)), (''data'', VObj (ev_data ev))]"
  have "same_value (?p ev) (?p ev')"
    by (rule same_obj [of _ "[(''ruleId'', VText rid), (''eventType'', VText (ev_type ev)), (''data'', VObj (ev_data ev'))]"])
      (use assms in \<open>auto intro: same_refl\<close>)
  then show ?thesis by (simp add: generate_fingerprint_def stable_stringify_same)
qed

subsection \<open>The life of an alert\<close>

text \<open>The nightly job resolves exactly the alerts that are pending, sent or escalated and older than seven
  days; afterwards an older alert is acknowledged, resolved, snoozed or cancelled, and a second run at the
  same time changes nothing.\<close>

theorem auto_resolve_exact:
  "let w' = auto_resolve_stale_alerts now w in
    length (al_alerts w') = length (al_alerts w) \<and>
    (\<forall>k < length (al_alerts w). al_alerts w' ! k = (if stale_alert now (al_alerts w ! k)
       then (al_alerts w ! k)\<lparr>at_status := AS_RESOLVED, at_resolvedAt := Some now\<rparr> else al_alerts w ! k)) \<and>
    (\<forall>a \<in> set (al_alerts w'). at_triggeredAt a < now - 604800000 \<longrightarrow>
       at_status a \<in> {AS_ACKNOWLEDGED, AS_RESOLVED, AS_SNOOZED, AS_CANCELLED}) \<and>
    auto_resolve_stale_alerts now w' = w' \<and> al_rules w' = al_rules w \<and> al_mails w' = al_mails w"
proof -
  define w' where "w' = auto_resolve_stale_alerts now w"
  let ?f = "\<lambda>a. a\<lparr>at_status := AS_RESOLVED, at_resolvedAt := Some now\<rparr>"
  have idem: "update_where (stale_alert now) ?f (update_where (stale_alert now) ?f as) = update_where (stale_alert now) ?f as" for as
    by (induction as) (auto simp: stale_alert_def)
  have "at_status a \<in> {AS_ACKNOWLEDGED, AS_RESOLVED, AS_SNOOZED, AS_CANCELLED}"
    if "a \<in> set (al_alerts w')" "at_triggeredAt a < now - 604800000" for a
  proof -
    have "a \<in> (\<lambda>b. if stale_alert now b then ?f b else b) ` set (al_alerts w)"
      using that(1) by (simp add: w'_def auto_resolve_stale_alerts_def set_update_where)
    then obtain b where b: "a = (if stale_alert now b then ?f b else b)" by (rule imageE)
    show ?thesis
    proof (cases "stale_alert now b")
      case False
      with b that(2) show ?thesis by (cases "at_status b") (auto simp: stale_alert_def)
    qed (simp add: b)
  qed
  then show ?thesis unfolding Let_def w'_def [symmetric]
    by (simp add: w'_def auto_resolve_stale_alerts_def idem) (simp add: update_where_def)
qed

text \<open>A resolved alert that is acknowledged is active again.\<close>

lemma acknowledge_reopens:
  assumes "find_by at_id i (al_alerts w) = Some a" "at_status a = AS_RESOLVED"
  shows "\<exists>b w'. acknowledge_alert i now w = (Inr b, w') \<and> b \<in> set (get_active_alerts w') \<and> at_resolvedAt b = at_resolvedAt a"
proof -
  let ?f = "\<lambda>a. a\<lparr>at_status := AS_ACKNOWLEDGED, at_acknowledgedAt := Some now\<rparr>"
  have "?f a \<in> set (update_by at_id i ?f (al_alerts w))"
    using find_by_SomeD [OF assms(1)] by (force simp: update_by_def set_update_where)
  then show ?thesis by (simp add: acknowledge_alert_def change_alert_def assms(1) get_active_alerts_def)
qed

text \<open>The list of active alerts begins with the least urgent.\<close>

lemma low_priority_first:
  assumes "get_active_alerts w = a # as" "b \<in> set (get_active_alerts w)"
  shows "priority_rank (at_priority b) \<le> priority_rank (at_priority a)"
proof -
  have "\<forall>x \<in> set (filter (\<lambda>a. at_status a \<in> {AS_PENDING, AS_SENT, AS_ACKNOWLEDGED, AS_ESCALATED}) (al_alerts w)). later_alert a x"
    using sort_by_hd [of later_alert, OF _ _ assms(1) [unfolded get_active_alerts_def]] by (force simp: later_alert_def)
  then show ?thesis using assms(2) by (auto simp: get_active_alerts_def later_alert_def)
qed

lemma remove_rule_with_alerts:
  "\<exists>a \<in> set (al_alerts w). at_ruleId a = i \<Longrightarrow> isl (fst (remove_rule i w)) \<and> snd (remove_rule i w) = w"
  by (auto simp: remove_rule_def list_ex_iff split: sum.split)

subsection \<open>Statistics\<close>

lemma tally_sum_aux: "sum_list (map snd (fold (\<lambda>k m. js_map_set k (Suc (case map_of m k of None \<Rightarrow> 0 | Some n \<Rightarrow> n)) m) ks m)) =
    length ks + sum_list (map snd m)"
proof (induction ks arbitrary: m)
  case (Cons k ks)
  have "sum_list (map snd (js_map_set k (Suc (case map_of m k of None \<Rightarrow> 0 | Some n \<Rightarrow> n)) m)) = Suc (sum_list (map snd m))" for m
    by (induction m) auto
  then show ?case by (simp add: Cons.IH)
qed simp

lemma tally_sum: "sum_list (map snd (tally ks)) = length ks"
  using tally_sum_aux [of ks "[]"] by (simp add: tally_def)

text \<open>The statistics add up: the counts by priority and by category have the total as their sum, and the
  total is the active, acknowledged and resolved alerts and those that are snoozed or cancelled.\<close>

theorem alert_statistics_partition:
  "let as = filter (\<lambda>a. now - days * 86400000 \<le> at_triggeredAt a) (al_alerts w) in
    sx_total (get_alert_statistics days now w) = length as \<and>
    sum_list (map snd (sx_byPriority (get_alert_statistics days now w))) = length as \<and>
    sum_list (map snd (sx_byCategory (get_alert_statistics days now w))) = length as \<and>
    length as = sx_active (get_alert_statistics days now w) + sx_acknowledged (get_alert_statistics days now w) +
      sx_resolved (get_alert_statistics days now w) + length (filter (\<lambda>a. at_status a \<in> {AS_SNOOZED, AS_CANCELLED}) as)"
proof -
  have "length xs = length (filter (\<lambda>a. at_status a \<in> {AS_PENDING, AS_SENT, AS_ESCALATED}) xs) +
      length (filter (\<lambda>a. at_status a = AS_ACKNOWLEDGED) xs) + length (filter (\<lambda>a. at_status a = AS_RESOLVED) xs) +
      length (filter (\<lambda>a. at_status a \<in> {AS_SNOOZED, AS_CANCELLED}) xs)" for xs
  proof (induction xs)
    case (Cons a xs)
    then show ?case by (cases "at_status a") auto
  qed simp
  from this [of "filter (\<lambda>a. now - days * 86400000 \<le> at_triggeredAt a) (al_alerts w)"]
  show ?thesis by (simp add: get_alert_statistics_def Let_def tally_sum)
qed

text \<open>Witnesses.\<close>

definition demo_engine :: js_engine where
  "demo_engine = \<lparr>en_num = (\<lambda>_. ''1''), en_number = (\<lambda>_. NaN), en_regex = (\<lambda>_. None), en_sha = (\<lambda>s. s)\<rparr>"

definition demo_rule :: alert_rule where
  "demo_rule = \<lparr>ar_id = ''r'', ar_name = ''hot'', ar_description = None, ar_category = AC_SENSOR, ar_priority = AP_HIGH,
     ar_eventType = ''sensor'', ar_condition = \<lparr>cd_field = Some (VText ''t''), cd_operator = Some (VText ''GT''), cd_threshold = Some (VNum 30), cd_value = None,
       cd_values = None, cd_min = None, cd_max = None\<rparr>, ar_activeHours = None, ar_cooldownMinutes = 15, ar_isActive = True,
     ar_isDeleted = False, ar_createdBy = ''u'', ar_updatedBy = None, ar_createdAt = 0, ar_updatedAt = 0, ar_recipients = [Some ''m'']\<rparr>"

definition demo_alerts :: alert_world where
  "demo_alerts = \<lparr>al_rules = [demo_rule], al_alerts = [], al_mails = []\<rparr>"

definition demo_reading :: "rat \<Rightarrow> alert_event" where
  "demo_reading q = \<lparr>ev_type = ''sensor'', ev_data = [(''t'', VNum q), (''u'', VNull)], ev_timestamp = None\<rparr>"

lemma demo_condition: "check_condition demo_engine (ar_condition demo_rule) (ev_data (demo_reading 35)) = Some True"
  by (simp add: check_condition_def get_nested_value_def jval_lt_def primitive_text_def demo_rule_def demo_reading_def)

lemma evaluate_event_exact_witness:
  "\<exists>w'. evaluate_event demo_engine True 0 (\<lambda>_. ''a'') (demo_reading 35) 0 demo_alerts = ([demo_rule], w')"
proof -
  have "distinct (map ar_id (al_rules demo_alerts))" by (simp add: demo_alerts_def)
  from evaluate_event_exact [OF this, of demo_engine True 0 "\<lambda>_. ''a''" "demo_reading 35" 0]
  obtain fired w' where f: "evaluate_event demo_engine True 0 (\<lambda>_. ''a'') (demo_reading 35) 0 demo_alerts = (fired, w')" "distinct fired"
    "set fired = {r \<in> {demo_rule}. ar_eventType r = ''sensor'' \<and> ar_isActive r \<and> \<not> ar_isDeleted r \<and>
      check_condition demo_engine (ar_condition r) (ev_data (demo_reading 35)) = Some True \<and>
      is_within_active_hours 0 (ar_activeHours r) (event_time (demo_reading 35) 0)}"
    by (auto simp: demo_alerts_def demo_reading_def)
  have "set fired = {demo_rule}"
    unfolding f(3) using demo_condition by (auto simp: demo_rule_def is_within_active_hours_def)
  with f(2) have "fired = [demo_rule]" by (cases fired; cases "tl fired") auto
  with f(1) show ?thesis by blast
qed

lemma alert_rate_bound_witness:
  "let ops = [(0, Evaluate (demo_reading 35) (\<lambda>_. ''a'')), (4, Manual ''b'' ''r'' []), (5, AutoResolve)] in
   int (length (filter (\<lambda>(t, by_event). by_event \<and> 0 \<le> t \<and> t < 0 + 3600000) (rule_log demo_engine True 0 ''r'' ops demo_alerts))) * (15 * 60000)
   < 3600000 + 15 * 60000"
proof -
  let ?ops = "[(0, Evaluate (demo_reading 35) (\<lambda>_. ''a'')), (4, Manual ''b'' ''r'' []), (5, AutoResolve)]"
  have "distinct (concat (map (created_rule \<circ> snd) ?ops) @ map ar_id (al_rules demo_alerts))"
    "find_by ar_id ''r'' (al_rules demo_alerts) = Some demo_rule" "15 \<le> ar_cooldownMinutes demo_rule"
    by (simp_all add: demo_alerts_def demo_rule_def)
  from alert_rate_bound [OF this(1,2) _ this(3), of 3600000 demo_engine True 0 0]
  show ?thesis by (simp only: Let_def) simp
qed

lemma overnight_never_active_witness:
  "should_trigger demo_engine 0 (demo_rule\<lparr>ar_activeHours := Some \<lparr>ah_start = Some ''22:00'', ah_end = Some ''06:00'', ah_days = None\<rparr>\<rparr>)
     (demo_reading 35) 82800000 [] \<noteq> Some True"
  by (rule overnight_never_active [where h = "\<lparr>ah_start = Some ''22:00'', ah_end = Some ''06:00'', ah_days = None\<rparr>"
        and s = "''22:00''" and e = "''06:00''"]) (simp_all add: less_char_def)

lemma fingerprint_stable_witness:
  "generate_fingerprint demo_engine ''r'' (demo_reading 35) =
     generate_fingerprint demo_engine ''r'' ((demo_reading 35)\<lparr>ev_data := [(''u'', VNull), (''t'', VNum 35)]\<rparr>)"
proof (rule fingerprint_stable)
  show "same_value (VObj (ev_data (demo_reading 35))) (VObj (ev_data ((demo_reading 35)\<lparr>ev_data := [(''u'', VNull), (''t'', VNum 35)]\<rparr>)))"
    by (rule same_obj [of _ "ev_data (demo_reading 35)"]) (auto simp: demo_reading_def intro: same_refl)
qed simp

lemma auto_resolve_exact_witness:
  "al_alerts (auto_resolve_stale_alerts 604800001 demo_alerts) = []"
  using auto_resolve_exact [of 604800001 demo_alerts] by (simp add: demo_alerts_def Let_def)

end
