(* ===== verification/Throttler.thy ===== *)
theory Throttler
  imports Dynamic_Limits Quota Violation_Tracker
begin

section \<open>The throttler guard\<close>

text \<open>
  \<open>modules/auth/guards/throttler.guard.ts\<close>, the guard before every request, which joins the whitelist, the
  dynamic limits, the backoff of violators, the quotas and the limits by role and endpoint; the storage
  \<open>common/storage/redis-throttler.storage.ts\<close>; the limits of \<open>common/config/role-limits.config.ts\<close> and
  \<open>common/decorators/throttle-endpoint.decorator.ts\<close>; and the analytics of the logged violations,
  \<open>gateway/rate-limiting/services/rate-limit-analytics.service.ts\<close>. What \<open>@nestjs/throttler\<close> does with a limit,
  \<open>super.handleRequest\<close>, is the argument \<open>parent\<close> on a state of its own. Headers are the outcome they tell of.
\<close>

subsection \<open>Limits\<close>

record limit_spec =
  ls_limit :: int
  ls_ttl :: int

definition ROLE_LIMITS :: "(string \<times> limit_spec) list" where
  "ROLE_LIMITS =
     [(''SUPER_ADMIN'', \<lparr>ls_limit = 10000, ls_ttl = 60000\<rparr>), (''ADMIN'', \<lparr>ls_limit = 1000, ls_ttl = 60000\<rparr>),
      (''GROWER'', \<lparr>ls_limit = 200, ls_ttl = 60000\<rparr>), (''BUYER'', \<lparr>ls_limit = 150, ls_ttl = 60000\<rparr>),
      (''USER'', \<lparr>ls_limit = 100, ls_ttl = 60000\<rparr>), (''GUEST'', \<lparr>ls_limit = 20, ls_ttl = 60000\<rparr>)]"

definition get_role_limits :: "string \<Rightarrow> limit_spec" where
  "get_role_limits role = (case map_of ROLE_LIMITS role of Some l \<Rightarrow> l | None \<Rightarrow> the (map_of ROLE_LIMITS ''GUEST''))"

datatype endpoint_category = EC_EXPENSIVE | EC_STANDARD | EC_CHEAP | EC_UNRESTRICTED

fun get_endpoint_limit :: "endpoint_category \<Rightarrow> limit_spec" where
  "get_endpoint_limit EC_EXPENSIVE = \<lparr>ls_limit = 10, ls_ttl = 60000\<rparr>"
| "get_endpoint_limit EC_STANDARD = \<lparr>ls_limit = 100, ls_ttl = 60000\<rparr>"
| "get_endpoint_limit EC_CHEAP = \<lparr>ls_limit = 1000, ls_ttl = 60000\<rparr>"
| "get_endpoint_limit EC_UNRESTRICTED = \<lparr>ls_limit = 9007199254740991, ls_ttl = 60000\<rparr>"

definition effective_limit :: "string \<Rightarrow> endpoint_category option \<Rightarrow> limit_spec" where
  "effective_limit role cat =
     (case cat of
        None \<Rightarrow> get_role_limits role
      | Some c \<Rightarrow> if ls_limit (get_endpoint_limit c) < ls_limit (get_role_limits role) then get_endpoint_limit c
          else get_role_limits role)"

subsection \<open>Requests and the log\<close>

text \<open>\<open>rq_userId\<close> is \<open>user.id || user.userId\<close>.\<close>

record throttle_request =
  rq_url :: string
  rq_method :: string
  rq_ip :: "string option"
  rq_userId :: "string option"
  rq_role :: "string option"

record rate_log =
  tl_identifier :: string
  tl_endpoint :: string
  tl_count :: int
  tl_windowStart :: ms
  tl_windowEnd :: ms
  tl_blocked :: bool

record 's th_world =
  th_dl :: "'s dl_world"
  th_logs :: "rate_log list"

definition same_log :: "string \<Rightarrow> string \<Rightarrow> ms \<Rightarrow> rate_log \<Rightarrow> bool" where
  "same_log i e s l \<longleftrightarrow> tl_identifier l = i \<and> tl_endpoint l = e \<and> tl_windowStart l = s"

text \<open>\<open>upsert\<close> by the unique key of the log.\<close>

definition upsert_log :: "rate_log \<Rightarrow> (rate_log \<Rightarrow> rate_log) \<Rightarrow> 's th_world \<Rightarrow> 's th_world" where
  "upsert_log l f w =
     (let p = same_log (tl_identifier l) (tl_endpoint l) (tl_windowStart l)
      in if list_ex p (th_logs w) then w\<lparr>th_logs := update_where p f (th_logs w)\<rparr> else w\<lparr>th_logs := th_logs w @ [l]\<rparr>)"

definition is_whitelisted :: "string \<Rightarrow> 's th_world \<Rightarrow> bool" where
  "is_whitelisted i w \<longleftrightarrow> list_ex (\<lambda>l. tl_identifier l = ''whitelist:'' @ i \<and> \<not> tl_blocked l) (th_logs w)"

definition add_to_whitelist :: "string \<Rightarrow> ms \<Rightarrow> 's th_world \<Rightarrow> 's th_world" where
  "add_to_whitelist i now w = upsert_log
     \<lparr>tl_identifier = ''whitelist:'' @ i, tl_endpoint = ''whitelist'', tl_count = 0, tl_windowStart = 0, tl_windowEnd = now, tl_blocked = False\<rparr>
     (\<lambda>l. l\<lparr>tl_windowEnd := now\<rparr>) w"

definition remove_from_whitelist :: "string \<Rightarrow> 's th_world \<Rightarrow> 's th_world" where
  "remove_from_whitelist i w = w\<lparr>th_logs := filter (\<lambda>l. \<not> (tl_identifier l = ''whitelist:'' @ i \<and> tl_endpoint l = ''whitelist'')) (th_logs w)\<rparr>"

definition log_rate_limit_violation :: "throttle_request \<Rightarrow> ms \<Rightarrow> 's th_world \<Rightarrow> 's th_world" where
  "log_rate_limit_violation r now w = upsert_log
     \<lparr>tl_identifier = str_or (rq_userId r) (str_or (rq_ip r) ''unknown''), tl_endpoint = take 255 (rq_url r), tl_count = 1,
      tl_windowStart = now - 60000, tl_windowEnd = now, tl_blocked = True\<rparr>
     (\<lambda>l. l\<lparr>tl_count := tl_count l + 1, tl_windowEnd := now, tl_blocked := True\<rparr>) w"

text \<open>The analytics insert a row for the minute; a second one violates the unique key, which is logged and swallowed.\<close>

definition log_violation :: "string \<Rightarrow> string \<Rightarrow> int option \<Rightarrow> ms \<Rightarrow> 's th_world \<Rightarrow> 's th_world" where
  "log_violation i e cnt now w =
     (let start = now div 60000 * 60000
      in if list_ex (same_log i e start) (th_logs w) then w
         else w\<lparr>th_logs := th_logs w @ [\<lparr>tl_identifier = i, tl_endpoint = e, tl_count = num_or cnt 1,
           tl_windowStart = start, tl_windowEnd = start + 60000, tl_blocked = True\<rparr>]\<rparr>)"

subsection \<open>The guard\<close>

datatype throttle_outcome =
    T_HEALTH
  | T_WHITELISTED
  | T_OVERRIDE rl_result
  | T_LIMITS limit_spec "(quota_part \<times> quota_part) option"
  | T_DEGRADED string

text \<open>The part inside the \<open>try\<close>: the text of an exception, or the answer with what the headers tell.\<close>

definition limit_request ::
  "(limit_spec \<Rightarrow> 'p \<Rightarrow> (string + bool) \<times> 'p) \<Rightarrow> throttle_request \<Rightarrow> endpoint_category option \<Rightarrow> utc \<Rightarrow> 's th_world \<times> 'p \<Rightarrow>
   (string + bool \<times> throttle_outcome) \<times> ('s th_world \<times> 'p)" where
  "limit_request parent r cat t wp =
     (let (w, p) = wp; now = get_time t; role = str_or (rq_role r) ''GUEST''; uid = rq_userId r;
          ident = str_or uid (str_or (rq_ip r) ''unknown'')
      in if is_whitelisted ident w then (Inr (True, T_WHITELISTED), (w, p))
         else (let (res, dl) = check_limit uid (rq_url r) (rq_method r) now (th_dl w); w1 = w\<lparr>th_dl := dl\<rparr>; rs = dl_redis dl
           in if (case r_metadata res of None \<Rightarrow> False | Some m \<Rightarrow> truthy_str (m_strategy m))
              then (if \<not> r_allowed res
                then (let w2 = log_violation ident (rq_url r) (r_current res) now w1;
                          w3 = (if truthy_str uid then w2\<lparr>th_dl := dl\<lparr>dl_redis := snd (record_violation (the uid) now rs)\<rparr>\<rparr> else w2)
                      in (Inl ''Rate limit exceeded'', (w3, p)))
                else (Inr (True, T_OVERRIDE res), (w1, p)))
              else if truthy_str uid \<and> is_in_backoff (the uid) now rs then (Inl ''Rate limit backoff in effect'', (w1, p))
              else (let (ok, rs') = (if truthy_str uid then check_quota (the uid) role 1 t rs else (True, rs));
                        w2 = w1\<lparr>th_dl := dl\<lparr>dl_redis := rs'\<rparr>\<rparr>
                in if \<not> ok then (Inl ''Daily or monthly quota exceeded'', (w2, p))
                   else (let info = (if truthy_str uid then Some (get_quota_info (the uid) role t rs') else None);
                             lmt = effective_limit role cat; (x, p') = parent lmt p
                     in case x of Inl e \<Rightarrow> (Inl e, (w2, p')) | Inr b \<Rightarrow> (Inr (b, T_LIMITS lmt info), (w2, p'))))))"

definition is_health :: "string \<Rightarrow> bool" where
  "is_health url \<longleftrightarrow> starts_with url ''/api/v1/health'' \<or> starts_with url ''/health''"

definition handle_request ::
  "(limit_spec \<Rightarrow> 'p \<Rightarrow> (string + bool) \<times> 'p) \<Rightarrow> throttle_request \<Rightarrow> endpoint_category option \<Rightarrow> utc \<Rightarrow> 's th_world \<times> 'p \<Rightarrow>
   (bool \<times> throttle_outcome) \<times> ('s th_world \<times> 'p)" where
  "handle_request parent r cat t wp =
     (if is_health (rq_url r) then ((True, T_HEALTH), wp)
      else (case limit_request parent r cat t wp of
          (Inr x, wp') \<Rightarrow> (x, wp')
        | (Inl e, wp') \<Rightarrow> ((True, T_DEGRADED e), wp')))"

text \<open>The answer without the headers.\<close>

definition handler_of ::
  "(limit_spec \<Rightarrow> 'p \<Rightarrow> (string + bool) \<times> 'p) \<Rightarrow> throttle_request \<Rightarrow> endpoint_category option \<Rightarrow> utc \<Rightarrow> 's th_world \<times> 'p \<Rightarrow>
   bool \<times> ('s th_world \<times> 'p)" where
  "handler_of parent r cat t wp = (let ((b, _), wp') = handle_request parent r cat t wp in (b, wp'))"

text \<open>\<open>super.canActivate\<close>, the argument \<open>base\<close>, runs the handler for each configured tier. Its error is the text of a
  refusal, or \<open>None\<close> for any other.\<close>

definition can_activate ::
  "(('s th_world \<times> 'p \<Rightarrow> bool \<times> ('s th_world \<times> 'p)) \<Rightarrow> 's th_world \<times> 'p \<Rightarrow> (string option + bool) \<times> ('s th_world \<times> 'p)) \<Rightarrow>
   ('s th_world \<times> 'p \<Rightarrow> bool \<times> ('s th_world \<times> 'p)) \<Rightarrow> throttle_request \<Rightarrow> ms \<Rightarrow> 's th_world \<times> 'p \<Rightarrow>
   (string option + bool) \<times> ('s th_world \<times> 'p)" where
  "can_activate base handler r now wp =
     (case base handler wp of
        (Inl (Some e), (w, p)) \<Rightarrow>
          (let v = log_rate_limit_violation r now w
           in (Inl (Some e), (if truthy_str (rq_userId r)
             then v\<lparr>th_dl := (th_dl v)\<lparr>dl_redis := snd (record_violation (the (rq_userId r)) now (dl_redis (th_dl v)))\<rparr>\<rparr> else v, p)))
      | x \<Rightarrow> x)"

definition get_tracker :: "throttle_request \<Rightarrow> string" where
  "get_tracker r = str_or (rq_role r) ''GUEST'' @ '':'' @ str_or (rq_userId r) (str_or (rq_ip r) ''unknown'') @ '':'' @
     (if rq_url r = [] then ''/'' else rq_url r)"

fun category_name :: "endpoint_category option \<Rightarrow> string" where
  "category_name None = ''NONE''"
| "category_name (Some EC_EXPENSIVE) = ''EXPENSIVE''"
| "category_name (Some EC_STANDARD) = ''STANDARD''"
| "category_name (Some EC_CHEAP) = ''CHEAP''"
| "category_name (Some EC_UNRESTRICTED) = ''UNRESTRICTED''"

definition generate_key :: "throttle_request \<Rightarrow> endpoint_category option \<Rightarrow> string \<Rightarrow> string \<Rightarrow> string" where
  "generate_key r cat suffix name = name @ ''-'' @ str_or (rq_role r) ''GUEST'' @ ''-'' @ category_name cat @ ''-'' @ suffix"

subsection \<open>The storage\<close>

record 's throttle_store =
  ts_redis :: "'s redis_service"
  ts_memory :: "(string \<times> (int \<times> ms)) list"

record hit_record =
  hr_totalHits :: int
  hr_timeToExpire :: int
  hr_isBlocked :: bool
  hr_timeToBlockExpire :: int

definition increment_redis :: "string \<Rightarrow> int \<Rightarrow> ms \<Rightarrow> 's redis_service \<Rightarrow> hit_record \<times> 's redis_service" where
  "increment_redis key ttl now rs =
     (let (n, rs1) = redis_increment rs now key;
          rs2 = (if n = 1 then snd (redis_set_expiration rs1 now key (ceil_div ttl 1000)) else rs1);
          left = redis_ttl rs2 now key
      in (\<lparr>hr_totalHits = n, hr_timeToExpire = (if left > 0 then left else 0), hr_isBlocked = False, hr_timeToBlockExpire = 0\<rparr>, rs2))"

definition increment_memory :: "string \<Rightarrow> int \<Rightarrow> ms \<Rightarrow> (string \<times> (int \<times> ms)) list \<Rightarrow> hit_record \<times> (string \<times> (int \<times> ms)) list" where
  "increment_memory key ttl now m =
     (case map_of m key of
        Some (n, e) \<Rightarrow>
          if e < now then (\<lparr>hr_totalHits = 1, hr_timeToExpire = ceil_div ttl 1000, hr_isBlocked = False, hr_timeToBlockExpire = 0\<rparr>,
              js_map_set key (1, now + ttl) m)
          else (\<lparr>hr_totalHits = n + 1, hr_timeToExpire = ceil_div (e - now) 1000, hr_isBlocked = False, hr_timeToBlockExpire = 0\<rparr>,
              js_map_set key (n + 1, e) m)
      | None \<Rightarrow> (\<lparr>hr_totalHits = 1, hr_timeToExpire = ceil_div ttl 1000, hr_isBlocked = False, hr_timeToBlockExpire = 0\<rparr>,
              js_map_set key (1, now + ttl) m))"

definition throttle_increment :: "string \<Rightarrow> int \<Rightarrow> ms \<Rightarrow> 's throttle_store \<Rightarrow> hit_record \<times> 's throttle_store" where
  "throttle_increment key ttl now s =
     (if is_available (ts_redis s)
      then (let (h, rs) = increment_redis (''throttle:'' @ key) ttl now (ts_redis s) in (h, s\<lparr>ts_redis := rs\<rparr>))
      else (let (h, m) = increment_memory key ttl now (ts_memory s) in (h, s\<lparr>ts_memory := m\<rparr>)))"

definition throttle_get :: "string \<Rightarrow> ms \<Rightarrow> 's throttle_store \<Rightarrow> (int \<times> int) option" where
  "throttle_get key now s =
     (if is_available (ts_redis s)
      then (case redis_get (ts_redis s) now (''throttle:'' @ key) of
          JNum q \<Rightarrow> (let left = redis_ttl (ts_redis s) now (''throttle:'' @ key) in Some (\<lfloor>q\<rfloor>, if left > 0 then left else 0))
        | _ \<Rightarrow> None)
      else (case map_of (ts_memory s) key of
          Some (n, e) \<Rightarrow> if e < now then None else Some (n, ceil_div (e - now) 1000)
        | None \<Rightarrow> None))"

definition cleanup_expired_records :: "ms \<Rightarrow> 's throttle_store \<Rightarrow> 's throttle_store" where
  "cleanup_expired_records now s = s\<lparr>ts_memory := filter (\<lambda>(_, (_, e)). \<not> e < now) (ts_memory s)\<rparr>"

subsection \<open>Abuse\<close>

datatype recommendation = MONITOR | WARN | THROTTLE | BLOCK

record abuse_pattern =
  ap_violationCount :: nat
  ap_last24h :: nat
  ap_lastHour :: nat
  ap_patterns :: "string list"
  ap_riskScore :: int
  ap_recommendation :: recommendation

definition recommend :: "int \<Rightarrow> recommendation" where
  "recommend s = (if s \<ge> 81 then BLOCK else if s \<ge> 61 then THROTTLE else if s \<ge> 31 then WARN else MONITOR)"

definition risk_checks :: "nat \<Rightarrow> nat \<Rightarrow> bool \<Rightarrow> bool \<Rightarrow> (string \<times> int) list" where
  "risk_checks day hourly scraping persistent =
     (if day > 100 then [(''HIGH_VIOLATION_RATE'', 40)] else if day > 50 then [(''ELEVATED_VIOLATION_RATE'', 20)] else []) @
     (if hourly > 20 then [(''RAPID_VIOLATIONS'', 30)] else if hourly > 10 then [(''FREQUENT_VIOLATIONS'', 15)] else []) @
     (if scraping then [(''API_SCRAPING'', 20)] else []) @
     (if persistent then [(''PERSISTENT_ATTACKER'', 10)] else [])"

text \<open>The first hundred rows of the last hour.\<close>

definition recent_violations :: "string \<Rightarrow> ms \<Rightarrow> rate_log list \<Rightarrow> rate_log list" where
  "recent_violations i now logs = take 100 (sort_by (\<lambda>a b. tl_windowStart a \<le> tl_windowStart b)
     (filter (\<lambda>l. tl_identifier l = i \<and> now - 3600000 \<le> tl_windowStart l) logs))"

definition detect_abuse_pattern :: "string \<Rightarrow> ms \<Rightarrow> rate_log list \<Rightarrow> abuse_pattern option" where
  "detect_abuse_pattern i now logs =
     (let total = length (filter (\<lambda>l. tl_identifier l = i) logs);
          day = length (filter (\<lambda>l. tl_identifier l = i \<and> now - 86400000 \<le> tl_windowStart l) logs);
          hourly = length (filter (\<lambda>l. tl_identifier l = i \<and> now - 3600000 \<le> tl_windowStart l) logs);
          recent = recent_violations i now logs;
          checks = risk_checks day hourly (length (remdups (map tl_endpoint recent)) > 20)
            (length (filter tl_blocked recent) * 10 > length recent * 8 \<and> length recent > 10);
          score = sum_list (map snd checks)
      in if total = 0 then None
         else Some \<lparr>ap_violationCount = total, ap_last24h = day, ap_lastHour = hourly, ap_patterns = map fst checks,
           ap_riskScore = min 100 score, ap_recommendation = recommend score\<rparr>)"

definition cleanup_old_violations :: "int \<Rightarrow> ms \<Rightarrow> rate_log list \<Rightarrow> nat \<times> rate_log list" where
  "cleanup_old_violations days now logs =
     (let old = (\<lambda>l. tl_windowStart l < now - days * 86400000)
      in (length (filter old logs), filter (\<lambda>l. \<not> old l) logs))"

subsection \<open>What the guard decides\<close>

text \<open>No strategy of the registry names itself in its result, so the guard never sees an override.\<close>

lemma check_limit_no_strategy:
  "(case r_metadata (fst (check_limit uid ep hm now w)) of None \<Rightarrow> False | Some m \<Rightarrow> truthy_str (m_strategy m)) = False"
  by (auto simp: check_limit_def fail_open_def strategy_check_def token_bucket_check_def leaky_bucket_check_def sliding_window_check_def
      no_metadata_def truthy_str_def Let_def split: prod.splits sum.splits option.splits if_splits)

lemma limit_request_eq:
  assumes "check_limit (rq_userId r) (rq_url r) (rq_method r) (get_time t) (th_dl w) = (res, dl)"
  shows "limit_request parent r cat t (w, p) =
    (let role = str_or (rq_role r) ''GUEST''; uid = rq_userId r; w1 = w\<lparr>th_dl := dl\<rparr>; rs = dl_redis dl
     in if is_whitelisted (str_or uid (str_or (rq_ip r) ''unknown'')) w then (Inr (True, T_WHITELISTED), (w, p))
        else if truthy_str uid \<and> is_in_backoff (the uid) (get_time t) rs then (Inl ''Rate limit backoff in effect'', (w1, p))
        else (let (ok, rs') = (if truthy_str uid then check_quota (the uid) role 1 t rs else (True, rs));
                  w2 = w1\<lparr>th_dl := dl\<lparr>dl_redis := rs'\<rparr>\<rparr>
          in if \<not> ok then (Inl ''Daily or monthly quota exceeded'', (w2, p))
             else (let info = (if truthy_str uid then Some (get_quota_info (the uid) role t rs') else None);
                       lmt = effective_limit role cat; (x, p') = parent lmt p
               in case x of Inl e \<Rightarrow> (Inl e, (w2, p')) | Inr b \<Rightarrow> (Inr (b, T_LIMITS lmt info), (w2, p')))))"
proof -
  have s: "(case r_metadata res of None \<Rightarrow> False | Some m \<Rightarrow> truthy_str (m_strategy m)) = False"
    using check_limit_no_strategy [of "rq_userId r" "rq_url r" "rq_method r" "get_time t" "th_dl w"] by (simp only: assms fst_conv)
  show ?thesis by (simp only: limit_request_def Let_def assms prod.case s if_False)
qed

text \<open>C5. The guard refuses nothing. Inside its \<open>try\<close> it would refuse exactly the users in backoff, those beyond a
  quota and what the library refuses; the \<open>catch\<close> around it turns each refusal into a permission, whatever the
  state. Overrides never decide, and neither the log nor the library's verdict has an effect.\<close>

theorem guard_refuses_nothing:
  assumes "\<forall>l q. fst (parent l q) \<noteq> Inr False" "\<forall>h v. (\<forall>x. fst (h x)) \<longrightarrow> fst (base h v) = Inr True"
    and "check_limit (rq_userId r) (rq_url r) (rq_method r) (get_time t) (th_dl w) = (res, dl)"
  shows "let uid = rq_userId r; role = str_or (rq_role r) ''GUEST'' in
    (isl (fst (limit_request parent r cat t (w, p))) \<longleftrightarrow>
      \<not> is_whitelisted (str_or uid (str_or (rq_ip r) ''unknown'')) w \<and>
      (truthy_str uid \<and> (is_in_backoff (the uid) (get_time t) (dl_redis dl) \<or> \<not> fst (check_quota (the uid) role 1 t (dl_redis dl))) \<or>
       isl (fst (parent (effective_limit role cat) p)))) \<and>
    (\<exists>out w' p'. handle_request parent r cat t (w, p) = ((True, out), (w', p')) \<and> (\<forall>x. out \<noteq> T_OVERRIDE x) \<and> th_logs w' = th_logs w) \<and>
    fst (can_activate base (handler_of parent r cat t) r now wp) = Inr True"
proof -
  note eq = limit_request_eq [OF assms(3), of parent cat p]
  have pb: b if "fst (parent l q) = Inr b" for l q b using assms(1) that by (cases b) auto
  have one: "fst (fst (handle_request parent r cat t x))" for x
  proof -
    obtain v q where x: "x = (v, q)" by fastforce
    obtain a b where c: "check_limit (rq_userId r) (rq_url r) (rq_method r) (get_time t) (th_dl v) = (a, b)" by fastforce
    show ?thesis unfolding x handle_request_def limit_request_eq [OF c]
      by (auto simp: Let_def case_prod_beta split: sum.splits dest: pb)
  qed
  have "\<forall>x. fst (handler_of parent r cat t x)" by (simp add: handler_of_def case_prod_beta Let_def one)
  then have "fst (base (handler_of parent r cat t) wp) = Inr True" using assms(2) by blast
  then have c: "fst (can_activate base (handler_of parent r cat t) r now wp) = Inr True"
    by (cases "base (handler_of parent r cat t) wp") (auto simp: can_activate_def)
  have lim: "isl (fst (limit_request parent r cat t (w, p))) \<longleftrightarrow>
      \<not> is_whitelisted (str_or (rq_userId r) (str_or (rq_ip r) ''unknown'')) w \<and>
      (truthy_str (rq_userId r) \<and> (is_in_backoff (the (rq_userId r)) (get_time t) (dl_redis dl) \<or>
         \<not> fst (check_quota (the (rq_userId r)) (str_or (rq_role r) ''GUEST'') 1 t (dl_redis dl))) \<or>
       isl (fst (parent (effective_limit (str_or (rq_role r) ''GUEST'') cat) p)))"
    unfolding eq by (auto simp: Let_def case_prod_beta split: sum.split)
  have "(\<forall>x. snd (fst (handle_request parent r cat t (w, p))) \<noteq> T_OVERRIDE x) \<and> th_logs (fst (snd (handle_request parent r cat t (w, p)))) = th_logs w"
    unfolding handle_request_def eq by (auto simp: Let_def case_prod_beta split: sum.split)
  then have h: "\<exists>out w' p'. handle_request parent r cat t (w, p) = ((True, out), (w', p')) \<and> (\<forall>x. out \<noteq> T_OVERRIDE x) \<and> th_logs w' = th_logs w"
    using one [of "(w, p)"] by (cases "handle_request parent r cat t (w, p)") auto
  show ?thesis unfolding Let_def using lim h c by blast
qed

text \<open>The limit for a role and a category is the smaller of the two.\<close>

lemma effective_limit_min:
  "ls_limit (effective_limit role cat) = (case cat of None \<Rightarrow> ls_limit (get_role_limits role)
     | Some c \<Rightarrow> min (ls_limit (get_role_limits role)) (ls_limit (get_endpoint_limit c)))" "ls_ttl (effective_limit role cat) = 60000"
proof -
  have "ls_ttl (get_role_limits role) = 60000"
    by (auto simp: get_role_limits_def ROLE_LIMITS_def split: option.split if_splits)
  moreover have "ls_ttl (get_endpoint_limit c) = 60000" for c by (cases c) auto
  ultimately show "ls_limit (effective_limit role cat) = (case cat of None \<Rightarrow> ls_limit (get_role_limits role)
     | Some c \<Rightarrow> min (ls_limit (get_role_limits role)) (ls_limit (get_endpoint_limit c)))" "ls_ttl (effective_limit role cat) = 60000"
    by (auto simp: effective_limit_def split: option.split)
qed

subsection \<open>The storage\<close>

fun hits_run :: "string \<Rightarrow> int \<Rightarrow> ms list \<Rightarrow> (string \<times> (int \<times> ms)) list \<Rightarrow> hit_record list" where
  "hits_run key ttl [] m = []"
| "hits_run key ttl (t # ts) m = (let (h, m') = increment_memory key ttl t m in h # hits_run key ttl ts m')"

text \<open>Without Redis the storage counts the hits of a window: of requests at \<open>t0\<close> and then no later than the life
  of its record the k-th is hit k, one after it is hit 1 again, and no record ever says that the key is blocked.\<close>

theorem memory_storage_counts:
  assumes "case map_of m key of None \<Rightarrow> True | Some (n, e) \<Rightarrow> e < t0" "\<forall>t \<in> set ts. t \<le> t0 + ttl" "t0 + ttl < late"
  shows "map hr_totalHits (hits_run key ttl (t0 # ts @ [late]) m) = map (\<lambda>k. int (k + 1)) [0..<length ts + 1] @ [1] \<and>
    (\<forall>h \<in> set (hits_run key ttl (t0 # ts @ [late]) m). \<not> hr_isBlocked h)"
proof -
  have later: "map hr_totalHits (hits_run key ttl (ts @ [late]) m) = map (\<lambda>k. int n + 1 + int k) [0..<length ts] @ [1]"
    if "map_of m key = Some (int n, t0 + ttl)" "\<forall>t \<in> set ts. t \<le> t0 + ttl" for n m ts
    using that
  proof (induction ts arbitrary: n m)
    case (Cons t ts)
    have "map_of (js_map_set key (int (Suc n), t0 + ttl) m) key = Some (int (Suc n), t0 + ttl)" by simp
    from Cons.IH [OF this] Cons.prems show ?case
      by (simp add: increment_memory_def not_less map_upt_Suc ac_simps del: upt_Suc)
  qed (use assms(3) in \<open>simp add: increment_memory_def\<close>)
  have "increment_memory key ttl t0 m = (\<lparr>hr_totalHits = 1, hr_timeToExpire = ceil_div ttl 1000, hr_isBlocked = False, hr_timeToBlockExpire = 0\<rparr>,
      js_map_set key (1, t0 + ttl) m)"
    using assms(1) by (auto simp: increment_memory_def split: option.splits)
  moreover have "map_of (js_map_set key (1, t0 + ttl) m) key = Some (int 1, t0 + ttl)" by simp
  ultimately have "map hr_totalHits (hits_run key ttl (t0 # ts @ [late]) m) = (1 # map (\<lambda>k. int 1 + 1 + int k) [0..<length ts]) @ [1]"
    using later assms(2) by simp
  moreover have "1 # map (\<lambda>k. int 1 + 1 + int k) [0..<length ts] = map (\<lambda>k. int (k + 1)) [0..<length ts + 1]"
    by (simp add: map_upt_Suc del: upt_Suc)
  ultimately have n: "map hr_totalHits (hits_run key ttl (t0 # ts @ [late]) m) = map (\<lambda>k. int (k + 1)) [0..<length ts + 1] @ [1]"
    by (simp only:)
  have "\<forall>h \<in> set (hits_run key ttl us m). \<not> hr_isBlocked h" for us m
    by (induction us arbitrary: m) (auto simp: increment_memory_def Let_def split: prod.splits option.splits if_splits)
  with n show ?thesis by blast
qed

subsection \<open>Abuse\<close>

text \<open>The risk score is between 0 and 100, and blocking is recommended exactly to identifiers with more than 100
  violations in a day, more than 20 endpoints and either more than 20 violations in the last hour, or more than 10
  and eight tenths of the recent ones blocked.\<close>

theorem abuse_recommendation:
  assumes "detect_abuse_pattern i now logs = Some a"
  shows "let recent = recent_violations i now logs in
    0 \<le> ap_riskScore a \<and> ap_riskScore a \<le> 100 \<and> ap_lastHour a \<le> ap_last24h a \<and> ap_last24h a \<le> ap_violationCount a \<and>
    ap_recommendation a = recommend (ap_riskScore a) \<and>
    (ap_recommendation a = BLOCK \<longleftrightarrow> ap_last24h a > 100 \<and> length (remdups (map tl_endpoint recent)) > 20 \<and>
      (ap_lastHour a > 20 \<or> ap_lastHour a > 10 \<and> length (filter tl_blocked recent) * 10 > length recent * 8 \<and> length recent > 10))"
proof -
  have score: "0 \<le> sum_list (map snd (risk_checks d h m p)) \<and> sum_list (map snd (risk_checks d h m p)) \<le> 100 \<and>
      (recommend (sum_list (map snd (risk_checks d h m p))) = BLOCK \<longleftrightarrow> d > 100 \<and> m \<and> (h > 20 \<or> h > 10 \<and> p))" for d h m p
    by (simp add: risk_checks_def recommend_def)
  have le: "length (filter (\<lambda>l. tl_identifier l = i \<and> now - 3600000 \<le> tl_windowStart l) xs) \<le>
      length (filter (\<lambda>l. tl_identifier l = i \<and> now - 86400000 \<le> tl_windowStart l) xs) \<and>
      length (filter (\<lambda>l. tl_identifier l = i \<and> now - 86400000 \<le> tl_windowStart l) xs) \<le> length (filter (\<lambda>l. tl_identifier l = i) xs)" for xs
    by (induction xs) auto
  let ?recent = "recent_violations i now logs"
  let ?d = "length (filter (\<lambda>l. tl_identifier l = i \<and> now - 86400000 \<le> tl_windowStart l) logs)"
  let ?h = "length (filter (\<lambda>l. tl_identifier l = i \<and> now - 3600000 \<le> tl_windowStart l) logs)"
  let ?m = "length (remdups (map tl_endpoint ?recent)) > 20"
  let ?p = "length (filter tl_blocked ?recent) * 10 > length ?recent * 8 \<and> length ?recent > 10"
  let ?score = "sum_list (map snd (risk_checks ?d ?h ?m ?p))"
  have "Some a = (if length (filter (\<lambda>l. tl_identifier l = i) logs) = 0 then None
     else Some \<lparr>ap_violationCount = length (filter (\<lambda>l. tl_identifier l = i) logs), ap_last24h = ?d, ap_lastHour = ?h,
       ap_patterns = map fst (risk_checks ?d ?h ?m ?p), ap_riskScore = min 100 ?score, ap_recommendation = recommend ?score\<rparr>)"
    using assms by (simp only: detect_abuse_pattern_def Let_def)
  then have a: "ap_last24h a = ?d" "ap_lastHour a = ?h" "ap_riskScore a = min 100 ?score" "ap_recommendation a = recommend ?score"
    "ap_violationCount a = length (filter (\<lambda>l. tl_identifier l = i) logs)"
    by (simp_all only: option.inject split: if_splits) simp_all
  have "min 100 ?score = ?score" using score [of ?d ?h ?m ?p] by linarith
  then show ?thesis using score [of ?d ?h ?m ?p] le [of logs] unfolding Let_def a by simp
qed

text \<open>Witnesses: without Redis, a library that refuses every request.\<close>

definition demo_throttle :: "unit th_world" where
  "demo_throttle = \<lparr>th_dl = \<lparr>dl_rows = [], dl_redis = \<lparr>client = None, isConnected = False, isShuttingDown = False, server = ()\<rparr>, dl_violations = []\<rparr>,
     th_logs = []\<rparr>"

definition demo_request :: throttle_request where
  "demo_request = \<lparr>rq_url = ''/api/v1/orders'', rq_method = ''GET'', rq_ip = Some ''1.2.3.4'', rq_userId = None, rq_role = None\<rparr>"

lemma guard_refuses_nothing_witness:
  "isl (fst (limit_request (\<lambda>_ p. (Inl ''Too Many Requests'', p)) demo_request None \<lparr>yr = 2025, mon = 1, day_of = 1, tod = 0\<rparr> (demo_throttle, ()))) \<and>
   fst (can_activate (\<lambda>h v. (Inr (fst (h v)), snd (h v)))
     (handler_of (\<lambda>_ p. (Inl ''Too Many Requests'', p)) demo_request None \<lparr>yr = 2025, mon = 1, day_of = 1, tod = 0\<rparr>) demo_request 0 (demo_throttle, ())) = Inr True"
proof -
  obtain res dl where c: "check_limit (rq_userId demo_request) (rq_url demo_request) (rq_method demo_request)
      (get_time \<lparr>yr = 2025, mon = 1, day_of = 1, tod = 0\<rparr>) (th_dl demo_throttle) = (res, dl)" by fastforce
  have "\<not> is_whitelisted ''1.2.3.4'' demo_throttle" by (simp add: is_whitelisted_def demo_throttle_def)
  then show ?thesis
    using guard_refuses_nothing [OF _ _ c, where parent = "\<lambda>_ p. (Inl ''Too Many Requests'', p)" and base = "\<lambda>h v. (Inr (fst (h v)), snd (h v))"
        and p = "()" and cat = None and now = 0 and wp = "(demo_throttle, ())"]
    by (simp add: Let_def demo_request_def str_or_def truthy_str_def)
qed

lemma memory_storage_counts_witness:
  "map hr_totalHits (hits_run ''k'' 60000 [0, 5, 60000, 60001] []) = [1, 2, 3, 1]"
  using memory_storage_counts [where m = "[]" and key = "''k''" and ?t0.0 = 0 and ts = "[5, 60000]" and ttl = 60000 and late = 60001] by simp

lemma abuse_recommendation_witness:
  "\<exists>a. detect_abuse_pattern ''x'' 0 [\<lparr>tl_identifier = ''x'', tl_endpoint = ''e'', tl_count = 1, tl_windowStart = 0, tl_windowEnd = 0, tl_blocked = True\<rparr>] = Some a \<and>
     ap_riskScore a \<le> 100"
proof -
  let ?logs = "[\<lparr>tl_identifier = ''x'', tl_endpoint = ''e'', tl_count = 1, tl_windowStart = 0, tl_windowEnd = 0, tl_blocked = True\<rparr>]"
  obtain a where a: "detect_abuse_pattern ''x'' 0 ?logs = Some a"
    by (simp add: detect_abuse_pattern_def Let_def)
  with abuse_recommendation [OF a] show ?thesis by (auto simp only: Let_def)
qed

end
