(* ===== verification/Devices.thy ===== *)
theory Devices
  imports Cache_Coherence Request_Queue
begin

section \<open>Devices\<close>

text \<open>
  \<open>modules/devices\<close>: the devices of the growers, their sensors and commands
  (\<open>devices.service.ts\<close>), the MQTT client (\<open>mqtt.service.ts\<close>), the websocket gateway
  (\<open>devices.gateway.ts\<close>), the endpoints devices call themselves (\<open>iot-devices.controller.ts\<close>) and the
  task that marks silent devices (\<open>tasks/device-status.task.ts\<close>), over the cache service.

  Answers are JSON, with dates as milliseconds; \<open>fd_cached\<close> keeps whether a device came out of the
  cache, where its dates are texts and no longer dates. Ids and random serial numbers are arguments,
  as are whether the broker takes a message (\<open>pub\<close>) and the ascending order of a column in the database
  (\<open>col\<close>, \<open>None\<close> for a column that does not exist). A failure of the database is an \<open>InternalError\<close> with
  the message of Prisma. A \<open>null\<close> for a column that is not nullable, which Prisma refuses, is not
  modelled.
\<close>

datatype device_type = MUSHROOM_CHAMBER | ENVIRONMENTAL_SENSOR | IRRIGATION_SYSTEM | HVAC_CONTROLLER
  | CAMERA | pH_SENSOR | HUMIDITY_CONTROLLER

datatype device_status = ONLINE | OFFLINE | MAINTENANCE | ERROR

record device_row =
  dv_id :: string
  dv_name :: string
  dv_type :: device_type
  dv_serial :: string
  dv_status :: device_status
  dv_userId :: "string option"
  dv_location :: "string option"
  dv_description :: "string option"
  dv_firmware :: "string option"
  dv_ip :: "string option"
  dv_mac :: "string option"
  dv_lastSeen :: "ms option"
  dv_isActive :: bool
  dv_createdAt :: ms
  dv_updatedAt :: ms

record sensor_row =
  sn_id :: string
  sn_deviceId :: string
  sn_type :: string
  sn_name :: string
  sn_unit :: string
  sn_min :: "rat option"
  sn_max :: "rat option"
  sn_calibration :: json
  sn_isActive :: bool
  sn_createdAt :: ms
  sn_updatedAt :: ms

datatype command_status = CMD_pending | CMD_sent | CMD_failed | CMD_acknowledged

record command_row =
  dc_id :: string
  dc_deviceId :: string
  dc_command :: string
  dc_parameters :: json
  dc_status :: command_status
  dc_sentAt :: ms

text \<open>The columns of a user the module reads.\<close>

record device_user =
  du_id :: string
  du_firstName :: "string option"
  du_lastName :: "string option"
  du_email :: string
  du_isActive :: bool

text \<open>\<open>dw_data\<close> has device and time of the readings, \<open>dw_published\<close> what the broker took and
  \<open>dw_events\<close> what the gateway emitted.\<close>

record 's dev_world =
  dw_devices :: "device_row list"
  dw_sensors :: "sensor_row list"
  dw_commands :: "command_row list"
  dw_data :: "(string \<times> ms) list"
  dw_users :: "device_user list"
  dw_cache :: "'s cache_service"
  dw_connected :: bool
  dw_published :: "(string \<times> json) list"
  dw_events :: "(string \<times> json) list"

subsection \<open>Answers\<close>

fun type_text :: "device_type \<Rightarrow> string" where
  "type_text MUSHROOM_CHAMBER = ''MUSHROOM_CHAMBER''"
| "type_text ENVIRONMENTAL_SENSOR = ''ENVIRONMENTAL_SENSOR''"
| "type_text IRRIGATION_SYSTEM = ''IRRIGATION_SYSTEM''"
| "type_text HVAC_CONTROLLER = ''HVAC_CONTROLLER''"
| "type_text CAMERA = ''CAMERA''"
| "type_text pH_SENSOR = ''pH_SENSOR''"
| "type_text HUMIDITY_CONTROLLER = ''HUMIDITY_CONTROLLER''"

fun status_text :: "device_status \<Rightarrow> string" where
  "status_text ONLINE = ''ONLINE''"
| "status_text OFFLINE = ''OFFLINE''"
| "status_text MAINTENANCE = ''MAINTENANCE''"
| "status_text ERROR = ''ERROR''"

fun command_status_text :: "command_status \<Rightarrow> string" where
  "command_status_text CMD_pending = ''pending''"
| "command_status_text CMD_sent = ''sent''"
| "command_status_text CMD_failed = ''failed''"
| "command_status_text CMD_acknowledged = ''acknowledged''"

definition device_fields :: "device_row \<Rightarrow> (string \<times> json) list" where
  "device_fields d =
     [(''id'', j_str (dv_id d)), (''name'', j_str (dv_name d)), (''type'', j_str (type_text (dv_type d))),
      (''serialNumber'', j_str (dv_serial d)), (''status'', j_str (status_text (dv_status d))),
      (''userId'', j_opt j_str (dv_userId d)), (''location'', j_opt j_str (dv_location d)),
      (''description'', j_opt j_str (dv_description d)), (''firmware'', j_opt j_str (dv_firmware d)),
      (''ipAddress'', j_opt j_str (dv_ip d)), (''macAddress'', j_opt j_str (dv_mac d)),
      (''lastSeen'', j_opt j_int (dv_lastSeen d)), (''isActive'', JBool (dv_isActive d)),
      (''createdAt'', j_int (dv_createdAt d)), (''updatedAt'', j_int (dv_updatedAt d))]"

definition device_user_json :: "device_user list \<Rightarrow> device_row \<Rightarrow> json" where
  "device_user_json us d = j_opt (\<lambda>u. JObj [(''id'', j_str (du_id u)), (''firstName'', j_opt j_str (du_firstName u)),
       (''lastName'', j_opt j_str (du_lastName u)), (''email'', j_str (du_email u))])
     (Option.bind (dv_userId d) (\<lambda>i. find_by du_id i us))"

definition sensor_json :: "sensor_row \<Rightarrow> json" where
  "sensor_json s = JObj
     [(''id'', j_str (sn_id s)), (''deviceId'', j_str (sn_deviceId s)), (''type'', j_str (sn_type s)),
      (''name'', j_str (sn_name s)), (''unit'', j_str (sn_unit s)), (''minValue'', j_opt JNum (sn_min s)),
      (''maxValue'', j_opt JNum (sn_max s)), (''calibration'', sn_calibration s), (''isActive'', JBool (sn_isActive s)),
      (''createdAt'', j_int (sn_createdAt s)), (''updatedAt'', j_int (sn_updatedAt s))]"

definition command_json :: "command_row \<Rightarrow> json" where
  "command_json c = JObj
     [(''id'', j_str (dc_id c)), (''deviceId'', j_str (dc_deviceId c)), (''command'', j_str (dc_command c)),
      (''parameters'', dc_parameters c), (''status'', j_str (command_status_text (dc_status c))),
      (''sentAt'', j_int (dc_sentAt c))]"

definition active_sensors :: "string \<Rightarrow> sensor_row list \<Rightarrow> sensor_row list" where
  "active_sensors i ss = filter (\<lambda>s. sn_deviceId s = i \<and> sn_isActive s) ss"

definition newest_commands :: "(command_row \<Rightarrow> bool) \<Rightarrow> command_row list \<Rightarrow> command_row list" where
  "newest_commands p cs = sort_by (\<lambda>a b. dc_sentAt b \<le> dc_sentAt a) (filter p cs)"

definition device_detail :: "'s dev_world \<Rightarrow> device_row \<Rightarrow> json" where
  "device_detail w d = JObj (device_fields d @
     [(''user'', device_user_json (dw_users w) d),
      (''sensors'', JArr (map sensor_json (active_sensors (dv_id d) (dw_sensors w)))),
      (''deviceCommands'', JArr (map command_json (take 10 (newest_commands (\<lambda>c. dc_deviceId c = dv_id d) (dw_commands w)))))])"

text \<open>The list selects the columns but for the two addresses.\<close>

definition device_list_json :: "device_user list \<Rightarrow> device_row \<Rightarrow> json" where
  "device_list_json us d = JObj (filter (\<lambda>f. fst f \<notin> {''ipAddress'', ''macAddress''}) (device_fields d) @ [(''user'', device_user_json us d)])"

subsection \<open>The broker and the gateway\<close>

text \<open>The rooms that clients join are never emitted to: all events go to every connected client.\<close>

definition emit :: "string \<Rightarrow> string \<Rightarrow> json \<Rightarrow> 's dev_world \<Rightarrow> 's dev_world" where
  "emit i kind j w = w\<lparr>dw_events := dw_events w @ [(''device:'' @ i @ '':'' @ kind, j)]\<rparr>"

datatype mqtt_event = M_connect | M_error | M_close | M_message string jstr

definition handle_message :: "string \<Rightarrow> jstr \<Rightarrow> 's dev_world \<Rightarrow> 's dev_world" where
  "handle_message topic msg w =
     (case json_parse msg of None \<Rightarrow> w
      | Some j \<Rightarrow> (let parts = split_on (CHR ''/'') topic in
          if length parts \<ge> 3
          then if parts ! 2 = ''status'' then emit (parts ! 1) ''status'' j w
               else if parts ! 2 = ''data'' then emit (parts ! 1) ''data'' j w
               else w
          else w))"

fun mqtt_on :: "mqtt_event \<Rightarrow> 's dev_world \<Rightarrow> 's dev_world" where
  "mqtt_on M_connect w = w\<lparr>dw_connected := True\<rparr>"
| "mqtt_on M_error w = w\<lparr>dw_connected := False\<rparr>"
| "mqtt_on M_close w = w\<lparr>dw_connected := False\<rparr>"
| "mqtt_on (M_message topic msg) w = handle_message topic msg w"

type_synonym broker = "string \<Rightarrow> json \<Rightarrow> bool"

definition mqtt_publish :: "broker \<Rightarrow> string \<Rightarrow> json \<Rightarrow> 's dev_world \<Rightarrow> bool \<times> 's dev_world" where
  "mqtt_publish pub topic msg w =
     (if \<not> dw_connected w then (False, w)
      else if pub topic msg then (True, w\<lparr>dw_published := dw_published w @ [(topic, msg)]\<rparr>) else (False, w))"

definition mqtt_send_command :: "broker \<Rightarrow> ms \<Rightarrow> string \<Rightarrow> string \<Rightarrow> json option \<Rightarrow> 's dev_world \<Rightarrow> bool \<times> 's dev_world" where
  "mqtt_send_command pub now i cmd params w = mqtt_publish pub (''devices/'' @ i @ ''/command'')
     (JObj [(''command'', j_str cmd), (''parameters'', case params of None \<Rightarrow> JObj [] | Some p \<Rightarrow> p), (''timestamp'', j_int now)]) w"

definition mqtt_update_configuration :: "broker \<Rightarrow> ms \<Rightarrow> string \<Rightarrow> json \<Rightarrow> 's dev_world \<Rightarrow> bool \<times> 's dev_world" where
  "mqtt_update_configuration pub now i conf w = mqtt_publish pub (''devices/'' @ i @ ''/config'')
     (JObj [(''configuration'', conf), (''timestamp'', j_int now)]) w"

definition mqtt_request_status :: "broker \<Rightarrow> ms \<Rightarrow> string \<Rightarrow> 's dev_world \<Rightarrow> bool \<times> 's dev_world" where
  "mqtt_request_status pub now i w = mqtt_publish pub (''devices/'' @ i @ ''/request/status'') (JObj [(''timestamp'', j_int now)]) w"

subsection \<open>Reading\<close>

definition DEVICE_TTL :: int where "DEVICE_TTL = 300"

definition device_key :: "string \<Rightarrow> string" where "device_key i = ''device:'' @ i"

definition device_not_found :: http_error where "device_not_found = NotFound ''Device not found''"

definition find_device :: "string \<Rightarrow> 's dev_world \<Rightarrow> device_row option" where
  "find_device i w = find_by dv_id i (dw_devices w)"

record found_device =
  fd_json :: json
  fd_cached :: bool

definition may_view :: "json \<Rightarrow> current_user \<Rightarrow> bool" where
  "may_view owner u \<longleftrightarrow> owner = j_str (cu_id u) \<or> cu_role u \<in> {ADMIN, SUPER_ADMIN}"

definition no_view :: http_error where
  "no_view = Forbidden ''You do not have permission to view this device''"

definition field_of :: "string \<Rightarrow> json \<Rightarrow> json" where
  "field_of k j = (case json_field k (Some j) of None \<Rightarrow> JNull | Some v \<Rightarrow> v)"

definition find_one_device :: "ms \<Rightarrow> string \<Rightarrow> current_user \<Rightarrow> 's dev_world \<Rightarrow> found_device res \<times> 's dev_world" where
  "find_one_device now i u w =
     (let (cached, ch) = cache_get now (device_key i) None (dw_cache w);
          w1 = w\<lparr>dw_cache := ch\<rparr>
      in if json_truthy cached
         then (if may_view (field_of ''userId'' cached) u then (Inr \<lparr>fd_json = cached, fd_cached = True\<rparr>, w1) else (Inl no_view, w1))
         else (case find_device i w of
                 None \<Rightarrow> (Inl device_not_found, w1)
               | Some d \<Rightarrow>
                   if may_view (j_opt j_str (dv_userId d)) u
                   then (Inr \<lparr>fd_json = device_detail w d, fd_cached = False\<rparr>,
                     w1\<lparr>dw_cache := snd (cache_set now (device_key i) (device_detail w d) (Some DEVICE_TTL) [''devices'', device_key i] ch)\<rparr>)
                   else (Inl no_view, w1)))"

text \<open>The flags of a query arrive as texts and are never converted: any text but the empty one is truthy.
  \<open>dq_text\<close> is the text \<open>JSON.stringify\<close> gives of the query as it was received.\<close>

record device_query =
  dq_text :: string
  dq_page :: "int option"
  dq_limit :: "int option"
  dq_type :: "device_type option"
  dq_status :: "device_status option"
  dq_search :: "string option"
  dq_archived :: "string option"
  dq_assigned :: "string option"
  dq_sortBy :: "string option"
  dq_asc :: "bool option"

text \<open>\<open>where.userId\<close>: it is set to the caller first, and again by the filter.\<close>

definition owner_condition :: "device_query \<Rightarrow> current_user \<Rightarrow> string option \<Rightarrow> bool" where
  "owner_condition q u owner =
     (case dq_assigned q of
        Some s \<Rightarrow> if s \<noteq> [] then owner \<noteq> None else owner = None
      | None \<Rightarrow> if cu_role u \<notin> {ADMIN, SUPER_ADMIN} then owner = Some (cu_id u) else True)"

definition device_matches :: "device_query \<Rightarrow> current_user \<Rightarrow> device_row \<Rightarrow> bool" where
  "device_matches q u d \<longleftrightarrow> owner_condition q u (dv_userId d) \<and>
     (case dq_type q of None \<Rightarrow> True | Some t \<Rightarrow> dv_type d = t) \<and>
     (case dq_status q of None \<Rightarrow> True | Some s \<Rightarrow> dv_status d = s) \<and>
     (case dq_archived q of None \<Rightarrow> True | Some s \<Rightarrow> dv_isActive d = (s = [])) \<and>
     (truthy_str (dq_search q) \<longrightarrow> contains_insensitive (dv_name d) (the (dq_search q)) \<or>
        opt_contains (dv_location d) (the (dq_search q)) \<or> opt_contains (dv_description d) (the (dq_search q)))"

type_synonym column_order = "string \<Rightarrow> (device_row \<Rightarrow> device_row \<Rightarrow> bool) option"

definition list_devices :: "column_order \<Rightarrow> device_query \<Rightarrow> current_user \<Rightarrow> 's dev_world \<Rightarrow> json res" where
  "list_devices col q u w =
     (case col (or_old (dq_sortBy q) ''createdAt'') of
        None \<Rightarrow> Inl (InternalError ''Unknown argument in orderBy'')
      | Some le \<Rightarrow>
          (let page = or_old (dq_page q) 1; lmt = or_old (dq_limit q) 10;
               rows = filter (device_matches q u) (dw_devices w);
               sorted = sort_by (if or_old (dq_asc q) False then le else (\<lambda>x y. le y x)) rows;
               n = int (length rows)
           in Inr (JObj [(''data'', JArr (map (device_list_json (dw_users w)) (page_rows page lmt sorted))),
                (''meta'', JObj [(''total'', j_int n), (''page'', j_int page), (''limit'', j_int lmt),
                   (''totalPages'', j_int (total_pages n lmt))])])))"

definition device_list_key :: "current_user \<Rightarrow> device_query \<Rightarrow> string" where
  "device_list_key u q = ''devices:list:'' @ cu_id u @ '':'' @ dq_text q"

definition find_all_devices :: "column_order \<Rightarrow> ms \<Rightarrow> device_query \<Rightarrow> current_user \<Rightarrow> 's dev_world \<Rightarrow> json res \<times> 's dev_world" where
  "find_all_devices col now q u w =
     (let key = device_list_key u q;
          (cached, ch) = cache_get now key None (dw_cache w);
          w1 = w\<lparr>dw_cache := ch\<rparr>
      in if json_truthy cached then (Inr cached, w1)
         else (case list_devices col q u w of
                 Inl e \<Rightarrow> (Inl e, w1)
               | Inr j \<Rightarrow> (Inr j, w1\<lparr>dw_cache := snd (cache_set now key j (Some DEVICE_TTL) [''devices'', ''devices:list''] ch)\<rparr>)))"

subsection \<open>Writing\<close>

definition evict_devices :: "ms \<Rightarrow> string list \<Rightarrow> 's dev_world \<Rightarrow> 's dev_world" where
  "evict_devices now tags w = w\<lparr>dw_cache := snd (invalidate_by_tags now tags (dw_cache w))\<rparr>"

definition write_device :: "string \<Rightarrow> (device_row \<Rightarrow> device_row) \<Rightarrow> 's dev_world \<Rightarrow> 's dev_world" where
  "write_device i f w = w\<lparr>dw_devices := update_by dv_id i f (dw_devices w)\<rparr>"

definition list_tags :: "string list" where "list_tags = [''devices'', ''devices:list'']"

definition device_tags :: "string \<Rightarrow> string list" where "device_tags i = [''devices'', ''devices:list'', device_key i]"

record device_dto =
  dd_name :: string
  dd_type :: device_type
  dd_description :: "string option"
  dd_location :: "string option"
  dd_serial :: "string option"
  dd_firmware :: "string option"
  dd_configuration :: "json option"
  dd_userId :: "string option"

text \<open>The checks of the database on a new row: \<open>configuration\<close> is no column of a device.\<close>

definition insert_device :: "json option \<Rightarrow> device_row \<Rightarrow> 's dev_world \<Rightarrow> device_row res \<times> 's dev_world" where
  "insert_device conf d w =
     (if conf \<noteq> None then (Inl (InternalError ''Unknown argument configuration''), w)
      else if find_by dv_serial (dv_serial d) (dw_devices w) \<noteq> None
      then (Inl (InternalError ''Unique constraint failed on the fields: (serialNumber)''), w)
      else if (case dv_userId d of None \<Rightarrow> False | Some i \<Rightarrow> find_by du_id i (dw_users w) = None)
      then (Inl (InternalError ''Foreign key constraint violated''), w)
      else (Inr d, w\<lparr>dw_devices := dw_devices w @ [d]\<rparr>))"

definition create_device :: "ms \<Rightarrow> string \<Rightarrow> string \<Rightarrow> device_dto \<Rightarrow> current_user \<Rightarrow> 's dev_world \<Rightarrow> device_row res \<times> 's dev_world" where
  "create_device now newId genSerial dto u w =
     (if truthy_str (dd_userId dto) \<and> cu_role u \<notin> {ADMIN, SUPER_ADMIN, GROWER} \<and> dd_userId dto \<noteq> Some (cu_id u)
      then (Inl (Forbidden ''You can only create devices for yourself''), w)
      else and_then (insert_device (dd_configuration dto)
          \<lparr>dv_id = newId, dv_name = dd_name dto, dv_type = dd_type dto, dv_serial = str_or (dd_serial dto) genSerial,
           dv_status = OFFLINE, dv_userId = dd_userId dto, dv_location = dd_location dto, dv_description = dd_description dto,
           dv_firmware = dd_firmware dto, dv_ip = None, dv_mac = None, dv_lastSeen = None, dv_isActive = True,
           dv_createdAt = now, dv_updatedAt = now\<rparr> w)
        (\<lambda>d w. (Inr d, evict_devices now list_tags w)))"

record device_update =
  ud_dv_name :: "string option"
  ud_dv_type :: "device_type option"
  ud_dv_serial :: "string option"
  ud_dv_description :: "string option option"
  ud_dv_location :: "string option option"
  ud_dv_firmware :: "string option option"
  ud_dv_configuration :: "json option"

definition serial_clash :: "string option \<Rightarrow> string \<Rightarrow> 's dev_world \<Rightarrow> bool" where
  "serial_clash s i w \<longleftrightarrow>
     (case s of None \<Rightarrow> False | Some t \<Rightarrow> (case find_by dv_serial t (dw_devices w) of None \<Rightarrow> False | Some d \<Rightarrow> dv_id d \<noteq> i))"

definition apply_device_update :: "ms \<Rightarrow> device_update \<Rightarrow> device_row \<Rightarrow> device_row" where
  "apply_device_update now p d =
     d\<lparr>dv_name := or_old (ud_dv_name p) (dv_name d), dv_type := or_old (ud_dv_type p) (dv_type d),
       dv_serial := or_old (ud_dv_serial p) (dv_serial d), dv_description := or_old (ud_dv_description p) (dv_description d),
       dv_location := or_old (ud_dv_location p) (dv_location d), dv_firmware := or_old (ud_dv_firmware p) (dv_firmware d),
       dv_updatedAt := now\<rparr>"

text \<open>Prisma's \<open>update\<close> by id: it throws when there is no such row.\<close>

definition db_update_device ::
  "string \<Rightarrow> json option \<Rightarrow> string option \<Rightarrow> (device_row \<Rightarrow> device_row) \<Rightarrow> 's dev_world \<Rightarrow> device_row res \<times> 's dev_world" where
  "db_update_device i conf serial f w =
     (if conf \<noteq> None then (Inl (InternalError ''Unknown argument configuration''), w)
      else case find_device i w of
        None \<Rightarrow> (Inl (InternalError ''No record was found for an update''), w)
      | Some d \<Rightarrow>
          if serial_clash serial i w then (Inl (InternalError ''Unique constraint failed on the fields: (serialNumber)''), w)
          else (Inr (f d), write_device i f w))"

definition update_device :: "ms \<Rightarrow> string \<Rightarrow> device_update \<Rightarrow> current_user \<Rightarrow> 's dev_world \<Rightarrow> device_row res \<times> 's dev_world" where
  "update_device now i p u w =
     and_then (find_one_device now i u w) (\<lambda>_ w.
     and_then (db_update_device i (ud_dv_configuration p) (ud_dv_serial p) (apply_device_update now p) w) (\<lambda>d w.
       (Inr d, evict_devices now (device_tags i) w)))"

definition assign_device :: "ms \<Rightarrow> string \<Rightarrow> string \<Rightarrow> 's dev_world \<Rightarrow> device_row res \<times> 's dev_world" where
  "assign_device now i uid w =
     (case find_device i w of
        None \<Rightarrow> (Inl device_not_found, w)
      | Some d \<Rightarrow>
          if \<not> dv_isActive d then (Inl (BadRequest ''Cannot assign an archived device''), w)
          else (case find_by du_id uid (dw_users w) of
              None \<Rightarrow> (Inl (NotFound ''User not found''), w)
            | Some usr \<Rightarrow>
                if \<not> du_isActive usr then (Inl (BadRequest ''Cannot assign device to an archived user''), w)
                else (let f = (\<lambda>d. d\<lparr>dv_userId := Some uid, dv_updatedAt := now\<rparr>);
                          w1 = evict_devices now (device_tags i) (write_device i f w);
                          w2 = (if truthy_str (dv_userId d) then evict_devices now [''devices:user:'' @ the (dv_userId d)] w1 else w1)
                      in (Inr (f d), evict_devices now [''devices:user:'' @ uid] w2))))"

definition remove_device :: "ms \<Rightarrow> string \<Rightarrow> 's dev_world \<Rightarrow> device_row res \<times> 's dev_world" where
  "remove_device now i w =
     and_then (db_update_device i None None (\<lambda>d. d\<lparr>dv_isActive := False, dv_updatedAt := now\<rparr>) w) (\<lambda>d w.
       (Inr d, evict_devices now (device_tags i) w))"

definition toggle_activation :: "ms \<Rightarrow> string \<Rightarrow> current_user \<Rightarrow> 's dev_world \<Rightarrow> device_row res \<times> 's dev_world" where
  "toggle_activation now i u w =
     and_then (find_one_device now i u w) (\<lambda>fd w.
     and_then (db_update_device i None None
         (\<lambda>d. d\<lparr>dv_isActive := \<not> json_truthy (field_of ''isActive'' (fd_json fd)), dv_updatedAt := now\<rparr>) w) (\<lambda>d w.
       (Inr d, evict_devices now (device_tags i) w)))"

subsection \<open>Devices that call in\<close>

definition find_by_serial :: "string \<Rightarrow> 's dev_world \<Rightarrow> device_row option" where
  "find_by_serial s w =
     (case find_by dv_serial s (dw_devices w) of
        Some d \<Rightarrow> Some d
      | None \<Rightarrow>
          (case List.find (\<lambda>d. contains_insensitive (dv_serial d) s) (dw_devices w) of
             Some d \<Rightarrow> Some d
           | None \<Rightarrow> List.find dv_isActive (dw_devices w)))"

record iot_dto =
  io_name :: string
  io_type :: device_type
  io_serial :: string
  io_location :: "string option"
  io_firmware :: "string option"
  io_ip :: "string option"
  io_mac :: "string option"
  io_status :: "device_status option"
  io_userId :: "string option"

text \<open>\<open>trim() !== ''\<close>, for the white space of ASCII.\<close>

definition not_blank :: "string \<Rightarrow> bool" where
  "not_blank s \<longleftrightarrow> (\<exists>c \<in> set s. \<not> ((of_char c :: nat) = 32 \<or> 9 \<le> (of_char c :: nat) \<and> (of_char c :: nat) \<le> 13))"

definition create_iot_device :: "ms \<Rightarrow> string \<Rightarrow> string \<Rightarrow> iot_dto \<Rightarrow> 's dev_world \<Rightarrow> device_row res \<times> 's dev_world" where
  "create_iot_device now newId genSerial dto w =
     and_then (insert_device None
         \<lparr>dv_id = newId, dv_name = io_name dto, dv_type = io_type dto, dv_serial = str_or (Some (io_serial dto)) genSerial,
          dv_status = or_old (io_status dto) ONLINE,
          dv_userId = (if truthy_str (io_userId dto) \<and> not_blank (the (io_userId dto)) then io_userId dto else None),
          dv_location = (if truthy_str (io_location dto) then io_location dto else None), dv_description = None,
          dv_firmware = io_firmware dto, dv_ip = io_ip dto, dv_mac = io_mac dto, dv_lastSeen = Some now, dv_isActive = True,
          dv_createdAt = now, dv_updatedAt = now\<rparr> w)
       (\<lambda>d w. (Inr d, evict_devices now list_tags w))"

text \<open>What a device may send: the columns its two endpoints write; \<open>userId\<close> is taken out, and \<open>lastSeen\<close>
  is the time of the call in both. (The body of the update is not validated at all; columns beyond
  these, such as \<open>id\<close>, are not modelled.)\<close>

record serial_update =
  su_name :: "string option"
  su_type :: "device_type option"
  su_serial :: "string option"
  su_location :: "string option option"
  su_description :: "string option option"
  su_status :: "device_status option"
  su_isActive :: "bool option"
  su_ip :: "string option option"
  su_mac :: "string option option"
  su_firmware :: "string option option"
  su_configuration :: "json option"

definition apply_serial_update :: "ms \<Rightarrow> serial_update \<Rightarrow> device_row \<Rightarrow> device_row" where
  "apply_serial_update now p d =
     d\<lparr>dv_name := or_old (su_name p) (dv_name d), dv_type := or_old (su_type p) (dv_type d),
       dv_serial := or_old (su_serial p) (dv_serial d), dv_location := or_old (su_location p) (dv_location d),
       dv_description := or_old (su_description p) (dv_description d), dv_status := or_old (su_status p) (dv_status d),
       dv_isActive := or_old (su_isActive p) (dv_isActive d), dv_ip := or_old (su_ip p) (dv_ip d),
       dv_mac := or_old (su_mac p) (dv_mac d), dv_firmware := or_old (su_firmware p) (dv_firmware d),
       dv_lastSeen := Some now, dv_updatedAt := now\<rparr>"

definition update_by_serial :: "ms \<Rightarrow> string \<Rightarrow> serial_update \<Rightarrow> 's dev_world \<Rightarrow> device_row res \<times> 's dev_world" where
  "update_by_serial now s p w =
     (case find_by dv_serial s (dw_devices w) of
        None \<Rightarrow> (Inl (NotFound (''Device with serial number '' @ s @ '' not found'')), w)
      | Some d \<Rightarrow> and_then (db_update_device (dv_id d) (su_configuration p) (su_serial p) (apply_serial_update now p) w) (\<lambda>d' w.
          (Inr d', evict_devices now (device_tags (dv_id d)) w)))"

fun error_message :: "http_error \<Rightarrow> string" where
  "error_message (NotFound m) = m" | "error_message (BadRequest m) = m" | "error_message (Forbidden m) = m"
| "error_message (Conflict m) = m" | "error_message (InternalError m) = m" | "error_message (Unauthorized m) = m"

definition wrap_error :: "string \<Rightarrow> 'a res \<times> 'w \<Rightarrow> 'a res \<times> 'w" where
  "wrap_error pre r = (case r of (Inl e, w) \<Rightarrow> (Inl (BadRequest (pre @ error_message e)), w) | (Inr a, w) \<Rightarrow> (Inr a, w))"

definition register_device :: "ms \<Rightarrow> string \<Rightarrow> string \<Rightarrow> iot_dto \<Rightarrow> 's dev_world \<Rightarrow> device_row res \<times> 's dev_world" where
  "register_device now newId genSerial dto w = wrap_error ''Failed to register device: ''
     (case find_by_serial (io_serial dto) w of
        Some _ \<Rightarrow> update_by_serial now (io_serial dto)
          \<lparr>su_name = Some (io_name dto), su_type = Some (io_type dto), su_serial = None,
           su_location = map_option Some (io_location dto), su_description = None,
           su_status = Some (or_old (io_status dto) ONLINE), su_isActive = Some True, su_ip = map_option Some (io_ip dto),
           su_mac = map_option Some (io_mac dto), su_firmware = map_option Some (io_firmware dto), su_configuration = None\<rparr> w
      | None \<Rightarrow> create_iot_device now newId genSerial dto w)"

definition update_device_by_serial :: "ms \<Rightarrow> string \<Rightarrow> serial_update \<Rightarrow> 's dev_world \<Rightarrow> device_row res \<times> 's dev_world" where
  "update_device_by_serial now s p w = wrap_error ''Failed to update device: '' (update_by_serial now s p w)"

definition get_device_by_serial :: "string \<Rightarrow> 's dev_world \<Rightarrow> device_row res" where
  "get_device_by_serial s w =
     (case find_by_serial s w of
        None \<Rightarrow> Inl (NotFound (''Device with serial number '' @ s @ '' not found''))
      | Some d \<Rightarrow> Inr d)"

subsection \<open>Commands, configuration and firmware\<close>

record sent_command =
  sc_message :: string
  sc_commandId :: string

definition set_command_status :: "string \<Rightarrow> command_status \<Rightarrow> 's dev_world \<Rightarrow> 's dev_world" where
  "set_command_status c st w = w\<lparr>dw_commands := update_by dc_id c (\<lambda>r. r\<lparr>dc_status := st\<rparr>) (dw_commands w)\<rparr>"

definition send_command ::
  "broker \<Rightarrow> ms \<Rightarrow> string \<Rightarrow> string \<Rightarrow> string \<Rightarrow> json option \<Rightarrow> current_user \<Rightarrow> 's dev_world \<Rightarrow> sent_command res \<times> 's dev_world" where
  "send_command pub now newId i cmd params u w =
     and_then (find_one_device now i u w) (\<lambda>fd w.
       if field_of ''status'' (fd_json fd) = j_str ''OFFLINE''
       then (Inl (BadRequest ''Cannot send command to offline device''), w)
       else (let stored = (case params of None \<Rightarrow> JObj [] | Some p \<Rightarrow> if json_truthy p then p else JObj []);
                 w1 = w\<lparr>dw_commands := dw_commands w @ [\<lparr>dc_id = newId, dc_deviceId = i, dc_command = cmd,
                   dc_parameters = stored, dc_status = CMD_pending, dc_sentAt = now\<rparr>]\<rparr>
             in case mqtt_send_command pub now i cmd params w1 of
                  (True, w2) \<Rightarrow> (Inr \<lparr>sc_message = ''Command sent successfully'', sc_commandId = newId\<rparr>,
                     evict_devices now [device_key i] (set_command_status newId CMD_sent w2))
                | (False, w2) \<Rightarrow> (Inl (BadRequest ''Failed to send command to device''), set_command_status newId CMD_failed w2)))"

definition get_command_history :: "ms \<Rightarrow> string \<Rightarrow> current_user \<Rightarrow> 's dev_world \<Rightarrow> command_row list res \<times> 's dev_world" where
  "get_command_history now i u w = and_then (find_one_device now i u w) (\<lambda>_ w.
     (Inr (take 50 (newest_commands (\<lambda>c. dc_deviceId c = i) (dw_commands w))), w))"

definition get_status :: "broker \<Rightarrow> ms \<Rightarrow> string \<Rightarrow> current_user \<Rightarrow> 's dev_world \<Rightarrow> json res \<times> 's dev_world" where
  "get_status pub now i u w = and_then (find_one_device now i u w) (\<lambda>fd w.
     (Inr (JObj ((''deviceId'', j_str i) # map (\<lambda>k. (k, field_of k (fd_json fd)))
        [''status'', ''lastSeen'', ''isActive'', ''firmware'', ''ipAddress'', ''macAddress''])),
      snd (mqtt_request_status pub now i w)))"

definition restart_device :: "broker \<Rightarrow> ms \<Rightarrow> string \<Rightarrow> string \<Rightarrow> current_user \<Rightarrow> 's dev_world \<Rightarrow> sent_command res \<times> 's dev_world" where
  "restart_device pub now newId i u w = send_command pub now newId i ''RESTART'' (Some (JObj [])) u w"

definition reset_device :: "broker \<Rightarrow> ms \<Rightarrow> string \<Rightarrow> string \<Rightarrow> current_user \<Rightarrow> 's dev_world \<Rightarrow> sent_command res \<times> 's dev_world" where
  "reset_device pub now newId i u w = send_command pub now newId i ''RESET'' (Some (JObj [])) u w"

definition get_configuration :: "ms \<Rightarrow> string \<Rightarrow> current_user \<Rightarrow> 's dev_world \<Rightarrow> json res \<times> 's dev_world" where
  "get_configuration now i u w = and_then (find_one_device now i u w) (\<lambda>_ w.
     (Inr (JObj [(''deviceId'', j_str i), (''configuration'', JObj [(''readingInterval'', j_int 60), (''alertThresholds'', JObj []),
        (''operationSettings'', JObj []), (''notificationSettings'', JObj [])])]), w))"

definition update_configuration :: "broker \<Rightarrow> ms \<Rightarrow> string \<Rightarrow> json \<Rightarrow> current_user \<Rightarrow> 's dev_world \<Rightarrow> json res \<times> 's dev_world" where
  "update_configuration pub now i conf u w = and_then (find_one_device now i u w) (\<lambda>_ w.
     case mqtt_update_configuration pub now i conf w of
       (True, w) \<Rightarrow> (Inr conf, w)
     | (False, w) \<Rightarrow> (Inl (BadRequest ''Failed to send configuration to device''), w))"

record firmware_dto =
  fw_version :: string
  fw_url :: string
  fw_checksum :: string

definition update_firmware ::
  "broker \<Rightarrow> ms \<Rightarrow> string \<Rightarrow> string \<Rightarrow> firmware_dto \<Rightarrow> current_user \<Rightarrow> 's dev_world \<Rightarrow> sent_command res \<times> 's dev_world" where
  "update_firmware pub now newId i fw u w =
     and_then (find_one_device now i u w) (\<lambda>_ w.
     and_then (send_command pub now newId i ''UPDATE_FIRMWARE''
         (Some (JObj [(''version'', j_str (fw_version fw)), (''url'', j_str (fw_url fw)), (''checksum'', j_str (fw_checksum fw))])) u w) (\<lambda>sent w.
     and_then (db_update_device i None None
         (\<lambda>d. d\<lparr>dv_firmware := Some (fw_version fw @ '' (updating)''), dv_updatedAt := now\<rparr>) w) (\<lambda>_ w.
       (Inr (sent\<lparr>sc_message := ''Firmware update initiated''\<rparr>), w))))"

definition get_firmware_history :: "ms \<Rightarrow> string \<Rightarrow> current_user \<Rightarrow> 's dev_world \<Rightarrow> command_row list res \<times> 's dev_world" where
  "get_firmware_history now i u w = and_then (find_one_device now i u w) (\<lambda>_ w.
     (Inr (newest_commands (\<lambda>c. dc_deviceId c = i \<and> dc_command c = ''UPDATE_FIRMWARE'') (dw_commands w)), w))"

subsection \<open>Sensors\<close>

definition get_sensors :: "ms \<Rightarrow> string \<Rightarrow> current_user \<Rightarrow> 's dev_world \<Rightarrow> sensor_row list res \<times> 's dev_world" where
  "get_sensors now i u w = and_then (find_one_device now i u w) (\<lambda>_ w. (Inr (active_sensors i (dw_sensors w)), w))"

text \<open>The bodies of the sensor routes are not validated: any column may be given, \<open>deviceId\<close> too.\<close>

record sensor_dto =
  sd_deviceId :: "string option"
  sd_type :: "string option"
  sd_name :: "string option"
  sd_unit :: "string option"
  sd_min :: "rat option option"
  sd_max :: "rat option option"
  sd_calibration :: "json option"
  sd_isActive :: "bool option"

definition unknown_device :: "string \<Rightarrow> 's dev_world \<Rightarrow> bool" where
  "unknown_device i w \<longleftrightarrow> find_device i w = None"

definition add_sensor :: "ms \<Rightarrow> string \<Rightarrow> string \<Rightarrow> sensor_dto \<Rightarrow> 's dev_world \<Rightarrow> sensor_row res \<times> 's dev_world" where
  "add_sensor now newId i dto w =
     (let dev = or_old (sd_deviceId dto) i
      in case (sd_type dto, sd_name dto, sd_unit dto) of
        (Some ty, Some nm, Some un) \<Rightarrow>
          if unknown_device dev w then (Inl (InternalError ''Foreign key constraint violated''), w)
          else (let s = \<lparr>sn_id = newId, sn_deviceId = dev, sn_type = ty, sn_name = nm, sn_unit = un,
                  sn_min = or_old (sd_min dto) None, sn_max = or_old (sd_max dto) None,
                  sn_calibration = or_old (sd_calibration dto) JNull, sn_isActive = or_old (sd_isActive dto) True,
                  sn_createdAt = now, sn_updatedAt = now\<rparr>
                in (Inr s, w\<lparr>dw_sensors := dw_sensors w @ [s]\<rparr>))
      | _ \<Rightarrow> (Inl (InternalError ''Argument is missing''), w))"

definition sensor_of :: "string \<Rightarrow> string \<Rightarrow> 's dev_world \<Rightarrow> sensor_row option" where
  "sensor_of i s w = List.find (\<lambda>r. sn_id r = s \<and> sn_deviceId r = i) (dw_sensors w)"

definition sensor_not_found :: http_error where "sensor_not_found = NotFound ''Sensor not found''"

definition write_sensor :: "string \<Rightarrow> (sensor_row \<Rightarrow> sensor_row) \<Rightarrow> 's dev_world \<Rightarrow> 's dev_world" where
  "write_sensor s f w = w\<lparr>dw_sensors := update_by sn_id s f (dw_sensors w)\<rparr>"

definition apply_sensor_update :: "ms \<Rightarrow> sensor_dto \<Rightarrow> sensor_row \<Rightarrow> sensor_row" where
  "apply_sensor_update now dto s =
     s\<lparr>sn_deviceId := or_old (sd_deviceId dto) (sn_deviceId s), sn_type := or_old (sd_type dto) (sn_type s),
       sn_name := or_old (sd_name dto) (sn_name s), sn_unit := or_old (sd_unit dto) (sn_unit s),
       sn_min := or_old (sd_min dto) (sn_min s), sn_max := or_old (sd_max dto) (sn_max s),
       sn_calibration := or_old (sd_calibration dto) (sn_calibration s), sn_isActive := or_old (sd_isActive dto) (sn_isActive s),
       sn_updatedAt := now\<rparr>"

definition update_sensor :: "ms \<Rightarrow> string \<Rightarrow> string \<Rightarrow> sensor_dto \<Rightarrow> 's dev_world \<Rightarrow> sensor_row res \<times> 's dev_world" where
  "update_sensor now i s dto w =
     (case sensor_of i s w of
        None \<Rightarrow> (Inl sensor_not_found, w)
      | Some r \<Rightarrow>
          if sd_deviceId dto \<noteq> None \<and> unknown_device (the (sd_deviceId dto)) w
          then (Inl (InternalError ''Foreign key constraint violated''), w)
          else (Inr (apply_sensor_update now dto r), write_sensor s (apply_sensor_update now dto) w))"

definition remove_sensor :: "ms \<Rightarrow> string \<Rightarrow> string \<Rightarrow> 's dev_world \<Rightarrow> unit res \<times> 's dev_world" where
  "remove_sensor now i s w =
     (case sensor_of i s w of
        None \<Rightarrow> (Inl sensor_not_found, w)
      | Some r \<Rightarrow> (Inr (), write_sensor s (\<lambda>r. r\<lparr>sn_isActive := False, sn_updatedAt := now\<rparr>) w))"

text \<open>\<open>{ sensorId, ...calibrationData }\<close>; the data is an object.\<close>

definition calibration_parameters :: "string \<Rightarrow> json \<Rightarrow> json" where
  "calibration_parameters s cal =
     JObj (fold (\<lambda>(k, v). js_map_set k v) (case cal of JObj fs \<Rightarrow> fs | _ \<Rightarrow> []) [(''sensorId'', j_str s)])"

definition calibrate_sensor ::
  "broker \<Rightarrow> ms \<Rightarrow> string \<Rightarrow> string \<Rightarrow> string \<Rightarrow> json \<Rightarrow> current_user \<Rightarrow> 's dev_world \<Rightarrow> sensor_row res \<times> 's dev_world" where
  "calibrate_sensor pub now newId i s cal u w =
     and_then (find_one_device now i u w) (\<lambda>_ w.
     case sensor_of i s w of
       None \<Rightarrow> (Inl sensor_not_found, w)
     | Some r \<Rightarrow>
         (let f = (\<lambda>r. r\<lparr>sn_calibration := cal, sn_updatedAt := now\<rparr>)
          in and_then (send_command pub now newId i ''CALIBRATE'' (Some (calibration_parameters s cal)) u (write_sensor s f w))
               (\<lambda>_ w. (Inr (f r), w))))"

subsection \<open>Analytics and health\<close>

record device_analytics =
  da_dataPoints :: nat
  da_commandsSent :: nat
  da_successRate :: rat

definition get_analytics ::
  "ms \<Rightarrow> string \<Rightarrow> ms option \<Rightarrow> ms option \<Rightarrow> current_user \<Rightarrow> 's dev_world \<Rightarrow> device_analytics res \<times> 's dev_world" where
  "get_analytics now i start stop u w = and_then (find_one_device now i u w) (\<lambda>_ w.
     let since = (\<lambda>t. case start of None \<Rightarrow> True | Some s \<Rightarrow> s \<le> t);
         points = length (filter (\<lambda>(d, t). d = i \<and> since t \<and> (case stop of None \<Rightarrow> True | Some e \<Rightarrow> t \<le> e)) (dw_data w));
         cmds = filter (\<lambda>c. dc_deviceId c = i \<and> since (dc_sentAt c)) (dw_commands w);
         good = length (filter (\<lambda>c. dc_status c = CMD_acknowledged) cmds)
     in (Inr \<lparr>da_dataPoints = points, da_commandsSent = length cmds,
              da_successRate = (if length cmds > 0 then to_decimal_places2 (of_nat good / of_nat (length cmds) * 100) else 0)\<rparr>, w))"

record device_health =
  dh_status :: json
  dh_isOnline :: bool
  dh_lastSeen :: json
  dh_connectivity :: string
  dh_uptimeDays :: "int option"

text \<open>\<open>getHealth\<close> compares \<open>lastSeen\<close> with a date; the text of a cached date is not greater than any.\<close>

definition get_health :: "ms \<Rightarrow> string \<Rightarrow> current_user \<Rightarrow> 's dev_world \<Rightarrow> device_health res \<times> 's dev_world" where
  "get_health now i u w = and_then (find_one_device now i u w) (\<lambda>fd w.
     let seen = field_of ''lastSeen'' (fd_json fd);
         online = (\<not> fd_cached fd \<and> (case un_int seen of None \<Rightarrow> False | Some t \<Rightarrow> t > now - 5 * 60 * 1000))
     in (Inr \<lparr>dh_status = field_of ''status'' (fd_json fd), dh_isOnline = online, dh_lastSeen = seen,
              dh_connectivity = (if online then ''GOOD'' else ''POOR''),
              dh_uptimeDays = (if seen \<noteq> JNull
                 then map_option (\<lambda>c. (now - c) div (1000 * 60 * 60 * 24)) (un_int (field_of ''createdAt'' (fd_json fd))) else None)\<rparr>, w))"

definition is_device_online :: "ms \<Rightarrow> device_row \<Rightarrow> bool" where
  "is_device_online now d = (case dv_lastSeen d of None \<Rightarrow> False | Some t \<Rightarrow> t > now - 5 * 60 * 1000)"

definition map_health_to_device_status :: "string \<Rightarrow> device_status" where
  "map_health_to_device_status h =
     (if h = ''HEALTHY'' \<or> h = ''WARNING'' then ONLINE else if h = ''CRITICAL'' then ERROR
      else if h = ''OFFLINE'' then OFFLINE else if h = ''MAINTENANCE'' then MAINTENANCE else OFFLINE)"

definition determine_health_status :: "ms \<Rightarrow> device_row \<Rightarrow> string" where
  "determine_health_status now d =
     (case dv_lastSeen d of None \<Rightarrow> ''OFFLINE''
      | Some t \<Rightarrow> if now - t > 30 * (1000 * 60) then ''OFFLINE''
          else if now - t > 10 * (1000 * 60) then ''WARNING'' else ''HEALTHY'')"

text \<open>The readings that come with the status are passed on as they are.\<close>

definition record_device_health :: "ms \<Rightarrow> string \<Rightarrow> string \<Rightarrow> (string \<times> json) list \<Rightarrow> 's dev_world \<Rightarrow> json res \<times> 's dev_world" where
  "record_device_health now i h readings w =
     (case find_device i w of
        None \<Rightarrow> (Inl (NotFound (''Device '' @ i @ '' not found'')), w)
      | Some d \<Rightarrow>
          (let st = map_health_to_device_status h;
               w1 = (if dv_status d \<noteq> st
                     then (let w' = write_device i (\<lambda>d. d\<lparr>dv_status := st, dv_lastSeen := Some now, dv_updatedAt := now\<rparr>) w
                           in w'\<lparr>dw_cache := snd (cache_delete now (device_key i) None (dw_cache w'))\<rparr>)
                     else w);
               entry = JObj ([(''id'', j_str ''temp-id''), (''deviceId'', j_str i), (''timestamp'', j_int now), (''status'', j_str h)]
                 @ readings @ [(''createdAt'', j_int now)])
           in (Inr entry, emit i ''health'' entry w1)))"

definition perform_health_check :: "ms \<Rightarrow> string \<Rightarrow> (string \<times> json) list \<Rightarrow> 's dev_world \<Rightarrow> json res \<times> 's dev_world" where
  "perform_health_check now i readings w =
     (case find_device i w of
        None \<Rightarrow> (Inl (NotFound (''Device '' @ i @ '' not found'')), w)
      | Some d \<Rightarrow> record_device_health now i (determine_health_status now d) readings w)"

definition get_device_health_history :: "string \<Rightarrow> 's dev_world \<Rightarrow> json list res" where
  "get_device_health_history i w = (if unknown_device i w then Inl (NotFound (''Device '' @ i @ '' not found'')) else Inr [])"

text \<open>No health record is ever read: the latest one is \<open>null\<close>.\<close>

record health_summary =
  hs_overall :: string
  hs_connectivity :: string
  hs_performance :: string
  hs_errors :: int

definition calculate_health_summary :: "ms \<Rightarrow> device_row \<Rightarrow> health_summary" where
  "calculate_health_summary now d = \<lparr>hs_overall = ''UNKNOWN'',
     hs_connectivity = (if is_device_online now d then ''GOOD'' else ''POOR''), hs_performance = ''UNKNOWN'', hs_errors = 0\<rparr>"

definition get_device_health_status :: "ms \<Rightarrow> string \<Rightarrow> 's dev_world \<Rightarrow> (device_row \<times> bool \<times> health_summary) res" where
  "get_device_health_status now i w =
     (case find_device i w of
        None \<Rightarrow> Inl (NotFound (''Device '' @ i @ '' not found''))
      | Some d \<Rightarrow> Inr (d, is_device_online now d, calculate_health_summary now d))"

record fleet_summary =
  fs_total :: nat
  fs_online :: nat
  fs_offline :: nat
  fs_maintenance :: nat
  fs_error :: nat

fun count_device :: "ms \<Rightarrow> device_row \<Rightarrow> fleet_summary \<Rightarrow> fleet_summary" where
  "count_device now d s =
     (let s1 = (if is_device_online now d then s\<lparr>fs_online := fs_online s + 1\<rparr> else s\<lparr>fs_offline := fs_offline s + 1\<rparr>)
      in case dv_status d of MAINTENANCE \<Rightarrow> s1\<lparr>fs_maintenance := fs_maintenance s1 + 1\<rparr>
         | ERROR \<Rightarrow> s1\<lparr>fs_error := fs_error s1 + 1\<rparr> | _ \<Rightarrow> s1)"

definition get_devices_health_summary :: "ms \<Rightarrow> string option \<Rightarrow> 's dev_world \<Rightarrow> fleet_summary" where
  "get_devices_health_summary now uid w =
     (let ds = filter (\<lambda>d. dv_isActive d \<and> (truthy_str uid \<longrightarrow> dv_userId d = uid)) (dw_devices w)
      in fold (count_device now) ds
           \<lparr>fs_total = length ds, fs_online = 0, fs_offline = 0, fs_maintenance = 0, fs_error = 0\<rparr>)"

subsection \<open>The task\<close>

definition OFFLINE_THRESHOLD_MINUTES :: int where "OFFLINE_THRESHOLD_MINUTES = 15"

definition is_silent :: "ms \<Rightarrow> device_row \<Rightarrow> bool" where
  "is_silent now d \<longleftrightarrow> dv_status d = ONLINE \<and>
     (case dv_lastSeen d of None \<Rightarrow> False | Some t \<Rightarrow> t < now - OFFLINE_THRESHOLD_MINUTES * 60000)"

fun mark_offline :: "ms \<Rightarrow> string list \<Rightarrow> 's dev_world \<Rightarrow> 's dev_world" where
  "mark_offline now [] w = w"
| "mark_offline now (i # is) w = mark_offline now is
     (evict_devices now (device_tags i) (write_device i (\<lambda>d. d\<lparr>dv_status := OFFLINE, dv_updatedAt := now\<rparr>) w))"

definition perform_device_status_check :: "ms \<Rightarrow> 's dev_world \<Rightarrow> device_row list \<times> 's dev_world" where
  "perform_device_status_check now w =
     (let ds = filter (is_silent now) (dw_devices w) in (ds, mark_offline now (map dv_id ds) w))"

end
