(* ===== verification/Device_Facts.thy ===== *)
theory Device_Facts
  imports Devices
begin

section \<open>What holds of the devices\<close>

text \<open>
  The cache against the device table over every sequence of requests, self-registration, health checks,
  the offline task and the command log.
\<close>

lemma device_key_simps [simp]:
  "device_key i = device_key j \<longleftrightarrow> i = j" "device_key i \<noteq> device_list_key u q" "device_list_key u q \<noteq> device_key i"
  by (simp_all add: device_key_def device_list_key_def)

lemma field_of_device [simp]:
  "field_of ''userId'' (JObj (device_fields d @ rel)) = j_opt j_str (dv_userId d)"
  "field_of ''status'' (JObj (device_fields d @ rel)) = j_str (status_text (dv_status d))"
  "field_of ''isActive'' (JObj (device_fields d @ rel)) = JBool (dv_isActive d)"
  "field_of ''lastSeen'' (JObj (device_fields d @ rel)) = j_opt j_int (dv_lastSeen d)"
  "field_of ''createdAt'' (JObj (device_fields d @ rel)) = j_int (dv_createdAt d)"
  by (simp_all add: field_of_def device_fields_def)

lemma may_view_owner [simp]:
  "may_view (j_opt j_str owner) u \<longleftrightarrow> owner = Some (cu_id u) \<or> cu_role u \<in> {ADMIN, SUPER_ADMIN}"
  by (cases owner) (auto simp: may_view_def j_opt_def j_str_def)

lemma evict_devices_simps [simp]:
  "dw_devices (evict_devices now tags w) = dw_devices w" "dw_sensors (evict_devices now tags w) = dw_sensors w"
  "dw_commands (evict_devices now tags w) = dw_commands w" "dw_published (evict_devices now tags w) = dw_published w"
  "dw_users (evict_devices now tags w) = dw_users w"
  by (simp_all add: evict_devices_def)

lemma write_device_simps [simp]:
  "dw_cache (write_device i f w) = dw_cache w" "dw_devices (write_device i f w) = update_by dv_id i f (dw_devices w)"
  by (simp_all add: write_device_def)

subsection \<open>The cache\<close>

definition device_cache_key :: "string \<Rightarrow> bool" where
  "device_cache_key key \<longleftrightarrow> (\<exists>i. key = device_key i)"

text \<open>What may be cached under the key of a device: its columns as they are in the table, with some relations.\<close>

definition device_value :: "device_row list \<Rightarrow> string \<Rightarrow> json \<Rightarrow> bool" where
  "device_value ds key v \<longleftrightarrow> (\<exists>i d rel. key = device_key i \<and> find_by dv_id i ds = Some d \<and> v = JObj (device_fields d @ rel))"

definition keeps_id :: "(device_row \<Rightarrow> device_row) \<Rightarrow> bool" where
  "keeps_id f \<longleftrightarrow> (\<forall>d. dv_id (f d) = dv_id d)"

lemma device_value_write:
  "keeps_id f \<Longrightarrow> key \<noteq> device_key i \<Longrightarrow> device_value ds key v \<Longrightarrow> device_value (update_by dv_id i f ds) key v"
  by (auto simp: device_value_def keeps_id_def find_by_update_by)

lemma device_value_append: "device_value ds key v \<Longrightarrow> device_value (ds @ ds') key v"
  by (auto simp: device_value_def)

context redis_server
begin

definition dev_coherent :: "ms \<Rightarrow> 's dev_world \<Rightarrow> bool" where
  "dev_coherent now w = coherent_cache device_cache_key (device_value (dw_devices w)) (\<lambda>key. {''devices'', key}) DEVICE_TTL now
     (redis (dw_cache w))"

lemma dev_coherentI:
  "coherent_cache device_cache_key (device_value ds) (\<lambda>key. {''devices'', key}) DEVICE_TTL now (redis ch) \<Longrightarrow>
   dw_devices w = ds \<Longrightarrow> dw_cache w = ch \<Longrightarrow> dev_coherent now w"
  by (simp add: dev_coherent_def)

lemma dev_coherent_cong:
  "redis (dw_cache w') = redis (dw_cache w) \<Longrightarrow> dw_devices w' = dw_devices w \<Longrightarrow> dev_coherent now w' = dev_coherent now w"
  by (simp add: dev_coherent_def)

lemma dev_coherent_evict_all:
  assumes "dev_coherent now w" "redis (dw_cache w') = redis (dw_cache w)" "''devices'' \<in> set tags"
  shows "dev_coherent now (evict_devices now tags w')"
  by (rule dev_coherentI [OF coherent_cache_evict [OF assms(1) [unfolded dev_coherent_def, folded assms(2)]]])
    (use assms(3) in \<open>auto simp: evict_devices_def\<close>)

lemma dev_coherent_evict_one:
  assumes "dev_coherent now w" "keeps_id f"
  shows "dev_coherent now (write_device i f (evict_devices now [device_key i] w))"
  by (rule dev_coherentI [OF coherent_cache_evict [OF assms(1) [unfolded dev_coherent_def]]])
    (use assms(2) in \<open>auto simp: device_value_write evict_devices_def\<close>)

lemma dev_coherent_evict:
  "dev_coherent now w \<Longrightarrow> dev_coherent now (evict_devices now tags w)"
  using coherent_cache_evict [of device_cache_key "device_value (dw_devices w)" _ _ now "dw_cache w"]
  by (simp add: dev_coherent_def evict_devices_def)

lemma dev_coherent_delete:
  assumes "dev_coherent now w" "keeps_id f"
  shows "dev_coherent now (write_device i f w\<lparr>dw_cache := snd (cache_delete now (device_key i) None (dw_cache w))\<rparr>)"
  by (rule dev_coherentI [OF coherent_cache_delete [OF assms(1) [unfolded dev_coherent_def]]])
    (use assms(2) in \<open>auto simp: device_value_write\<close>)

lemma find_one_device_coherent:
  assumes "dev_coherent now w"
  shows "dev_coherent now (snd (find_one_device now i u w))"
    "dw_devices (snd (find_one_device now i u w)) = dw_devices w"
    "find_device i w = None \<Longrightarrow> fst (find_one_device now i u w) = Inl device_not_found"
    "find_device i w = Some d \<Longrightarrow> \<not> may_view (j_opt j_str (dv_userId d)) u \<Longrightarrow> fst (find_one_device now i u w) = Inl no_view"
    "find_device i w = Some d \<Longrightarrow> may_view (j_opt j_str (dv_userId d)) u \<Longrightarrow>
       \<exists>fd rel. fst (find_one_device now i u w) = Inr fd \<and> fd_json fd = JObj (device_fields d @ rel)"
proof -
  let ?key = "device_key i"
  obtain v ch where g: "cache_get now ?key None (dw_cache w) = (v, ch)" by fastforce
  have ch: "redis ch = redis (dw_cache w)" "v = JNull \<or> device_value (dw_devices w) ?key v"
    using coherent_cache_get [OF assms [unfolded dev_coherent_def] g] by (auto simp: device_cache_key_def)
  have v: "json_truthy v \<longleftrightarrow> v \<noteq> JNull" using ch(2) by (auto simp: device_value_def)
  have c1: "dev_coherent now (w\<lparr>dw_cache := ch\<rparr>)" using assms ch(1) by (simp cong: dev_coherent_cong)
  have store: "dev_coherent now (w\<lparr>dw_cache := snd (cache_set now ?key (device_detail w d) (Some DEVICE_TTL) [''devices'', ?key] ch)\<rparr>)"
    if "find_device i w = Some d" for d
    by (rule dev_coherentI [OF coherent_cache_set [OF assms [unfolded dev_coherent_def, folded ch(1)]]])
      (use that in \<open>auto simp: DEVICE_TTL_def device_value_def find_device_def device_detail_def\<close>)
  show "dev_coherent now (snd (find_one_device now i u w))"
    using c1 store by (auto simp: find_one_device_def Let_def g v split: option.split)
  show "dw_devices (snd (find_one_device now i u w)) = dw_devices w"
    by (auto simp: find_one_device_def Let_def case_prod_beta split: option.split)
  show "find_device i w = None \<Longrightarrow> fst (find_one_device now i u w) = Inl device_not_found"
    using ch(2) by (auto simp: find_one_device_def Let_def g v device_value_def find_device_def)
  show "find_device i w = Some d \<Longrightarrow> \<not> may_view (j_opt j_str (dv_userId d)) u \<Longrightarrow> fst (find_one_device now i u w) = Inl no_view"
    using ch(2) by (auto simp: find_one_device_def Let_def g v device_value_def find_device_def simp del: may_view_owner)
  show "find_device i w = Some d \<Longrightarrow> may_view (j_opt j_str (dv_userId d)) u \<Longrightarrow>
       \<exists>fd rel. fst (find_one_device now i u w) = Inr fd \<and> fd_json fd = JObj (device_fields d @ rel)"
    using ch(2) by (auto simp: find_one_device_def Let_def g v device_value_def find_device_def device_detail_def simp del: may_view_owner)
qed

lemma list_devices_coherent:
  assumes "dev_coherent now w"
  shows "dev_coherent now (snd (find_all_devices col now q u w))"
proof -
  let ?key = "device_list_key u q"
  obtain v ch where g: "cache_get now ?key None (dw_cache w) = (v, ch)" by fastforce
  have ch: "redis ch = redis (dw_cache w)" by (rule coherent_cache_get(1) [OF assms [unfolded dev_coherent_def] g])
  have c1: "dev_coherent now (w\<lparr>dw_cache := ch\<rparr>)" using assms ch(1) by (simp cong: dev_coherent_cong)
  have "dev_coherent now (w\<lparr>dw_cache := snd (cache_set now ?key j (Some DEVICE_TTL) [''devices'', ''devices:list''] ch)\<rparr>)" for j
    by (rule dev_coherentI [OF coherent_cache_set [OF assms [unfolded dev_coherent_def, folded ch(1)]]])
      (auto simp: DEVICE_TTL_def device_cache_key_def)
  then show ?thesis using c1 by (auto simp: find_all_devices_def Let_def g split: sum.split)
qed

lemma insert_device_coherent:
  "dev_coherent now w \<Longrightarrow> dev_coherent now (snd (insert_device conf d w))"
  by (auto simp: insert_device_def dev_coherent_def elim!: coherent_cache_mono intro: device_value_append)

lemma insert_evict_coherent:
  "dev_coherent now w \<Longrightarrow> dev_coherent now (snd (and_then (insert_device conf d w) (\<lambda>d w. (Inr d, evict_devices now list_tags w))))"
  by (rule and_then_keeps) (auto simp: insert_device_coherent dev_coherent_evict)

text \<open>An update by id that is followed by an invalidation of everything about devices.\<close>

lemma update_evict_coherent:
  assumes "dev_coherent now w" "''devices'' \<in> set tags"
  shows "dev_coherent now (snd (and_then (db_update_device i conf serial f w) (\<lambda>d w. (Inr d, evict_devices now tags w))))"
  using dev_coherent_evict_all [OF assms(1) _ assms(2)] assms(1)
  by (auto simp: db_update_device_def split: option.split)

lemma found_coherent:
  assumes "dev_coherent now w" "\<And>fd w. dev_coherent now w \<Longrightarrow> dev_coherent now (snd (k fd w))"
  shows "dev_coherent now (snd (and_then (find_one_device now i u w) k))"
  by (rule and_then_keeps) (use find_one_device_coherent(1) [OF assms(1)] assms(2) in auto)

lemma mqtt_publish_coherent [simp]:
  "dev_coherent t (snd (mqtt_publish pub topic msg w)) = dev_coherent t w"
  by (simp add: mqtt_publish_def dev_coherent_def)

lemma coherent_other_tables [simp]:
  "dev_coherent now (w\<lparr>dw_commands := cs\<rparr>) = dev_coherent now w" "dev_coherent now (w\<lparr>dw_sensors := ss\<rparr>) = dev_coherent now w"
  "dev_coherent now (w\<lparr>dw_events := es\<rparr>) = dev_coherent now w" "dev_coherent now (w\<lparr>dw_connected := b\<rparr>) = dev_coherent now w"
  by (simp_all add: dev_coherent_def)

lemma send_command_coherent:
  assumes "dev_coherent now w"
  shows "dev_coherent now (snd (send_command pub now cid i cmd params u w))"
    and "send_command pub now cid i cmd params u w = (Inr s, w') \<Longrightarrow> keeps_id f \<Longrightarrow> dev_coherent now (write_device i f w')"
proof -
  obtain r w1 where f1: "find_one_device now i u w = (r, w1)" by fastforce
  have 1: "dev_coherent now w1" using find_one_device_coherent(1) [OF assms, of i u] by (simp add: f1)
  define w2 where "w2 = w1\<lparr>dw_commands := dw_commands w1 @ [\<lparr>dc_id = cid, dc_deviceId = i, dc_command = cmd,
      dc_parameters = (case params of None \<Rightarrow> JObj [] | Some p \<Rightarrow> if json_truthy p then p else JObj []),
      dc_status = CMD_pending, dc_sentAt = now\<rparr>]\<rparr>"
  obtain b w3 where m: "mqtt_send_command pub now i cmd params w2 = (b, w3)" by fastforce
  have "dev_coherent now (snd (mqtt_send_command pub now i cmd params w2))" using 1 by (simp add: mqtt_send_command_def w2_def)
  then have 3: "dev_coherent now (set_command_status cid st w3)" for st by (simp add: m set_command_status_def)
  show "dev_coherent now (snd (send_command pub now cid i cmd params u w))"
    using 1 3 dev_coherent_evict [OF 3]
    by (cases r; cases b) (simp_all add: send_command_def f1 Let_def m flip: w2_def)
  show "dev_coherent now (write_device i f w')" if "send_command pub now cid i cmd params u w = (Inr s, w')" "keeps_id f"
    using that(1) dev_coherent_evict_one [OF 3 that(2)]
    by (cases r; cases b) (auto simp: send_command_def f1 Let_def m simp flip: w2_def split: if_splits)
qed

end

text \<open>Everything that changes the state, with its time.\<close>

datatype dev_op =
    FindDevice string current_user
  | ListDevices device_query current_user
  | CreateDevice string string device_dto current_user
  | UpdateDevice string device_update current_user
  | AssignDevice string string
  | RemoveDevice string
  | ToggleActivation string current_user
  | RegisterDevice string string iot_dto
  | PatchDevice string serial_update
  | MqttEvent mqtt_event
  | SendCommand string string string "json option" current_user
  | RequestStatus string current_user
  | Configure string json current_user
  | UpdateFirmware string string firmware_dto current_user
  | AddSensor string string sensor_dto
  | UpdateSensor string string sensor_dto
  | RemoveSensor string string
  | CalibrateSensor string string string json current_user
  | RecordHealth string string "(string \<times> json) list"
  | CheckHealth string "(string \<times> json) list"
  | SweepDevices

fun dev_step :: "column_order \<Rightarrow> broker \<Rightarrow> ms \<Rightarrow> dev_op \<Rightarrow> 's dev_world \<Rightarrow> 's dev_world" where
  "dev_step col pub now (FindDevice i u) w = snd (find_one_device now i u w)"
| "dev_step col pub now (ListDevices q u) w = snd (find_all_devices col now q u w)"
| "dev_step col pub now (CreateDevice i g dto u) w = snd (create_device now i g dto u w)"
| "dev_step col pub now (UpdateDevice i p u) w = snd (update_device now i p u w)"
| "dev_step col pub now (AssignDevice i uid) w = snd (assign_device now i uid w)"
| "dev_step col pub now (RemoveDevice i) w = snd (remove_device now i w)"
| "dev_step col pub now (ToggleActivation i u) w = snd (toggle_activation now i u w)"
| "dev_step col pub now (RegisterDevice i g dto) w = snd (register_device now i g dto w)"
| "dev_step col pub now (PatchDevice s p) w = snd (update_device_by_serial now s p w)"
| "dev_step col pub now (MqttEvent e) w = mqtt_on e w"
| "dev_step col pub now (SendCommand cid i cmd ps u) w = snd (send_command pub now cid i cmd ps u w)"
| "dev_step col pub now (RequestStatus i u) w = snd (get_status pub now i u w)"
| "dev_step col pub now (Configure i conf u) w = snd (update_configuration pub now i conf u w)"
| "dev_step col pub now (UpdateFirmware cid i fw u) w = snd (update_firmware pub now cid i fw u w)"
| "dev_step col pub now (AddSensor sid i dto) w = snd (add_sensor now sid i dto w)"
| "dev_step col pub now (UpdateSensor i s dto) w = snd (update_sensor now i s dto w)"
| "dev_step col pub now (RemoveSensor i s) w = snd (remove_sensor now i s w)"
| "dev_step col pub now (CalibrateSensor cid i s cal u) w = snd (calibrate_sensor pub now cid i s cal u w)"
| "dev_step col pub now (RecordHealth i h r) w = snd (record_device_health now i h r w)"
| "dev_step col pub now (CheckHealth i r) w = snd (perform_health_check now i r w)"
| "dev_step col pub now SweepDevices w = snd (perform_device_status_check now w)"

fun dev_run :: "column_order \<Rightarrow> broker \<Rightarrow> ms \<Rightarrow> (ms \<times> dev_op) list \<Rightarrow> 's dev_world \<Rightarrow> ms \<times> 's dev_world" where
  "dev_run col pub now [] w = (now, w)"
| "dev_run col pub now ((t, a) # as) w = dev_run col pub (max now t) as (dev_step col pub (max now t) a w)"

lemma snd_wrap_error [simp]: "snd (wrap_error pre r) = snd r"
  by (auto simp: wrap_error_def split: prod.split sum.split)

lemma tags_devices [simp]: "''devices'' \<in> set (device_tags i)" "''devices'' \<in> set list_tags"
  by (simp_all add: device_tags_def list_tags_def)

context redis_server
begin

lemma mark_offline_coherent: "dev_coherent now w \<Longrightarrow> dev_coherent now (mark_offline now is w)"
  by (induction "is" arbitrary: w) (simp_all add: dev_coherent_evict_all)

lemma update_by_serial_coherent: "dev_coherent now w \<Longrightarrow> dev_coherent now (snd (update_by_serial now s p w))"
  by (simp add: update_by_serial_def update_evict_coherent split: option.split)

lemma register_device_coherent: "dev_coherent now w \<Longrightarrow> dev_coherent now (snd (register_device now i g dto w))"
  by (simp add: register_device_def update_by_serial_coherent create_iot_device_def insert_evict_coherent split: option.split)

lemma assign_device_coherent: "dev_coherent now w \<Longrightarrow> dev_coherent now (snd (assign_device now i uid w))"
  by (simp add: assign_device_def Let_def dev_coherent_evict_all dev_coherent_evict split: option.split)

lemma record_health_coherent: "dev_coherent now w \<Longrightarrow> dev_coherent now (snd (record_device_health now i h r w))"
  by (simp add: record_device_health_def Let_def emit_def dev_coherent_delete keeps_id_def split: option.split)

lemma handle_message_coherent [simp]: "dev_coherent now (handle_message topic msg w) = dev_coherent now w"
  by (simp add: handle_message_def emit_def Let_def split: option.split)

lemma update_firmware_coherent:
  assumes "dev_coherent now w"
  shows "dev_coherent now (snd (update_firmware pub now cid i fw u w))"
  unfolding update_firmware_def
proof (rule found_coherent [OF assms], rule and_then_keeps)
  fix w :: "'s dev_world"
  assume w: "dev_coherent now w"
  then show "dev_coherent now (snd (send_command pub now cid i cmd ps u w))" for cmd ps by (rule send_command_coherent(1))
  let ?f = "\<lambda>d. d\<lparr>dv_firmware := Some (fw_version fw @ '' (updating)''), dv_updatedAt := now\<rparr>"
  fix s w' cmd ps
  assume s: "send_command pub now cid i cmd ps u w = (Inr s, w')" and w': "dev_coherent now w'"
  have "dev_coherent now (write_device i ?f w')"
    by (rule send_command_coherent(2) [OF w s]) (simp add: keeps_id_def)
  then show "dev_coherent now (snd (and_then (db_update_device i None None ?f w') (\<lambda>_ w. (Inr (s\<lparr>sc_message := m\<rparr>), w))))" for m
    using w' by (auto simp: db_update_device_def serial_clash_def split: option.split)
qed

lemma calibrate_coherent:
  assumes "dev_coherent now w"
  shows "dev_coherent now (snd (calibrate_sensor pub now cid i s cal u w))"
  unfolding calibrate_sensor_def
proof (rule found_coherent [OF assms])
  fix w :: "'s dev_world"
  assume w: "dev_coherent now w"
  then have "dev_coherent now (write_sensor s f w)" for f by (simp add: write_sensor_def)
  then have "dev_coherent now (snd (and_then (send_command pub now cid i cmd ps u (write_sensor s f w)) (\<lambda>_ w. (Inr r, w))))" for cmd ps f and r :: sensor_row
    by (intro and_then_keeps [where Q = "dev_coherent now"] send_command_coherent(1)) simp_all
  then show "dev_coherent now (snd (case sensor_of i s w of None \<Rightarrow> (Inl sensor_not_found, w)
      | Some r \<Rightarrow> (let f = (\<lambda>r. r\<lparr>sn_calibration := cal, sn_updatedAt := now\<rparr>)
          in and_then (send_command pub now cid i ''CALIBRATE'' (Some (calibration_parameters s cal)) u (write_sensor s f w))
               (\<lambda>_ w. (Inr (f r), w)))))"
    using w by (simp add: Let_def split: option.split)
qed

lemma update_configuration_coherent:
  assumes "dev_coherent now w"
  shows "dev_coherent now (snd (update_configuration pub now i conf u w))"
  unfolding update_configuration_def
proof (rule found_coherent [OF assms])
  fix w :: "'s dev_world"
  assume "dev_coherent now w"
  then have "dev_coherent now (snd (mqtt_update_configuration pub now i conf w))" by (simp add: mqtt_update_configuration_def)
  then show "dev_coherent now (snd (case mqtt_update_configuration pub now i conf w of (True, w) \<Rightarrow> (Inr conf, w)
      | (False, w) \<Rightarrow> (Inl (BadRequest ''Failed to send configuration to device''), w)))"
    by (auto split: prod.split bool.split)
qed

lemma dev_step_coherent:
  assumes "dev_coherent now w"
  shows "dev_coherent now (dev_step col pub now a w)"
proof (cases a)
  case (MqttEvent e)
  then show ?thesis using assms by (cases e) simp_all
qed (use assms in \<open>simp_all add: find_one_device_coherent list_devices_coherent create_device_def insert_evict_coherent
    update_device_def toggle_activation_def remove_device_def update_evict_coherent found_coherent assign_device_coherent
    register_device_coherent update_device_by_serial_def update_by_serial_coherent send_command_coherent get_status_def
    mqtt_request_status_def update_configuration_coherent update_firmware_coherent add_sensor_def
    update_sensor_def remove_sensor_def write_sensor_def calibrate_coherent record_health_coherent perform_health_check_def
    perform_device_status_check_def mark_offline_coherent Let_def split: option.split prod.split bool.split\<close>)

lemma dev_run_coherent: "dev_coherent now w \<Longrightarrow> dev_run col pub now as w = (t, w') \<Longrightarrow> dev_coherent t w'"
proof (induction "as" arbitrary: now w)
  case (Cons ta "as")
  have "dev_coherent (max now (fst ta)) w"
    using Cons.prems(1) unfolding dev_coherent_def by (rule coherent_cache_later) simp
  then show ?case using Cons.IH [OF dev_step_coherent] Cons.prems(2) by (cases ta) auto
qed simp

end

subsection \<open>Properties\<close>

text \<open>C6. What a request for a device by its id answers (\<open>findOne\<close>, \<open>GET /devices/:id\<close>), whatever was cached: after
  any sequence of requests, device calls, broker events, health checks and sweeps, starting with an empty
  cache, it answers the device to its present owner and to administrators only, with its columns as the table
  has them now, refuses everyone else and reports a missing device. The lists and the look-up by serial
  number are other routes with other rules and are not the subject.\<close>

theorem device_reads_fresh:
  fixes w :: "'s dev_world"
  assumes "redis_server c view" "redis_server.up c (redis (dw_cache w))"
    and "\<forall>u k. redis_get (redis (dw_cache w)) u (build_key k None) = JNull"
    and "\<forall>u t. redis_get (redis (dw_cache w)) u (build_tag_key t) = JNull"
    and "dev_run col pub start as w = (now, w')"
  shows "case find_device i w' of
      None \<Rightarrow> fst (find_one_device now i u w') = Inl device_not_found
    | Some d \<Rightarrow>
        if dv_userId d = Some (cu_id u) \<or> cu_role u \<in> {ADMIN, SUPER_ADMIN}
        then \<exists>fd rel. fst (find_one_device now i u w') = Inr fd \<and> fd_json fd = JObj (device_fields d @ rel)
        else fst (find_one_device now i u w') = Inl no_view"
proof -
  have "redis_server.dev_coherent c start w"
    using assms(2-4) by (simp add: redis_server.dev_coherent_def [OF assms(1)] redis_server.coherent_cache_empty [OF assms(1)])
  then have c: "redis_server.dev_coherent c now w'" using assms(5) by (rule redis_server.dev_run_coherent [OF assms(1)])
  show ?thesis
    using redis_server.find_one_device_coherent(3-5) [OF assms(1) c, where i = i and u = u] by (auto split: option.split)
qed

subsection \<open>Registration\<close>

type_synonym registration = "ms \<times> string \<times> string \<times> iot_dto"

fun register_run :: "registration list \<Rightarrow> 's dev_world \<Rightarrow> 's dev_world" where
  "register_run [] w = w"
| "register_run ((now, i, g, dto) # rs) w = register_run rs (snd (register_device now i g dto w))"

lemma find_by_serial_active:
  "find_by dv_serial s (dw_devices w) = None \<Longrightarrow> \<exists>d \<in> set (dw_devices w). dv_isActive d \<Longrightarrow> \<exists>d. find_by_serial s w = Some d"
proof -
  assume a: "find_by dv_serial s (dw_devices w) = None" "\<exists>d \<in> set (dw_devices w). dv_isActive d"
  then have "List.find dv_isActive (dw_devices w) \<noteq> None" by (auto simp: find_None_iff)
  then show ?thesis by (auto simp: find_by_serial_def a(1) split: option.split)
qed

lemma registration_refused:
  assumes "find_by dv_serial (io_serial dto) (dw_devices w) = None" "\<exists>d \<in> set (dw_devices w). dv_isActive d"
  shows "register_device now i g dto w =
    (Inl (BadRequest (''Failed to register device: Device with serial number '' @ io_serial dto @ '' not found'')), w)"
  using find_by_serial_active [OF assms] assms(1) by (auto simp: register_device_def update_by_serial_def wrap_error_def)

lemma update_by_serial_length [simp]:
  "length (dw_devices (snd (update_by_serial now s p w))) = length (dw_devices w)"
  by (auto simp: update_by_serial_def db_update_device_def split: option.split)

lemma insert_device_rows:
  "dw_devices (snd (insert_device conf d w)) = dw_devices w \<or> dw_devices (snd (insert_device conf d w)) = dw_devices w @ [d]"
  by (auto simp: insert_device_def)

lemma register_rows:
  "length (dw_devices (snd (register_device now i g dto w))) = length (dw_devices w) \<or>
   (\<forall>d \<in> set (dw_devices w). \<not> dv_isActive d) \<and>
   (\<exists>d. dv_isActive d \<and> dw_devices (snd (register_device now i g dto w)) = dw_devices w @ [d])"
proof (cases "find_by_serial (io_serial dto) w")
  case None
  then have "\<forall>d \<in> set (dw_devices w). \<not> dv_isActive d"
    by (auto simp: find_by_serial_def find_None_iff split: option.splits)
  then show ?thesis
    using None by (auto simp: register_device_def create_iot_device_def and_then_def insert_device_def)
next
  case Some
  then show ?thesis by (simp add: register_device_def)
qed

lemma register_keeps_active:
  assumes "\<exists>d \<in> set (dw_devices w). dv_isActive d"
  shows "\<exists>d \<in> set (dw_devices (snd (register_device now i g dto w))). dv_isActive d"
proof -
  obtain d0 where d0: "find_by_serial (io_serial dto) w = Some d0"
    using assms by (cases "find_by_serial (io_serial dto) w") (auto simp: find_by_serial_def find_None_iff split: option.splits)
  have "\<exists>d \<in> set (update_by dv_id k (apply_serial_update now p) (dw_devices w)). dv_isActive d"
    if "su_isActive p = Some True" for k p
  proof -
    obtain d where "d \<in> set (dw_devices w)" "dv_isActive d" using assms by blast
    moreover have "dv_isActive (apply_serial_update now p d)" using that by (simp add: apply_serial_update_def or_old_def)
    ultimately show ?thesis unfolding update_by_def set_update_where
      by (intro bexI [of _ "if dv_id d = k then apply_serial_update now p d else d"]) auto
  qed
  then show ?thesis
    using assms by (auto simp: register_device_def d0 update_by_serial_def db_update_device_def split: option.split)
qed

lemma register_run_active:
  "\<exists>d \<in> set (dw_devices w). dv_isActive d \<Longrightarrow> length (dw_devices (register_run rs w)) = length (dw_devices w)"
proof (induction rs w rule: register_run.induct)
  case (2 now i g dto rs w)
  then show ?case using register_keeps_active [OF "2.prems"] register_rows [of now i g dto w] by fastforce
qed simp

lemma register_run_empty: "dw_devices w = [] \<Longrightarrow> length (dw_devices (register_run rs w)) \<le> 1"
proof (induction rs w rule: register_run.induct)
  case (2 now i g dto rs w)
  let ?w = "snd (register_device now i g dto w)"
  consider "dw_devices ?w = []" | d where "dv_isActive d" "dw_devices ?w = [d]"
    using register_rows [of now i g dto w] "2.prems" by auto
  then show ?case using "2.IH" register_run_active [of ?w rs] by cases simp_all
qed simp

text \<open>C27. Devices that register themselves: once a device is active, any other serial number is refused
  with the message that there is no such device, and the state stays as it is, because the look-up falls
  back to any active device and the update that follows asks for the serial number. So from an empty table
  any sequence of registrations ends with at most one device.\<close>

theorem registers_one_device:
  "((\<exists>d \<in> set (dw_devices w). dv_isActive d) \<longrightarrow> io_serial dto \<notin> dv_serial ` set (dw_devices w) \<longrightarrow>
     register_device now i g dto w =
       (Inl (BadRequest (''Failed to register device: Device with serial number '' @ io_serial dto @ '' not found'')), w)) \<and>
   (dw_devices w = [] \<longrightarrow> length (dw_devices (register_run rs w)) \<le> 1)"
  using registration_refused [of dto w] register_run_empty [of w] by (simp add: find_by_None_iff)

subsection \<open>Health\<close>

text \<open>A device that was last heard of more than half an hour ago is marked OFFLINE by a health check, and
  that very write says it was seen now: the next check within ten minutes marks it ONLINE.\<close>

theorem silent_device_flips:
  assumes "find_device i w = Some d" "dv_lastSeen d = Some t" "dv_status d \<noteq> OFFLINE" "now - t > 30 * 60000"
    and "now \<le> now2" "now2 - now \<le> 10 * 60000"
  shows "let w1 = snd (perform_health_check now i r w); w2 = snd (perform_health_check now2 i r2 w1) in
    find_device i w1 = Some (d\<lparr>dv_status := OFFLINE, dv_lastSeen := Some now, dv_updatedAt := now\<rparr>) \<and>
    find_device i w2 = Some (d\<lparr>dv_status := ONLINE, dv_lastSeen := Some now2, dv_updatedAt := now2\<rparr>)"
proof -
  have rec: "find_device i (snd (record_device_health t i h r v)) = Some (if dv_status e \<noteq> map_health_to_device_status h
      then e\<lparr>dv_status := map_health_to_device_status h, dv_lastSeen := Some t, dv_updatedAt := t\<rparr> else e)"
    if "find_device i v = Some e" for t h r e and v :: "'a dev_world"
    using that by (auto simp: record_device_health_def find_device_def Let_def emit_def write_device_def find_by_update_by)
  define w1 where "w1 = snd (perform_health_check now i r w)"
  define d1 where "d1 = d\<lparr>dv_status := OFFLINE, dv_lastSeen := Some now, dv_updatedAt := now\<rparr>"
  have "determine_health_status now d = ''OFFLINE''" using assms(2,4) by (simp add: determine_health_status_def)
  then have 1: "find_device i w1 = Some d1"
    using rec [OF assms(1)] assms(3) by (simp add: w1_def d1_def perform_health_check_def assms(1) map_health_to_device_status_def)
  have "determine_health_status now2 d1 = ''HEALTHY''" using assms(5,6) by (simp add: determine_health_status_def d1_def)
  then have "find_device i (snd (perform_health_check now2 i r2 w1)) = Some (d\<lparr>dv_status := ONLINE, dv_lastSeen := Some now2, dv_updatedAt := now2\<rparr>)"
    using rec [OF 1] by (simp add: perform_health_check_def 1 map_health_to_device_status_def d1_def)
  with 1 show ?thesis by (simp add: Let_def w1_def d1_def)
qed

lemma mark_offline_rows:
  "dw_devices (mark_offline now is w) =
     map (\<lambda>d. if dv_id d \<in> set is then d\<lparr>dv_status := OFFLINE, dv_updatedAt := now\<rparr> else d) (dw_devices w)"
  by (induction "is" arbitrary: w) (auto simp: update_by_def update_where_def)

text \<open>The sweep marks exactly the devices that are ONLINE and were last seen more than fifteen minutes ago,
  leaves all others as they are, and finds nothing more to do when it is run again.\<close>

theorem sweep_exact:
  assumes "distinct (map dv_id (dw_devices w))" "perform_device_status_check now w = (ds, w')"
  shows "ds = filter (is_silent now) (dw_devices w) \<and>
    dw_devices w' = map (\<lambda>d. if is_silent now d then d\<lparr>dv_status := OFFLINE, dv_updatedAt := now\<rparr> else d) (dw_devices w) \<and>
    fst (perform_device_status_check now w') = []"
proof -
  have ds: "ds = filter (is_silent now) (dw_devices w)" and w': "w' = mark_offline now (map dv_id ds) w"
    using assms(2) by (auto simp: perform_device_status_check_def Let_def)
  have "dv_id d \<in> set (map dv_id ds) \<longleftrightarrow> is_silent now d" if "d \<in> set (dw_devices w)" for d
    using assms(1) that by (auto simp: ds distinct_map dest: inj_onD)
  then have rows: "dw_devices w' = map (\<lambda>d. if is_silent now d then d\<lparr>dv_status := OFFLINE, dv_updatedAt := now\<rparr> else d) (dw_devices w)"
    by (simp add: w' mark_offline_rows)
  have "filter (is_silent now) (dw_devices w') = []"
    by (auto simp: rows filter_empty_conv is_silent_def)
  then show ?thesis using ds rows by (simp add: perform_device_status_check_def)
qed

subsection \<open>What a cached device hides\<close>

context redis_server
begin

lemma find_one_again:
  assumes "up (redis (dw_cache w))" "tag_ok (redis (dw_cache w))"
    and "redis_get (redis (dw_cache w)) t (build_key (device_key i) None) = JNull"
    and "find_one_device t i u w = (Inr fd, w1)" "t \<le> t2" "t2 < t + 300000" "dw_cache w2 = dw_cache w1"
  shows "\<exists>d. find_device i w = Some d \<and> fd = \<lparr>fd_json = device_detail w d, fd_cached = False\<rparr> \<and>
    fst (find_one_device t2 i u w2) = Inr (fd\<lparr>fd_cached := True\<rparr>)"
proof -
  obtain v ch where g: "cache_get t (device_key i) None (dw_cache w) = (v, ch)" by fastforce
  have ch: "redis ch = redis (dw_cache w)" "v = JNull"
    using cache_get_up [OF assms(1), of t "device_key i" None] assms(3) by (simp_all add: g)
  then obtain d where d: "find_device i w = Some d" "may_view (j_opt j_str (dv_userId d)) u"
    "fd = \<lparr>fd_json = device_detail w d, fd_cached = False\<rparr>"
    "dw_cache w1 = snd (cache_set t (device_key i) (device_detail w d) (Some DEVICE_TTL) [''devices'', device_key i] ch)"
    using assms(4) by (auto simp: find_one_device_def Let_def g simp del: may_view_owner split: option.splits if_splits)
  have 0: "up (redis ch)" "0 < DEVICE_TTL" "tag_ok (redis ch)" using assms(1,2) by (simp_all add: ch DEVICE_TTL_def)
  obtain cs where s: "cache_set t (device_key i) (device_detail w d) (Some DEVICE_TTL) [''devices'', device_key i] ch = (True, cs)"
    "up (redis cs)" "\<And>k u. redis_get (redis cs) u (build_key k None) =
      (if k = device_key i then if u < t + 1000 * DEVICE_TTL then device_detail w d else JNull else redis_get (redis ch) u (build_key k None))"
    by (rule cache_set_up [OF 0]) blast
  then have cs: "dw_cache w1 = cs" "up (redis cs)" "redis_get (redis cs) t2 (build_key (device_key i) None) = device_detail w d"
    using d(4) assms(6) by (simp_all add: DEVICE_TTL_def)
  obtain v2 ch2 where g2: "cache_get t2 (device_key i) None cs = (v2, ch2)" by fastforce
  then have v2: "v2 = device_detail w d" using cache_get_up [OF cs(2), of t2 "device_key i" None] cs(3) by simp
  have "field_of ''userId'' (device_detail w d) = j_opt j_str (dv_userId d)" by (simp add: device_detail_def)
  then have "fst (find_one_device t2 i u w2) = Inr (fd\<lparr>fd_cached := True\<rparr>)"
    using d(2,3) by (simp add: find_one_device_def assms(7) cs(1) g2 v2 Let_def device_detail_def del: may_view_owner)
  then show ?thesis using d by blast
qed

end

text \<open>The health of a device depends on who looked before: of a device that was heard of less than five
  minutes ago the first answer says it is online with a GOOD connection and the next ones, while the first
  is cached, that it is not, since the text of a cached date is compared with a date.\<close>

theorem health_view_flips:
  fixes w :: "'s dev_world"
  assumes "redis_server c view" "redis_server.up c (redis (dw_cache w))"
    and "\<forall>u t. redis_get (redis (dw_cache w)) u (build_tag_key t) = JNull"
    and "redis_get (redis (dw_cache w)) now (build_key (device_key i) None) = JNull"
    and "find_device i w = Some d" "dv_lastSeen d = Some t" "now - 300000 < t"
    and "get_health now i u w = (Inr h, w1)" "now \<le> now2" "now2 < now + 300000"
  shows "dh_isOnline h \<and> dh_connectivity h = ''GOOD'' \<and>
    (\<exists>h2. fst (get_health now2 i u w1) = Inr h2 \<and> \<not> dh_isOnline h2 \<and> dh_connectivity h2 = ''POOR'' \<and> dh_lastSeen h2 = dh_lastSeen h)"
proof -
  obtain fd where f: "find_one_device now i u w = (Inr fd, w1)"
    using assms(8) by (auto simp: get_health_def and_then_Inr_iff Let_def)
  have "redis_server.tag_ok (redis (dw_cache w))" using assms(3) by (simp add: redis_server.tag_ok_def [OF assms(1)])
  then have a: "fd = \<lparr>fd_json = device_detail w d, fd_cached = False\<rparr>" "fst (find_one_device now2 i u w1) = Inr (fd\<lparr>fd_cached := True\<rparr>)"
    using redis_server.find_one_again [OF assms(1,2) _ assms(4) f assms(9,10) refl] assms(5) by auto
  obtain w2 where f2: "find_one_device now2 i u w1 = (Inr (fd\<lparr>fd_cached := True\<rparr>), w2)"
    using a(2) by (cases "find_one_device now2 i u w1") auto
  have seen: "field_of ''lastSeen'' (device_detail w d) = j_int t" by (simp add: device_detail_def assms(6) j_opt_def)
  then show ?thesis
    using assms(7,8) f by (auto simp: get_health_def f2 a(1) Let_def j_int_def)
qed

definition is_sensor_op :: "dev_op \<Rightarrow> bool" where
  "is_sensor_op a = (case a of AddSensor _ _ _ \<Rightarrow> True | UpdateSensor _ _ _ \<Rightarrow> True | RemoveSensor _ _ \<Rightarrow> True | _ \<Rightarrow> False)"

lemma sensor_op_cache: "is_sensor_op a \<Longrightarrow> dw_cache (dev_step col pub now a w) = dw_cache w"
  by (cases a) (auto simp: is_sensor_op_def add_sensor_def update_sensor_def remove_sensor_def write_sensor_def Let_def split: option.split)

text \<open>Changes of the sensors do not reach the cache: once a device has been read, adding, changing or
  removing sensors does not change what is answered for it within the next five minutes.\<close>

theorem sensor_changes_unseen:
  fixes w :: "'s dev_world"
  assumes "redis_server c view" "redis_server.up c (redis (dw_cache w))"
    and "\<forall>u t. redis_get (redis (dw_cache w)) u (build_tag_key t) = JNull"
    and "redis_get (redis (dw_cache w)) now (build_key (device_key i) None) = JNull"
    and "find_one_device now i u w = (Inr fd, w1)" "now \<le> now2" "now2 < now + 300000"
    and "\<forall>a \<in> set acts. is_sensor_op a" "w2 = fold (dev_step col pub now) acts w1"
  shows "\<exists>d. find_device i w = Some d \<and> fst (find_one_device now2 i u w2) = Inr \<lparr>fd_json = device_detail w d, fd_cached = True\<rparr>"
proof -
  have "dw_cache (fold (dev_step col pub now) acts v) = dw_cache v" if "\<forall>a \<in> set acts. is_sensor_op a" for acts and v :: "'s dev_world"
    using that by (induction acts arbitrary: v) (simp_all add: sensor_op_cache)
  then have c: "dw_cache w2 = dw_cache w1" using assms(8,9) by simp
  have "redis_server.tag_ok (redis (dw_cache w))" using assms(3) by (simp add: redis_server.tag_ok_def [OF assms(1)])
  then show ?thesis
    using redis_server.find_one_again [OF assms(1,2) _ assms(4-7) c] by auto
qed

subsection \<open>Commands\<close>

definition settled :: "command_row list \<Rightarrow> bool" where
  "settled cs \<longleftrightarrow> (\<forall>r \<in> set cs. dc_status r = CMD_sent \<or> dc_status r = CMD_failed)"

lemma find_one_device_commands [simp]: "dw_commands (snd (find_one_device now i u w)) = dw_commands w"
  by (simp add: find_one_device_def Let_def case_prod_beta split: option.split)

lemma find_one_commands: "find_one_device now i u w = (r, w') \<Longrightarrow> dw_commands w' = dw_commands w"
  by (metis find_one_device_commands snd_conv)

lemma mqtt_publish_commands [simp]: "dw_commands (snd (mqtt_publish pub topic msg w)) = dw_commands w"
  by (simp add: mqtt_publish_def)

lemma other_commands [simp]:
  "dw_commands (write_device i f w) = dw_commands w" "dw_commands (emit i k j w) = dw_commands w"
  "dw_commands (snd (insert_device conf d w)) = dw_commands w" "dw_commands (snd (db_update_device i conf s f w)) = dw_commands w"
  "dw_commands (handle_message topic msg w) = dw_commands w" "dw_commands (write_sensor i g w) = dw_commands w"
  by (simp_all add: write_device_def emit_def insert_device_def db_update_device_def handle_message_def write_sensor_def Let_def
      split: option.split)

lemma settled_send_command:
  assumes "settled (dw_commands w)"
  shows "settled (dw_commands (snd (send_command pub now cid i cmd params u w)))"
proof -
  obtain r w1 where f: "find_one_device now i u w = (r, w1)" by fastforce
  have c: "settled (dw_commands w1)" using assms by (simp add: find_one_commands [OF f])
  define w2 where "w2 = w1\<lparr>dw_commands := dw_commands w1 @ [\<lparr>dc_id = cid, dc_deviceId = i, dc_command = cmd,
      dc_parameters = (case params of None \<Rightarrow> JObj [] | Some p \<Rightarrow> if json_truthy p then p else JObj []),
      dc_status = CMD_pending, dc_sentAt = now\<rparr>]\<rparr>"
  obtain b w3 where m: "mqtt_send_command pub now i cmd params w2 = (b, w3)" by fastforce
  have "dw_commands (snd (mqtt_send_command pub now i cmd params w2)) = dw_commands w2" by (simp add: mqtt_send_command_def)
  then have w3: "dw_commands w3 = dw_commands w2" by (simp add: m)
  have "settled (dw_commands (set_command_status cid st w3))" if "st = CMD_sent \<or> st = CMD_failed" for st
    using that c by (auto simp: w3 w2_def settled_def set_command_status_def update_by_def set_update_where)
  then show ?thesis using c
    by (cases r; cases b) (simp_all add: send_command_def f Let_def m flip: w2_def)
qed

definition settled_world :: "'s dev_world \<Rightarrow> bool" where "settled_world w = settled (dw_commands w)"

lemma settled_found:
  "settled_world w \<Longrightarrow> (\<And>fd w. settled_world w \<Longrightarrow> settled_world (snd (k fd w))) \<Longrightarrow>
   settled_world (snd (and_then (find_one_device now i u w) k))"
  by (rule and_then_keeps [where Q = settled_world]) (auto simp: settled_world_def)

lemma settled_then:
  "settled_world (snd m) \<Longrightarrow> (\<And>a w. settled_world w \<Longrightarrow> settled_world (snd (k a w))) \<Longrightarrow> settled_world (snd (and_then m k))"
  by (rule and_then_keeps [where Q = settled_world]) auto

lemma settled_simps [simp]:
  "settled_world (w\<lparr>dw_cache := ch\<rparr>) = settled_world w" "settled_world (w\<lparr>dw_sensors := ss\<rparr>) = settled_world w"
  "settled_world (w\<lparr>dw_connected := b\<rparr>) = settled_world w" "settled_world (evict_devices now tags w) = settled_world w"
  "settled_world (write_device i f w) = settled_world w" "settled_world (emit i k j w) = settled_world w"
  "settled_world (snd (insert_device conf d w)) = settled_world w" "settled_world (snd (db_update_device i conf s f w)) = settled_world w"
  "settled_world (handle_message topic body w) = settled_world w" "settled_world (write_sensor i g w) = settled_world w"
  "settled_world (snd (find_one_device now i u w)) = settled_world w" "settled_world (snd (mqtt_publish pub topic msg w)) = settled_world w"
  by (simp_all add: settled_world_def)

lemma settled_world_send: "settled_world w \<Longrightarrow> settled_world (snd (send_command pub now cid i cmd params u w))"
  using settled_send_command by (simp add: settled_world_def)

lemma settled_mark_offline [simp]: "settled_world (mark_offline now is w) = settled_world w"
  by (induction "is" arbitrary: w) simp_all

lemma settled_update_by_serial: "settled_world w \<Longrightarrow> settled_world (snd (update_by_serial now s p w))"
  by (simp add: update_by_serial_def settled_then split: option.split)

lemma settled_update_configuration:
  assumes "settled_world w"
  shows "settled_world (snd (update_configuration pub now i conf u w))"
  unfolding update_configuration_def
proof (rule settled_found [OF assms])
  fix v :: "'a dev_world"
  assume v: "settled_world v"
  obtain b v2 where m: "mqtt_update_configuration pub now i conf v = (b, v2)" by fastforce
  have "settled_world (snd (mqtt_update_configuration pub now i conf v))" using v by (simp add: mqtt_update_configuration_def)
  then show "settled_world (snd (case mqtt_update_configuration pub now i conf v of (True, w) \<Rightarrow> (Inr conf, w)
      | (False, w) \<Rightarrow> (Inl (BadRequest ''Failed to send configuration to device''), w)))"
    by (cases b) (simp_all add: m)
qed

lemma settled_insert_evict:
  "settled_world w \<Longrightarrow> settled_world (snd (and_then (insert_device conf d w) (\<lambda>d w. (Inr d, evict_devices now tags w))))"
  by (rule settled_then) simp_all

lemma settled_update_evict:
  "settled_world w \<Longrightarrow> settled_world (snd (and_then (db_update_device i conf s f w) (\<lambda>d w. (Inr d, evict_devices now tags w))))"
  by (rule settled_then) simp_all

lemma settled_register: "settled_world w \<Longrightarrow> settled_world (snd (register_device now i g dto w))"
  by (simp add: register_device_def settled_update_by_serial create_iot_device_def settled_insert_evict split: option.split)

lemma settled_assign: "settled_world w \<Longrightarrow> settled_world (snd (assign_device now i uid w))"
  by (simp add: assign_device_def Let_def split: option.split)

lemma settled_record_health: "settled_world w \<Longrightarrow> settled_world (snd (record_device_health now i h r w))"
  by (simp add: record_device_health_def Let_def split: option.split)

lemma settled_firmware: "settled_world w \<Longrightarrow> settled_world (snd (update_firmware pub now cid i fw u w))"
  unfolding update_firmware_def by (intro settled_found settled_then settled_world_send) simp_all

lemma settled_calibrate: "settled_world w \<Longrightarrow> settled_world (snd (calibrate_sensor pub now cid i s cal u w))"
  unfolding calibrate_sensor_def
  by (rule settled_found) (auto simp: Let_def settled_then settled_world_send split: option.split)

lemma settled_list: "settled_world w \<Longrightarrow> settled_world (snd (find_all_devices col now q u w))"
  by (simp add: find_all_devices_def Let_def case_prod_beta split: sum.split)

lemma settled_status: "settled_world w \<Longrightarrow> settled_world (snd (get_status pub now i u w))"
  unfolding get_status_def by (rule settled_found) (simp_all add: mqtt_request_status_def)

lemma settled_sensors:
  "settled_world (snd (add_sensor now sid i dto w)) = settled_world w" "settled_world (snd (update_sensor now i s dto w)) = settled_world w"
  "settled_world (snd (remove_sensor now i s w)) = settled_world w"
  by (simp_all add: add_sensor_def update_sensor_def remove_sensor_def Let_def split: option.split)

lemma settled_step: "settled_world w \<Longrightarrow> settled_world (dev_step col pub now a w)"
proof (cases a)
  case (MqttEvent e)
  assume "settled_world w"
  then show ?thesis using MqttEvent by (cases e) simp_all
qed (simp_all add: settled_list create_device_def settled_insert_evict update_device_def toggle_activation_def settled_found
    settled_update_evict remove_device_def settled_assign settled_register update_device_by_serial_def settled_update_by_serial
    settled_world_send settled_status settled_update_configuration settled_firmware settled_sensors settled_calibrate
    settled_record_health perform_health_check_def perform_device_status_check_def Let_def split: option.split)

lemma settled_run: "settled_world w \<Longrightarrow> settled_world (snd (dev_run col pub now as w))"
  by (induction "as" arbitrary: now w) (auto simp: settled_step)

text \<open>No command stays pending and none is ever acknowledged: after any sequence of requests and broker
  events every stored command is sent or failed, so the success rate of a device is 0 for every period,
  however many commands the device answered.\<close>

theorem commands_settle:
  assumes "\<forall>r \<in> set (dw_commands w). dc_status r = CMD_sent \<or> dc_status r = CMD_failed"
    and "dev_run col pub start as w = (now, w')"
  shows "(\<forall>r \<in> set (dw_commands w'). dc_status r = CMD_sent \<or> dc_status r = CMD_failed) \<and>
    (\<forall>a. fst (get_analytics now i t1 t2 u w') = Inr a \<longrightarrow> da_successRate a = 0)"
proof -
  have s: "settled (dw_commands w')"
    using settled_run [of w col pub start "as"] assms by (simp add: settled_world_def settled_def)
  have no: "filter (\<lambda>r. dc_status r = CMD_acknowledged) (filter P (dw_commands w')) = []" for P
    using s by (auto simp: settled_def filter_empty_conv)
  have "da_successRate a = 0" if "fst (get_analytics now i t1 t2 u w') = Inr a" for a
  proof -
    obtain r v where f: "find_one_device now i u w' = (r, v)" by fastforce
    show ?thesis using that no by (cases r) (auto simp: get_analytics_def f Let_def find_one_commands [OF f] simp del: filter_filter)
  qed
  then show ?thesis using s by (simp add: settled_def)
qed

text \<open>The filter on assigned devices replaces the restriction to the caller's own: with it in the query any
  user is shown what an administrator is.\<close>

theorem assigned_filter_shows_all:
  assumes "dq_assigned q = Some s"
  shows "list_devices col q u w = list_devices col q admin w"
proof -
  have "device_matches q u = device_matches q admin"
    by (rule ext) (simp add: device_matches_def owner_condition_def assms)
  then show ?thesis unfolding list_devices_def by (simp only:)
qed

subsection \<open>Witnesses\<close>

definition demo_device :: device_row where
  "demo_device = \<lparr>dv_id = ''d'', dv_name = ''Chamber'', dv_type = MUSHROOM_CHAMBER, dv_serial = ''S1'', dv_status = ONLINE,
     dv_userId = Some ''ana'', dv_location = None, dv_description = None, dv_firmware = None, dv_ip = None, dv_mac = None,
     dv_lastSeen = Some 0, dv_isActive = True, dv_createdAt = 0, dv_updatedAt = 0\<rparr>"

definition demo_sensor :: sensor_row where
  "demo_sensor = \<lparr>sn_id = ''s'', sn_deviceId = ''d'', sn_type = ''temperature'', sn_name = ''T'', sn_unit = ''C'', sn_min = None,
     sn_max = None, sn_calibration = JNull, sn_isActive = True, sn_createdAt = 0, sn_updatedAt = 0\<rparr>"

definition demo_fleet :: "mem dev_world" where
  "demo_fleet = \<lparr>dw_devices = [demo_device], dw_sensors = [demo_sensor], dw_commands = [], dw_data = [],
     dw_users = [\<lparr>du_id = ''ana'', du_firstName = None, du_lastName = None, du_email = ''ana@x'', du_isActive = True\<rparr>,
       \<lparr>du_id = ''ben'', du_firstName = None, du_lastName = None, du_email = ''ben@x'', du_isActive = True\<rparr>],
     dw_cache = mem_cache, dw_connected = True, dw_published = [], dw_events = []\<rparr>"

definition ana :: current_user where "ana = \<lparr>cu_id = ''ana'', cu_role = GROWER\<rparr>"

lemma demo_fleet_simps [simp]:
  "dw_cache demo_fleet = mem_cache" "dw_devices demo_fleet = [demo_device]" "dw_commands demo_fleet = []"
  "find_device ''d'' demo_fleet = Some demo_device"
  "dv_id demo_device = ''d''" "dv_lastSeen demo_device = Some 0" "dv_status demo_device = ONLINE" "dv_isActive demo_device = True"
  "dv_serial demo_device = ''S1''" "dv_userId demo_device = Some ''ana''" "cu_id ana = ''ana''" "cu_role ana = GROWER"
  by (simp_all add: demo_fleet_def demo_device_def ana_def find_device_def)

lemma demo_found: "\<exists>fd w. find_one_device t ''d'' ana demo_fleet = (Inr fd, w)"
proof -
  have c: "redis_server.dev_coherent mem_client t demo_fleet"
    by (simp add: redis_server.dev_coherent_def [OF mem.redis_server_axioms] redis_server.coherent_cache_empty [OF mem.redis_server_axioms]
        mem_get_null)
  obtain r w where f: "find_one_device t ''d'' ana demo_fleet = (r, w)" by fastforce
  show ?thesis
    using redis_server.find_one_device_coherent(5) [OF mem.redis_server_axioms c, of "''d''" demo_device ana] by (auto simp: f)
qed

lemma device_reads_fresh_witness:
  "\<exists>now w'. dev_run (\<lambda>_. None) (\<lambda>_ _. True) 0 [(1, FindDevice ''d'' ana), (2, AssignDevice ''d'' ''ben'')] demo_fleet = (now, w') \<and>
     fst (find_one_device now ''d'' ana w') = Inl no_view"
proof -
  let ?as = "[(1, FindDevice ''d'' ana), (2, AssignDevice ''d'' ''ben'')]"
  obtain now w' where r: "dev_run (\<lambda>_. None) (\<lambda>_ _. True) 0 ?as demo_fleet = (now, w')" by fastforce
  have "find_device ''d'' w' = Some (demo_device\<lparr>dv_userId := Some ''ben'', dv_updatedAt := 2\<rparr>)"
  proof -
    have w: "dw_devices (snd (find_one_device 1 ''d'' ana demo_fleet)) = [demo_device]"
      "dw_users (snd (find_one_device 1 ''d'' ana demo_fleet)) = dw_users demo_fleet"
      by (auto simp: find_one_device_def Let_def case_prod_beta)
    show ?thesis using r w by (auto simp: assign_device_def find_device_def Let_def truthy_str_def demo_fleet_def)
  qed
  then show ?thesis
    using device_reads_fresh [OF mem.redis_server_axioms _ _ _ r, of "''d''" ana] r by (simp add: mem_get_null)
qed

lemma registers_one_device_witness:
  "register_device 5 ''e'' ''g'' \<lparr>io_name = ''Chamber 2'', io_type = MUSHROOM_CHAMBER, io_serial = ''S2'', io_location = None,
      io_firmware = None, io_ip = None, io_mac = None, io_status = None, io_userId = None\<rparr> demo_fleet =
    (Inl (BadRequest ''Failed to register device: Device with serial number S2 not found''), demo_fleet)"
  using registers_one_device [of demo_fleet "\<lparr>io_name = ''Chamber 2'', io_type = MUSHROOM_CHAMBER, io_serial = ''S2'',
      io_location = None, io_firmware = None, io_ip = None, io_mac = None, io_status = None, io_userId = None\<rparr>" 5 "''e''" "''g''" "[]"]
  by simp

lemma silent_device_flips_witness:
  "map_option dv_status (find_device ''d'' (snd (perform_health_check 2300000 ''d'' []
     (snd (perform_health_check 2000000 ''d'' [] demo_fleet))))) = Some ONLINE"
  using silent_device_flips [of "''d''" demo_fleet demo_device 0 2000000 2300000 "[]" "[]"] by (simp add: Let_def)

lemma sweep_exact_witness:
  "\<exists>ds w'. perform_device_status_check 1000000 demo_fleet = (ds, w') \<and> map dv_status (dw_devices w') = [OFFLINE]"
proof -
  obtain ds w' where r: "perform_device_status_check 1000000 demo_fleet = (ds, w')" by fastforce
  then show ?thesis using sweep_exact [OF _ r] by (simp add: is_silent_def OFFLINE_THRESHOLD_MINUTES_def)
qed

lemma health_view_flips_witness:
  "\<exists>h w1. get_health 1000 ''d'' ana demo_fleet = (Inr h, w1) \<and> dh_isOnline h \<and>
     (\<exists>h2. fst (get_health 2000 ''d'' ana w1) = Inr h2 \<and> \<not> dh_isOnline h2)"
proof -
  obtain fd w where f: "find_one_device 1000 ''d'' ana demo_fleet = (Inr fd, w)" using demo_found by blast
  then obtain h w1 where h: "get_health 1000 ''d'' ana demo_fleet = (Inr h, w1)" by (simp add: get_health_def Let_def)
  show ?thesis
    using health_view_flips [OF mem.redis_server_axioms _ _ _ _ _ _ h, where d = demo_device and t = 0 and ?now2.0 = 2000] h
    by (auto simp: mem_get_null)
qed

lemma sensor_changes_unseen_witness:
  "\<exists>fd w1. find_one_device 1000 ''d'' ana demo_fleet = (Inr fd, w1) \<and>
     fst (find_one_device 2000 ''d'' ana (dev_step (\<lambda>_. None) (\<lambda>_ _. True) 1000 (RemoveSensor ''d'' ''s'') w1)) =
       Inr \<lparr>fd_json = device_detail demo_fleet demo_device, fd_cached = True\<rparr>"
proof -
  obtain fd w1 where f: "find_one_device 1000 ''d'' ana demo_fleet = (Inr fd, w1)" using demo_found by blast
  show ?thesis
    using sensor_changes_unseen [OF mem.redis_server_axioms _ _ _ f, where acts = "[RemoveSensor ''d'' ''s'']" and ?now2.0 = 2000
      and col = "\<lambda>_. None" and pub = "\<lambda>_ _. True", OF _ _ _ _ _ _ refl] f
    by (auto simp: mem_get_null is_sensor_op_def)
qed

lemma commands_settle_witness:
  "\<exists>now w'. dev_run (\<lambda>_. None) (\<lambda>_ _. True) 0 [(1, SendCommand ''c'' ''d'' ''START'' None ana)] demo_fleet = (now, w') \<and>
     (\<forall>r \<in> set (dw_commands w'). dc_status r = CMD_sent \<or> dc_status r = CMD_failed)"
proof -
  obtain now w' where r: "dev_run (\<lambda>_. None) (\<lambda>_ _. True) 0 [(1, SendCommand ''c'' ''d'' ''START'' None ana)] demo_fleet = (now, w')"
    by fastforce
  then show ?thesis using commands_settle [OF _ r] by simp
qed

lemma assigned_filter_shows_all_witness:
  "list_devices (\<lambda>_. Some (\<lambda>_ _. True)) \<lparr>dq_text = [], dq_page = None, dq_limit = None, dq_type = None, dq_status = None,
      dq_search = None, dq_archived = None, dq_assigned = Some ''true'', dq_sortBy = None, dq_asc = None\<rparr>
      \<lparr>cu_id = ''ben'', cu_role = BUYER\<rparr> demo_fleet =
   list_devices (\<lambda>_. Some (\<lambda>_ _. True)) \<lparr>dq_text = [], dq_page = None, dq_limit = None, dq_type = None, dq_status = None,
      dq_search = None, dq_archived = None, dq_assigned = Some ''true'', dq_sortBy = None, dq_asc = None\<rparr>
      \<lparr>cu_id = ''root'', cu_role = ADMIN\<rparr> demo_fleet"
  by (rule assigned_filter_shows_all [where s = "''true''"]) simp

end
