(* ===== verification/Connections.thy ===== *)
theory Connections
  imports Auth_Data
begin

section \<open>Websocket connections\<close>

text \<open>
  \<open>modules/websocket\<close>: the guard of the messages, the gateway and the manager that keeps three maps in
  step, from sockets to their objects, from users to their sockets and from sockets to what is known of
  them. A map is an association list in insertion order; the objects of the sockets, which the maps share
  with Socket.IO, are the store \<open>ws_sockets\<close>. The guard waits for the verification of the token, so it is a
  step of its own: other events of the socket, its disconnection among them, can come between it and the
  handler. Tokens are texts, verified by the library of \<open>Auth_Data\<close>; what is emitted is kept in \<open>ws_sent\<close>.
\<close>

record socket =
  so_user :: "string option"
  so_lastActivity :: "ms option"
  so_joined :: "string list"
  so_open :: bool

record handshake =
  hs_auth :: "string option"
  hs_header :: "string option"
  hs_query :: "string option"
  hs_agent :: "string option"
  hs_address :: string

record connection_info =
  nf_userId :: string
  nf_connectedAt :: ms
  nf_lastActivity :: ms
  nf_rooms :: "string list"
  nf_agent :: "string option"
  nf_address :: string

record ws_world =
  ws_sockets :: "string \<rightharpoonup> socket"
  ws_connections :: "string list"
  ws_userConnections :: "(string \<times> string list) list"
  ws_info :: "(string \<times> connection_info) list"
  ws_messages :: nat
  ws_errors :: nat
  ws_lastMessage :: ms
  ws_sent :: "(string \<times> string \<times> json) list"

definition js_map_delete :: "'k \<Rightarrow> ('k \<times> 'v) list \<Rightarrow> ('k \<times> 'v) list" where
  "js_map_delete k m = filter (\<lambda>e. fst e \<noteq> k) m"

text \<open>\<open>Set.add\<close>\<close>

definition set_add :: "'a \<Rightarrow> 'a list \<Rightarrow> 'a list" where
  "set_add x xs = (if x \<in> set xs then xs else xs @ [x])"

definition change_socket :: "string \<Rightarrow> (socket \<Rightarrow> socket) \<Rightarrow> ws_world \<Rightarrow> ws_world" where
  "change_socket s f w = w\<lparr>ws_sockets := (ws_sockets w)(s := map_option f (ws_sockets w s))\<rparr>"

definition user_of :: "ws_world \<Rightarrow> string \<Rightarrow> string option" where
  "user_of w s = Option.bind (ws_sockets w s) so_user"

subsection \<open>The manager\<close>

definition sockets_of_user :: "string \<Rightarrow> ws_world \<Rightarrow> string list" where
  "sockets_of_user u w = (case map_of (ws_userConnections w) u of None \<Rightarrow> [] | Some ss \<Rightarrow> ss)"

definition add_connection :: "ms \<Rightarrow> handshake \<Rightarrow> string \<Rightarrow> string \<Rightarrow> ws_world \<Rightarrow> ws_world" where
  "add_connection now hs s u w =
     w\<lparr>ws_connections := set_add s (ws_connections w),
       ws_userConnections := js_map_set u (set_add s (sockets_of_user u w)) (ws_userConnections w),
       ws_info := js_map_set s \<lparr>nf_userId = u, nf_connectedAt = now, nf_lastActivity = now, nf_rooms = [],
         nf_agent = hs_agent hs, nf_address = hs_address hs\<rparr> (ws_info w)\<rparr>"

definition remove_connection :: "string \<Rightarrow> ws_world \<Rightarrow> ws_world" where
  "remove_connection s w =
     (if s \<notin> set (ws_connections w) then w
      else (case user_of w s of
          None \<Rightarrow> w
        | Some u \<Rightarrow>
            w\<lparr>ws_connections := filter (\<lambda>x. x \<noteq> s) (ws_connections w),
              ws_userConnections :=
                (case map_of (ws_userConnections w) u of
                   None \<Rightarrow> ws_userConnections w
                 | Some ss \<Rightarrow> (let rest = filter (\<lambda>x. x \<noteq> s) ss
                     in if rest = [] then js_map_delete u (ws_userConnections w) else js_map_set u rest (ws_userConnections w))),
              ws_info := js_map_delete s (ws_info w)\<rparr>))"

definition get_connection :: "string \<Rightarrow> ws_world \<Rightarrow> socket option" where
  "get_connection s w = (if s \<in> set (ws_connections w) then ws_sockets w s else None)"

definition get_user_connections :: "string \<Rightarrow> ws_world \<Rightarrow> string list" where
  "get_user_connections u w = filter (\<lambda>s. get_connection s w \<noteq> None) (sockets_of_user u w)"

definition get_active_connections :: "ws_world \<Rightarrow> nat" where
  "get_active_connections w = length (ws_connections w)"

definition get_active_users :: "ws_world \<Rightarrow> nat" where
  "get_active_users w = length (ws_userConnections w)"

definition get_all_connection_info :: "ws_world \<Rightarrow> connection_info list" where
  "get_all_connection_info w = map snd (ws_info w)"

definition get_connection_info :: "string \<Rightarrow> ws_world \<Rightarrow> connection_info option" where
  "get_connection_info s w = map_of (ws_info w) s"

definition change_info :: "string \<Rightarrow> (connection_info \<Rightarrow> connection_info) \<Rightarrow> ws_world \<Rightarrow> ws_world" where
  "change_info s f w = w\<lparr>ws_info := map (\<lambda>(k, i). (k, if k = s then f i else i)) (ws_info w)\<rparr>"

definition update_activity :: "ms \<Rightarrow> string \<Rightarrow> ws_world \<Rightarrow> ws_world" where
  "update_activity now s w =
     (let w1 = change_info s (\<lambda>i. i\<lparr>nf_lastActivity := now\<rparr>) w
      in if s \<in> set (ws_connections w1) then change_socket s (\<lambda>x. x\<lparr>so_lastActivity := Some now\<rparr>) w1 else w1)"

definition add_room_to_connection :: "string \<Rightarrow> string \<Rightarrow> ws_world \<Rightarrow> ws_world" where
  "add_room_to_connection s room w = change_info s (\<lambda>i. i\<lparr>nf_rooms := set_add room (nf_rooms i)\<rparr>) w"

definition remove_room_from_connection :: "string \<Rightarrow> string \<Rightarrow> ws_world \<Rightarrow> ws_world" where
  "remove_room_from_connection s room w = change_info s (\<lambda>i. i\<lparr>nf_rooms := filter (\<lambda>r. r \<noteq> room) (nf_rooms i)\<rparr>) w"

definition track_message :: "ms \<Rightarrow> bool \<Rightarrow> ws_world \<Rightarrow> ws_world" where
  "track_message now ok w = w\<lparr>ws_messages := ws_messages w + 1, ws_errors := (if ok then ws_errors w else ws_errors w + 1),
     ws_lastMessage := now\<rparr>"

definition get_total_rooms :: "ws_world \<Rightarrow> nat" where
  "get_total_rooms w = length (fold set_add (concat (map (nf_rooms \<circ> snd) (ws_info w))) [])"

record connection_stats =
  cst_active :: nat
  cst_rooms :: nat
  cst_perSecond :: rat
  cst_errorRate :: rat

text \<open>\<open>Math.round(x * f) / f\<close> of a number that is not negative.\<close>

definition round_to :: "rat \<Rightarrow> rat \<Rightarrow> rat" where
  "round_to f x = of_int \<lfloor>x * f + 1 / 2\<rfloor> / f"

definition get_connection_stats :: "ms \<Rightarrow> ws_world \<Rightarrow> connection_stats" where
  "get_connection_stats now w =
     (let seconds = Fract (now - ws_lastMessage w) 1000
      in \<lparr>cst_active = length (ws_connections w), cst_rooms = get_total_rooms w,
          cst_perSecond = round_to 100 (if seconds > 0 then of_nat (ws_messages w) / seconds else 0),
          cst_errorRate = round_to 10000 (if ws_messages w > 0 then of_nat (ws_errors w) / of_nat (ws_messages w) else 0) * 100\<rparr>)"

definition is_user_connected :: "string \<Rightarrow> ws_world \<Rightarrow> bool" where
  "is_user_connected u w = (sockets_of_user u w \<noteq> [])"

definition reset_ws_stats :: "ms \<Rightarrow> ws_world \<Rightarrow> ws_world" where
  "reset_ws_stats now w = w\<lparr>ws_messages := 0, ws_errors := 0, ws_lastMessage := now\<rparr>"

definition is_inactive :: "ms \<Rightarrow> int \<Rightarrow> ws_world \<Rightarrow> string \<Rightarrow> bool" where
  "is_inactive now timeout w s \<longleftrightarrow>
     (case ws_sockets w s of None \<Rightarrow> False | Some x \<Rightarrow> now - num_or (so_lastActivity x) now > timeout)"

fun cleanup_connections :: "ms \<Rightarrow> int \<Rightarrow> string list \<Rightarrow> nat \<Rightarrow> ws_world \<Rightarrow> nat \<times> ws_world" where
  "cleanup_connections now timeout [] n w = (n, w)"
| "cleanup_connections now timeout (s # ss) n w =
     (if is_inactive now timeout w s
      then cleanup_connections now timeout ss (n + 1)
        (remove_connection s (change_socket s (\<lambda>x. x\<lparr>so_open := False, so_joined := []\<rparr>) w))
      else cleanup_connections now timeout ss n w)"

definition cleanup_inactive_connections :: "ms \<Rightarrow> int \<Rightarrow> ws_world \<Rightarrow> nat \<times> ws_world" where
  "cleanup_inactive_connections now timeout w = cleanup_connections now timeout (ws_connections w) 0 w"

subsection \<open>The guard\<close>

definition extract_token :: "handshake \<Rightarrow> string option" where
  "extract_token hs =
     (if truthy_str (hs_auth hs) then hs_auth hs
      else if truthy_str (hs_header hs)
      then (case split_on (CHR '' '') (the (hs_header hs)) of
              [b, t] \<Rightarrow> if b = ''Bearer'' then Some t else hs_header hs
            | _ \<Rightarrow> hs_header hs)
      else if truthy_str (hs_query hs) then hs_query hs else None)"

text \<open>An empty token after \<open>Bearer\<close> is missing too. On success the user is put on the socket; \<open>exp\<close> is looked at
  once more.\<close>

definition authenticate :: "string auth_lib \<Rightarrow> ms \<Rightarrow> handshake \<Rightarrow> string \<Rightarrow> ws_world \<Rightarrow> bool \<times> ws_world" where
  "authenticate lib now hs s w =
     (if \<not> truthy_str (extract_token hs) then (False, w)
      else (case al_verify lib (the (extract_token hs)) now of
          None \<Rightarrow> (False, w)
        | Some (c, ex) \<Rightarrow>
            if ex \<noteq> 0 \<and> now \<ge> ex * 1000 then (False, w)
            else (True, change_socket s (\<lambda>x. x\<lparr>so_user := Some (cl_sub c), so_lastActivity := Some now\<rparr>) w)))"

subsection \<open>The gateway\<close>

definition room_char :: "char \<Rightarrow> bool" where
  "room_char c = (let n = (of_char c :: nat) in 97 \<le> n \<and> n \<le> 122 \<or> 65 \<le> n \<and> n \<le> 90 \<or> 48 \<le> n \<and> n \<le> 57 \<or> n = 58 \<or> n = 95 \<or> n = 45)"

definition send :: "string \<Rightarrow> string \<Rightarrow> json \<Rightarrow> ws_world \<Rightarrow> ws_world" where
  "send s ev j w = w\<lparr>ws_sent := ws_sent w @ [(s, ev, j)]\<rparr>"

definition handle_connection :: "string \<Rightarrow> ws_world \<Rightarrow> ws_world" where
  "handle_connection s w = send s ''connected'' JNull
     (w\<lparr>ws_sockets := (ws_sockets w)(s \<mapsto> \<lparr>so_user = None, so_lastActivity = None, so_joined = [s], so_open = True\<rparr>)\<rparr>)"

definition handle_disconnect :: "string \<Rightarrow> ws_world \<Rightarrow> ws_world" where
  "handle_disconnect s w =
     (let w1 = change_socket s (\<lambda>x. x\<lparr>so_open := False, so_joined := []\<rparr>) w
      in if user_of w1 s \<noteq> None then remove_connection s w1 else w1)"

definition handle_ping :: "ms \<Rightarrow> string \<Rightarrow> ws_world \<Rightarrow> ws_world" where
  "handle_ping now s w = send s ''pong'' JNull (track_message now True w)"

definition valid_room :: "string \<Rightarrow> bool" where
  "valid_room room \<longleftrightarrow> room \<noteq> [] \<and> list_all room_char room"

text \<open>A closed socket joins nothing that is emitted to.\<close>

definition handle_subscribe :: "ms \<Rightarrow> handshake \<Rightarrow> string \<Rightarrow> string \<Rightarrow> ws_world \<Rightarrow> ws_world" where
  "handle_subscribe now hs s room w =
     (case user_of w s of
        None \<Rightarrow> send s ''error'' JNull (track_message now False w)
      | Some u \<Rightarrow>
          (let w1 = (if get_connection s w = None then add_connection now hs s u w else w)
           in if \<not> valid_room room then send s ''error'' JNull (track_message now False w1)
              else send s ''subscribed'' JNull (track_message now True (update_activity now s (add_room_to_connection s room
                (change_socket s (\<lambda>x. x\<lparr>so_joined := set_add room (so_joined x)\<rparr>) w1))))))"

definition handle_unsubscribe :: "ms \<Rightarrow> string \<Rightarrow> string \<Rightarrow> ws_world \<Rightarrow> ws_world" where
  "handle_unsubscribe now s room w =
     (if room = [] then send s ''error'' JNull (track_message now False w)
      else send s ''unsubscribed'' JNull (track_message now True (update_activity now s (remove_room_from_connection s room
        (change_socket s (\<lambda>x. x\<lparr>so_joined := filter (\<lambda>r. r \<noteq> room) (so_joined x)\<rparr>) w)))))"

definition handle_connection_info :: "ms \<Rightarrow> string \<Rightarrow> ws_world \<Rightarrow> ws_world" where
  "handle_connection_info now s w = send s ''connection:info'' JNull (track_message now True (update_activity now s w))"

definition send_all :: "string list \<Rightarrow> string \<Rightarrow> json \<Rightarrow> ws_world \<Rightarrow> ws_world" where
  "send_all ss ev j w = fold (\<lambda>s. send s ev j) ss w"

definition broadcast_to_user :: "string \<Rightarrow> string \<Rightarrow> json \<Rightarrow> ws_world \<Rightarrow> ws_world" where
  "broadcast_to_user u ev j w = send_all (get_user_connections u w) ev j w"

text \<open>\<open>ss\<close> are the sockets of the namespace.\<close>

definition broadcast_to_room :: "string list \<Rightarrow> string \<Rightarrow> string \<Rightarrow> json \<Rightarrow> ws_world \<Rightarrow> ws_world" where
  "broadcast_to_room ss room ev j w =
     send_all (filter (\<lambda>s. case ws_sockets w s of None \<Rightarrow> False | Some x \<Rightarrow> so_open x \<and> room \<in> set (so_joined x)) ss) ev j w"

definition broadcast_global :: "string list \<Rightarrow> string \<Rightarrow> json \<Rightarrow> ws_world \<Rightarrow> ws_world" where
  "broadcast_global ss ev j w =
     send_all (filter (\<lambda>s. case ws_sockets w s of None \<Rightarrow> False | Some x \<Rightarrow> so_open x) ss) ev j w"

end
