(* ===== verification/Connection_Facts.thy ===== *)
theory Connection_Facts
  imports Connections
begin

section \<open>What holds of the connections\<close>

text \<open>
  The maps of the manager agree with each other over every interleaving of guards, handlers and
  disconnections; what a message to a user reaches; and the connection that stays behind when a socket
  closes between the guard and the handler.
\<close>

lemma js_map_delete_simps [simp]:
  "map_of (js_map_delete k m) = (map_of m)(k := None)" "fst ` set (js_map_delete k m) = fst ` set m - {k}"
  "distinct (map fst m) \<Longrightarrow> distinct (map fst (js_map_delete k m))"
proof -
  show "map_of (js_map_delete k m) = (map_of m)(k := None)" by (induction m) (auto simp: js_map_delete_def)
  show "fst ` set (js_map_delete k m) = fst ` set m - {k}" by (auto simp: js_map_delete_def)
  show "distinct (map fst m) \<Longrightarrow> distinct (map fst (js_map_delete k m))" unfolding js_map_delete_def by (rule distinct_map_filter)
qed

lemma js_map_set_keys [simp]:
  "fst ` set (js_map_set k v m) = insert k (fst ` set m)"
  "distinct (map fst (js_map_set k v m)) \<longleftrightarrow> distinct (map fst m)"
proof -
  have k: "fst ` set (js_map_set k v m) = insert k (fst ` set m)" for m :: "('a \<times> 'b) list"
  proof (induction m)
    case (Cons e m)
    then show ?case by (cases e) auto
  qed simp
  then show "fst ` set (js_map_set k v m) = insert k (fst ` set m)" .
  show "distinct (map fst (js_map_set k v m)) \<longleftrightarrow> distinct (map fst m)"
  proof (induction m)
    case (Cons e m)
    then show ?case using k [of m] by (cases e) auto
  qed simp
qed

lemma set_add_simps [simp]: "set (set_add x xs) = insert x (set xs)" "distinct (set_add x xs) \<longleftrightarrow> distinct xs"
  by (auto simp: set_add_def)

lemma change_socket_simps [simp]:
  "ws_connections (change_socket s f w) = ws_connections w" "ws_userConnections (change_socket s f w) = ws_userConnections w"
  "ws_info (change_socket s f w) = ws_info w" "ws_sent (change_socket s f w) = ws_sent w"
  "sockets_of_user u (change_socket s f w) = sockets_of_user u w"
  by (simp_all add: change_socket_def sockets_of_user_def)

lemma user_of_change [simp]:
  "(\<And>x. so_user (f x) = so_user x) \<Longrightarrow> user_of (change_socket s f w) k = user_of w k"
  by (cases "ws_sockets w s") (auto simp: user_of_def change_socket_def)

definition info_users :: "ws_world \<Rightarrow> (string \<times> string) list" where
  "info_users w = map (\<lambda>(s, i). (s, nf_userId i)) (ws_info w)"

definition same_maps :: "ws_world \<Rightarrow> ws_world \<Rightarrow> bool" where
  "same_maps w w' \<longleftrightarrow> ws_connections w' = ws_connections w \<and> ws_userConnections w' = ws_userConnections w \<and>
     info_users w' = info_users w \<and> user_of w' = user_of w"

lemma same_maps_refl [simp]: "same_maps w w"
  by (simp add: same_maps_def)

lemma same_maps_trans: "same_maps w w' \<Longrightarrow> same_maps w' w'' \<Longrightarrow> same_maps w w''"
  by (simp add: same_maps_def)

lemma same_maps_steps [simp]:
  "same_maps w (send s ev j w') = same_maps w w'" "same_maps w (track_message now b w') = same_maps w w'"
  "(\<And>x. so_user (f x) = so_user x) \<Longrightarrow> same_maps w (change_socket s f w') = same_maps w w'"
  "(\<And>i. nf_userId (g i) = nf_userId i) \<Longrightarrow> same_maps w (change_info s g w') = same_maps w w'"
proof -
  show "same_maps w (send s ev j w') = same_maps w w'" by (simp add: same_maps_def send_def user_of_def info_users_def fun_eq_iff)
  show "same_maps w (track_message now b w') = same_maps w w'" by (simp add: same_maps_def track_message_def user_of_def info_users_def fun_eq_iff)
  show "same_maps w (change_socket s f w') = same_maps w w'" if "\<And>x. so_user (f x) = so_user x"
    using that by (simp add: same_maps_def info_users_def fun_eq_iff)
  show "same_maps w (change_info s g w') = same_maps w w'" if "\<And>i. nf_userId (g i) = nf_userId i"
  proof -
    have "info_users (change_info s g w') = info_users w'"
      "ws_connections (change_info s g w') = ws_connections w'" "ws_userConnections (change_info s g w') = ws_userConnections w'"
      "user_of (change_info s g w') = user_of w'"
      using that by (auto simp: change_info_def user_of_def info_users_def fun_eq_iff)
    then show ?thesis by (simp only: same_maps_def)
  qed
qed

lemma same_maps_activity [simp]: "same_maps w (update_activity now s w') = same_maps w w'"
  by (simp add: update_activity_def Let_def)

lemma same_maps_rooms [simp]:
  "same_maps w (add_room_to_connection s room w') = same_maps w w'" "same_maps w (remove_room_from_connection s room w') = same_maps w w'"
  by (simp_all add: add_room_to_connection_def remove_room_from_connection_def)

subsection \<open>The invariant\<close>

definition tables_agree :: "ws_world \<Rightarrow> bool" where
  "tables_agree w \<longleftrightarrow> distinct (ws_connections w) \<and> distinct (map fst (info_users w)) \<and> distinct (map fst (ws_userConnections w)) \<and>
     fst ` set (info_users w) = set (ws_connections w) \<and>
     (\<forall>p \<in> set (info_users w). user_of w (fst p) = Some (snd p)) \<and>
     (\<forall>u ss. map_of (ws_userConnections w) u = Some ss \<longrightarrow> ss \<noteq> [] \<and> distinct ss) \<and>
     (\<forall>u s. s \<in> set (sockets_of_user u w) \<longleftrightarrow> s \<in> set (ws_connections w) \<and> user_of w s = Some u)"

lemma tables_agreeI:
  assumes "distinct (ws_connections w)" "distinct (map fst (info_users w))" "distinct (map fst (ws_userConnections w))"
    "fst ` set (info_users w) = set (ws_connections w)" "\<And>p. p \<in> set (info_users w) \<Longrightarrow> user_of w (fst p) = Some (snd p)"
    "\<And>u ss. map_of (ws_userConnections w) u = Some ss \<Longrightarrow> ss \<noteq> [] \<and> distinct ss"
    "\<And>u s. s \<in> set (sockets_of_user u w) \<longleftrightarrow> s \<in> set (ws_connections w) \<and> user_of w s = Some u"
  shows "tables_agree w"
  unfolding tables_agree_def by (intro conjI ballI allI impI) (assumption | rule assms | rule assms(6) [THEN conjunct1] assms(6) [THEN conjunct2])+

lemma sockets_of_user_cong: "ws_userConnections w' = ws_userConnections w \<Longrightarrow> sockets_of_user u w' = sockets_of_user u w"
  by (simp add: sockets_of_user_def)

lemma tables_agree_same: "tables_agree w \<Longrightarrow> same_maps w w' \<Longrightarrow> tables_agree w'"
  using sockets_of_user_cong [of w' w] by (simp add: tables_agree_def same_maps_def)

lemma tables_agreeD:
  assumes "tables_agree w"
  shows "s \<in> set (ws_connections w) \<Longrightarrow> \<exists>u. user_of w s = Some u"
    "s \<in> set (sockets_of_user u w) \<longleftrightarrow> s \<in> set (ws_connections w) \<and> user_of w s = Some u" "distinct (sockets_of_user u w)"
    "map_of (ws_userConnections w) u = Some ss \<Longrightarrow> ss \<noteq> [] \<and> distinct ss"
proof -
  show "ss \<noteq> [] \<and> distinct ss" if "map_of (ws_userConnections w) u = Some ss"
    using that assms unfolding tables_agree_def by metis
  have ids: "fst ` set (info_users w) = set (ws_connections w)" and us: "\<forall>p \<in> set (info_users w). user_of w (fst p) = Some (snd p)"
    using assms by (simp_all add: tables_agree_def)
  show "\<exists>u. user_of w s = Some u" if "s \<in> set (ws_connections w)"
    using that us unfolding ids [symmetric] by auto
  show "s \<in> set (sockets_of_user u w) \<longleftrightarrow> s \<in> set (ws_connections w) \<and> user_of w s = Some u"
    using assms by (simp add: tables_agree_def)
  show "distinct (sockets_of_user u w)"
    using assms unfolding tables_agree_def by (cases "map_of (ws_userConnections w) u") (simp_all add: sockets_of_user_def)
qed

lemma tables_agree_add:
  assumes "tables_agree w" "s \<notin> set (ws_connections w)" "user_of w s = Some u"
  shows "tables_agree (add_connection now hs s u w)"
proof -
  let ?w = "add_connection now hs s u w"
  have u: "user_of ?w = user_of w" by (simp add: add_connection_def user_of_def fun_eq_iff)
  have n: "s \<notin> fst ` set (info_users w)" using assms(1,2) by (simp add: tables_agree_def)
  have "s \<notin> fst ` set m \<Longrightarrow> js_map_set s i m = m @ [(s, i)]" for m :: "(string \<times> connection_info) list" and i
    by (induction m) auto
  moreover have "s \<notin> fst ` set (ws_info w)" using n by (force simp: info_users_def)
  ultimately have info: "info_users ?w = info_users w @ [(s, u)]" by (simp add: info_users_def add_connection_def)
  have d: "distinct (ws_connections ?w) \<and> distinct (map fst (info_users ?w)) \<and> distinct (map fst (ws_userConnections ?w)) \<and>
      fst ` set (info_users ?w) = set (ws_connections ?w)"
    using assms(1) n by (simp add: info) (simp add: add_connection_def tables_agree_def)
  have i: "\<forall>p \<in> set (info_users ?w). user_of ?w (fst p) = Some (snd p)"
    using assms(1,3) unfolding u info tables_agree_def by simp
  have ss: "\<forall>v ss. map_of (ws_userConnections ?w) v = Some ss \<longrightarrow> ss \<noteq> [] \<and> distinct ss"
  proof (intro allI impI)
    fix v ss
    assume v: "map_of (ws_userConnections ?w) v = Some ss"
    show "ss \<noteq> [] \<and> distinct ss"
    proof (cases "v = u")
      case True
      then have "ss = set_add s (sockets_of_user u w)" using v by (simp add: add_connection_def)
      then show ?thesis using tables_agreeD(3) [OF assms(1), of u] by (auto simp: set_add_def)
    next
      case False
      then show ?thesis using v by (intro tables_agreeD(4) [OF assms(1)]) (simp add: add_connection_def)
    qed
  qed
  have "sockets_of_user v ?w = (if v = u then set_add s (sockets_of_user u w) else sockets_of_user v w)" for v
    by (simp add: add_connection_def sockets_of_user_def)
  then have "\<forall>v k. k \<in> set (sockets_of_user v ?w) \<longleftrightarrow> k \<in> set (ws_connections ?w) \<and> user_of ?w k = Some v"
    using assms(3) unfolding u by (auto simp: tables_agreeD(2) [OF assms(1)] add_connection_def)
  with d i ss show ?thesis unfolding tables_agree_def by blast
qed

lemma user_of_remove [simp]: "user_of (remove_connection s w) = user_of w"
  by (auto simp: remove_connection_def user_of_def fun_eq_iff split: option.split)

lemma connections_remove [simp]:
  "tables_agree w \<Longrightarrow> ws_connections (remove_connection s w) = filter (\<lambda>x. x \<noteq> s) (ws_connections w)"
  using tables_agreeD(1) [of w s] filter_id_conv [of "\<lambda>x. x \<noteq> s" "ws_connections w"]
  by (auto simp: remove_connection_def split: option.split)

lemma tables_agree_remove:
  assumes "tables_agree w"
  shows "tables_agree (remove_connection s w)"
proof (cases "s \<in> set (ws_connections w)")
  case True
  then obtain u where u: "user_of w s = Some u" using tables_agreeD(1) [OF assms] by blast
  have "s \<in> set (sockets_of_user u w)" using True u by (simp add: tables_agreeD(2) [OF assms])
  then obtain ss where ss: "map_of (ws_userConnections w) u = Some ss" by (cases "map_of (ws_userConnections w) u") (auto simp: sockets_of_user_def)
  let ?rest = "filter (\<lambda>x. x \<noteq> s) ss"
  let ?w = "remove_connection s w"
  have w: "ws_userConnections ?w = (if ?rest = [] then js_map_delete u (ws_userConnections w) else js_map_set u ?rest (ws_userConnections w))"
    "info_users ?w = js_map_delete s (info_users w)"
    using True u ss by (simp_all add: remove_connection_def Let_def info_users_def js_map_delete_def filter_map comp_def case_prod_beta)
  have su: "sockets_of_user v ?w = (if v = u then ?rest else sockets_of_user v w)" for v
    using ss by (simp add: sockets_of_user_def w(1))
  have mem: "k \<in> set ss \<longleftrightarrow> k \<in> set (ws_connections w) \<and> user_of w k = Some u" for k
    using tables_agreeD(2) [OF assms, of k u] ss by (simp add: sockets_of_user_def)
  have "k \<in> set (sockets_of_user v ?w) \<longleftrightarrow> k \<in> set (ws_connections ?w) \<and> user_of ?w k = Some v" for v k
    using u by (cases "v = u") (auto simp: su mem connections_remove [OF assms] tables_agreeD(2) [OF assms])
  moreover have "distinct (ws_connections ?w) \<and> distinct (map fst (info_users ?w)) \<and> distinct (map fst (ws_userConnections ?w)) \<and>
      fst ` set (info_users ?w) = set (ws_connections ?w)"
    using assms by (simp add: w connections_remove [OF assms] tables_agree_def) auto
  moreover have "\<forall>p \<in> set (info_users ?w). user_of ?w (fst p) = Some (snd p)"
    using assms unfolding w(2) tables_agree_def by (simp add: js_map_delete_def)
  moreover have "\<forall>v ts. map_of (ws_userConnections ?w) v = Some ts \<longrightarrow> ts \<noteq> [] \<and> distinct ts"
  proof (intro allI impI)
    fix v ts
    assume v: "map_of (ws_userConnections ?w) v = Some ts"
    show "ts \<noteq> [] \<and> distinct ts"
    proof (cases "v = u")
      case True
      then show ?thesis using v tables_agreeD(4) [OF assms ss] by (auto simp: w(1) split: if_splits)
    next
      case False
      then show ?thesis using v by (intro tables_agreeD(4) [OF assms]) (simp add: w(1) split: if_splits)
    qed
  qed
  ultimately show ?thesis unfolding tables_agree_def by blast
next
  case False
  then show ?thesis using assms by (simp add: remove_connection_def)
qed

subsection \<open>Interleaved events\<close>

text \<open>
  \<open>hs\<close> gives the handshake of each socket, whose id is never used again. A handler runs when its guard has
  passed, which leaves the user on the socket; the socket may be closed by then. Nothing calls the cleanup of the manager, so it is not an event but only
  a step.
\<close>

inductive ws_event :: "string auth_lib \<Rightarrow> (string \<Rightarrow> handshake) \<Rightarrow> ws_world \<Rightarrow> ws_world \<Rightarrow> bool" for lib hs where
  connect: "ws_sockets w s = None \<Longrightarrow> ws_event lib hs w (handle_connection s w)"
| guard: "ws_sockets w s \<noteq> None \<Longrightarrow> ws_event lib hs w (snd (authenticate lib now (hs s) s w))"
| subscribe: "user_of w s \<noteq> None \<Longrightarrow> ws_event lib hs w (handle_subscribe now (hs s) s room w)"
| unsubscribe: "user_of w s \<noteq> None \<Longrightarrow> ws_event lib hs w (handle_unsubscribe now s room w)"
| info: "user_of w s \<noteq> None \<Longrightarrow> ws_event lib hs w (handle_connection_info now s w)"
| ping: "ws_sockets w s \<noteq> None \<Longrightarrow> ws_event lib hs w (handle_ping now s w)"
| disconnect: "ws_sockets w s = Some x \<Longrightarrow> so_open x \<Longrightarrow> ws_event lib hs w (handle_disconnect s w)"
| user_message: "ws_event lib hs w (broadcast_to_user u ev j w)"
| room_message: "ws_event lib hs w (broadcast_to_room ss room ev j w)"
| global_message: "ws_event lib hs w (broadcast_global ss ev j w)"
| reset_stats: "ws_event lib hs w (reset_ws_stats now w)"

inductive ws_step :: "string auth_lib \<Rightarrow> (string \<Rightarrow> handshake) \<Rightarrow> ws_world \<Rightarrow> ws_world \<Rightarrow> bool" for lib hs where
  event: "ws_event lib hs w w' \<Longrightarrow> ws_step lib hs w w'"
| cleanup: "ws_step lib hs w (snd (cleanup_inactive_connections now timeout w))"

definition ws_start :: "ms \<Rightarrow> ws_world" where
  "ws_start now = \<lparr>ws_sockets = (\<lambda>s. None), ws_connections = [], ws_userConnections = [], ws_info = [],
     ws_messages = 0, ws_errors = 0, ws_lastMessage = now, ws_sent = []\<rparr>"

text \<open>The user the token of a handshake names, at whatever time it is verified.\<close>

definition token_names :: "string auth_lib \<Rightarrow> handshake \<Rightarrow> string \<Rightarrow> bool" where
  "token_names lib h u \<longleftrightarrow> (\<exists>now c ex. al_verify lib (the (extract_token h)) now = Some (c, ex) \<and> cl_sub c = u)"

definition one_holder :: "string auth_lib \<Rightarrow> bool" where
  "one_holder lib \<longleftrightarrow> (\<forall>t n n' c c' ex ex'. al_verify lib t n = Some (c, ex) \<and> al_verify lib t n' = Some (c', ex') \<longrightarrow> cl_sub c = cl_sub c')"

lemma token_names_one: "one_holder lib \<Longrightarrow> token_names lib h u \<Longrightarrow> token_names lib h v \<Longrightarrow> u = v"
  unfolding token_names_def one_holder_def by metis

definition ws_ok :: "string auth_lib \<Rightarrow> (string \<Rightarrow> handshake) \<Rightarrow> ws_world \<Rightarrow> bool" where
  "ws_ok lib hs w \<longleftrightarrow> tables_agree w \<and> (\<forall>s u. user_of w s = Some u \<longrightarrow> token_names lib (hs s) u)"

lemma ws_ok_same: "ws_ok lib hs w \<Longrightarrow> same_maps w w' \<Longrightarrow> ws_ok lib hs w'"
  using tables_agree_same [of w w'] by (simp add: ws_ok_def same_maps_def)

lemma same_maps_more:
  "ws_sockets w s = None \<Longrightarrow> same_maps w (handle_connection s w)"
  "same_maps w (reset_ws_stats now w')  = same_maps w w'" "same_maps w (send_all ss ev j w') = same_maps w w'"
proof -
  show "same_maps w (handle_connection s w)" if "ws_sockets w s = None"
    unfolding handle_connection_def using that by (simp add: same_maps_def user_of_def info_users_def fun_eq_iff send_def)
  show "same_maps w (reset_ws_stats now w') = same_maps w w'" by (simp add: same_maps_def reset_ws_stats_def user_of_def info_users_def fun_eq_iff)
  show "same_maps w (send_all ss ev j w') = same_maps w w'" unfolding send_all_def by (induction ss arbitrary: w') simp_all
qed

lemma tables_agree_user:
  assumes "tables_agree w" "user_of w s \<in> {None, Some u}" "user_of w' = (user_of w)(s := Some u)"
    "ws_connections w' = ws_connections w" "ws_userConnections w' = ws_userConnections w" "info_users w' = info_users w"
  shows "tables_agree w'"
proof -
  have k: "k \<in> set (ws_connections w) \<Longrightarrow> user_of w' k = user_of w k" for k
    using assms(2,3) tables_agreeD(1) [OF assms(1), of k] by auto
  have c: "fst ` set (info_users w) = set (ws_connections w)" using assms(1) by (simp add: tables_agree_def)
  have "user_of w' (fst p) = Some (snd p)" if "p \<in> set (info_users w)" for p
  proof -
    have "fst p \<in> set (ws_connections w)" using that unfolding c [symmetric] by simp
    then show ?thesis using that assms(1) by (simp add: k tables_agree_def)
  qed
  moreover have "v \<in> set (sockets_of_user x w) \<longleftrightarrow> v \<in> set (ws_connections w) \<and> user_of w' v = Some x" for v x
    using k [of v] by (auto simp: tables_agreeD(2) [OF assms(1)])
  ultimately show ?thesis
    using assms(1) unfolding tables_agree_def assms(4-6) sockets_of_user_cong [OF assms(5)] by blast
qed

lemma authenticate_sets:
  "snd (authenticate lib now h s w) = w \<or>
   (\<exists>u. token_names lib h u \<and> snd (authenticate lib now h s w) = change_socket s (\<lambda>x. x\<lparr>so_user := Some u, so_lastActivity := Some now\<rparr>) w)"
  unfolding authenticate_def token_names_def by (auto split: option.split prod.split)

lemma ws_ok_guard:
  assumes "ws_ok lib hs w" "one_holder lib" "ws_sockets w s \<noteq> None"
  shows "ws_ok lib hs (snd (authenticate lib now (hs s) s w))"
  using authenticate_sets [of lib now "hs s" s w]
proof (elim disjE exE conjE)
  fix u
  assume u: "token_names lib (hs s) u"
    and w: "snd (authenticate lib now (hs s) s w) = change_socket s (\<lambda>x. x\<lparr>so_user := Some u, so_lastActivity := Some now\<rparr>) w" (is "_ = ?w")
  have us: "user_of ?w = (user_of w)(s := Some u)" using assms(3) by (auto simp: user_of_def change_socket_def fun_eq_iff)
  have "user_of w s \<in> {None, Some u}"
    using assms(1) token_names_one [OF assms(2) _ u] by (cases "user_of w s") (simp_all add: ws_ok_def)
  moreover have "tables_agree w" using assms(1) by (simp add: ws_ok_def)
  ultimately have "tables_agree ?w" by (intro tables_agree_user [OF _ _ us]) (simp_all only: change_socket_simps info_users_def)
  then show ?thesis using assms(1) u unfolding w by (simp add: ws_ok_def us)
qed (use assms(1) in simp)

lemma ws_ok_add:
  "ws_ok lib hs w \<Longrightarrow> s \<notin> set (ws_connections w) \<Longrightarrow> user_of w s = Some u \<Longrightarrow> ws_ok lib hs (add_connection now h s u w)"
  using tables_agree_add [of w s u now h] by (simp add: ws_ok_def) (simp add: add_connection_def user_of_def)

lemma get_connection_None: "ws_ok lib hs w \<Longrightarrow> get_connection s w = None \<longleftrightarrow> s \<notin> set (ws_connections w)"
  using tables_agreeD(1) [of w s] by (cases "ws_sockets w s") (auto simp: get_connection_def ws_ok_def user_of_def)

lemma ws_ok_subscribe:
  assumes "ws_ok lib hs w" "user_of w s \<noteq> None"
  shows "ws_ok lib hs (handle_subscribe now h s room w)"
proof -
  obtain u where u: "user_of w s = Some u" using assms(2) by blast
  let ?w = "if get_connection s w = None then add_connection now h s u w else w"
  have "ws_ok lib hs ?w" using assms(1) u by (simp add: get_connection_None [OF assms(1)] ws_ok_add)
  then show ?thesis by (rule ws_ok_same) (simp add: handle_subscribe_def u Let_def)
qed

lemma ws_ok_remove: "ws_ok lib hs w \<Longrightarrow> ws_ok lib hs (remove_connection s w)"
  by (simp add: ws_ok_def tables_agree_remove)

lemma ws_ok_closed: "ws_ok lib hs w \<Longrightarrow> ws_ok lib hs (change_socket s (\<lambda>x. x\<lparr>so_open := False, so_joined := []\<rparr>) w)"
  by (erule ws_ok_same) simp

lemma ws_ok_cleanup: "ws_ok lib hs w \<Longrightarrow> ws_ok lib hs (snd (cleanup_connections now timeout ss n w))"
proof (induction ss arbitrary: n w)
  case (Cons s ss)
  then show ?case using ws_ok_closed [OF Cons.prems, of s] by (simp add: ws_ok_remove)
qed simp

definition opened :: "ws_world \<Rightarrow> string \<Rightarrow> bool option" where
  "opened w s = map_option so_open (ws_sockets w s)"

text \<open>All other events leave the maps as they are.\<close>

lemma ws_event_maps:
  assumes "ws_event lib hs w w'"
  obtains (maps) "same_maps w w'"
  | (guard) s now where "ws_sockets w s \<noteq> None" "w' = snd (authenticate lib now (hs s) s w)"
  | (subscribe) s now room u where "user_of w s = Some u" "w' = handle_subscribe now (hs s) s room w"
  | (disconnect) s where "opened w s = Some True" "w' = handle_disconnect s w"
  using assms
proof cases
  case (disconnect s x)
  then show ?thesis using that(4) [of s] by (simp add: opened_def)
next
  case (guard s now)
  then show ?thesis using that(2) by simp
next
  case (subscribe s now room)
  then show ?thesis using that(3) by auto
qed (rule that(1), simp add: same_maps_more handle_unsubscribe_def handle_connection_info_def handle_ping_def
       broadcast_to_user_def broadcast_to_room_def broadcast_global_def)+

lemma ws_ok_event:
  assumes "ws_event lib hs w w'" "ws_ok lib hs w" "one_holder lib"
  shows "ws_ok lib hs w'"
  using assms(1)
proof (cases rule: ws_event_maps)
  case (disconnect s)
  then show ?thesis using ws_ok_closed [OF assms(2), of s] by (simp add: handle_disconnect_def Let_def ws_ok_remove)
qed (use ws_ok_same [OF assms(2)] ws_ok_guard [OF assms(2,3)] ws_ok_subscribe [OF assms(2)] in simp_all)

lemma ws_ok_start: "ws_ok lib hs (ws_start now)"
  by (simp add: ws_ok_def tables_agree_def ws_start_def user_of_def info_users_def sockets_of_user_def)

lemma ws_ok_reach:
  assumes "(ws_step lib hs)\<^sup>*\<^sup>* (ws_start t) w" "one_holder lib"
  shows "ws_ok lib hs w"
  using assms(1)
proof induction
  case (step w w')
  from step(2) show ?case
    by cases (use step(3) ws_ok_event [OF _ step(3) assms(2)] in \<open>simp_all add: cleanup_inactive_connections_def ws_ok_cleanup\<close>)
qed (rule ws_ok_start)

subsection \<open>Closed sockets\<close>

lemma opened_change [simp]: "(\<And>x. so_open (f x) = so_open x) \<Longrightarrow> opened (change_socket s f w) = opened w"
  by (rule ext) (simp add: opened_def change_socket_def option.map_comp comp_def)

lemma opened_simps [simp]:
  "opened (change_info s g w) = opened w" "opened (send s ev j w) = opened w" "opened (track_message now b w) = opened w"
  "opened (add_connection now h s u w) = opened w" "opened (remove_connection s w) = opened w" "opened (reset_ws_stats now w) = opened w"
  "opened (send_all ss ev j w) = opened w"
proof -
  show "opened (send s ev j w) = opened w" for s w by (simp add: opened_def send_def fun_eq_iff)
  then show "opened (send_all ss ev j w) = opened w" unfolding send_all_def by (induction ss arbitrary: w) simp_all
  show "opened (remove_connection s w) = opened w" by (auto simp: opened_def remove_connection_def fun_eq_iff split: option.split)
qed (simp_all add: opened_def change_info_def track_message_def add_connection_def reset_ws_stats_def fun_eq_iff)

lemma opened_activity [simp]: "opened (update_activity now s w) = opened w"
  by (simp add: update_activity_def Let_def)

lemma opened_disconnect: "opened (handle_disconnect s w) = (opened w)(s := map_option (\<lambda>b. False) (opened w s))"
proof -
  have "opened (change_socket s (\<lambda>x. x\<lparr>so_open := False, so_joined := []\<rparr>) w) = (opened w)(s := map_option (\<lambda>b. False) (opened w s))"
    by (simp add: opened_def change_socket_def fun_eq_iff option.map_comp comp_def)
  then show ?thesis by (simp add: handle_disconnect_def Let_def)
qed

lemma handle_disconnect_keeps:
  "ws_ok lib hs w \<Longrightarrow> ws_ok lib hs (handle_disconnect s w)" "user_of (handle_disconnect s w) = user_of w"
  using ws_ok_closed [of lib hs w s] by (auto simp: handle_disconnect_def Let_def ws_ok_remove fun_eq_iff)

lemma opened_authenticate [simp]: "opened (snd (authenticate lib now h s w)) = opened w"
  using authenticate_sets [of lib now h s w] by auto

lemma opened_subscribe [simp]: "opened (handle_subscribe now h s room w) = opened w"
  by (simp add: handle_subscribe_def Let_def add_room_to_connection_def split: option.split)

lemma closed_event:
  assumes "ws_event lib hs w w'" "opened w s = Some False"
  shows "opened w' s = Some False"
  using assms(1)
proof cases
  case (connect k)
  then have "k \<noteq> s" using assms(2) by (auto simp: opened_def)
  then show ?thesis using assms(2) connect(1) by (simp add: handle_connection_def opened_def send_def)
next
  case (disconnect k x)
  then show ?thesis using assms(2) by (auto simp: opened_disconnect)
qed (use assms(2) in \<open>simp_all add: handle_unsubscribe_def handle_connection_info_def handle_ping_def
       remove_room_from_connection_def broadcast_to_user_def broadcast_to_room_def broadcast_global_def\<close>)

lemma same_maps_connections: "same_maps w w' \<Longrightarrow> ws_connections w' = ws_connections w"
  by (simp add: same_maps_def)

lemma subscribe_connections:
  assumes "ws_ok lib hs w" "user_of w s = Some u"
  shows "set (ws_connections (handle_subscribe now h s room w)) = insert s (set (ws_connections w))"
proof -
  let ?w = "if get_connection s w = None then add_connection now h s u w else w"
  have "ws_connections (handle_subscribe now h s room w) = ws_connections ?w"
    by (rule same_maps_connections) (simp add: handle_subscribe_def assms(2) Let_def)
  then show ?thesis by (auto simp: get_connection_None [OF assms(1)] add_connection_def)
qed

lemma registered_event:
  assumes "ws_event lib hs w w'" "ws_ok lib hs w" "opened w s = Some False" "s \<in> set (ws_connections w)"
  shows "s \<in> set (ws_connections w')"
  using assms(1)
proof (cases rule: ws_event_maps)
  case maps
  then show ?thesis using assms(4) by (simp add: same_maps_connections)
next
  case (disconnect k)
  then have "k \<noteq> s" using assms(3) by auto
  then show ?thesis using assms(4) ws_ok_closed [OF assms(2), of k] unfolding disconnect(2) handle_disconnect_def Let_def ws_ok_def by simp
next
  case (subscribe k now room u)
  then show ?thesis using assms(4) by (simp add: subscribe_connections [OF assms(2)])
next
  case (guard k now)
  then show ?thesis using authenticate_sets [of lib now "hs k" k w] assms(4) by auto
qed

lemma registered_events:
  assumes "(ws_event lib hs)\<^sup>*\<^sup>* w w'" "one_holder lib" "ws_ok lib hs w" "opened w s = Some False" "s \<in> set (ws_connections w)"
  shows "ws_ok lib hs w' \<and> opened w' s = Some False \<and> s \<in> set (ws_connections w') \<and> user_of w' s = user_of w s"
  using assms(1)
proof induction
  case (step w' w'')
  then have "ws_ok lib hs w''" "opened w'' s = Some False" "s \<in> set (ws_connections w'')"
    using ws_ok_event [OF step(2) _ assms(2)] closed_event [OF step(2)] registered_event [OF step(2)] by simp_all
  moreover obtain u v where "user_of w s = Some u" "user_of w'' s = Some v"
    using tables_agreeD(1) assms(3,5) calculation(1,3) unfolding ws_ok_def by metis
  moreover have "v = u" using calculation(1,4,5) assms(3) token_names_one [OF assms(2)] unfolding ws_ok_def by metis
  ultimately show ?case by simp
qed (use assms in simp)

subsection \<open>The cleanup\<close>

lemma cleanup_exact:
  assumes "ws_ok lib hs w" "distinct ss" "set ss \<subseteq> set (ws_connections w)"
  shows "fst (cleanup_connections now timeout ss n w) = n + length (filter (is_inactive now timeout w) ss) \<and>
    ws_connections (snd (cleanup_connections now timeout ss n w)) = filter (\<lambda>s. \<not> (s \<in> set ss \<and> is_inactive now timeout w s)) (ws_connections w)"
  using assms
proof (induction ss arbitrary: n w)
  case (Cons s ss)
  let ?c = "change_socket s (\<lambda>x. x\<lparr>so_open := False, so_joined := []\<rparr>) w"
  let ?w = "remove_connection s ?c"
  have c: "ws_ok lib hs ?c" using Cons.prems(1) by (rule ws_ok_closed)
  then have r: "ws_connections ?w = filter (\<lambda>x. x \<noteq> s) (ws_connections w)" by (simp add: ws_ok_def)
  have i: "is_inactive now timeout ?w = is_inactive now timeout w"
  proof (rule ext)
    fix k
    have "ws_sockets ?w = ws_sockets ?c" by (auto simp: remove_connection_def split: option.split)
    then show "is_inactive now timeout ?w k = is_inactive now timeout w k" by (auto simp: is_inactive_def change_socket_def split: option.split)
  qed
  show ?case
  proof (cases "is_inactive now timeout w s")
    case True
    have s: "set ss \<subseteq> set (ws_connections ?w)" "distinct ss" using Cons.prems(2,3) unfolding r by auto
    show ?thesis
      using True Cons.IH [OF ws_ok_remove [OF c] s(2,1), of "n + 1"] by (auto simp: r i intro!: filter_cong)
  next
    case False
    then show ?thesis using Cons.IH [OF Cons.prems(1), of n] Cons.prems(2,3) by (auto intro!: filter_cong)
  qed
qed simp

subsection \<open>What a message reaches\<close>

text \<open>C24. Whatever the interleaving of connections, guards, handlers, disconnections and cleanups, a message to
  a user is sent once to each registered socket whose token names that user and to no other, and the user
  counts as connected exactly if there is one. The token is the one of the handshake, so a socket goes on
  receiving after its token has expired.\<close>

theorem user_message_reaches:
  assumes "one_holder lib" "(ws_step lib hs)\<^sup>*\<^sup>* (ws_start t) w"
  shows "\<exists>ss. distinct ss \<and> (\<forall>s. s \<in> set ss \<longleftrightarrow> s \<in> set (ws_connections w) \<and> token_names lib (hs s) u) \<and>
    ws_sent (broadcast_to_user u ev j w) = ws_sent w @ map (\<lambda>s. (s, ev, j)) ss \<and> (is_user_connected u w \<longleftrightarrow> ss \<noteq> [])"
proof -
  have ok: "ws_ok lib hs w" using assms(2,1) by (rule ws_ok_reach)
  then have ag: "tables_agree w" by (simp add: ws_ok_def)
  have "get_connection s w \<noteq> None" if "s \<in> set (sockets_of_user u w)" for s
    using that by (simp add: get_connection_None [OF ok] tables_agreeD(2) [OF ag])
  then have g: "get_user_connections u w = sockets_of_user u w" by (simp add: get_user_connections_def filter_id_conv)
  have "ws_sent (send_all ss ev j w') = ws_sent w' @ map (\<lambda>s. (s, ev, j)) ss" for ss w'
    unfolding send_all_def by (induction ss arbitrary: w') (simp_all add: send_def)
  moreover have "user_of w s = Some u \<longleftrightarrow> token_names lib (hs s) u" if "s \<in> set (ws_connections w)" for s
  proof -
    obtain v where v: "user_of w s = Some v" using tables_agreeD(1) [OF ag] \<open>s \<in> set (ws_connections w)\<close> by blast
    then have "token_names lib (hs s) v" using ok by (simp add: ws_ok_def)
    then show ?thesis using v token_names_one [OF assms(1)] by auto
  qed
  ultimately show ?thesis using tables_agreeD(2,3) [OF ag]
    by (intro exI [of _ "sockets_of_user u w"]) (auto simp: broadcast_to_user_def g is_user_connected_def)
qed

definition demo_ws_lib :: "string auth_lib" where
  "demo_ws_lib = \<lparr>al_sign = (\<lambda>c life t. cl_sub c),
     al_verify = (\<lambda>t now. if now div 1000 < 900 then Some (\<lparr>cl_sub = t, cl_email = [], cl_role = USER, cl_impersonatedBy = None\<rparr>, 900) else None),
     al_hash = (\<lambda>salt p. p), al_compare = (=), al_life = 900\<rparr>"

definition demo_handshake :: "string \<Rightarrow> handshake" where
  "demo_handshake s = \<lparr>hs_auth = None, hs_header = Some (''Bearer '' @ take 1 s), hs_query = None, hs_agent = None, hs_address = ''::1''\<rparr>"

lemma demo_ws_one: "one_holder demo_ws_lib"
  by (simp add: one_holder_def demo_ws_lib_def)

text \<open>Two sockets of \<open>a\<close> and one of \<open>b\<close> subscribe.\<close>

definition demo_join :: "ms \<Rightarrow> string \<Rightarrow> ws_world \<Rightarrow> ws_world" where
  "demo_join now s w = handle_subscribe now (demo_handshake s) s ''news''
     (snd (authenticate demo_ws_lib now (demo_handshake s) s (handle_connection s w)))"

lemma demo_join_reach:
  assumes "ws_sockets w s = None" "user_of (snd (authenticate demo_ws_lib now (demo_handshake s) s (handle_connection s w))) s \<noteq> None"
  shows "(ws_step demo_ws_lib demo_handshake)\<^sup>*\<^sup>* w (demo_join now s w)"
proof -
  let ?a = "handle_connection s w"
  let ?b = "snd (authenticate demo_ws_lib now (demo_handshake s) s ?a)"
  have "ws_event demo_ws_lib demo_handshake w ?a" using assms(1) by (rule ws_event.connect)
  moreover have "ws_event demo_ws_lib demo_handshake ?a ?b" by (rule ws_event.guard) (simp add: handle_connection_def send_def)
  moreover have "ws_event demo_ws_lib demo_handshake ?b (demo_join now s w)" unfolding demo_join_def using assms(2) by (rule ws_event.subscribe)
  ultimately show ?thesis by (meson ws_step.event converse_rtranclp_into_rtranclp rtranclp.rtrancl_refl)
qed

theorem user_message_reaches_witness:
  "let w = demo_join 3000 ''b1'' (demo_join 2000 ''a2'' (demo_join 1000 ''a1'' (ws_start 0)))
   in \<exists>ss. (\<forall>s. s \<in> set ss \<longleftrightarrow> s \<in> set (ws_connections w) \<and> token_names demo_ws_lib (demo_handshake s) ''a'') \<and>
     ws_sent (broadcast_to_user ''a'' ''ev'' JNull w) = ws_sent w @ map (\<lambda>s. (s, ''ev'', JNull)) ss \<and> ws_connections w = [''a1'', ''a2'', ''b1'']"
proof -
  let ?w1 = "demo_join 1000 ''a1'' (ws_start 0)"
  let ?w2 = "demo_join 2000 ''a2'' ?w1"
  let ?w3 = "demo_join 3000 ''b1'' ?w2"
  have "(ws_step demo_ws_lib demo_handshake)\<^sup>*\<^sup>* (ws_start 0) ?w1" by (rule demo_join_reach; code_simp)
  moreover have "(ws_step demo_ws_lib demo_handshake)\<^sup>*\<^sup>* ?w1 ?w2" by (rule demo_join_reach; code_simp)
  moreover have "(ws_step demo_ws_lib demo_handshake)\<^sup>*\<^sup>* ?w2 ?w3" by (rule demo_join_reach; code_simp)
  ultimately have "(ws_step demo_ws_lib demo_handshake)\<^sup>*\<^sup>* (ws_start 0) ?w3" by (meson rtranclp_trans)
  moreover have "ws_connections ?w3 = [''a1'', ''a2'', ''b1'']" by code_simp
  ultimately show ?thesis using user_message_reaches [OF demo_ws_one, of demo_handshake 0 ?w3 "''a''" "''ev''" JNull] by (auto simp: Let_def)
qed

text \<open>When a socket closes between the guard of its first message and the handler, before or after the
  token is verified, it is registered after it has closed: no later event removes it, and its user counts
  as connected for good.\<close>

theorem closed_socket_stays:
  assumes "one_holder lib" "(ws_step lib hs)\<^sup>*\<^sup>* (ws_start t) w" "opened w s = Some True" "get_connection s w = None"
    "fst (authenticate lib now (hs s) s w)"
    "w1 \<in> {snd (authenticate lib now (hs s) s (handle_disconnect s w)), handle_disconnect s (snd (authenticate lib now (hs s) s w))}"
    "(ws_event lib hs)\<^sup>*\<^sup>* (handle_subscribe later (hs s) s room w1) w'"
  shows "\<exists>u. token_names lib (hs s) u \<and> s \<in> set (get_user_connections u w') \<and> is_user_connected u w' \<and> opened w' s = Some False"
proof -
  have ok: "ws_ok lib hs w" using assms(2,1) by (rule ws_ok_reach)
  have au: "ws_ok lib hs (snd (authenticate lib now (hs s) s v)) \<and> user_of (snd (authenticate lib now (hs s) s v)) s \<noteq> None"
    if "ws_ok lib hs v" "opened v s \<noteq> None" for v
    using that assms(5) ws_ok_guard [OF that(1) assms(1), of s now]
    by (auto simp: authenticate_def opened_def user_of_def change_socket_def split: if_splits option.splits)
  have w1: "ws_ok lib hs w1" "user_of w1 s \<noteq> None" "opened w1 s = Some False"
    using assms(3,6) au [OF ok] au [OF handle_disconnect_keeps(1) [OF ok, of s]] handle_disconnect_keeps
    by (auto simp: opened_disconnect)
  let ?r = "handle_subscribe later (hs s) s room w1"
  obtain u where u: "user_of w1 s = Some u" using w1(2) by blast
  have r: "ws_ok lib hs ?r" "opened ?r s = Some False" "s \<in> set (ws_connections ?r)"
    using ws_ok_subscribe [OF w1(1,2)] w1(3) subscribe_connections [OF w1(1) u] by simp_all
  have e: "ws_ok lib hs w'" "opened w' s = Some False" "s \<in> set (ws_connections w')"
    using registered_events [OF assms(7,1) r] by simp_all
  then have ag: "tables_agree w'" by (simp add: ws_ok_def)
  then obtain v where v: "user_of w' s = Some v" using tables_agreeD(1) e(3) by blast
  then have "s \<in> set (sockets_of_user v w')" using e(3) by (simp add: tables_agreeD(2) [OF ag])
  moreover have "get_connection s w' \<noteq> None" using e by (simp add: get_connection_None)
  ultimately show ?thesis using e v by (intro exI [of _ v]) (auto simp: ws_ok_def get_user_connections_def is_user_connected_def)
qed

theorem closed_socket_stays_witness:
  "\<exists>u. token_names demo_ws_lib (demo_handshake ''a1'') u \<and>
     is_user_connected u (handle_subscribe 2000 (demo_handshake ''a1'') ''a1'' ''news''
       (snd (authenticate demo_ws_lib 1000 (demo_handshake ''a1'') ''a1'' (handle_disconnect ''a1'' (handle_connection ''a1'' (ws_start 0))))))"
proof -
  let ?w = "handle_connection ''a1'' (ws_start 0)"
  have "ws_event demo_ws_lib demo_handshake (ws_start 0) ?w" by (rule ws_event.connect) (simp add: ws_start_def)
  then have r: "(ws_step demo_ws_lib demo_handshake)\<^sup>*\<^sup>* (ws_start 0) ?w" by (meson ws_step.event r_into_rtranclp)
  have "opened ?w ''a1'' = Some True" "get_connection ''a1'' ?w = None" "fst (authenticate demo_ws_lib 1000 (demo_handshake ''a1'') ''a1'' ?w)"
    by code_simp+
  from closed_socket_stays [OF demo_ws_one r this insertI1 rtranclp.rtrancl_refl] show ?thesis by blast
qed

text \<open>A cleanup removes exactly the registered sockets that have not been active for the timeout, counts
  them, and leaves the maps in agreement.\<close>

theorem cleanup_removes_inactive:
  assumes "one_holder lib" "(ws_step lib hs)\<^sup>*\<^sup>* (ws_start t) w" "cleanup_inactive_connections now timeout w = (n, w')"
  shows "ws_connections w' = filter (\<lambda>s. \<not> is_inactive now timeout w s) (ws_connections w) \<and>
    n = length (filter (is_inactive now timeout w) (ws_connections w)) \<and> tables_agree w'"
proof -
  have ok: "ws_ok lib hs w" using assms(2,1) by (rule ws_ok_reach)
  then have "distinct (ws_connections w)" by (simp add: ws_ok_def tables_agree_def)
  from cleanup_exact [OF ok this, of now timeout 0] have
    "ws_connections w' = filter (\<lambda>s. \<not> (s \<in> set (ws_connections w) \<and> is_inactive now timeout w s)) (ws_connections w)"
    "n = length (filter (is_inactive now timeout w) (ws_connections w))"
    using assms(3) by (simp_all add: cleanup_inactive_connections_def)
  moreover have "tables_agree w'"
    using ws_ok_cleanup [OF ok, of now timeout "ws_connections w" 0] assms(3) by (simp add: ws_ok_def cleanup_inactive_connections_def)
  ultimately show ?thesis by (simp cong: filter_cong)
qed

theorem cleanup_removes_inactive_witness:
  "tables_agree (snd (cleanup_inactive_connections 302000 300000 (demo_join 3000 ''b1'' (demo_join 1000 ''a1'' (ws_start 0))))) \<and>
   fst (cleanup_inactive_connections 302000 300000 (demo_join 3000 ''b1'' (demo_join 1000 ''a1'' (ws_start 0)))) = 1"
proof -
  let ?w1 = "demo_join 1000 ''a1'' (ws_start 0)"
  let ?w2 = "demo_join 3000 ''b1'' ?w1"
  have "(ws_step demo_ws_lib demo_handshake)\<^sup>*\<^sup>* (ws_start 0) ?w1" by (rule demo_join_reach; code_simp)
  moreover have "(ws_step demo_ws_lib demo_handshake)\<^sup>*\<^sup>* ?w1 ?w2" by (rule demo_join_reach; code_simp)
  ultimately have "(ws_step demo_ws_lib demo_handshake)\<^sup>*\<^sup>* (ws_start 0) ?w2" by (meson rtranclp_trans)
  moreover have "fst (cleanup_inactive_connections 302000 300000 ?w2) = 1" by code_simp
  ultimately show ?thesis
    using cleanup_removes_inactive [OF demo_ws_one, of demo_handshake 0 ?w2 302000 300000] by (cases "cleanup_inactive_connections 302000 300000 ?w2") auto
qed

end
