(* ===== verification/Products.thy ===== *)
theory Products
  imports Cache_Coherence Cart_Cache
begin

section \<open>The product catalogue\<close>

text \<open>
  \<open>modules/products/products.service.ts\<close>. The decorators \<open>@Cacheable\<close> and \<open>@CacheEvict\<close> set metadata for an
  interceptor, which Nest applies to the handlers of controllers only, so on the methods of this service they do
  nothing and are left out. What the database makes of the query is a parameter \<open>catalog_db\<close>: the ascending
  order of a column (\<open>None\<close> if there is none of that name) and the filter
  \<open>path: [], array_contains\<close> on the column \<open>categories\<close> (\<open>None\<close> where Prisma refuses it, as it documents for a
  list column). Answers are JSON with dates as milliseconds and decimals as numbers. \<open>cw_indexed\<close> lists the
  products handed to the search index, whose failure is only logged. A \<open>null\<close> for a
  column that is not nullable and prices of ten or more digits, which the database refuses, are not modelled.
\<close>

record catalog_row =
  cg_id :: string
  cg_name :: string
  cg_description :: "string option"
  cg_slug :: string
  cg_sku :: "string option"
  cg_price :: rat
  cg_stock :: int
  cg_minStock :: int
  cg_weight :: "rat option"
  cg_images :: "string list"
  cg_categories :: "string list"
  cg_isActive :: bool
  cg_isFeatured :: bool
  cg_createdAt :: ms
  cg_updatedAt :: ms

record catalog_db =
  pd_order :: "string \<Rightarrow> (catalog_row \<Rightarrow> catalog_row \<Rightarrow> bool) option"
  pd_category :: "(string \<Rightarrow> catalog_row \<Rightarrow> bool) option"

record 's catalog_world =
  cw_products :: "catalog_row list"
  cw_cache :: "'s cache_service"
  cw_indexed :: "string list"

definition catalog_json :: "catalog_row \<Rightarrow> json" where
  "catalog_json r = JObj
     [(''id'', j_str (cg_id r)), (''name'', j_str (cg_name r)), (''description'', j_opt j_str (cg_description r)),
      (''slug'', j_str (cg_slug r)), (''sku'', j_opt j_str (cg_sku r)), (''price'', JNum (cg_price r)),
      (''stock'', j_int (cg_stock r)), (''minStock'', j_int (cg_minStock r)), (''weight'', j_opt JNum (cg_weight r)),
      (''images'', JArr (map j_str (cg_images r))), (''categories'', JArr (map j_str (cg_categories r))),
      (''isActive'', JBool (cg_isActive r)), (''isFeatured'', JBool (cg_isFeatured r)),
      (''createdAt'', j_int (cg_createdAt r)), (''updatedAt'', j_int (cg_updatedAt r))]"

definition PRODUCT_TTL :: int where "PRODUCT_TTL = 600"

definition SEARCH_TTL :: int where "SEARCH_TTL = 300"

subsection \<open>Lists\<close>

record product_query =
  pq_page :: "int option"
  pq_limit :: "int option"
  pq_search :: "string option"
  pq_categoryId :: "string option"
  pq_category :: "string option"
  pq_status :: "string option"
  pq_sortBy :: "string option"
  pq_asc :: "bool option"
  pq_isFeatured :: "bool option"
  pq_minPrice :: "rat option"
  pq_maxPrice :: "rat option"

text \<open>\<open>page\<close> with the rows in their order.\<close>

definition product_page :: "product_query \<Rightarrow> catalog_row list \<Rightarrow> json" where
  "product_page q rows =
     (let page = or_old (pq_page q) 1; lmt = or_old (pq_limit q) 10; n = int (length rows)
      in JObj [(''data'', JArr (map catalog_json (page_rows page lmt rows))),
               (''meta'', JObj [(''total'', j_int n), (''page'', j_int page), (''limit'', j_int lmt),
                  (''totalPages'', j_int (total_pages n lmt))])])"

definition text_matches :: "string \<Rightarrow> catalog_row \<Rightarrow> bool" where
  "text_matches t r \<longleftrightarrow> contains_insensitive (cg_name r) t \<or> opt_contains (cg_description r) t \<or> opt_contains (cg_sku r) t"

text \<open>The filter by name overwrites the filter by id.\<close>

definition category_wanted :: "product_query \<Rightarrow> string option" where
  "category_wanted q = (if truthy_str (pq_category q) then pq_category q else if truthy_str (pq_categoryId q) then pq_categoryId q else None)"

definition product_matches :: "product_query \<Rightarrow> catalog_row \<Rightarrow> bool" where
  "product_matches q r \<longleftrightarrow>
     (truthy_str (pq_search q) \<longrightarrow> text_matches (the (pq_search q)) r) \<and>
     (truthy_str (pq_status q) \<longrightarrow> cg_isActive r = (pq_status q = Some ''ACTIVE'')) \<and>
     (case pq_isFeatured q of None \<Rightarrow> True | Some b \<Rightarrow> cg_isFeatured r = b) \<and>
     (case pq_minPrice q of None \<Rightarrow> True | Some p \<Rightarrow> p \<le> cg_price r) \<and>
     (case pq_maxPrice q of None \<Rightarrow> True | Some p \<Rightarrow> cg_price r \<le> p)"

definition category_filter :: "catalog_db \<Rightarrow> string option \<Rightarrow> (catalog_row \<Rightarrow> bool) res" where
  "category_filter db c =
     (case c of None \<Rightarrow> Inr (\<lambda>r. True)
      | Some t \<Rightarrow> (case pd_category db of None \<Rightarrow> Inl (InternalError ''Unknown argument path'') | Some f \<Rightarrow> Inr (f t)))"

definition newest_first :: "catalog_row list \<Rightarrow> catalog_row list" where
  "newest_first = sort_by (\<lambda>x y. cg_createdAt y \<le> cg_createdAt x)"

definition list_products :: "catalog_db \<Rightarrow> product_query \<Rightarrow> catalog_row list \<Rightarrow> json res" where
  "list_products db q ps =
     (case (category_filter db (category_wanted q), pd_order db (or_old (pq_sortBy q) ''createdAt'')) of
        (Inl e, _) \<Rightarrow> Inl e
      | (_, None) \<Rightarrow> Inl (InternalError ''Unknown argument in orderBy'')
      | (Inr f, Some le) \<Rightarrow>
          Inr (product_page q (sort_by (if or_old (pq_asc q) False then le else (\<lambda>x y. le y x))
            (filter (\<lambda>r. product_matches q r \<and> f r) ps))))"

text \<open>What \<open>cacheService\<close> does around the computation of an answer: an error is not cached.\<close>

definition cached_list ::
  "ms \<Rightarrow> string \<Rightarrow> int \<Rightarrow> string list \<Rightarrow> (catalog_row list \<Rightarrow> json res) \<Rightarrow> 's catalog_world \<Rightarrow> json res \<times> 's catalog_world" where
  "cached_list now key life tags compute w =
     (let (cached, ch) = cache_get now key None (cw_cache w);
          w1 = w\<lparr>cw_cache := ch\<rparr>
      in if json_truthy cached then (Inr cached, w1)
         else (case compute (cw_products w) of
                 Inl e \<Rightarrow> (Inl e, w1)
               | Inr j \<Rightarrow> (Inr j, w1\<lparr>cw_cache := snd (cache_set now key j (Some life) tags ch)\<rparr>)))"

text \<open>\<open>qt\<close> is the text \<open>JSON.stringify\<close> gives of a query.\<close>

definition products_key :: "(product_query \<Rightarrow> string) \<Rightarrow> product_query \<Rightarrow> string" where
  "products_key qt q = ''products:list:'' @ qt q"

definition find_all_products ::
  "catalog_db \<Rightarrow> (product_query \<Rightarrow> string) \<Rightarrow> ms \<Rightarrow> product_query \<Rightarrow> 's catalog_world \<Rightarrow> json res \<times> 's catalog_world" where
  "find_all_products db qt now q =
     cached_list now (products_key qt q) PRODUCT_TTL [''products'', ''products:list''] (list_products db q)"

definition category_products :: "catalog_db \<Rightarrow> string \<Rightarrow> product_query \<Rightarrow> catalog_row list \<Rightarrow> json res" where
  "category_products db cid q ps =
     map_sum id (\<lambda>f. product_page q (newest_first (filter (\<lambda>r. f r \<and> cg_isActive r) ps))) (category_filter db (Some cid))"

definition get_by_category ::
  "catalog_db \<Rightarrow> (product_query \<Rightarrow> string) \<Rightarrow> ms \<Rightarrow> string \<Rightarrow> product_query \<Rightarrow> 's catalog_world \<Rightarrow> json res \<times> 's catalog_world" where
  "get_by_category db qt now cid q =
     cached_list now (''products:list:category:'' @ cid @ '':'' @ qt q) PRODUCT_TTL
       [''products'', ''products:category'', ''category:'' @ cid] (category_products db cid q)"

definition search_results :: "string \<Rightarrow> product_query \<Rightarrow> catalog_row list \<Rightarrow> json res" where
  "search_results t q ps = Inr (product_page q (newest_first (filter (\<lambda>r. text_matches t r \<and> cg_isActive r) ps)))"

definition search_products ::
  "(product_query \<Rightarrow> string) \<Rightarrow> ms \<Rightarrow> string \<Rightarrow> product_query \<Rightarrow> 's catalog_world \<Rightarrow> json res \<times> 's catalog_world" where
  "search_products qt now t q =
     cached_list now (''products:search:'' @ t @ '':'' @ qt q) SEARCH_TTL [''products'', ''products:search''] (search_results t q)"

definition get_featured :: "'s catalog_world \<Rightarrow> catalog_row list" where
  "get_featured w = take 10 (newest_first (filter (\<lambda>r. cg_isFeatured r \<and> cg_isActive r) (cw_products w)))"

definition get_best_sellers :: "'s catalog_world \<Rightarrow> catalog_row list" where
  "get_best_sellers w = take 10 (newest_first (filter cg_isActive (cw_products w)))"

definition get_low_stock :: "'s catalog_world \<Rightarrow> catalog_row list" where
  "get_low_stock w = sort_by (\<lambda>x y. cg_stock x \<le> cg_stock y) (filter (\<lambda>r. cg_stock r \<le> cg_minStock r \<and> cg_isActive r) (cw_products w))"

subsection \<open>One product\<close>

definition find_one_product :: "string \<Rightarrow> 's catalog_world \<Rightarrow> catalog_row res" where
  "find_one_product i w = (case find_by cg_id i (cw_products w) of None \<Rightarrow> Inl (NotFound ''Product not found'') | Some r \<Rightarrow> Inr r)"

record stock_info =
  si_productId :: string
  si_sku :: "string option"
  si_stock :: int
  si_minStock :: int
  si_isLowStock :: bool

definition get_stock :: "string \<Rightarrow> 's catalog_world \<Rightarrow> stock_info res" where
  "get_stock i w = map_sum id (\<lambda>r. \<lparr>si_productId = cg_id r, si_sku = cg_sku r, si_stock = cg_stock r,
     si_minStock = cg_minStock r, si_isLowStock = (cg_stock r \<le> cg_minStock r)\<rparr>) (find_one_product i w)"

definition get_related :: "catalog_db \<Rightarrow> string \<Rightarrow> 's catalog_world \<Rightarrow> catalog_row list res" where
  "get_related db i w =
     (case find_one_product i w of
        Inl e \<Rightarrow> Inl e
      | Inr r \<Rightarrow>
          if cg_categories r = [] then Inr []
          else map_sum id (\<lambda>f. take 5 (filter (\<lambda>x. cg_id x \<noteq> i \<and> f x \<and> cg_isActive x) (cw_products w)))
            (category_filter db (Some (hd (cg_categories r)))))"

text \<open>Reviews are a placeholder: the answer has none.\<close>

definition get_reviews :: "string \<Rightarrow> 's catalog_world \<Rightarrow> json res" where
  "get_reviews i w = map_sum id (\<lambda>r. JObj [(''reviews'', JArr []), (''averageRating'', j_int 0), (''totalReviews'', j_int 0)])
     (find_one_product i w)"

subsection \<open>Slugs\<close>

text \<open>\<open>toLowerCase().replace(/[^a-z0-9]+/g, '-').replace(/^-+|-+$/g, '')\<close>. Only ASCII letters are put in lower case:
  of the others two, the Kelvin sign and the dotted capital I, give an ASCII letter in JavaScript.\<close>

definition slug_char :: "char \<Rightarrow> bool" where
  "slug_char c = (let n = (of_char c :: nat) in 97 \<le> n \<and> n \<le> 122 \<or> 48 \<le> n \<and> n \<le> 57)"

fun replace_runs :: "bool \<Rightarrow> string \<Rightarrow> string" where
  "replace_runs b [] = []"
| "replace_runs b (c # s) =
     (if slug_char c then c # replace_runs False s
      else if b then replace_runs True s else CHR ''-'' # replace_runs True s)"

definition trim_dashes :: "string \<Rightarrow> string" where
  "trim_dashes s = rev (dropWhile ((=) CHR ''-'') (rev (dropWhile ((=) CHR ''-'') s)))"

definition generate_slug :: "string \<Rightarrow> string" where
  "generate_slug name = trim_dashes (replace_runs False (to_lower name))"

subsection \<open>Writing\<close>

text \<open>The body of a request after validation: \<open>np_unknown\<close> says that it has \<open>unit\<close>, \<open>categoryId\<close>, \<open>status\<close> or
  \<open>metadata\<close>, which are fields of the DTO but no columns.\<close>

record product_dto =
  np_name :: string
  np_description :: string
  np_price :: rat
  np_stock :: "rat option"
  np_slug :: "string option"
  np_sku :: "string option"
  np_weight :: "rat option"
  np_images :: "string list option"
  np_isFeatured :: "bool option"
  np_unknown :: bool

text \<open>What \<open>@Min(0)\<close> checks.\<close>

definition product_dto_ok :: "product_dto \<Rightarrow> bool" where
  "product_dto_ok dto \<longleftrightarrow> 0 \<le> np_price dto \<and> 0 \<le> or_old (np_stock dto) 0 \<and> 0 \<le> or_old (np_weight dto) 0"

definition is_int :: "rat \<Rightarrow> bool" where
  "is_int x \<longleftrightarrow> of_int \<lfloor>x\<rfloor> = x"

definition bad_stock :: "rat option \<Rightarrow> bool" where
  "bad_stock x = (case x of None \<Rightarrow> False | Some n \<Rightarrow> \<not> is_int n)"

definition sku_taken :: "string option \<Rightarrow> catalog_row list \<Rightarrow> bool" where
  "sku_taken s ps \<longleftrightarrow> s \<noteq> None \<and> find_by cg_sku s ps \<noteq> None"

text \<open>The insertion as the database does it: unknown columns, a stock that is no integer and a second
  slug or SKU are refused.\<close>

definition insert_product :: "bool \<Rightarrow> rat option \<Rightarrow> catalog_row \<Rightarrow> 's catalog_world \<Rightarrow> catalog_row res \<times> 's catalog_world" where
  "insert_product unknown stock r w =
     (if unknown then (Inl (InternalError ''Unknown argument''), w)
      else if bad_stock stock then (Inl (InternalError ''Invalid value for stock''), w)
      else if find_by cg_slug (cg_slug r) (cw_products w) \<noteq> None \<or> sku_taken (cg_sku r) (cw_products w)
      then (Inl (InternalError ''Unique constraint failed''), w)
      else (Inr r, w\<lparr>cw_products := cw_products w @ [r]\<rparr>))"

definition index_product :: "string \<Rightarrow> 's catalog_world \<Rightarrow> 's catalog_world" where
  "index_product i w = w\<lparr>cw_indexed := cw_indexed w @ [i]\<rparr>"

definition slug_conflict :: http_error where "slug_conflict = Conflict ''Product slug already exists''"

definition sku_conflict :: http_error where "sku_conflict = Conflict ''Product SKU already exists''"

definition create_product :: "ms \<Rightarrow> string \<Rightarrow> product_dto \<Rightarrow> 's catalog_world \<Rightarrow> catalog_row res \<times> 's catalog_world" where
  "create_product now newId dto w =
     (let slug = str_or (np_slug dto) (generate_slug (np_name dto))
      in if find_by cg_slug slug (cw_products w) \<noteq> None then (Inl slug_conflict, w)
         else if truthy_str (np_sku dto) \<and> sku_taken (np_sku dto) (cw_products w) then (Inl sku_conflict, w)
         else and_then (insert_product (np_unknown dto) (np_stock dto)
             \<lparr>cg_id = newId, cg_name = np_name dto, cg_description = Some (np_description dto), cg_slug = slug, cg_sku = np_sku dto,
              cg_price = db_decimal (np_price dto), cg_stock = \<lfloor>or_old (np_stock dto) 0\<rfloor>, cg_minStock = 0,
              cg_weight = np_weight dto, cg_images = or_old (np_images dto) [], cg_categories = [], cg_isActive = True,
              cg_isFeatured = or_old (np_isFeatured dto) False, cg_createdAt = now, cg_updatedAt = now\<rparr> w)
           (\<lambda>r w. (Inr r, index_product (cg_id r) w)))"

record product_patch =
  up_name :: "string option"
  up_description :: "string option"
  up_price :: "rat option"
  up_stock :: "rat option"
  up_slug :: "string option"
  up_sku :: "string option"
  up_weight :: "rat option"
  up_images :: "string list option"
  up_isFeatured :: "bool option"
  up_unknown :: bool

definition product_patch_ok :: "product_patch \<Rightarrow> bool" where
  "product_patch_ok p \<longleftrightarrow> 0 \<le> or_old (up_price p) 0 \<and> 0 \<le> or_old (up_stock p) 0 \<and> 0 \<le> or_old (up_weight p) 0"

definition apply_product_patch :: "ms \<Rightarrow> product_patch \<Rightarrow> catalog_row \<Rightarrow> catalog_row" where
  "apply_product_patch now p r =
     r\<lparr>cg_name := or_old (up_name p) (cg_name r),
       cg_description := (case up_description p of None \<Rightarrow> cg_description r | Some s \<Rightarrow> Some s),
       cg_slug := or_old (up_slug p) (cg_slug r), cg_sku := (case up_sku p of None \<Rightarrow> cg_sku r | Some s \<Rightarrow> Some s),
       cg_price := (case up_price p of None \<Rightarrow> cg_price r | Some x \<Rightarrow> db_decimal x),
       cg_stock := (case up_stock p of None \<Rightarrow> cg_stock r | Some x \<Rightarrow> \<lfloor>x\<rfloor>),
       cg_weight := (case up_weight p of None \<Rightarrow> cg_weight r | Some x \<Rightarrow> Some x),
       cg_images := or_old (up_images p) (cg_images r), cg_isFeatured := or_old (up_isFeatured p) (cg_isFeatured r),
       cg_updatedAt := now\<rparr>"

text \<open>Prisma's \<open>update\<close> by id. A slug or SKU another row has is refused by the unique index.\<close>

definition other_row :: "string \<Rightarrow> catalog_row list \<Rightarrow> catalog_row list" where
  "other_row i ps = filter (\<lambda>r. cg_id r \<noteq> i) ps"

definition db_update_product ::
  "string \<Rightarrow> bool \<Rightarrow> rat option \<Rightarrow> (catalog_row \<Rightarrow> catalog_row) \<Rightarrow> 's catalog_world \<Rightarrow> catalog_row res \<times> 's catalog_world" where
  "db_update_product i unknown stock f w =
     (if unknown then (Inl (InternalError ''Unknown argument''), w)
      else if bad_stock stock then (Inl (InternalError ''Invalid value for stock''), w)
      else case find_by cg_id i (cw_products w) of
        None \<Rightarrow> (Inl (InternalError ''No record was found for an update''), w)
      | Some r \<Rightarrow>
          if find_by cg_slug (cg_slug (f r)) (other_row i (cw_products w)) \<noteq> None \<or> sku_taken (cg_sku (f r)) (other_row i (cw_products w))
          then (Inl (InternalError ''Unique constraint failed''), w)
          else (Inr (f r), w\<lparr>cw_products := update_by cg_id i f (cw_products w)\<rparr>))"

definition product_tags :: "string \<Rightarrow> string list" where
  "product_tags i = [''products'', ''products:list'', ''products:search'', ''product:'' @ i]"

definition evict_products :: "ms \<Rightarrow> string list \<Rightarrow> 's catalog_world \<Rightarrow> 's catalog_world" where
  "evict_products now tags w = w\<lparr>cw_cache := snd (invalidate_by_tags now tags (cw_cache w))\<rparr>"

definition update_product :: "ms \<Rightarrow> string \<Rightarrow> product_patch \<Rightarrow> 's catalog_world \<Rightarrow> catalog_row res \<times> 's catalog_world" where
  "update_product now i p w =
     (case find_one_product i w of
        Inl e \<Rightarrow> (Inl e, w)
      | Inr r \<Rightarrow>
          if truthy_str (up_slug p) \<and> up_slug p \<noteq> Some (cg_slug r) \<and> find_by cg_slug (the (up_slug p)) (cw_products w) \<noteq> None
          then (Inl slug_conflict, w)
          else if truthy_str (up_sku p) \<and> up_sku p \<noteq> cg_sku r \<and> sku_taken (up_sku p) (cw_products w)
          then (Inl sku_conflict, w)
          else and_then (db_update_product i (up_unknown p) (up_stock p) (apply_product_patch now p) w)
            (\<lambda>r w. (Inr r, index_product i (evict_products now (product_tags i) w))))"

text \<open>An update of one column after \<open>findOne\<close> has found the product.\<close>

definition change_product ::
  "string \<Rightarrow> rat option \<Rightarrow> (catalog_row \<Rightarrow> catalog_row) \<Rightarrow> 's catalog_world \<Rightarrow> catalog_row res \<times> 's catalog_world" where
  "change_product i stock f w =
     (case find_one_product i w of Inl e \<Rightarrow> (Inl e, w) | Inr r \<Rightarrow> db_update_product i False stock f w)"

definition remove_product :: "ms \<Rightarrow> string \<Rightarrow> 's catalog_world \<Rightarrow> catalog_row res \<times> 's catalog_world" where
  "remove_product now i w =
     and_then (change_product i None (\<lambda>r. r\<lparr>cg_isActive := False, cg_updatedAt := now\<rparr>) w) (\<lambda>r w.
       (Inr r, index_product i (evict_products now (product_tags i) w)))"

definition toggle_product :: "ms \<Rightarrow> string \<Rightarrow> 's catalog_world \<Rightarrow> catalog_row res \<times> 's catalog_world" where
  "toggle_product now i w =
     and_then (change_product i None (\<lambda>r. r\<lparr>cg_isActive := \<not> cg_isActive r, cg_updatedAt := now\<rparr>) w) (\<lambda>r w.
       (Inr r, evict_products now (product_tags i) w))"

definition update_stock :: "ms \<Rightarrow> string \<Rightarrow> rat \<Rightarrow> 's catalog_world \<Rightarrow> catalog_row res \<times> 's catalog_world" where
  "update_stock now i n = change_product i (Some n) (\<lambda>r. r\<lparr>cg_stock := \<lfloor>n\<rfloor>, cg_updatedAt := now\<rparr>)"

definition update_price :: "ms \<Rightarrow> string \<Rightarrow> rat \<Rightarrow> 's catalog_world \<Rightarrow> catalog_row res \<times> 's catalog_world" where
  "update_price now i x = change_product i None (\<lambda>r. r\<lparr>cg_price := db_decimal x, cg_updatedAt := now\<rparr>)"

end
