(* ===== verification/Product_Facts.thy ===== *)
theory Product_Facts
  imports Products "HOL-Library.Countable"
begin

section \<open>What holds of the catalogue\<close>

text \<open>
  How old a listed product may be, over every sequence of requests; the uniqueness the writers keep;
  and the shape of a slug.
\<close>

datatype prd_op =
    ListProducts product_query
  | CategoryProducts string product_query
  | SearchProducts string product_query
  | CreateProduct string product_dto
  | UpdateProduct string product_patch
  | RemoveProduct string
  | ToggleProduct string
  | UpdateStock string rat
  | UpdatePrice string rat

fun prd_step :: "catalog_db \<Rightarrow> (product_query \<Rightarrow> string) \<Rightarrow> ms \<Rightarrow> prd_op \<Rightarrow> 's catalog_world \<Rightarrow> 's catalog_world" where
  "prd_step db qt now (ListProducts q) w = snd (find_all_products db qt now q w)"
| "prd_step db qt now (CategoryProducts i q) w = snd (get_by_category db qt now i q w)"
| "prd_step db qt now (SearchProducts t q) w = snd (search_products qt now t q w)"
| "prd_step db qt now (CreateProduct i dto) w = snd (create_product now i dto w)"
| "prd_step db qt now (UpdateProduct i p) w = snd (update_product now i p w)"
| "prd_step db qt now (RemoveProduct i) w = snd (remove_product now i w)"
| "prd_step db qt now (ToggleProduct i) w = snd (toggle_product now i w)"
| "prd_step db qt now (UpdateStock i n) w = snd (update_stock now i n w)"
| "prd_step db qt now (UpdatePrice i x) w = snd (update_price now i x w)"

text \<open>Whether a request succeeds in an update that invalidates the lists.\<close>

fun evicts :: "ms \<Rightarrow> prd_op \<Rightarrow> 's catalog_world \<Rightarrow> bool" where
  "evicts now (UpdateProduct i p) w = (\<exists>r. fst (update_product now i p w) = Inr r)"
| "evicts now (RemoveProduct i) w = (\<exists>r. fst (remove_product now i w) = Inr r)"
| "evicts now (ToggleProduct i) w = (\<exists>r. fst (toggle_product now i w) = Inr r)"
| "evicts now _ w = False"

text \<open>A run with the tables it went through since the last such update, each with its time.\<close>

fun prd_run :: "catalog_db \<Rightarrow> (product_query \<Rightarrow> string) \<Rightarrow> ms \<Rightarrow> (ms \<times> prd_op) list \<Rightarrow> (ms \<times> catalog_row list) list \<Rightarrow> 's catalog_world \<Rightarrow>
    ms \<times> (ms \<times> catalog_row list) list \<times> 's catalog_world" where
  "prd_run db qt now [] H w = (now, H, w)"
| "prd_run db qt now ((t, a) # as) H w =
     (let u = max now t; w' = prd_step db qt u a w
      in prd_run db qt u as ((u, cw_products w') # (if evicts u a w then [] else H)) w')"

lemma evict_products_simps [simp]:
  "cw_products (evict_products now tags w) = cw_products w" "cw_cache (index_product i w) = cw_cache w"
  "cw_products (index_product i w) = cw_products w"
  by (simp_all add: evict_products_def index_product_def)

lemma cached_list_products [simp]: "cw_products (snd (cached_list now key life tags f w)) = cw_products w"
  by (auto simp: cached_list_def Let_def split: prod.split sum.split)

declare snd_and_then_Inr [simp]

subsection \<open>The lists in the cache\<close>

lemma change_product_cache:
  "redis (cw_cache (snd (db_update_product i b st f w))) = redis (cw_cache w)"
  "redis (cw_cache (snd (change_product i st f w))) = redis (cw_cache w)"
proof -
  show 1: "redis (cw_cache (snd (db_update_product i b st f w))) = redis (cw_cache w)" for b
    by (simp add: db_update_product_def split: option.split)
  then show "redis (cw_cache (snd (change_product i st f w))) = redis (cw_cache w)"
    by (simp add: change_product_def split: sum.split)
qed

text \<open>What \<open>JSON.stringify\<close> documents of the texts of queries: an object, from which the query can be read again.\<close>

definition query_texts :: "(product_query \<Rightarrow> string) \<Rightarrow> bool" where
  "query_texts qt \<longleftrightarrow> inj qt \<and> (\<forall>q. \<exists>s. qt q = CHR 0x7B # s)"

definition is_list_key :: "(product_query \<Rightarrow> string) \<Rightarrow> string \<Rightarrow> bool" where
  "is_list_key qt key \<longleftrightarrow> (\<exists>q. key = products_key qt q)"

text \<open>A list that was right for a table of the last ten minutes.\<close>

definition recent_list ::
  "catalog_db \<Rightarrow> (product_query \<Rightarrow> string) \<Rightarrow> (ms \<times> catalog_row list) list \<Rightarrow> string \<Rightarrow> ms \<Rightarrow> json \<Rightarrow> bool" where
  "recent_list db qt H key u v \<longleftrightarrow>
     (\<exists>q s ps. key = products_key qt q \<and> (s, ps) \<in> set H \<and> list_products db q ps = Inr v \<and> u < s + 1000 * PRODUCT_TTL)"

lemma recent_list_more: "recent_list db qt H key u v \<Longrightarrow> recent_list db qt (h # H) key u v"
  by (auto simp: recent_list_def)

lemma list_products_truthy: "list_products db q ps = Inr v \<Longrightarrow> json_truthy v"
  by (auto simp: list_products_def product_page_def Let_def split: sum.splits option.splits)

lemma other_keys:
  assumes "query_texts qt"
  shows "\<not> is_list_key qt (''products:list:category:'' @ x)" "\<not> is_list_key qt (''products:search:'' @ x)"
proof -
  have "products_key qt q \<noteq> ''products:list:category:'' @ x" for q
  proof -
    obtain s where "qt q = CHR 0x7B # s" using assms unfolding query_texts_def by blast
    then show ?thesis by (simp add: products_key_def)
  qed
  then show "\<not> is_list_key qt (''products:list:category:'' @ x)" unfolding is_list_key_def by metis
  show "\<not> is_list_key qt (''products:search:'' @ x)" by (simp add: is_list_key_def products_key_def)
qed

context redis_server
begin

definition lists_recent :: "catalog_db \<Rightarrow> (product_query \<Rightarrow> string) \<Rightarrow> (ms \<times> catalog_row list) list \<Rightarrow> ms \<Rightarrow> 's catalog_world \<Rightarrow> bool" where
  "lists_recent db qt H now w = timed_cache (is_list_key qt) (recent_list db qt H) (\<lambda>key. {''products:list''}) (\<lambda>key. PRODUCT_TTL) now
     (redis (cw_cache w))"

lemma lists_recent_cong: "redis (cw_cache w') = redis (cw_cache w) \<Longrightarrow> lists_recent db qt H now w' = lists_recent db qt H now w"
  by (simp add: lists_recent_def)

lemma lists_recent_more: "lists_recent db qt H now w \<Longrightarrow> lists_recent db qt (h # H) now w"
  unfolding lists_recent_def by (erule timed_cache_mono) (rule recent_list_more)

lemma lists_recent_evict:
  assumes "lists_recent db qt H now w" "''products:list'' \<in> set tags"
  shows "lists_recent db qt H' now (evict_products now tags w)"
  using timed_cache_evict [OF assms(1) [unfolded lists_recent_def], of tags "recent_list db qt H'"] assms(2)
  by (simp add: lists_recent_def evict_products_def)

text \<open>A list is stored under a key of its own or one no list of products has.\<close>

lemma lists_recent_other:
  assumes "lists_recent db qt H now w" "\<not> is_list_key qt key" "''products:list'' \<notin> set tags" "0 < life"
  shows "lists_recent db qt H now (snd (cached_list now key life tags f w))"
proof -
  obtain v ch where g: "cache_get now key None (cw_cache w) = (v, ch)" by fastforce
  have ch: "redis ch = redis (cw_cache w)" by (rule timed_cache_get(1) [OF assms(1) [unfolded lists_recent_def] g])
  have c1: "lists_recent db qt H now (w\<lparr>cw_cache := ch\<rparr>)" using assms(1) by (simp add: lists_recent_def ch)
  have "lists_recent db qt H now (w\<lparr>cw_cache := snd (cache_set now key j (Some life) tags ch)\<rparr>)" for j
    using timed_cache_set [OF assms(1) [unfolded lists_recent_def, folded ch] assms(4), of key j tags] assms(2,3)
    by (auto simp: lists_recent_def)
  then show ?thesis using c1 by (auto simp: cached_list_def Let_def g split: sum.split)
qed

lemma find_all_recent:
  assumes c: "lists_recent db qt H now w" and qt: "query_texts qt"
  shows "lists_recent db qt ((now, cw_products w) # H) now (snd (find_all_products db qt now q w))" (is ?A)
    "\<exists>s ps. (s, ps) \<in> set ((now, cw_products w) # H) \<and> fst (find_all_products db qt now q w) = list_products db q ps \<and> now < s + 1000 * PRODUCT_TTL" (is ?B)
proof -
  let ?key = "products_key qt q"
  obtain v ch where g: "cache_get now ?key None (cw_cache w) = (v, ch)" by fastforce
  have k: "is_list_key qt ?key" by (auto simp: is_list_key_def)
  have inj: "products_key qt q = products_key qt q' \<longleftrightarrow> q = q'" for q' using qt by (auto simp: query_texts_def products_key_def inj_eq)
  have ch: "redis ch = redis (cw_cache w)" "v = JNull \<or> recent_list db qt H ?key now v"
    using timed_cache_get [OF c [unfolded lists_recent_def] g] k by auto
  have v: "json_truthy v \<longleftrightarrow> v \<noteq> JNull" using ch(2) by (auto simp: recent_list_def list_products_truthy)
  have c1: "lists_recent db qt ((now, cw_products w) # H) now (w\<lparr>cw_cache := ch\<rparr>)"
    using lists_recent_more [OF c] by (simp add: lists_recent_def ch)
  have "lists_recent db qt ((now, cw_products w) # H) now (w\<lparr>cw_cache := snd (cache_set now ?key j (Some PRODUCT_TTL) [''products'', ''products:list''] ch)\<rparr>)"
    if j: "list_products db q (cw_products w) = Inr j" for j
  proof -
    have "recent_list db qt ((now, cw_products w) # H) ?key u j" if "u < now + 1000 * PRODUCT_TTL" for u
      using j that by (auto simp: recent_list_def)
    then show ?thesis
      using timed_cache_set [OF lists_recent_more [OF c, unfolded lists_recent_def, folded ch(1)], of PRODUCT_TTL ?key "(now, cw_products w)" j]
      by (auto simp: lists_recent_def PRODUCT_TTL_def)
  qed
  then show ?A using c1 by (auto simp: find_all_products_def cached_list_def Let_def g split: sum.split)
  show ?B
  proof (cases "v = JNull")
    case True
    then show ?thesis
      by (intro exI [of _ now] exI [of _ "cw_products w"])
        (auto simp: find_all_products_def cached_list_def Let_def g PRODUCT_TTL_def split: sum.split)
  next
    case False
    then obtain s ps where "(s, ps) \<in> set H" "list_products db q ps = Inr v" "now < s + 1000 * PRODUCT_TTL"
      using ch(2) by (auto simp: recent_list_def inj)
    then show ?thesis using False by (intro exI [of _ s] exI [of _ ps]) (simp add: find_all_products_def cached_list_def Let_def g v)
  qed
qed

lemma lists_recent_start:
  "up (redis (cw_cache w)) \<Longrightarrow> (\<forall>u k. redis_get (redis (cw_cache w)) u (build_key k None) = JNull) \<Longrightarrow>
   (\<forall>u t. redis_get (redis (cw_cache w)) u (build_tag_key t) = JNull) \<Longrightarrow> lists_recent db qt H now w"
  unfolding lists_recent_def by (rule timed_cache_empty)

lemma list_tag [simp]: "''products:list'' \<in> set (product_tags i)"
  by (simp add: product_tags_def)

lemma lists_recent_step:
  assumes c: "lists_recent db qt H now w" and qt: "query_texts qt"
  shows "lists_recent db qt ((now, cw_products (prd_step db qt now a w)) # (if evicts now a w then [] else H)) now (prd_step db qt now a w)"
proof -
  have keep: "lists_recent db qt (h # H) now w'" if "redis (cw_cache w') = redis (cw_cache w)" for h w'
    using lists_recent_more [OF c] lists_recent_cong [OF that] by blast
  have evict: "lists_recent db qt (h # H) now (snd (and_then m (\<lambda>r w. (Inr r, k r (evict_products now (product_tags i) w))))) \<and>
      (\<forall>H'. (\<exists>r. fst (and_then m (\<lambda>r w. (Inr r, k r (evict_products now (product_tags i) w)))) = Inr r) \<longrightarrow>
        lists_recent db qt H' now (snd (and_then m (\<lambda>r w. (Inr r, k r (evict_products now (product_tags i) w))))))"
    if m: "redis (cw_cache (snd m)) = redis (cw_cache w)" and k: "\<And>r w. cw_cache (k r w) = cw_cache w"
    for h m i and k :: "catalog_row \<Rightarrow> 's catalog_world \<Rightarrow> 's catalog_world"
  proof -
    have "lists_recent db qt H now (snd m)" using c lists_recent_cong [OF m] by blast
    then have "lists_recent db qt H' now (evict_products now (product_tags i) (snd m))" for H' by (rule lists_recent_evict) simp
    moreover have "lists_recent db qt H' now (k r w') = lists_recent db qt H' now w'" for H' r w' by (rule lists_recent_cong) (simp add: k)
    ultimately show ?thesis using keep [OF m] by (cases m; cases "fst m") auto
  qed
  show ?thesis
  proof (cases a)
    case (ListProducts q)
    then show ?thesis using find_all_recent(1) [OF c qt, of q] by (simp add: find_all_products_def)
  next
    case (CategoryProducts i q)
    then show ?thesis using lists_recent_more [OF lists_recent_other [OF c other_keys(1) [OF qt]]]
      by (simp add: get_by_category_def PRODUCT_TTL_def)
  next
    case (SearchProducts t q)
    then show ?thesis using lists_recent_more [OF lists_recent_other [OF c other_keys(2) [OF qt]]]
      by (simp add: search_products_def SEARCH_TTL_def)
  next
    case (CreateProduct i dto)
    then show ?thesis by (auto simp: create_product_def insert_product_def Let_def intro!: keep)
  next
    case (UpdateProduct i p)
    show ?thesis
      using evict [OF change_product_cache(1) [of i "up_unknown p" "up_stock p" "apply_product_patch now p" w], of "\<lambda>r. index_product i" _ i] keep [OF refl]
      by (auto simp: UpdateProduct update_product_def split: sum.split)
  next
    case (RemoveProduct i)
    show ?thesis
      using evict [OF change_product_cache(2) [of i None "\<lambda>r. r\<lparr>cg_isActive := False, cg_updatedAt := now\<rparr>" w], of "\<lambda>r. index_product i" _ i]
      by (auto simp: RemoveProduct remove_product_def)
  next
    case (ToggleProduct i)
    show ?thesis
      using evict [OF change_product_cache(2) [of i None "\<lambda>r. r\<lparr>cg_isActive := \<not> cg_isActive r, cg_updatedAt := now\<rparr>" w], of "\<lambda>r w. w" _ i]
      by (auto simp: ToggleProduct toggle_product_def)
  next
    case (UpdateStock i n)
    then show ?thesis by (simp add: update_stock_def keep change_product_cache)
  next
    case (UpdatePrice i x)
    then show ?thesis by (simp add: update_price_def keep change_product_cache)
  qed
qed

lemma listed_until:
  assumes "up (redis (cw_cache w))" "\<forall>u k. redis_get (redis (cw_cache w)) u (build_key k None) = JNull"
    "\<forall>u t. redis_get (redis (cw_cache w)) u (build_tag_key t) = JNull"
    "find_all_products db qt now q w = (Inr j, w1)" "redis (cw_cache w2) = redis (cw_cache w1)" "later < now + 600000"
  shows "list_products db q (cw_products w) = Inr j \<and> fst (find_all_products db qt later q w2) = Inr j"
proof -
  let ?key = "products_key qt q"
  obtain v ch where g: "cache_get now ?key None (cw_cache w) = (v, ch)" by fastforce
  have v: "v = JNull" "redis ch = redis (cw_cache w)"
    using cache_get_up [OF assms(1), of now ?key None] assms(2) by (simp_all add: g)
  have j: "list_products db q (cw_products w) = Inr j"
    and w1: "cw_cache w1 = snd (cache_set now ?key j (Some PRODUCT_TTL) [''products'', ''products:list''] ch)"
    using assms(4) by (auto simp: find_all_products_def cached_list_def Let_def g v split: sum.splits)
  have ok: "tag_ok (redis ch)" "up (redis ch)" using assms(1,3) by (simp_all add: v(2) tag_ok_def)
  obtain ch' where s: "cache_set now ?key j (Some PRODUCT_TTL) [''products'', ''products:list''] ch = (True, ch')" "up (redis ch')"
    "\<And>k u. redis_get (redis ch') u (build_key k None) =
      (if k = ?key then if u < now + 1000 * PRODUCT_TTL then j else JNull else redis_get (redis ch) u (build_key k None))"
    by (rule cache_set_up [OF ok(2) _ ok(1), of PRODUCT_TTL now ?key j "[''products'', ''products:list'']"]) (simp add: PRODUCT_TTL_def, blast)
  have r: "redis (cw_cache w2) = redis ch'" by (simp add: assms(5) w1 s(1))
  have "fst (cache_get later ?key None (cw_cache w2)) = j"
    using cache_get_up [of "cw_cache w2" later ?key None] s(2,3) assms(6) by (simp add: r PRODUCT_TTL_def)
  then show ?thesis using j list_products_truthy [OF j] by (simp add: find_all_products_def cached_list_def Let_def case_prod_beta)
qed

lemma lists_recent_run:
  assumes "lists_recent db qt H now w" "query_texts qt"
  shows "case prd_run db qt now as H w of (t, H', w') \<Rightarrow> now \<le> t \<and> lists_recent db qt H' t w'"
  using assms(1)
proof (induction "as" arbitrary: now H w)
  case (Cons e as)
  obtain t a where e: "e = (t, a)" by fastforce
  have "lists_recent db qt H (max now t) w"
    using Cons.prems unfolding lists_recent_def by (rule timed_cache_later) simp
  from Cons.IH [OF lists_recent_step [OF this assms(2), of a]] show ?case by (auto simp: e Let_def split: prod.splits)
qed simp

end

text \<open>C7. Over every sequence of requests, a list of products is answered as it was for the table at some time of
  the last ten minutes, and not before the last update, removal or change of activity that succeeded.\<close>

theorem product_lists_recent:
  fixes w :: "'s catalog_world"
  assumes "redis_server c view" "redis_server.up c (redis (cw_cache w))"
    and "\<forall>u k. redis_get (redis (cw_cache w)) u (build_key k None) = JNull"
    and "\<forall>u t. redis_get (redis (cw_cache w)) u (build_tag_key t) = JNull"
    and "query_texts qt" "prd_run db qt start as [(start, cw_products w)] w = (now, H, w')"
  shows "\<exists>s ps. (s, ps) \<in> set ((now, cw_products w') # H) \<and> fst (find_all_products db qt now q w') = list_products db q ps \<and>
    now < s + 600000"
proof -
  have "redis_server.lists_recent c db qt [(start, cw_products w)] start w"
    using assms(2-4) by (rule redis_server.lists_recent_start [OF assms(1)])
  from redis_server.lists_recent_run [OF assms(1) this assms(5), of "as"]
  have "redis_server.lists_recent c db qt H now w'" by (simp add: assms(6))
  from redis_server.find_all_recent(2) [OF assms(1) this assms(5), of q] show ?thesis by (simp add: PRODUCT_TTL_def)
qed

text \<open>A new price, a new stock and a new product do not reach a list that was computed before: it is answered
  as it was until ten minutes have passed.\<close>

theorem price_change_unlisted:
  fixes w :: "'s catalog_world"
  assumes "redis_server c view" "redis_server.up c (redis (cw_cache w))"
    and "\<forall>u k. redis_get (redis (cw_cache w)) u (build_key k None) = JNull"
    and "\<forall>u t. redis_get (redis (cw_cache w)) u (build_tag_key t) = JNull"
    and "find_all_products db qt now q w = (Inr j, w1)"
    and "\<forall>a \<in> set as. (\<exists>i n. a = UpdateStock i n) \<or> (\<exists>i x. a = UpdatePrice i x) \<or> (\<exists>i dto. a = CreateProduct i dto)"
    and "later < now + 600000"
  shows "list_products db q (cw_products w) = Inr j \<and> fst (find_all_products db qt later q (fold (prd_step db qt now) as w1)) = Inr j"
proof -
  have "redis (cw_cache (fold (prd_step db qt now) as w1)) = redis (cw_cache w1)"
    using assms(6)
  proof (induction "as" arbitrary: w1)
    case (Cons a as)
    have "redis (cw_cache (prd_step db qt now a w1)) = redis (cw_cache w1)"
      using Cons.prems
      by (auto simp: update_stock_def update_price_def create_product_def insert_product_def Let_def change_product_cache)
    then show ?case using Cons by simp
  qed simp
  then show ?thesis by (rule redis_server.listed_until [OF assms(1-5) _ assms(7)])
qed

subsection \<open>What the writers keep\<close>

text \<open>\<open>lack\<close> gives how far below zero the stock of a product may be.\<close>

definition catalog_ok :: "(string \<Rightarrow> int) \<Rightarrow> catalog_row list \<Rightarrow> bool" where
  "catalog_ok lack ps \<longleftrightarrow> distinct (map cg_id ps) \<and> distinct (map cg_slug ps) \<and> distinct (map cg_sku (filter (\<lambda>r. cg_sku r \<noteq> None) ps)) \<and>
     (\<forall>r \<in> set ps. - lack (cg_id r) \<le> cg_stock r \<and> 0 \<le> cg_price r \<and> cents (cg_price r))"

fun prd_op_ok :: "prd_op \<Rightarrow> bool" where
  "prd_op_ok (CreateProduct i dto) = product_dto_ok dto"
| "prd_op_ok (UpdateProduct i p) = product_patch_ok p"
| "prd_op_ok (UpdateStock i n) = (0 \<le> n)"
| "prd_op_ok (UpdatePrice i x) = (0 \<le> x)"
| "prd_op_ok _ = True"

fun created :: "prd_op \<Rightarrow> string list" where
  "created (CreateProduct i dto) = [i]"
| "created _ = []"

lemma db_decimal_ok: "0 \<le> x \<Longrightarrow> 0 \<le> db_decimal x" "cents (db_decimal x)"
  by (simp_all add: db_decimal_def to_decimal_places2_nonneg cents_round)

lemma catalog_ok_update:
  assumes "catalog_ok lack (cw_products w)" "\<And>r. cg_id (f r) = cg_id r"
    "\<And>r. - lack (cg_id r) \<le> cg_stock r \<and> 0 \<le> cg_price r \<and> cents (cg_price r) \<Longrightarrow> - lack (cg_id r) \<le> cg_stock (f r) \<and> 0 \<le> cg_price (f r) \<and> cents (cg_price (f r))"
  shows "catalog_ok lack (cw_products (snd (db_update_product i b st f w)))"
proof -
  note ids = assms(1) [unfolded catalog_ok_def]
  have "catalog_ok lack (update_by cg_id i f (cw_products w))" if r: "find_by cg_id i (cw_products w) = Some r"
    and u: "find_by cg_slug (cg_slug (f r)) (other_row i (cw_products w)) = None" "\<not> sku_taken (cg_sku (f r)) (other_row i (cw_products w))" for r
  proof -
    have only: "x = r" if "x \<in> set (cw_products w)" "cg_id x = i" for x
      using find_by_distinct [of cg_id "cw_products w" x] ids that r by simp
    have slug: "cg_slug x \<noteq> cg_slug (f r)" if "x \<in> set (cw_products w)" "cg_id x \<noteq> i" for x
      using u(1) that by (simp add: find_by_None_iff other_row_def image_iff) metis
    have sku: "cg_sku x \<noteq> cg_sku (f r)" if "x \<in> set (cw_products w)" "cg_id x \<noteq> i" "cg_sku (f r) \<noteq> None" for x
      using u(2) that by (force simp: find_by_None_iff other_row_def sku_taken_def)
    have "distinct (map cg_slug (filter (\<lambda>_. True) (update_by cg_id i f (cw_products w))))"
      using ids slug only by (intro distinct_update_by) auto
    moreover have "distinct (map cg_sku (filter (\<lambda>r. cg_sku r \<noteq> None) (update_by cg_id i f (cw_products w))))"
      using ids sku only by (intro distinct_update_by) auto
    moreover have "map cg_id (update_by cg_id i f (cw_products w)) = map cg_id (cw_products w)" using assms(2) by (simp add: keys_update_by)
    moreover have "\<forall>r \<in> set (update_by cg_id i f (cw_products w)). - lack (cg_id r) \<le> cg_stock r \<and> 0 \<le> cg_price r \<and> cents (cg_price r)"
      using ids assms(2,3) by (auto simp: update_by_def set_update_where)
    ultimately show ?thesis using ids by (simp add: catalog_ok_def)
  qed
  then show ?thesis using assms(1) by (auto simp: db_update_product_def split: option.split)
qed

lemma catalog_ok_insert:
  assumes "catalog_ok lack (cw_products w)" "cg_id r \<notin> cg_id ` set (cw_products w)" "- lack (cg_id r) \<le> cg_stock r" "0 \<le> cg_price r" "cents (cg_price r)"
  shows "catalog_ok lack (cw_products (snd (insert_product b st r w)))"
  using assms by (auto simp: insert_product_def catalog_ok_def find_by_None_iff sku_taken_def)

lemma catalog_ok_change:
  assumes "catalog_ok lack (cw_products w)" "\<And>r. cg_id (f r) = cg_id r"
    "\<And>r. - lack (cg_id r) \<le> cg_stock r \<and> 0 \<le> cg_price r \<and> cents (cg_price r) \<Longrightarrow> - lack (cg_id r) \<le> cg_stock (f r) \<and> 0 \<le> cg_price (f r) \<and> cents (cg_price (f r))"
  shows "catalog_ok lack (cw_products (snd (change_product i st f w)))"
  using catalog_ok_update [OF assms] assms(1) by (simp add: change_product_def split: sum.split)

text \<open>The columns that never change, of the rows in their order.\<close>

definition birth :: "catalog_row \<Rightarrow> string \<times> ms" where
  "birth r = (cg_id r, cg_createdAt r)"

lemma births_update:
  "(\<And>r. birth (f r) = birth r) \<Longrightarrow> map birth (cw_products (snd (db_update_product i b st f w))) = map birth (cw_products w)"
  "(\<And>r. birth (f r) = birth r) \<Longrightarrow> map birth (cw_products (snd (change_product i st f w))) = map birth (cw_products w)"
proof -
  show 1: "map birth (cw_products (snd (db_update_product i b st f w))) = map birth (cw_products w)" if "\<And>r. birth (f r) = birth r" for b
    using that by (auto simp: db_update_product_def update_by_def update_where_def split: option.split)
  show "map birth (cw_products (snd (change_product i st f w))) = map birth (cw_products w)" if "\<And>r. birth (f r) = birth r"
    using 1 [OF that] by (simp add: change_product_def split: sum.split)
qed

lemma neg_lack: "(\<And>k. 0 \<le> lack k) \<Longrightarrow> 0 \<le> x \<Longrightarrow> - lack k \<le> x" for lack :: "string \<Rightarrow> int"
  by (meson neg_le_0_iff_le order_trans)

lemma catalog_step_ok:
  assumes "catalog_ok lack (cw_products w)" "prd_op_ok a" "set (created a) \<inter> cg_id ` set (cw_products w) = {}" "\<And>k. 0 \<le> lack k"
  shows "catalog_ok lack (cw_products (prd_step db qt now a w)) \<and>
    (\<exists>bs. map birth (cw_products (prd_step db qt now a w)) = map birth (cw_products w) @ bs \<and> fst ` set bs \<subseteq> set (created a))"
proof (cases a)
  case (CreateProduct i dto)
  let ?r = "\<lparr>cg_id = i, cg_name = np_name dto, cg_description = Some (np_description dto),
    cg_slug = str_or (np_slug dto) (generate_slug (np_name dto)), cg_sku = np_sku dto,
    cg_price = db_decimal (np_price dto), cg_stock = \<lfloor>or_old (np_stock dto) 0\<rfloor>, cg_minStock = 0,
    cg_weight = np_weight dto, cg_images = or_old (np_images dto) [], cg_categories = [], cg_isActive = True,
    cg_isFeatured = or_old (np_isFeatured dto) False, cg_createdAt = now, cg_updatedAt = now\<rparr>"
  have "catalog_ok lack (cw_products (snd (insert_product (np_unknown dto) (np_stock dto) ?r w)))"
    using assms by (intro catalog_ok_insert neg_lack [OF assms(4)]) (simp_all add: CreateProduct product_dto_ok_def db_decimal_ok)
  moreover have "cw_products (snd (insert_product (np_unknown dto) (np_stock dto) ?r w)) \<in> {cw_products w, cw_products w @ [?r]}"
    by (simp add: insert_product_def)
  ultimately show ?thesis using assms(1)
    by (auto simp: CreateProduct create_product_def Let_def birth_def split: sum.split)
next
  case (UpdateProduct i p)
  have "catalog_ok lack (cw_products (snd (db_update_product i (up_unknown p) (up_stock p) (apply_product_patch now p) w)))"
    using assms(2) by (intro catalog_ok_update [OF assms(1)])
      (auto simp: UpdateProduct apply_product_patch_def product_patch_ok_def db_decimal_ok or_old_def intro: neg_lack [OF assms(4)] split: option.splits)
  moreover have "map birth (cw_products (snd (db_update_product i (up_unknown p) (up_stock p) (apply_product_patch now p) w))) = map birth (cw_products w)"
    by (rule births_update) (simp add: apply_product_patch_def birth_def)
  ultimately show ?thesis using assms(1) by (simp add: UpdateProduct update_product_def split: sum.split)
next
  case (RemoveProduct i)
  show ?thesis using catalog_ok_change [OF assms(1), of "\<lambda>r. r\<lparr>cg_isActive := False, cg_updatedAt := now\<rparr>" i None]
      births_update(2) [of "\<lambda>r. r\<lparr>cg_isActive := False, cg_updatedAt := now\<rparr>" i None w]
    by (simp add: RemoveProduct remove_product_def birth_def split: sum.split)
next
  case (ToggleProduct i)
  show ?thesis using catalog_ok_change [OF assms(1), of "\<lambda>r. r\<lparr>cg_isActive := \<not> cg_isActive r, cg_updatedAt := now\<rparr>" i None]
      births_update(2) [of "\<lambda>r. r\<lparr>cg_isActive := \<not> cg_isActive r, cg_updatedAt := now\<rparr>" i None w]
    by (simp add: ToggleProduct toggle_product_def birth_def split: sum.split)
next
  case (UpdateStock i n)
  have "- lack k \<le> \<lfloor>n\<rfloor>" for k by (rule neg_lack [OF assms(4)]) (use assms(2) UpdateStock in simp)
  then show ?thesis using assms(2) catalog_ok_change [OF assms(1), of "\<lambda>r. r\<lparr>cg_stock := \<lfloor>n\<rfloor>, cg_updatedAt := now\<rparr>" i "Some n"]
      births_update(2) [of "\<lambda>r. r\<lparr>cg_stock := \<lfloor>n\<rfloor>, cg_updatedAt := now\<rparr>" i "Some n" w]
    by (simp add: UpdateStock update_stock_def birth_def)
next
  case (UpdatePrice i x)
  show ?thesis using assms(2) catalog_ok_change [OF assms(1), of "\<lambda>r. r\<lparr>cg_price := db_decimal x, cg_updatedAt := now\<rparr>" i None]
      births_update(2) [of "\<lambda>r. r\<lparr>cg_price := db_decimal x, cg_updatedAt := now\<rparr>" i None w]
    by (simp add: UpdatePrice update_price_def birth_def db_decimal_ok)
qed (use assms(1) in \<open>simp_all add: find_all_products_def get_by_category_def search_products_def\<close>)

lemma births_ids: "map birth ps = map birth ps' @ bs \<Longrightarrow> cg_id ` set ps = cg_id ` set ps' \<union> fst ` set bs"
proof -
  assume "map birth ps = map birth ps' @ bs"
  then have "set (map fst (map birth ps)) = set (map fst (map birth ps' @ bs))" by simp
  then show ?thesis by (simp add: birth_def comp_def image_Un image_image)
qed

text \<open>The requests of the products service, and what the orders do to the same table: they move the stock of a
  product by any number, without a look at it.\<close>

datatype catalog_event = Request prd_op | Stock_Moved string int

fun catalog_step :: "catalog_db \<Rightarrow> (product_query \<Rightarrow> string) \<Rightarrow> ms \<Rightarrow> catalog_event \<Rightarrow> 's catalog_world \<Rightarrow> 's catalog_world" where
  "catalog_step db qt now (Request a) w = prd_step db qt now a w"
| "catalog_step db qt now (Stock_Moved i n) w =
     w\<lparr>cw_products := update_by cg_id i (\<lambda>r. r\<lparr>cg_stock := cg_stock r + n, cg_updatedAt := now\<rparr>) (cw_products w)\<rparr>"

fun catalog_run :: "catalog_db \<Rightarrow> (product_query \<Rightarrow> string) \<Rightarrow> (ms \<times> catalog_event) list \<Rightarrow> 's catalog_world \<Rightarrow> 's catalog_world" where
  "catalog_run db qt [] w = w"
| "catalog_run db qt ((now, e) # es) w = catalog_run db qt es (catalog_step db qt now e w)"

fun event_ok :: "catalog_event \<Rightarrow> bool" where
  "event_ok (Request a) = prd_op_ok a"
| "event_ok (Stock_Moved i n) = True"

fun event_ids :: "catalog_event \<Rightarrow> string list" where
  "event_ids (Request a) = created a"
| "event_ids (Stock_Moved i n) = []"

fun taken :: "string \<Rightarrow> catalog_event \<Rightarrow> int" where
  "taken k (Request a) = 0"
| "taken k (Stock_Moved i n) = (if k = i \<and> n < 0 then - n else 0)"

lemma taken_nonneg: "0 \<le> taken k e"
  by (cases e) simp_all

lemma catalog_event_step:
  assumes "catalog_ok lack (cw_products w)" "event_ok e" "set (event_ids e) \<inter> cg_id ` set (cw_products w) = {}" "\<And>k. 0 \<le> lack k"
  shows "catalog_ok (\<lambda>k. lack k + taken k e) (cw_products (catalog_step db qt now e w)) \<and>
    (\<exists>bs. map birth (cw_products (catalog_step db qt now e w)) = map birth (cw_products w) @ bs \<and> fst ` set bs \<subseteq> set (event_ids e))"
proof (cases e)
  case (Request a)
  with catalog_step_ok [of lack w a db qt now] assms show ?thesis by simp
next
  case (Stock_Moved i n)
  let ?f = "\<lambda>r. r\<lparr>cg_stock := cg_stock r + n, cg_updatedAt := now\<rparr>"
  let ?ps = "update_by cg_id i ?f (cw_products w)"
  have m: "map g ?ps = map g (cw_products w)" if "\<And>r. g (?f r) = g r" for g :: "catalog_row \<Rightarrow> 'b"
    using that by (simp add: update_by_def update_where_def)
  have "map cg_sku (filter (\<lambda>r. cg_sku r \<noteq> None) ?ps) = map cg_sku (filter (\<lambda>r. cg_sku r \<noteq> None) (cw_products w))"
    by (induction "cw_products w" arbitrary: w) (auto simp: update_by_def update_where_def filter_map comp_def)
  moreover have "map cg_id ?ps = map cg_id (cw_products w)" "map cg_slug ?ps = map cg_slug (cw_products w)" by (simp_all add: m)
  moreover have "\<forall>r \<in> set ?ps. - (lack (cg_id r) + taken (cg_id r) e) \<le> cg_stock r \<and> 0 \<le> cg_price r \<and> cents (cg_price r)"
    using assms(1) by (auto simp: catalog_ok_def Stock_Moved update_by_def set_update_where)
  ultimately have "catalog_ok (\<lambda>k. lack k + taken k e) ?ps" using assms(1) by (simp add: catalog_ok_def)
  then show ?thesis by (simp add: Stock_Moved m birth_def)
qed

text \<open>C22. Over every sequence of requests of the products service whose bodies pass the validation, with stock
  movements of orders in between, ids, slugs and SKUs stay unique, prices non-negative and in whole cents, no product
  disappears or changes its place, id or time of creation, and no stock is further below zero than what the
  orders took of that product: never below zero where they took nothing. The controller that seeds
  demonstration data, which deletes products, and the imports are not among the writers.\<close>

theorem catalog_invariant:
  assumes "catalog_ok (\<lambda>_. 0) (cw_products w)" "\<forall>x \<in> set es. event_ok (snd x)"
    "distinct (map cg_id (cw_products w) @ concat (map (event_ids \<circ> snd) es))"
  shows "let w' = catalog_run db qt es w in
    distinct (map cg_id (cw_products w')) \<and> distinct (map cg_slug (cw_products w')) \<and>
    distinct (map cg_sku (filter (\<lambda>r. cg_sku r \<noteq> None) (cw_products w'))) \<and>
    (\<forall>r \<in> set (cw_products w'). 0 \<le> cg_price r \<and> cents (cg_price r) \<and>
       - sum_list (map (taken (cg_id r) \<circ> snd) es) \<le> cg_stock r) \<and>
    (\<exists>bs. map birth (cw_products w') = map birth (cw_products w) @ bs)"
proof -
  have "catalog_ok (\<lambda>k. lack k + sum_list (map (taken k \<circ> snd) es)) (cw_products (catalog_run db qt es w)) \<and>
      (\<exists>bs. map birth (cw_products (catalog_run db qt es w)) = map birth (cw_products w) @ bs)"
    if "catalog_ok lack (cw_products w)" "\<And>k. 0 \<le> lack k" for lack
    using that assms(2,3)
  proof (induction es arbitrary: lack w)
    case (Cons x es)
    obtain now e where x: "x = (now, e)" by (cases x)
    let ?w = "catalog_step db qt now e w"
    let ?lack = "\<lambda>k. lack k + taken k e"
    have "set (event_ids e) \<inter> cg_id ` set (cw_products w) = {}" "event_ok e" using Cons.prems(3,4) by (auto simp: x)
    from catalog_event_step [OF Cons.prems(1) this(2,1) Cons.prems(2), of db qt now] obtain bs where
      s: "catalog_ok ?lack (cw_products ?w)" "map birth (cw_products ?w) = map birth (cw_products w) @ bs" "fst ` set bs \<subseteq> set (event_ids e)"
      by blast
    let ?new = "concat (map (event_ids \<circ> snd) es)"
    have "distinct ?new" "(set (map cg_id (cw_products w)) \<union> set (event_ids e)) \<inter> set ?new = {}"
      using Cons.prems(4) by (auto simp: x comp_def)
    moreover have "set (map cg_id (cw_products ?w)) \<subseteq> set (map cg_id (cw_products w)) \<union> set (event_ids e)"
      using births_ids [OF s(2)] s(3) by auto
    moreover have "distinct (map cg_id (cw_products ?w))" using s(1) by (simp add: catalog_ok_def)
    ultimately have "distinct (map cg_id (cw_products ?w) @ ?new)" unfolding distinct_append by blast
    moreover have "0 \<le> ?lack k" for k using Cons.prems(2) [of k] taken_nonneg [of k e] by simp
    ultimately have "catalog_ok (\<lambda>k. ?lack k + sum_list (map (taken k \<circ> snd) es)) (cw_products (catalog_run db qt es ?w)) \<and>
        (\<exists>cs. map birth (cw_products (catalog_run db qt es ?w)) = map birth (cw_products ?w) @ cs)"
      using Cons.prems(3) s(1) by (intro Cons.IH) (auto simp: comp_def)
    then show ?case using s(2) by (auto simp: x add.assoc comp_def)
  qed auto
  from this [OF assms(1)] show ?thesis by (simp add: catalog_ok_def Let_def)
qed

subsection \<open>The shape of a slug\<close>

definition no_double :: "string \<Rightarrow> bool" where
  "no_double s = successively (\<lambda>x y. \<not> (x = CHR ''-'' \<and> y = CHR ''-'')) s"

definition slug_form :: "string \<Rightarrow> bool" where
  "slug_form s \<longleftrightarrow> (\<forall>c \<in> set s. slug_char c \<or> c = CHR ''-'') \<and> no_double s \<and> (s \<noteq> [] \<longrightarrow> hd s \<noteq> CHR ''-'' \<and> last s \<noteq> CHR ''-'')"

lemma dash_no_slug [simp]: "\<not> slug_char CHR ''-''"
  by (simp add: slug_char_def)

lemma slug_char_not_dash: "slug_char c \<Longrightarrow> c \<noteq> CHR ''-''"
  by auto

lemma replace_runs_form:
  "(\<forall>c \<in> set (replace_runs b s). slug_char c \<or> c = CHR ''-'') \<and> no_double (replace_runs b s) \<and>
   (b \<longrightarrow> replace_runs b s \<noteq> [] \<longrightarrow> hd (replace_runs b s) \<noteq> CHR ''-'')"
proof (induction b s rule: replace_runs.induct)
  case (2 b c s)
  then show ?case using slug_char_not_dash [of c] by (auto simp: no_double_def successively_Cons)
qed (simp add: no_double_def)

lemma trim_dashes_parts: "\<exists>a b. s = a @ trim_dashes s @ b"
proof -
  let ?d = "(=) CHR ''-''"
  have "s = takeWhile ?d s @ dropWhile ?d s" by simp
  moreover have "dropWhile ?d s = trim_dashes s @ rev (takeWhile ?d (rev (dropWhile ?d s)))"
    unfolding trim_dashes_def by (metis rev_append rev_rev_ident takeWhile_dropWhile_id)
  ultimately show ?thesis by metis
qed

lemma trim_dashes_ends: "trim_dashes s \<noteq> [] \<Longrightarrow> hd (trim_dashes s) \<noteq> CHR ''-'' \<and> last (trim_dashes s) \<noteq> CHR ''-''"
proof -
  let ?d = "(=) CHR ''-''"
  let ?t = "dropWhile ?d s"
  assume n: "trim_dashes s \<noteq> []"
  then have r: "dropWhile ?d (rev ?t) \<noteq> []" by (simp add: trim_dashes_def)
  then have l: "last (trim_dashes s) \<noteq> CHR ''-''" using hd_dropWhile [OF r] by (simp add: trim_dashes_def last_rev)
  obtain b where b: "?t = trim_dashes s @ b"
    unfolding trim_dashes_def by (metis rev_append rev_rev_ident takeWhile_dropWhile_id)
  then have "?t \<noteq> []" using n by auto
  then have "hd ?t \<noteq> CHR ''-''" using hd_dropWhile [of ?d s] by auto
  then show ?thesis using l b n by simp
qed

lemma slug_form_generate: "slug_form (generate_slug s)"
proof -
  obtain a b where p: "replace_runs False (to_lower s) = a @ generate_slug s @ b"
    unfolding generate_slug_def using trim_dashes_parts by blast
  have "no_double (generate_slug s)"
    using replace_runs_form [of False "to_lower s"] by (simp add: p no_double_def successively_append_iff)
  moreover have "\<forall>c \<in> set (generate_slug s). slug_char c \<or> c = CHR ''-''"
    using replace_runs_form [of False "to_lower s"] by (simp add: p)
  ultimately show ?thesis using trim_dashes_ends [of "replace_runs False (to_lower s)"] by (simp add: slug_form_def generate_slug_def)
qed

lemma replace_runs_id:
  "\<forall>c \<in> set s. slug_char c \<or> c = CHR ''-'' \<Longrightarrow> no_double s \<Longrightarrow> (b \<Longrightarrow> s \<noteq> [] \<Longrightarrow> hd s \<noteq> CHR ''-'') \<Longrightarrow> replace_runs b s = s"
proof (induction s arbitrary: b)
  case (Cons c s)
  then show ?case by (auto simp: no_double_def successively_Cons)
qed simp

lemma to_lower_slug: "\<forall>c \<in> set s. slug_char c \<or> c = CHR ''-'' \<Longrightarrow> to_lower s = s"
  unfolding to_lower_def by (rule map_idI) (auto simp: to_lower_char_def slug_char_def Let_def)

lemma trim_dashes_id:
  assumes "s \<noteq> [] \<longrightarrow> hd s \<noteq> CHR ''-'' \<and> last s \<noteq> CHR ''-''"
  shows "trim_dashes s = s"
proof (cases "s = []")
  case False
  then have "dropWhile ((=) CHR ''-'') s = s" "dropWhile ((=) CHR ''-'') (rev s) = rev s"
    using assms by (auto simp: hd_rev dropWhile_eq_self_iff)
  then show ?thesis by (simp add: trim_dashes_def)
qed (simp add: trim_dashes_def)

text \<open>A generated slug has lower-case letters and digits in groups joined by single dashes, and a text of that form
  is its own slug, so generating is idempotent. A name with no ASCII letter or digit has the empty slug.\<close>

theorem slug_normal_form:
  "slug_form (generate_slug s) \<and> (slug_form s \<longrightarrow> generate_slug s = s) \<and> generate_slug (generate_slug s) = generate_slug s \<and>
   (generate_slug s = [] \<longleftrightarrow> (\<forall>c \<in> set (to_lower s). \<not> slug_char c))"
proof -
  have id: "generate_slug t = t" if "slug_form t" for t
    using that by (simp add: slug_form_def generate_slug_def to_lower_slug replace_runs_id trim_dashes_id)
  have keep: "filter slug_char (replace_runs b t) = filter slug_char t" for b t by (induction b t rule: replace_runs.induct) auto
  obtain a b where p: "replace_runs False (to_lower s) = a @ generate_slug s @ b" "set a \<subseteq> {CHR ''-''}" "set b \<subseteq> {CHR ''-''}"
  proof -
    let ?d = "(=) CHR ''-''"
    let ?x = "replace_runs False (to_lower s)"
    have "?x = takeWhile ?d ?x @ generate_slug s @ rev (takeWhile ?d (rev (dropWhile ?d ?x)))"
      unfolding generate_slug_def trim_dashes_def by (metis rev_append rev_rev_ident takeWhile_dropWhile_id)
    then show thesis by (rule that) (auto dest: set_takeWhileD)
  qed
  have "filter slug_char a = []" "filter slug_char b = []" using p(2,3) by (auto simp: filter_empty_conv)
  then have f: "filter slug_char (generate_slug s) = filter slug_char (to_lower s)" using keep [of False "to_lower s"] by (simp add: p(1))
  have "generate_slug s = []" if "filter slug_char (generate_slug s) = []"
  proof (rule ccontr)
    assume n: "generate_slug s \<noteq> []"
    then have "slug_char (hd (generate_slug s))" using slug_form_generate [of s] by (auto simp: slug_form_def)
    then show False using that n by (cases "generate_slug s") auto
  qed
  then have "generate_slug s = [] \<longleftrightarrow> filter slug_char (to_lower s) = []" using f by (metis filter.simps(1))
  then show ?thesis using slug_form_generate id by (simp add: filter_empty_conv)
qed

theorem slug_normal_form_witness:
  "slug_form ''oyster-mushroom-1-kg'' \<and> generate_slug ''oyster-mushroom-1-kg'' = ''oyster-mushroom-1-kg'' \<and>
   generate_slug ''  Oyster Mushroom (1 kg)!'' = ''oyster-mushroom-1-kg''"
proof -
  have "generate_slug ''  Oyster Mushroom (1 kg)!'' = ''oyster-mushroom-1-kg''" by code_simp
  then show ?thesis using slug_normal_form [of "''  Oyster Mushroom (1 kg)!''"] by simp
qed

subsection \<open>Instances\<close>

definition demo_query :: product_query where
  "demo_query = \<lparr>pq_page = None, pq_limit = None, pq_search = None, pq_categoryId = None, pq_category = None, pq_status = None,
     pq_sortBy = None, pq_asc = None, pq_isFeatured = None, pq_minPrice = None, pq_maxPrice = None\<rparr>"

text \<open>An injective text, in braces.\<close>

definition demo_text :: "product_query \<Rightarrow> string" where
  "demo_text q = CHR 0x7B # nat_text (to_nat (pq_page q, pq_limit q, pq_search q, pq_categoryId q, pq_category q, pq_status q,
     pq_sortBy q, pq_asc q, pq_isFeatured q, pq_minPrice q, pq_maxPrice q)) @ [CHR 0x7D]"

lemma demo_texts: "query_texts demo_text"
  unfolding query_texts_def
proof
  show "inj demo_text" by (rule injI) (simp add: demo_text_def)
  show "\<forall>q. \<exists>s. demo_text q = CHR 0x7B # s" by (simp add: demo_text_def)
qed

definition demo_catalog_db :: catalog_db where
  "demo_catalog_db = \<lparr>pd_order = (\<lambda>c. if c = ''createdAt'' then Some (\<lambda>x y. cg_createdAt x \<le> cg_createdAt y) else None), pd_category = None\<rparr>"

definition demo_product_row :: catalog_row where
  "demo_product_row = \<lparr>cg_id = ''p1'', cg_name = ''Oyster'', cg_description = None, cg_slug = ''oyster'', cg_sku = None, cg_price = 150,
     cg_stock = 10, cg_minStock = 2, cg_weight = None, cg_images = [], cg_categories = [], cg_isActive = True, cg_isFeatured = False,
     cg_createdAt = 0, cg_updatedAt = 0\<rparr>"

definition demo_catalog :: "mem catalog_world" where
  "demo_catalog = \<lparr>cw_products = [demo_product_row], cw_cache = mem_cache, cw_indexed = []\<rparr>"

lemma demo_catalog_simps [simp]: "cw_cache demo_catalog = mem_cache" "cw_products demo_catalog = [demo_product_row]"
  by (simp_all add: demo_catalog_def)

theorem product_lists_recent_witness:
  "\<exists>now H w'. prd_run demo_catalog_db demo_text 0 [(1, ListProducts demo_query), (2, ToggleProduct ''p1'')] [(0, cw_products demo_catalog)] demo_catalog =
       (now, H, w') \<and> now = 2 \<and>
     fst (find_all_products demo_catalog_db demo_text now demo_query w') = list_products demo_catalog_db demo_query (cw_products w') \<and>
     map cg_isActive (cw_products w') = [False]"
proof -
  let ?as = "[(1, ListProducts demo_query), (2, ToggleProduct ''p1'')]"
  obtain now H w' where r: "prd_run demo_catalog_db demo_text 0 ?as [(0, cw_products demo_catalog)] demo_catalog = (now, H, w')"
    by (metis prod_cases3)
  have l: "cw_products (snd (find_all_products demo_catalog_db demo_text 1 demo_query demo_catalog)) = [demo_product_row]"
    by (simp add: find_all_products_def)
  have w: "now = 2" "H = [(2, cw_products w')]" "map cg_isActive (cw_products w') = [False]"
    using r l by (auto simp: Let_def toggle_product_def change_product_def find_one_product_def db_update_product_def bad_stock_def other_row_def
        sku_taken_def demo_product_row_def)
  show ?thesis
    using product_lists_recent [OF mem.redis_server_axioms _ _ _ demo_texts r, of demo_query] r w by (auto simp: mem_get_null)
qed

theorem price_change_unlisted_witness:
  "\<exists>j w1. find_all_products demo_catalog_db demo_text 5 demo_query demo_catalog = (Inr j, w1) \<and>
     fst (find_all_products demo_catalog_db demo_text 500000 demo_query (snd (update_price 5 ''p1'' 99 w1))) = Inr j \<and>
     list_products demo_catalog_db demo_query (cw_products (snd (update_price 5 ''p1'' 99 w1))) \<noteq> Inr j"
proof -
  obtain r w1 where f: "find_all_products demo_catalog_db demo_text 5 demo_query demo_catalog = (r, w1)" by fastforce
  have "fst (cache_get 5 (products_key demo_text demo_query) None mem_cache) = JNull"
    using mem.cache_get_up [of mem_cache 5 "products_key demo_text demo_query" None] by (simp add: mem_get_null)
  then have r: "r = list_products demo_catalog_db demo_query [demo_product_row]" and p: "cw_products w1 = [demo_product_row]"
    using f by (auto simp: find_all_products_def cached_list_def Let_def split: prod.splits sum.splits)
  then obtain j where j: "r = Inr j" by (simp add: list_products_def demo_catalog_db_def demo_query_def category_filter_def category_wanted_def truthy_str_def or_old_def)
  have "list_products demo_catalog_db demo_query (cw_products (snd (update_price 5 ''p1'' 99 w1))) \<noteq> r"
  proof -
    have "db_decimal 99 = 99" by code_simp
    then have "cw_products (snd (update_price 5 ''p1'' 99 w1)) = [demo_product_row\<lparr>cg_price := 99, cg_updatedAt := 5\<rparr>]"
      by (simp add: update_price_def change_product_def find_one_product_def db_update_product_def bad_stock_def other_row_def sku_taken_def p demo_product_row_def)
    moreover have "list_products demo_catalog_db demo_query [demo_product_row\<lparr>cg_price := 99, cg_updatedAt := 5\<rparr>] \<noteq>
        list_products demo_catalog_db demo_query [demo_product_row]" by code_simp
    ultimately show ?thesis by (simp add: r)
  qed
  then show ?thesis
    using price_change_unlisted [OF mem.redis_server_axioms _ _ _ f [unfolded j], of "[UpdatePrice ''p1'' 99]" 500000] f j by (simp add: mem_get_null)
qed

theorem catalog_invariant_witness:
  "list_all (\<lambda>r. (if cg_id r = ''p1'' then - 3 else 0) \<le> cg_stock r) (cw_products (catalog_run demo_catalog_db demo_text [(1, Request (CreateProduct ''p2'' \<lparr>np_name = ''Oyster'', np_description = ''Fresh oyster'',
       np_price = 1 / 3, np_stock = None, np_slug = Some ''oyster-2'', np_sku = None, np_weight = None, np_images = None, np_isFeatured = None,
       np_unknown = False\<rparr>)), (2, Request (UpdateStock ''p2'' 7)), (3, Stock_Moved ''p1'' (- 3))] demo_catalog))"
proof -
  let ?es = "[(1, Request (CreateProduct ''p2'' \<lparr>np_name = ''Oyster'', np_description = ''Fresh oyster'',
       np_price = 1 / 3, np_stock = None, np_slug = Some ''oyster-2'', np_sku = None, np_weight = None, np_images = None, np_isFeatured = None,
       np_unknown = False\<rparr>)), (2, Request (UpdateStock ''p2'' 7)), (3, Stock_Moved ''p1'' (- 3))]"
  have "150 = (of_int 15000 :: rat) / 100" by simp
  then have "cents 150" unfolding cents_def by blast
  then have ok: "catalog_ok (\<lambda>_. 0) (cw_products demo_catalog)" by (simp add: catalog_ok_def demo_product_row_def)
  have b: "\<forall>x \<in> set ?es. event_ok (snd x)" by (simp add: product_dto_ok_def or_old_def)
  have d: "distinct (map cg_id (cw_products demo_catalog) @ concat (map (event_ids \<circ> snd) ?es))" by (simp add: demo_product_row_def)
  show ?thesis
    using catalog_invariant [OF ok b d, of demo_catalog_db demo_text, unfolded Let_def] by (auto simp: list_all_iff simp del: catalog_run.simps split: if_splits)
qed

end
