(* ===== verification/Users.thy ===== *)
theory Users
  imports Cache_Coherence Cart_Cache
begin

section \<open>Users and their addresses\<close>

text \<open>
  \<open>modules/users/users.service.ts\<close>, and \<open>JwtStrategy.validate\<close>, which gives each request the present role of
  its user. \<open>ur_rest\<close> has the columns the module reads as a part of the whole row and does not write (the secrets of the
  second factor, the codes of mails, the tokens of providers). Devices and orders of a user are kept as
  their owner, time of creation and JSON. Answers are JSON with dates as milliseconds; hashing is an argument.
  Columns that get \<open>null\<close> where they are not nullable are not modelled.
\<close>

record account_row =
  ur_id :: string
  ur_clerkId :: "string option"
  ur_email :: string
  ur_username :: "string option"
  ur_firstName :: "string option"
  ur_lastName :: "string option"
  ur_imageUrl :: "string option"
  ur_phoneNumber :: "string option"
  ur_role :: user_role
  ur_isActive :: bool
  ur_password :: "string option"
  ur_rest :: "(string \<times> json) list"
  ur_createdAt :: ms
  ur_updatedAt :: ms

record address_row =
  ad_id :: string
  ad_userId :: string
  ad_street1 :: string
  ad_city :: string
  ad_state :: string
  ad_postalCode :: string
  ad_country :: string
  ad_isDefault :: bool
  ad_createdAt :: ms
  ad_updatedAt :: ms

record owned_row =
  ow_userId :: string
  ow_createdAt :: ms
  ow_json :: json

record 's users_world =
  uw_users :: "account_row list"
  uw_addresses :: "address_row list"
  uw_devices :: "owned_row list"
  uw_orders :: "owned_row list"
  uw_cache :: "'s cache_service"

definition USER_TTL :: int where "USER_TTL = 600"

definition USER_PREFERENCES_TTL :: int where "USER_PREFERENCES_TTL = 1800"

subsection \<open>Answers\<close>

fun role_name :: "user_role \<Rightarrow> string" where
  "role_name USER = ''USER''"
| "role_name ADMIN = ''ADMIN''"
| "role_name SUPER_ADMIN = ''SUPER_ADMIN''"
| "role_name GROWER = ''GROWER''"
| "role_name BUYER = ''BUYER''"

definition user_names :: "account_row \<Rightarrow> (string \<times> json) list" where
  "user_names r = [(''id'', j_str (ur_id r)), (''email'', j_str (ur_email r)), (''username'', j_opt j_str (ur_username r)),
     (''firstName'', j_opt j_str (ur_firstName r)), (''lastName'', j_opt j_str (ur_lastName r)), (''role'', j_str (role_name (ur_role r)))]"

definition user_view :: "account_row \<Rightarrow> json" where
  "user_view r = JObj (user_names r @ [(''imageUrl'', j_opt j_str (ur_imageUrl r)), (''createdAt'', j_int (ur_createdAt r)),
     (''updatedAt'', j_int (ur_updatedAt r))])"

definition user_row_fields :: "account_row \<Rightarrow> (string \<times> json) list" where
  "user_row_fields r = user_names r @
     [(''clerkId'', j_opt j_str (ur_clerkId r)), (''imageUrl'', j_opt j_str (ur_imageUrl r)),
      (''phoneNumber'', j_opt j_str (ur_phoneNumber r)), (''isActive'', JBool (ur_isActive r)),
      (''password'', j_opt j_str (ur_password r)), (''createdAt'', j_int (ur_createdAt r)), (''updatedAt'', j_int (ur_updatedAt r))] @ ur_rest r"

definition address_view :: "address_row \<Rightarrow> json" where
  "address_view a = JObj
     [(''id'', j_str (ad_id a)), (''userId'', j_str (ad_userId a)), (''type'', j_str ''home''), (''firstName'', j_str []),
      (''lastName'', j_str []), (''street1'', j_str (ad_street1 a)), (''city'', j_str (ad_city a)), (''state'', j_str (ad_state a)),
      (''postalCode'', j_str (ad_postalCode a)), (''country'', j_str (ad_country a)), (''isDefault'', JBool (ad_isDefault a)),
      (''createdAt'', j_int (ad_createdAt a)), (''updatedAt'', j_int (ad_updatedAt a))]"

definition newest_owned :: "string \<Rightarrow> owned_row list \<Rightarrow> owned_row list" where
  "newest_owned u rows = sort_by (\<lambda>x y. ow_createdAt y \<le> ow_createdAt x) (filter (\<lambda>r. ow_userId r = u) rows)"

text \<open>Default addresses first.\<close>

definition addresses_of :: "string \<Rightarrow> address_row list \<Rightarrow> address_row list" where
  "addresses_of u rows = (let own = filter (\<lambda>a. ad_userId a = u) rows in filter ad_isDefault own @ filter (\<lambda>a. \<not> ad_isDefault a) own)"

definition user_not_found :: http_error where "user_not_found = NotFound ''User not found''"

definition find_user_row :: "string \<Rightarrow> 's users_world \<Rightarrow> account_row option" where
  "find_user_row i w = find_by ur_id i (uw_users w)"

text \<open>A read through the cache: what is computed is stored, an error is not.\<close>

definition cached_read ::
  "ms \<Rightarrow> string \<Rightarrow> int \<Rightarrow> string list \<Rightarrow> json res \<Rightarrow> 's users_world \<Rightarrow> json res \<times> 's users_world" where
  "cached_read now key life tags answer w =
     (let (cached, ch) = cache_get now key None (uw_cache w);
          w1 = w\<lparr>uw_cache := ch\<rparr>
      in if json_truthy cached then (Inr cached, w1)
         else (case answer of
                 Inl e \<Rightarrow> (Inl e, w1)
               | Inr j \<Rightarrow> (Inr j, w1\<lparr>uw_cache := snd (cache_set now key j (Some life) tags ch)\<rparr>)))"

subsection \<open>Lists\<close>

text \<open>\<open>usq_text\<close> is the text \<open>JSON.stringify\<close> gives of the query.\<close>

record users_query =
  usq_text :: string
  usq_page :: "int option"
  usq_limit :: "int option"
  usq_role :: "user_role option"
  usq_status :: "string option"
  usq_search :: "string option"
  usq_hasDevice :: "string option"
  usq_isActive :: "string option"

definition user_matches :: "users_query \<Rightarrow> owned_row list \<Rightarrow> account_row \<Rightarrow> bool" where
  "user_matches q ds r \<longleftrightarrow>
     (case usq_role q of None \<Rightarrow> True | Some x \<Rightarrow> ur_role r = x) \<and>
     (case usq_isActive q of None \<Rightarrow> True | Some t \<Rightarrow> ur_isActive r = (t = ''true'')) \<and>
     (truthy_str (usq_search q) \<longrightarrow> contains_insensitive (ur_email r) (the (usq_search q)) \<or> opt_contains (ur_username r) (the (usq_search q)) \<or>
        opt_contains (ur_firstName r) (the (usq_search q)) \<or> opt_contains (ur_lastName r) (the (usq_search q))) \<and>
     (usq_hasDevice q = Some ''true'' \<longrightarrow> (\<exists>d \<in> set ds. ow_userId d = ur_id r))"

definition user_list_json :: "owned_row list \<Rightarrow> account_row \<Rightarrow> json" where
  "user_list_json ds r = JObj (user_names r @ [(''isActive'', JBool (ur_isActive r)), (''imageUrl'', j_opt j_str (ur_imageUrl r)),
     (''createdAt'', j_int (ur_createdAt r)), (''phoneNumber'', j_opt j_str (ur_phoneNumber r)),
     (''devices'', JArr (map ow_json (filter (\<lambda>d. ow_userId d = ur_id r) ds)))])"

text \<open>A user has no column \<open>status\<close>.\<close>

definition list_users :: "users_query \<Rightarrow> 's users_world \<Rightarrow> json res" where
  "list_users q w =
     (if truthy_str (usq_status q) then Inl (InternalError ''Unknown argument status'')
      else (let page = or_old (usq_page q) 1; lmt = or_old (usq_limit q) 10;
                rows = filter (user_matches q (uw_devices w)) (uw_users w); n = int (length rows)
            in Inr (JObj [(''data'', JArr (map (user_list_json (uw_devices w)) (page_rows page lmt rows))),
                 (''meta'', JObj [(''total'', j_int n), (''page'', j_int page), (''limit'', j_int lmt), (''totalPages'', j_int (total_pages n lmt))])])))"

definition find_all_users :: "ms \<Rightarrow> users_query \<Rightarrow> 's users_world \<Rightarrow> json res \<times> 's users_world" where
  "find_all_users now q w = cached_read now (''users:list:'' @ usq_text q) USER_TTL [''users'', ''users:list''] (list_users q w) w"

subsection \<open>One user\<close>

definition user_key :: "string \<Rightarrow> string" where "user_key i = ''user:'' @ i"

definition no_own_user :: http_error where "no_own_user = Forbidden ''You can only view your own profile''"

definition find_one_user :: "ms \<Rightarrow> string \<Rightarrow> current_user \<Rightarrow> 's users_world \<Rightarrow> json res \<times> 's users_world" where
  "find_one_user now i u w =
     (if cu_id u \<noteq> i \<and> \<not> is_admin u then (Inl no_own_user, w)
      else cached_read now (user_key i) USER_TTL [''users'', user_key i]
        (case find_user_row i w of None \<Rightarrow> Inl user_not_found | Some r \<Rightarrow> Inr (user_view r)) w)"

text \<open>\<open>JwtStrategy.validate\<close>: who calls, as the table has it now.\<close>

definition validate_caller :: "string \<Rightarrow> 's users_world \<Rightarrow> current_user res" where
  "validate_caller i w =
     (case find_user_row i w of None \<Rightarrow> Inl (Unauthorized ''User no longer exists'')
      | Some r \<Rightarrow> Inr \<lparr>cu_id = ur_id r, cu_role = ur_role r\<rparr>)"

definition get_profile :: "ms \<Rightarrow> string \<Rightarrow> 's users_world \<Rightarrow> json res \<times> 's users_world" where
  "get_profile now i w = cached_read now (''user:profile:'' @ i) USER_TTL [''users'', user_key i, ''user:profile'']
     (case find_user_row i w of
        None \<Rightarrow> Inl user_not_found
      | Some r \<Rightarrow> Inr (JObj (user_row_fields r @
          [(''devices'', JArr (map ow_json (take 5 (newest_owned i (uw_devices w))))),
           (''orders'', JArr (map ow_json (take 5 (newest_owned i (uw_orders w))))),
           (''addresses'', JArr (map address_view (filter (\<lambda>a. ad_userId a = i) (uw_addresses w))))]))) w"

text \<open>There is nothing to the preferences yet.\<close>

definition get_user_preferences :: "ms \<Rightarrow> string \<Rightarrow> 's users_world \<Rightarrow> json res \<times> 's users_world" where
  "get_user_preferences now i w = cached_read now (''user:preferences:'' @ i) USER_PREFERENCES_TTL [''users'', user_key i, ''user:preferences'']
     (case find_user_row i w of None \<Rightarrow> Inl user_not_found | Some r \<Rightarrow> Inr (JObj [])) w"

definition devices_of_user :: "string \<Rightarrow> 's users_world \<Rightarrow> json" where
  "devices_of_user i w = (let ds = newest_owned i (uw_devices w)
     in JObj [(''data'', JArr (map ow_json ds)), (''total'', j_int (int (length ds)))])"

definition orders_of_user :: "string \<Rightarrow> int option \<Rightarrow> int option \<Rightarrow> 's users_world \<Rightarrow> json" where
  "orders_of_user i page lmt w =
     (let p = or_old page 1; l = or_old lmt 10; os = newest_owned i (uw_orders w); n = int (length os)
      in JObj [(''data'', JArr (map ow_json (page_rows p l os))),
           (''meta'', JObj [(''total'', j_int n), (''page'', j_int p), (''limit'', j_int l), (''totalPages'', j_int (total_pages n l))])])"

definition address_list :: "string \<Rightarrow> address_row list \<Rightarrow> json" where
  "address_list i rows = (let as = addresses_of i rows
     in JObj [(''data'', JArr (map address_view as)), (''total'', j_int (int (length as)))])"

definition get_addresses :: "ms \<Rightarrow> string \<Rightarrow> 's users_world \<Rightarrow> json res \<times> 's users_world" where
  "get_addresses now i w = cached_read now (''user:addresses:'' @ i) USER_TTL [''users'', user_key i, ''user:addresses'']
     (Inr (address_list i (uw_addresses w))) w"

subsection \<open>Writing users\<close>

definition evict_users :: "ms \<Rightarrow> string list \<Rightarrow> 's users_world \<Rightarrow> 's users_world" where
  "evict_users now tags w = w\<lparr>uw_cache := snd (invalidate_by_tags now tags (uw_cache w))\<rparr>"

record create_user_dto =
  cu_email :: string
  cu_username :: string
  cu_password :: string
  cu_firstName :: string
  cu_lastName :: string
  cu_newRole :: "user_role option"

text \<open>The password is hashed and dropped.\<close>

definition create_user_account :: "ms \<Rightarrow> string \<Rightarrow> create_user_dto \<Rightarrow> 's users_world \<Rightarrow> account_row res \<times> 's users_world" where
  "create_user_account now newId dto w =
     (let clerk = ''temp_'' @ nat_text (nat now)
      in if find_by ur_email (cu_email dto) (uw_users w) \<noteq> None \<or> find_by ur_username (Some (cu_username dto)) (uw_users w) \<noteq> None
         then (Inl (BadRequest ''User with this email or username already exists''), w)
         else if find_by ur_clerkId (Some clerk) (uw_users w) \<noteq> None then (Inl (InternalError ''Unique constraint failed''), w)
         else (let r = \<lparr>ur_id = newId, ur_clerkId = Some clerk, ur_email = cu_email dto, ur_username = Some (cu_username dto),
                 ur_firstName = Some (cu_firstName dto), ur_lastName = Some (cu_lastName dto), ur_imageUrl = None, ur_phoneNumber = None,
                 ur_role = or_old (cu_newRole dto) USER, ur_isActive = True, ur_password = None, ur_rest = [],
                 ur_createdAt = now, ur_updatedAt = now\<rparr>
               in (Inr r, w\<lparr>uw_users := uw_users w @ [r]\<rparr>)))"

text \<open>Prisma's \<open>update\<close> by id; the unique columns are checked against the other rows.\<close>

definition db_update_user :: "string \<Rightarrow> (account_row \<Rightarrow> account_row) \<Rightarrow> 's users_world \<Rightarrow> account_row res \<times> 's users_world" where
  "db_update_user i f w =
     (case find_user_row i w of
        None \<Rightarrow> (Inl (InternalError ''No record was found for an update''), w)
      | Some r \<Rightarrow>
          (let others = filter (\<lambda>x. ur_id x \<noteq> i) (uw_users w)
           in if find_by ur_email (ur_email (f r)) others \<noteq> None \<or> ur_username (f r) \<noteq> None \<and> find_by ur_username (ur_username (f r)) others \<noteq> None
              then (Inl (InternalError ''Unique constraint failed''), w)
              else (Inr (f r), w\<lparr>uw_users := update_by ur_id i f (uw_users w)\<rparr>)))"

record update_user_dto =
  uu_email :: "string option"
  uu_username :: "string option"
  uu_password :: "string option"
  uu_firstName :: "string option"
  uu_lastName :: "string option"
  uu_role :: "user_role option"
  uu_isActive :: "bool option"

definition or_keep :: "'a option \<Rightarrow> 'a option \<Rightarrow> 'a option" where
  "or_keep x old = (case x of None \<Rightarrow> old | Some a \<Rightarrow> Some a)"

definition apply_user_update :: "(string \<Rightarrow> string) \<Rightarrow> ms \<Rightarrow> update_user_dto \<Rightarrow> account_row \<Rightarrow> account_row" where
  "apply_user_update hash now p r =
     r\<lparr>ur_email := or_old (uu_email p) (ur_email r), ur_username := or_keep (uu_username p) (ur_username r),
       ur_password := or_keep (map_option (\<lambda>s. if s = [] then s else hash s) (uu_password p)) (ur_password r),
       ur_firstName := or_keep (uu_firstName p) (ur_firstName r), ur_lastName := or_keep (uu_lastName p) (ur_lastName r),
       ur_role := or_old (uu_role p) (ur_role r), ur_isActive := or_old (uu_isActive p) (ur_isActive r), ur_updatedAt := now\<rparr>"

definition update_user_account :: "(string \<Rightarrow> string) \<Rightarrow> ms \<Rightarrow> string \<Rightarrow> update_user_dto \<Rightarrow> current_user \<Rightarrow> 's users_world \<Rightarrow> json res \<times> 's users_world" where
  "update_user_account hash now i p u w =
     (if cu_id u \<noteq> i \<and> \<not> is_admin u then (Inl (Forbidden ''You can only update your own profile''), w)
      else and_then (db_update_user i (apply_user_update hash now p) w) (\<lambda>r w.
        (Inr (JObj (user_names r @ [(''imageUrl'', j_opt j_str (ur_imageUrl r)), (''updatedAt'', j_int (ur_updatedAt r))])),
         evict_users now [''users'', ''users:list'', user_key i] w)))"

definition remove_user :: "ms \<Rightarrow> string \<Rightarrow> 's users_world \<Rightarrow> json res \<times> 's users_world" where
  "remove_user now i w =
     and_then (db_update_user i (\<lambda>r. r\<lparr>ur_isActive := False, ur_updatedAt := now\<rparr>) w) (\<lambda>r w.
       (Inr (JObj [(''id'', j_str (ur_id r)), (''email'', j_str (ur_email r)), (''isActive'', JBool (ur_isActive r))]),
        evict_users now [''users'', ''users:list'', user_key i] w))"

record profile_dto =
  pf_firstName :: "string option"
  pf_lastName :: "string option"
  pf_phone :: "string option"

definition update_profile :: "ms \<Rightarrow> string \<Rightarrow> profile_dto \<Rightarrow> 's users_world \<Rightarrow> json res \<times> 's users_world" where
  "update_profile now i p w =
     and_then (db_update_user i (\<lambda>r. r\<lparr>ur_firstName := or_keep (pf_firstName p) (ur_firstName r), ur_lastName := or_keep (pf_lastName p) (ur_lastName r),
         ur_phoneNumber := or_keep (pf_phone p) (ur_phoneNumber r), ur_updatedAt := now\<rparr>) w) (\<lambda>r w.
       (Inr (JObj [(''id'', j_str (ur_id r)), (''firstName'', j_opt j_str (ur_firstName r)), (''lastName'', j_opt j_str (ur_lastName r)),
          (''phoneNumber'', j_opt j_str (ur_phoneNumber r)), (''updatedAt'', j_int (ur_updatedAt r))]),
        evict_users now [''users'', user_key i] w))"

text \<open>The file of an upload, if there is one, with the name Multer stored it under: none, as it is kept in memory.\<close>

definition upload_avatar :: "ms \<Rightarrow> string \<Rightarrow> string option option \<Rightarrow> 's users_world \<Rightarrow> json res \<times> 's users_world" where
  "upload_avatar now i file w =
     (case file of
        None \<Rightarrow> (Inl (BadRequest ''No file provided''), w)
      | Some name \<Rightarrow>
          and_then (db_update_user i (\<lambda>r. r\<lparr>ur_imageUrl := Some (''/uploads/avatars/'' @ i @ ''/'' @ or_old name ''undefined''), ur_updatedAt := now\<rparr>) w)
            (\<lambda>r w. (Inr (JObj [(''id'', j_str (ur_id r)), (''imageUrl'', j_opt j_str (ur_imageUrl r)), (''updatedAt'', j_int (ur_updatedAt r))]),
               evict_users now [''users'', user_key i] w)))"

definition update_preferences :: "ms \<Rightarrow> string \<Rightarrow> json \<Rightarrow> 's users_world \<Rightarrow> json res \<times> 's users_world" where
  "update_preferences now i prefs w =
     (case find_user_row i w of
        None \<Rightarrow> (Inl user_not_found, w)
      | Some r \<Rightarrow> (Inr (JObj [(''id'', j_str (ur_id r)), (''preferences'', prefs), (''updatedAt'', j_int (ur_updatedAt r))]),
          evict_users now [user_key i, ''user:preferences''] w))"

subsection \<open>Addresses\<close>

record address_dto =
  da_street :: string
  da_city :: string
  da_state :: string
  da_zipCode :: string
  da_country :: string
  da_isDefault :: "bool option"

text \<open>\<open>updateMany\<close>: of the addresses of a user that \<open>p\<close> selects none stays the default.\<close>

definition unset_defaults :: "string \<Rightarrow> (address_row \<Rightarrow> bool) \<Rightarrow> ms \<Rightarrow> address_row list \<Rightarrow> address_row list" where
  "unset_defaults i p now = update_where (\<lambda>a. ad_userId a = i \<and> ad_isDefault a \<and> p a) (\<lambda>a. a\<lparr>ad_isDefault := False, ad_updatedAt := now\<rparr>)"

definition add_address :: "ms \<Rightarrow> string \<Rightarrow> string \<Rightarrow> address_dto \<Rightarrow> 's users_world \<Rightarrow> address_row res \<times> 's users_world" where
  "add_address now newId i dto w =
     (let as = (if da_isDefault dto = Some True then unset_defaults i (\<lambda>a. True) now (uw_addresses w) else uw_addresses w);
          w1 = w\<lparr>uw_addresses := as\<rparr>
      in if find_user_row i w = None then (Inl (InternalError ''Foreign key constraint violated''), w1)
         else (let a = \<lparr>ad_id = newId, ad_userId = i, ad_street1 = da_street dto, ad_city = da_city dto, ad_state = da_state dto,
                 ad_postalCode = da_zipCode dto, ad_country = da_country dto, ad_isDefault = or_old (da_isDefault dto) False,
                 ad_createdAt = now, ad_updatedAt = now\<rparr>
               in (Inr a, evict_users now [user_key i, ''user:addresses''] (w1\<lparr>uw_addresses := as @ [a]\<rparr>))))"

record address_patch =
  ap_street :: "string option"
  ap_city :: "string option"
  ap_state :: "string option"
  ap_zipCode :: "string option"
  ap_country :: "string option"
  ap_isDefault :: "bool option"

text \<open>The body goes to the database as it is, where there are no columns \<open>street\<close> and \<open>zipCode\<close>.\<close>

definition update_address :: "ms \<Rightarrow> string \<Rightarrow> string \<Rightarrow> address_patch \<Rightarrow> 's users_world \<Rightarrow> address_row res \<times> 's users_world" where
  "update_address now i aid p w =
     (case List.find (\<lambda>a. ad_id a = aid \<and> ad_userId a = i) (uw_addresses w) of
        None \<Rightarrow> (Inl (NotFound ''Address not found or does not belong to user''), w)
      | Some a \<Rightarrow>
          (let as = (if ap_isDefault p = Some True then unset_defaults i (\<lambda>x. ad_id x \<noteq> aid) now (uw_addresses w) else uw_addresses w);
               f = (\<lambda>a. a\<lparr>ad_city := or_old (ap_city p) (ad_city a), ad_state := or_old (ap_state p) (ad_state a),
                 ad_country := or_old (ap_country p) (ad_country a), ad_isDefault := or_old (ap_isDefault p) (ad_isDefault a), ad_updatedAt := now\<rparr>)
           in if ap_street p \<noteq> None \<or> ap_zipCode p \<noteq> None then (Inl (InternalError ''Unknown argument''), w\<lparr>uw_addresses := as\<rparr>)
              else (Inr (f a), evict_users now [user_key i, ''user:addresses''] (w\<lparr>uw_addresses := update_by ad_id aid f as\<rparr>))))"

end
