(* ===== verification/User_Facts.thy ===== *)
theory User_Facts
  imports Users
begin

section \<open>What holds of the users\<close>

text \<open>
  The cached view of a user over every sequence of the module's requests; how a user becomes an administrator;
  the unique columns; and the default address.
\<close>

datatype usr_op =
    ListUsers users_query
  | FindUser string current_user
  | CreateUser string create_user_dto
  | UpdateUser string update_user_dto current_user
  | RemoveUser string
  | GetProfile string
  | UpdateProfile string profile_dto
  | UploadAvatar string "string option option"
  | GetPreferences string
  | UpdatePreferences string json
  | GetAddresses string
  | AddAddress string string address_dto
  | UpdateAddress string string address_patch

fun usr_step :: "(string \<Rightarrow> string) \<Rightarrow> ms \<Rightarrow> usr_op \<Rightarrow> 's users_world \<Rightarrow> 's users_world" where
  "usr_step hash now (ListUsers q) w = snd (find_all_users now q w)"
| "usr_step hash now (FindUser i u) w = snd (find_one_user now i u w)"
| "usr_step hash now (CreateUser i dto) w = snd (create_user_account now i dto w)"
| "usr_step hash now (UpdateUser i p u) w = snd (update_user_account hash now i p u w)"
| "usr_step hash now (RemoveUser i) w = snd (remove_user now i w)"
| "usr_step hash now (GetProfile i) w = snd (get_profile now i w)"
| "usr_step hash now (UpdateProfile i p) w = snd (update_profile now i p w)"
| "usr_step hash now (UploadAvatar i file) w = snd (upload_avatar now i file w)"
| "usr_step hash now (GetPreferences i) w = snd (get_user_preferences now i w)"
| "usr_step hash now (UpdatePreferences i j) w = snd (update_preferences now i j w)"
| "usr_step hash now (GetAddresses i) w = snd (get_addresses now i w)"
| "usr_step hash now (AddAddress aid i dto) w = snd (add_address now aid i dto w)"
| "usr_step hash now (UpdateAddress i aid p) w = snd (update_address now i aid p w)"

fun usr_run :: "(string \<Rightarrow> string) \<Rightarrow> ms \<Rightarrow> (ms \<times> usr_op) list \<Rightarrow> 's users_world \<Rightarrow> ms \<times> 's users_world" where
  "usr_run hash now [] w = (now, w)"
| "usr_run hash now ((t, a) # as) w = usr_run hash (max now t) as (usr_step hash (max now t) a w)"

lemma evict_users_simps [simp]:
  "uw_users (evict_users now tags w) = uw_users w" "uw_addresses (evict_users now tags w) = uw_addresses w"
  by (simp_all add: evict_users_def)

lemma cached_read_tables [simp]:
  "uw_users (snd (cached_read now key life tags answer w)) = uw_users w"
  "uw_addresses (snd (cached_read now key life tags answer w)) = uw_addresses w"
  by (auto simp: cached_read_def Let_def split: prod.split sum.split)

lemma db_update_user_others [simp]:
  "uw_cache (snd (db_update_user i f w)) = uw_cache w" "uw_addresses (snd (db_update_user i f w)) = uw_addresses w"
  by (auto simp: db_update_user_def Let_def split: option.split)

subsection \<open>The cached view\<close>

text \<open>An id without a colon, as the ids of the database are: with one, the key of a user can be the key of something else.\<close>

definition plain_id :: "string \<Rightarrow> bool" where
  "plain_id i \<longleftrightarrow> CHR '':'' \<notin> set i"

definition is_user_key :: "string \<Rightarrow> bool" where
  "is_user_key key \<longleftrightarrow> (\<exists>i. plain_id i \<and> key = user_key i)"

definition user_value :: "account_row list \<Rightarrow> string \<Rightarrow> json \<Rightarrow> bool" where
  "user_value us key v \<longleftrightarrow> (\<exists>i r. key = user_key i \<and> find_by ur_id i us = Some r \<and> v = user_view r)"

lemma user_key_inject [simp]: "user_key i = user_key j \<longleftrightarrow> i = j"
  by (simp add: user_key_def)

lemma other_user_keys:
  "\<not> is_user_key (''users:list:'' @ x)" "\<not> is_user_key (''user:profile:'' @ x)" "\<not> is_user_key (''user:preferences:'' @ x)"
  "\<not> is_user_key (''user:addresses:'' @ x)"
proof -
  have "\<not> is_user_key (''user:'' @ a @ '':'' @ x)" for a by (auto simp: is_user_key_def user_key_def plain_id_def)
  from this [of "''profile''"] this [of "''preferences''"] this [of "''addresses''"]
  show "\<not> is_user_key (''user:profile:'' @ x)" "\<not> is_user_key (''user:preferences:'' @ x)" "\<not> is_user_key (''user:addresses:'' @ x)"
    by simp_all
  show "\<not> is_user_key (''users:list:'' @ x)" by (simp add: is_user_key_def user_key_def)
qed

lemmas other_user_keys_text [simp] = other_user_keys [unfolded append.simps]

lemma user_value_other: "user_value us key v \<Longrightarrow> key \<noteq> user_key i \<Longrightarrow> (\<And>r. ur_id (f r) = ur_id r) \<Longrightarrow> user_value (update_by ur_id i f us) key v"
  by (auto simp: user_value_def find_by_update_by)

context redis_server
begin

definition users_coherent :: "ms \<Rightarrow> 's users_world \<Rightarrow> bool" where
  "users_coherent now w = coherent_cache is_user_key (user_value (uw_users w)) (\<lambda>key. {''users'', key}) USER_TTL now (redis (uw_cache w))"

lemma users_coherent_evict_all:
  assumes "users_coherent now w" "uw_cache w' = uw_cache w" "''users'' \<in> set tags"
  shows "users_coherent now (evict_users now tags w')"
  using coherent_cache_evict [OF assms(1) [unfolded users_coherent_def], of tags "user_value (uw_users w')"] assms(2,3)
  by (simp add: users_coherent_def evict_users_def)

lemma users_coherent_evict: "users_coherent now w \<Longrightarrow> users_coherent now (evict_users now tags w)"
  using coherent_cache_evict [of is_user_key "user_value (uw_users w)" _ _ now "uw_cache w" tags "user_value (uw_users w)"]
  by (simp add: users_coherent_def evict_users_def)

lemma users_coherent_other_read:
  assumes "users_coherent now w" "\<not> is_user_key key" "0 < life" "USER_TTL \<le> life + 60"
  shows "users_coherent now (snd (cached_read now key life tags answer w))"
proof -
  obtain v ch where g: "cache_get now key None (uw_cache w) = (v, ch)" by fastforce
  have ch: "redis ch = redis (uw_cache w)" by (rule coherent_cache_get(1) [OF assms(1) [unfolded users_coherent_def] g])
  have "users_coherent now (w\<lparr>uw_cache := ch\<rparr>)" using assms(1) by (simp add: users_coherent_def ch)
  moreover have "users_coherent now (w\<lparr>uw_cache := snd (cache_set now key j (Some life) tags ch)\<rparr>)" for j
    using coherent_cache_set_other [OF assms(1) [unfolded users_coherent_def, folded ch] assms(2-4)] by (simp add: users_coherent_def)
  ultimately show ?thesis by (auto simp: cached_read_def Let_def g split: sum.split)
qed

lemma find_one_user_coherent:
  assumes c: "users_coherent now w" and i: "plain_id i"
  shows "users_coherent now (snd (find_one_user now i u w))"
    "fst (find_one_user now i u w) = (if cu_id u \<noteq> i \<and> \<not> is_admin u then Inl no_own_user
       else case find_user_row i w of None \<Rightarrow> Inl user_not_found | Some r \<Rightarrow> Inr (user_view r))"
proof -
  let ?key = "user_key i"
  obtain v ch where g: "cache_get now ?key None (uw_cache w) = (v, ch)" by fastforce
  have k: "is_user_key ?key" using i by (auto simp: is_user_key_def)
  have ch: "redis ch = redis (uw_cache w)" "v = JNull \<or> user_value (uw_users w) ?key v"
    using coherent_cache_get [OF c [unfolded users_coherent_def] g] k by auto
  have v: "json_truthy v \<longleftrightarrow> v \<noteq> JNull" using ch(2) by (auto simp: user_value_def user_view_def)
  have 1: "users_coherent now (w\<lparr>uw_cache := ch\<rparr>)" using c by (simp add: users_coherent_def ch)
  have 2: "users_coherent now (w\<lparr>uw_cache := snd (cache_set now ?key (user_view r) (Some USER_TTL) [''users'', ?key] ch)\<rparr>)"
    if "find_user_row i w = Some r" for r
    using coherent_cache_set [OF c [unfolded users_coherent_def, folded ch(1)], of ?key "user_view r" "[''users'', ?key]"] that
    by (auto simp: users_coherent_def USER_TTL_def user_value_def find_user_row_def)
  show "users_coherent now (snd (find_one_user now i u w))"
    using 1 2 c by (auto simp: find_one_user_def cached_read_def Let_def g split: option.split)
  show "fst (find_one_user now i u w) = (if cu_id u \<noteq> i \<and> \<not> is_admin u then Inl no_own_user
       else case find_user_row i w of None \<Rightarrow> Inl user_not_found | Some r \<Rightarrow> Inr (user_view r))"
    using ch(2) by (auto simp: find_one_user_def cached_read_def Let_def g v user_value_def find_user_row_def split: option.split)
qed

text \<open>An update by id, after which everything of the users is invalidated.\<close>

lemma users_coherent_update:
  assumes "users_coherent now w" "''users'' \<in> set tags"
  shows "users_coherent now (snd (and_then (db_update_user i f w) (\<lambda>r w. (Inr (g r), evict_users now tags w))))"
proof -
  have "users_coherent now (snd (db_update_user i f w))" if "fst (db_update_user i f w) = Inl e" for e
    using that assms(1) by (auto simp: db_update_user_def Let_def split: option.splits if_splits)
  then show ?thesis
    using users_coherent_evict_all [OF assms(1) _ assms(2), of "snd (db_update_user i f w)"] by (simp add: snd_and_then_Inr split: sum.split)
qed

lemma users_coherent_addresses: "users_coherent now (w\<lparr>uw_addresses := as\<rparr>) = users_coherent now w"
  by (simp add: users_coherent_def)

lemma usr_step_coherent:
  assumes c: "users_coherent now w" and ids: "case a of FindUser i u \<Rightarrow> plain_id i | _ \<Rightarrow> True"
  shows "users_coherent now (usr_step hash now a w)"
proof (cases a)
  case (CreateUser i dto)
  have "user_value (us @ us') key v" if "user_value us key v" for us us' key v using that by (auto simp: user_value_def)
  then have "users_coherent now (w\<lparr>uw_users := uw_users w @ us\<rparr>)" for us
    using c coherent_cache_mono [of is_user_key "user_value (uw_users w)"] by (simp add: users_coherent_def)
  then show ?thesis using c by (simp add: CreateUser create_user_account_def Let_def)
next
  case (UpdateUser i p u)
  have "users_coherent now (snd (and_then (db_update_user i f w) (\<lambda>r w. (Inr (g r), evict_users now [''users'', ''users:list'', user_key i] w))))" for f and g :: "account_row \<Rightarrow> json"
    by (rule users_coherent_update [OF c]) simp
  then show ?thesis using c by (simp add: UpdateUser update_user_account_def)
next
  case (RemoveUser i)
  show ?thesis unfolding RemoveUser usr_step.simps remove_user_def by (rule users_coherent_update [OF c]) simp
next
  case (UpdateProfile i p)
  show ?thesis unfolding UpdateProfile usr_step.simps update_profile_def by (rule users_coherent_update [OF c]) simp
next
  case (UploadAvatar i fl)
  have "users_coherent now (snd (and_then (db_update_user i f w) (\<lambda>r w. (Inr (g r), evict_users now [''users'', user_key i] w))))" for f and g :: "account_row \<Rightarrow> json"
    by (rule users_coherent_update [OF c]) simp
  then show ?thesis using c by (simp add: UploadAvatar upload_avatar_def split: option.split)
next
  case (UpdatePreferences i j)
  then show ?thesis using users_coherent_evict [OF c] c by (simp add: update_preferences_def split: option.split)
next
  case (AddAddress aid i dto)
  then show ?thesis using c by (simp add: add_address_def Let_def users_coherent_addresses users_coherent_evict)
next
  case (UpdateAddress i aid p)
  then show ?thesis using c by (simp add: update_address_def Let_def users_coherent_addresses users_coherent_evict split: option.split)
qed (use ids find_one_user_coherent(1) [OF c] users_coherent_other_read [OF c] in
      \<open>simp_all add: find_all_users_def get_profile_def get_user_preferences_def get_addresses_def USER_TTL_def USER_PREFERENCES_TTL_def\<close>)

lemma usr_run_coherent:
  assumes "users_coherent now w" "\<forall>(t, a) \<in> set as. case a of FindUser i u \<Rightarrow> plain_id i | _ \<Rightarrow> True"
  shows "users_coherent (fst (usr_run hash now as w)) (snd (usr_run hash now as w))"
  using assms
proof (induction "as" arbitrary: now w)
  case (Cons e as)
  obtain t a where e: "e = (t, a)" by fastforce
  have "users_coherent (max now t) w"
    using Cons.prems(1) unfolding users_coherent_def by (rule coherent_cache_later) simp
  then have "users_coherent (max now t) (usr_step hash (max now t) a w)" using Cons.prems(2) e by (intro usr_step_coherent) auto
  then show ?case using Cons e by simp
qed simp

end

text \<open>Over every sequence of requests to the module, a user is shown to himself and to administrators only,
  and as the table has him, whatever is cached.\<close>

theorem user_reads_fresh:
  fixes w :: "'s users_world"
  assumes "redis_server c view" "redis_server.up c (redis (uw_cache w))"
    and "\<forall>u k. redis_get (redis (uw_cache w)) u (build_key k None) = JNull"
    and "\<forall>u t. redis_get (redis (uw_cache w)) u (build_tag_key t) = JNull"
    and "\<forall>(t, a) \<in> set as. case a of FindUser i u \<Rightarrow> plain_id i | _ \<Rightarrow> True"
    and "usr_run hash start as w = (now, w')" "plain_id i"
  shows "fst (find_one_user now i u w') = (if cu_id u \<noteq> i \<and> \<not> is_admin u then Inl no_own_user
    else case find_user_row i w' of None \<Rightarrow> Inl user_not_found | Some r \<Rightarrow> Inr (user_view r))"
proof -
  have "redis_server.users_coherent c start w"
    using assms(2-4) by (simp add: redis_server.users_coherent_def [OF assms(1)] redis_server.coherent_cache_empty [OF assms(1)])
  from redis_server.usr_run_coherent [OF assms(1) this assms(5), of hash]
  have "redis_server.users_coherent c now w'" by (simp add: assms(6))
  then show ?thesis using assms(7) by (rule redis_server.find_one_user_coherent(2) [OF assms(1)])
qed

subsection \<open>Unique columns\<close>

definition users_unique :: "account_row list \<Rightarrow> bool" where
  "users_unique us \<longleftrightarrow> distinct (map ur_id us) \<and> distinct (map ur_email us) \<and>
     distinct (map ur_username (filter (\<lambda>r. ur_username r \<noteq> None) us)) \<and> distinct (map ur_clerkId (filter (\<lambda>r. ur_clerkId r \<noteq> None) us))"

text \<open>The columns nobody changes.\<close>

definition user_head :: "account_row \<Rightarrow> string \<times> string option \<times> ms" where
  "user_head r = (ur_id r, ur_clerkId r, ur_createdAt r)"

lemma user_head_update [simp]: "user_head (apply_user_update hash now p r) = user_head r"
  by (simp add: user_head_def apply_user_update_def)

lemma users_unique_update:
  assumes "users_unique (uw_users w)" "\<And>r. user_head (f r) = user_head r"
  shows "users_unique (uw_users (snd (db_update_user i f w)))"
proof -
  note ids = assms(1) [unfolded users_unique_def]
  have f: "ur_id (f r) = ur_id r" "ur_clerkId (f r) = ur_clerkId r" for r using assms(2) [of r] by (simp_all add: user_head_def)
  have "users_unique (update_by ur_id i f (uw_users w))" if r: "find_user_row i w = Some r"
    and e: "find_by ur_email (ur_email (f r)) (filter (\<lambda>x. ur_id x \<noteq> i) (uw_users w)) = None"
    and n: "ur_username (f r) \<noteq> None \<Longrightarrow> find_by ur_username (ur_username (f r)) (filter (\<lambda>x. ur_id x \<noteq> i) (uw_users w)) = None" for r
  proof -
    have only: "x = r" if "x \<in> set (uw_users w)" "ur_id x = i" for x
      using find_by_distinct [of ur_id "uw_users w" x] ids that r by (simp add: find_user_row_def)
    have em: "ur_email x \<noteq> ur_email (f r)" if "x \<in> set (uw_users w)" "ur_id x \<noteq> i" for x
      using e that by (simp add: find_by_None_iff image_iff) metis
    have un: "ur_username x \<noteq> ur_username (f r)" if "x \<in> set (uw_users w)" "ur_id x \<noteq> i" "ur_username (f r) \<noteq> None" for x
      using n that by (simp add: find_by_None_iff image_iff) metis
    have "distinct (map ur_email (filter (\<lambda>_. True) (update_by ur_id i f (uw_users w))))"
      using ids em only by (intro distinct_update_by) auto
    moreover have "distinct (map ur_username (filter (\<lambda>r. ur_username r \<noteq> None) (update_by ur_id i f (uw_users w))))"
      using ids un only by (intro distinct_update_by) auto
    moreover have "map ur_id (update_by ur_id i f (uw_users w)) = map ur_id (uw_users w)" using f by (simp add: keys_update_by)
    moreover have "map ur_clerkId (filter (\<lambda>r. ur_clerkId r \<noteq> None) (update_by ur_id i f us)) = map ur_clerkId (filter (\<lambda>r. ur_clerkId r \<noteq> None) us)" for us
      using f by (induction us) auto
    ultimately show ?thesis using ids by (simp add: users_unique_def)
  qed
  then show ?thesis using assms(1) by (auto simp: db_update_user_def Let_def split: option.split)
qed

text \<open>An update of the row with one key, as the answer and the table show it.\<close>

lemma db_update_user_Inr:
  "db_update_user i f w = (Inr r, w') \<Longrightarrow> \<exists>a. find_user_row i w = Some a \<and> r = f a \<and> w' = w\<lparr>uw_users := update_by ur_id i f (uw_users w)\<rparr>"
  by (auto simp: db_update_user_def Let_def split: option.splits if_splits)

lemma find_updated_user:
  "(\<And>r. ur_id (f r) = ur_id r) \<Longrightarrow> find_user_row j (w\<lparr>uw_users := update_by ur_id i f us\<rparr>) =
     (if j = i then map_option f (find_by ur_id i us) else find_by ur_id j us)"
  by (simp add: find_user_row_def find_by_update_by)

lemma same_mail_passes:
  assumes "users_unique (uw_users w)" "find_user_row i w = Some a" "ur_email (f a) = ur_email a" "ur_username (f a) = ur_username a"
  shows "db_update_user i f w = (Inr (f a), w\<lparr>uw_users := update_by ur_id i f (uw_users w)\<rparr>)"
proof -
  note ids = assms(1) [unfolded users_unique_def]
  have a: "a \<in> set (uw_users w)" "ur_id a = i" using find_by_SomeD [OF assms(2) [unfolded find_user_row_def]] by simp_all
  have "ur_email a \<noteq> ur_email x" if "x \<in> set (uw_users w)" "ur_id x \<noteq> i" for x
    using ids a that by (metis inj_onD distinct_map)
  moreover have "ur_username a \<noteq> ur_username x" if "x \<in> set (uw_users w)" "ur_id x \<noteq> i" "ur_username a \<noteq> None" for x
  proof
    assume e: "ur_username a = ur_username x"
    have "inj_on ur_username (set (filter (\<lambda>r. ur_username r \<noteq> None) (uw_users w)))"
      using ids unfolding distinct_map by blast
    then have "a = x" using e that a by (rule_tac inj_onD [of ur_username "set (filter (\<lambda>r. ur_username r \<noteq> None) (uw_users w))"]) auto
    then show False using that a by simp
  qed
  ultimately show ?thesis
    using assms(2-4) by (auto simp: db_update_user_def Let_def find_by_None_iff image_iff)
qed

subsection \<open>Roles\<close>

text \<open>C8. A user of any role who sends two requests with his own token has the password of anybody else: the
  first makes him SUPER_ADMIN, which the strategy reads from the table, and the second sets the password.\<close>

theorem user_takes_over:
  assumes "users_unique (uw_users w)" "find_user_row a w = Some ra" "find_user_row v w = Some rv" "a \<noteq> v"
    and p1: "p1 = \<lparr>uu_email = None, uu_username = None, uu_password = None, uu_firstName = None, uu_lastName = None,
      uu_role = Some SUPER_ADMIN, uu_isActive = None\<rparr>"
    and p2: "p2 = \<lparr>uu_email = None, uu_username = None, uu_password = Some pw, uu_firstName = None, uu_lastName = None,
      uu_role = None, uu_isActive = None\<rparr>" "pw \<noteq> []"
  shows "\<exists>u j1 w1 u1 j2 w2. validate_caller a w = Inr u \<and> update_user_account hash now a p1 u w = (Inr j1, w1) \<and>
    validate_caller a w1 = Inr u1 \<and> update_user_account hash later v p2 u1 w1 = (Inr j2, w2) \<and>
    find_user_row v w2 = Some (rv\<lparr>ur_password := Some (hash pw), ur_updatedAt := later\<rparr>)"
proof -
  let ?f = "apply_user_update hash now p1"
  let ?g = "apply_user_update hash later p2"
  let ?tags = "\<lambda>i. [''users'', ''users:list'', user_key i]"
  let ?w = "w\<lparr>uw_users := update_by ur_id a ?f (uw_users w)\<rparr>"
  let ?w1 = "evict_users now (?tags a) ?w"
  have id: "ur_id (?f r) = ur_id r" "ur_id (?g r) = ur_id r" for r by (simp_all add: apply_user_update_def)
  have a: "ur_id ra = a" using find_by_SomeD [OF assms(2) [unfolded find_user_row_def]] by simp
  have f: "db_update_user a ?f w = (Inr (?f ra), ?w)"
    using assms(1,2) by (intro same_mail_passes) (simp_all add: apply_user_update_def p1 or_old_def or_keep_def)
  have ev: "find_user_row i (evict_users t tags w') = find_user_row i w'" for i t tags and w' :: "'a users_world"
    by (simp add: find_user_row_def)
  have ra: "find_user_row a ?w1 = Some (?f ra)" and rv: "find_user_row v ?w1 = Some rv"
    using assms(2-4) by (simp_all add: ev find_updated_user id flip: find_user_row_def)
  have "users_unique (uw_users (snd (db_update_user a ?f w)))" by (rule users_unique_update [OF assms(1)]) simp
  then have "users_unique (uw_users ?w1)" by (simp add: f)
  then have g: "db_update_user v ?g ?w1 = (Inr (?g rv), ?w1\<lparr>uw_users := update_by ur_id v ?g (uw_users ?w1)\<rparr>)"
    using rv by (intro same_mail_passes) (simp_all add: apply_user_update_def p2 or_old_def or_keep_def)
  have "validate_caller a w = Inr \<lparr>cu_id = a, cu_role = ur_role ra\<rparr>" using assms(2) a by (simp add: validate_caller_def)
  moreover have "\<exists>j1. update_user_account hash now a p1 \<lparr>cu_id = a, cu_role = ur_role ra\<rparr> w = (Inr j1, ?w1)" by (simp add: update_user_account_def f)
  moreover have "validate_caller a ?w1 = Inr \<lparr>cu_id = a, cu_role = SUPER_ADMIN\<rparr>"
    using ra a by (simp add: validate_caller_def) (simp add: apply_user_update_def p1 or_old_def)
  moreover obtain j2 w2 where u2: "update_user_account hash later v p2 \<lparr>cu_id = a, cu_role = SUPER_ADMIN\<rparr> ?w1 = (Inr j2, w2)"
    "w2 = evict_users later (?tags v) (?w1\<lparr>uw_users := update_by ur_id v ?g (uw_users ?w1)\<rparr>)"
    by (simp add: update_user_account_def g is_admin_def)
  moreover have "find_user_row v w2 = Some (?g rv)"
    unfolding u2(2) ev using rv by (subst find_updated_user [OF id(2)]) (simp add: find_user_row_def)
  moreover have "?g rv = rv\<lparr>ur_password := Some (hash pw), ur_updatedAt := later\<rparr>"
    by (simp add: apply_user_update_def p2 or_old_def or_keep_def)
  ultimately show ?thesis by metis
qed

subsection \<open>Default addresses\<close>

definition one_default :: "address_row list \<Rightarrow> bool" where
  "one_default as \<longleftrightarrow> distinct (map ad_id as) \<and>
     (\<forall>a \<in> set as. \<forall>b \<in> set as. ad_userId a = ad_userId b \<and> ad_isDefault a \<and> ad_isDefault b \<longrightarrow> ad_id a = ad_id b)"

lemma set_unset_defaults:
  "set (unset_defaults i p now as) = (\<lambda>a. if ad_userId a = i \<and> ad_isDefault a \<and> p a then a\<lparr>ad_isDefault := False, ad_updatedAt := now\<rparr> else a) ` set as"
  by (simp add: unset_defaults_def set_update_where)

lemma ids_unset_defaults [simp]: "map ad_id (unset_defaults i p now as) = map ad_id as"
  unfolding unset_defaults_def by (rule keys_update_where) simp

lemma id_set_unset_defaults [simp]: "ad_id ` set (unset_defaults i p now as) = ad_id ` set as"
proof -
  have "set (map ad_id (unset_defaults i p now as)) = set (map ad_id as)" by (simp only: ids_unset_defaults)
  then show ?thesis by (simp only: set_map)
qed

lemma default_unset: "a \<in> set (unset_defaults i p now as) \<Longrightarrow> ad_isDefault a \<Longrightarrow> a \<in> set as \<and> (ad_userId a = i \<longrightarrow> \<not> p a)"
  by (auto simp: set_unset_defaults split: if_splits)

lemma one_defaultI:
  assumes "distinct (map ad_id as)"
    "\<And>a b. a \<in> set as \<Longrightarrow> b \<in> set as \<Longrightarrow> ad_userId a = ad_userId b \<Longrightarrow> ad_isDefault a \<Longrightarrow> ad_isDefault b \<Longrightarrow> ad_id a = ad_id b"
  shows "one_default as"
  unfolding one_default_def using assms by blast

lemma one_defaultD:
  "one_default as \<Longrightarrow> a \<in> set as \<Longrightarrow> b \<in> set as \<Longrightarrow> ad_userId a = ad_userId b \<Longrightarrow> ad_isDefault a \<Longrightarrow> ad_isDefault b \<Longrightarrow> ad_id a = ad_id b"
  "one_default as \<Longrightarrow> distinct (map ad_id as)"
  unfolding one_default_def by blast+

lemma one_default_unset:
  assumes "one_default as"
  shows "one_default (unset_defaults i p now as)"
proof (rule one_defaultI)
  show "distinct (map ad_id (unset_defaults i p now as))" unfolding ids_unset_defaults by (rule one_defaultD(2) [OF assms])
qed (use default_unset one_defaultD(1) [OF assms] in blast)

lemma one_default_add:
  assumes "one_default as" "ad_id a \<notin> ad_id ` set as" "\<And>b. b \<in> set as \<Longrightarrow> ad_userId b = ad_userId a \<Longrightarrow> ad_isDefault a \<Longrightarrow> \<not> ad_isDefault b"
  shows "one_default (as @ [a])"
proof (rule one_defaultI)
  show "distinct (map ad_id (as @ [a]))" using one_defaultD(2) [OF assms(1)] assms(2) by simp
  show "ad_id x = ad_id y" if "x \<in> set (as @ [a])" "y \<in> set (as @ [a])" "ad_userId x = ad_userId y" "ad_isDefault x" "ad_isDefault y" for x y
    using that assms(3) [of x] assms(3) [of y] one_defaultD(1) [OF assms(1), of x y] by (cases "x = a"; cases "y = a") auto
qed

lemma one_default_update:
  assumes "one_default as" "\<And>a. ad_id (f a) = ad_id a" "\<And>a. ad_userId (f a) = ad_userId a"
    "\<And>a b. a \<in> set as \<Longrightarrow> ad_id a = i \<Longrightarrow> ad_isDefault (f a) \<Longrightarrow> b \<in> set as \<Longrightarrow> ad_userId b = ad_userId a \<Longrightarrow> ad_isDefault b \<Longrightarrow> ad_id b = i"
  shows "one_default (update_by ad_id i f as)"
proof (rule one_defaultI)
  have "map ad_id (update_by ad_id i f as) = map ad_id as" using assms(2) by (simp add: keys_update_by)
  then show "distinct (map ad_id (update_by ad_id i f as))" using one_defaultD(2) [OF assms(1)] by simp
  fix x y
  assume h: "x \<in> set (update_by ad_id i f as)" "y \<in> set (update_by ad_id i f as)" "ad_userId x = ad_userId y" "ad_isDefault x" "ad_isDefault y"
  obtain x' where x: "x' \<in> set as" "x = (if ad_id x' = i then f x' else x')" using h(1) by (auto simp: update_by_def set_update_where)
  obtain y' where y: "y' \<in> set as" "y = (if ad_id y' = i then f y' else y')" using h(2) by (auto simp: update_by_def set_update_where)
  have users: "ad_userId x' = ad_userId y'" using h(3) x(2) y(2) assms(3) by (simp split: if_splits)
  have ids: "ad_id x = ad_id x'" "ad_id y = ad_id y'" using x(2) y(2) assms(2) by simp_all
  have "ad_id x' = ad_id y'"
  proof (cases "ad_id x' = i"; cases "ad_id y' = i")
    assume c: "ad_id x' = i" "ad_id y' \<noteq> i"
    then show ?thesis using assms(4) [OF x(1) c(1) _ y(1)] x(2) y(2) h(4,5) users by simp
  next
    assume c: "ad_id x' \<noteq> i" "ad_id y' = i"
    then show ?thesis using assms(4) [OF y(1) c(2) _ x(1)] x(2) y(2) h(4,5) users by simp
  next
    assume "ad_id x' \<noteq> i" "ad_id y' \<noteq> i"
    then show ?thesis using one_defaultD(1) [OF assms(1) x(1) y(1) users] x(2) y(2) h(4,5) by simp
  qed simp
  then show "ad_id x = ad_id y" by (simp add: ids)
qed

fun new_addresses :: "(ms \<times> usr_op) list \<Rightarrow> string list" where
  "new_addresses [] = []"
| "new_addresses ((t, AddAddress aid i dto) # as) = aid # new_addresses as"
| "new_addresses (_ # as) = new_addresses as"

lemma new_addresses_Cons: "new_addresses (e # as) = new_addresses [e] @ new_addresses as"
  by (cases e; cases "snd e") auto

lemma addresses_step:
  assumes "one_default (uw_addresses w)" "set (new_addresses [(t, a)]) \<inter> ad_id ` set (uw_addresses w) = {}"
  shows "one_default (uw_addresses (usr_step hash now a w)) \<and>
    ad_id ` set (uw_addresses (usr_step hash now a w)) \<subseteq> ad_id ` set (uw_addresses w) \<union> set (new_addresses [(t, a)])"
proof (cases a)
  case (AddAddress aid i dto)
  let ?as = "if da_isDefault dto = Some True then unset_defaults i (\<lambda>a. True) now (uw_addresses w) else uw_addresses w"
  let ?a = "\<lparr>ad_id = aid, ad_userId = i, ad_street1 = da_street dto, ad_city = da_city dto, ad_state = da_state dto,
     ad_postalCode = da_zipCode dto, ad_country = da_country dto, ad_isDefault = or_old (da_isDefault dto) False,
     ad_createdAt = now, ad_updatedAt = now\<rparr>"
  have ids: "ad_id ` set ?as = ad_id ` set (uw_addresses w)" by simp
  have "one_default ?as" using assms(1) one_default_unset by simp
  moreover have "one_default (?as @ [?a])"
    using calculation assms(2) ids by (intro one_default_add)
      (auto simp: AddAddress or_old_def split: option.splits dest: default_unset)
  ultimately show ?thesis using ids by (simp add: AddAddress add_address_def Let_def split: if_splits) auto
next
  case (UpdateAddress i aid p)
  let ?as = "if ap_isDefault p = Some True then unset_defaults i (\<lambda>x. ad_id x \<noteq> aid) now (uw_addresses w) else uw_addresses w"
  let ?f = "\<lambda>a. a\<lparr>ad_city := or_old (ap_city p) (ad_city a), ad_state := or_old (ap_state p) (ad_state a),
     ad_country := or_old (ap_country p) (ad_country a), ad_isDefault := or_old (ap_isDefault p) (ad_isDefault a), ad_updatedAt := now\<rparr>"
  have ids: "ad_id ` set ?as = ad_id ` set (uw_addresses w)" by simp
  have ok: "one_default ?as" using assms(1) one_default_unset by simp
  have "one_default (update_by ad_id aid ?f ?as)"
    if found: "List.find (\<lambda>a. ad_id a = aid \<and> ad_userId a = i) (uw_addresses w) = Some r" for r
  proof (rule one_default_update [OF ok])
    have r: "r \<in> set (uw_addresses w)" "ad_id r = aid" "ad_userId r = i" using found by (auto simp: find_Some_iff)
    fix x y
    assume x: "x \<in> set ?as" "ad_id x = aid" "ad_isDefault (?f x)" and y: "y \<in> set ?as" "ad_userId y = ad_userId x" "ad_isDefault y"
    show "ad_id y = aid"
    proof (cases "ap_isDefault p = Some True")
      case True
      obtain x' where x': "x' \<in> set (uw_addresses w)" "ad_id x' = aid" "ad_userId x' = ad_userId x"
        using x(1,2) True by (auto simp: set_unset_defaults split: if_splits)
      then have "ad_userId x = i" using r one_defaultD(2) [OF assms(1)] by (metis distinct_map inj_onD)
      then show ?thesis using y True default_unset [of y i "\<lambda>x. ad_id x \<noteq> aid" now "uw_addresses w"] by auto
    next
      case False
      then have "ad_isDefault x" using x(3) by (auto simp: or_old_def split: option.splits)
      then show ?thesis using one_defaultD(1) [OF ok x(1) y(1)] x y by simp
    qed
  qed simp_all
  moreover have "ad_id ` set (update_by ad_id aid ?f ?as) = ad_id ` set ?as"
    using arg_cong [OF keys_update_by [of ad_id ?f aid ?as], of set] by simp
  moreover have "uw_addresses (usr_step hash now a w) = (case List.find (\<lambda>a. ad_id a = aid \<and> ad_userId a = i) (uw_addresses w) of
      None \<Rightarrow> uw_addresses w | Some r \<Rightarrow> if ap_street p \<noteq> None \<or> ap_zipCode p \<noteq> None then ?as else update_by ad_id aid ?f ?as)"
    by (simp add: UpdateAddress update_address_def Let_def split: option.split)
  ultimately show ?thesis using ok ids assms(1) by (cases "List.find (\<lambda>a. ad_id a = aid \<and> ad_userId a = i) (uw_addresses w)") auto
qed (use assms(1) in \<open>simp_all add: find_all_users_def find_one_user_def get_profile_def get_user_preferences_def get_addresses_def
      create_user_account_def Let_def update_user_account_def remove_user_def update_profile_def upload_avatar_def update_preferences_def snd_and_then_Inr split: option.split sum.split\<close>)

text \<open>C25. Over every sequence of requests, with the failing ones, no user has two default addresses.\<close>

theorem one_default_address:
  assumes "one_default (uw_addresses w)" "distinct (map ad_id (uw_addresses w) @ new_addresses as)" "usr_run hash start as w = (now, w')"
  shows "one_default (uw_addresses w')"
  using assms
proof (induction "as" arbitrary: start w)
  case (Cons e as)
  obtain t a where e: "e = (t, a)" by fastforce
  let ?w = "usr_step hash (max start t) a w"
  have "set (new_addresses [(t, a)]) \<inter> ad_id ` set (uw_addresses w) = {}" using Cons.prems(2) new_addresses_Cons [of e "as"] e by auto
  note s = addresses_step [OF Cons.prems(1) this, of hash "max start t"]
  have "distinct (map ad_id (uw_addresses ?w) @ new_addresses as)"
    using s one_defaultD(2) [of "uw_addresses ?w"] Cons.prems(2) new_addresses_Cons [of e "as"] e by auto
  then show ?case using s Cons.prems(3) by (intro Cons.IH [of ?w "max start t"]) (simp_all add: e)
qed simp

text \<open>Making an address the default together with a new street fails, after the other addresses have ceased
  to be the default: the user is left without one, and his cached list still shows the old.\<close>

theorem failed_update_loses_default:
  assumes "one_default (uw_addresses w)" "x \<in> set (uw_addresses w)" "ad_userId x = i" "ad_id x = aid" "\<not> ad_isDefault x"
    "ap_isDefault p = Some True" "ap_street p \<noteq> None \<or> ap_zipCode p \<noteq> None"
    "update_address now i aid p w = (r, w')"
  shows "r = Inl (InternalError ''Unknown argument'') \<and> (\<forall>a \<in> set (uw_addresses w'). ad_userId a = i \<longrightarrow> \<not> ad_isDefault a) \<and>
    uw_cache w' = uw_cache w"
proof -
  obtain y where y: "List.find (\<lambda>a. ad_id a = aid \<and> ad_userId a = i) (uw_addresses w) = Some y"
    using assms(2-4) by (cases "List.find (\<lambda>a. ad_id a = aid \<and> ad_userId a = i) (uw_addresses w)") (auto simp: find_None_iff)
  have w': "r = Inl (InternalError ''Unknown argument'')" "w' = w\<lparr>uw_addresses := unset_defaults i (\<lambda>x. ad_id x \<noteq> aid) now (uw_addresses w)\<rparr>"
    using assms(6-8) y by (auto simp: update_address_def Let_def)
  have "\<not> ad_isDefault a" if a: "a \<in> set (uw_addresses w')" "ad_userId a = i" for a
  proof
    assume d: "ad_isDefault a"
    then have "a \<in> set (uw_addresses w)" "ad_id a = aid" using default_unset [of a i] a by (auto simp: w'(2))
    then have "a = x" using one_defaultD(2) [OF assms(1)] assms(2,4) by (metis distinct_map inj_onD)
    then show False using d assms(5) by simp
  qed
  then show ?thesis by (simp add: w')
qed

subsection \<open>Instances\<close>

definition demo_user_row :: "string \<Rightarrow> account_row" where
  "demo_user_row i = \<lparr>ur_id = i, ur_clerkId = None, ur_email = i @ ''@x'', ur_username = None, ur_firstName = None, ur_lastName = None,
     ur_imageUrl = None, ur_phoneNumber = None, ur_role = USER, ur_isActive = True, ur_password = None, ur_rest = [],
     ur_createdAt = 0, ur_updatedAt = 0\<rparr>"

definition demo_home :: "string \<Rightarrow> bool \<Rightarrow> address_row" where
  "demo_home i d = \<lparr>ad_id = i, ad_userId = ''ana'', ad_street1 = ''Main 1'', ad_city = ''Cebu'', ad_state = ''C'', ad_postalCode = ''6000'',
     ad_country = ''PH'', ad_isDefault = d, ad_createdAt = 0, ad_updatedAt = 0\<rparr>"

definition demo_users :: "mem users_world" where
  "demo_users = \<lparr>uw_users = [demo_user_row ''ana'', demo_user_row ''ben''], uw_addresses = [demo_home ''a1'' True, demo_home ''a2'' False],
     uw_devices = [], uw_orders = [], uw_cache = mem_cache\<rparr>"

definition no_change :: update_user_dto where
  "no_change = \<lparr>uu_email = None, uu_username = None, uu_password = None, uu_firstName = None, uu_lastName = None, uu_role = None, uu_isActive = None\<rparr>"

lemma demo_users_simps [simp]:
  "uw_cache demo_users = mem_cache" "uw_users demo_users = [demo_user_row ''ana'', demo_user_row ''ben'']"
  "uw_addresses demo_users = [demo_home ''a1'' True, demo_home ''a2'' False]"
  by (simp_all add: demo_users_def)

theorem user_reads_fresh_witness:
  "\<exists>now w'. usr_run id 0 [(1, FindUser ''ana'' \<lparr>cu_id = ''ana'', cu_role = USER\<rparr>), (2, UpdateProfile ''ana'' \<lparr>pf_firstName = Some ''Ana'', pf_lastName = None,
        pf_phone = None\<rparr>)] demo_users = (now, w') \<and>
     fst (find_one_user now ''ana'' \<lparr>cu_id = ''ana'', cu_role = USER\<rparr> w') =
       Inr (user_view (demo_user_row ''ana''\<lparr>ur_firstName := Some ''Ana'', ur_updatedAt := 2\<rparr>))"
proof -
  let ?u = "\<lparr>cu_id = ''ana'', cu_role = USER\<rparr>"
  let ?as = "[(1, FindUser ''ana'' ?u), (2, UpdateProfile ''ana'' \<lparr>pf_firstName = Some ''Ana'', pf_lastName = None, pf_phone = None\<rparr>)]"
  obtain now w' where r: "usr_run id 0 ?as demo_users = (now, w')" by fastforce
  have "uw_users (snd (find_one_user 1 ''ana'' ?u demo_users)) = [demo_user_row ''ana'', demo_user_row ''ben'']" by (simp add: find_one_user_def)
  then have "find_user_row ''ana'' w' = Some (demo_user_row ''ana''\<lparr>ur_firstName := Some ''Ana'', ur_updatedAt := 2\<rparr>)"
    using r by (auto simp: update_profile_def db_update_user_def find_user_row_def Let_def demo_user_row_def or_keep_def)
  then show ?thesis
    using user_reads_fresh [OF mem.redis_server_axioms _ _ _ _ r, of "''ana''" ?u] r by (simp add: mem_get_null plain_id_def)
qed

theorem user_takes_over_witness:
  "\<exists>j1 w1 u1 j2 w2. update_user_account id 5 ''ben'' (no_change\<lparr>uu_role := Some SUPER_ADMIN\<rparr>) \<lparr>cu_id = ''ben'', cu_role = USER\<rparr> demo_users = (Inr j1, w1) \<and>
     validate_caller ''ben'' w1 = Inr u1 \<and> update_user_account id 6 ''ana'' (no_change\<lparr>uu_password := Some ''pw''\<rparr>) u1 w1 = (Inr j2, w2) \<and>
     Option.bind (find_user_row ''ana'' w2) ur_password = Some ''pw''"
proof -
  have u: "users_unique (uw_users demo_users)" by (simp add: users_unique_def demo_user_row_def)
  have b: "find_user_row ''ben'' demo_users = Some (demo_user_row ''ben'')" "find_user_row ''ana'' demo_users = Some (demo_user_row ''ana'')"
    by (simp_all add: find_user_row_def demo_user_row_def)
  obtain u0 j1 w1 u1 j2 w2 where h: "validate_caller ''ben'' demo_users = Inr u0"
    "update_user_account id 5 ''ben'' (no_change\<lparr>uu_role := Some SUPER_ADMIN\<rparr>) u0 demo_users = (Inr j1, w1)" "validate_caller ''ben'' w1 = Inr u1"
    "update_user_account id 6 ''ana'' (no_change\<lparr>uu_password := Some ''pw''\<rparr>) u1 w1 = (Inr j2, w2)"
    "find_user_row ''ana'' w2 = Some (demo_user_row ''ana''\<lparr>ur_password := Some (id ''pw''), ur_updatedAt := 6\<rparr>)"
    using user_takes_over [OF u b, of "no_change\<lparr>uu_role := Some SUPER_ADMIN\<rparr>" "no_change\<lparr>uu_password := Some ''pw''\<rparr>" "''pw''" id 5 6]
    by (auto simp: no_change_def)
  moreover have "u0 = \<lparr>cu_id = ''ben'', cu_role = USER\<rparr>" using h(1) b(1) by (simp add: validate_caller_def demo_user_row_def)
  ultimately show ?thesis by auto
qed

theorem one_default_address_witness:
  "\<exists>now w'. usr_run id 0 [(1, AddAddress ''a3'' ''ana'' \<lparr>da_street = ''S'', da_city = ''C'', da_state = ''C'', da_zipCode = ''1'', da_country = ''PH'',
      da_isDefault = Some True\<rparr>)] demo_users = (now, w') \<and> one_default (uw_addresses w') \<and> map ad_isDefault (uw_addresses w') = [False, False, True]"
proof -
  let ?as = "[(1, AddAddress ''a3'' ''ana'' \<lparr>da_street = ''S'', da_city = ''C'', da_state = ''C'', da_zipCode = ''1'', da_country = ''PH'',
      da_isDefault = Some True\<rparr>)]"
  obtain now w' where r: "usr_run id 0 ?as demo_users = (now, w')" by fastforce
  moreover have "one_default (uw_addresses demo_users)" by (simp add: one_default_def demo_home_def)
  moreover have "map ad_isDefault (uw_addresses w') = [False, False, True]"
    using r by (auto simp: add_address_def Let_def unset_defaults_def demo_home_def find_user_row_def demo_user_row_def or_old_def)
  ultimately show ?thesis using one_default_address [of demo_users ?as id 0 now w'] by (simp add: demo_home_def)
qed

theorem failed_update_loses_default_witness:
  "\<exists>r w'. update_address 7 ''ana'' ''a2'' \<lparr>ap_street = Some ''Side 2'', ap_city = None, ap_state = None, ap_zipCode = None, ap_country = None,
      ap_isDefault = Some True\<rparr> demo_users = (r, w') \<and> (\<forall>a \<in> set (uw_addresses w'). ad_userId a = ''ana'' \<longrightarrow> \<not> ad_isDefault a)"
proof -
  let ?p = "\<lparr>ap_street = Some ''Side 2'', ap_city = None, ap_state = None, ap_zipCode = None, ap_country = None, ap_isDefault = Some True\<rparr>"
  obtain r w' where u: "update_address 7 ''ana'' ''a2'' ?p demo_users = (r, w')" by fastforce
  have "one_default (uw_addresses demo_users)" by (simp add: one_default_def demo_home_def)
  then show ?thesis
    using failed_update_loses_default [OF _ _ _ _ _ _ _ u, of "demo_home ''a2'' False"] u by (auto simp: demo_home_def)
qed

end
