(* ===== verification/Credentials.thy ===== *)
theory Credentials
  imports Cart_Cache Auth_Data
begin

section \<open>Second factor, API keys and sessions\<close>

text \<open>
  \<open>modules/profile/services\<close>: \<open>two-factor.service.ts\<close>, \<open>api-key.service.ts\<close> and \<open>session-management.service.ts\<close> over
  the tables of users, keys and sessions. bcrypt is the library of \<open>Auth_Data\<close>, the check of a time-based code
  (\<open>speakeasy.totp.verify\<close> with a window of two steps) the argument \<open>totp\<close> of secret, code and time, and random bytes,
  salts and ids are arguments. A backup code is checked and then removed in two steps of the database, which
  requests that run at the same time can interleave: \<open>backup_read\<close> and \<open>backup_write\<close>.
\<close>

record two_factor_row =
  tf_id :: string
  tf_email :: string
  tf_role :: user_role
  tf_enabled :: bool
  tf_secret :: "string option"
  tf_codes :: "string list"

record api_key_row =
  ak_id :: string
  ak_userId :: string
  ak_name :: string
  ak_keyHash :: string
  ak_keyPrefix :: string
  ak_scopes :: "string list"
  ak_lastUsedAt :: "ms option"
  ak_expiresAt :: "ms option"
  ak_revokedAt :: "ms option"
  ak_revokedReason :: "string option"
  ak_createdAt :: ms

datatype session_status = SES_ACTIVE | SES_EXPIRED | SES_REVOKED

record session_row =
  ss_id :: string
  ss_userId :: string
  ss_clerkId :: "string option"
  ss_token :: string
  ss_status :: session_status
  ss_deviceInfo :: json
  ss_lastActivity :: ms
  ss_expiresAt :: ms
  ss_revokedAt :: "ms option"
  ss_revokedReason :: "string option"

record cred_world =
  cr_users :: "two_factor_row list"
  cr_keys :: "api_key_row list"
  cr_sessions :: "session_row list"

definition cr_not_found :: http_error where "cr_not_found = NotFound ''User not found''"

definition find_tf :: "string \<Rightarrow> cred_world \<Rightarrow> two_factor_row option" where
  "find_tf i w = find_by tf_id i (cr_users w)"

definition write_tf :: "string \<Rightarrow> (two_factor_row \<Rightarrow> two_factor_row) \<Rightarrow> cred_world \<Rightarrow> cred_world" where
  "write_tf i f w = w\<lparr>cr_users := update_by tf_id i f (cr_users w)\<rparr>"

subsection \<open>The second factor\<close>

definition enable_2fa :: "string \<Rightarrow> string \<Rightarrow> cred_world \<Rightarrow> string res \<times> cred_world" where
  "enable_2fa secret i w =
     (case find_tf i w of
        None \<Rightarrow> (Inl cr_not_found, w)
      | Some r \<Rightarrow>
          if tf_enabled r then (Inl (BadRequest ''Two-factor authentication is already enabled''), w)
          else (Inr secret, write_tf i (\<lambda>r. r\<lparr>tf_secret := Some secret\<rparr>) w))"

text \<open>The ten new codes come with the salts of their hashes.\<close>

definition hash_codes :: "'t auth_lib \<Rightarrow> (string \<times> string) list \<Rightarrow> string list" where
  "hash_codes lib codes = map (\<lambda>(c, salt). al_hash lib salt c) codes"

definition verify_2fa ::
  "'t auth_lib \<Rightarrow> (string \<Rightarrow> string \<Rightarrow> ms \<Rightarrow> bool) \<Rightarrow> ms \<Rightarrow> (string \<times> string) list \<Rightarrow> string \<Rightarrow> string \<Rightarrow> cred_world \<Rightarrow> string list res \<times> cred_world" where
  "verify_2fa lib totp now codes i token w =
     (case find_tf i w of
        None \<Rightarrow> (Inl cr_not_found, w)
      | Some r \<Rightarrow>
          if \<not> truthy_str (tf_secret r) then (Inl (BadRequest ''Two-factor authentication setup not started. Call enable2FA first.''), w)
          else if tf_enabled r then (Inl (BadRequest ''Two-factor authentication is already enabled''), w)
          else if \<not> totp (the (tf_secret r)) token now then (Inl (BadRequest ''Invalid verification code. Please try again.''), w)
          else (Inr (map fst codes), write_tf i (\<lambda>r. r\<lparr>tf_enabled := True, tf_codes := hash_codes lib codes\<rparr>) w))"

definition not_enabled :: http_error where "not_enabled = BadRequest ''Two-factor authentication is not enabled''"

definition disable_2fa :: "string \<Rightarrow> cred_world \<Rightarrow> unit res \<times> cred_world" where
  "disable_2fa i w =
     (case find_tf i w of
        None \<Rightarrow> (Inl cr_not_found, w)
      | Some r \<Rightarrow>
          if \<not> tf_enabled r then (Inl not_enabled, w)
          else (Inr (), write_tf i (\<lambda>r. r\<lparr>tf_enabled := False, tf_secret := None, tf_codes := []\<rparr>) w))"

definition regenerate_backup_codes :: "'t auth_lib \<Rightarrow> (string \<times> string) list \<Rightarrow> string \<Rightarrow> cred_world \<Rightarrow> string list res \<times> cred_world" where
  "regenerate_backup_codes lib codes i w =
     (case find_tf i w of
        None \<Rightarrow> (Inl cr_not_found, w)
      | Some r \<Rightarrow>
          if \<not> tf_enabled r then (Inl not_enabled, w)
          else (Inr (map fst codes), write_tf i (\<lambda>r. r\<lparr>tf_codes := hash_codes lib codes\<rparr>) w))"

definition verify_totp :: "(string \<Rightarrow> string \<Rightarrow> ms \<Rightarrow> bool) \<Rightarrow> ms \<Rightarrow> string \<Rightarrow> string \<Rightarrow> cred_world \<Rightarrow> bool" where
  "verify_totp totp now i token w =
     (case find_tf i w of None \<Rightarrow> False
      | Some r \<Rightarrow> tf_enabled r \<and> truthy_str (tf_secret r) \<and> totp (the (tf_secret r)) token now)"

text \<open>The loop over the hashes: the list without the first that matches.\<close>

fun drop_match :: "'t auth_lib \<Rightarrow> string \<Rightarrow> string list \<Rightarrow> string list option" where
  "drop_match lib code [] = None"
| "drop_match lib code (h # hs) = (if al_compare lib code h then Some hs else map_option ((#) h) (drop_match lib code hs))"

definition backup_read :: "'t auth_lib \<Rightarrow> string \<Rightarrow> string \<Rightarrow> cred_world \<Rightarrow> string list res" where
  "backup_read lib i code w =
     (case find_tf i w of
        None \<Rightarrow> Inl not_enabled
      | Some r \<Rightarrow>
          if \<not> tf_enabled r then Inl not_enabled
          else if tf_codes r = [] then Inl (BadRequest ''No backup codes available'')
          else (case drop_match lib code (tf_codes r) of None \<Rightarrow> Inl (BadRequest ''Invalid backup code'') | Some hs \<Rightarrow> Inr hs))"

definition backup_write :: "string \<Rightarrow> string list \<Rightarrow> cred_world \<Rightarrow> cred_world" where
  "backup_write i hs w = write_tf i (\<lambda>r. r\<lparr>tf_codes := hs\<rparr>) w"

definition verify_backup_code :: "'t auth_lib \<Rightarrow> string \<Rightarrow> string \<Rightarrow> cred_world \<Rightarrow> nat res \<times> cred_world" where
  "verify_backup_code lib i code w =
     (case backup_read lib i code w of Inl e \<Rightarrow> (Inl e, w) | Inr hs \<Rightarrow> (Inr (length hs), backup_write i hs w))"

definition get_2fa_status :: "string \<Rightarrow> cred_world \<Rightarrow> (bool \<times> nat) res" where
  "get_2fa_status i w = (case find_tf i w of None \<Rightarrow> Inl cr_not_found | Some r \<Rightarrow> Inr (tf_enabled r, length (tf_codes r)))"

subsection \<open>API keys\<close>

definition full_key :: "string \<Rightarrow> string" where "full_key rnd = ''mash_sk_'' @ rnd"

text \<open>\<open>rnd\<close> are the 64 hexadecimal digits.\<close>

definition generate_api_key ::
  "'t auth_lib \<Rightarrow> ms \<Rightarrow> string \<Rightarrow> string \<Rightarrow> string \<Rightarrow> string \<Rightarrow> string \<Rightarrow> string list \<Rightarrow> ms option \<Rightarrow> cred_world \<Rightarrow> (api_key_row \<times> string) res \<times> cred_world" where
  "generate_api_key lib now newId rnd salt i name scopes expires w =
     (let k = \<lparr>ak_id = newId, ak_userId = i, ak_name = name, ak_keyHash = al_hash lib salt (full_key rnd),
            ak_keyPrefix = take 12 (full_key rnd), ak_scopes = (if scopes \<noteq> [] then scopes else [''read'']), ak_lastUsedAt = None,
            ak_expiresAt = expires, ak_revokedAt = None, ak_revokedReason = None, ak_createdAt = now\<rparr>
      in if find_by ak_keyHash (ak_keyHash k) (cr_keys w) \<noteq> None then (Inl (InternalError ''Unique constraint failed''), w)
         else if find_tf i w = None then (Inl (InternalError ''Foreign key constraint violated''), w)
         else (Inr (k, full_key rnd), w\<lparr>cr_keys := cr_keys w @ [k]\<rparr>))"

definition last_four :: "string \<Rightarrow> string" where
  "last_four s = drop (length s - 4) s"

definition list_api_keys :: "string \<Rightarrow> cred_world \<Rightarrow> (api_key_row \<times> string) list" where
  "list_api_keys i w =
     map (\<lambda>k. (k, ak_keyPrefix k @ ''...'' @ last_four (ak_keyPrefix k)))
       (sort_by (\<lambda>x y. ak_createdAt y \<le> ak_createdAt x) (filter (\<lambda>k. ak_userId k = i \<and> ak_revokedAt k = None) (cr_keys w)))"

definition revoke_api_key :: "ms \<Rightarrow> string \<Rightarrow> string \<Rightarrow> string option \<Rightarrow> cred_world \<Rightarrow> string res \<times> cred_world" where
  "revoke_api_key now i kid reason w =
     (case find_by ak_id kid (cr_keys w) of
        None \<Rightarrow> (Inl (NotFound ''API key not found''), w)
      | Some k \<Rightarrow>
          if ak_userId k \<noteq> i then (Inl (BadRequest ''You do not have permission to revoke this API key''), w)
          else if ak_revokedAt k \<noteq> None then (Inl (BadRequest ''API key is already revoked''), w)
          else (Inr kid, w\<lparr>cr_keys := update_by ak_id kid
            (\<lambda>k. k\<lparr>ak_revokedAt := Some now, ak_revokedReason := Some (str_or reason ''User revoked API key'')\<rparr>) (cr_keys w)\<rparr>))"

record key_holder =
  kh_userId :: string
  kh_user :: "(string \<times> string \<times> user_role) option"
  kh_scopes :: "string list"
  kh_keyId :: string

definition holder_of :: "cred_world \<Rightarrow> api_key_row \<Rightarrow> key_holder" where
  "holder_of w k = \<lparr>kh_userId = ak_userId k, kh_user = map_option (\<lambda>r. (tf_id r, tf_email r, tf_role r)) (find_tf (ak_userId k) w),
     kh_scopes = ak_scopes k, kh_keyId = ak_id k\<rparr>"

definition candidate_keys :: "string \<Rightarrow> cred_world \<Rightarrow> api_key_row list" where
  "candidate_keys full w = filter (\<lambda>k. ak_keyPrefix k = take 12 full \<and> ak_revokedAt k = None) (cr_keys w)"

definition key_expired :: "ms \<Rightarrow> api_key_row \<Rightarrow> bool" where
  "key_expired now k = (case ak_expiresAt k of None \<Rightarrow> False | Some t \<Rightarrow> t < now)"

definition verify_api_key :: "'t auth_lib \<Rightarrow> ms \<Rightarrow> string \<Rightarrow> cred_world \<Rightarrow> key_holder res \<times> cred_world" where
  "verify_api_key lib now full w =
     (if \<not> starts_with full ''mash_sk_'' then (Inl (BadRequest ''Invalid API key format''), w)
      else case List.find (\<lambda>k. al_compare lib full (ak_keyHash k)) (candidate_keys full w) of
        None \<Rightarrow> (Inl (BadRequest ''Invalid API key''), w)
      | Some k \<Rightarrow>
          if key_expired now k then (Inl (BadRequest ''API key has expired''), w)
          else (Inr (holder_of w k), w\<lparr>cr_keys := update_by ak_id (ak_id k) (\<lambda>k. k\<lparr>ak_lastUsedAt := Some now\<rparr>) (cr_keys w)\<rparr>))"

record api_key_stats =
  aks_total :: nat
  aks_active :: nat
  aks_expired :: nat
  aks_revoked :: nat

definition get_api_key_stats :: "ms \<Rightarrow> string \<Rightarrow> cred_world \<Rightarrow> api_key_stats" where
  "get_api_key_stats now i w =
     (let own = filter (\<lambda>k. ak_userId k = i) (cr_keys w)
      in \<lparr>aks_total = length own, aks_active = length (filter (\<lambda>k. ak_revokedAt k = None \<and> \<not> key_expired now k) own),
          aks_expired = length (filter (\<lambda>k. ak_revokedAt k = None \<and> key_expired now k) own),
          aks_revoked = length (filter (\<lambda>k. ak_revokedAt k \<noteq> None) own)\<rparr>)"

subsection \<open>Sessions\<close>

definition mask_token :: "string \<Rightarrow> string" where
  "mask_token t = (if length t \<le> 8 then ''***'' else ''***'' @ drop (length t - 8) t)"

definition is_live :: "ms \<Rightarrow> session_row \<Rightarrow> bool" where
  "is_live now s \<longleftrightarrow> ss_status s = SES_ACTIVE \<and> now \<le> ss_expiresAt s"

definition get_user_sessions :: "ms \<Rightarrow> string \<Rightarrow> cred_world \<Rightarrow> session_row list" where
  "get_user_sessions now i w =
     map (\<lambda>s. s\<lparr>ss_token := mask_token (ss_token s)\<rparr>)
       (sort_by (\<lambda>x y. ss_lastActivity y \<le> ss_lastActivity x) (filter (\<lambda>s. ss_userId s = i \<and> is_live now s) (cr_sessions w)))"

definition revoke_session :: "ms \<Rightarrow> string \<Rightarrow> string \<Rightarrow> string option \<Rightarrow> string option \<Rightarrow> cred_world \<Rightarrow> string res \<times> cred_world" where
  "revoke_session now i sid current reason w =
     (case find_by ss_id sid (cr_sessions w) of
        None \<Rightarrow> (Inl (NotFound (''Session with ID '' @ sid @ '' not found'')), w)
      | Some s \<Rightarrow>
          if ss_userId s \<noteq> i then (Inl (Forbidden ''You do not have permission to revoke this session''), w)
          else if truthy_str current \<and> current = Some sid
          then (Inl (BadRequest ''Cannot revoke current session. Use logout endpoint instead''), w)
          else if ss_status s = SES_REVOKED then (Inl (BadRequest ''Session is already revoked''), w)
          else (Inr sid, w\<lparr>cr_sessions := update_by ss_id sid
            (\<lambda>s. s\<lparr>ss_status := SES_REVOKED, ss_revokedAt := Some now, ss_revokedReason := Some (str_or reason ''Revoked by user'')\<rparr>) (cr_sessions w)\<rparr>))"

definition to_revoke :: "string \<Rightarrow> string option \<Rightarrow> session_row \<Rightarrow> bool" where
  "to_revoke i current s \<longleftrightarrow> ss_userId s = i \<and> ss_status s = SES_ACTIVE \<and> (truthy_str current \<longrightarrow> Some (ss_id s) \<noteq> current)"

definition revoke_all_sessions :: "ms \<Rightarrow> string \<Rightarrow> string option \<Rightarrow> cred_world \<Rightarrow> nat \<times> cred_world" where
  "revoke_all_sessions now i current w =
     (let n = length (filter (to_revoke i current) (cr_sessions w))
      in if n = 0 then (0, w)
         else (n, w\<lparr>cr_sessions := update_where (to_revoke i current) (\<lambda>s. s\<lparr>ss_status := SES_REVOKED, ss_revokedAt := Some now,
           ss_revokedReason := Some ''Logged out from all devices by user''\<rparr>) (cr_sessions w)\<rparr>))"

record session_stats =
  sst_active :: int
  sst_total :: int
  sst_revoked :: int
  sst_expired :: int

definition get_session_stats :: "ms \<Rightarrow> string \<Rightarrow> cred_world \<Rightarrow> session_stats" where
  "get_session_stats now i w =
     (let own = filter (\<lambda>s. ss_userId s = i) (cr_sessions w); a = int (length (filter (is_live now) own)); n = int (length own);
          r = int (length (filter (\<lambda>s. ss_status s = SES_REVOKED) own))
      in \<lparr>sst_active = a, sst_total = n, sst_revoked = r, sst_expired = n - a - r\<rparr>)"

definition find_session_by_token :: "string \<Rightarrow> cred_world \<Rightarrow> session_row option" where
  "find_session_by_token t w = find_by ss_token t (cr_sessions w)"

definition find_session_by_clerk_id :: "string \<Rightarrow> cred_world \<Rightarrow> session_row option" where
  "find_session_by_clerk_id c w = find_by ss_clerkId (Some c) (cr_sessions w)"

end
