(* ===== verification/Credential_Facts.thy ===== *)
theory Credential_Facts
  imports Credentials
begin

section \<open>What holds of the credentials\<close>

text \<open>
  How often a backup code is accepted, one after the other and at the same time; the life of an API key; and
  the sessions that a revocation leaves.
\<close>

lemma find_tf_write [simp]:
  "(\<And>r. tf_id (f r) = tf_id r) \<Longrightarrow> find_tf j (write_tf i f w) = (if j = i then map_option f (find_tf i w) else find_tf j w)"
  by (simp add: find_tf_def write_tf_def find_by_update_by)

subsection \<open>Backup codes\<close>

definition codes_of :: "string \<Rightarrow> cred_world \<Rightarrow> string list" where
  "codes_of i w = (case find_tf i w of None \<Rightarrow> [] | Some r \<Rightarrow> tf_codes r)"

definition matching :: "'t auth_lib \<Rightarrow> string \<Rightarrow> string list \<Rightarrow> nat" where
  "matching lib c hs = length (filter (al_compare lib c) hs)"

lemma drop_match_Some:
  "drop_match lib c hs = Some hs' \<Longrightarrow> \<exists>xs h ys. hs = xs @ h # ys \<and> hs' = xs @ ys \<and> al_compare lib c h \<and> matching lib c xs = 0"
proof (induction hs arbitrary: hs')
  case (Cons k hs)
  show ?case
  proof (cases "al_compare lib c k")
    case True
    then show ?thesis using Cons.prems by (intro exI [of _ "[]"] exI [of _ k] exI [of _ hs]) (simp add: matching_def)
  next
    case False
    then obtain ks where ks: "drop_match lib c hs = Some ks" "hs' = k # ks" using Cons.prems by auto
    from Cons.IH [OF ks(1)] obtain xs h ys where x: "hs = xs @ h # ys" "ks = xs @ ys" "al_compare lib c h" "matching lib c xs = 0" by blast
    then show ?thesis using ks(2) False by (intro exI [of _ "k # xs"] exI [of _ h] exI [of _ ys]) (simp add: matching_def)
  qed
qed simp

lemma drop_match_None: "drop_match lib c hs = None \<longleftrightarrow> matching lib c hs = 0"
  by (induction hs) (auto simp: matching_def)

lemma matching_append [simp]: "matching lib c (xs @ ys) = matching lib c xs + matching lib c ys"
  "matching lib c (h # hs) = (if al_compare lib c h then 1 else 0) + matching lib c hs"
  by (simp_all add: matching_def)

text \<open>Attempts one after the other, with their success.\<close>

fun attempts :: "'t auth_lib \<Rightarrow> string \<Rightarrow> string list \<Rightarrow> cred_world \<Rightarrow> bool list \<times> cred_world" where
  "attempts lib i [] w = ([], w)"
| "attempts lib i (c # cs) w =
     (let (r, w1) = verify_backup_code lib i c w; (bs, w2) = attempts lib i cs w1 in ((\<exists>n. r = Inr n) # bs, w2))"

definition accepted :: "string \<Rightarrow> string list \<Rightarrow> bool list \<Rightarrow> nat" where
  "accepted c cs bs = length (filter (\<lambda>(d, b). d = c \<and> b) (zip cs bs))"

lemma verify_backup_code_cases:
  obtains (refused) e where "verify_backup_code lib i c w = (Inl e, w)"
  | (used) n xs h ys w1 where "verify_backup_code lib i c w = (Inr n, w1)" "codes_of i w = xs @ h # ys" "codes_of i w1 = xs @ ys"
      "al_compare lib c h"
proof (cases "backup_read lib i c w")
  case (Inr hs)
  then obtain r where r: "find_tf i w = Some r" "drop_match lib c (tf_codes r) = Some hs"
    by (auto simp: backup_read_def split: option.splits if_splits)
  from drop_match_Some [OF r(2)] obtain xs h ys where x: "tf_codes r = xs @ h # ys" "hs = xs @ ys" "al_compare lib c h" by blast
  show thesis
    by (rule used [of "length hs" "backup_write i hs w" xs h ys])
      (use Inr r x in \<open>simp_all add: verify_backup_code_def backup_write_def codes_of_def\<close>)
qed (use refused in \<open>simp add: verify_backup_code_def\<close>)

lemma attempts_bound:
  "attempts lib i cs w = (bs, w') \<Longrightarrow> accepted c cs bs \<le> matching lib c (codes_of i w) \<and> length (filter id bs) \<le> length (codes_of i w)"
proof (induction cs arbitrary: w bs w')
  case (Cons d cs)
  obtain r w1 where v: "verify_backup_code lib i d w = (r, w1)" by fastforce
  obtain bs' w2 where a: "attempts lib i cs w1 = (bs', w2)" by fastforce
  have bs: "bs = (\<exists>n. r = Inr n) # bs'" using Cons.prems by (simp add: v a)
  note IH = Cons.IH [OF a]
  show ?case
  proof (cases lib i d w rule: verify_backup_code_cases)
    case (refused e)
    then show ?thesis using IH by (simp add: bs v accepted_def)
  next
    case (used n xs h ys w3)
    then show ?thesis using IH by (auto simp: bs v accepted_def)
  qed
qed (simp add: accepted_def)

lemma matching_hash_codes:
  "auth_library lib \<Longrightarrow> matching lib c (hash_codes lib codes) = length (filter (\<lambda>d. take 72 c = take 72 d) (map fst codes))"
  by (induction codes) (auto simp: hash_codes_def matching_def auth_libraryD)

lemma distinct_filter_eq: "distinct xs \<Longrightarrow> length (filter (\<lambda>d. x = d) xs) \<le> 1"
  by (induction xs) (auto simp: filter_empty_conv)

text \<open>C13. Of the backup codes handed out when the second factor is enabled, each is accepted at most once, however many
  attempts follow one another; nothing else is accepted, and there are at most as many acceptances as codes.\<close>

theorem backup_codes_once:
  assumes "auth_library lib" "distinct (map fst codes)" "\<forall>(c, salt) \<in> set codes. length c \<le> 72"
    "verify_2fa lib totp now codes i token w = (Inr cs, w1)" "attempts lib i tries w1 = (bs, w2)"
  shows "(\<forall>c. accepted c tries bs \<le> 1 \<and> (0 < accepted c tries bs \<longrightarrow> take 72 c \<in> set cs)) \<and> length (filter id bs) \<le> length cs"
proof -
  have cs: "cs = map fst codes" and hs: "codes_of i w1 = hash_codes lib codes"
    using assms(4) by (auto simp: verify_2fa_def codes_of_def split: option.splits if_splits)
  have short: "take 72 d = d" if "d \<in> set cs" for d using assms(3) that by (fastforce simp: cs)
  have m: "matching lib c (codes_of i w1) = length (filter (\<lambda>d. take 72 c = d) cs)" for c
    using short unfolding hs matching_hash_codes [OF assms(1)] cs by (intro arg_cong [where f = length] filter_cong) auto
  have none: "filter (\<lambda>d. take 72 c = d) cs = []" if "take 72 c \<notin> set cs" for c using that by (auto simp: filter_empty_conv)
  have "accepted c tries bs \<le> 1 \<and> (0 < accepted c tries bs \<longrightarrow> take 72 c \<in> set cs)" for c
    using attempts_bound [OF assms(5), of c] m [of c] distinct_filter_eq [of cs "take 72 c"] assms(2) none [of c] cs
    by (cases "take 72 c \<in> set cs") (metis One_nat_def le_trans order.refl, metis le_zero_eq list.size(3) not_less_zero zero_le_one)
  then show ?thesis using attempts_bound [OF assms(5)] by (simp add: hs hash_codes_def cs)
qed

text \<open>Two requests that use different backup codes at the same time, both reading before either writes, are
  both accepted, and the first code stays good.\<close>

theorem backup_code_survives_race:
  assumes "find_tf i w = Some r" "\<forall>h \<in> set (tf_codes r). \<not> (al_compare lib c1 h \<and> al_compare lib c2 h)"
    "backup_read lib i c1 w = Inr hs1" "backup_read lib i c2 w = Inr hs2"
  shows "\<exists>n. fst (verify_backup_code lib i c1 (backup_write i hs2 (backup_write i hs1 w))) = Inr n"
proof -
  have r: "tf_enabled r" "drop_match lib c1 (tf_codes r) = Some hs1" "drop_match lib c2 (tf_codes r) = Some hs2"
    using assms(1,3,4) by (auto simp: backup_read_def split: option.splits if_splits)
  from drop_match_Some [OF r(3)] obtain xs h ys where x: "tf_codes r = xs @ h # ys" "hs2 = xs @ ys" "al_compare lib c2 h" by blast
  have "matching lib c1 (tf_codes r) \<noteq> 0" using r(2) drop_match_None [of lib c1 "tf_codes r"] by simp
  moreover have "\<not> al_compare lib c1 h" using assms(2) x by auto
  ultimately have m: "matching lib c1 hs2 \<noteq> 0" by (simp add: x)
  then obtain ks where "drop_match lib c1 hs2 = Some ks" using drop_match_None [of lib c1 hs2] by (cases "drop_match lib c1 hs2") auto
  moreover have "hs2 \<noteq> []" using m by (auto simp: matching_def)
  ultimately show ?thesis using assms(1) r(1) by (simp add: verify_backup_code_def backup_read_def backup_write_def)
qed

subsection \<open>API keys\<close>

lemma update_by_append: "update_by key k f (xs @ ys) = update_by key k f xs @ update_by key k f ys"
  by (simp add: update_by_def update_where_def)

text \<open>The hashes in the table are of texts that do not agree with \<open>full\<close> in the bytes bcrypt reads.\<close>

definition other_hashes :: "'t auth_lib \<Rightarrow> string \<Rightarrow> cred_world \<Rightarrow> bool" where
  "other_hashes lib full w \<longleftrightarrow> (\<forall>k \<in> set (cr_keys w). \<exists>salt q. ak_keyHash k = al_hash lib salt q \<and> take 72 q \<noteq> take 72 full)"

text \<open>C26. A generated key gives its holder until it expires or is revoked, and nothing from then on; and as it has the
  72 bytes that bcrypt reads, so does the key with anything after it.\<close>

theorem api_key_life:
  assumes lib: "auth_library lib" and rnd: "length rnd = 64" and others: "other_hashes lib (full_key rnd) w"
    and fresh: "newId \<notin> ak_id ` set (cr_keys w)"
    and gen: "generate_api_key lib now newId rnd salt i name scopes expires w = (Inr (k, full), w1)"
  shows "(\<not> key_expired t k \<longrightarrow> fst (verify_api_key lib t (full @ x) w1) = Inr (holder_of w1 k)) \<and>
    (key_expired t k \<longrightarrow> fst (verify_api_key lib t (full @ x) w1) = Inl (BadRequest ''API key has expired'')) \<and>
    fst (verify_api_key lib t (full @ x) (snd (revoke_api_key u i newId reason w1))) = Inl (BadRequest ''Invalid API key'')"
proof -
  have k: "full = full_key rnd" "ak_id k = newId" "ak_userId k = i" "ak_keyHash k = al_hash lib salt full" "ak_keyPrefix k = take 12 full"
    "ak_revokedAt k = None" "cr_keys w1 = cr_keys w @ [k]"
    using gen by (auto simp: generate_api_key_def Let_def split: if_splits)
  have len: "length full = 72" using rnd by (simp add: k(1) full_key_def)
  have form: "starts_with (full @ x) ''mash_sk_''" by (simp add: starts_with_iff k(1) full_key_def)
  have pre: "take 12 (full @ x) = take 12 full" using len by simp
  have no: "\<not> al_compare lib (full @ x) (ak_keyHash k')" if "k' \<in> set (cr_keys w)" for k'
    using others that len unfolding other_hashes_def by (fastforce simp: auth_libraryD [OF lib] k(1) [symmetric])
  have yes: "al_compare lib (full @ x) (ak_keyHash k)" using len by (simp add: k(4) auth_libraryD [OF lib])
  have skip: "List.find (\<lambda>k. al_compare lib (full @ x) (ak_keyHash k)) (filter P (cr_keys w) @ ks) = List.find (\<lambda>k. al_compare lib (full @ x) (ak_keyHash k)) ks"
    for P ks
  proof -
    have "List.find Q (xs @ ks) = List.find Q ks" if "\<forall>y \<in> set xs. \<not> Q y" for Q and xs :: "api_key_row list"
      using that by (induction xs) auto
    then show ?thesis using no by simp
  qed
  have c: "candidate_keys (full @ x) w1 = filter (\<lambda>k. ak_keyPrefix k = take 12 full \<and> ak_revokedAt k = None) (cr_keys w) @ [k]"
    unfolding candidate_keys_def pre k(7) using k(5,6) by simp
  have 1: "List.find (\<lambda>k. al_compare lib (full @ x) (ak_keyHash k)) (candidate_keys (full @ x) w1) = Some k"
    unfolding c skip using yes by simp
  have "find_by ak_id newId (cr_keys w) = None" using fresh by (simp add: find_by_None_iff)
  then have "find_by ak_id newId (cr_keys w1) = Some k" by (simp add: k(2,7))
  moreover have "update_by ak_id newId f (cr_keys w) = cr_keys w" for f using fresh by (intro update_by_absent) (simp add: find_by_None_iff)
  ultimately have r: "cr_keys (snd (revoke_api_key u i newId reason w1)) =
      cr_keys w @ [k\<lparr>ak_revokedAt := Some u, ak_revokedReason := Some (str_or reason ''User revoked API key'')\<rparr>]"
    using k(2,3,6,7) by (simp add: revoke_api_key_def update_by_append)
  have c2: "candidate_keys (full @ x) (snd (revoke_api_key u i newId reason w1)) =
      filter (\<lambda>k. ak_keyPrefix k = take 12 full \<and> ak_revokedAt k = None) (cr_keys w) @ []"
    unfolding candidate_keys_def pre r by simp
  have "List.find (\<lambda>k. al_compare lib (full @ x) (ak_keyHash k)) (candidate_keys (full @ x) (snd (revoke_api_key u i newId reason w1))) = None"
    unfolding c2 skip by simp
  then show ?thesis using form by (simp add: verify_api_key_def 1)
qed

subsection \<open>Sessions\<close>

text \<open>Logging out everywhere without naming the current session, as the route does, ends every session of the
  user, the current one too, counts them, and leaves the sessions of others; the statistics then show none that
  is active.\<close>

theorem revoke_all_ends_current:
  assumes "revoke_all_sessions now i None w = (n, w')"
  shows "n = length (filter (\<lambda>s. ss_userId s = i \<and> ss_status s = SES_ACTIVE) (cr_sessions w)) \<and>
    (\<forall>s \<in> set (cr_sessions w'). ss_userId s = i \<longrightarrow> ss_status s \<noteq> SES_ACTIVE) \<and>
    filter (\<lambda>s. ss_userId s \<noteq> i) (cr_sessions w') = filter (\<lambda>s. ss_userId s \<noteq> i) (cr_sessions w) \<and>
    sst_active (get_session_stats t i w') = 0 \<and> get_user_sessions t i w' = []"
proof -
  let ?f = "\<lambda>s. s\<lparr>ss_status := SES_REVOKED, ss_revokedAt := Some now, ss_revokedReason := Some ''Logged out from all devices by user''\<rparr>"
  have p: "to_revoke i None = (\<lambda>s. ss_userId s = i \<and> ss_status s = SES_ACTIVE)" by (simp add: to_revoke_def truthy_str_def fun_eq_iff)
  have keep: "filter (\<lambda>s. ss_userId s \<noteq> i) (update_where (to_revoke i None) ?f ss) = filter (\<lambda>s. ss_userId s \<noteq> i) ss" for ss
    by (induction ss) (auto simp: p)
  have none: "\<forall>s \<in> set (update_where (to_revoke i None) ?f ss). ss_userId s = i \<longrightarrow> ss_status s \<noteq> SES_ACTIVE" for ss
    unfolding p by (induction ss) simp_all
  have n: "n = length (filter (\<lambda>s. ss_userId s = i \<and> ss_status s = SES_ACTIVE) (cr_sessions w))"
    using assms by (simp add: revoke_all_sessions_def Let_def p split: if_splits)
  have rows: "cr_sessions w' = (if n = 0 then cr_sessions w else update_where (to_revoke i None) ?f (cr_sessions w))"
  proof (cases "length (filter (to_revoke i None) (cr_sessions w)) = 0")
    case True
    then have "(0, w) = (n, w')" using assms by (simp only: revoke_all_sessions_def Let_def simp_thms if_True)
    then show ?thesis by simp
  next
    case False
    then have "(length (filter (to_revoke i None) (cr_sessions w)), w\<lparr>cr_sessions := update_where (to_revoke i None) ?f (cr_sessions w)\<rparr>) = (n, w')"
      using assms by (simp only: revoke_all_sessions_def Let_def if_False)
    then have "n = length (filter (to_revoke i None) (cr_sessions w))" "w' = w\<lparr>cr_sessions := update_where (to_revoke i None) ?f (cr_sessions w)\<rparr>" by blast+
    then show ?thesis using False by simp
  qed
  have gone: "\<forall>s \<in> set (cr_sessions w'). ss_userId s = i \<longrightarrow> ss_status s \<noteq> SES_ACTIVE"
  proof (cases "n = 0")
    case True
    then have "filter (\<lambda>s. ss_userId s = i \<and> ss_status s = SES_ACTIVE) (cr_sessions w) = []" using n by simp
    then show ?thesis unfolding rows using True by (auto simp: filter_empty_conv)
  qed (use none rows in simp)
  have others: "filter (\<lambda>s. ss_userId s \<noteq> i) (cr_sessions w') = filter (\<lambda>s. ss_userId s \<noteq> i) (cr_sessions w)"
    unfolding rows using keep by simp
  have live: "filter (\<lambda>s. ss_userId s = i \<and> is_live t s) (cr_sessions w') = []" "filter (\<lambda>s. is_live t s \<and> ss_userId s = i) (cr_sessions w') = []"
    using gone by (auto simp: filter_empty_conv is_live_def)
  have "sst_active (get_session_stats t i w') = 0" using live by (simp add: get_session_stats_def Let_def)
  moreover have "get_user_sessions t i w' = []" by (simp add: get_user_sessions_def live(1) sort_by_def)
  ultimately show ?thesis using n gone others by blast
qed

subsection \<open>Instances\<close>

definition demo_holder :: two_factor_row where
  "demo_holder = \<lparr>tf_id = ''u'', tf_email = ''e'', tf_role = USER, tf_enabled = False, tf_secret = Some ''s'', tf_codes = []\<rparr>"

definition demo_session :: "string \<Rightarrow> string \<Rightarrow> session_row" where
  "demo_session i u = \<lparr>ss_id = i, ss_userId = u, ss_clerkId = None, ss_token = i, ss_status = SES_ACTIVE, ss_deviceInfo = JNull,
     ss_lastActivity = 5, ss_expiresAt = 100, ss_revokedAt = None, ss_revokedReason = None\<rparr>"

definition demo_creds :: cred_world where
  "demo_creds = \<lparr>cr_users = [demo_holder], cr_keys = [], cr_sessions = [demo_session ''s1'' ''u'', demo_session ''s2'' ''v'', demo_session ''s3'' ''u'']\<rparr>"

definition demo_enabled :: cred_world where
  "demo_enabled = snd (verify_2fa demo_lib (\<lambda>s t now. t = s) 0 [(''A'', []), (''B'', [])] ''u'' ''s'' demo_creds)"

lemma demo_enabled_user: "find_tf ''u'' demo_enabled = Some (demo_holder\<lparr>tf_enabled := True, tf_codes := [''A'', ''B'']\<rparr>)"
  by (simp add: demo_enabled_def verify_2fa_def find_tf_def write_tf_def demo_creds_def demo_holder_def truthy_str_def hash_codes_def
      demo_lib_def update_by_def)

lemma demo_enable: "verify_2fa demo_lib (\<lambda>s t now. t = s) 0 [(''A'', []), (''B'', [])] ''u'' ''s'' demo_creds = (Inr [''A'', ''B''], demo_enabled)"
  by (simp add: demo_enabled_def verify_2fa_def find_tf_def demo_creds_def demo_holder_def truthy_str_def)

lemma demo_attempts: "fst (attempts demo_lib ''u'' [''A'', ''X'', ''A'', ''B''] demo_enabled) = [True, False, False, True]"
  by (simp add: demo_enabled_user verify_backup_code_def backup_read_def backup_write_def demo_lib_def not_enabled_def)

theorem backup_codes_once_witness:
  "\<forall>c. accepted c [''A'', ''X'', ''A'', ''B''] [True, False, False, True] \<le> 1"
proof -
  obtain w2 where a: "attempts demo_lib ''u'' [''A'', ''X'', ''A'', ''B''] demo_enabled = ([True, False, False, True], w2)"
    using demo_attempts by (cases "attempts demo_lib ''u'' [''A'', ''X'', ''A'', ''B''] demo_enabled") simp
  have "distinct (map fst [(''A'', []), (''B'', [])])" "\<forall>(c, salt) \<in> set [(''A'', []), (''B'', [])]. length c \<le> 72" by simp_all
  from backup_codes_once [OF demo_lib_ok this demo_enable a] show ?thesis by blast
qed

lemma demo_reads:
  "backup_read demo_lib ''u'' ''A'' demo_enabled = Inr [''B'']" "backup_read demo_lib ''u'' ''B'' demo_enabled = Inr [''A'']"
  by (simp_all add: backup_read_def demo_enabled_user demo_lib_def)

theorem backup_code_survives_race_witness:
  "\<exists>n. fst (verify_backup_code demo_lib ''u'' ''A'' (backup_write ''u'' [''A''] (backup_write ''u'' [''B''] demo_enabled))) = Inr n"
proof -
  have "\<forall>h \<in> set (tf_codes (demo_holder\<lparr>tf_enabled := True, tf_codes := [''A'', ''B'']\<rparr>)).
      \<not> (al_compare demo_lib ''A'' h \<and> al_compare demo_lib ''B'' h)" by (simp add: demo_lib_def)
  from backup_code_survives_race [OF demo_enabled_user this demo_reads] show ?thesis .
qed

definition demo_rnd :: string where "demo_rnd = replicate 64 (CHR ''a'')"

definition demo_key :: api_key_row where
  "demo_key = \<lparr>ak_id = ''k'', ak_userId = ''u'', ak_name = ''n'', ak_keyHash = al_hash demo_lib [] (full_key demo_rnd),
     ak_keyPrefix = take 12 (full_key demo_rnd), ak_scopes = [''read''], ak_lastUsedAt = None, ak_expiresAt = Some 50,
     ak_revokedAt = None, ak_revokedReason = None, ak_createdAt = 1\<rparr>"

lemma demo_generate:
  "generate_api_key demo_lib 1 ''k'' demo_rnd [] ''u'' ''n'' [] (Some 50) demo_creds =
     (Inr (demo_key, full_key demo_rnd), demo_creds\<lparr>cr_keys := [demo_key]\<rparr>)"
  by (simp add: generate_api_key_def demo_key_def Let_def demo_creds_def find_tf_def demo_holder_def)

theorem api_key_life_witness:
  "fst (verify_api_key demo_lib 40 (full_key demo_rnd @ ''!'') (demo_creds\<lparr>cr_keys := [demo_key]\<rparr>)) =
     Inr (holder_of (demo_creds\<lparr>cr_keys := [demo_key]\<rparr>) demo_key)"
proof -
  have "length demo_rnd = 64" by (simp add: demo_rnd_def)
  moreover have "other_hashes demo_lib (full_key demo_rnd) demo_creds" "''k'' \<notin> ak_id ` set (cr_keys demo_creds)"
    by (simp_all add: other_hashes_def demo_creds_def)
  moreover have "\<not> key_expired 40 demo_key" by (simp add: key_expired_def demo_key_def)
  ultimately show ?thesis using api_key_life [OF demo_lib_ok _ _ _ demo_generate] by blast
qed

lemma demo_revoke: "fst (revoke_all_sessions 9 ''u'' None demo_creds) = 2"
  by (simp add: revoke_all_sessions_def demo_creds_def demo_session_def to_revoke_def truthy_str_def Let_def)

theorem revoke_all_ends_current_witness:
  "get_user_sessions 10 ''u'' (snd (revoke_all_sessions 9 ''u'' None demo_creds)) = []"
proof -
  obtain w' where "revoke_all_sessions 9 ''u'' None demo_creds = (2, w')"
    using demo_revoke by (cases "revoke_all_sessions 9 ''u'' None demo_creds") simp
  from revoke_all_ends_current [OF this] this show ?thesis by simp
qed

end
