(* ===== verification/Csrf.thy ===== *)
theory Csrf
  imports Prelude "HOL-Library.Word"
begin

section \<open>Protection against forged requests\<close>

text \<open>
  \<open>common/middleware/csrf-protection.middleware.ts\<close> and the two routes of \<open>common/controllers/csrf-token.controller.ts\<close>.
  A request has a method, a path, headers by their lower-case names, the body if one has been parsed, and the
  cookies of the browser; a reply has the cookies it sets (\<open>None\<close> clears one) and the token of its header. The HMAC is
  the argument \<open>hmac\<close> of key and message, a random secret the argument \<open>rnd\<close>.
\<close>

subsection \<open>The middleware\<close>

record csrf_request =
  cq_method :: string
  cq_path :: string
  cq_headers :: "(string \<times> string) list"
  cq_body :: "(string \<times> json) list option"
  cq_cookies :: "(string \<times> string) list"

record csrf_reply =
  cy_cookies :: "(string \<times> string option) list"
  cy_token :: "string option"

definition no_reply :: csrf_reply where "no_reply = \<lparr>cy_cookies = [], cy_token = None\<rparr>"

definition safe_methods :: "string list" where "safe_methods = [''GET'', ''HEAD'', ''OPTIONS'']"

definition excluded_paths :: "string list" where
  "excluded_paths =
     [''/api/v1/health'', ''/api/v1/metrics'', ''/api/v1/auth/login'', ''/api/v1/auth/register'', ''/api/v1/auth/verify-email-code'',
      ''/api/v1/auth/resend-verification-code'', ''/api/v1/auth/resend-verification'', ''/api/v1/auth/forgot-password'',
      ''/api/v1/auth/verify-reset-code'', ''/api/v1/auth/reset-password'', ''/api/v1/auth/resend-password-reset-code'',
      ''/api/v1/auth/google/sync'', ''/api/v1/auth/google/login'', ''/api/v1/auth/firebase'', ''/api/v1/auth/firebase-sync'',
      ''/auth/firebase'', ''/auth/firebase-sync'', ''/api/v1/auth/oauth/callback'', ''/api/v1/webhook'', ''/api/v1/iot/devices'',
      ''/api/v1/users/me/apply-as-seller'', ''/users/me/apply-as-seller'']"

text \<open>\<open>replace(/\/+$/, '')\<close>\<close>

definition strip_slashes :: "string \<Rightarrow> string" where
  "strip_slashes s = rev (dropWhile (\<lambda>c. c = CHR ''/'') (rev s))"

definition is_excluded_path :: "string \<Rightarrow> bool" where
  "is_excluded_path path \<longleftrightarrow>
     (let p = to_lower (strip_slashes path)
      in \<exists>e \<in> set excluded_paths. p = to_lower e \<or> starts_with p (to_lower e @ ''/''))"

definition generate_token :: "(string \<Rightarrow> string \<Rightarrow> string) \<Rightarrow> string \<Rightarrow> ms \<Rightarrow> string \<Rightarrow> string" where
  "generate_token hmac key now secret =
     (let ts = nat_text (nat now) in ts @ ''.'' @ hmac key (secret @ '':'' @ ts))"

text \<open>The comparison collects the differing bits of all characters in a 32-bit integer.\<close>

unbundle bit_operations_syntax

fun differing_bits :: "32 word \<Rightarrow> string \<Rightarrow> string \<Rightarrow> 32 word" where
  "differing_bits r (x # xs) (y # ys) = differing_bits (r OR (of_char x XOR of_char y)) xs ys"
| "differing_bits r _ _ = r"

definition constant_time_compare :: "string \<Rightarrow> string \<Rightarrow> bool" where
  "constant_time_compare a b = (if length a \<noteq> length b then False else differing_bits 0 a b = 0)"

definition TOKEN_MAX_AGE :: int where "TOKEN_MAX_AGE = 24 * 60 * 60 * 1000"

text \<open>A time stamp that is no number has no age, and no age is above the limit.\<close>

definition validate_token :: "(string \<Rightarrow> string \<Rightarrow> string) \<Rightarrow> string \<Rightarrow> ms \<Rightarrow> string \<Rightarrow> string \<Rightarrow> bool" where
  "validate_token hmac key now token secret =
     (case split_on (CHR ''.'') token of
        ts # signature # _ \<Rightarrow>
          if ts = [] \<or> signature = [] then False
          else if (case parse_int ts of None \<Rightarrow> False | Some t \<Rightarrow> TOKEN_MAX_AGE < now - t) then False
          else constant_time_compare signature (hmac key (secret @ '':'' @ ts))
      | _ \<Rightarrow> False)"

definition SECRET_COOKIE :: string where "SECRET_COOKIE = ''_csrf_secret''"

definition TOKEN_COOKIE :: string where "TOKEN_COOKIE = ''XSRF-TOKEN''"

definition ensure_csrf_token :: "(string \<Rightarrow> string \<Rightarrow> string) \<Rightarrow> string \<Rightarrow> ms \<Rightarrow> string \<Rightarrow> csrf_request \<Rightarrow> csrf_reply" where
  "ensure_csrf_token hmac key now rnd req =
     (let old = map_of (cq_cookies req) SECRET_COOKIE; fresh = \<not> truthy_str old;
          secret = (if fresh then rnd else the old); token = generate_token hmac key now secret
      in \<lparr>cy_cookies = (if fresh then [(SECRET_COOKIE, Some rnd)] else []) @ [(TOKEN_COOKIE, Some token)], cy_token = Some token\<rparr>)"

definition header_of :: "string \<Rightarrow> csrf_request \<Rightarrow> string option" where
  "header_of h req = map_of (cq_headers req) h"

definition body_field :: "string \<Rightarrow> csrf_request \<Rightarrow> json" where
  "body_field f req = (case cq_body req of None \<Rightarrow> JNull | Some fs \<Rightarrow> (case map_of fs f of None \<Rightarrow> JNull | Some v \<Rightarrow> v))"

definition has_provider_token :: "csrf_request \<Rightarrow> bool" where
  "has_provider_token req \<longleftrightarrow> (\<exists>f \<in> set [''idToken'', ''accessToken'', ''firebaseToken'']. json_truthy (body_field f req))"

definition exempt :: "csrf_request \<Rightarrow> bool" where
  "exempt req \<longleftrightarrow>
     is_excluded_path (cq_path req) \<or> truthy_str (header_of ''x-api-key'' req) \<or>
     (truthy_str (header_of ''authorization'' req) \<and> starts_with (the (header_of ''authorization'' req)) ''Bearer '') \<or>
     has_provider_token req \<or>
     ((case header_of ''content-type'' req of None \<Rightarrow> False | Some t \<Rightarrow> str_includes t ''application/json'') \<and>
      \<not> truthy_str (header_of ''origin'' req) \<and> \<not> truthy_str (header_of ''referer'' req))"

text \<open>The token is the first of two headers and the field of the body that is not empty; a value of the body that is
  not a text has no method \<open>split\<close>, and \<open>validateToken\<close> catches that.\<close>

definition sent_token :: "csrf_request \<Rightarrow> json" where
  "sent_token req =
     (if truthy_str (header_of ''x-csrf-token'' req) then JStr (Plain (the (header_of ''x-csrf-token'' req)))
      else if truthy_str (header_of ''x-xsrf-token'' req) then JStr (Plain (the (header_of ''x-xsrf-token'' req)))
      else body_field ''_csrf'' req)"

definition csrf_use :: "(string \<Rightarrow> string \<Rightarrow> string) \<Rightarrow> string \<Rightarrow> ms \<Rightarrow> string \<Rightarrow> csrf_request \<Rightarrow> csrf_reply res" where
  "csrf_use hmac key now rnd req =
     (if cq_method req \<in> set safe_methods then Inr (ensure_csrf_token hmac key now rnd req)
      else if exempt req then Inr no_reply
      else let secret = map_of (cq_cookies req) SECRET_COOKIE
        in if \<not> json_truthy (sent_token req) \<or> \<not> truthy_str secret then Inl (Forbidden ''CSRF token missing'')
           else (case sent_token req of
               JStr (Plain t) \<Rightarrow> if validate_token hmac key now t (the secret) then Inr no_reply else Inl (Forbidden ''Invalid CSRF token'')
             | _ \<Rightarrow> Inl (Forbidden ''Invalid CSRF token'')))"

subsection \<open>The routes\<close>

text \<open>Each sees the reply of the middleware and answers a token.\<close>

definition get_csrf_token :: "csrf_request \<Rightarrow> csrf_reply \<Rightarrow> string option \<times> csrf_reply" where
  "get_csrf_token req y =
     ((let old = map_of (cq_cookies req) TOKEN_COOKIE in if truthy_str old then old else cy_token y), y)"

definition refresh_csrf_token :: "csrf_request \<Rightarrow> csrf_reply \<Rightarrow> string option \<times> csrf_reply" where
  "refresh_csrf_token req y =
     (cy_token y, y\<lparr>cy_cookies := cy_cookies y @ [(TOKEN_COOKIE, None), (SECRET_COOKIE, None)]\<rparr>)"

text \<open>The cookies of the browser after a reply, its \<open>Set-Cookie\<close> headers taken in order.\<close>

definition apply_cookie :: "string \<times> string option \<Rightarrow> (string \<times> string) list \<Rightarrow> (string \<times> string) list" where
  "apply_cookie kv jar =
     (case snd kv of None \<Rightarrow> filter (\<lambda>e. fst e \<noteq> fst kv) jar | Some v \<Rightarrow> js_map_set (fst kv) v jar)"

definition browser_jar :: "csrf_reply \<Rightarrow> (string \<times> string) list \<Rightarrow> (string \<times> string) list" where
  "browser_jar y jar = fold apply_cookie (cy_cookies y) jar"

subsection \<open>What holds of it\<close>

lemma of_char_32 [simp]: "(of_char x :: 32 word) = of_char y \<longleftrightarrow> x = y"
proof
  assume "(of_char x :: 32 word) = of_char y"
  then have "(of_nat (of_char x) :: 32 word) = of_nat (of_char y)" by (simp only: of_nat_of_char)
  moreover have "(of_char x :: nat) < 256" "(of_char y :: nat) < 256" by simp_all
  ultimately have "(of_char x :: nat) = of_char y" by (simp add: word_of_nat_eq_iff take_bit_nat_eq_self)
  then show "x = y" by simp
qed simp

lemma xor_0_iff: "v XOR w = 0 \<longleftrightarrow> v = w" for v w :: "32 word"
  by (metis xor.assoc xor_self_eq xor.left_neutral)

lemma differing_bits_0: "length a = length b \<Longrightarrow> differing_bits r a b = 0 \<longleftrightarrow> r = 0 \<and> a = b"
proof (induction r a b rule: differing_bits.induct)
  case (1 r x xs y ys)
  have "(of_char x :: 32 word) XOR of_char y = 0 \<longleftrightarrow> of_char x = (of_char y :: 32 word)" by (rule xor_0_iff)
  then show ?case using 1 by (auto simp: or_eq_0_iff)
qed auto

text \<open>The loop over the bits of the characters answers exactly whether the texts are equal.\<close>

theorem constant_time_compare_eq: "constant_time_compare a b \<longleftrightarrow> a = b"
  by (auto simp: constant_time_compare_def differing_bits_0)

lemma split_on_append: "sep \<notin> set a \<Longrightarrow> split_on sep (a @ sep # b) = a # split_on sep b"
  by (induction a) auto

lemma split_on_none: "sep \<notin> set a \<Longrightarrow> split_on sep a = [a]"
  by (induction a) auto

lemma digit_not_dot: "CHR ''.'' \<notin> set (nat_text n)"
  using nat_text_digits [of n] by (auto simp: is_digit_char_def)

lemma nat_text_not_Nil [simp]: "nat_text n \<noteq> []"
  by (subst nat_text.simps) simp

lemma parse_int_nat_text: "parse_int (nat_text n) = Some (int n)"
proof -
  obtain c cs where c: "nat_text n = c # cs" using nat_text_not_Nil [of n] by (cases "nat_text n") simp_all
  then have "is_digit_char c" using nat_text_digits [of n] by simp
  then show ?thesis using digits_value_nat_text [of n] unfolding c
    by (auto simp: parse_int_def parse_nat_prefix_def is_digit_char_def)
qed

lemma validate_generated:
  assumes "hmac key (secret @ '':'' @ nat_text (nat now)) \<noteq> []" "CHR ''.'' \<notin> set (hmac key (secret @ '':'' @ nat_text (nat now)))" "0 \<le> now"
  shows "validate_token hmac key t (generate_token hmac key now secret) s \<longleftrightarrow>
    t \<le> now + TOKEN_MAX_AGE \<and> hmac key (secret @ '':'' @ nat_text (nat now)) = hmac key (s @ '':'' @ nat_text (nat now))"
proof -
  have "split_on (CHR ''.'') (generate_token hmac key now secret) = [nat_text (nat now), hmac key (secret @ '':'' @ nat_text (nat now))]"
    using assms(2) by (simp add: generate_token_def Let_def split_on_append [OF digit_not_dot] split_on_none)
  then show ?thesis using assms(1,3)
    by (auto simp: validate_token_def parse_int_nat_text constant_time_compare_eq)
qed

text \<open>What \<open>createHmac\<close> documents of \<open>digest('hex')\<close>: hexadecimal digits.\<close>

definition hex_hmac :: "(string \<Rightarrow> string \<Rightarrow> string) \<Rightarrow> bool" where
  "hex_hmac hmac \<longleftrightarrow> (\<forall>key m. hmac key m \<noteq> [] \<and> CHR ''.'' \<notin> set (hmac key m))"

lemma cookie_names [simp]: "SECRET_COOKIE \<noteq> TOKEN_COOKIE" "TOKEN_COOKIE \<noteq> SECRET_COOKIE"
  by (simp_all add: SECRET_COOKIE_def TOKEN_COOKIE_def)

lemma safe_reply:
  assumes "cq_method req \<in> set safe_methods" "rnd \<noteq> []"
  obtains secret where "csrf_use hmac key now rnd req = Inr (ensure_csrf_token hmac key now rnd req)"
    "cy_token (ensure_csrf_token hmac key now rnd req) = Some (generate_token hmac key now secret)" "secret \<noteq> []"
    "map_of (browser_jar (ensure_csrf_token hmac key now rnd req) (cq_cookies req)) SECRET_COOKIE = Some secret"
  by (rule that [of "let old = map_of (cq_cookies req) SECRET_COOKIE in if truthy_str old then the old else rnd"])
    (use assms in \<open>auto simp: csrf_use_def ensure_csrf_token_def Let_def browser_jar_def apply_cookie_def truthy_str_def split: option.splits\<close>)

lemma generate_token_not_Nil [simp]: "generate_token hmac key now secret \<noteq> []"
  by (simp add: generate_token_def Let_def)

lemma sent_header: "header_of ''x-csrf-token'' req = Some t \<Longrightarrow> t \<noteq> [] \<Longrightarrow> sent_token req = JStr (Plain t)"
  by (simp add: sent_token_def truthy_str_def)

text \<open>With the token and the cookies of a safe request every request passes for 24 hours; after that an unsafe one that
  is not exempt is refused.\<close>

theorem csrf_roundtrip:
  assumes "hex_hmac hmac" "rnd \<noteq> []" "0 \<le> now" "cq_method req \<in> set safe_methods"
    "csrf_use hmac key now rnd req = Inr y"
    "cq_cookies req2 = browser_jar y (cq_cookies req)" "header_of ''x-csrf-token'' req2 = cy_token y"
  shows "(t \<le> now + TOKEN_MAX_AGE \<longrightarrow> (\<exists>y2. csrf_use hmac key t rnd2 req2 = Inr y2)) \<and>
    (now + TOKEN_MAX_AGE < t \<and> cq_method req2 \<notin> set safe_methods \<and> \<not> exempt req2 \<longrightarrow>
       csrf_use hmac key t rnd2 req2 = Inl (Forbidden ''Invalid CSRF token''))"
proof -
  from safe_reply [OF assms(4,2)] obtain secret where s:
    "csrf_use hmac key now rnd req = Inr (ensure_csrf_token hmac key now rnd req)"
    "cy_token (ensure_csrf_token hmac key now rnd req) = Some (generate_token hmac key now secret)" "secret \<noteq> []"
    "map_of (browser_jar (ensure_csrf_token hmac key now rnd req) (cq_cookies req)) SECRET_COOKIE = Some secret"
    by metis
  have y: "y = ensure_csrf_token hmac key now rnd req" using s(1) assms(5) by simp
  have tok: "sent_token req2 = JStr (Plain (generate_token hmac key now secret))" using assms(7) s(2) by (intro sent_header) (simp_all add: y)
  have "validate_token hmac key t (generate_token hmac key now secret) secret \<longleftrightarrow> t \<le> now + TOKEN_MAX_AGE"
    using assms(1,3) by (subst validate_generated) (simp_all add: hex_hmac_def)
  then show ?thesis using s(3,4) assms(6) by (simp add: csrf_use_def y tok Let_def truthy_str_def)
qed

lemma validate_token_iff:
  assumes "hex_hmac hmac"
  shows "validate_token hmac key now token secret \<longleftrightarrow>
    (\<exists>ts sig rest. split_on (CHR ''.'') token = ts # sig # rest \<and> ts \<noteq> [] \<and> sig = hmac key (secret @ '':'' @ ts) \<and>
       (\<forall>u. parse_int ts = Some u \<longrightarrow> now \<le> u + TOKEN_MAX_AGE))"
proof -
  have "hmac key m \<noteq> []" "[] \<noteq> hmac key m" for m using assms unfolding hex_hmac_def by metis+
  then show ?thesis by (auto simp: validate_token_def constant_time_compare_eq split: list.split option.split)
qed

lemma csrf_use_unsafe:
  assumes "hex_hmac hmac" "cq_method req \<notin> set safe_methods" "\<not> exempt req"
  shows "csrf_use hmac key now rnd req = Inr y \<longleftrightarrow> y = no_reply \<and>
    (\<exists>token secret. sent_token req = JStr (Plain token) \<and> token \<noteq> [] \<and> map_of (cq_cookies req) SECRET_COOKIE = Some secret \<and>
       secret \<noteq> [] \<and> validate_token hmac key now token secret)"
  using assms(2,3) by (auto simp: csrf_use_def Let_def truthy_str_def split: json.split jstr.split option.split)

text \<open>C15. A token is worth something only in the session it was signed for. An unsafe request that is not exempt passes
  exactly if the token it sends, in the header \<open>x-csrf-token\<close>, else in \<open>x-xsrf-token\<close>, else in the field \<open>_csrf\<close> of the
  body, has as its second part the code of the secret in the request's own cookie with the token's time stamp, and the
  time stamp, if it is a number, is at most 24 hours old. So a token issued for a secret, in whichever of the
  three places it is sent, passes for 24 hours only and only with a cookie whose code for the time stamp is the one in the
  token; and a form that another site posts, which has none of the headers and whose body is not yet
  parsed, is refused outside the excluded paths.\<close>

theorem csrf_blocks_forgery:
  assumes "hex_hmac hmac" "0 \<le> now" "cq_method req \<notin> set safe_methods"
  shows "(\<not> exempt req \<longrightarrow> (csrf_use hmac key t rnd req = Inr y \<longleftrightarrow> y = no_reply \<and>
       (\<exists>token secret ts sig rest. sent_token req = JStr (Plain token) \<and> map_of (cq_cookies req) SECRET_COOKIE = Some secret \<and>
          secret \<noteq> [] \<and> split_on (CHR ''.'') token = ts # sig # rest \<and> ts \<noteq> [] \<and> sig = hmac key (secret @ '':'' @ ts) \<and>
          (\<forall>u. parse_int ts = Some u \<longrightarrow> t \<le> u + TOKEN_MAX_AGE)))) \<and>
    (\<not> exempt req \<and> token = generate_token hmac key now secret \<and>
       (header_of ''x-csrf-token'' req = Some token \<or>
        \<not> truthy_str (header_of ''x-csrf-token'' req) \<and> header_of ''x-xsrf-token'' req = Some token \<or>
        \<not> truthy_str (header_of ''x-csrf-token'' req) \<and> \<not> truthy_str (header_of ''x-xsrf-token'' req) \<and>
          body_field ''_csrf'' req = JStr (Plain token)) \<longrightarrow>
       (csrf_use hmac key t rnd req = Inr y \<longleftrightarrow> y = no_reply \<and> t \<le> now + TOKEN_MAX_AGE \<and>
          (\<exists>own. map_of (cq_cookies req) SECRET_COOKIE = Some own \<and> own \<noteq> [] \<and>
             hmac key (own @ '':'' @ nat_text (nat now)) = hmac key (secret @ '':'' @ nat_text (nat now))))) \<and>
    ((\<forall>h \<in> set [''x-csrf-token'', ''x-xsrf-token'', ''x-api-key'', ''authorization'']. header_of h req = None) \<and>
       truthy_str (header_of ''origin'' req) \<and> cq_body req = None \<and> \<not> is_excluded_path (cq_path req) \<longrightarrow>
       csrf_use hmac key t rnd req = Inl (Forbidden ''CSRF token missing''))"
proof (intro conjI impI)
  assume e: "\<not> exempt req"
  have "split_on (CHR ''.'') token = ts # sig # rest \<Longrightarrow> token \<noteq> []" for token ts sig rest by auto
  then show "csrf_use hmac key t rnd req = Inr y \<longleftrightarrow> y = no_reply \<and>
       (\<exists>token secret ts sig rest. sent_token req = JStr (Plain token) \<and> map_of (cq_cookies req) SECRET_COOKIE = Some secret \<and>
          secret \<noteq> [] \<and> split_on (CHR ''.'') token = ts # sig # rest \<and> ts \<noteq> [] \<and> sig = hmac key (secret @ '':'' @ ts) \<and>
          (\<forall>u. parse_int ts = Some u \<longrightarrow> t \<le> u + TOKEN_MAX_AGE))"
    unfolding csrf_use_unsafe [OF assms(1,3) e] validate_token_iff [OF assms(1)] by blast
next
  assume a: "\<not> exempt req \<and> token = generate_token hmac key now secret \<and>
       (header_of ''x-csrf-token'' req = Some token \<or>
        \<not> truthy_str (header_of ''x-csrf-token'' req) \<and> header_of ''x-xsrf-token'' req = Some token \<or>
        \<not> truthy_str (header_of ''x-csrf-token'' req) \<and> \<not> truthy_str (header_of ''x-xsrf-token'' req) \<and>
          body_field ''_csrf'' req = JStr (Plain token))"
  have t: "truthy_str (Some (generate_token hmac key now secret))" by (simp add: truthy_str_def)
  have "sent_token req = JStr (Plain (generate_token hmac key now secret))"
    using a t by (auto simp: sent_token_def)
  moreover have "validate_token hmac key t (generate_token hmac key now secret) own \<longleftrightarrow> t \<le> now + TOKEN_MAX_AGE \<and>
      hmac key (own @ '':'' @ nat_text (nat now)) = hmac key (secret @ '':'' @ nat_text (nat now))" for own
    using assms(1,2) by (subst validate_generated) (auto simp: hex_hmac_def)
  ultimately show "csrf_use hmac key t rnd req = Inr y \<longleftrightarrow> y = no_reply \<and> t \<le> now + TOKEN_MAX_AGE \<and>
          (\<exists>own. map_of (cq_cookies req) SECRET_COOKIE = Some own \<and> own \<noteq> [] \<and>
             hmac key (own @ '':'' @ nat_text (nat now)) = hmac key (secret @ '':'' @ nat_text (nat now)))"
    using a by (auto simp: csrf_use_unsafe [OF assms(1,3)])
next
  assume "(\<forall>h \<in> set [''x-csrf-token'', ''x-xsrf-token'', ''x-api-key'', ''authorization'']. header_of h req = None) \<and>
       truthy_str (header_of ''origin'' req) \<and> cq_body req = None \<and> \<not> is_excluded_path (cq_path req)"
  then show "csrf_use hmac key t rnd req = Inl (Forbidden ''CSRF token missing'')"
    using assms(3) by (simp add: csrf_use_def exempt_def has_provider_token_def body_field_def sent_token_def truthy_str_def)
qed

text \<open>The token that the route for a new one answers cannot be used: the cookies are cleared after the middleware set
  them, so the browser has no secret to go with it, and every unsafe request that is not exempt is refused.\<close>

theorem refreshed_token_refused:
  assumes "csrf_use hmac key now rnd req = Inr y" "refresh_csrf_token req y = (token, y2)"
    "cq_cookies req2 = browser_jar y2 (cq_cookies req)" "cq_method req2 \<notin> set safe_methods" "\<not> exempt req2"
  shows "csrf_use hmac key t rnd2 req2 = Inl (Forbidden ''CSRF token missing'')"
proof -
  have "map_of (cq_cookies req2) SECRET_COOKIE = None"
    using assms(2,3) by (auto simp: refresh_csrf_token_def browser_jar_def apply_cookie_def map_of_eq_None_iff)
  then show ?thesis using assms(4,5) by (simp add: csrf_use_def truthy_str_def)
qed

subsection \<open>Instances\<close>

fun text_code :: "string \<Rightarrow> nat" where
  "text_code [] = 0"
| "text_code (c # cs) = 1 + of_char c + 256 * text_code cs"

definition demo_hmac :: "string \<Rightarrow> string \<Rightarrow> string" where
  "demo_hmac key m = nat_text (text_code m)"

lemma demo_hmac_ok: "hex_hmac demo_hmac"
  using digit_not_dot by (auto simp: hex_hmac_def demo_hmac_def)

definition demo_visit :: csrf_request where
  "demo_visit = \<lparr>cq_method = ''GET'', cq_path = ''/'', cq_headers = [], cq_body = None, cq_cookies = []\<rparr>"

definition demo_post :: "csrf_reply \<Rightarrow> csrf_request" where
  "demo_post y = \<lparr>cq_method = ''POST'', cq_path = ''/api/v1/orders'', cq_headers = [(''x-csrf-token'', the (cy_token y)), (''origin'', ''o'')],
     cq_body = None, cq_cookies = browser_jar y []\<rparr>"

lemma demo_visit_ok: "csrf_use demo_hmac ''k'' 5 ''r'' demo_visit = Inr (ensure_csrf_token demo_hmac ''k'' 5 ''r'' demo_visit)"
  by (simp add: csrf_use_def demo_visit_def safe_methods_def)

theorem csrf_roundtrip_witness:
  "\<exists>y2. csrf_use demo_hmac ''k'' 1000 [] (demo_post (ensure_csrf_token demo_hmac ''k'' 5 ''r'' demo_visit)) = Inr y2"
proof -
  let ?y = "ensure_csrf_token demo_hmac ''k'' 5 ''r'' demo_visit"
  have "cq_method demo_visit \<in> set safe_methods" by (simp add: demo_visit_def safe_methods_def)
  moreover have "cq_cookies (demo_post ?y) = browser_jar ?y (cq_cookies demo_visit)" by (simp add: demo_post_def demo_visit_def)
  moreover have "header_of ''x-csrf-token'' (demo_post ?y) = cy_token ?y" by (simp add: header_of_def demo_post_def ensure_csrf_token_def Let_def)
  ultimately show ?thesis using csrf_roundtrip [OF demo_hmac_ok _ _ _ demo_visit_ok, of "demo_post ?y" 1000 "[]"]
    by (simp add: TOKEN_MAX_AGE_def)
qed

lemma demo_post_unsafe: "cq_method (demo_post y) \<notin> set safe_methods" "\<not> exempt (demo_post y)"
  by (simp_all add: demo_post_def safe_methods_def exempt_def header_of_def truthy_str_def has_provider_token_def body_field_def
      is_excluded_path_def strip_slashes_def excluded_paths_def to_lower_def to_lower_char_def starts_with_def)

theorem csrf_blocks_forgery_witness:
  "csrf_use demo_hmac ''k'' 9 [] ((demo_post no_reply)\<lparr>cq_headers := [(''origin'', ''evil'')]\<rparr>) = Inl (Forbidden ''CSRF token missing'') \<and>
   csrf_use demo_hmac ''k'' 9 [] ((demo_post no_reply)\<lparr>cq_headers := [(''origin'', ''o''), (''x-xsrf-token'', generate_token demo_hmac ''k'' 5 ''r'')],
     cq_cookies := [(SECRET_COOKIE, ''s'')]\<rparr>) \<noteq> Inr no_reply"
proof
  let ?req = "(demo_post no_reply)\<lparr>cq_headers := [(''origin'', ''evil'')]\<rparr>"
  have "cq_method ?req \<notin> set safe_methods" using demo_post_unsafe(1) [of no_reply] by simp
  moreover have "\<not> is_excluded_path (cq_path ?req)" using demo_post_unsafe(2) [of no_reply] by (simp add: exempt_def)
  ultimately show "csrf_use demo_hmac ''k'' 9 [] ?req = Inl (Forbidden ''CSRF token missing'')"
    using csrf_blocks_forgery [OF demo_hmac_ok, of 0 ?req "''k''" 9 "[]" no_reply]
    by (simp add: header_of_def truthy_str_def demo_post_def)
  let ?tok = "generate_token demo_hmac ''k'' 5 ''r''"
  let ?req2 = "(demo_post no_reply)\<lparr>cq_headers := [(''origin'', ''o''), (''x-xsrf-token'', ?tok)], cq_cookies := [(SECRET_COOKIE, ''s'')]\<rparr>"
  have u: "cq_method ?req2 \<notin> set safe_methods" using demo_post_unsafe(1) [of no_reply] by simp
  have e: "\<not> exempt ?req2" using demo_post_unsafe(2) [of no_reply]
    by (simp add: exempt_def header_of_def truthy_str_def has_provider_token_def body_field_def demo_post_def)
  have "text_code ''s:5'' \<noteq> text_code ''r:5''" by simp
  then have "nat_text (text_code ''s:5'') \<noteq> nat_text (text_code ''r:5'')" using parse_int_nat_text by (metis of_nat_eq_iff option.inject)
  moreover have "nat_text 5 = ''5''" by code_simp
  ultimately show "csrf_use demo_hmac ''k'' 9 [] ?req2 \<noteq> Inr no_reply"
    using csrf_blocks_forgery [where hmac = demo_hmac and now = 5 and req = ?req2 and key = "''k''" and t = 9 and rnd = "[]" and y = no_reply
        and token = ?tok and secret = "''r''", OF demo_hmac_ok _ u, THEN conjunct2, THEN conjunct1] e
    by (simp add: header_of_def truthy_str_def demo_hmac_def del: text_code.simps)
qed

theorem refreshed_token_refused_witness:
  "csrf_use demo_hmac ''k'' 9 [] (demo_post (snd (refresh_csrf_token demo_visit (ensure_csrf_token demo_hmac ''k'' 5 ''r'' demo_visit)))) =
     Inl (Forbidden ''CSRF token missing'')"
proof -
  let ?y = "ensure_csrf_token demo_hmac ''k'' 5 ''r'' demo_visit"
  obtain tok y2 where y2: "refresh_csrf_token demo_visit ?y = (tok, y2)" by fastforce
  have "cq_cookies (demo_post y2) = browser_jar y2 (cq_cookies demo_visit)" by (simp add: demo_post_def demo_visit_def)
  from refreshed_token_refused [OF demo_visit_ok y2 this demo_post_unsafe] show ?thesis by (simp add: y2)
qed

end
