(* ===== verification/Import_Jobs.thy ===== *)
theory Import_Jobs
  imports Import_Validation
begin

section \<open>Import jobs\<close>

text \<open>
  \<open>modules/import-export\<close>: \<open>services/import.service.ts\<close> and \<open>services/file-storage.service.ts\<close>, the requests, and
  \<open>processors/import.processor.ts\<close>, the worker. What the readers of the file formats and the validators of the
  entities make of a file and a record, and what the database takes into the table of an entity, are the
  parameters \<open>import_env\<close>; the worker goes from batch to batch, so other requests and other workers can come
  between, and a run is a value of its own. The queue is the list of what has been handed to it: a worker may be
  given any of it, more than once. A database statement fails as a whole. Export jobs, which share the table of the
  jobs and are told apart by their type, are not among the rows. Progress in Redis, which nothing reads,
  and the events of the websocket are left out.
\<close>

subsection \<open>Parameters, rows and the queue\<close>

datatype entity_type = E_PRODUCT | E_ORDER | E_USER | E_CATEGORY | E_SELLER | E_BUYER | E_TRANSACTION | E_INVENTORY

datatype file_format = F_CSV | F_EXCEL | F_JSON | F_XML

datatype job_status = J_QUEUED | J_PROCESSING | J_COMPLETED | J_FAILED | J_CANCELLED

datatype job_priority = J_URGENT | J_NORMAL | J_LOW

record import_options =
  io_validateData :: "bool option"
  io_skipInvalid :: "bool option"
  io_batchSize :: "int option"

record parse_result =
  pa_success :: bool
  pa_data :: "cells list option"
  pa_error :: "string option"

text \<open>\<open>ie_row\<close> is \<open>transformForDatabase\<close> after \<open>transformData\<close>. A row can have values the columns do not take
  (\<open>ie_valid\<close>), refer to rows that do not exist (\<open>ie_refs\<close>) or agree with another on a unique column
  (\<open>ie_clash\<close>).\<close>

record 'r import_env =
  ie_js :: js_lib
  ie_lookup :: lookup
  ie_maxSize :: int
  ie_baseUrl :: string
  ie_parse :: "file_format \<Rightarrow> import_options option \<Rightarrow> string \<Rightarrow> parse_result"
  ie_rules :: "entity_type \<Rightarrow> rule list"
  ie_transform :: "entity_type \<Rightarrow> cells \<Rightarrow> string + cells"
  ie_row :: "entity_type \<Rightarrow> cells \<Rightarrow> string + 'r"
  ie_valid :: "entity_type \<Rightarrow> 'r \<Rightarrow> bool"
  ie_refs :: "entity_type \<Rightarrow> 'r \<Rightarrow> bool"
  ie_clash :: "entity_type \<Rightarrow> 'r \<Rightarrow> 'r \<Rightarrow> bool"

record import_job =
  ij_id :: string
  ij_entityType :: entity_type
  ij_fileFormat :: file_format
  ij_status :: job_status
  ij_priority :: job_priority
  ij_fileName :: string
  ij_fileUrl :: string
  ij_fileSize :: int
  ij_total :: int
  ij_processed :: int
  ij_success :: int
  ij_failure :: int
  ij_warning :: int
  ij_percent :: int
  ij_estimated :: "rat option"
  ij_options :: "import_options option"
  ij_startedAt :: "ms option"
  ij_completedAt :: "ms option"
  ij_createdBy :: string
  ij_createdAt :: ms

record import_error =
  ix_jobId :: string
  ix_row :: int
  ix_field :: "string option"
  ix_code :: string
  ix_severity :: severity
  ix_message :: string
  ix_suggestion :: string
  ix_original :: "string option"

record import_data =
  im_jobId :: string
  im_entityType :: entity_type
  im_fileKey :: string
  im_fileFormat :: file_format
  im_validCount :: int
  im_options :: "import_options option"

record 'r import_world =
  iw_jobs :: "import_job list"
  iw_errors :: "import_error list"
  iw_files :: "(string \<times> string) list"
  iw_queue :: "(import_data \<times> int) list option"
  iw_users :: "string list"
  iw_tables :: "entity_type \<Rightarrow> 'r list"

definition find_job :: "string \<Rightarrow> 'r import_world \<Rightarrow> import_job option" where
  "find_job i w = find_by ij_id i (iw_jobs w)"

definition write_job :: "string \<Rightarrow> (import_job \<Rightarrow> import_job) \<Rightarrow> 'r import_world \<Rightarrow> 'r import_world" where
  "write_job i f w = w\<lparr>iw_jobs := update_by ij_id i f (iw_jobs w)\<rparr>"

text \<open>\<open>map\<close> of a function that may throw.\<close>

fun map_throw :: "('a \<Rightarrow> string + 'b) \<Rightarrow> 'a list \<Rightarrow> string + 'b list" where
  "map_throw f [] = Inr []"
| "map_throw f (x # xs) =
     (case f x of Inl e \<Rightarrow> Inl e | Inr y \<Rightarrow> (case map_throw f xs of Inl e \<Rightarrow> Inl e | Inr ys \<Rightarrow> Inr (y # ys)))"

subsection \<open>Storage\<close>

definition sanitized_name :: "string \<Rightarrow> string" where
  "sanitized_name s =
     map (\<lambda>c. let n = of_char c :: nat in if (97 \<le> n \<and> n \<le> 122) \<or> (65 \<le> n \<and> n \<le> 90) \<or> is_digit_char c \<or> n = 46 \<or> n = 45 then c else CHR ''_'') s"

definition file_key :: "ms \<Rightarrow> string \<Rightarrow> string" where
  "file_key now name = ''imports/'' @ Prelude.nat_text (nat now) @ ''-'' @ sanitized_name name"

definition file_url :: "'r import_env \<Rightarrow> string \<Rightarrow> string" where
  "file_url env key = ie_baseUrl env @ ''/api/v1/files/'' @ key"

text \<open>\<open>fileUrl.split('/').pop()\<close>\<close>

definition last_segment :: "string \<Rightarrow> string" where
  "last_segment url = last (split_on (CHR ''/'') url)"

subsection \<open>Requests\<close>

record uploaded_file =
  uf_name :: string
  uf_size :: int
  uf_buffer :: string

definition validate_file :: "int \<Rightarrow> uploaded_file option \<Rightarrow> uploaded_file res" where
  "validate_file maxSize f =
     (case f of None \<Rightarrow> Inl (BadRequest ''No file uploaded'')
      | Some u \<Rightarrow>
          if uf_buffer u = [] then Inl (BadRequest ''No file uploaded'')
          else if uf_size u > maxSize then Inl (BadRequest ''File too large'')
          else if uf_name u = [] then Inl (BadRequest ''File name is required'')
          else Inr u)"

definition has_validator :: "entity_type \<Rightarrow> bool" where
  "has_validator e \<longleftrightarrow> e \<in> {E_PRODUCT, E_USER, E_ORDER}"

definition queue_priority :: "job_priority option \<Rightarrow> int" where
  "queue_priority p = (case p of Some J_URGENT \<Rightarrow> 1 | Some J_NORMAL \<Rightarrow> 5 | Some J_LOW \<Rightarrow> 10 | None \<Rightarrow> 5)"

text \<open>The service of the validation reads neither \<open>skipInvalid\<close> nor a missing \<open>stopOnFirstError\<close>.\<close>

definition upload_options :: "import_options option \<Rightarrow> voptions" where
  "upload_options opt =
     (let b = (case Option.bind opt io_validateData of None \<Rightarrow> True | Some b \<Rightarrow> b)
      in \<lparr>stopOnFirstError = False, maxErrors = Some 100, validateUnique = b, validateForeignKeys = b\<rparr>)"

definition validation_error_row :: "js_lib \<Rightarrow> string \<Rightarrow> verror \<Rightarrow> import_error" where
  "validation_error_row js i e =
     \<lparr>ix_jobId = i, ix_row = e_row e, ix_field = Some (e_field e), ix_code = e_code e, ix_severity = e_severity e,
      ix_message = e_message e, ix_suggestion = e_suggestion e,
      ix_original = (case e_originalValue e of
          Undefined \<Rightarrow> None | Null \<Rightarrow> None | Boolean False \<Rightarrow> None
        | v \<Rightarrow> if v = Number 0 \<or> v = Text [] then None else Some (cell_text js v))\<rparr>"

record start_import =
  si_entityType :: entity_type
  si_fileFormat :: file_format
  si_priority :: "job_priority option"
  si_options :: "import_options option"

record import_result =
  ir_job :: import_job
  ir_preview :: "cells list"
  ir_valid :: nat
  ir_invalid :: nat
  ir_warning :: nat
  ir_errors :: nat
  ir_warnings :: nat
  ir_estimated :: int

text \<open>A reader that reports success with no data, or a failure, ends the request; the file stays stored.\<close>

definition parsed_records :: "parse_result \<Rightarrow> cells list option" where
  "parsed_records p = (case pa_data p of Some (r # rs) \<Rightarrow> if pa_success p then Some (r # rs) else None | _ \<Rightarrow> None)"

definition new_job :: "ms \<Rightarrow> string \<Rightarrow> start_import \<Rightarrow> uploaded_file \<Rightarrow> string \<Rightarrow> int \<Rightarrow> string \<Rightarrow> import_job" where
  "new_job now newId dto u url n userId =
     \<lparr>ij_id = newId, ij_entityType = si_entityType dto, ij_fileFormat = si_fileFormat dto, ij_status = J_QUEUED,
      ij_priority = (case si_priority dto of None \<Rightarrow> J_NORMAL | Some p \<Rightarrow> p), ij_fileName = uf_name u, ij_fileUrl = url,
      ij_fileSize = uf_size u, ij_total = n, ij_processed = 0, ij_success = 0, ij_failure = 0, ij_warning = 0,
      ij_percent = 0, ij_estimated = None, ij_options = si_options dto, ij_startedAt = None, ij_completedAt = None,
      ij_createdBy = userId, ij_createdAt = now\<rparr>"

definition enqueue_import :: "import_data \<Rightarrow> int \<Rightarrow> 'r import_world \<Rightarrow> 'r import_world" where
  "enqueue_import d p w = w\<lparr>iw_queue := map_option (\<lambda>q. q @ [(d, p)]) (iw_queue w)\<rparr>"

definition create_job ::
  "'r import_env \<Rightarrow> ms \<Rightarrow> string \<Rightarrow> start_import \<Rightarrow> uploaded_file \<Rightarrow> string \<Rightarrow> string \<Rightarrow> cells list \<Rightarrow> cells list \<Rightarrow> batch_result \<Rightarrow> 'r import_world \<Rightarrow> import_result res \<times> 'r import_world" where
  "create_job env now newId dto u key userId recs transformed b w =
     (let job = new_job now newId dto u (file_url env key) (int (length recs)) userId;
          w1 = w\<lparr>iw_jobs := iw_jobs w @ [job],
             iw_errors := iw_errors w @ map (validation_error_row (ie_js env) newId) (b_errors b @ b_warnings b)\<rparr>;
          d = \<lparr>im_jobId = newId, im_entityType = si_entityType dto, im_fileKey = key, im_fileFormat = si_fileFormat dto,
             im_validCount = int (b_validRecords b), im_options = si_options dto\<rparr>
      in (Inr \<lparr>ir_job = job, ir_preview = take 10 transformed, ir_valid = b_validRecords b, ir_invalid = b_invalidRecords b,
             ir_warning = b_warningRecords b, ir_errors = length (b_errors b), ir_warnings = length (b_warnings b),
             ir_estimated = int (b_validRecords b) * 30\<rparr>,
          enqueue_import d (queue_priority (si_priority dto)) w1))"

definition import_upload ::
  "'r import_env \<Rightarrow> ms \<Rightarrow> string \<Rightarrow> uploaded_file option \<Rightarrow> start_import \<Rightarrow> string \<Rightarrow> 'r import_world \<Rightarrow> import_result res \<times> 'r import_world" where
  "import_upload env now newId f dto userId w =
     (case validate_file (ie_maxSize env) f of Inl e \<Rightarrow> (Inl e, w)
      | Inr u \<Rightarrow>
          let key = file_key now (uf_name u); w1 = w\<lparr>iw_files := js_map_set key (uf_buffer u) (iw_files w)\<rparr>;
              p = ie_parse env (si_fileFormat dto) (si_options dto) (uf_buffer u); e = si_entityType dto
          in case parsed_records p of
               None \<Rightarrow> (Inl (BadRequest (str_or (pa_error p) ''File is empty or invalid'')), w1)
             | Some recs \<Rightarrow>
                 if \<not> has_validator e then (Inl (BadRequest ''Validator not implemented for entity type''), w1)
                 else (case map_throw (ie_transform env e) recs of
                     Inl x \<Rightarrow> (Inl (InternalError x), w1)
                   | Inr transformed \<Rightarrow>
                       (case validate_batch (ie_js env) (ie_lookup env) (upload_options (si_options dto)) (ie_rules env e) transformed of
                          Inl x \<Rightarrow> (Inl (InternalError x), w1)
                        | Inr b \<Rightarrow>
                            if userId \<notin> set (iw_users w1) then (Inl (InternalError ''Foreign key constraint violated''), w1)
                            else create_job env now newId dto u key userId recs transformed b w1)))"

text \<open>The guards the requests on a job share.\<close>

definition own_job :: "string \<Rightarrow> string \<Rightarrow> string \<Rightarrow> 'r import_world \<Rightarrow> import_job res" where
  "own_job refusal i userId w =
     (case find_job i w of
        None \<Rightarrow> Inl (BadRequest (''Job '' @ i @ '' not found''))
      | Some j \<Rightarrow> if ij_createdBy j \<noteq> userId then Inl (BadRequest refusal) else Inr j)"

definition get_import_job :: "string \<Rightarrow> string \<Rightarrow> 'r import_world \<Rightarrow> (import_job \<times> import_error list) res" where
  "get_import_job i userId w =
     (case own_job ''Unauthorized to view this job'' i userId w of
        Inl e \<Rightarrow> Inl e
      | Inr j \<Rightarrow> Inr (j, take 100 (filter (\<lambda>x. ix_jobId x = i) (iw_errors w))))"

definition list_import_jobs ::
  "string \<Rightarrow> entity_type option \<Rightarrow> job_status option \<Rightarrow> int option \<Rightarrow> int option \<Rightarrow> 'r import_world \<Rightarrow> import_job list \<times> int \<times> int \<times> int \<times> int" where
  "list_import_jobs userId e st page limit w =
     (let p = num_or page 1; n = min (num_or limit 20) 100;
          js = filter (\<lambda>j. ij_createdBy j = userId \<and> (e = None \<or> e = Some (ij_entityType j)) \<and> (st = None \<or> st = Some (ij_status j))) (iw_jobs w)
      in (page_rows p n (sort_by (\<lambda>x y. ij_createdAt y \<le> ij_createdAt x) js), int (length js), p, n, total_pages (int (length js)) n))"

text \<open>\<open>rm\<close> is what finding the job in the queue and removing it comes to; without a queue there is nothing to ask.\<close>

definition cancel_import :: "ms \<Rightarrow> unit res \<Rightarrow> string \<Rightarrow> string \<Rightarrow> 'r import_world \<Rightarrow> unit res \<times> 'r import_world" where
  "cancel_import now rm i userId w =
     (case own_job ''Unauthorized to cancel this job'' i userId w of
        Inl e \<Rightarrow> (Inl e, w)
      | Inr j \<Rightarrow>
          if ij_status j = J_COMPLETED \<or> ij_status j = J_FAILED
          then (Inl (BadRequest ''Cannot cancel completed or failed job''), w)
          else if iw_queue w = None then (Inl (InternalError ''importQueue is null''), w)
          else (case rm of Inl e \<Rightarrow> (Inl e, w)
            | Inr _ \<Rightarrow> (Inr (), write_job i (\<lambda>j. j\<lparr>ij_status := J_CANCELLED, ij_completedAt := Some now\<rparr>) w)))"

definition reset_job :: "import_job \<Rightarrow> import_job" where
  "reset_job j = j\<lparr>ij_status := J_QUEUED, ij_processed := 0, ij_success := 0, ij_failure := 0, ij_warning := 0, ij_percent := 0,
     ij_startedAt := None, ij_completedAt := None\<rparr>"

definition retry_data :: "import_job \<Rightarrow> import_data" where
  "retry_data j = \<lparr>im_jobId = ij_id j, im_entityType = ij_entityType j, im_fileKey = last_segment (ij_fileUrl j),
     im_fileFormat = ij_fileFormat j, im_validCount = ij_total j - ij_failure j, im_options = ij_options j\<rparr>"

definition retry_import :: "string \<Rightarrow> string \<Rightarrow> 'r import_world \<Rightarrow> string res \<times> 'r import_world" where
  "retry_import i userId w =
     (case own_job ''Unauthorized to retry this job'' i userId w of
        Inl e \<Rightarrow> (Inl e, w)
      | Inr j \<Rightarrow>
          if ij_status j \<noteq> J_FAILED then (Inl (BadRequest ''Can only retry failed jobs''), w)
          else let w1 = write_job i reset_job w
            in if iw_queue w1 = None then (Inl (InternalError ''importQueue is null''), w1)
               else (Inr i, enqueue_import (retry_data j) (queue_priority (Some (ij_priority j))) w1))"

subsection \<open>The worker\<close>

text \<open>\<open>createMany\<close>: one statement for all rows; with \<open>skipDuplicates\<close> those that clash are left out.\<close>

fun create_many :: "'r import_env \<Rightarrow> entity_type \<Rightarrow> bool \<Rightarrow> 'r list \<Rightarrow> 'r list \<Rightarrow> 'r list option" where
  "create_many env e skip [] rows = Some rows"
| "create_many env e skip (r # rs) rows =
     (if \<not> ie_valid env e r then None
      else if \<exists>x \<in> set rows. ie_clash env e x r then (if skip then create_many env e skip rs rows else None)
      else if \<not> ie_refs env e r then None
      else create_many env e skip rs (rows @ [r]))"

definition takes_row :: "'r import_env \<Rightarrow> entity_type \<Rightarrow> 'r list \<Rightarrow> 'r \<Rightarrow> bool" where
  "takes_row env e rows r \<longleftrightarrow> ie_valid env e r \<and> ie_refs env e r \<and> \<not> (\<exists>x \<in> set rows. ie_clash env e x r)"

text \<open>The single inserts after the statement for the whole batch has failed, from the \<open>i\<close>-th record of the batch on:
  successes, failures, errors and the table.\<close>

fun create_each :: "'r import_env \<Rightarrow> entity_type \<Rightarrow> int \<Rightarrow> 'r list \<Rightarrow> 'r list \<Rightarrow> int \<times> int \<times> (int \<times> string) list \<times> 'r list" where
  "create_each env e i [] rows = (0, 0, [], rows)"
| "create_each env e i (r # rs) rows =
     (if takes_row env e rows r
      then let (s, f, es, rows') = create_each env e (i + 1) rs (rows @ [r]) in (s + 1, f, es, rows')
      else let (s, f, es, rows') = create_each env e (i + 1) rs rows in (s, f + 1, (i + 1, ''constraint'') # es, rows'))"

definition insert_batch :: "'r import_env \<Rightarrow> entity_type \<Rightarrow> bool \<Rightarrow> 'r list \<Rightarrow> 'r list \<Rightarrow> int \<times> int \<times> (int \<times> string) list \<times> 'r list" where
  "insert_batch env e skip batch rows =
     (case create_many env e skip batch rows of
        Some rows' \<Rightarrow> (int (length rows') - int (length rows), 0, [], rows')
      | None \<Rightarrow> create_each env e 0 batch rows)"

record 'r import_run =
  ru_data :: import_data
  ru_records :: "'r list"
  ru_start :: ms
  ru_next :: int
  ru_processed :: int
  ru_success :: int
  ru_failure :: int
  ru_errors :: "(int \<times> string) list"

definition batch_size :: "import_data \<Rightarrow> int" where
  "batch_size d = num_or (Option.bind (im_options d) io_batchSize) 1000"

definition skips :: "import_data \<Rightarrow> bool" where
  "skips d \<longleftrightarrow> Option.bind (im_options d) io_skipInvalid = Some True"

definition total_batches :: "'r import_run \<Rightarrow> int" where
  "total_batches r = ceil_div (int (length (ru_records r))) (batch_size (ru_data r))"

definition processing_error_rows :: "string \<Rightarrow> (int \<times> string) list \<Rightarrow> import_error list" where
  "processing_error_rows i es =
     map (\<lambda>(row, m). \<lparr>ix_jobId = i, ix_row = row, ix_field = None, ix_code = ''PROCESSING_ERROR'', ix_severity = ERROR, ix_message = m,
       ix_suggestion = ''Check data format and database constraints'', ix_original = None\<rparr>) es"

definition fail_job :: "ms \<Rightarrow> string \<Rightarrow> string \<Rightarrow> 'r import_world \<Rightarrow> 'r import_world" where
  "fail_job now i e w =
     (let w1 = write_job i (\<lambda>j. j\<lparr>ij_status := J_FAILED, ij_completedAt := Some now, ij_percent := 0\<rparr>) w
      in w1\<lparr>iw_errors := iw_errors w1 @ processing_error_rows i [(0, ''Fatal error: '' @ e)]\<rparr>)"

text \<open>Up to the loop; the answer is the run or the error that is thrown. A job that is gone cannot be marked.\<close>

definition process_start :: "'r import_env \<Rightarrow> ms \<Rightarrow> import_data \<Rightarrow> 'r import_world \<Rightarrow> (string + 'r import_run) \<times> 'r import_world" where
  "process_start env now d w =
     (let i = im_jobId d in
      if find_job i w = None then (Inl ''Record to update not found'', w)
      else let w1 = write_job i (\<lambda>j. j\<lparr>ij_status := J_PROCESSING, ij_startedAt := Some now\<rparr>) w;
             failed = (\<lambda>e. (Inl e, fail_job now i e w1))
        in case map_of (iw_files w1) (im_fileKey d) of
             None \<Rightarrow> failed ''File download failed''
           | Some bytes \<Rightarrow>
               (case parsed_records (ie_parse env (im_fileFormat d) (im_options d) bytes) of
                  None \<Rightarrow> failed ''File parsing failed or file is empty''
                | Some recs \<Rightarrow>
                    if \<not> has_validator (im_entityType d) then failed ''Validator not implemented for entity type''
                    else (case map_throw (ie_row env (im_entityType d)) recs of
                        Inl e \<Rightarrow> failed e
                      | Inr rs \<Rightarrow> (Inr \<lparr>ru_data = d, ru_records = rs, ru_start = now, ru_next = 0, ru_processed = 0,
                          ru_success = 0, ru_failure = 0, ru_errors = []\<rparr>, w1))))"

text \<open>\<open>Math.round\<close> of a percentage.\<close>

definition percent_of :: "int \<Rightarrow> int \<Rightarrow> int" where
  "percent_of p n = (200 * p + n) div (2 * n)"

definition current_batch :: "'r import_run \<Rightarrow> 'r list" where
  "current_batch r =
     (let n = int (length (ru_records r)); b = batch_size (ru_data r); a = ru_next r * b
      in drop (nat a) (take (nat (min (a + b) n)) (ru_records r)))"

definition count_batch :: "nat \<Rightarrow> int \<Rightarrow> int \<Rightarrow> (int \<times> string) list \<Rightarrow> 'r import_run \<Rightarrow> 'r import_run" where
  "count_batch k s f es r =
     r\<lparr>ru_next := ru_next r + 1, ru_processed := ru_processed r + int k, ru_success := ru_success r + s,
       ru_failure := ru_failure r + f, ru_errors := ru_errors r @ es\<rparr>"

text \<open>The estimate is never negative.\<close>

definition time_left :: "ms \<Rightarrow> 'r import_run \<Rightarrow> rat" where
  "time_left now r =
     (let elapsed = of_int (now - ru_start r)
      in max 0 (elapsed / of_int (ru_processed r) * of_int (int (length (ru_records r))) - elapsed))"

definition update_progress :: "ms \<Rightarrow> 'r import_run \<Rightarrow> 'r import_world \<Rightarrow> 'r import_world" where
  "update_progress now r w =
     write_job (im_jobId (ru_data r)) (\<lambda>j. j\<lparr>ij_processed := ru_processed r, ij_success := ru_success r, ij_failure := ru_failure r,
       ij_warning := 0, ij_percent := percent_of (ru_processed r) (int (length (ru_records r))), ij_estimated := Some (time_left now r)\<rparr>) w"

definition process_batch :: "'r import_env \<Rightarrow> ms \<Rightarrow> 'r import_run \<Rightarrow> 'r import_world \<Rightarrow> 'r import_run \<times> 'r import_world" where
  "process_batch env now r w =
     (let e = im_entityType (ru_data r);
          (s, f, es, rows) = insert_batch env e (skips (ru_data r)) (current_batch r) (iw_tables w e);
          r1 = count_batch (length (current_batch r)) s f es r
      in (r1, update_progress now r1 (w\<lparr>iw_tables := (iw_tables w)(e := rows)\<rparr>)))"

definition process_finish :: "ms \<Rightarrow> 'r import_run \<Rightarrow> 'r import_world \<Rightarrow> 'r import_world" where
  "process_finish now r w =
     (let i = im_jobId (ru_data r);
          w1 = write_job i (\<lambda>j. j\<lparr>ij_status := J_COMPLETED, ij_completedAt := Some now, ij_processed := ru_processed r,
             ij_success := ru_success r, ij_failure := ru_failure r, ij_percent := 100, ij_estimated := Some (of_int (now - ru_start r))\<rparr>) w
      in w1\<lparr>iw_errors := iw_errors w1 @ processing_error_rows i (ru_errors r)\<rparr>)"

text \<open>A worker that nothing interrupts.\<close>

primrec process_batches :: "'r import_env \<Rightarrow> ms \<Rightarrow> nat \<Rightarrow> 'r import_run \<Rightarrow> 'r import_world \<Rightarrow> 'r import_run \<times> 'r import_world" where
  "process_batches env now 0 r w = (r, w)"
| "process_batches env now (Suc n) r w = (let (r1, w1) = process_batch env now r w in process_batches env now n r1 w1)"

definition process_import :: "'r import_env \<Rightarrow> ms \<Rightarrow> import_data \<Rightarrow> 'r import_world \<Rightarrow> (string + 'r import_run) \<times> 'r import_world" where
  "process_import env now d w =
     (case process_start env now d w of
        (Inl e, w1) \<Rightarrow> (Inl e, w1)
      | (Inr r, w1) \<Rightarrow> (let (r2, w2) = process_batches env now (nat (total_batches r)) r w1 in (Inr r2, process_finish now r2 w2)))"

end
