(* ===== verification/Import_Job_Facts.thy ===== *)
theory Import_Job_Facts
  imports Import_Jobs
begin

section \<open>What holds of the imports\<close>

text \<open>
  What a run of the worker leaves in the tables, for every size of a batch: the records inserted one by one. A
  second delivery adds nothing; the counters of a job over every interleaving of requests and workers; and the
  retry that cannot find its file.
\<close>

subsection \<open>Inserting a batch\<close>

fun insert_all :: "'r import_env \<Rightarrow> entity_type \<Rightarrow> 'r list \<Rightarrow> 'r list \<Rightarrow> 'r list" where
  "insert_all env e rows [] = rows"
| "insert_all env e rows (r # rs) = insert_all env e (if takes_row env e rows r then rows @ [r] else rows) rs"

lemma insert_all_append: "insert_all env e rows (xs @ ys) = insert_all env e (insert_all env e rows xs) ys"
  by (induction xs arbitrary: rows) auto

lemma insert_all_extends: "\<exists>zs. insert_all env e rows rs = rows @ zs \<and> length zs \<le> length rs"
proof (induction rs arbitrary: rows)
  case (Cons r rs)
  show ?case
  proof (cases "takes_row env e rows r")
    case True
    with Cons [of "rows @ [r]"] show ?thesis by auto
  next
    case False
    with Cons [of rows] show ?thesis by fastforce
  qed
qed simp

lemma length_insert_all:
  "length rows \<le> length (insert_all env e rows rs)" "length (insert_all env e rows rs) \<le> length rows + length rs"
  using insert_all_extends [of env e rows rs] by auto

lemma create_many_insert_all: "create_many env e skip rs rows = Some rows' \<Longrightarrow> rows' = insert_all env e rows rs"
  by (induction env e skip rs rows rule: create_many.induct) (auto simp: takes_row_def split: if_splits)

lemma create_many_all: "create_many env e False rs rows = Some rows' \<Longrightarrow> length rows' = length rows + length rs"
  by (induction rs arbitrary: rows) (auto split: if_splits)

lemma create_each_insert_all:
  "create_each env e i rs rows = (s, f, es, rows') \<Longrightarrow>
     rows' = insert_all env e rows rs \<and> s = int (length rows') - int (length rows) \<and> s + f = int (length rs)"
proof (induction rs arbitrary: i rows s f es rows')
  case (Cons r rs)
  show ?case
  proof (cases "takes_row env e rows r")
    case True
    obtain s1 f1 es1 rows1 where c: "create_each env e (i + 1) rs (rows @ [r]) = (s1, f1, es1, rows1)" by (metis prod_cases4)
    from Cons.IH [OF c] Cons.prems True show ?thesis by (auto simp: c)
  next
    case False
    obtain s1 f1 es1 rows1 where c: "create_each env e (i + 1) rs rows = (s1, f1, es1, rows1)" by (metis prod_cases4)
    from Cons.IH [OF c] Cons.prems False show ?thesis by (auto simp: c)
  qed
qed simp

lemma insert_batch_insert_all:
  assumes "insert_batch env e skip b rows = (s, f, es, rows')"
  shows "rows' = insert_all env e rows b" "s = int (length rows') - int (length rows)" "s + f \<le> int (length b)" "0 \<le> f"
    "\<not> skip \<Longrightarrow> s + f = int (length b)"
proof -
  have "rows' = insert_all env e rows b \<and> s = int (length rows') - int (length rows) \<and> s + f \<le> int (length b) \<and> 0 \<le> f \<and>
      (\<not> skip \<longrightarrow> s + f = int (length b))"
  proof (cases "create_many env e skip b rows")
    case None
    with assms create_each_insert_all [of env e 0 b rows s f es rows'] length_insert_all(2) [of env e rows b]
    show ?thesis by (auto simp: insert_batch_def)
  next
    case (Some t)
    note t = create_many_insert_all [OF this]
    show ?thesis using assms Some length_insert_all(2) [of env e rows b] create_many_all [of env e b rows t]
      by (auto simp: insert_batch_def simp flip: t)
  qed
  then show "rows' = insert_all env e rows b" "s = int (length rows') - int (length rows)" "s + f \<le> int (length b)" "0 \<le> f"
    "\<not> skip \<Longrightarrow> s + f = int (length b)" by blast+
qed

lemma insert_all_id: "(\<And>r. r \<in> set rs \<Longrightarrow> \<not> takes_row env e rows r) \<Longrightarrow> insert_all env e rows rs = rows"
  by (induction rs) auto

lemma insert_all_refuses:
  "(\<forall>r \<in> set rs. ie_clash env e r r) \<Longrightarrow> r \<in> set rs \<Longrightarrow> \<not> takes_row env e (insert_all env e rows rs) r"
proof (induction rs arbitrary: rows)
  case (Cons x rs)
  let ?rows = "if takes_row env e rows x then rows @ [x] else rows"
  obtain zs where z: "insert_all env e ?rows rs = ?rows @ zs" using insert_all_extends [of env e ?rows rs] by blast
  have "\<not> takes_row env e (insert_all env e ?rows rs) x"
    unfolding z using Cons.prems(1) by (auto simp: takes_row_def split: if_splits)
  then show ?case using Cons by (cases "r = x") auto
qed simp

text \<open>So inserting the same records again changes nothing, if each has a unique column.\<close>

lemma insert_all_again: "\<forall>r \<in> set rs. ie_clash env e r r \<Longrightarrow> insert_all env e (insert_all env e rows rs) rs = insert_all env e rows rs"
  by (rule insert_all_id) (rule insert_all_refuses)

subsection \<open>A run from batch to batch\<close>

lemma find_job_write [simp]:
  "(\<And>j. ij_id (f j) = ij_id j) \<Longrightarrow> find_job k (write_job i f w) = (if k = i then map_option f (find_job i w) else find_job k w)"
  by (simp add: find_job_def write_job_def find_by_update_by)

lemma write_job_simps [simp]:
  "iw_tables (write_job i f w) = iw_tables w" "iw_files (write_job i f w) = iw_files w" "iw_queue (write_job i f w) = iw_queue w"
  "iw_users (write_job i f w) = iw_users w" "iw_errors (write_job i f w) = iw_errors w"
  by (simp_all add: write_job_def)

lemma find_job_errors [simp]: "find_job i (w\<lparr>iw_errors := es\<rparr>) = find_job i w" "find_job i (w\<lparr>iw_tables := ts\<rparr>) = find_job i w"
  by (simp_all add: find_job_def)

definition run_counted :: "'r import_run \<Rightarrow> bool" where
  "run_counted r \<longleftrightarrow> 0 \<le> ru_success r \<and> 0 \<le> ru_failure r \<and> ru_success r + ru_failure r \<le> ru_processed r \<and>
     ru_processed r \<le> int (length (ru_records r)) \<and> 0 \<le> ru_next r \<and> ru_records r \<noteq> [] \<and>
     (0 < batch_size (ru_data r) \<longrightarrow> ru_processed r = min (ru_next r * batch_size (ru_data r)) (int (length (ru_records r)))) \<and>
     (\<not> skips (ru_data r) \<longrightarrow> ru_success r + ru_failure r = ru_processed r)"

lemma less_ceil_div: "0 < b \<Longrightarrow> k < ceil_div n b \<longleftrightarrow> k * b < n"
proof -
  assume b: "0 < b"
  have "k < ceil_div n b \<longleftrightarrow> (of_int k :: rat) < of_int n / of_int b" by (simp add: ceil_div_def less_ceiling_iff Fract_of_int_quotient)
  also have "\<dots> \<longleftrightarrow> (of_int (k * b) :: rat) < of_int n" using b by (simp add: pos_less_divide_eq)
  finally show ?thesis by (simp only: of_int_less_iff)
qed

lemma ceil_div_neg: "b < 0 \<Longrightarrow> 0 \<le> n \<Longrightarrow> ceil_div n b \<le> 0"
  by (simp add: ceil_div_def Fract_of_int_quotient divide_nonneg_neg)

lemma batch_size_not_0 [simp]: "batch_size d \<noteq> 0"
  by (simp add: batch_size_def num_or_def split: option.splits)

lemma has_batch:
  assumes "0 \<le> ru_next r" "ru_next r < total_batches r"
  shows "0 < batch_size (ru_data r)" "ru_next r * batch_size (ru_data r) < int (length (ru_records r))"
proof -
  show b: "0 < batch_size (ru_data r)"
  proof (rule ccontr)
    assume "\<not> ?thesis"
    then have "batch_size (ru_data r) < 0" using batch_size_not_0 [of "ru_data r"] by linarith
    then show False using ceil_div_neg [of "batch_size (ru_data r)" "int (length (ru_records r))"] assms by (simp add: total_batches_def)
  qed
  show "ru_next r * batch_size (ru_data r) < int (length (ru_records r))" using assms(2) less_ceil_div [OF b] by (simp add: total_batches_def)
qed

lemma batch_split:
  assumes "0 \<le> a" "0 \<le> b"
  shows "take (nat (a + b)) xs = take (nat a) xs @ drop (nat a) (take (nat (min (a + b) (int (length xs)))) xs)"
proof -
  have "take (nat (min (a + b) (int (length xs)))) xs = take (nat (a + b)) xs" by (simp add: min_def)
  moreover have "take (nat a) (take (nat (a + b)) xs) = take (nat a) xs" using assms by (simp add: min_def nat_mono)
  ultimately show ?thesis by (metis append_take_drop_id)
qed

text \<open>The records a run has been through.\<close>

definition handled :: "'r import_run \<Rightarrow> 'r list" where
  "handled r = take (nat (ru_next r * batch_size (ru_data r))) (ru_records r)"

lemma length_handled:
  fixes r :: "'r import_run"
  shows "0 < batch_size (ru_data r) \<Longrightarrow> 0 \<le> ru_next r \<Longrightarrow> int (length (handled r)) = min (ru_next r * batch_size (ru_data r)) (int (length (ru_records r)))"
proof -
  assume "0 < batch_size (ru_data r)" "0 \<le> ru_next r"
  then have "0 \<le> ru_next r * batch_size (ru_data r)" by simp
  moreover have "int (length (take (nat a) xs)) = min a (int (length xs))" if "0 \<le> a" for a and xs :: "'r list"
    using that by (cases a) simp_all
  ultimately show ?thesis by (simp add: handled_def)
qed

lemma process_batch_effect:
  assumes p: "process_batch env now r w = (r', w')" and c: "run_counted r" and more: "ru_next r < total_batches r"
  shows "run_counted r'" "ru_data r' = ru_data r" "ru_records r' = ru_records r" "ru_next r' = ru_next r + 1"
    "\<exists>b. handled r' = handled r @ b \<and>
       iw_tables w' = (iw_tables w)(im_entityType (ru_data r) := insert_all env (im_entityType (ru_data r)) (iw_tables w (im_entityType (ru_data r))) b)"
    "ru_success r' - ru_success r = int (length (iw_tables w' (im_entityType (ru_data r)))) - int (length (iw_tables w (im_entityType (ru_data r))))"
proof -
  let ?d = "ru_data r" let ?e = "im_entityType ?d" let ?b = "batch_size ?d" let ?n = "int (length (ru_records r))" let ?a = "ru_next r * ?b"
  let ?batch = "current_batch r"
  have nx: "0 \<le> ru_next r" using c by (simp add: run_counted_def)
  note b = has_batch [OF nx more]
  obtain s f es rows where i: "insert_batch env ?e (skips ?d) ?batch (iw_tables w ?e) = (s, f, es, rows)" by (metis prod_cases4)
  note ib = insert_batch_insert_all [OF i]
  have r1: "r' = count_batch (length ?batch) s f es r" and w1: "w' = update_progress now r' (w\<lparr>iw_tables := (iw_tables w)(?e := rows)\<rparr>)"
    using p i by (auto simp: process_batch_def Let_def)
  have r': "ru_data r' = ?d" "ru_records r' = ru_records r" "ru_next r' = ru_next r + 1" "ru_processed r' = ru_processed r + int (length ?batch)"
    "ru_success r' = ru_success r + s" "ru_failure r' = ru_failure r + f" by (simp_all add: r1 count_batch_def)
  have w': "iw_tables w' = (iw_tables w)(?e := rows)" by (simp add: w1 update_progress_def)
  show "ru_data r' = ru_data r" "ru_records r' = ru_records r" "ru_next r' = ru_next r + 1" by fact+
  have a0: "0 \<le> ?a" using nx b(1) by simp
  have h: "handled r' = handled r @ ?batch"
    using batch_split [OF a0, of ?b "ru_records r"] b(1) by (simp add: handled_def r' distrib_right current_batch_def Let_def)
  show "\<exists>b. handled r' = handled r @ b \<and>
       iw_tables w' = (iw_tables w)(im_entityType (ru_data r) := insert_all env (im_entityType (ru_data r)) (iw_tables w (im_entityType (ru_data r))) b)"
    using h w' ib(1) by blast
  show "ru_success r' - ru_success r = int (length (iw_tables w' ?e)) - int (length (iw_tables w ?e))" by (simp add: r' w' ib(2))
  have "int (length (handled r)) = ru_processed r" using c b(1) nx length_handled [of r] by (simp add: run_counted_def)
  then have p': "ru_processed r' = int (length (handled r'))" by (simp add: r' h)
  then have "ru_processed r' = min (ru_next r' * ?b) ?n" using length_handled [of r'] b(1) nx by (simp add: r')
  moreover have "0 \<le> s" using length_insert_all(1) [of "iw_tables w ?e" env ?e ?batch] ib(1,2) by simp
  ultimately show "run_counted r'" using c ib(3-5) nx b(1) unfolding run_counted_def r' by auto
qed

text \<open>A run that nothing interrupts goes through all records.\<close>

lemma process_batches_effect:
  assumes "process_batches env now k r w = (r', w')" "run_counted r" "ru_next r + int k = total_batches r"
  shows "run_counted r' \<and> ru_data r' = ru_data r \<and> ru_records r' = ru_records r \<and> ru_next r' = total_batches r \<and>
    (\<exists>b. handled r' = handled r @ b \<and>
       iw_tables w' = (iw_tables w)(im_entityType (ru_data r) := insert_all env (im_entityType (ru_data r)) (iw_tables w (im_entityType (ru_data r))) b)) \<and>
    ru_success r' - ru_success r = int (length (iw_tables w' (im_entityType (ru_data r)))) - int (length (iw_tables w (im_entityType (ru_data r))))"
  using assms
proof (induction k arbitrary: r w)
  case (Suc k)
  obtain r1 w1 where p: "process_batch env now r w = (r1, w1)" by fastforce
  have more: "ru_next r < total_batches r" using Suc.prems(3) by simp
  note f = process_batch_effect [OF p Suc.prems(2) more]
  have rest: "process_batches env now k r1 w1 = (r', w')" using Suc.prems(1) by (simp add: p)
  have t: "total_batches r1 = total_batches r" by (simp add: total_batches_def f(2,3))
  have "ru_next r1 + int k = total_batches r1" using Suc.prems(3) by (simp add: t f(4))
  note IH = Suc.IH [OF rest f(1) this, unfolded f(2,3) t]
  from f(5) obtain b1 where b1: "handled r1 = handled r @ b1"
    "iw_tables w1 = (iw_tables w)(im_entityType (ru_data r) := insert_all env (im_entityType (ru_data r)) (iw_tables w (im_entityType (ru_data r))) b1)"
    by blast
  from IH obtain b2 where b2: "handled r' = handled r1 @ b2"
    "iw_tables w' = (iw_tables w1)(im_entityType (ru_data r) := insert_all env (im_entityType (ru_data r)) (iw_tables w1 (im_entityType (ru_data r))) b2)"
    by blast
  have "handled r' = handled r @ (b1 @ b2)" "iw_tables w' = (iw_tables w)(im_entityType (ru_data r) :=
      insert_all env (im_entityType (ru_data r)) (iw_tables w (im_entityType (ru_data r))) (b1 @ b2))"
    by (simp_all add: b1 b2 insert_all_append)
  moreover have "ru_success r' - ru_success r = int (length (iw_tables w' (im_entityType (ru_data r)))) - int (length (iw_tables w (im_entityType (ru_data r))))"
    using IH f(6) by linarith
  ultimately show ?case using IH by blast
qed (auto intro: exI [of _ "[]"])

lemma length_map_throw: "map_throw f xs = Inr ys \<Longrightarrow> length ys = length xs"
  by (induction xs arbitrary: ys) (auto split: sum.splits)

lemma parsed_records_not_Nil: "parsed_records p = Some recs \<Longrightarrow> recs \<noteq> []"
  by (auto simp: parsed_records_def split: option.splits list.splits if_splits)

definition fresh_run :: "ms \<Rightarrow> import_data \<Rightarrow> 'r list \<Rightarrow> 'r import_run" where
  "fresh_run now d rs = \<lparr>ru_data = d, ru_records = rs, ru_start = now, ru_next = 0, ru_processed = 0, ru_success = 0, ru_failure = 0,
     ru_errors = []\<rparr>"

lemma fresh_run_simps [simp]:
  "ru_data (fresh_run now d rs) = d" "ru_records (fresh_run now d rs) = rs" "ru_next (fresh_run now d rs) = 0"
  "ru_processed (fresh_run now d rs) = 0" "ru_success (fresh_run now d rs) = 0" "ru_failure (fresh_run now d rs) = 0"
  "handled (fresh_run now d rs) = []" "rs \<noteq> [] \<Longrightarrow> run_counted (fresh_run now d rs)"
  by (simp_all add: fresh_run_def handled_def run_counted_def)

definition being_processed :: "ms \<Rightarrow> import_data \<Rightarrow> 'r import_world \<Rightarrow> 'r import_world" where
  "being_processed now d w = write_job (im_jobId d) (\<lambda>j. j\<lparr>ij_status := J_PROCESSING, ij_startedAt := Some now\<rparr>) w"

lemma process_start_iff:
  "process_start env now d w = (Inr r, w1) \<longleftrightarrow>
     (\<exists>bytes recs rs. find_job (im_jobId d) w \<noteq> None \<and> map_of (iw_files w) (im_fileKey d) = Some bytes \<and>
        parsed_records (ie_parse env (im_fileFormat d) (im_options d) bytes) = Some recs \<and> has_validator (im_entityType d) \<and>
        map_throw (ie_row env (im_entityType d)) recs = Inr rs \<and> r = fresh_run now d rs \<and> w1 = being_processed now d w)"
  by (auto simp: process_start_def Let_def being_processed_def fresh_run_def split: option.splits sum.splits if_splits)

lemma process_import_effect:
  assumes start: "process_start env now d w = (Inr r0, w0)" and size: "0 < batch_size d"
  shows "\<exists>r w2 w3. process_import env now d w = (Inr r, w2) \<and> ru_records r = ru_records r0 \<and>
    iw_tables w2 = (iw_tables w)(im_entityType d := insert_all env (im_entityType d) (iw_tables w (im_entityType d)) (ru_records r0)) \<and>
    ru_success r = int (length (iw_tables w2 (im_entityType d))) - int (length (iw_tables w (im_entityType d))) \<and>
    ru_processed r = int (length (ru_records r0)) \<and> (\<not> skips d \<longrightarrow> ru_success r + ru_failure r = ru_processed r) \<and>
    w2 = process_finish now r w3 \<and> ru_data r = d \<and> process_batches env now (nat (total_batches r0)) r0 w0 = (r, w3)"
proof -
  from start [unfolded process_start_iff] obtain rs where r0: "r0 = fresh_run now d rs" "w0 = being_processed now d w" and ne: "rs \<noteq> []"
    using parsed_records_not_Nil length_map_throw by (metis length_0_conv)
  have pos: "0 \<le> total_batches r0" using less_ceil_div [OF size, of "-1" "int (length rs)"] size by (simp add: total_batches_def r0)
  obtain r w3 where p: "process_batches env now (nat (total_batches r0)) r0 w0 = (r, w3)" by fastforce
  have "run_counted r0" "ru_next r0 + int (nat (total_batches r0)) = total_batches r0" using ne pos by (simp_all add: r0)
  note f = process_batches_effect [OF p this]
  have d: "ru_data r = d" and rs: "ru_records r = rs" and c: "run_counted r" and nx: "ru_next r = total_batches r0" using f by (simp_all add: r0)
  have "\<not> total_batches r0 < total_batches r0" by simp
  then have all: "int (length rs) \<le> ru_next r * batch_size d" using less_ceil_div [OF size, of "total_batches r0" "int (length rs)"]
    by (simp add: nx total_batches_def r0)
  then have h: "handled r = rs" by (simp add: handled_def d rs)
  from f obtain b where b: "handled r = handled r0 @ b" "iw_tables w3 = (iw_tables w0)(im_entityType (ru_data r0) :=
      insert_all env (im_entityType (ru_data r0)) (iw_tables w0 (im_entityType (ru_data r0))) b)" by blast
  have "b = rs" using b(1) h by (simp add: r0)
  then have t: "iw_tables w3 = (iw_tables w)(im_entityType d := insert_all env (im_entityType d) (iw_tables w (im_entityType d)) rs)"
    using b(2) by (simp add: r0 being_processed_def)
  have s: "ru_success r = int (length (iw_tables w3 (im_entityType d))) - int (length (iw_tables w (im_entityType d)))"
    using f by (simp add: r0 being_processed_def)
  have n: "ru_processed r = int (length rs)" and sk: "\<not> skips d \<longrightarrow> ru_success r + ru_failure r = ru_processed r"
    using c size all by (simp_all add: run_counted_def d rs)
  have fin: "iw_tables (process_finish now r w3) = iw_tables w3" by (simp add: process_finish_def Let_def)
  have "process_import env now d w = (Inr r, process_finish now r w3)" by (simp add: process_import_def start p)
  then show ?thesis using rs t s n sk fin d p by (intro exI [of _ r] exI [of _ "process_finish now r w3"] exI [of _ w3]) (auto simp: r0)
qed

text \<open>What a finished run leaves of its job.\<close>

lemma find_job_finish:
  "find_job k (process_finish now r w) = (if k = im_jobId (ru_data r) then map_option (\<lambda>j. j\<lparr>ij_status := J_COMPLETED,
     ij_completedAt := Some now, ij_processed := ru_processed r, ij_success := ru_success r, ij_failure := ru_failure r, ij_percent := 100,
     ij_estimated := Some (of_int (now - ru_start r))\<rparr>) (find_job k w) else find_job k w)"
  by (simp add: process_finish_def Let_def)

lemma find_job_progress:
  "map_option (\<lambda>j. (ij_id j, ij_total j, ij_status j)) (find_job k (update_progress now r w)) =
   map_option (\<lambda>j. (ij_id j, ij_total j, ij_status j)) (find_job k w)"
  by (simp add: update_progress_def option.map_comp comp_def)

lemma process_batch_world:
  assumes "process_batch env now r w = (r', w')"
  shows "\<exists>rows. w' = update_progress now r' (w\<lparr>iw_tables := (iw_tables w)(im_entityType (ru_data r) := rows)\<rparr>)"
proof -
  obtain s f es rows where i: "insert_batch env (im_entityType (ru_data r)) (skips (ru_data r)) (current_batch r)
      (iw_tables w (im_entityType (ru_data r))) = (s, f, es, rows)" by (metis prod_cases4)
  have "w' = update_progress now r' (w\<lparr>iw_tables := (iw_tables w)(im_entityType (ru_data r) := rows)\<rparr>)"
    using assms i by (auto simp: process_batch_def Let_def)
  then show ?thesis by blast
qed

lemma find_job_batches:
  "process_batches env now n r w = (r', w') \<Longrightarrow> map_option (\<lambda>j. (ij_id j, ij_total j, ij_status j)) (find_job k w') =
     map_option (\<lambda>j. (ij_id j, ij_total j, ij_status j)) (find_job k w)"
proof (induction n arbitrary: r w)
  case (Suc n)
  obtain r1 w1 where p: "process_batch env now r w = (r1, w1)" by fastforce
  from process_batch_world [OF p] obtain rows
    where w1: "w1 = update_progress now r1 (w\<lparr>iw_tables := (iw_tables w)(im_entityType (ru_data r) := rows)\<rparr>)" by blast
  have "process_batches env now n r1 w1 = (r', w')" using Suc.prems by (simp add: p)
  from Suc.IH [OF this] show ?case unfolding w1 find_job_progress by simp
qed simp

lemma ids_write_job [simp]:
  assumes "\<And>j. ij_id (f j) = ij_id j"
  shows "ij_id ` set (iw_jobs (write_job i f w)) = ij_id ` set (iw_jobs w)"
proof -
  have "set (map ij_id (update_by ij_id i f (iw_jobs w))) = set (map ij_id (iw_jobs w))" by (simp only: keys_update_by [of ij_id f, OF assms])
  then show ?thesis by (simp add: write_job_def)
qed

lemma process_batch_keeps:
  assumes "process_batch env now r w = (r', w')"
  shows "iw_files w' = iw_files w" "iw_queue w' = iw_queue w" "ij_id ` set (iw_jobs w') = ij_id ` set (iw_jobs w)"
proof -
  from process_batch_world [OF assms] obtain rows where "w' = update_progress now r' (w\<lparr>iw_tables := (iw_tables w)(im_entityType (ru_data r) := rows)\<rparr>)"
    by blast
  then show "iw_files w' = iw_files w" "iw_queue w' = iw_queue w" "ij_id ` set (iw_jobs w') = ij_id ` set (iw_jobs w)"
    by (simp_all add: update_progress_def)
qed

lemma files_batches: "process_batches env now n r w = (r', w') \<Longrightarrow> iw_files w' = iw_files w"
proof (induction n arbitrary: r w)
  case (Suc n)
  obtain r1 w1 where p: "process_batch env now r w = (r1, w1)" by fastforce
  have "process_batches env now n r1 w1 = (r', w')" using Suc.prems by (simp add: p)
  from Suc.IH [OF this] process_batch_keeps [OF p] show ?case by simp
qed simp

lemma find_job_append: "i \<notin> ij_id ` set js \<Longrightarrow> ij_id j = i \<Longrightarrow> find_by ij_id i (js @ [j]) = Some j"
  using find_by_None_iff [of ij_id i js] by auto

text \<open>C10. Whatever the validation found, the worker offers every record of an uploaded file to the table, and leaves in it
  what inserting them one by one would leave, however large the batches are; other tables it leaves alone. The job
  is then completed, with the rows that came in as its successes and, unless duplicates were to be skipped, the
  others as its failures.\<close>

theorem import_takes_everything:
  assumes up: "import_upload env now newId (Some u) dto userId w = (Inr res, w1)"
    and fresh: "newId \<notin> ij_id ` set (iw_jobs w)" and queue: "iw_queue w = Some q"
    and recs: "parsed_records (ie_parse env (si_fileFormat dto) (si_options dto) (uf_buffer u)) = Some recs"
    and rows: "map_throw (ie_row env (si_entityType dto)) recs = Inr rs"
    and size: "0 < num_or (Option.bind (si_options dto) io_batchSize) 1000"
  shows "\<exists>d p r w2 j. iw_queue w1 = Some (q @ [(d, p)]) \<and> process_import env t d w1 = (Inr r, w2) \<and>
    iw_tables w2 = (iw_tables w)(si_entityType dto := insert_all env (si_entityType dto) (iw_tables w (si_entityType dto)) rs) \<and>
    find_job newId w2 = Some j \<and> ij_status j = J_COMPLETED \<and> ij_total j = int (length rs) \<and> ij_processed j = ij_total j \<and>
    ij_success j = int (length (iw_tables w2 (si_entityType dto))) - int (length (iw_tables w (si_entityType dto))) \<and>
    (Option.bind (si_options dto) io_skipInvalid \<noteq> Some True \<longrightarrow> ij_success j + ij_failure j = ij_total j)"
proof -
  let ?e = "si_entityType dto" let ?key = "file_key now (uf_name u)"
  from up recs obtain tr b where v: "validate_file (ie_maxSize env) (Some u) = Inr u" "has_validator ?e"
    "create_job env now newId dto u ?key userId recs tr b (w\<lparr>iw_files := js_map_set ?key (uf_buffer u) (iw_files w)\<rparr>) = (Inr res, w1)"
    by (auto simp: import_upload_def validate_file_def Let_def split: sum.splits if_splits option.splits)
  let ?j = "new_job now newId dto u (file_url env ?key) (int (length recs)) userId"
  obtain d where d0: "d = \<lparr>im_jobId = newId, im_entityType = ?e, im_fileKey = ?key, im_fileFormat = si_fileFormat dto,
     im_validCount = int (b_validRecords b), im_options = si_options dto\<rparr>" by simp
  then have d: "im_jobId d = newId" "im_entityType d = ?e" "im_fileKey d = ?key" "im_fileFormat d = si_fileFormat dto"
    "im_options d = si_options dto" by simp_all
  have w1: "iw_queue w1 = Some (q @ [(d, queue_priority (si_priority dto))])" "iw_tables w1 = iw_tables w" "iw_jobs w1 = iw_jobs w @ [?j]"
    "map_of (iw_files w1) ?key = Some (uf_buffer u)"
    using v(3) queue by (auto simp: create_job_def Let_def enqueue_import_def d0)
  have job: "find_job newId w1 = Some ?j" using find_job_append [OF fresh, of ?j] by (simp add: find_job_def w1(3) new_job_def)
  have start: "process_start env t d w1 = (Inr (fresh_run t d rs), being_processed t d w1)"
    unfolding process_start_iff d using job w1(4) recs v(2) rows by simp
  have size': "0 < batch_size d" using size by (simp add: batch_size_def d)
  from process_import_effect [OF start size', unfolded w1(2) d(2) fresh_run_simps] obtain r w2 w3
    where r: "process_import env t d w1 = (Inr r, w2)"
    "iw_tables w2 = (iw_tables w)(?e := insert_all env ?e (iw_tables w ?e) rs)"
    "ru_success r = int (length (iw_tables w2 ?e)) - int (length (iw_tables w ?e))"
    "ru_processed r = int (length rs)" "\<not> skips d \<longrightarrow> ru_success r + ru_failure r = ru_processed r"
    "w2 = process_finish t r w3" "ru_data r = d"
    "process_batches env t (nat (total_batches (fresh_run t d rs))) (fresh_run t d rs) (being_processed t d w1) = (r, w3)"
    by blast
  have "map_option (\<lambda>j. (ij_id j, ij_total j, ij_status j)) (find_job newId w3) = Some (newId, int (length recs), J_PROCESSING)"
    unfolding find_job_batches [OF r(8)] by (simp add: being_processed_def job new_job_def d)
  then obtain j3 where j3: "find_job newId w3 = Some j3" "ij_total j3 = int (length rs)" using length_map_throw [OF rows] by auto
  have sk: "skips d \<longleftrightarrow> Option.bind (si_options dto) io_skipInvalid = Some True" by (simp add: skips_def d)
  have "\<exists>j. find_job newId w2 = Some j \<and> ij_status j = J_COMPLETED \<and> ij_total j = int (length rs) \<and> ij_processed j = ij_total j \<and>
      ij_success j = ru_success r \<and> ij_failure j = ru_failure r"
    unfolding r(6) find_job_finish using j3 r(4) by (simp add: r(7) d)
  then show ?thesis using w1(1) r(1,2) r(3-5) sk by metis
qed

text \<open>The queue may deliver a job again: if every record has a unique column, the second run changes no table and counts
  no success.\<close>

theorem rerun_adds_nothing:
  assumes run: "process_import env t d w = (Inr r, w1)" and size: "0 < batch_size d"
    and unique: "\<forall>x \<in> set (ru_records r). ie_clash env (im_entityType d) x x"
  shows "\<exists>r2 w2. process_import env t2 d w1 = (Inr r2, w2) \<and> iw_tables w2 = iw_tables w1 \<and> ru_success r2 = 0"
proof -
  obtain r0 w0 where start: "process_start env t d w = (Inr r0, w0)"
    using run by (auto simp: process_import_def split: prod.splits sum.splits)
  from process_import_effect [OF start size] run obtain w3 where e: "ru_records r = ru_records r0"
    "iw_tables w1 = (iw_tables w)(im_entityType d := insert_all env (im_entityType d) (iw_tables w (im_entityType d)) (ru_records r0))"
    "w1 = process_finish t r w3" "ru_data r = d" "process_batches env t (nat (total_batches r0)) r0 w0 = (r, w3)" by auto
  from start [unfolded process_start_iff] obtain bytes recs rs where s: "find_job (im_jobId d) w \<noteq> None"
    "map_of (iw_files w) (im_fileKey d) = Some bytes" "parsed_records (ie_parse env (im_fileFormat d) (im_options d) bytes) = Some recs"
    "has_validator (im_entityType d)" "map_throw (ie_row env (im_entityType d)) recs = Inr rs" "r0 = fresh_run t d rs" "w0 = being_processed t d w"
    by blast
  have files: "iw_files w1 = iw_files w" using files_batches [OF e(5)] by (simp add: e(3) process_finish_def Let_def s(7) being_processed_def)
  have "find_job (im_jobId d) w3 \<noteq> None" using s(1) find_job_batches [OF e(5), of "im_jobId d"] by (auto simp: s(7) being_processed_def)
  then have job: "find_job (im_jobId d) w1 \<noteq> None" by (simp add: e(3,4) find_job_finish)
  have start2: "process_start env t2 d w1 = (Inr (fresh_run t2 d rs), being_processed t2 d w1)"
    unfolding process_start_iff using job s(2-5) files by auto
  have "insert_all env (im_entityType d) (iw_tables w1 (im_entityType d)) rs = iw_tables w1 (im_entityType d)"
    using insert_all_again [of rs env "im_entityType d" "iw_tables w (im_entityType d)"] unique by (simp add: e(1,2) s(6))
  then show ?thesis using process_import_effect [OF start2 size] by auto
qed

subsection \<open>Requests and workers in any order\<close>

text \<open>The state is the world with the runs in progress. A worker can be given whatever has been handed to the queue.\<close>

inductive import_step :: "'r import_env \<Rightarrow> 'r import_world \<times> 'r import_run list \<Rightarrow> 'r import_world \<times> 'r import_run list \<Rightarrow> bool" for env where
  step_upload: "import_upload env now newId f dto userId w = (res, w') \<Longrightarrow> import_step env (w, rs) (w', rs)"
| step_cancel: "cancel_import now rm i userId w = (res, w') \<Longrightarrow> import_step env (w, rs) (w', rs)"
| step_retry: "retry_import i userId w = (res, w') \<Longrightarrow> import_step env (w, rs) (w', rs)"
| step_refused: "iw_queue w = Some q \<Longrightarrow> d \<in> fst ` set q \<Longrightarrow> process_start env now d w = (Inl e, w') \<Longrightarrow> import_step env (w, rs) (w', rs)"
| step_start: "iw_queue w = Some q \<Longrightarrow> d \<in> fst ` set q \<Longrightarrow> process_start env now d w = (Inr r, w') \<Longrightarrow> import_step env (w, rs) (w', rs @ [r])"
| step_batch: "k < length rs \<Longrightarrow> ru_next (rs ! k) < total_batches (rs ! k) \<Longrightarrow> process_batch env now (rs ! k) w = (r, w') \<Longrightarrow>
    import_step env (w, rs) (w', rs[k := r])"
| step_finish: "k < length rs \<Longrightarrow> total_batches (rs ! k) \<le> ru_next (rs ! k) \<Longrightarrow>
    import_step env (w, rs) (process_finish now (rs ! k) w, take k rs @ drop (Suc k) rs)"

abbreviation import_steps :: "'r import_env \<Rightarrow> 'r import_world \<times> 'r import_run list \<Rightarrow> 'r import_world \<times> 'r import_run list \<Rightarrow> bool" where
  "import_steps env \<equiv> (import_step env)\<^sup>*\<^sup>*"

text \<open>The jobs of a later state, one by one: those of the earlier state, changed by \<open>f\<close>, and those of an upload.\<close>

lemma jobs_upload:
  assumes "import_upload env now newId f dto userId w = (res, w')"
  obtains (same) "w' = w"
  | (stored) u :: uploaded_file where "iw_files w' = js_map_set (file_key now (uf_name u)) (uf_buffer u) (iw_files w)" "iw_jobs w' = iw_jobs w"
  | (created) u :: uploaded_file and n where "iw_files w' = js_map_set (file_key now (uf_name u)) (uf_buffer u) (iw_files w)"
      "iw_jobs w' = iw_jobs w @ [new_job now newId dto u (file_url env (file_key now (uf_name u))) n userId]"
proof (cases "validate_file (ie_maxSize env) f")
  case (Inr u)
  note up = assms [unfolded import_upload_def Let_def Inr sum.case]
  show thesis
  proof (cases "\<exists>x. res = Inr x")
    case True
    then obtain recs tr b where "create_job env now newId dto u (file_key now (uf_name u)) userId recs tr b
        (w\<lparr>iw_files := js_map_set (file_key now (uf_name u)) (uf_buffer u) (iw_files w)\<rparr>) = (res, w')"
      using up by (auto split: sum.splits option.splits if_splits)
    then show thesis by (intro created [of u "int (length recs)"]) (auto simp: create_job_def enqueue_import_def Let_def)
  next
    case False
    then have "w' = w\<lparr>iw_files := js_map_set (file_key now (uf_name u)) (uf_buffer u) (iw_files w)\<rparr>"
      using up by (auto simp: create_job_def Let_def split: sum.splits option.splits if_splits)
    then show thesis by (intro stored [of u]) simp_all
  qed
qed (use assms same in \<open>simp add: import_upload_def\<close>)

lemma own_job_Inr: "own_job m i userId w = Inr j \<Longrightarrow> find_job i w = Some j \<and> ij_createdBy j = userId"
  by (auto simp: own_job_def split: option.splits if_splits)

lemma world_cancel:
  "cancel_import now rm i userId w = (res, w') \<Longrightarrow>
     w' = w \<or> w' = write_job i (\<lambda>j. j\<lparr>ij_status := J_CANCELLED, ij_completedAt := Some now\<rparr>) w"
  by (auto simp: cancel_import_def split: sum.splits if_splits)

lemma world_retry:
  "retry_import i userId w = (res, w') \<Longrightarrow> w' = w \<or> iw_jobs w' = iw_jobs (write_job i reset_job w) \<and> iw_files w' = iw_files w"
  by (auto simp: retry_import_def enqueue_import_def Let_def split: sum.splits if_splits)

lemma world_refused:
  "process_start env now d w = (Inl e, w') \<Longrightarrow>
     w' = w \<or> (\<exists>i m. w' = fail_job now i m (being_processed now d w))"
  by (auto simp: process_start_def being_processed_def Let_def split: sum.splits option.splits if_splits)

lemma file_key_slash: "CHR ''/'' \<in> set (file_key now n)"
  by (simp add: file_key_def)

lemma keys_js_map_set: "fst ` set (js_map_set k v m) = insert k (fst ` set m)"
  by (simp flip: dom_map_of_conv_image_fst)

lemma fail_job_simps [simp]:
  "iw_files (fail_job now i m w) = iw_files w" "iw_queue (fail_job now i m w) = iw_queue w"
  "ij_id ` set (iw_jobs (fail_job now i m w)) = ij_id ` set (iw_jobs w)"
  by (simp_all add: fail_job_def Let_def)

lemma being_processed_simps [simp]:
  "iw_files (being_processed now d w) = iw_files w" "iw_queue (being_processed now d w) = iw_queue w"
  "ij_id ` set (iw_jobs (being_processed now d w)) = ij_id ` set (iw_jobs w)"
  by (simp_all add: being_processed_def)

lemma process_finish_simps [simp]:
  "iw_files (process_finish now r w) = iw_files w" "iw_queue (process_finish now r w) = iw_queue w"
  "ij_id ` set (iw_jobs (process_finish now r w)) = ij_id ` set (iw_jobs w)"
  by (simp_all add: process_finish_def Let_def)

lemma world_start: "process_start env now d w = (Inr r, w') \<Longrightarrow> w' = being_processed now d w"
  by (auto simp: process_start_iff)

definition folder_keys :: "'r import_world \<Rightarrow> bool" where
  "folder_keys w \<longleftrightarrow> (\<forall>k \<in> fst ` set (iw_files w). CHR ''/'' \<in> set k)"

lemma folder_keys_stored:
  assumes "folder_keys w" "iw_files w' = js_map_set (file_key now n) b (iw_files w)"
  shows "folder_keys w'"
  unfolding folder_keys_def assms(2) keys_js_map_set using assms(1) file_key_slash by (auto simp: folder_keys_def)

text \<open>Every stored file lies in a folder, and no job is ever removed.\<close>

lemma step_keeps:
  assumes "import_step env s s'" "folder_keys (fst s)"
  shows "folder_keys (fst s') \<and> ij_id ` set (iw_jobs (fst s)) \<subseteq> ij_id ` set (iw_jobs (fst s'))"
  using assms
proof (cases rule: import_step.cases)
  case (step_upload now newId f dto userId w res w' rs)
  from step_upload(3) show ?thesis
  proof (cases rule: jobs_upload)
    case same
    then show ?thesis using assms(2) by (simp add: step_upload(1,2))
  next
    case (stored u)
    then show ?thesis using folder_keys_stored [OF _ stored(1)] assms(2) by (simp add: step_upload(1,2))
  next
    case (created u n)
    then show ?thesis using folder_keys_stored [OF _ created(1)] assms(2) by (auto simp: step_upload(1,2))
  qed
next
  case (step_cancel now rm i userId w res w' rs)
  with world_cancel [OF step_cancel(3)] assms(2) show ?thesis by (auto simp: folder_keys_def)
next
  case (step_retry i userId w res w' rs)
  have "ij_id ` set (iw_jobs (write_job i reset_job w)) = ij_id ` set (iw_jobs w)" by (rule ids_write_job) (simp add: reset_job_def)
  with step_retry world_retry [OF step_retry(3)] assms(2) show ?thesis by (auto simp: folder_keys_def)
next
  case (step_refused w q d now e w' rs)
  from world_refused [OF step_refused(5)] consider "w' = w" | i m where "w' = fail_job now i m (being_processed now d w)" by blast
  then have "iw_files w' = iw_files w" "ij_id ` set (iw_jobs w') = ij_id ` set (iw_jobs w)" by (cases; simp)+
  then show ?thesis using assms(2) by (simp add: step_refused(1,2) folder_keys_def)
next
  case (step_start w q d now r w' rs)
  then show ?thesis using assms(2) by (simp add: world_start [OF step_start(5)] folder_keys_def)
next
  case (step_batch k rs now w r w')
  then show ?thesis using assms(2) process_batch_keeps [OF step_batch(5)] by (simp add: folder_keys_def)
next
  case (step_finish k rs w now)
  then show ?thesis using assms(2) by (simp add: folder_keys_def)
qed

lemma steps_keep:
  assumes "import_steps env s s'" "folder_keys (fst s)"
  shows "folder_keys (fst s') \<and> ij_id ` set (iw_jobs (fst s)) \<subseteq> ij_id ` set (iw_jobs (fst s'))"
  using assms
proof (induction rule: rtranclp_induct)
  case (step s1 s2)
  then show ?case using step_keeps by blast
qed simp

lemma last_segment_no_slash: "CHR ''/'' \<notin> set (last_segment url)"
proof -
  have "\<forall>p \<in> set (split_on (CHR ''/'') s). CHR ''/'' \<notin> set p" for s
    by (induction s) (auto split: list.splits)
  then show ?thesis unfolding last_segment_def using last_in_set split_on_not_Nil by blast
qed

text \<open>C21. A retry cannot succeed: it asks for the last segment of the file's address, and every stored file lies in a
  folder. Whatever happens before and after, a worker that is given the retried job marks it as failed.\<close>

theorem retry_always_fails:
  assumes "iw_files w0 = []" "import_steps env (w0, rs0) (w, rs)" "retry_import i userId w = (Inr i', w1)"
    "import_steps env (w1, rs) (w2, rs2)"
  shows "\<exists>d p w3 j. last (the (iw_queue w1)) = (d, p) \<and> im_jobId d = i \<and> process_start env t d w2 = (Inl ''File download failed'', w3) \<and>
    find_job i w3 = Some j \<and> ij_status j = J_FAILED"
proof -
  have "folder_keys w" using steps_keep [OF assms(2)] assms(1) by (simp add: folder_keys_def)
  obtain j q where j: "find_job i w = Some j" and q: "iw_queue w = Some q" and w1: "w1 = enqueue_import (retry_data j)
      (queue_priority (Some (ij_priority j))) (write_job i reset_job w)"
    using assms(3) own_job_Inr by (auto simp: retry_import_def Let_def split: sum.splits if_splits dest: own_job_Inr)
  have last: "last (the (iw_queue w1)) = (retry_data j, queue_priority (Some (ij_priority j)))" using q by (simp add: w1 enqueue_import_def)
  have id: "ij_id j = i" using j by (auto simp: find_job_def dest: find_by_SomeD)
  have ids: "ij_id ` set (iw_jobs w1) = ij_id ` set (iw_jobs w)"
    by (simp add: w1 enqueue_import_def) (rule ids_write_job, simp add: reset_job_def)
  have "folder_keys w1" using \<open>folder_keys w\<close> by (simp add: w1 enqueue_import_def folder_keys_def)
  with steps_keep [OF assms(4)] have w2: "folder_keys w2" "ij_id ` set (iw_jobs w1) \<subseteq> ij_id ` set (iw_jobs w2)" by simp_all
  have "i \<in> ij_id ` set (iw_jobs w2)" using w2(2) ids j id by (auto simp: find_job_def dest!: find_by_SomeD)
  then obtain j2 where j2: "find_job i w2 = Some j2" by (cases "find_job i w2") (auto simp: find_job_def find_by_None_iff)
  have "map_of (iw_files w2) (im_fileKey (retry_data j)) = None"
    using w2(1) last_segment_no_slash [of "ij_fileUrl j"] unfolding map_of_eq_None_iff folder_keys_def by (auto simp: retry_data_def)
  then have "process_start env t (retry_data j) w2 =
      (Inl ''File download failed'', fail_job t i ''File download failed'' (being_processed t (retry_data j) w2))"
    using j2 by (simp add: process_start_def being_processed_def retry_data_def id Let_def)
  moreover have "\<exists>j3. find_job i (fail_job t i ''File download failed'' (being_processed t (retry_data j) w2)) = Some j3 \<and> ij_status j3 = J_FAILED"
    using j2 by (simp add: fail_job_def being_processed_def Let_def retry_data_def id)
  ultimately show ?thesis using last id by (simp add: retry_data_def)
qed

subsection \<open>Counters\<close>

definition job_counted :: "import_job \<Rightarrow> bool" where
  "job_counted j \<longleftrightarrow> 0 \<le> ij_success j \<and> 0 \<le> ij_failure j \<and> ij_success j + ij_failure j \<le> ij_processed j \<and> 0 \<le> ij_percent j \<and> ij_percent j \<le> 100"

definition counters_ok :: "'r import_world \<Rightarrow> bool" where
  "counters_ok w \<longleftrightarrow> (\<forall>j \<in> set (iw_jobs w). job_counted j)"

lemma counters_write: "counters_ok w \<Longrightarrow> (\<And>j. job_counted j \<Longrightarrow> job_counted (f j)) \<Longrightarrow> counters_ok (write_job i f w)"
  by (auto simp: counters_ok_def write_job_def update_by_def set_update_where)

lemma counters_errors: "counters_ok (w\<lparr>iw_errors := es\<rparr>) = counters_ok w"
  by (simp add: counters_ok_def)

lemma percent_of_bounds: "0 \<le> p \<Longrightarrow> p \<le> n \<Longrightarrow> 0 < n \<Longrightarrow> 0 \<le> percent_of p n \<and> percent_of p n \<le> 100"
proof -
  assume a: "0 \<le> p" "p \<le> n" "0 < n"
  have "percent_of p n * (2 * n) \<le> 200 * p + n"
    using div_mult_mod_eq [of "200 * p + n" "2 * n"] pos_mod_sign [of "2 * n" "200 * p + n"] a(3) unfolding percent_of_def by linarith
  moreover have "101 * (2 * n) \<le> percent_of p n * (2 * n)" if "101 \<le> percent_of p n" using that a(3) by (intro mult_right_mono) simp_all
  ultimately have "percent_of p n < 101" using a by linarith
  moreover have "0 \<le> percent_of p n" unfolding percent_of_def by (rule pos_imp_zdiv_nonneg_iff [THEN iffD2]) (use a in simp_all)
  ultimately show ?thesis by simp
qed

lemma step_counters:
  assumes "import_step env s s'" "counters_ok (fst s)" "\<forall>r \<in> set (snd s). run_counted r"
  shows "counters_ok (fst s') \<and> (\<forall>r \<in> set (snd s'). run_counted r)"
  using assms(1)
proof (cases rule: import_step.cases)
  case (step_upload now newId f dto userId w res w' rs)
  from step_upload(3) have "counters_ok w'"
    by (cases rule: jobs_upload) (use assms(2) in \<open>auto simp: step_upload(1) counters_ok_def new_job_def job_counted_def\<close>)
  then show ?thesis using assms(3) by (simp add: step_upload(1,2))
next
  case (step_cancel now rm i userId w res w' rs)
  have "counters_ok (write_job i (\<lambda>j. j\<lparr>ij_status := J_CANCELLED, ij_completedAt := Some now\<rparr>) w)"
    using assms(2) by (intro counters_write) (simp_all add: step_cancel(1) job_counted_def)
  then show ?thesis using world_cancel [OF step_cancel(3)] assms(2,3) by (auto simp: step_cancel(1,2))
next
  case (step_retry i userId w res w' rs)
  have "counters_ok (write_job i reset_job w)"
    using assms(2) by (intro counters_write) (simp_all add: step_retry(1) job_counted_def reset_job_def)
  then show ?thesis using world_retry [OF step_retry(3)] assms(2,3) by (auto simp: step_retry(1,2) counters_ok_def)
next
  case (step_refused w q d now e w' rs)
  have b: "counters_ok (being_processed now d w)"
    unfolding being_processed_def using assms(2) by (intro counters_write) (simp_all add: step_refused(1) job_counted_def)
  have "counters_ok (write_job i (\<lambda>j. j\<lparr>ij_status := J_FAILED, ij_completedAt := Some now, ij_percent := 0\<rparr>) (being_processed now d w))" for i
    using b by (intro counters_write) (simp_all add: job_counted_def)
  then have "counters_ok (fail_job now i m (being_processed now d w))" for i m by (simp add: fail_job_def Let_def counters_ok_def)
  then show ?thesis using world_refused [OF step_refused(5)] assms(2,3) by (auto simp: step_refused(1,2))
next
  case (step_start w q d now r w' rs)
  have "counters_ok (being_processed now d w)"
    unfolding being_processed_def using assms(2) by (intro counters_write) (simp_all add: step_start(1) job_counted_def)
  moreover have "run_counted r" using step_start(5) unfolding process_start_iff
    using parsed_records_not_Nil length_map_throw fresh_run_simps(8) by (metis length_0_conv)
  ultimately show ?thesis using assms(3) by (auto simp: step_start(1,2) world_start [OF step_start(5)])
next
  case (step_batch k rs now w r w')
  have c: "run_counted (rs ! k)" using assms(3) step_batch(3) by (simp add: step_batch(1))
  note f = process_batch_effect [OF step_batch(5) c step_batch(4)]
  have p: "0 \<le> ru_processed r" "ru_processed r \<le> int (length (ru_records r))" "0 < int (length (ru_records r))"
    using f(1) by (auto simp: run_counted_def)
  from process_batch_world [OF step_batch(5)] obtain rows where
    w': "w' = update_progress now r (w\<lparr>iw_tables := (iw_tables w)(im_entityType (ru_data (rs ! k)) := rows)\<rparr>)" by blast
  have "counters_ok w'" unfolding w' update_progress_def
    by (rule counters_write) (use assms(2) f(1) percent_of_bounds [OF p] in
      \<open>simp_all add: step_batch(1) counters_ok_def job_counted_def run_counted_def\<close>)
  moreover have "\<forall>x \<in> set (rs[k := r]). run_counted x" using assms(3) f(1) set_update_subset_insert [of rs k r] by (auto simp: step_batch(1))
  ultimately show ?thesis by (simp add: step_batch(2))
next
  case (step_finish k rs w now)
  have c: "run_counted (rs ! k)" using assms(3) step_finish(3) by (simp add: step_finish(1))
  have "counters_ok (process_finish now (rs ! k) w)"
    unfolding process_finish_def Let_def counters_errors
    by (rule counters_write) (use assms(2) c in \<open>simp_all add: step_finish(1) job_counted_def run_counted_def\<close>)
  then show ?thesis using assms(3) by (auto simp: step_finish(1,2) dest: in_set_takeD in_set_dropD)
qed

text \<open>Over every sequence of requests, deliveries and batches, those of several workers on the same job included, the
  counters of a job fit together: successes and failures are at most the records gone through, and the progress is
  a percentage.\<close>

theorem import_counters:
  assumes "iw_jobs w0 = []" "import_steps env (w0, []) (w, rs)" "j \<in> set (iw_jobs w)"
  shows "0 \<le> ij_success j \<and> 0 \<le> ij_failure j \<and> ij_success j + ij_failure j \<le> ij_processed j \<and> ij_percent j \<in> {0..100}"
proof -
  have "counters_ok (fst s') \<and> (\<forall>r \<in> set (snd s'). run_counted r)" if "import_steps env (w0, []) s'" for s'
    using that
  proof (induction rule: rtranclp_induct)
    case (step s1 s2)
    then show ?case using step_counters by blast
  qed (simp add: counters_ok_def assms(1))
  from this [OF assms(2)] show ?thesis using assms(3) by (simp add: counters_ok_def job_counted_def)
qed

subsection \<open>Instances\<close>

text \<open>A file of names, one byte each; the name \<open>x\<close> is refused by the table, and names are unique.\<close>

definition demo_import :: "string import_env" where
  "demo_import = \<lparr>ie_js = plain_js, ie_lookup = (\<lambda>_ _ _. Inr True), ie_maxSize = 100, ie_baseUrl = ''b'',
     ie_parse = (\<lambda>f opt s. \<lparr>pa_success = True, pa_data = Some (map (\<lambda>c. [(''name'', Text [c])]) s), pa_error = None\<rparr>),
     ie_rules = (\<lambda>_. []), ie_transform = (\<lambda>_ r. Inr r),
     ie_row = (\<lambda>_ r. case field_value r ''name'' of Text s \<Rightarrow> Inr s | _ \<Rightarrow> Inl ''no name''),
     ie_valid = (\<lambda>_ s. s \<noteq> ''x''), ie_refs = (\<lambda>_ _. True), ie_clash = (\<lambda>_ s t. s = t)\<rparr>"

definition demo_market :: "string import_world" where
  "demo_market = \<lparr>iw_jobs = [], iw_errors = [], iw_files = [], iw_queue = Some [], iw_users = [''u''], iw_tables = (\<lambda>_. [''a''])\<rparr>"

definition demo_file :: uploaded_file where "demo_file = \<lparr>uf_name = ''f'', uf_size = 4, uf_buffer = ''abxc''\<rparr>"

definition demo_start :: start_import where
  "demo_start = \<lparr>si_entityType = E_PRODUCT, si_fileFormat = F_CSV, si_priority = None,
     si_options = Some \<lparr>io_validateData = None, io_skipInvalid = None, io_batchSize = Some 3\<rparr>\<rparr>"

lemma demo_upload_ok: "\<exists>res. fst (import_upload demo_import 7 ''i'' (Some demo_file) demo_start ''u'' demo_market) = Inr res"
  by (simp add: import_upload_def validate_file_def demo_file_def demo_import_def demo_start_def demo_market_def parsed_records_def has_validator_def
      validate_batch_def upload_options_def batch_records.simps validate_record_def enough_errors_def create_job_def Let_def
      preload_unique_constraints_def)

theorem import_takes_everything_witness:
  "\<exists>d r w2. process_import demo_import 9 d (snd (import_upload demo_import 7 ''i'' (Some demo_file) demo_start ''u'' demo_market)) = (Inr r, w2) \<and>
     iw_tables w2 E_PRODUCT = [''a'', ''b'', ''c'']"
proof -
  obtain res w1 where up: "import_upload demo_import 7 ''i'' (Some demo_file) demo_start ''u'' demo_market = (Inr res, w1)"
    using demo_upload_ok by (metis prod.collapse)
  have fresh: "''i'' \<notin> ij_id ` set (iw_jobs demo_market)" and q: "iw_queue demo_market = Some []" by (simp_all add: demo_market_def)
  have recs: "parsed_records (ie_parse demo_import (si_fileFormat demo_start) (si_options demo_start) (uf_buffer demo_file)) =
      Some [[(''name'', Text ''a'')], [(''name'', Text ''b'')], [(''name'', Text ''x'')], [(''name'', Text ''c'')]]"
    by (simp add: demo_import_def demo_file_def parsed_records_def)
  have rows: "map_throw (ie_row demo_import (si_entityType demo_start))
      [[(''name'', Text ''a'')], [(''name'', Text ''b'')], [(''name'', Text ''x'')], [(''name'', Text ''c'')]] = Inr [''a'', ''b'', ''x'', ''c'']"
    by (simp add: demo_import_def field_value_def)
  have size: "0 < num_or (Option.bind (si_options demo_start) io_batchSize) 1000" by (simp add: demo_start_def num_or_def)
  have "insert_all demo_import E_PRODUCT [''a''] [''a'', ''b'', ''x'', ''c''] = [''a'', ''b'', ''c'']" by (simp add: takes_row_def demo_import_def)
  moreover from import_takes_everything [OF up fresh q recs rows size, of 9] obtain d r w2 where
    x: "process_import demo_import 9 d w1 = (Inr r, w2)" "iw_tables w2 = (iw_tables demo_market)(si_entityType demo_start :=
      insert_all demo_import (si_entityType demo_start) (iw_tables demo_market (si_entityType demo_start)) [''a'', ''b'', ''x'', ''c''])"
    by blast
  moreover have "si_entityType demo_start = E_PRODUCT" "iw_tables demo_market E_PRODUCT = [''a'']" by (simp_all add: demo_start_def demo_market_def)
  ultimately have "iw_tables w2 E_PRODUCT = [''a'', ''b'', ''c'']" by (simp only: fun_upd_same)
  then show ?thesis using x(1) up by auto
qed

definition demo_data :: import_data where
  "demo_data = \<lparr>im_jobId = ''i'', im_entityType = E_PRODUCT, im_fileKey = ''imports/7-f'', im_fileFormat = F_CSV, im_validCount = 4,
     im_options = Some \<lparr>io_validateData = None, io_skipInvalid = None, io_batchSize = Some 3\<rparr>\<rparr>"

definition demo_job :: import_job where
  "demo_job = new_job 7 ''i'' demo_start demo_file ''b/api/v1/files/imports/7-f'' 4 ''u''"

definition demo_loaded :: "string import_world" where
  "demo_loaded = demo_market\<lparr>iw_jobs := [demo_job], iw_files := [(''imports/7-f'', ''abxc'')]\<rparr>"

lemma demo_starts: "process_start demo_import 9 demo_data demo_loaded =
    (Inr (fresh_run 9 demo_data [''a'', ''b'', ''x'', ''c'']), being_processed 9 demo_data demo_loaded)"
  unfolding process_start_iff
  by (simp add: find_job_def demo_loaded_def demo_job_def new_job_def demo_data_def demo_import_def parsed_records_def has_validator_def field_value_def)

theorem rerun_adds_nothing_witness:
  "\<exists>r2 w2. process_import demo_import 12 demo_data (snd (process_import demo_import 9 demo_data demo_loaded)) = (Inr r2, w2) \<and> ru_success r2 = 0"
proof -
  have size: "0 < batch_size demo_data" by (simp add: batch_size_def demo_data_def num_or_def)
  from process_import_effect [OF demo_starts size] obtain r w1 where p: "process_import demo_import 9 demo_data demo_loaded = (Inr r, w1)" by blast
  have "\<forall>x \<in> set (ru_records r). ie_clash demo_import (im_entityType demo_data) x x" by (simp add: demo_import_def)
  from rerun_adds_nothing [OF p size this, of 12] show ?thesis by (auto simp: p)
qed

definition demo_failing :: import_data where "demo_failing = demo_data\<lparr>im_fileKey := ''gone''\<rparr>"

definition demo_queued :: "string import_world" where
  "demo_queued = demo_market\<lparr>iw_jobs := [demo_job], iw_queue := Some [(demo_failing, 5)]\<rparr>"

lemma demo_fails:
  "process_start demo_import 9 demo_failing demo_queued =
     (Inl ''File download failed'', fail_job 9 ''i'' ''File download failed'' (being_processed 9 demo_failing demo_queued))"
  by (simp add: process_start_def being_processed_def find_job_def demo_queued_def demo_job_def new_job_def demo_failing_def demo_data_def
      demo_market_def Let_def write_job_def)

theorem retry_always_fails_witness:
  "\<exists>d p w3. process_start demo_import 20 d (snd (retry_import ''i'' ''u'' (fail_job 9 ''i'' ''File download failed'' (being_processed 9 demo_failing demo_queued)))) =
     (Inl ''File download failed'', w3)"
proof -
  let ?w = "fail_job 9 ''i'' ''File download failed'' (being_processed 9 demo_failing demo_queued)"
  have "import_step demo_import (demo_queued, []) (?w, [])"
    by (rule step_refused [OF _ _ demo_fails, where q = "[(demo_failing, 5)]"]) (simp_all add: demo_queued_def)
  then have steps: "import_steps demo_import (demo_queued, []) (?w, [])" by blast
  have nf: "iw_files demo_queued = []" by (simp add: demo_queued_def demo_market_def)
  obtain i' w1 where r: "retry_import ''i'' ''u'' ?w = (Inr i', w1)"
    by (simp add: retry_import_def own_job_def fail_job_def being_processed_def find_job_def write_job_def demo_queued_def demo_job_def
        new_job_def demo_failing_def demo_data_def demo_market_def Let_def)
  from retry_always_fails [OF nf steps r rtranclp.rtrancl_refl, of 20] show ?thesis by (auto simp: r)
qed

theorem import_counters_witness:
  "\<forall>j \<in> set (iw_jobs (snd (import_upload demo_import 7 ''i'' (Some demo_file) demo_start ''u'' demo_market))). ij_percent j \<le> 100"
proof
  fix j assume j: "j \<in> set (iw_jobs (snd (import_upload demo_import 7 ''i'' (Some demo_file) demo_start ''u'' demo_market)))"
  obtain res w1 where up: "import_upload demo_import 7 ''i'' (Some demo_file) demo_start ''u'' demo_market = (res, w1)" by fastforce
  have "import_steps demo_import (demo_market, []) (w1, [])" using step_upload [OF up] by blast
  moreover have "iw_jobs demo_market = []" by (simp add: demo_market_def)
  ultimately show "ij_percent j \<le> 100" using import_counters [of demo_market demo_import w1 "[]" j] j up by simp
qed

end
