(* ===== verification/Spec2Isabelle.thy ===== *)
theory Spec2Isabelle
  imports Rate_Window Rate_Bucket Rate_Adaptive Circuit_Breaker Load_Balancer Cart_Lifecycle Request_Queue Quota
    Violation_Tracker Categories Import_Validation
    Dynamic_Limits Seller_Verification Auth_Accounts Alert_Facts Throttler Device_Facts Connection_Facts Product_Facts User_Facts
    Credential_Facts Csrf Import_Job_Facts
begin

text \<open>
  A model of the MASH backend, a NestJS server for a mushroom market (\<open>src/src\<close>, TypeScript over PostgreSQL
  through Prisma and over Redis through ioredis), and what its services guarantee.

  \<^bold>\<open>How the program is put together.\<close> A request passes the gateway (rate limits, quotas, circuit breakers,
  load balancing), is authenticated, and reaches a controller, which calls the service of its module. Services
  keep their state in tables and cache answers in Redis. Scheduled jobs write the same tables.

  \<^bold>\<open>Conventions.\<close>
  A table is the list of its rows in insertion order, a row a record with the columns the code reads or
  writes. \<open>findFirst\<close> without an order is the first row that matches, which is what PostgreSQL does on a heap
  without updates and what the laws of the theorems do not depend on where the column is unique. A handler is
  one atomic function of its arguments and the tables to an answer and the tables after it; where the code
  awaits between a read and a write and the interleaving matters the handler is split into steps
  (\<open>Orders\<close>, the two halves of an order). An exception is the left side of a sum (\<open>http_error\<close> in \<open>Prelude\<close>),
  its message cut down to what tells the cases apart. Generated ids, random numbers, the time in milliseconds,
  the answers of other servers and of the database's collation are arguments. Money is an exact rational,
  rounded where the code rounds; numbers of JavaScript are exact integers and rationals, overflow of
  \<open>Decimal\<close> columns and of doubles is not modelled. Text is the list of its UTF-8 bytes. Logging, tracing and
  metrics are left out unless another part reads them.

  \<^bold>\<open>Theories.\<close>
  \<^item> \<open>Prelude\<close>: HTTP errors, truthiness and the other JavaScript helpers, JSON, association lists with the
    order of a JavaScript \<open>Map\<close>, rows by key, decimal texts, the locale \<open>status_table\<close> of a status that only
    rises along a rank. \<open>Js_Value\<close>: numbers and values of JavaScript, their conversions and \<open>JSON.stringify\<close>.
  \<^item> \<open>Redis_Service\<close> (\<open>database/redis.service.ts\<close>): the wrapper over an abstract ioredis client. The client is a
    parameter; the locale \<open>redis_server\<close> states what the documentation of Redis promises of the commands used,
    \<open>kv_cache\<close> what a cache over it may rely on, and both are interpreted on a concrete client.
  \<^item> \<open>Rate_Limit\<close>, \<open>Rate_Window\<close>, \<open>Rate_Bucket\<close>, \<open>Rate_Adaptive\<close> (\<open>gateway/rate-limiting/strategies\<close>): fixed
    and sliding window, token and leaky bucket, adaptive limits. The locale \<open>rate_limiter\<close> is the contract of a
    strategy: a bound on what any sequence of requests is admitted.
  \<^item> \<open>Dynamic_Limits\<close> (\<open>dynamic-rate-limit.service.ts\<close>): the table of overrides, their cache and the choice of
    the one that applies. \<open>Quota\<close>, \<open>Violation_Tracker\<close> (\<open>auth/services\<close>): quotas by UTC day and month over a
    calendar model of \<open>Date\<close>, and the backoff of users who exceed their limits.
  \<^item> \<open>Circuit_Breaker\<close>, \<open>Load_Balancer\<close> (\<open>gateway/services\<close>): the rows of the breaker refine an abstract
    three-state machine; the balancer's five strategies.
  \<^item> \<open>Cache_Service\<close> (\<open>common/services/cache.service.ts\<close>): namespaced keys, lifetimes, invalidation by tag over
    \<open>Redis_Service\<close>; \<open>Cache_Coherence\<close>: caches over it that agree with a table, \<open>timed_cache\<close> for values that depend
    on the time and \<open>coherent_cache\<close> for those that do not; \<open>Categories\<close> (\<open>categories.service.ts\<close>): the category
    tree and its cached reads.
  \<^item> \<open>Throttler\<close> (\<open>auth/guards/throttler.guard.ts\<close>, its storage and the analytics of violations): the guard that joins
    whitelist, dynamic limits, backoff, quotas and the limits by role and endpoint.
  \<^item> \<open>Shop_Data\<close>: the rows orders, carts and requests share. \<open>Shipping\<close>, \<open>Cart_Cache\<close>, \<open>Cart\<close>, \<open>Cart_Merge\<close>,
    \<open>Cart_Scheduler\<close>, \<open>Cart_Lifecycle\<close> (\<open>modules/cart\<close>): the cart, its cache, the merge of a guest's cart, the
    jobs, and all of them as one step relation. \<open>Orders\<close> (\<open>orders.service.ts\<close>, with the runs of its requests) and \<open>Checkout\<close> (the handler of
    \<open>cart.controller.ts\<close> that joins both).
  \<^item> \<open>Request_Queue\<close>, \<open>Seller_Verification\<close>: requests that wait for an administrator, the change of a role, and
    the review of a seller's documents over the same rows.
  \<^item> \<open>Import_Validation\<close> (\<open>import-export/services/validation.service.ts\<close>): the rules for imported records. \<open>Import_Jobs\<close>,
    \<open>Import_Job_Facts\<close> (\<open>import.service.ts\<close>, \<open>import.processor.ts\<close>): the life of an import, with requests and workers as steps.
  \<^item> \<open>Auth_Data\<close>, \<open>Auth_Codes\<close>, \<open>Auth_Tokens\<close>, \<open>Auth_Social\<close>, \<open>Auth_Accounts\<close> (\<open>auth.service.ts\<close>, its helpers,
    strategy and guards): accounts, registration and reset codes, log-in and tokens, sign-in by a provider, and
    all operations as one step relation. JWT and bcrypt are a record of functions, \<open>auth_library\<close> what they document.
  \<^item> \<open>Alerts\<close>, \<open>Alert_Facts\<close> (\<open>modules/alerts/services\<close>): the rules with any object as condition, the engine that
    evaluates an event, the history, and the runs of all their operations.
  \<^item> \<open>Devices\<close>, \<open>Device_Facts\<close> (\<open>modules/devices\<close>): devices and their commands, self-registration, the broker's and the
    socket's events and the task that marks silent devices. \<open>Connections\<close>, \<open>Connection_Facts\<close> (\<open>modules/websocket\<close>): the
    three maps of the connection manager, with the guard as a step of its own.
  \<^item> \<open>Products\<close>, \<open>Product_Facts\<close> (\<open>products.service.ts\<close>) and \<open>Users\<close>, \<open>User_Facts\<close> (\<open>users.service.ts\<close>): the catalogue and
    its cached lists, with the stock movements of orders beside the requests; users, their profiles and addresses, and the role a request has.
  \<^item> \<open>Credentials\<close>, \<open>Credential_Facts\<close> (\<open>profile/services\<close>): second factor and backup codes, API keys, sessions.
    \<open>Csrf\<close> (\<open>common/middleware/csrf-protection.middleware.ts\<close>): the tokens of forms, the comparison on 32-bit words.

  \<^bold>\<open>What the lemmas show.\<close> For each component: the invariant of its state and that every operation keeps it
  (accounts, carts, breakers, requests, the catalogue, default addresses, socket maps); what each operation
  answers on every branch, errors included; how the components compose (a checkout charges exactly the cart, the reads of categories are those of the table,
  an override in force was in the table within five minutes, a category or cart in the cache is the row).
  Step relations (\<open>cart_step\<close>, \<open>auth_step\<close> and the runs of the breaker, of the limiters, of orders, alerts and
  the catalogue, and of the requests) carry the properties over any order of operations. The claims C1 and on stand before the theorems
  they name. Several theorems state what the code does and should not; the manifest lists these as findings.

  \<^bold>\<open>Recursion.\<close> Everything is total. The tree of categories is built by recursion whose depth is bounded by the
  number of rows (the proof is \<open>category_tree_terminates\<close>, and it holds for tables with cycles); the search for a user
  name by the number of accounts (\<open>username_search\<close>); the retries for Google accounts by the counter of the code.

  \<^bold>\<open>Not modelled\<close>, and why: controllers other than the checkout (they pass the fields of a request on);
  analytics, search and reports (aggregates the database computes, floating-point statistics);
  mail, SMS, push, payment, delivery and the transport of websocket and MQTT messages (I/O); parsers and generators of files
  (libraries); data transfer objects beyond the fields the operations read; seeds and tests. The manifest lists
  every such part with its files.
\<close>

end
